(* ===== verification/Prelude.thy ===== *)
theory Prelude
  imports Complex_Main "HOL-Library.Signed_Division" "HOL-Library.AList"
begin

text \<open>
  Shared notions of the development: errors as values, the effect type of code that calls
  a service, truncating BigInt division, the insertion-ordered \<^verbatim>\<open>Map\<close> of JavaScript, and the
  \<^verbatim>\<open>named_theorems\<close> collections the component theories feed.

  \<^item> \<open>result_split\<close> collects the split rules of results, \<open>bigint_arith\<close> the facts
    about truncating division, \<open>jsmap_simps\<close> the lookup laws of ordered maps.
\<close>

named_theorems bigint_arith \<open>facts about truncating BigInt division\<close>
named_theorems jsmap_simps \<open>lookup laws of insertion-ordered maps\<close>
named_theorems guard_simps \<open>when a validation guard lets a call through\<close>

section \<open>Results: a thrown exception on the left, a returned value on the right\<close>

definition bind_result :: "'e + 'a \<Rightarrow> ('a \<Rightarrow> 'e + 'b) \<Rightarrow> 'e + 'b" where
  "bind_result m f = (case m of Inl e \<Rightarrow> Inl e | Inr x \<Rightarrow> f x)"

definition ensure :: "bool \<Rightarrow> 'e \<Rightarrow> 'e + unit" where
  "ensure b e = (if b then Inr () else Inl e)"

lemma bind_result_simps [simp]:
  "bind_result (Inl e) f = Inl e"
  "bind_result (Inr x) f = f x"
  by (simp_all add: bind_result_def)

lemma bind_result_Inr_iff:
  "bind_result m f = Inr y \<longleftrightarrow> (\<exists>x. m = Inr x \<and> f x = Inr y)"
  by (cases m) simp_all

lemma bind_result_Inl_iff:
  "bind_result m f = Inl e \<longleftrightarrow> m = Inl e \<or> (\<exists>x. m = Inr x \<and> f x = Inl e)"
  by (cases m) simp_all

lemma ensure_simps [simp]:
  "ensure b e = Inr u \<longleftrightarrow> b"
  "ensure b e = Inl e' \<longleftrightarrow> \<not> b \<and> e' = e"
  by (auto simp: ensure_def)

lemma bind_ensure [simp]:
  "bind_result (ensure b e) f = (if b then f () else Inl e)"
  by (simp add: ensure_def)

lemmas result_iffs = bind_result_Inr_iff bind_result_Inl_iff

text \<open>
  What the modelled TypeScript throws: the built-in error classes, and the error classes the
  repository declares, each with its message.
\<close>

datatype js_exn =
    RangeError string
  | SyntaxError string
  | TypeError string
  | PlainError string
  | QuoteValidationError string
  | SwapValidationError string
  | ValidationError string

section \<open>Effects: a call that may throw and that changes a state\<close>

type_synonym ('s, 'e, 'a) io = "'s \<Rightarrow> ('e + 'a) \<times> 's"

definition io_return :: "'a \<Rightarrow> ('s, 'e, 'a) io" where
  "io_return x s = (Inr x, s)"

definition io_throw :: "'e \<Rightarrow> ('s, 'e, 'a) io" where
  "io_throw e s = (Inl e, s)"

definition io_bind :: "('s, 'e, 'a) io \<Rightarrow> ('a \<Rightarrow> ('s, 'e, 'b) io) \<Rightarrow> ('s, 'e, 'b) io" where
  "io_bind m f s = (case m s of (Inl e, s') \<Rightarrow> (Inl e, s') | (Inr x, s') \<Rightarrow> f x s')"

text \<open>\<^verbatim>\<open>try { m } catch (e) { h(e) }\<close>: the handler runs in the state the failing call left.\<close>

definition io_catch :: "('s, 'e, 'a) io \<Rightarrow> ('e \<Rightarrow> ('s, 'e, 'a) io) \<Rightarrow> ('s, 'e, 'a) io" where
  "io_catch m h s = (case m s of (Inl e, s') \<Rightarrow> h e s' | (Inr x, s') \<Rightarrow> (Inr x, s'))"

lemma io_simps [simp]:
  "io_return x s = (Inr x, s)"
  "io_throw e s = (Inl e, s)"
  by (simp_all add: io_return_def io_throw_def)

lemma io_bind_cong_Inr: "m s = (Inr x, s') \<Longrightarrow> io_bind m f s = f x s'"
  by (simp add: io_bind_def)

lemma io_bind_cong_Inl: "m s = (Inl e, s') \<Longrightarrow> io_bind m f s = (Inl e, s')"
  by (simp add: io_bind_def)

lemma io_bind_Inr_iff:
  "io_bind m f s = (Inr y, s') \<longleftrightarrow> (\<exists>x t. m s = (Inr x, t) \<and> f x t = (Inr y, s'))"
  by (auto simp: io_bind_def split: prod.splits sum.splits)

section \<open>BigInt division truncates towards zero\<close>

text \<open>
  \<^verbatim>\<open>a / b\<close> on BigInt throws RangeError for \<^verbatim>\<open>b = 0n\<close> and rounds towards zero otherwise, which is
  \<open>sdiv\<close> of the library.
\<close>

definition bigdiv :: "'e \<Rightarrow> int \<Rightarrow> int \<Rightarrow> 'e + int" where
  "bigdiv div_by_zero a b = (if b = 0 then Inl div_by_zero else Inr (a sdiv b))"

lemma sdiv_nonneg_pos [bigint_arith]:
  fixes a b :: int
  assumes "0 \<le> a" and "0 \<le> b"
  shows "a sdiv b = a div b"
  using assms by (auto simp: signed_divide_int_def sgn_if)

lemma bigdiv_pos [simp]: "0 < b \<Longrightarrow> 0 \<le> a \<Longrightarrow> bigdiv e a b = Inr (a div b)"
  by (simp add: bigdiv_def sdiv_nonneg_pos)

lemma bigdiv_zero [simp]: "bigdiv e a 0 = Inl e"
  by (simp add: bigdiv_def)

lemma bigdiv_Inr_iff: "bigdiv e a b = Inr q \<longleftrightarrow> b \<noteq> 0 \<and> q = a sdiv b"
  by (auto simp: bigdiv_def)

abbreviation big_div :: "int \<Rightarrow> int \<Rightarrow> js_exn + int" where
  "big_div \<equiv> bigdiv (RangeError ''Division by zero'')"

lemma div_mult_le_int [bigint_arith]:
  fixes a b :: int
  assumes "0 < b"
  shows "a div b * b \<le> a"
  using assms by (metis div_mult_mod_eq le_add_same_cancel1 pos_mod_sign)

lemma div_mult_lt_int [bigint_arith]:
  fixes a b :: int
  assumes "0 < b"
  shows "a < (a div b + 1) * b"
proof -
  have "a = a div b * b + a mod b" by simp
  moreover have "a mod b < b" using assms by simp
  moreover have "(a div b + 1) * b = a div b * b + b" by (simp add: distrib_right)
  ultimately show ?thesis by linarith
qed

lemma div_le_iff_int:
  fixes a b c :: int
  assumes "0 < b"
  shows "a div b \<le> c \<longleftrightarrow> a < (c + 1) * b"
proof
  assume "a div b \<le> c"
  then have "(a div b + 1) * b \<le> (c + 1) * b"
    using assms by (simp add: mult_right_mono)
  with div_mult_lt_int [OF assms, of a] show "a < (c + 1) * b" by linarith
next
  assume "a < (c + 1) * b"
  with div_mult_le_int [OF assms, of a] have "a div b * b < (c + 1) * b" by linarith
  then show "a div b \<le> c" using assms by simp
qed

lemma le_div_iff_int:
  fixes a b c :: int
  assumes "0 < b"
  shows "c \<le> a div b \<longleftrightarrow> c * b \<le> a"
proof -
  have "c \<le> a div b \<longleftrightarrow> \<not> a div b \<le> c - 1" by linarith
  then show ?thesis using div_le_iff_int [OF assms, of a "c - 1"] by auto
qed

end
