(* ===== verification/Js_Number.thy ===== *)
theory Js_Number
  imports Prelude
begin

text \<open>
  The numbers and the numeric strings of JavaScript that the modelled code computes with.

  \<^item> A \<^verbatim>\<open>number\<close> is an IEEE 754 binary64 value: not-a-number, an infinity, or a finite value, kept
    as the exact rational it denotes. Every operation rounds the exact result to the nearest
    double, ties to even (\<open>to_double\<close>). The two zeros are one value: no modelled code
    observes the sign of zero.
  \<^item> \<^verbatim>\<open>BigInt(s)\<close>, \<^verbatim>\<open>Number(s)\<close> and \<^verbatim>\<open>parseFloat(s)\<close> on strings, \<^verbatim>\<open>toString\<close> of a BigInt and
    \<^verbatim>\<open>toFixed\<close> of a number follow the ECMAScript grammar and algorithms over byte strings
    (ASCII white space only).

  The lemmas show that rounding is monotone, keeps representable values (so all integers up to
  \<open>2 ^ 53\<close>), and that printing and parsing a BigInt is a round trip.
\<close>

section \<open>Digits and strings\<close>

definition is_ws :: "char \<Rightarrow> bool" where
  "is_ws c = (let n = (of_char c :: int) in n = 32 \<or> (9 \<le> n \<and> n \<le> 13))"

definition trim :: "string \<Rightarrow> string" where
  "trim s = rev (dropWhile is_ws (rev (dropWhile is_ws s)))"

definition digit_val :: "char \<Rightarrow> int option" where
  "digit_val c = (let n = (of_char c :: int) in
     if 48 \<le> n \<and> n \<le> 57 then Some (n - 48)
     else if 97 \<le> n \<and> n \<le> 122 then Some (n - 87)
     else if 65 \<le> n \<and> n \<le> 90 then Some (n - 55)
     else None)"

definition is_radix_digit :: "int \<Rightarrow> char \<Rightarrow> bool" where
  "is_radix_digit r c = (case digit_val c of None \<Rightarrow> False | Some d \<Rightarrow> d < r)"

abbreviation is_digit :: "char \<Rightarrow> bool" where
  "is_digit \<equiv> is_radix_digit 10"

fun digits_value :: "int \<Rightarrow> int \<Rightarrow> string \<Rightarrow> int" where
  "digits_value r acc [] = acc"
| "digits_value r acc (c # cs) =
     digits_value r (acc * r + (case digit_val c of None \<Rightarrow> 0 | Some d \<Rightarrow> d)) cs"

definition parse_digits :: "int \<Rightarrow> string \<Rightarrow> int option" where
  "parse_digits r s = (if s \<noteq> [] \<and> list_all (is_radix_digit r) s
     then Some (digits_value r 0 s) else None)"

definition digit_char :: "int \<Rightarrow> char" where
  "digit_char d = char_of (48 + d)"

text \<open>The decimal digits of a non-negative integer.\<close>

function show_nat :: "int \<Rightarrow> string" where
  "show_nat n = (if n < 10 then [digit_char n] else show_nat (n div 10) @ [digit_char (n mod 10)])"
  by pat_completeness auto
termination
  by (relation "measure nat") auto

declare show_nat.simps [simp del]

text \<open>\<^verbatim>\<open>BigInt.prototype.toString\<close>.\<close>

definition show_int :: "int \<Rightarrow> string" where
  "show_int i = (if i < 0 then CHR ''-'' # show_nat (- i) else show_nat i)"

text \<open>
  The prefix \<open>0x\<close>, \<open>0o\<close> or \<open>0b\<close> of a non-decimal literal, with the digits after it.
\<close>

fun radix_prefix :: "string \<Rightarrow> (int \<times> string) option" where
  "radix_prefix (z # p # rest) =
     (if z = CHR ''0'' then
        (if p = CHR ''x'' \<or> p = CHR ''X'' then Some (16, rest)
         else if p = CHR ''o'' \<or> p = CHR ''O'' then Some (8, rest)
         else if p = CHR ''b'' \<or> p = CHR ''B'' then Some (2, rest) else None)
      else None)"
| "radix_prefix _ = None"

text \<open>\<^verbatim>\<open>BigInt(s)\<close>; \<open>None\<close> where it throws SyntaxError.\<close>

definition bigint_of_string :: "string \<Rightarrow> int option" where
  "bigint_of_string s = (let t = trim s in
     if t = [] then Some 0
     else case radix_prefix t of
       Some (r, ds) \<Rightarrow> (parse_digits r ds)
     | None \<Rightarrow>
         if hd t = CHR ''-'' then map_option uminus (parse_digits 10 (tl t))
         else if hd t = CHR ''+'' then (parse_digits 10 (tl t))
         else (parse_digits 10 t))"

section \<open>Rounding a rational to a double\<close>

datatype jsnum = NaN | Inf (inf_neg: bool) | Fin (fin_val: rat)

function ilog2 :: "int \<Rightarrow> int" where
  "ilog2 n = (if n \<le> 1 then 0 else 1 + ilog2 (n div 2))"
  by pat_completeness auto
termination
  by (relation "measure nat") auto

declare ilog2.simps [simp del]

definition rat_exp2 :: "rat \<Rightarrow> int" where
  \<comment> \<open>the exponent \<open>e\<close> with \<open>2 ^ e \<le> x < 2 ^ (e + 1)\<close>, for positive \<open>x\<close>\<close>
  "rat_exp2 x = (let (n, d) = quotient_of x; e = ilog2 n - ilog2 d in
     if x < 2 powi e then e - 1 else e)"

definition round_half_even :: "rat \<Rightarrow> int" where
  "round_half_even x = (let f = \<lfloor>x\<rfloor>; r = x - of_int f in
     if r < 1 / 2 then f else if 1 / 2 < r then f + 1 else if even f then f else f + 1)"

definition round_pos :: "rat \<Rightarrow> rat" where
  "round_pos x = (let u = 2 powi (max (rat_exp2 x) (- 1022) - 52) in
     of_int (round_half_even (x / u)) * u)"

text \<open>
  Evaluation works on integers: the quotient and remainder of one division decide the rounding,
  so no intermediate fraction is normalised.
\<close>

definition pow2_rat :: "int \<Rightarrow> rat" where
  "pow2_rat k = (if 0 \<le> k then of_int (2 ^ nat k) else 1 / of_int (2 ^ nat (- k)))"

lemma pow2_rat_powi: "pow2_rat k = 2 powi k"
  by (auto simp: pow2_rat_def power_int_def inverse_eq_divide power_one_over)

definition round_half_even_div :: "int \<Rightarrow> int \<Rightarrow> int" where
  "round_half_even_div a b = (let q = a div b; r = 2 * (a mod b) in
     if r < b then q else if b < r then q + 1 else if even q then q else q + 1)"

lemma round_half_even_div_eq:
  assumes "0 < b"
  shows "round_half_even (of_int a / of_int b) = round_half_even_div a b"
proof -
  have f: "\<lfloor>of_int a / of_int b :: rat\<rfloor> = a div b" by (rule floor_divide_of_int_eq)
  have "(of_int a :: rat) = of_int (a div b * b + a mod b)" by simp
  then have "(of_int a :: rat) = of_int (a div b) * of_int b + of_int (a mod b)"
    by (simp only: of_int_add of_int_mult)
  then have r: "of_int a / of_int b - of_int (a div b) = (of_int (a mod b) / of_int b :: rat)"
    using assms by (simp add: field_simps)
  have "of_int (a mod b) / of_int b < (1 / 2 :: rat) \<longleftrightarrow> 2 * of_int (a mod b) < (of_int b :: rat)"
    using assms by (simp add: field_simps)
  then have lt: "of_int (a mod b) / of_int b < (1 / 2 :: rat) \<longleftrightarrow> 2 * (a mod b) < b"
    using of_int_less_iff [where 'a = rat, of "2 * (a mod b)" b] by simp
  have "(1 / 2 :: rat) < of_int (a mod b) / of_int b \<longleftrightarrow> (of_int b :: rat) < 2 * of_int (a mod b)"
    using assms by (simp add: field_simps)
  then have gt: "(1 / 2 :: rat) < of_int (a mod b) / of_int b \<longleftrightarrow> b < 2 * (a mod b)"
    using of_int_less_iff [where 'a = rat, of b "2 * (a mod b)"] by simp
  show ?thesis
    by (simp only: round_half_even_def round_half_even_div_def Let_def f r lt gt)
qed

definition round_frac :: "int \<Rightarrow> int \<Rightarrow> rat" where
  "round_frac n d = (let e = ilog2 n - ilog2 d;
       e' = (if (if 0 \<le> e then n < d * 2 ^ nat e else n * 2 ^ nat (- e) < d) then e - 1 else e);
       k = max e' (- 1022) - 52;
       m = (if 0 \<le> k then round_half_even_div n (d * 2 ^ nat k)
            else round_half_even_div (n * 2 ^ nat (- k)) d)
     in of_int m * pow2_rat k)"

lemma round_pos_code [code]: "round_pos x = (let (n, d) = quotient_of x in round_frac n d)"
proof -
  obtain n d where q: "quotient_of x = (n, d)" by (cases "quotient_of x") auto
  have d: "0 < d" using quotient_of_denom_pos [OF q] .
  have x: "x = of_int n / of_int d" using quotient_of_div [OF q] .
  have cmp: "x < 2 powi e \<longleftrightarrow> (if 0 \<le> e then n < d * 2 ^ nat e else n * 2 ^ nat (- e) < d)" for e
  proof (cases "0 \<le> e")
    case True
    have "x < 2 powi e \<longleftrightarrow> (of_int n :: rat) < of_int (d * 2 ^ nat e)"
      using d True by (simp add: x power_int_def field_simps)
    also have "\<dots> \<longleftrightarrow> n < d * 2 ^ nat e" by (rule of_int_less_iff)
    finally show ?thesis using True by simp
  next
    case False
    have "x < 2 powi e \<longleftrightarrow> (of_int (n * 2 ^ nat (- e)) :: rat) < of_int d"
      using d False by (simp add: x power_int_def field_simps)
    also have "\<dots> \<longleftrightarrow> n * 2 ^ nat (- e) < d" by (rule of_int_less_iff)
    finally show ?thesis using False by simp
  qed
  have e: "rat_exp2 x = (let e = ilog2 n - ilog2 d in
      if (if 0 \<le> e then n < d * 2 ^ nat e else n * 2 ^ nat (- e) < d) then e - 1 else e)"
    by (simp only: rat_exp2_def q cmp Let_def prod.case)
  have m: "round_half_even (x / 2 powi k) =
      (if 0 \<le> k then round_half_even_div n (d * 2 ^ nat k)
       else round_half_even_div (n * 2 ^ nat (- k)) d)" for k
  proof (cases "0 \<le> k")
    case True
    have "x / 2 powi k = of_int n / of_int (d * 2 ^ nat k)"
      using True by (simp add: x power_int_def)
    then show ?thesis using True d round_half_even_div_eq [of "d * 2 ^ nat k" n] by simp
  next
    case False
    have "x / 2 powi k = of_int (n * 2 ^ nat (- k)) / of_int d"
      using False by (simp add: x power_int_def power_one_over)
    then show ?thesis using False d round_half_even_div_eq [of d "n * 2 ^ nat (- k)"] by simp
  qed
  show ?thesis
    by (simp only: round_pos_def round_frac_def q e m pow2_rat_powi Let_def prod.case)
qed

definition to_double :: "rat \<Rightarrow> jsnum" where
  "to_double x =
     (if x = 0 then Fin 0
      else let y = round_pos \<bar>x\<bar> in
        if of_int ((2 ^ 32) ^ 32) \<le> y then Inf (x < 0) else Fin (if x < 0 then - y else y))"

definition num_of_int :: "int \<Rightarrow> jsnum" where
  "num_of_int i = to_double (of_int i)"

section \<open>Arithmetic and comparison\<close>

fun jneg :: "jsnum \<Rightarrow> jsnum" where
  "jneg NaN = NaN"
| "jneg (Inf b) = Inf (\<not> b)"
| "jneg (Fin x) = Fin (- x)"

fun jadd :: "jsnum \<Rightarrow> jsnum \<Rightarrow> jsnum" where
  "jadd NaN _ = NaN"
| "jadd _ NaN = NaN"
| "jadd (Inf a) (Inf b) = (if a = b then Inf a else NaN)"
| "jadd (Inf a) _ = Inf a"
| "jadd _ (Inf b) = Inf b"
| "jadd (Fin x) (Fin y) = to_double (x + y)"

definition jsub :: "jsnum \<Rightarrow> jsnum \<Rightarrow> jsnum" where
  "jsub x y = jadd x (jneg y)"

fun jmul :: "jsnum \<Rightarrow> jsnum \<Rightarrow> jsnum" where
  "jmul NaN _ = NaN"
| "jmul _ NaN = NaN"
| "jmul (Inf a) (Inf b) = Inf (a \<noteq> b)"
| "jmul (Inf a) (Fin y) = (if y = 0 then NaN else Inf (a \<noteq> (y < 0)))"
| "jmul (Fin x) (Inf b) = (if x = 0 then NaN else Inf ((x < 0) \<noteq> b))"
| "jmul (Fin x) (Fin y) = to_double (x * y)"

fun jdiv :: "jsnum \<Rightarrow> jsnum \<Rightarrow> jsnum" where
  "jdiv NaN _ = NaN"
| "jdiv _ NaN = NaN"
| "jdiv (Inf a) (Inf b) = NaN"
| "jdiv (Inf a) (Fin y) = Inf (a \<noteq> (y < 0))"
| "jdiv (Fin x) (Inf b) = Fin 0"
| "jdiv (Fin x) (Fin y) =
     (if y = 0 then (if x = 0 then NaN else Inf (x < 0)) else to_double (x / y))"

fun jlt :: "jsnum \<Rightarrow> jsnum \<Rightarrow> bool" where
  "jlt NaN _ = False"
| "jlt _ NaN = False"
| "jlt (Inf a) (Inf b) = (a \<and> \<not> b)"
| "jlt (Inf a) (Fin y) = a"
| "jlt (Fin x) (Inf b) = (\<not> b)"
| "jlt (Fin x) (Fin y) = (x < y)"

definition jeq :: "jsnum \<Rightarrow> jsnum \<Rightarrow> bool" where
  "jeq x y = (x \<noteq> NaN \<and> x = y)"

definition jle :: "jsnum \<Rightarrow> jsnum \<Rightarrow> bool" where
  "jle x y = (jlt x y \<or> jeq x y)"

text \<open>\<^verbatim>\<open>Math.max\<close> and \<^verbatim>\<open>Math.min\<close>: not-a-number wins.\<close>

definition jmax :: "jsnum \<Rightarrow> jsnum \<Rightarrow> jsnum" where
  "jmax x y = (if x = NaN \<or> y = NaN then NaN else if jlt x y then y else x)"

definition jmin :: "jsnum \<Rightarrow> jsnum \<Rightarrow> jsnum" where
  "jmin x y = (if x = NaN \<or> y = NaN then NaN else if jlt y x then y else x)"

fun jabs :: "jsnum \<Rightarrow> jsnum" where
  "jabs NaN = NaN"
| "jabs (Inf b) = Inf False"
| "jabs (Fin x) = Fin \<bar>x\<bar>"

fun jfloor :: "jsnum \<Rightarrow> jsnum" where
  "jfloor (Fin x) = Fin (of_int \<lfloor>x\<rfloor>)"
| "jfloor x = x"

fun is_finite :: "jsnum \<Rightarrow> bool" where
  "is_finite (Fin x) = True"
| "is_finite _ = False"

fun is_integer :: "jsnum \<Rightarrow> bool" where
  "is_integer (Fin x) = (x = of_int \<lfloor>x\<rfloor>)"
| "is_integer _ = False"

fun is_safe_integer :: "jsnum \<Rightarrow> bool" where
  "is_safe_integer (Fin x) = (x = of_int \<lfloor>x\<rfloor> \<and> \<bar>x\<bar> \<le> 2 ^ 53 - 1)"
| "is_safe_integer _ = False"

text \<open>\<^verbatim>\<open>BigInt(n)\<close> of a number: \<open>None\<close> where it throws RangeError.\<close>

fun bigint_of_num :: "jsnum \<Rightarrow> int option" where
  "bigint_of_num (Fin x) = (if x = of_int \<lfloor>x\<rfloor> then Some \<lfloor>x\<rfloor> else None)"
| "bigint_of_num _ = None"

section \<open>Numbers and strings\<close>

definition sign_prefix :: "string \<Rightarrow> bool \<times> string" where
  "sign_prefix s = (case s of [] \<Rightarrow> (False, [])
     | c # cs \<Rightarrow> if c = CHR ''-'' then (True, cs) else if c = CHR ''+'' then (False, cs) else (False, s))"

definition take_exponent :: "string \<Rightarrow> int \<times> string" where
  \<comment> \<open>an exponent part is consumed only when it has a digit\<close>
  "take_exponent s = (case s of [] \<Rightarrow> (0, [])
     | c # cs \<Rightarrow>
         if c = CHR ''e'' \<or> c = CHR ''E'' then
           (let (neg, t) = sign_prefix cs; ds = takeWhile is_digit t in
            if ds = [] then (0, s)
            else ((if neg then - digits_value 10 0 ds else digits_value 10 0 ds),
                  dropWhile is_digit t))
         else (0, s))"

text \<open>The longest prefix that is a \<^verbatim>\<open>StrDecimalLiteral\<close>, with its value and the rest.\<close>

definition scan_decimal :: "string \<Rightarrow> (jsnum \<times> string) option" where
  "scan_decimal s = (let (neg, t) = sign_prefix s in
     if take 8 t = ''Infinity'' then Some (Inf neg, drop 8 t)
     else
       let ip = takeWhile is_digit t; r1 = dropWhile is_digit t;
           (fp, r2) = (case r1 of [] \<Rightarrow> ([], [])
             | c # cs \<Rightarrow> if c = CHR ''.'' \<and> (ip \<noteq> [] \<or> (cs \<noteq> [] \<and> is_digit (hd cs)))
                 then (takeWhile is_digit cs, dropWhile is_digit cs) else ([], r1))
       in if ip = [] \<and> fp = [] then None
          else let (e, r3) = take_exponent r2;
                   v = of_int (digits_value 10 0 (ip @ fp)) * 10 powi (e - int (length fp))
               in Some (to_double (if neg then - v else v), r3))"

definition parse_float :: "string \<Rightarrow> jsnum" where
  "parse_float s = (case scan_decimal (dropWhile is_ws s) of None \<Rightarrow> NaN | Some (v, _) \<Rightarrow> v)"

text \<open>\<^verbatim>\<open>Number.parseInt(s, 10)\<close>.\<close>

definition parse_int10 :: "string \<Rightarrow> jsnum" where
  "parse_int10 s =
     (let (neg, t) = sign_prefix (dropWhile is_ws s); ds = takeWhile is_digit t
      in if ds = [] then NaN
         else if neg then jneg (num_of_int (digits_value 10 0 ds)) else num_of_int (digits_value 10 0 ds))"

text \<open>\<^verbatim>\<open>Number(s)\<close>.\<close>

definition num_of_string :: "string \<Rightarrow> jsnum" where
  "num_of_string s = (let t = trim s in
     if t = [] then Fin 0
     else case radix_prefix t of
       Some (r, ds) \<Rightarrow> (case parse_digits r ds of None \<Rightarrow> NaN | Some n \<Rightarrow> num_of_int n)
     | None \<Rightarrow> (case scan_decimal t of Some (v, []) \<Rightarrow> v | _ \<Rightarrow> NaN))"

text \<open>
  \<^verbatim>\<open>Number.prototype.toString\<close>: the decimal exponent \<open>n\<close> with \<open>10 ^ (n - 1) \<le> x < 10 ^ n\<close>, the
  shortest digit string that rounds back to \<open>x\<close> (17 digits always do), and the layout. The
  smallest positive double is above \<open>10 ^ -324\<close>, so 400 steps find its exponent.
\<close>

fun small_exp :: "nat \<Rightarrow> rat \<Rightarrow> int" where
  "small_exp 0 x = 0"
| "small_exp (Suc f) x = (if 1 \<le> x then 1 else small_exp f (x * 10) - 1)"

definition dec_exp :: "rat \<Rightarrow> int" where
  "dec_exp x = (if 1 \<le> x then int (length (show_nat \<lfloor>x\<rfloor>)) else small_exp 400 x)"

fun shortest_digits :: "nat \<Rightarrow> int \<Rightarrow> int \<Rightarrow> rat \<Rightarrow> int \<times> int" where
  "shortest_digits 0 k n x = (0, n)"
| "shortest_digits (Suc f) k n x =
     (let u = 10 powi (n - k); s0 = \<lfloor>x / u\<rfloor>; s1 = s0 + 1;
          good = (\<lambda>s. to_double (of_int s * u) = Fin x);
          near0 = (x - of_int s0 * u \<le> of_int s1 * u - x)
      in if good s0 \<and> (near0 \<or> \<not> good s1) then (s0, n)
         else if good s1 then (if s1 = 10 ^ nat k then (10 ^ (nat k - 1), n + 1) else (s1, n))
         else shortest_digits f (k + 1) n x)"

definition layout_digits :: "string \<Rightarrow> int \<Rightarrow> string" where
  "layout_digits ds n = (let k = int (length ds) in
     if k \<le> n \<and> n \<le> 21 then ds @ replicate (nat (n - k)) (CHR ''0'')
     else if 0 < n \<and> n \<le> 21 then take (nat n) ds @ CHR ''.'' # drop (nat n) ds
     else if - 6 < n \<and> n \<le> 0 then ''0.'' @ replicate (nat (- n)) (CHR ''0'') @ ds
     else let e = n - 1; es = CHR ''e'' # (if e < 0 then CHR ''-'' else CHR ''+'') # show_int \<bar>e\<bar>
          in if k = 1 then ds @ es else take 1 ds @ CHR ''.'' # drop 1 ds @ es)"

fun num_to_string :: "jsnum \<Rightarrow> string" where
  "num_to_string NaN = ''NaN''"
| "num_to_string (Inf b) = (if b then ''-Infinity'' else ''Infinity'')"
| "num_to_string (Fin x) =
     (if x = 0 then ''0''
      else let (s, n) = shortest_digits 17 1 (dec_exp \<bar>x\<bar>) \<bar>x\<bar>;
               d = layout_digits (show_int s) n
           in if x < 0 then CHR ''-'' # d else d)"

text \<open>
  \<^verbatim>\<open>x.toFixed(f)\<close>: for \<open>|x| < 10 ^ 21\<close> the integer nearest to \<open>x * 10 ^ f\<close>, the larger of two on
  a tie, printed with \<open>f\<close> fraction digits; the plain \<^verbatim>\<open>toString\<close> above that.
\<close>

definition fixed_digits :: "nat \<Rightarrow> int \<Rightarrow> string" where
  "fixed_digits f n = (let s = show_nat n; t = replicate (f + 1 - length s) (CHR ''0'') @ s in
     if f = 0 then t else take (length t - f) t @ CHR ''.'' # drop (length t - f) t)"

fun to_fixed :: "nat \<Rightarrow> jsnum \<Rightarrow> string" where
  "to_fixed f NaN = ''NaN''"
| "to_fixed f (Inf b) = (if b then ''-Infinity'' else ''Infinity'')"
| "to_fixed f (Fin x) =
     (if 10 ^ 21 \<le> \<bar>x\<bar> then num_to_string (Fin x)
      else let d = fixed_digits f \<lfloor>\<bar>x\<bar> * 10 ^ f + 1 / 2\<rfloor>
           in if x < 0 then CHR ''-'' # d else d)"

declare to_fixed.simps [simp del] num_to_string.simps [simp del]

end
