(* ===== verification/Js_Rounding.thy ===== *)
theory Js_Rounding
  imports Js_Number
begin

text \<open>
  Laws of the number model: rounding to a double is monotone, keeps every value that has at most
  53 significant bits, and never overflows below a representable bound; printing a BigInt and
  parsing it back is a round trip.
\<close>

section \<open>The binary exponent\<close>

lemma ilog2_nonneg: "0 \<le> ilog2 n"
  by (induction n rule: ilog2.induct) (subst ilog2.simps, auto)

lemma half_bounds: "(a::int) \<le> n div 2 \<Longrightarrow> n div 2 < 2 * a \<Longrightarrow> 2 * a \<le> n \<and> n < 2 * (2 * a)"
  by presburger

lemma ilog2_bounds:
  "1 \<le> n \<Longrightarrow> 2 ^ nat (ilog2 n) \<le> n \<and> n < 2 ^ Suc (nat (ilog2 n))"
proof (induction n rule: ilog2.induct)
  case (1 n)
  show ?case
  proof (cases "n \<le> 1")
    case True
    with "1.prems" show ?thesis by (subst (1 2) ilog2.simps) auto
  next
    case False
    then have "1 \<le> n div 2" by auto
    with "1.IH" False have IH: "2 ^ nat (ilog2 (n div 2)) \<le> n div 2"
      "n div 2 < 2 ^ Suc (nat (ilog2 (n div 2)))" by auto
    have "ilog2 n = 1 + ilog2 (n div 2)" using False by (subst ilog2.simps) simp
    moreover have "0 \<le> ilog2 (n div 2)" by (rule ilog2_nonneg)
    ultimately have e: "nat (ilog2 n) = Suc (nat (ilog2 (n div 2)))" by simp
    show ?thesis unfolding e using half_bounds [OF IH(1)] IH(2) by (simp only: power_Suc)
  qed
qed

lemma powi_pos [simp]: "0 < (2::rat) powi k"
  by (simp add: zero_less_power_int)

lemma powi2_mono: "i \<le> j \<Longrightarrow> (2::rat) powi i \<le> 2 powi j"
  by (rule power_int_increasing) auto

lemma powi2_less_iff: "(2::rat) powi i < 2 powi j \<longleftrightarrow> i < j"
  by (metis linorder_not_le one_less_numeral_iff power_int_strict_increasing powi2_mono semiring_norm(76))

lemma powi2_diff: "e' \<le> e \<Longrightarrow> (2::rat) powi e / 2 powi e' = of_int (2 ^ nat (e - e'))"
  by (simp add: power_int_diff [symmetric] del: power_int_minus_left) (simp add: power_int_def)

lemma rat_exp2_bounds:
  assumes "0 < x"
  shows "2 powi (rat_exp2 x) \<le> x \<and> x < 2 powi (rat_exp2 x + 1)"
proof -
  obtain n d where q: "quotient_of x = (n, d)" by (cases "quotient_of x") auto
  have d: "0 < d" using quotient_of_denom_pos [OF q] .
  have x: "x = of_int n / of_int d" using quotient_of_div [OF q] .
  have n: "0 < n" using assms d by (simp add: x zero_less_divide_iff)
  define a b where "a = ilog2 n" and "b = ilog2 d"
  have ab: "0 \<le> a" "0 \<le> b" by (simp_all add: a_def b_def ilog2_nonneg)
  have conv: "(2::rat) powi i = of_int (2 ^ nat i)" if "0 \<le> i" for i
    using that by (simp add: power_int_def)
  have na: "2 powi a \<le> (of_int n :: rat)" "(of_int n :: rat) < 2 powi (a + 1)"
    using ilog2_bounds [of n] n ab
    by (simp_all add: conv a_def [symmetric] nat_add_distrib del: of_int_power flip: of_int_le_iff of_int_less_iff)
  have db: "2 powi b \<le> (of_int d :: rat)" "(of_int d :: rat) < 2 powi (b + 1)"
    using ilog2_bounds [of d] d ab
    by (simp_all add: conv b_def [symmetric] nat_add_distrib del: of_int_power flip: of_int_le_iff of_int_less_iff)
  have "x * of_int d = of_int n" using d by (simp add: x)
  have lo: "2 powi (a - b - 1) < x"
  proof -
    have "2 powi (a - b - 1) * of_int d < (2 powi (a - b - 1) * 2 powi (b + 1) :: rat)"
      using db by simp
    also have "\<dots> = (2::rat) powi a" by (simp flip: power_int_add)
    also have "\<dots> \<le> x * of_int d" using na d by (simp add: x)
    finally show ?thesis using d by simp
  qed
  have hi: "x < 2 powi (a - b + 1)"
  proof -
    have "x * of_int d < 2 powi (a + 1)" using na d by (simp add: x)
    also have "\<dots> = 2 powi (a - b + 1) * (2::rat) powi b" by (simp flip: power_int_add)
    also have "\<dots> \<le> 2 powi (a - b + 1) * of_int d" using db by simp
    finally show ?thesis using d by simp
  qed
  have "rat_exp2 x = (if x < 2 powi (a - b) then a - b - 1 else a - b)"
    by (simp add: rat_exp2_def q a_def b_def)
  then show ?thesis using lo hi by auto
qed

lemma rat_exp2_unique:
  assumes "2 powi e \<le> x" and "x < 2 powi (e + 1)"
  shows "rat_exp2 x = e"
proof -
  have "0 < x" using assms(1) powi_pos [of e] by linarith
  note b = rat_exp2_bounds [OF this]
  have "(2::rat) powi e < 2 powi (rat_exp2 x + 1)" using assms b by linarith
  moreover have "(2::rat) powi (rat_exp2 x) < 2 powi (e + 1)" using assms b by linarith
  ultimately show ?thesis by (simp add: powi2_less_iff)
qed

section \<open>Rounding to an integer\<close>

lemma rhe_of_int [simp]: "round_half_even (of_int n) = n"
  by (simp add: round_half_even_def Let_def)

lemma rhe_floor: "round_half_even x \<in> {\<lfloor>x\<rfloor>, \<lfloor>x\<rfloor> + 1}"
  by (auto simp: round_half_even_def Let_def)

lemma rhe_mono:
  assumes "x \<le> y"
  shows "round_half_even x \<le> round_half_even y"
proof (cases "\<lfloor>x\<rfloor> = \<lfloor>y\<rfloor>")
  case True
  then show ?thesis using assms by (auto simp: round_half_even_def Let_def)
next
  case False
  then have "\<lfloor>x\<rfloor> + 1 \<le> \<lfloor>y\<rfloor>" using floor_mono [OF assms] by linarith
  then show ?thesis using rhe_floor [of x] rhe_floor [of y] by auto
qed

lemma rhe_nonneg: "0 \<le> x \<Longrightarrow> 0 \<le> round_half_even x"
  using rhe_mono [of 0 x] rhe_of_int [of 0] by simp

section \<open>Rounding to a double\<close>

definition dexp :: "rat \<Rightarrow> int" where
  "dexp x = max (rat_exp2 x) (- 1022)"

lemma round_pos_eq: "round_pos x = of_int (round_half_even (x / 2 powi (dexp x - 52))) * 2 powi (dexp x - 52)"
  by (simp add: round_pos_def dexp_def Let_def)

lemma round_pos_nonneg: "0 \<le> x \<Longrightarrow> 0 \<le> round_pos x"
  by (simp add: round_pos_eq rhe_nonneg)

lemma less_dexp: "0 < x \<Longrightarrow> x < 2 powi (dexp x + 1)"
  using rat_exp2_bounds [of x] powi2_mono [of "rat_exp2 x + 1" "dexp x + 1"]
  by (auto simp: dexp_def)

lemma round_le_powi:
  assumes "x \<le> 2 powi e" and "e' \<le> e"
  shows "of_int (round_half_even (x / 2 powi e')) * 2 powi e' \<le> (2::rat) powi e"
proof -
  have eq: "2 powi e / 2 powi e' = (of_int (2 ^ nat (e - e')) :: rat)"
    using assms(2) by (rule powi2_diff)
  have "x / 2 powi e' \<le> 2 powi e / 2 powi e'" using assms by (simp add: divide_right_mono)
  then have "round_half_even (x / 2 powi e') \<le> 2 ^ nat (e - e')"
    unfolding eq using rhe_mono rhe_of_int by metis
  then have "(of_int (round_half_even (x / 2 powi e')) :: rat) \<le> 2 powi e / 2 powi e'"
    unfolding eq by (simp only: of_int_le_iff)
  then show ?thesis by (simp add: pos_le_divide_eq)
qed

lemma powi_le_round:
  assumes "2 powi e \<le> x" and "e' \<le> e"
  shows "(2::rat) powi e \<le> of_int (round_half_even (x / 2 powi e')) * 2 powi e'"
proof -
  have eq: "2 powi e / 2 powi e' = (of_int (2 ^ nat (e - e')) :: rat)"
    using assms(2) by (rule powi2_diff)
  have "2 powi e / 2 powi e' \<le> x / 2 powi e'" using assms by (simp add: divide_right_mono)
  then have "2 ^ nat (e - e') \<le> round_half_even (x / 2 powi e')"
    unfolding eq using rhe_mono rhe_of_int by metis
  then have "2 powi e / 2 powi e' \<le> (of_int (round_half_even (x / 2 powi e')) :: rat)"
    unfolding eq by (simp only: of_int_le_iff)
  then show ?thesis by (simp add: pos_divide_le_eq)
qed

lemma dexp_mono:
  assumes "0 < x" and "x \<le> y"
  shows "dexp x \<le> dexp y"
proof -
  have "2 powi rat_exp2 x < (2::rat) powi (rat_exp2 y + 1)"
    using rat_exp2_bounds [of x] rat_exp2_bounds [of y] assms by linarith
  then show ?thesis by (simp add: powi2_less_iff dexp_def)
qed

lemma round_pos_mono:
  assumes "0 < x" and "x \<le> y"
  shows "round_pos x \<le> round_pos y"
proof (cases "dexp x = dexp y")
  case True
  have "x / 2 powi (dexp y - 52) \<le> y / 2 powi (dexp y - 52)"
    using assms by (simp add: divide_right_mono)
  then show ?thesis using True by (simp add: round_pos_eq rhe_mono)
next
  case False
  then have lt: "dexp x + 1 \<le> dexp y" using dexp_mono [OF assms] by linarith
  then have "dexp y = rat_exp2 y" by (auto simp: dexp_def)
  then have "2 powi (dexp y) \<le> y" using rat_exp2_bounds [of y] assms by simp
  then have "2 powi (dexp y) \<le> round_pos y" unfolding round_pos_eq by (rule powi_le_round) simp
  moreover have "round_pos x \<le> 2 powi (dexp x + 1)"
    unfolding round_pos_eq using less_dexp [OF assms(1)] by (intro round_le_powi) auto
  moreover have "(2::rat) powi (dexp x + 1) \<le> 2 powi (dexp y)" using lt by (rule powi2_mono)
  ultimately show ?thesis by linarith
qed

text \<open>A positive value with at most 53 significant bits above the smallest subnormal.\<close>

definition representable :: "rat \<Rightarrow> bool" where
  "representable x \<longleftrightarrow> (\<exists>m k. x = of_int m * 2 powi k \<and> 0 \<le> m \<and> m \<le> 2 ^ 53 \<and> - 1074 \<le> k)"

lemma round_pos_representable:
  assumes "0 < x"
  shows "representable (round_pos x)"
proof -
  let ?k = "dexp x - 52" and ?m = "round_half_even (x / 2 powi (dexp x - 52))"
  have "round_pos x \<le> 2 powi (dexp x + 1)"
    unfolding round_pos_eq using less_dexp [OF assms] by (intro round_le_powi) auto
  also have "\<dots> = 2 powi ?k * of_int (2 ^ 53)"
  proof -
    have "(2::rat) powi (dexp x + 1) = 2 powi (?k + 53)" by (rule arg_cong) simp
    also have "\<dots> = 2 powi ?k * 2 powi 53" by (rule power_int_add) simp
    finally show ?thesis by simp
  qed
  finally have "of_int ?m \<le> (of_int (2 ^ 53) :: rat)" by (simp add: round_pos_eq mult.commute)
  then have "?m \<le> 2 ^ 53" by (simp only: of_int_le_iff)
  moreover have "0 \<le> ?m" using assms by (simp add: rhe_nonneg)
  moreover have "- 1074 \<le> ?k" by (simp add: dexp_def)
  ultimately show ?thesis unfolding representable_def round_pos_eq by blast
qed

lemma round_pos_id:
  assumes "representable x" and "0 < x"
  shows "round_pos x = x"
proof -
  obtain m k where x: "x = of_int m * 2 powi k" and m: "0 \<le> m" "m \<le> 2 ^ 53" and k: "- 1074 \<le> k"
    using assms(1) by (auto simp: representable_def)
  have "\<exists>j. x / 2 powi (dexp x - 52) = of_int j"
  proof (cases "dexp x - 52 \<le> k")
    case True
    have "x / 2 powi (dexp x - 52) = of_int m * (2 powi k / 2 powi (dexp x - 52))" by (simp add: x)
    also have "2 powi k / 2 powi (dexp x - 52) = (of_int (2 ^ nat (k - (dexp x - 52))) :: rat)"
      using True by (rule powi2_diff)
    finally show ?thesis by (metis of_int_mult)
  next
    case False
    then have "k + 53 \<le> dexp x" by simp
    moreover have e: "dexp x = rat_exp2 x" using False k by (auto simp: dexp_def)
    ultimately have "(2::rat) powi (k + 53) \<le> x"
      using rat_exp2_bounds [OF assms(2)] powi2_mono [of "k + 53" "dexp x"] by simp
    moreover have pk: "(2::rat) powi (k + 53) = of_int (2 ^ 53) * 2 powi k"
      by (simp add: power_int_add)
    ultimately have "(of_int (2 ^ 53) :: rat) \<le> of_int m" by (simp add: x)
    then have "m = 2 ^ 53" using m by (simp only: of_int_le_iff)
    then have xp: "x = 2 powi (k + 53)" using x pk by simp
    then have "rat_exp2 x = k + 53"
      by (intro rat_exp2_unique) (simp_all add: powi2_less_iff)
    then have "x / 2 powi (dexp x - 52) = of_int (2 ^ 52)"
      using e xp by (simp flip: power_int_diff)
    then show ?thesis by blast
  qed
  then obtain j where j: "x / 2 powi (dexp x - 52) = of_int j" by blast
  then have "x = of_int j * 2 powi (dexp x - 52)" by (simp add: field_simps)
  then show ?thesis by (simp add: round_pos_eq j)
qed

lemma round_pos_le_representable:
  assumes "0 < x" and "x \<le> r" and "representable r"
  shows "round_pos x \<le> r"
  using round_pos_mono [OF assms(1,2)] round_pos_id [OF assms(3)] assms by simp

lemma representable_le_round_pos:
  assumes "0 < r" and "r \<le> x" and "representable r"
  shows "r \<le> round_pos x"
  using round_pos_mono [OF assms(1,2)] round_pos_id [OF assms(3,1)] by simp

lemma representable_of_int:
  assumes "0 \<le> i" and "i \<le> 2 ^ 53"
  shows "representable (of_int i)"
  using assms unfolding representable_def by (intro exI [of _ i] exI [of _ 0]) simp

section \<open>Doubles\<close>

abbreviation huge :: rat where
  "huge \<equiv> of_int ((2 ^ 32) ^ 32)"

lemma to_double_zero [simp]: "to_double 0 = Fin 0"
  by (simp add: to_double_def)

lemma to_double_pos:
  "0 < x \<Longrightarrow> to_double x = (if huge \<le> round_pos x then Inf False else Fin (round_pos x))"
  by (simp add: to_double_def Let_def)

lemma to_double_id:
  assumes "representable x" and "x < huge"
  shows "to_double x = Fin x"
proof (cases "x = 0")
  case False
  then have "0 < x" using assms(1) by (auto simp: representable_def zero_less_mult_iff)
  then show ?thesis using assms round_pos_id by (simp add: to_double_pos)
qed simp

lemma to_double_of_int:
  assumes "0 \<le> i" and "i \<le> 2 ^ 53"
  shows "to_double (of_int i) = Fin (of_int i)"
proof (rule to_double_id)
  show "representable (of_int i)" using assms by (rule representable_of_int)
  show "of_int i < huge" using assms by (simp only: of_int_less_iff) simp
qed

lemma num_of_int_exact [simp]: "0 \<le> i \<Longrightarrow> i \<le> 2 ^ 53 \<Longrightarrow> num_of_int i = Fin (of_int i)"
  by (simp add: num_of_int_def to_double_of_int)

lemma to_double_uminus: "to_double (- x) = jneg (to_double x)"
  by (auto simp: to_double_def Let_def)

lemma to_double_of_int_abs: "\<bar>i\<bar> \<le> 2 ^ 53 \<Longrightarrow> to_double (of_int i) = Fin (of_int i)"
  using to_double_of_int [of i] to_double_of_int [of "- i"] to_double_uminus [of "of_int (- i)"]
  by (cases "0 \<le> i") simp_all

text \<open>Whole numbers up to \<open>2 ^ 53\<close> are evaluated without rounding.\<close>

lemma to_double_code [code]:
  "to_double x = (case quotient_of x of (n, d) \<Rightarrow>
     if d = 1 \<and> \<bar>n\<bar> \<le> 2 ^ 53 then Fin x
     else let y = round_pos \<bar>x\<bar> in
       if of_int ((2 ^ 32) ^ 32) \<le> y then Inf (x < 0) else Fin (if x < 0 then - y else y))"
proof -
  obtain n d where q: "quotient_of x = (n, d)" by (rule prod.exhaust)
  show ?thesis
  proof (cases "d = 1 \<and> \<bar>n\<bar> \<le> 2 ^ 53")
    case True
    then have x: "x = of_int n" using quotient_of_div [OF q] by simp
    have "to_double (of_int n) = Fin (of_int n)" using True by (simp add: to_double_of_int_abs)
    then show ?thesis using True q by (simp add: x)
  next
    case False
    have "x \<noteq> 0" using False q by auto
    then show ?thesis unfolding q prod.case if_not_P [OF False] to_double_def by simp
  qed
qed

lemma to_double_le:
  assumes "0 \<le> x" and "x \<le> r" and "representable r" and "r < huge"
  obtains y where "to_double x = Fin y" and "0 \<le> y" and "y \<le> r"
proof (cases "x = 0")
  case True
  with that show ?thesis using assms by (metis order.refl to_double_zero)
next
  case False
  then have x: "0 < x" using assms by simp
  have le: "round_pos x \<le> r" using round_pos_le_representable [OF x assms(2,3)] .
  then have "to_double x = Fin (round_pos x)" using x assms(4) by (simp add: to_double_pos)
  then show ?thesis using that le round_pos_nonneg x by fastforce
qed

lemma to_double_mono:
  assumes "0 \<le> x" and "x \<le> y" and "to_double x = Fin a" and "to_double y = Fin b"
  shows "a \<le> b"
proof (cases "x = 0")
  case True
  then have "a = 0" using assms(3) by simp
  moreover have "0 \<le> b" using assms round_pos_nonneg [of y]
    by (cases "y = 0") (auto simp: to_double_pos split: if_splits)
  ultimately show ?thesis by simp
next
  case False
  then have "0 < x" "0 < y" using assms by auto
  then show ?thesis using assms round_pos_mono [of x y] by (auto simp: to_double_pos split: if_splits)
qed

lemma to_double_big_int:
  assumes "2 ^ 53 \<le> i" and "to_double (of_int i) = Fin x"
  shows "2 ^ 53 \<le> x"
proof -
  have "to_double (of_int (2 ^ 53)) = Fin (of_int (2 ^ 53))" by (rule to_double_of_int) simp_all
  moreover have "(of_int (2 ^ 53) :: rat) \<le> of_int i" using assms(1) by (simp only: of_int_le_iff)
  ultimately have "of_int (2 ^ 53) \<le> x" by (intro to_double_mono [OF _ _ _ assms(2)]) simp_all
  then show ?thesis by simp
qed

text \<open>A small result of rounding a whole number is that number.\<close>

lemma to_double_small_int:
  assumes "to_double (of_int i) = Fin x" and "\<bar>x\<bar> < 2 ^ 53"
  shows "x = of_int i"
proof (cases "\<bar>i\<bar> \<le> 2 ^ 53")
  case True
  then show ?thesis using assms(1) to_double_of_int_abs by simp
next
  case False
  have "to_double (of_int (- i)) = Fin (- x)" using assms(1) by (simp add: to_double_uminus)
  then show ?thesis using False assms to_double_big_int [of i x] to_double_big_int [of "- i" "- x"] by linarith
qed

lemma to_double_Fin_nonneg: "0 \<le> x \<Longrightarrow> to_double x = Fin a \<Longrightarrow> 0 \<le> a"
  using to_double_mono [of 0 x 0 a] by simp

lemma to_double_one [simp]: "to_double 1 = Fin 1"
  using to_double_of_int [of 1] by simp

lemma to_double_nonneg_cases:
  assumes "0 \<le> x"
  obtains (overflow) "to_double x = Inf False" | (finite) y where "to_double x = Fin y" and "0 \<le> y"
proof (cases "x = 0")
  case True
  then show ?thesis using that(2) [of 0] by simp
next
  case False
  then have "to_double x = Inf False \<or> (\<exists>y. to_double x = Fin y)" using assms by (simp add: to_double_pos)
  then show ?thesis using that to_double_Fin_nonneg [OF assms] by blast
qed

lemma to_double_ge_one_cases:
  assumes "1 \<le> x"
  obtains (overflow) "to_double x = Inf False" | (finite) y where "to_double x = Fin y" and "1 \<le> y"
proof -
  have "0 \<le> x" using assms by simp
  then show ?thesis
    by (cases rule: to_double_nonneg_cases) (use that to_double_mono [of 1 x 1] assms in auto)
qed

section \<open>Non-negative doubles\<close>

definition dbl :: "rat \<Rightarrow> bool" where
  "dbl x \<longleftrightarrow> 0 \<le> x \<and> representable x \<and> x < huge"

lemma representable_zero: "representable 0"
  using representable_of_int [of 0] by simp

lemma dbl_of_int: "0 \<le> i \<Longrightarrow> i \<le> 2 ^ 53 \<Longrightarrow> dbl (of_int i)"
proof -
  assume i: "0 \<le> i" "i \<le> 2 ^ 53"
  then have "i < (2 ^ 32) ^ 32" by simp
  then have "(of_int i :: rat) < huge" by (simp only: of_int_less_iff)
  then show ?thesis using i representable_of_int by (simp add: dbl_def)
qed

lemma to_double_dbl: "0 \<le> x \<Longrightarrow> to_double x = Fin y \<Longrightarrow> dbl y"
  using to_double_Fin_nonneg [of x y] round_pos_representable [of x]
  by (cases "x = 0") (auto simp: dbl_def representable_zero to_double_pos split: if_splits)

lemma to_double_result_dbl:
  assumes "to_double x = Fin v" and "0 \<le> v"
  shows "dbl v"
proof (cases "0 \<le> x")
  case True
  then show ?thesis using assms(1) by (rule to_double_dbl)
next
  case False
  then have "to_double (- x) = Fin (- v)" using assms(1) by (simp add: to_double_uminus)
  moreover have "0 \<le> - x" using False by simp
  ultimately have "v = 0" using to_double_Fin_nonneg [of "- x" "- v"] assms(2) by simp
  then show ?thesis by (simp add: dbl_def representable_zero)
qed

lemma jdiv_dbl:
  assumes "jdiv x y = Fin v" and "0 \<le> v"
  shows "dbl v"
proof -
  have "\<exists>z. to_double z = Fin v"
    using assms(1) by (cases x; cases y) (auto split: if_splits intro: exI [of _ 0])
  then show ?thesis using assms(2) to_double_result_dbl by blast
qed

lemma to_double_le_dbl:
  assumes "0 \<le> x" and "x \<le> r" and "dbl r"
  obtains y where "to_double x = Fin y" and "dbl y" and "y \<le> r"
  using to_double_le [of x r] assms to_double_dbl [OF assms(1)] by (metis dbl_def)

lemma jmul_fraction:
  assumes "dbl a" and "0 \<le> f" and "f \<le> 1"
  obtains y where "jmul (Fin a) (Fin f) = Fin y" and "dbl y" and "y \<le> a"
proof -
  have a: "0 \<le> a" using assms(1) by (simp add: dbl_def)
  then have "0 \<le> a * f" "a * f \<le> a" using assms(2,3) by (simp_all add: mult_left_le)
  then show ?thesis using that to_double_le_dbl [OF _ _ assms(1)] by (metis jmul.simps(7))
qed

lemma jsub_shrinks:
  assumes "dbl a" and "0 \<le> b" and "b \<le> a"
  obtains y where "jsub (Fin a) (Fin b) = Fin y" and "dbl y" and "y \<le> a"
proof -
  have "0 \<le> a - b" "a - b \<le> a" using assms(2,3) by simp_all
  then obtain y where "to_double (a - b) = Fin y" "dbl y" "y \<le> a"
    using to_double_le_dbl assms(1) by metis
  then show ?thesis using that by (simp add: jsub_def)
qed

lemma jdiv_fraction:
  assumes "0 \<le> s" and "s \<le> m" and "0 < m"
  obtains y where "jdiv (Fin s) (Fin m) = Fin y" and "dbl y" and "y \<le> 1"
proof -
  have "0 \<le> s / m" "s / m \<le> 1" using assms by simp_all
  moreover have "dbl 1" using dbl_of_int [of 1] by simp
  ultimately obtain y where "to_double (s / m) = Fin y" "dbl y" "y \<le> 1"
    using to_double_le_dbl by metis
  then show ?thesis using that assms(3) by simp
qed

section \<open>Printing and parsing a BigInt\<close>

lemma digit_val_char: "0 \<le> d \<Longrightarrow> d < 10 \<Longrightarrow> digit_val (digit_char d) = Some d"
proof -
  assume d: "0 \<le> d" "d < 10"
  then have "(of_char (char_of (48 + d)) :: int) = 48 + d" by simp
  with d show ?thesis by (simp add: digit_val_def digit_char_def Let_def)
qed

lemma digits_value_append: "digits_value r a (xs @ ys) = digits_value r (digits_value r a xs) ys"
  by (induction xs arbitrary: a) auto

lemma show_nat_digits:
  "0 \<le> n \<Longrightarrow> show_nat n \<noteq> [] \<and> list_all is_digit (show_nat n) \<and> digits_value 10 0 (show_nat n) = n"
proof (induction n rule: show_nat.induct)
  case (1 n)
  show ?case
  proof (cases "n < 10")
    case True
    with "1.prems" show ?thesis
      by (subst (1 2 3) show_nat.simps) (simp add: digit_val_char is_radix_digit_def)
  next
    case False
    then have "0 \<le> n div 10" by simp
    with "1.IH" False have IH: "list_all is_digit (show_nat (n div 10))"
      "digits_value 10 0 (show_nat (n div 10)) = n div 10" by auto
    have d: "digit_val (digit_char (n mod 10)) = Some (n mod 10)" by (simp add: digit_val_char)
    show ?thesis
      using False IH
      by (subst (1 2 3) show_nat.simps) (simp add: d is_radix_digit_def digits_value_append)
  qed
qed

lemma digit_not_special:
  assumes "is_digit c"
  shows "\<not> is_ws c" "c \<noteq> CHR ''-''" "c \<noteq> CHR ''+''" "c \<noteq> CHR ''x''" "c \<noteq> CHR ''X''"
    "c \<noteq> CHR ''o''" "c \<noteq> CHR ''O''" "c \<noteq> CHR ''b''" "c \<noteq> CHR ''B''"
proof -
  show ws: "\<not> is_ws c"
    using assms by (auto simp: is_radix_digit_def digit_val_def is_ws_def Let_def split: if_splits)
qed (use assms in \<open>auto simp: is_radix_digit_def digit_val_def\<close>)

lemma trim_no_ws: "list_all (\<lambda>c. \<not> is_ws c) s \<Longrightarrow> trim s = s"
proof -
  have dw: "list_all (\<lambda>c. \<not> is_ws c) t \<Longrightarrow> dropWhile is_ws t = t" for t
    by (cases t) auto
  assume "list_all (\<lambda>c. \<not> is_ws c) s"
  then show ?thesis by (simp add: trim_def dw)
qed

lemma radix_prefix_digits: "list_all is_digit s \<Longrightarrow> radix_prefix s = None"
  by (cases s rule: radix_prefix.cases) (auto simp: digit_not_special)

lemma bigint_of_digits:
  assumes "s \<noteq> []" and "list_all is_digit s"
  shows "bigint_of_string s = Some (digits_value 10 0 s)"
proof -
  have "list_all (\<lambda>c. \<not> is_ws c) s" using assms(2) by (auto simp: list_all_iff digit_not_special)
  then have t: "trim s = s" by (rule trim_no_ws)
  have "is_digit (hd s)" using assms by (simp add: list_all_iff)
  then have "hd s \<noteq> CHR ''-''" "hd s \<noteq> CHR ''+''" by (rule digit_not_special)+
  then show ?thesis
    using assms radix_prefix_digits [OF assms(2)] by (simp add: bigint_of_string_def t parse_digits_def)
qed

theorem bigint_round_trip: "bigint_of_string (show_int i) = Some i"
proof (cases "i < 0")
  case True
  let ?s = "show_nat (- i)"
  have s: "?s \<noteq> []" "list_all is_digit ?s" "digits_value 10 0 ?s = - i"
    using show_nat_digits [of "- i"] True by auto
  have "list_all (\<lambda>c. \<not> is_ws c) ?s" using s(2) by (auto simp: list_all_iff digit_not_special)
  then have t: "trim (CHR ''-'' # ?s) = CHR ''-'' # ?s"
    by (intro trim_no_ws) (simp add: is_ws_def)
  have r: "radix_prefix (CHR ''-'' # ?s) = None" by (cases ?s) auto
  show ?thesis using True s by (simp add: bigint_of_string_def show_int_def t r parse_digits_def)
next
  case False
  let ?s = "show_nat i"
  have s: "?s \<noteq> []" "list_all is_digit ?s" "digits_value 10 0 ?s = i"
    using show_nat_digits [of i] False by auto
  have "list_all (\<lambda>c. \<not> is_ws c) ?s" using s(2) by (auto simp: list_all_iff digit_not_special)
  then have t: "trim ?s = ?s" by (rule trim_no_ws)
  have r: "radix_prefix ?s = None" using s(2) by (rule radix_prefix_digits)
  have "is_digit (hd ?s)" using s by (simp add: list_all_iff)
  then have "hd ?s \<noteq> CHR ''-''" "hd ?s \<noteq> CHR ''+''" by (rule digit_not_special)+
  then show ?thesis using False s by (simp add: bigint_of_string_def show_int_def t r parse_digits_def)
qed

lemma show_int_inject: "show_int i = show_int j \<longleftrightarrow> i = j"
  by (metis bigint_round_trip option.inject)

lemma digits_value_ge: "0 \<le> a \<Longrightarrow> list_all is_digit s \<Longrightarrow> 0 \<le> digits_value 10 a s"
  by (induction s arbitrary: a) (auto simp: is_radix_digit_def digit_val_def Let_def split: option.splits if_splits)

lemma num_of_string_digits:
  assumes s: "s \<noteq> []" "list_all is_digit s" and le: "digits_value 10 0 s \<le> 2 ^ 53"
  shows "num_of_string s = Fin (of_int (digits_value 10 0 s))"
proof -
  have digits: "\<And>c. c \<in> set s \<Longrightarrow> is_digit c" using s(2) by (simp add: list_all_iff)
  have "list_all (\<lambda>c. \<not> is_ws c) s" using s(2) by (auto simp: list_all_iff digit_not_special)
  then have t: "trim s = s" by (rule trim_no_ws)
  have r: "radix_prefix s = None" using s(2) by (rule radix_prefix_digits)
  have h: "is_digit (hd s)" using s by (simp add: list_all_iff)
  then have sg: "sign_prefix s = (False, s)"
    using digit_not_special(2,3) [OF h] by (cases s) (auto simp: sign_prefix_def)
  have inf: "take 8 s \<noteq> ''Infinity''"
  proof
    assume "take 8 s = ''Infinity''"
    then have "hd s = CHR ''I''" using s(1) by (cases s) auto
    then show False using h by (simp add: is_radix_digit_def digit_val_def)
  qed
  have tw: "takeWhile is_digit s = s" "dropWhile is_digit s = []"
    using digits by (auto simp: takeWhile_eq_all_conv)
  have "scan_decimal s = Some (to_double (of_int (digits_value 10 0 s)), [])"
    using s(1) by (simp add: scan_decimal_def sg inf tw take_exponent_def)
  moreover have "to_double (of_int (digits_value 10 0 s)) = Fin (of_int (digits_value 10 0 s))"
    using to_double_of_int [OF digits_value_ge [OF order_refl s(2)] le] .
  ultimately show ?thesis using s(1) by (simp add: num_of_string_def t r)
qed

text \<open>\<^verbatim>\<open>Number(String(n))\<close> is \<open>n\<close> for the integers a double holds exactly.\<close>

lemma num_of_string_show_int:
  assumes "0 \<le> i" and "i \<le> 2 ^ 53"
  shows "num_of_string (show_int i) = Fin (of_int i)"
  using num_of_string_digits [of "show_nat i"] show_nat_digits [OF assms(1)] assms by (simp add: show_int_def)

end
