(* ===== verification/Js_Map.thy ===== *)
theory Js_Map
  imports Prelude
begin

text \<open>
  The built-in \<^verbatim>\<open>Map\<close> of JavaScript: entries in insertion order, where setting a present key keeps
  its place. The locale \<open>keyed_store\<close> is what the components assume of a keyed store they keep state
  in; \<open>js_map\<close> provides it.
\<close>

type_synonym ('k, 'v) js_map = "('k \<times> 'v) list"

definition jm_get :: "('k, 'v) js_map \<Rightarrow> 'k \<Rightarrow> 'v option" where
  "jm_get m k = map_of m k"

definition jm_has :: "('k, 'v) js_map \<Rightarrow> 'k \<Rightarrow> bool" where
  "jm_has m k = (map_of m k \<noteq> None)"

definition jm_set :: "('k, 'v) js_map \<Rightarrow> 'k \<Rightarrow> 'v \<Rightarrow> ('k, 'v) js_map" where
  "jm_set m k v = AList.update k v m"

definition jm_delete :: "('k, 'v) js_map \<Rightarrow> 'k \<Rightarrow> ('k, 'v) js_map" where
  "jm_delete m k = AList.delete k m"

lemma jm_get_set [jsmap_simps, simp]: "jm_get (jm_set m k v) k' = (if k' = k then Some v else jm_get m k')"
  by (simp add: jm_get_def jm_set_def update_conv')

lemma jm_get_delete [jsmap_simps, simp]: "jm_get (jm_delete m k) k' = (if k' = k then None else jm_get m k')"
  by (simp add: jm_get_def jm_delete_def delete_conv')

lemma jm_has_get [jsmap_simps]: "jm_has m k \<longleftrightarrow> jm_get m k \<noteq> None"
  by (simp add: jm_has_def jm_get_def)

lemma jm_get_empty [jsmap_simps, simp]: "jm_get [] k = None"
  by (simp add: jm_get_def)

lemma jm_set_keys: "fst ` set (jm_set m k v) = insert k (fst ` set m)"
  by (simp add: jm_set_def dom_update)

lemma jm_set_distinct: "distinct (map fst m) \<Longrightarrow> distinct (map fst (jm_set m k v))"
  by (simp add: jm_set_def distinct_update)

lemma jm_delete_distinct: "distinct (map fst m) \<Longrightarrow> distinct (map fst (jm_delete m k))"
  by (simp add: jm_delete_def distinct_delete)

text \<open>Setting a key that is present leaves the key order, and so the number of entries, unchanged.\<close>

lemma jm_set_same_keys: "jm_has m k \<Longrightarrow> map fst (jm_set m k v) = map fst m"
  by (induction m) (auto simp: jm_has_def jm_set_def split: if_splits)

section \<open>Stores\<close>

locale keyed_store =
  fixes lookup :: "'s \<Rightarrow> 'k \<Rightarrow> 'v option"
    and put :: "'s \<Rightarrow> 'k \<Rightarrow> 'v \<Rightarrow> 's"
    and remove :: "'s \<Rightarrow> 'k \<Rightarrow> 's"
  assumes lookup_put: "lookup (put s k v) k' = (if k' = k then Some v else lookup s k')"
    and lookup_remove: "lookup (remove s k) k' = (if k' = k then None else lookup s k')"
begin

text \<open>A step that reads and rewrites one key does not disturb the others.\<close>

definition upd :: "('v option \<Rightarrow> 'v) \<Rightarrow> 's \<Rightarrow> 'k \<Rightarrow> 's" where
  "upd f s k = put s k (f (lookup s k))"

lemma lookup_upd: "lookup (upd f s k) k' = (if k' = k then Some (f (lookup s k)) else lookup s k')"
  by (simp add: upd_def lookup_put)

lemma upd_commute:
  "k \<noteq> k' \<Longrightarrow> lookup (upd g (upd f s k) k') j = lookup (upd f (upd g s k') k) j"
  by (simp add: lookup_upd)

lemma remove_upd: "lookup (remove (upd f s k) k) j = lookup (remove s k) j"
  by (simp add: lookup_upd lookup_remove)

text \<open>Counting with a default of zero: after \<open>n\<close> increments of a key its count is \<open>n\<close> larger.\<close>

lemma lookup_upd_iterate:
  "lookup (((\<lambda>s. upd f s k) ^^ n) s) k = (if n = 0 then lookup s k else Some (((\<lambda>v. f (Some v)) ^^ (n - 1)) (f (lookup s k))))"
proof (induction n)
  case (Suc n)
  then show ?case by (cases n) (simp_all add: lookup_upd)
qed simp

lemma lookup_upd_iterate_other:
  "k' \<noteq> k \<Longrightarrow> lookup (((\<lambda>s. upd f s k) ^^ n) s) k' = lookup s k'"
  by (induction n) (simp_all add: lookup_upd)

end

interpretation jm: keyed_store jm_get jm_set jm_delete
  by unfold_locales simp_all

end
