(* ===== verification/Position_Laws.thy ===== *)
theory Position_Laws
  imports Position_Math
begin

text \<open>
  Properties of the position math of \<^verbatim>\<open>Position_Math\<close>. The locale \<open>price_scale\<close> is the contract a
  tick to price conversion has towards the amount computations; its facts are proved once and
  instantiated by \<^verbatim>\<open>tickToSqrtPriceX96\<close>.
\<close>

section \<open>The tick scale\<close>

lemma tick_price_nonneg_eq:
  "0 \<le> t \<Longrightarrow> t \<le> MAX_TICK \<Longrightarrow> tickToSqrtPriceX96 t = Inr (Q96 + t * Q96 div 20000)"
  by (simp add: tickToSqrtPriceX96_def MIN_TICK_def)

lemma tick_price_neg_eq:
  "t < 0 \<Longrightarrow> MIN_TICK \<le> t \<Longrightarrow> tickToSqrtPriceX96 t =
     Inr (if t \<le> - 20000 then 1 else Q96 - (- t * Q96) div 20000)"
proof -
  assume t: "t < 0" "MIN_TICK \<le> t"
  have "Q96 \<le> (- t * Q96) div 20000 \<longleftrightarrow> Q96 * 20000 \<le> - t * Q96"
    by (rule le_div_iff_int) simp
  also have "\<dots> \<longleftrightarrow> 20000 \<le> - t"
    by (metis Q96_pos(1) mult.commute mult_le_cancel_left_pos)
  finally have "Q96 \<le> (- t * Q96) div 20000 \<longleftrightarrow> t \<le> - 20000" by linarith
  moreover have "0 \<le> - t * Q96" using t by (intro mult_nonneg_nonneg) auto
  ultimately show ?thesis using t
    by (simp add: tickToSqrtPriceX96_def MAX_TICK_def bigdiv_pos del: mult_minus_left)
qed

lemma tick_price_error:
  "tick < MIN_TICK \<or> MAX_TICK < tick \<Longrightarrow>
   tickToSqrtPriceX96 tick = Inl (RangeError (''tick '' @ show_int tick @ '' out of bounds''))"
  by (simp add: tickToSqrtPriceX96_def)

lemma neg_tick_sub_less:
  assumes "- 20000 < t" and "t < 0"
  shows "0 \<le> (- t * Q96) div 20000" and "(- t * Q96) div 20000 < Q96"
proof -
  have p: "0 \<le> - t * Q96" using assms by (intro mult_nonneg_nonneg) auto
  then show "0 \<le> (- t * Q96) div 20000" by (simp add: pos_imp_zdiv_nonneg_iff del: mult_minus_left)
  have "- t * Q96 < 20000 * Q96" using assms by (intro mult_strict_right_mono) auto
  then have "\<not> Q96 * 20000 \<le> - t * Q96" by linarith
  then show "(- t * Q96) div 20000 < Q96"
    using le_div_iff_int [of 20000 Q96 "- t * Q96"] by linarith
qed

lemma tick_price_pos:
  assumes "tickToSqrtPriceX96 t = Inr p"
  shows "1 \<le> p"
proof -
  have r: "MIN_TICK \<le> t" "t \<le> MAX_TICK"
    using assms by (auto simp: tickToSqrtPriceX96_def split: if_splits)
  show ?thesis
  proof (cases "0 \<le> t")
    case True
    then have "0 \<le> t * Q96 div 20000" by (simp add: pos_imp_zdiv_nonneg_iff)
    then have "1 \<le> Q96 + t * Q96 div 20000" using Q96_pos(1) by linarith
    then show ?thesis using assms True r tick_price_nonneg_eq [of t] by auto
  next
    case False
    then show ?thesis
      using assms r tick_price_neg_eq [of t] neg_tick_sub_less [of t] by (auto split: if_splits)
  qed
qed

lemma tick_price_mono:
  assumes "tickToSqrtPriceX96 t = Inr p" and "tickToSqrtPriceX96 u = Inr q" and "t \<le> u"
  shows "p \<le> q"
proof -
  have r: "MIN_TICK \<le> t" "t \<le> MAX_TICK" "MIN_TICK \<le> u" "u \<le> MAX_TICK"
    using assms by (auto simp: tickToSqrtPriceX96_def split: if_splits)
  consider "0 \<le> t" | "t < 0" "0 \<le> u" | "u < 0" by linarith
  then show ?thesis
  proof cases
    case 1
    then have "t * Q96 div 20000 \<le> u * Q96 div 20000" using assms(3) by (simp add: zdiv_mono1)
    then show ?thesis using 1 assms r tick_price_nonneg_eq [of t] tick_price_nonneg_eq [of u] by auto
  next
    case 2
    have "p \<le> Q96"
      using 2 assms(1) r tick_price_neg_eq [of t] neg_tick_sub_less [of t] Q96_eq
      by (auto split: if_splits)
    moreover have "Q96 \<le> q"
      using 2 assms(2) r tick_price_nonneg_eq [of u] by (auto simp: pos_imp_zdiv_nonneg_iff)
    ultimately show ?thesis by simp
  next
    case 3
    show ?thesis
    proof (cases "t \<le> - 20000")
      case True
      then have "p = 1" using 3 assms r tick_price_neg_eq [of t] by auto
      then show ?thesis using tick_price_pos [OF assms(2)] by simp
    next
      case False
      have "(- u * Q96) div 20000 \<le> (- t * Q96) div 20000"
        using assms(3) by (intro zdiv_mono1 mult_right_mono) auto
      then show ?thesis using 3 False assms r tick_price_neg_eq [of t] tick_price_neg_eq [of u]
        by auto
    qed
  qed
qed

lemma coprime_imp_power: "coprime (a::int) b \<Longrightarrow> coprime a (b ^ n)"
  by (cases "n = 0") (simp_all add: coprime_power_right_iff)

lemma scaled_tick_back:
  assumes "0 \<le> t"
  shows "(t * Q96 div 20000 * 20000) div Q96 = (if 625 dvd t then t else t - 1)"
proof -
  let ?r = "t * Q96 mod 20000"
  have r: "0 \<le> ?r" "?r < 20000" by simp_all
  have eq: "t * Q96 div 20000 * 20000 = t * Q96 - ?r"
    by (metis minus_mod_eq_div_mult)
  have "20000 dvd t * Q96 \<longleftrightarrow> 625 * 2 ^ 5 dvd (t * 2 ^ 91) * 2 ^ (5::nat)"
    by (simp add: Q96_eq mult.commute)
  also have "\<dots> \<longleftrightarrow> 625 dvd t * 2 ^ 91" by (subst dvd_times_right_cancel_iff) simp_all
  also have "\<dots> \<longleftrightarrow> 625 dvd t"
  proof (rule coprime_dvd_mult_left_iff)
    have "coprime (625::int) 2" by (rule coprime_right_2_iff_odd [THEN iffD2]) simp
    then show "coprime (625::int) (2 ^ 91)" by (rule coprime_imp_power)
  qed
  finally have d: "?r = 0 \<longleftrightarrow> 625 dvd t" by (simp add: dvd_eq_mod_eq_0)
  show ?thesis
  proof (cases "625 dvd t")
    case True
    then show ?thesis using d eq by simp
  next
    case False
    then have "0 < ?r" using d r by linarith
    then have "t * Q96 - ?r = (t - 1) * Q96 + (Q96 - ?r)" "0 \<le> Q96 - ?r" "Q96 - ?r < Q96"
      using r by (simp_all add: left_diff_distrib Q96_eq)
    then have "(t * Q96 - ?r) div Q96 = t - 1"
      by (metis Q96_pos(3) add.right_neutral div_mult_self3 div_pos_pos_trivial)
    then show ?thesis using False eq by simp
  qed
qed

lemma sqrtPrice_tick_ge:
  assumes "0 \<le> t" and "t \<le> MAX_TICK"
  shows "sqrtPriceX96ToTick (Q96 + t * Q96 div 20000) = Inr (Fin (of_int (if 625 dvd t then t else t - 1)))"
proof -
  let ?q = "t * Q96 div 20000"
  let ?t = "if 625 dvd t then t else t - 1"
  have q: "0 \<le> ?q" using assms by (simp add: pos_imp_zdiv_nonneg_iff)
  have bk: "?q * 20000 div Q96 = ?t" using assms(1) by (rule scaled_tick_back)
  have "0 \<le> ?t" using assms by (cases "t = 0") auto
  moreover have "?t \<le> 2 ^ 53" using assms by (auto simp: MAX_TICK_def)
  ultimately have "num_of_int ?t = Fin (of_int ?t)" by (rule num_of_int_exact)
  moreover have "\<not> Q96 + ?q \<le> 0" using q Q96_pos(1) by linarith
  then have "sqrtPriceX96ToTick (Q96 + ?q) = Inr (num_of_int (?q * 20000 div Q96))"
    using q by (simp add: sqrtPriceX96ToTick_def)
  ultimately show ?thesis by (simp only: bk)
qed

text \<open>
  The exact round trip: a tick comes back unchanged only at the multiples of 625, one tick nearer
  to zero otherwise, and every tick at or below \<open>- 20000\<close> comes back as \<open>- 19999\<close>.
\<close>

definition tick_after_round_trip :: "int \<Rightarrow> int" where
  "tick_after_round_trip t =
     (if t \<le> - 20000 then - 19999 else if 625 dvd t then t else if 0 < t then t - 1 else t + 1)"

lemma sqrtPrice_tick_lt:
  assumes "- 20000 < t" and "t < 0"
  shows "sqrtPriceX96ToTick (Q96 - (- t * Q96) div 20000) =
    Inr (Fin (of_int (if 625 dvd t then t else t + 1)))"
proof -
  let ?q = "(- t * Q96) div 20000"
  let ?t = "if 625 dvd t then - t else - t - 1"
  have q: "0 \<le> ?q" "?q < Q96" using neg_tick_sub_less [OF assms] by auto
  have bk: "?q * 20000 div Q96 = ?t" using assms scaled_tick_back [of "- t"] by simp
  have "0 \<le> ?t" "?t \<le> 2 ^ 53" using assms by auto
  then have n: "num_of_int ?t = Fin (of_int ?t)" by (rule num_of_int_exact)
  show ?thesis
  proof (cases "?q = 0")
    case True
    then have "?t = 0" using bk by simp
    then show ?thesis using True Q96_pos by (auto simp: sqrtPriceX96ToTick_def split: if_splits)
  next
    case False
    then have "sqrtPriceX96ToTick (Q96 - ?q) = Inr (jneg (num_of_int (?q * 20000 div Q96)))"
      using q by (simp add: sqrtPriceX96ToTick_def del: mult_minus_left)
    then show ?thesis by (simp only: bk n) simp
  qed
qed

lemma sqrtPrice_tick_one: "sqrtPriceX96ToTick 1 = Inr (Fin (- 19999))"
  by (simp add: sqrtPriceX96ToTick_def Q96_eq)

text \<open>Converting a tick to a sqrt price and back.\<close>

theorem tick_round_trip:
  assumes "MIN_TICK \<le> t" and "t \<le> MAX_TICK"
  shows "bind_result (tickToSqrtPriceX96 t) sqrtPriceX96ToTick =
    Inr (Fin (of_int (tick_after_round_trip t)))"
proof -
  consider "0 \<le> t" | "- 20000 < t" "t < 0" | "t \<le> - 20000" by linarith
  then show ?thesis
  proof cases
    case 1
    then have "tick_after_round_trip t = (if 625 dvd t then t else t - 1)"
      by (cases "t = 0") (auto simp: tick_after_round_trip_def)
    then show ?thesis
      using assms sqrtPrice_tick_ge [OF 1 assms(2)] tick_price_nonneg_eq [OF 1 assms(2)] by simp
  next
    case 2
    then have "tick_after_round_trip t = (if 625 dvd t then t else t + 1)"
      by (auto simp: tick_after_round_trip_def)
    then show ?thesis
      using 2 sqrtPrice_tick_lt [OF 2] tick_price_neg_eq [OF 2(2) assms(1)] by simp
  next
    case 3
    then show ?thesis
      using tick_price_neg_eq [of t] assms(1) sqrtPrice_tick_one by (simp add: tick_after_round_trip_def)
  qed
qed

theorem tick_round_trip_witness:
  "bind_result (tickToSqrtPriceX96 60) sqrtPriceX96ToTick = Inr (Fin 59)"
  using tick_round_trip [of 60] by (simp add: MIN_TICK_def MAX_TICK_def tick_after_round_trip_def)

section \<open>The contract of a price scale\<close>

text \<open>
  What the amount computations need of a tick to price conversion: it succeeds on a range of
  ticks, its prices are positive, and it is monotone.
\<close>

locale price_scale =
  fixes scale :: "int \<Rightarrow> js_exn + int" and lo hi :: int
  assumes scale_total: "lo \<le> t \<Longrightarrow> t \<le> hi \<Longrightarrow> \<exists>p. scale t = Inr p"
    and scale_pos: "scale t = Inr p \<Longrightarrow> 0 < p"
    and scale_mono: "scale t = Inr p \<Longrightarrow> scale u = Inr q \<Longrightarrow> t \<le> u \<Longrightarrow> p \<le> q"
begin

lemma scale_range:
  assumes "lo \<le> t" and "t \<le> u" and "u \<le> hi"
  obtains p q where "scale t = Inr p" and "scale u = Inr q" and "0 < p" and "p \<le> q"
proof -
  obtain p where p: "scale t = Inr p" using scale_total [of t] assms by auto
  obtain q where q: "scale u = Inr q" using scale_total [of u] assms by auto
  show ?thesis using that [OF p q scale_pos [OF p] scale_mono [OF p q assms(2)]] .
qed

end

lemma tick_price_total: "MIN_TICK \<le> t \<Longrightarrow> t \<le> MAX_TICK \<Longrightarrow> \<exists>p. tickToSqrtPriceX96 t = Inr p"
  using tick_price_nonneg_eq [of t] tick_price_neg_eq [of t] by (cases "0 \<le> t") auto

interpretation tick_scale: price_scale tickToSqrtPriceX96 MIN_TICK MAX_TICK
  by unfold_locales (auto simp: tick_price_total dest: tick_price_pos tick_price_mono)

text \<open>The tick scale is total on the tick range, positive and monotone.\<close>

theorem tick_price_ordered:
  assumes "MIN_TICK \<le> t" and "t \<le> u" and "u \<le> MAX_TICK"
  shows "\<exists>p q. tickToSqrtPriceX96 t = Inr p \<and> tickToSqrtPriceX96 u = Inr q \<and> 0 < p \<and> p \<le> q"
  using tick_scale.scale_range [OF assms] by metis

theorem tick_price_ordered_witness:
  "\<exists>p q. tickToSqrtPriceX96 (- 60) = Inr p \<and> tickToSqrtPriceX96 60 = Inr q \<and> 0 < p \<and> p \<le> q"
  by (rule tick_price_ordered) (simp_all add: MIN_TICK_def MAX_TICK_def)

section \<open>Amounts and liquidity\<close>

lemma le_quot_Q96: "x \<le> y * Q96 \<Longrightarrow> x div Q96 \<le> y"
proof -
  assume "x \<le> y * Q96"
  then have "x < (y + 1) * Q96" using Q96_pos(1) unfolding distrib_right by linarith
  then show ?thesis by (simp add: div_le_iff_int)
qed

lemma scaled_div_le:
  assumes "0 \<le> l" and "0 < p" and "p \<le> q"
  shows "l * Q96 div q \<le> l * Q96 div p"
  using assms by (simp add: zdiv_mono2)

lemma nonneg_mult_Q96 [simp]: "0 \<le> l \<Longrightarrow> 0 \<le> l * Q96"
  by simp

lemma amounts_below:
  assumes "s \<le> lower" and "0 < lower" and "lower \<le> upper" and "0 \<le> l"
  shows "getAmountsForLiquidity s lower upper l =
    Inr \<lparr>amount0 = l * Q96 div lower - l * Q96 div upper, amount1 = 0\<rparr>"
  using assms by (simp add: getAmountsForLiquidity_def)

lemma amounts_above:
  assumes "lower < s" and "upper \<le> s" and "lower \<le> upper" and "0 \<le> l"
  shows "getAmountsForLiquidity s lower upper l =
    Inr \<lparr>amount0 = 0, amount1 = l * (upper - lower) div Q96\<rparr>"
  using assms by (simp add: getAmountsForLiquidity_def)

lemma amounts_in_range:
  assumes "lower < s" and "s < upper" and "0 < lower" and "0 \<le> l"
  shows "getAmountsForLiquidity s lower upper l =
    Inr \<lparr>amount0 = l * Q96 div lower - l * Q96 div s, amount1 = l * (s - lower) div Q96\<rparr>"
  using assms by (simp add: getAmountsForLiquidity_def)

lemmas amounts_cases = amounts_below amounts_above amounts_in_range

lemma range_cases:
  fixes s lower upper :: int
  obtains (below) "s \<le> lower" | (above) "lower < s" "upper \<le> s" | (inside) "lower < s" "s < upper"
  by linarith

text \<open>The amounts of a position are defined, not negative, and bounded by the exact quotients.\<close>

lemma amounts_bounds:
  assumes "0 < lower" and "lower \<le> upper" and "0 \<le> liquidity"
  shows "\<exists>a. getAmountsForLiquidity sqrtPrice lower upper liquidity = Inr a \<and>
    0 \<le> amount0 a \<and> amount0 a * lower \<le> liquidity * Q96 \<and>
    0 \<le> amount1 a \<and> amount1 a * Q96 \<le> liquidity * (upper - lower)"
proof (cases rule: range_cases [where s = sqrtPrice and lower = lower and upper = upper])
  case below
  let ?x = "liquidity * Q96 div lower" and ?y = "liquidity * Q96 div upper"
  have "?y \<le> ?x" using assms by (simp add: scaled_div_le)
  moreover have "0 \<le> ?y" using assms by (simp add: pos_imp_zdiv_nonneg_iff)
  moreover have "(?x - ?y) * lower \<le> liquidity * Q96"
  proof -
    have "(?x - ?y) * lower \<le> ?x * lower" using assms \<open>0 \<le> ?y\<close> by simp
    also have "\<dots> \<le> liquidity * Q96" using assms by (simp add: div_mult_le_int)
    finally show ?thesis .
  qed
  ultimately show ?thesis using assms below by (auto simp: amounts_below)
next
  case above
  then show ?thesis
    using assms div_mult_le_int [of Q96 "liquidity * (upper - lower)"]
    by (auto simp: amounts_above pos_imp_zdiv_nonneg_iff)
next
  case inside
  let ?x = "liquidity * Q96 div lower" and ?y = "liquidity * Q96 div sqrtPrice"
  let ?z = "liquidity * (sqrtPrice - lower) div Q96"
  have "?y \<le> ?x" using assms inside by (simp add: scaled_div_le)
  moreover have "0 \<le> ?y" using assms inside by (simp add: pos_imp_zdiv_nonneg_iff)
  moreover have "(?x - ?y) * lower \<le> liquidity * Q96"
  proof -
    have "(?x - ?y) * lower \<le> ?x * lower" using assms \<open>0 \<le> ?y\<close> by simp
    also have "\<dots> \<le> liquidity * Q96" using assms by (simp add: div_mult_le_int)
    finally show ?thesis .
  qed
  moreover have "0 \<le> ?z" using assms inside by (simp add: pos_imp_zdiv_nonneg_iff)
  moreover have "?z * Q96 \<le> liquidity * (sqrtPrice - lower)" by (simp add: div_mult_le_int)
  moreover have "liquidity * (sqrtPrice - lower) \<le> liquidity * (upper - lower)"
    using assms inside by (simp add: mult_left_mono)
  ultimately show ?thesis using assms inside by (auto simp: amounts_in_range)
qed

lemma liquidity_above:
  assumes "lower < s" and "upper \<le> s" and "lower < upper" and "0 \<le> a1"
  shows "getLiquidityForAmounts s lower upper a0 a1 = Inr (a1 * Q96 div (upper - lower))"
  using assms by (simp add: getLiquidityForAmounts_def)

lemma liquidity_in_range:
  assumes "lower < s" and "s < upper" and "0 < lower" and "0 \<le> a0" and "0 \<le> a1"
  shows "getLiquidityForAmounts s lower upper a0 a1 =
    Inr (min (a0 * s * upper div (Q96 * (upper - s))) (a1 * Q96 div (s - lower)))"
  using assms by (simp add: getLiquidityForAmounts_def min_def)

lemma mult_div_div_le:
  fixes l w q :: int
  assumes "0 < q" and "0 < w"
  shows "l * w div q * q div w \<le> l"
proof -
  have "l * w div q * q \<le> l * w" using assms by (simp add: div_mult_le_int)
  then have "l * w div q * q div w \<le> l * w div w" using assms(2) by (rule zdiv_mono1)
  also have "\<dots> = l" using assms(2) by simp
  finally show ?thesis .
qed

text \<open>C28: Withdrawing a position and depositing the amounts again never creates liquidity,
  at any price above the lower bound of the range.\<close>

theorem liquidity_round_trip:
  assumes "0 < lower" and "lower < upper" and "lower < sqrtPrice" and "0 \<le> liquidity"
    and "getAmountsForLiquidity sqrtPrice lower upper liquidity = Inr a"
  shows "\<exists>l. getLiquidityForAmounts sqrtPrice lower upper (amount0 a) (amount1 a) = Inr l \<and>
    0 \<le> l \<and> l \<le> liquidity"
proof -
  have nn: "0 \<le> amount0 a" "0 \<le> amount1 a"
    using amounts_bounds [of lower upper liquidity sqrtPrice] assms by auto
  show ?thesis
  proof (cases "upper \<le> sqrtPrice")
    case True
    then have "amount1 a = liquidity * (upper - lower) div Q96"
      using assms by (auto simp: amounts_above)
    then have "amount1 a * Q96 div (upper - lower) \<le> liquidity"
      using assms mult_div_div_le [of Q96 "upper - lower" liquidity] by simp
    then show ?thesis using True assms nn
      by (auto simp: liquidity_above pos_imp_zdiv_nonneg_iff)
  next
    case False
    then have "amount1 a = liquidity * (sqrtPrice - lower) div Q96"
      using assms by (auto simp: amounts_in_range)
    then have "amount1 a * Q96 div (sqrtPrice - lower) \<le> liquidity"
      using assms mult_div_div_le [of Q96 "sqrtPrice - lower" liquidity] by simp
    then show ?thesis using False assms nn
      by (auto simp: liquidity_in_range pos_imp_zdiv_nonneg_iff intro: min.coboundedI2)
  qed
qed

theorem liquidity_round_trip_witness:
  "\<exists>l. getLiquidityForAmounts (2 * Q96) Q96 (4 * Q96) 500 1000 = Inr l \<and> 0 \<le> l \<and> l \<le> 1000"
  using liquidity_round_trip [of Q96 "4 * Q96" "2 * Q96" 1000 "\<lparr>amount0 = 500, amount1 = 1000\<rparr>"]
  by (simp add: amounts_in_range)

text \<open>The liquidity credited for a deposit never claims more of token1 than was deposited.\<close>

theorem deposit_covers_token1:
  assumes "0 < lower" and "lower < upper" and "lower < sqrtPrice"
    and "0 \<le> a0" and "0 \<le> a1"
    and "getLiquidityForAmounts sqrtPrice lower upper a0 a1 = Inr l"
  shows "\<exists>a. getAmountsForLiquidity sqrtPrice lower upper l = Inr a \<and> amount1 a \<le> a1"
proof (cases "upper \<le> sqrtPrice")
  case True
  then have l: "l = a1 * Q96 div (upper - lower)" using assms by (simp add: liquidity_above)
  then have "0 \<le> l" using assms by (simp add: pos_imp_zdiv_nonneg_iff)
  moreover have "l * (upper - lower) \<le> a1 * Q96" using assms l by (simp add: div_mult_le_int)
  ultimately show ?thesis using True assms by (auto simp: amounts_above le_quot_Q96)
next
  case False
  then have l: "l = min (a0 * sqrtPrice * upper div (Q96 * (upper - sqrtPrice))) (a1 * Q96 div (sqrtPrice - lower))"
    using assms by (simp add: liquidity_in_range)
  have "0 \<le> l" using False assms by (simp add: l pos_imp_zdiv_nonneg_iff)
  moreover have "l * (sqrtPrice - lower) \<le> a1 * Q96"
    using assms l by (simp add: le_div_iff_int [symmetric])
  ultimately show ?thesis using False assms by (auto simp: amounts_in_range le_quot_Q96)
qed

theorem deposit_covers_token1_witness:
  "\<exists>a. getAmountsForLiquidity (4 * Q96) Q96 (3 * Q96) 500 = Inr a \<and> amount1 a \<le> 1000"
  by (rule deposit_covers_token1 [of _ _ _ 0]) (simp_all add: liquidity_above Q96_eq)

section \<open>Against the contract\<close>

text \<open>
  What the SDK leaves out of \<open>amount0\<close>: nothing below the range, the part between the current
  price and the upper bound inside it, all of it above.
\<close>

definition missing_amount0 :: "int \<Rightarrow> int \<Rightarrow> int \<Rightarrow> int \<Rightarrow> int" where
  "missing_amount0 sqrtPrice lower upper l =
     (if sqrtPrice \<le> lower then 0
      else if upper \<le> sqrtPrice then l * Q96 div lower - l * Q96 div upper
      else l * Q96 div sqrtPrice - l * Q96 div upper)"

lemma contract_amounts_Some:
  assumes "contract_amounts_for_liquidity l lower upper s = Some c"
  shows "lower \<le> upper" and "0 \<le> l"
    and "amount0 c = l * Q96 div lower - l * Q96 div upper"
    and "amount1 c = l * (min (max s lower) upper - lower) div Q96"
  using assms
  by (auto simp: contract_amounts_for_liquidity_def u128_def Let_def zero_le_mult_iff
      split: if_splits Option.bind_splits)

text \<open>Where the contract computes the amounts of a position, the SDK computes the same
  \<open>amount1\<close> and an \<open>amount0\<close> that falls short by the documented part only.\<close>

theorem sdk_amounts_vs_contract:
  assumes "0 < lower" and "lower < upper"
    and "contract_amounts_for_liquidity l lower upper sqrtPrice = Some c"
  shows "\<exists>a. getAmountsForLiquidity sqrtPrice lower upper l = Inr a \<and>
    amount1 a = amount1 c \<and> amount0 a + missing_amount0 sqrtPrice lower upper l = amount0 c \<and>
    0 \<le> missing_amount0 sqrtPrice lower upper l"
proof -
  note c = contract_amounts_Some [OF assms(3)]
  show ?thesis
  proof (cases rule: range_cases [where s = sqrtPrice and lower = lower and upper = upper])
    case below
    then show ?thesis using assms(1,2) c by (auto simp: amounts_below missing_amount0_def)
  next
    case above
    then show ?thesis
      using assms(1,2) c by (auto simp: amounts_above missing_amount0_def scaled_div_le)
  next
    case inside
    then show ?thesis
      using assms(1,2) c by (auto simp: amounts_in_range missing_amount0_def scaled_div_le)
  qed
qed

theorem sdk_amounts_vs_contract_witness:
  "\<exists>a. getAmountsForLiquidity (2 * Q96) Q96 (4 * Q96) 1000 = Inr a \<and>
    amount1 a = 1000 \<and> amount0 a + missing_amount0 (2 * Q96) Q96 (4 * Q96) 1000 = 750 \<and>
    0 \<le> missing_amount0 (2 * Q96) Q96 (4 * Q96) 1000"
  using sdk_amounts_vs_contract [of Q96 "4 * Q96" 1000 "2 * Q96" "\<lparr>amount0 = 750, amount1 = 1000\<rparr>"]
  by (simp add: contract_amounts_for_liquidity_def u128_def Q96_eq)

section \<open>Floating-point helpers\<close>

text \<open>A position worth less than holding the tokens never gets a negative percentage.\<close>

theorem impermanent_loss_sign:
  assumes "jadd (jmul i0 p0) (jmul i1 p1) = Fin hodl" and "jadd (jmul c0 p0) (jmul c1 p1) = Fin current"
    and "0 < current" and "current \<le> hodl"
    and "getImpermanentLossPercentage c0 c1 i0 i1 p0 (Some p1) = Some il"
  shows "\<exists>x. il = Fin x \<and> 0 \<le> x"
proof -
  have "1 \<le> hodl / current" using assms by simp
  have il: "il = jmul (jsub (to_double (hodl / current)) (Fin 1)) (Fin 100)" and fin: "is_finite il"
    using assms by (auto simp: getImpermanentLossPercentage_def Let_def split: if_splits)
  from \<open>1 \<le> hodl / current\<close> show ?thesis
  proof (cases rule: to_double_ge_one_cases)
    case overflow
    then show ?thesis using il fin by (simp add: jsub_def)
  next
    case (finite y)
    then have il': "il = jmul (to_double (y - 1)) (Fin 100)" using il by (simp add: jsub_def)
    have "0 \<le> y - 1" using finite by simp
    then show ?thesis
    proof (cases rule: to_double_nonneg_cases)
      case overflow
      then show ?thesis using il' fin by simp
    next
      case z: (finite z)
      then have il2: "il = to_double (z * 100)" and "0 \<le> z * 100" using il' by simp_all
      from \<open>0 \<le> z * 100\<close> show ?thesis
        by (cases rule: to_double_nonneg_cases) (use il2 fin in auto)
    qed
  qed
qed

theorem impermanent_loss_sign_witness:
  "\<exists>x. Fin 100 = Fin x \<and> 0 \<le> (x::rat)"
proof -
  have "getImpermanentLossPercentage (Fin 1) (Fin 0) (Fin 2) (Fin 0) (Fin 1) (Some (Fin 1)) = Some (Fin 100)"
    by code_simp
  moreover have "jadd (jmul (Fin 2) (Fin 1)) (jmul (Fin 0) (Fin 1)) = Fin 2"
    and "jadd (jmul (Fin 1) (Fin 1)) (jmul (Fin 0) (Fin 1)) = Fin 1" by code_simp+
  ultimately show ?thesis
    by (intro impermanent_loss_sign [of "Fin 2" "Fin 1" "Fin 0" "Fin 1" 2 "Fin 1" "Fin 0" 1 "Fin 100"]) simp_all
qed

lemma MIN_TICK_num: "num_of_int MIN_TICK = Fin (- 887272)" and MAX_TICK_num: "num_of_int MAX_TICK = Fin 887272"
  by code_simp+

text \<open>Whatever logarithm the runtime has, a tick computed from a price is in the tick range.\<close>

theorem priceToTick_in_range:
  assumes "priceToTick math_log price tickSpacing = Inr r" and "r \<noteq> NaN"
  shows "\<exists>t. r = Fin t \<and> of_int MIN_TICK \<le> t \<and> t \<le> of_int MAX_TICK"
proof -
  have "r = jmax (Fin (- 887272)) (jmin (Fin 887272)
      (jmul (jround (jdiv (jdiv (math_log price) (math_log (to_double (10001 / 10000)))) tickSpacing)) tickSpacing))"
    (is "r = jmax _ (jmin _ ?s)")
    using assms(1) by (simp add: priceToTick_def Let_def MIN_TICK_num MAX_TICK_num split: if_splits)
  then show ?thesis
    using assms(2) by (cases ?s) (auto simp: jmax_def jmin_def MIN_TICK_def MAX_TICK_def split: if_splits)
qed

theorem priceToTick_in_range_witness:
  "\<exists>t. Fin 600 = Fin t \<and> of_int MIN_TICK \<le> t \<and> t \<le> of_int MAX_TICK"
proof (rule priceToTick_in_range [where math_log = "\<lambda>x. if x = Fin 2 then Fin 600 else Fin 1"
      and price = "Fin 2" and tickSpacing = "Fin 60"])
  show "priceToTick (\<lambda>x. if x = Fin 2 then Fin 600 else Fin 1) (Fin 2) (Fin 60) = Inr (Fin 600)"
    by code_simp
qed simp

end
