(* ===== verification/Quote.thy ===== *)
theory Quote
  imports Position_Math
begin

text \<open>
  The local swap quotes of \<^verbatim>\<open>packages/sdk/src/quote.ts\<close>: validation, the tick-crossing simulation
  \<^verbatim>\<open>getSwapQuote\<close> with its step \<^verbatim>\<open>computeSwapStep\<close> on BigInt, and the two constant-product
  estimates \<^verbatim>\<open>calculateSwapQuote\<close> and \<^verbatim>\<open>calculateExactOutputQuote\<close> on doubles.

  A property that an object may lack (\<^verbatim>\<open>sqrtPriceX96\<close>, which the declared \<^verbatim>\<open>PoolState\<close> and
  \<^verbatim>\<open>TickState\<close> do not have) is an option; \<^verbatim>\<open>BigInt(undefined)\<close> throws TypeError.
\<close>

section \<open>Pool and tick state\<close>

record tick_state =
  ts_tick :: int
  ts_sqrtPriceX96 :: "string option"

record pool_state =
  ps_sqrtPrice :: string
  ps_sqrtPriceX96 :: "string option"
  ps_liquidity :: string
  ps_feeTier :: jsnum
  ps_token0 :: string
  ps_token1 :: string
  ps_ticks :: "tick_state list option"

datatype amount_arg = AmountString string | AmountBig int

record local_quote =
  q_amountOut :: string
  q_priceImpact :: jsnum
  q_fee :: string
  q_minimumReceived :: string
  q_sqrtPriceLimitX96 :: string

section \<open>Validation\<close>

definition validateSlippage :: "jsnum \<Rightarrow> js_exn + unit" where
  "validateSlippage slippage =
     ensure (\<not> (\<not> is_finite slippage \<or> jlt slippage (Fin 0) \<or> jlt (Fin 10000) slippage))
       (QuoteValidationError ''slippage must be between 0 and 10000 basis points'')"

definition validateFeeTier :: "jsnum \<Rightarrow> js_exn + unit" where
  "validateFeeTier feeTier =
     ensure (\<not> (\<not> is_integer feeTier \<or> jle feeTier (Fin 0)))
       (QuoteValidationError ''feeTier must be a positive integer'')"

text \<open>\<^verbatim>\<open>BigInt(x)\<close> of a string property, which may be undefined, and of a number.\<close>

definition bigint_of_prop :: "string option \<Rightarrow> js_exn + int" where
  "bigint_of_prop p = (case p of
     None \<Rightarrow> Inl (TypeError ''Cannot convert undefined to a BigInt'')
   | Some s \<Rightarrow> (case bigint_of_string s of
       None \<Rightarrow> Inl (SyntaxError (''Cannot convert '' @ s @ '' to a BigInt''))
     | Some i \<Rightarrow> Inr i))"

definition bigint_of_number :: "jsnum \<Rightarrow> js_exn + int" where
  "bigint_of_number x = (case bigint_of_num x of
     None \<Rightarrow> Inl (RangeError ''The number cannot be converted to a BigInt because it is not an integer'')
   | Some i \<Rightarrow> Inr i)"

definition direction :: "pool_state \<Rightarrow> string \<Rightarrow> js_exn + bool" where
  "direction p tokenIn =
     (if tokenIn = ps_token0 p then Inr True
      else if tokenIn = ps_token1 p then Inr False
      else Inl (QuoteValidationError ''invalid token direction''))"

definition toBigIntAmount :: "amount_arg \<Rightarrow> int" where
  "toBigIntAmount a = (case a of AmountBig i \<Rightarrow> i
     | AmountString s \<Rightarrow> (case bigint_of_string s of None \<Rightarrow> 0 | Some i \<Rightarrow> i))"

section \<open>One step towards a tick\<close>

record swap_step =
  st_amountIn :: int
  st_amountOut :: int
  st_nextSqrtPrice :: int
  st_reachedTarget :: bool

definition computeSwapStep :: "int \<Rightarrow> int \<Rightarrow> int \<Rightarrow> int \<Rightarrow> bool \<Rightarrow> js_exn + swap_step" where
  "computeSwapStep current target liquidity amountRemaining zeroForOne =
     (let nxt = (if zeroForOne then (if target < current then target else current)
                 else (if current < target then target else current));
          reached = (nxt = target)
      in bind_result (if zeroForOne then big_div (liquidity * (current - nxt)) current
                      else big_div (liquidity * (nxt - current)) nxt) (\<lambda>ain.
         bind_result (if zeroForOne then big_div (liquidity * (current - nxt)) nxt
                      else big_div (liquidity * (nxt - current)) current) (\<lambda>aout.
         if amountRemaining < ain then
           bind_result (big_div (aout * amountRemaining) ain) (\<lambda>part.
           Inr \<lparr>st_amountIn = amountRemaining, st_amountOut = part,
                st_nextSqrtPrice = current, st_reachedTarget = False\<rparr>)
         else Inr \<lparr>st_amountIn = ain, st_amountOut = aout,
                   st_nextSqrtPrice = nxt, st_reachedTarget = reached\<rparr>)))"

text \<open>The loop over the sorted ticks: price, remaining input and output so far.\<close>

fun swap_loop :: "int \<Rightarrow> bool \<Rightarrow> tick_state list \<Rightarrow> int \<times> int \<times> int \<Rightarrow> js_exn + int \<times> int \<times> int" where
  "swap_loop liquidity zeroForOne [] s = Inr s"
| "swap_loop liquidity zeroForOne (t # ts) (sqrtPrice, remainingIn, totalOut) =
     (if remainingIn \<le> 0 then Inr (sqrtPrice, remainingIn, totalOut)
      else bind_result (bigint_of_prop (ts_sqrtPriceX96 t)) (\<lambda>target.
           bind_result (computeSwapStep sqrtPrice target liquidity remainingIn zeroForOne) (\<lambda>st.
           let s' = (st_nextSqrtPrice st, remainingIn - st_amountIn st, totalOut + st_amountOut st)
           in if st_reachedTarget st then swap_loop liquidity zeroForOne ts s' else Inr s')))"

text \<open>\<^verbatim>\<open>Array.prototype.sort\<close> is stable, as \<open>sort_key\<close> is.\<close>

definition sorted_ticks :: "pool_state \<Rightarrow> bool \<Rightarrow> tick_state list" where
  "sorted_ticks p zeroForOne =
     sort_key (\<lambda>t. if zeroForOne then - ts_tick t else ts_tick t)
       (case ps_ticks p of None \<Rightarrow> [] | Some ts \<Rightarrow> ts)"

definition price_impact :: "jsnum \<Rightarrow> jsnum \<Rightarrow> jsnum" where
  "price_impact spotPrice executionPrice =
     parse_float (to_fixed 4 (jmax (Fin 0)
       (jmul (jdiv (jsub spotPrice executionPrice) spotPrice) (Fin 100))))"

definition getSwapQuote :: "pool_state \<Rightarrow> string \<Rightarrow> amount_arg \<Rightarrow> jsnum \<Rightarrow> js_exn + local_quote" where
  "getSwapQuote p tokenIn amount slippage =
     bind_result (validateSlippage slippage) (\<lambda>_.
     bind_result (validateFeeTier (ps_feeTier p)) (\<lambda>_.
     let amountIn = toBigIntAmount amount in
     bind_result (ensure (\<not> amountIn \<le> 0)
       (QuoteValidationError ''amountIn must be greater than zero'')) (\<lambda>_.
     bind_result (direction p tokenIn) (\<lambda>zeroForOne.
     bind_result (bigint_of_prop (ps_sqrtPriceX96 p)) (\<lambda>sqrtPrice.
     bind_result (bigint_of_prop (Some (ps_liquidity p))) (\<lambda>liquidity.
     bind_result (ensure (\<not> liquidity \<le> 0) (QuoteValidationError ''zero liquidity'')) (\<lambda>_.
     bind_result (bigint_of_number (ps_feeTier p)) (\<lambda>fee.
     bind_result (big_div (amountIn * fee) 1000000) (\<lambda>feeAmount.
     bind_result (swap_loop liquidity zeroForOne (sorted_ticks p zeroForOne)
                    (sqrtPrice, amountIn - feeAmount, 0)) (\<lambda>(price, remainingIn, totalOut).
     bind_result (ensure (\<not> 0 < remainingIn)
       (QuoteValidationError ''amount exceeds available liquidity'')) (\<lambda>_.
     bind_result (ensure (\<not> totalOut \<le> 0) (QuoteValidationError ''zero liquidity'')) (\<lambda>_.
     bind_result (bigint_of_number (jsub (Fin 10000) slippage)) (\<lambda>keep.
     bind_result (big_div (totalOut * keep) 10000) (\<lambda>minimumReceived.
     Inr \<lparr>q_amountOut = show_int totalOut,
          q_priceImpact = price_impact (jdiv (num_of_int Q96) (num_of_int price))
            (jdiv (num_of_int totalOut) (num_of_int amountIn)),
          q_fee = show_int feeAmount,
          q_minimumReceived = show_int minimumReceived,
          q_sqrtPriceLimitX96 = show_int price\<rparr>))))))))))))))"

section \<open>Constant-product estimates\<close>

record swap_quote =
  sq_amountOut :: string
  sq_priceImpact :: jsnum
  sq_lpFee :: string
  sq_protocolFee :: string
  sq_minimumReceived :: string
  sq_executionPrice :: string

definition EMPTY_QUOTE :: swap_quote where
  "EMPTY_QUOTE = \<lparr>sq_amountOut = ''0'', sq_priceImpact = Fin 0, sq_lpFee = ''0'',
     sq_protocolFee = ''0'', sq_minimumReceived = ''0'', sq_executionPrice = ''0''\<rparr>"

definition isEmptyQuote :: "swap_quote \<Rightarrow> bool" where
  "isEmptyQuote q = (sq_amountOut q = ''0'' \<and> sq_executionPrice q = ''0'')"

record swap_quote_params =
  qp_tokenInId :: string
  qp_tokenOutId :: string
  qp_amount :: string
  qp_slippageBps :: jsnum

definition quote_params_missing :: "swap_quote_params option \<Rightarrow> bool" where
  "quote_params_missing ps = (case ps of None \<Rightarrow> True | Some p \<Rightarrow>
     qp_amount p = [] \<or> trim (qp_amount p) = [] \<or> qp_tokenInId p = [] \<or> qp_tokenOutId p = [])"

definition calculateSwapQuote :: "swap_quote_params option \<Rightarrow> js_exn + swap_quote" where
  "calculateSwapQuote ps =
     (if quote_params_missing ps then Inr EMPTY_QUOTE
      else let p = the ps in
        bind_result (validateSlippage (qp_slippageBps p)) (\<lambda>_.
        let amountIn = parse_float (qp_amount p) in
        if \<not> is_finite amountIn \<or> jle amountIn (Fin 0)
        then Inl (QuoteValidationError ''amountIn must be greater than zero'')
        else
          let reserveIn = Fin 1000000; reserveOut = Fin 1000000; lpFeeBps = Fin 30;
              lpFeeAmt = jmul amountIn (jdiv lpFeeBps (Fin 10000));
              amountInAfterFee = jsub amountIn lpFeeAmt;
              amountOut = jdiv (jmul reserveOut amountInAfterFee) (jadd reserveIn amountInAfterFee);
              spotPrice = jdiv reserveOut reserveIn;
              executionPrice = jdiv amountOut amountIn;
              minimumReceived = jmul amountOut (jsub (Fin 1) (jdiv (qp_slippageBps p) (Fin 10000)))
          in Inr \<lparr>sq_amountOut = to_fixed 7 amountOut,
                  sq_priceImpact = price_impact spotPrice executionPrice,
                  sq_lpFee = to_fixed 7 lpFeeAmt, sq_protocolFee = ''0'',
                  sq_minimumReceived = to_fixed 7 minimumReceived,
                  sq_executionPrice = to_fixed 7 executionPrice\<rparr>))"

record exact_output_quote =
  eq_amountIn :: string
  eq_maximumIn :: string
  eq_priceImpact :: jsnum
  eq_lpFee :: string
  eq_protocolFee :: string
  eq_executionPrice :: string

definition EMPTY_EXACT_OUTPUT_QUOTE :: exact_output_quote where
  "EMPTY_EXACT_OUTPUT_QUOTE = \<lparr>eq_amountIn = ''0'', eq_maximumIn = ''0'', eq_priceImpact = Fin 0,
     eq_lpFee = ''0'', eq_protocolFee = ''0'', eq_executionPrice = ''0''\<rparr>"

definition calculateExactOutputQuote :: "swap_quote_params option \<Rightarrow> js_exn + exact_output_quote" where
  "calculateExactOutputQuote ps =
     (if quote_params_missing ps then Inr EMPTY_EXACT_OUTPUT_QUOTE
      else let p = the ps in
        bind_result (validateSlippage (qp_slippageBps p)) (\<lambda>_.
        let amountOut = parse_float (qp_amount p) in
        if \<not> is_finite amountOut \<or> jle amountOut (Fin 0)
        then Inl (QuoteValidationError ''amountOut must be greater than zero'')
        else
          let reserveIn = Fin 1000000; reserveOut = Fin 1000000; lpFeeBps = Fin 30 in
          if jle reserveOut amountOut
          then Inl (QuoteValidationError ''amountOut exceeds available liquidity'')
          else
            let amountInAfterFee = jdiv (jmul reserveIn amountOut) (jsub reserveOut amountOut);
                amountIn = jdiv amountInAfterFee (jsub (Fin 1) (jdiv lpFeeBps (Fin 10000)));
                lpFeeAmt = jsub amountIn amountInAfterFee;
                spotPrice = jdiv reserveOut reserveIn;
                executionPrice = jdiv amountOut amountIn;
                maximumIn = jmul amountIn (jadd (Fin 1) (jdiv (qp_slippageBps p) (Fin 10000)))
            in Inr \<lparr>eq_amountIn = to_fixed 7 amountIn, eq_maximumIn = to_fixed 7 maximumIn,
                    eq_priceImpact = price_impact spotPrice executionPrice,
                    eq_lpFee = to_fixed 7 lpFeeAmt, eq_protocolFee = ''0'',
                    eq_executionPrice = to_fixed 7 executionPrice\<rparr>))"

end
