(* ===== verification/Quote_Laws.thy ===== *)
theory Quote_Laws
  imports Quote
begin

text \<open>
  Properties of the quotes of \<^verbatim>\<open>Quote\<close>: what a step may consume and produce, what the loop
  conserves, which quotes are refused, and the slippage bound of the estimates.
\<close>

section \<open>One step\<close>

text \<open>The price a step moves to lies between the current price and the target.\<close>

definition step_price :: "int \<Rightarrow> int \<Rightarrow> bool \<Rightarrow> int" where
  "step_price current target zeroForOne = (if zeroForOne then min target current else max target current)"

lemma step_price_pos: "0 < current \<Longrightarrow> 0 < target \<Longrightarrow> 0 < step_price current target zfo"
  by (simp add: step_price_def max_def)

definition full_in :: "int \<Rightarrow> int \<Rightarrow> int \<Rightarrow> bool \<Rightarrow> int" where
  "full_in l current nxt zfo =
     (if zfo then l * (current - nxt) div current else l * (nxt - current) div nxt)"

definition full_out :: "int \<Rightarrow> int \<Rightarrow> int \<Rightarrow> bool \<Rightarrow> int" where
  "full_out l current nxt zfo =
     (if zfo then l * (current - nxt) div nxt else l * (nxt - current) div current)"

lemma full_in_out:
  assumes "0 < current" and "0 < target" and "0 \<le> l"
  shows "0 \<le> full_in l current (step_price current target zfo) zfo"
    and "full_in l current (step_price current target zfo) zfo
      \<le> full_out l current (step_price current target zfo) zfo"
  using assms
  by (auto simp: full_in_def full_out_def step_price_def min_def max_def pos_imp_zdiv_nonneg_iff
      intro!: zdiv_mono2)

lemma computeSwapStep_eq:
  assumes "0 < current" and "0 < target" and "0 \<le> l" and "0 \<le> rem"
  shows "computeSwapStep current target l rem zfo =
    (let nxt = step_price current target zfo; i = full_in l current nxt zfo; out = full_out l current nxt zfo
     in Inr (if rem < i then \<lparr>st_amountIn = rem, st_amountOut = out * rem div i,
                st_nextSqrtPrice = current, st_reachedTarget = False\<rparr>
             else \<lparr>st_amountIn = i, st_amountOut = out, st_nextSqrtPrice = nxt,
                st_reachedTarget = (nxt = target)\<rparr>))"
proof -
  let ?n = "step_price current target zfo"
  let ?i = "full_in l current ?n zfo" and ?o = "full_out l current ?n zfo"
  have io: "0 \<le> ?i" "?i \<le> ?o" using full_in_out [OF assms(1,2,3)] by auto
  have n: "(if zfo then (if target < current then target else current)
            else (if current < target then target else current)) = ?n"
    by (auto simp: step_price_def)
  have p: "0 < ?n" using assms by (simp add: step_price_pos)
  have i: "(if zfo then big_div (l * (current - ?n)) current else big_div (l * (?n - current)) ?n) = Inr ?i"
    and o: "(if zfo then big_div (l * (current - ?n)) ?n else big_div (l * (?n - current)) current) = Inr ?o"
    using assms p by (auto simp: full_in_def full_out_def step_price_def)
  have part: "big_div (?o * rem) ?i = Inr (?o * rem div ?i)" if "rem < ?i"
    using that io assms(4) by (intro bigdiv_pos) auto
  show ?thesis by (simp add: computeSwapStep_def n i o part Let_def)
qed

lemma partial_out_ge:
  fixes i out rem :: int
  assumes "0 \<le> rem" and "rem < i" and "i \<le> out"
  shows "rem \<le> out * rem div i"
proof -
  have "rem * i \<le> out * rem" using assms by (simp add: mult.commute mult_right_mono)
  then show ?thesis using assms by (simp add: le_div_iff_int)
qed

text \<open>C26: A step towards a positive price consumes at most what remains, gives out at least what it
  consumes, and stays between the current price and the target.\<close>

theorem computeSwapStep_bounds:
  assumes "0 < current" and "0 < target" and "0 \<le> liquidity" and "0 \<le> amountRemaining"
  shows "\<exists>st. computeSwapStep current target liquidity amountRemaining zeroForOne = Inr st \<and>
    0 \<le> st_amountIn st \<and> st_amountIn st \<le> amountRemaining \<and>
    st_amountIn st \<le> st_amountOut st \<and>
    min current target \<le> st_nextSqrtPrice st \<and> st_nextSqrtPrice st \<le> max current target \<and>
    (\<not> st_reachedTarget st \<longrightarrow> st_nextSqrtPrice st = current)"
  using assms full_in_out [OF assms(1-3)] computeSwapStep_eq [OF assms]
    partial_out_ge [OF assms(4)]
  by (auto simp: Let_def step_price_def min_def max_def)

theorem computeSwapStep_bounds_witness:
  "\<exists>st. computeSwapStep 200 100 1000 30 True = Inr st \<and>
    0 \<le> st_amountIn st \<and> st_amountIn st \<le> 30 \<and> st_amountIn st \<le> st_amountOut st \<and>
    min 200 100 \<le> st_nextSqrtPrice st \<and> st_nextSqrtPrice st \<le> max 200 100 \<and>
    (\<not> st_reachedTarget st \<longrightarrow> st_nextSqrtPrice st = 200)"
  by (rule computeSwapStep_bounds) simp_all

section \<open>The loop\<close>

definition priced_tick :: "tick_state \<Rightarrow> bool" where
  "priced_tick t = (\<exists>p. bigint_of_prop (ts_sqrtPriceX96 t) = Inr p \<and> 0 < p)"

lemma swap_loop_bounds:
  assumes "\<And>t. t \<in> set ts \<Longrightarrow> priced_tick t" and "0 \<le> l" and "0 < price" and "0 \<le> rem"
  shows "\<exists>price' rem' out'. swap_loop l zfo ts (price, rem, out) = Inr (price', rem', out') \<and>
    0 < price' \<and> 0 \<le> rem' \<and> rem' \<le> rem \<and> rem - rem' \<le> out' - out"
  using assms
proof (induction ts arbitrary: price rem out)
  case Nil
  then show ?case by simp
next
  case (Cons t ts)
  show ?case
  proof (cases "rem \<le> 0")
    case True
    then show ?thesis using Cons.prems by auto
  next
    case False
    obtain p where p: "bigint_of_prop (ts_sqrtPriceX96 t) = Inr p" "0 < p"
      using Cons.prems(1) [of t] by (auto simp: priced_tick_def)
    obtain st where st: "computeSwapStep price p l rem zfo = Inr st"
      "0 \<le> st_amountIn st" "st_amountIn st \<le> rem" "st_amountIn st \<le> st_amountOut st"
      "min price p \<le> st_nextSqrtPrice st"
      using computeSwapStep_bounds [of price p l rem zfo] Cons.prems p by auto
    have np: "0 < st_nextSqrtPrice st" using st(5) p(2) Cons.prems(3) by (simp add: min_def split: if_splits)
    show ?thesis
    proof (cases "st_reachedTarget st")
      case True
      have "\<exists>price' rem' out'. swap_loop l zfo ts
          (st_nextSqrtPrice st, rem - st_amountIn st, out + st_amountOut st) = Inr (price', rem', out') \<and>
          0 < price' \<and> 0 \<le> rem' \<and> rem' \<le> rem - st_amountIn st \<and>
          rem - st_amountIn st - rem' \<le> out' - (out + st_amountOut st)"
        using Cons.prems np st by (intro Cons.IH) auto
      then show ?thesis using False True p st by (fastforce simp: Let_def)
    next
      case False': False
      then show ?thesis using False p st np by (auto simp: Let_def)
    qed
  qed
qed

section \<open>The quote\<close>

definition quotable :: "pool_state \<Rightarrow> bool" where
  "quotable p = ((\<exists>s. bigint_of_prop (ps_sqrtPriceX96 p) = Inr s \<and> 0 < s) \<and>
     (\<forall>t \<in> set (case ps_ticks p of None \<Rightarrow> [] | Some ts \<Rightarrow> ts). priced_tick t))"

lemma set_sorted_ticks [simp]:
  "set (sorted_ticks p zfo) = set (case ps_ticks p of None \<Rightarrow> [] | Some ts \<Rightarrow> ts)"
  by (simp add: sorted_ticks_def)

lemma validated_fee:
  assumes "validateFeeTier f = Inr u"
  obtains n where "bigint_of_number f = Inr n" and "0 < n"
proof (cases f)
  case (Fin x)
  with assms have x: "x = of_int \<lfloor>x\<rfloor>" and "\<not> x \<le> 0"
    by (auto simp: validateFeeTier_def jle_def jeq_def)
  then have "0 < \<lfloor>x\<rfloor>" by (metis of_int_0_less_iff not_le)
  then show ?thesis using that [of "\<lfloor>x\<rfloor>"] Fin x by (simp add: bigint_of_number_def)
qed (use assms in \<open>auto simp: validateFeeTier_def\<close>)

lemma validated_slippage:
  assumes "validateSlippage s = Inr u"
  obtains x where "s = Fin x" and "0 \<le> x" and "x \<le> 10000"
  using assms by (cases s) (auto simp: validateSlippage_def)

text \<open>
  The kept share \<^verbatim>\<open>10_000 - slippage\<close> is a BigInt between 0 and 10000 whenever the conversion does
  not throw.
\<close>

lemma kept_share:
  assumes "validateSlippage s = Inr u" and "bigint_of_number (jsub (Fin 10000) s) = Inr k"
  shows "0 \<le> k \<and> k \<le> 10000"
proof -
  obtain x where x: "s = Fin x" "0 \<le> x" "x \<le> 10000" using validated_slippage [OF assms(1)] .
  have rep: "representable 10000" using representable_of_int [of 10000] by simp
  have "0 \<le> 10000 - x" "10000 - x \<le> 10000" using x by simp_all
  from this rep obtain y where y: "to_double (10000 - x) = Fin y" "0 \<le> y" "y \<le> 10000"
    by (rule to_double_le) simp
  then have "k = \<lfloor>y\<rfloor>" using assms(2) x
    by (simp add: jsub_def bigint_of_number_def split: if_splits)
  then show ?thesis using y(2,3) floor_mono [of y 10000] by simp
qed

lemma getSwapQuote_success:
  assumes "getSwapQuote p tokenIn amount slippage = Inr q"
  obtains zfo price0 liq fee price rem out keep where
    "validateSlippage slippage = Inr ()" and "0 < toBigIntAmount amount" and "0 < liq" and "0 < fee"
    and "direction p tokenIn = Inr zfo" and "bigint_of_prop (Some (ps_liquidity p)) = Inr liq"
    and "bigint_of_number (ps_feeTier p) = Inr fee"
    and "bigint_of_prop (ps_sqrtPriceX96 p) = Inr price0"
    and "swap_loop liq zfo (sorted_ticks p zfo)
      (price0, toBigIntAmount amount - toBigIntAmount amount * fee div 1000000, 0) = Inr (price, rem, out)"
    and "rem \<le> 0" and "0 < out"
    and "bigint_of_number (jsub (Fin 10000) slippage) = Inr keep"
    and "q = \<lparr>q_amountOut = show_int out,
          q_priceImpact = price_impact (jdiv (num_of_int Q96) (num_of_int price))
            (jdiv (num_of_int out) (num_of_int (toBigIntAmount amount))),
          q_fee = show_int (toBigIntAmount amount * fee div 1000000),
          q_minimumReceived = show_int (out * keep div 10000),
          q_sqrtPriceLimitX96 = show_int price\<rparr>"
proof -
  obtain u where f: "validateFeeTier (ps_feeTier p) = Inr u"
    using assms by (auto simp: getSwapQuote_def result_iffs Let_def split: if_splits)
  obtain fee where fee: "bigint_of_number (ps_feeTier p) = Inr fee" "0 < fee"
    using validated_fee [OF f] .
  obtain v where s: "validateSlippage slippage = Inr v"
    using assms by (auto simp: getSwapQuote_def result_iffs Let_def split: if_splits)
  obtain zfo price0 liq price rem out keep where
    "validateSlippage slippage = Inr ()" "0 < toBigIntAmount amount" "0 < liq"
    "direction p tokenIn = Inr zfo" "bigint_of_prop (Some (ps_liquidity p)) = Inr liq"
    "bigint_of_prop (ps_sqrtPriceX96 p) = Inr price0"
    "swap_loop liq zfo (sorted_ticks p zfo)
      (price0, toBigIntAmount amount - toBigIntAmount amount * fee sdiv 1000000, 0) = Inr (price, rem, out)"
    "rem \<le> 0" "0 < out" "bigint_of_number (jsub (Fin 10000) slippage) = Inr keep"
    "q = \<lparr>q_amountOut = show_int out,
          q_priceImpact = price_impact (jdiv (num_of_int Q96) (num_of_int price))
            (jdiv (num_of_int out) (num_of_int (toBigIntAmount amount))),
          q_fee = show_int (toBigIntAmount amount * fee sdiv 1000000),
          q_minimumReceived = show_int (out * keep sdiv 10000),
          q_sqrtPriceLimitX96 = show_int price\<rparr>"
    using assms fee
    by (auto simp: getSwapQuote_def result_iffs Let_def bigdiv_def not_le not_less split: if_splits)
  moreover from this fee have "toBigIntAmount amount * fee sdiv 1000000 = toBigIntAmount amount * fee div 1000000"
    and "out * keep sdiv 10000 = out * keep div 10000"
    using kept_share [OF s, of keep] by (simp_all add: sdiv_nonneg_pos)
  ultimately show ?thesis using that fee by simp
qed

lemma swap_loop_nothing: "rem \<le> 0 \<Longrightarrow> swap_loop l zfo ts (price, rem, out) = Inr (price, rem, out)"
  by (cases ts) simp_all

text \<open>C27: For a pool whose current price and tick prices are positive integers, a quote is the result of
  walking the sorted ticks with the whole input less the fee: nothing of it remains at the end. The fee
  is the fee tier's share of the input, rounded down, and less than the input; the output is at least
  the input after the fee; the minimum is the kept share of the output, rounded down, and never more
  than the output; and the price limit is the price the walk ended at.\<close>

theorem getSwapQuote_amounts:
  assumes "getSwapQuote p tokenIn amount slippage = Inr q" and "quotable p"
  shows "\<exists>zfo price0 liq tier keep price out fee least.
    direction p tokenIn = Inr zfo \<and> bigint_of_prop (ps_sqrtPriceX96 p) = Inr price0 \<and>
    bigint_of_prop (Some (ps_liquidity p)) = Inr liq \<and> bigint_of_number (ps_feeTier p) = Inr tier \<and>
    bigint_of_number (jsub (Fin 10000) slippage) = Inr keep \<and>
    fee = toBigIntAmount amount * tier div 1000000 \<and> 0 \<le> fee \<and> fee < toBigIntAmount amount \<and>
    swap_loop liq zfo (sorted_ticks p zfo) (price0, toBigIntAmount amount - fee, 0) = Inr (price, 0, out) \<and>
    toBigIntAmount amount - fee \<le> out \<and>
    least = out * keep div 10000 \<and> 0 \<le> least \<and> least \<le> out \<and>
    q_amountOut q = show_int out \<and> q_fee q = show_int fee \<and>
    q_minimumReceived q = show_int least \<and> q_sqrtPriceLimitX96 q = show_int price"
proof (rule getSwapQuote_success [OF assms(1)])
  fix zfo price0 liq fee price rem out keep
  let ?a = "toBigIntAmount amount"
  let ?fee = "?a * fee div 1000000"
  assume s: "validateSlippage slippage = Inr ()" and a: "0 < ?a" and l: "0 < liq" and f: "0 < fee"
    and inputs: "direction p tokenIn = Inr zfo" "bigint_of_prop (Some (ps_liquidity p)) = Inr liq"
      "bigint_of_number (ps_feeTier p) = Inr fee"
    and p0: "bigint_of_prop (ps_sqrtPriceX96 p) = Inr price0"
    and loop: "swap_loop liq zfo (sorted_ticks p zfo) (price0, ?a - ?fee, 0) = Inr (price, rem, out)"
    and rem: "rem \<le> 0" and out: "0 < out"
    and k: "bigint_of_number (jsub (Fin 10000) slippage) = Inr keep"
    and q: "q = \<lparr>q_amountOut = show_int out,
          q_priceImpact = price_impact (jdiv (num_of_int Q96) (num_of_int price))
            (jdiv (num_of_int out) (num_of_int ?a)),
          q_fee = show_int ?fee, q_minimumReceived = show_int (out * keep div 10000),
          q_sqrtPriceLimitX96 = show_int price\<rparr>"
  have some: "0 < ?a - ?fee"
  proof (rule ccontr)
    assume "\<not> 0 < ?a - ?fee"
    then have "swap_loop liq zfo (sorted_ticks p zfo) (price0, ?a - ?fee, 0) = Inr (price0, ?a - ?fee, 0)"
      by (intro swap_loop_nothing) simp
    then show False using loop out by simp
  qed
  have ticks: "priced_tick t" if "t \<in> set (sorted_ticks p zfo)" for t
    using that assms(2) by (simp add: quotable_def)
  have "0 < price0" using p0 assms(2) by (auto simp: quotable_def)
  from swap_loop_bounds [where ts = "sorted_ticks p zfo" and l = liq and price = price0 and rem = "?a - ?fee" and
      zfo = zfo and out = 0, OF ticks] this loop some l rem
  have ge: "?a - ?fee \<le> out" and rem0: "rem = 0" by auto
  have kb: "0 \<le> keep" "keep \<le> 10000" using kept_share [OF s k] by auto
  then have "out * keep div 10000 \<le> out" using out
    by (simp add: div_le_iff_int) (metis add_pos_pos less_add_same_cancel1 mult_le_cancel_left_pos
        order.strict_trans1 zero_less_numeral)
  moreover have "0 \<le> out * keep div 10000" using out kb by (simp add: pos_imp_zdiv_nonneg_iff)
  moreover have "0 \<le> ?fee" using a f by (simp add: pos_imp_zdiv_nonneg_iff)
  ultimately show ?thesis using q ge some loop rem0 inputs p0 k by (intro exI conjI) simp_all
qed

definition demo_pool :: pool_state where
  "demo_pool = \<lparr>ps_sqrtPrice = ''200'', ps_sqrtPriceX96 = Some ''200'', ps_liquidity = ''1000'',
     ps_feeTier = Fin 3000, ps_token0 = ''XLM'', ps_token1 = ''USDC'',
     ps_ticks = Some [\<lparr>ts_tick = - 60, ts_sqrtPriceX96 = Some ''100''\<rparr>]\<rparr>"

lemma demo_numbers:
  "bigint_of_string ''200'' = Some 200" "bigint_of_string ''100'' = Some 100"
  "bigint_of_string ''1000'' = Some 1000" "bigint_of_string ''30'' = Some 30"
  "jsub (Fin 10000) (Fin 50) = Fin 9950" "jsub (Fin 10000) (Fin (1 / 2)) = Fin (19999 / 2)"
  by code_simp+

lemmas demo_simps = demo_pool_def demo_numbers bigint_of_prop_def bigint_of_number_def direction_def
  toBigIntAmount_def sorted_ticks_def validateSlippage_def validateFeeTier_def jle_def jeq_def
  computeSwapStep_def Let_def

lemma demo_quotable: "quotable demo_pool"
  by (simp add: quotable_def priced_tick_def demo_simps)

lemma demo_quote: "\<exists>q. getSwapQuote demo_pool ''XLM'' (AmountString ''30'') (Fin 50) = Inr q"
  by (simp add: getSwapQuote_def demo_simps)

theorem getSwapQuote_amounts_witness:
  "\<exists>q price out fee. getSwapQuote demo_pool ''XLM'' (AmountString ''30'') (Fin 50) = Inr q \<and>
    swap_loop 1000 True (sorted_ticks demo_pool True) (200, 30 - fee, 0) = Inr (price, 0, out) \<and>
    q_amountOut q = show_int out \<and> q_fee q = show_int fee \<and> fee < 30 \<and> 30 - fee \<le> out"
proof -
  obtain q where q: "getSwapQuote demo_pool ''XLM'' (AmountString ''30'') (Fin 50) = Inr q"
    using demo_quote by blast
  have "toBigIntAmount (AmountString ''30'') = 30" "direction demo_pool ''XLM'' = Inr True"
    "bigint_of_prop (ps_sqrtPriceX96 demo_pool) = Inr 200" "bigint_of_prop (Some (ps_liquidity demo_pool)) = Inr 1000"
    by (simp_all add: demo_simps)
  with getSwapQuote_amounts [OF q demo_quotable] obtain price out fee where
    "swap_loop 1000 True (sorted_ticks demo_pool True) (200, 30 - fee, 0) = Inr (price, 0, out)"
    "q_amountOut q = show_int out" "q_fee q = show_int fee" "fee < 30" "30 - fee \<le> out" by auto
  then show ?thesis using q by blast
qed

text \<open>A pool without a tick ladder is never quoted.\<close>

theorem quote_needs_ticks:
  assumes "ps_ticks p = None \<or> ps_ticks p = Some []"
  shows "\<exists>e. getSwapQuote p tokenIn amount slippage = Inl e"
proof (cases "getSwapQuote p tokenIn amount slippage")
  case (Inr q)
  have "sorted_ticks p z = []" for z using assms by (auto simp: sorted_ticks_def)
  note no_ticks = this
  show ?thesis by (rule getSwapQuote_success [OF Inr]) (simp add: no_ticks)
qed simp

theorem quote_needs_ticks_witness:
  "\<exists>e. getSwapQuote (demo_pool\<lparr>ps_ticks := None\<rparr>) ''XLM'' (AmountString ''30'') (Fin 50) = Inl e"
  by (rule quote_needs_ticks) simp

text \<open>A state with the declared fields only, whose price is called \<^verbatim>\<open>sqrtPrice\<close>, is refused
  with a TypeError once its other inputs are valid.\<close>

theorem quote_of_declared_state:
  assumes "ps_sqrtPriceX96 p = None" and "validateSlippage slippage = Inr ()"
    and "validateFeeTier (ps_feeTier p) = Inr ()" and "0 < toBigIntAmount amount"
    and "tokenIn = ps_token0 p \<or> tokenIn = ps_token1 p"
  shows "getSwapQuote p tokenIn amount slippage = Inl (TypeError ''Cannot convert undefined to a BigInt'')"
  using assms by (auto simp: getSwapQuote_def direction_def bigint_of_prop_def)

theorem quote_of_declared_state_witness:
  "getSwapQuote (demo_pool\<lparr>ps_sqrtPriceX96 := None\<rparr>) ''XLM'' (AmountString ''30'') (Fin 50) =
    Inl (TypeError ''Cannot convert undefined to a BigInt'')"
  by (rule quote_of_declared_state) (simp_all add: demo_simps)

text \<open>A slippage of half a basis point passes validation, and then no quote is returned.\<close>

theorem fractional_slippage_throws:
  "validateSlippage (Fin (1 / 2)) = Inr () \<and>
   \<not> (\<exists>q. getSwapQuote p tokenIn amount (Fin (1 / 2)) = Inr q)"
proof
  show "validateSlippage (Fin (1 / 2)) = Inr ()" by (simp add: validateSlippage_def)
  have "\<lfloor>19999 / 2 :: rat\<rfloor> = 9999" by (rule floor_unique) simp_all
  then have no_big: "bigint_of_number (jsub (Fin 10000) (Fin (1 / 2))) \<noteq> Inr k" for k
    by (simp add: demo_numbers bigint_of_number_def)
  have "getSwapQuote p tokenIn amount (Fin (1 / 2)) \<noteq> Inr q" for q
  proof
    assume "getSwapQuote p tokenIn amount (Fin (1 / 2)) = Inr q"
    then show False by (rule getSwapQuote_success) (simp add: no_big)
  qed
  then show "\<not> (\<exists>q. getSwapQuote p tokenIn amount (Fin (1 / 2)) = Inr q)" by blast
qed

section \<open>The estimates\<close>

lemma scan_decimal_Fin:
  assumes "scan_decimal s = Some (Fin v, r)"
  shows "\<exists>x. to_double x = Fin v"
  using assms by (auto simp: scan_decimal_def Let_def split: prod.splits if_splits list.splits)

lemma parse_float_dbl:
  assumes "parse_float s = Fin v" and "0 \<le> v"
  shows "dbl v"
proof -
  have "\<exists>x. to_double x = Fin v"
    using assms(1) scan_decimal_Fin by (auto simp: parse_float_def split: option.splits)
  then show ?thesis using assms(2) to_double_result_dbl by blast
qed

lemma kept_fraction:
  assumes "validateSlippage s = Inr u"
  obtains f where "jsub (Fin 1) (jdiv s (Fin 10000)) = Fin f" and "0 \<le> f" and "f \<le> 1"
proof -
  obtain x where x: "s = Fin x" "0 \<le> x" "x \<le> 10000" using validated_slippage [OF assms] .
  obtain y where y: "jdiv (Fin x) (Fin 10000) = Fin y" "dbl y" "y \<le> 1"
    using jdiv_fraction [of x 10000] x by auto
  have "dbl 1" using dbl_of_int [of 1] by simp
  moreover have "0 \<le> y" using y(2) by (simp add: dbl_def)
  ultimately obtain f where "jsub (Fin 1) (Fin y) = Fin f" "dbl f" "f \<le> 1"
    using y(3) by (rule jsub_shrinks)
  then show ?thesis using that x(1) y(1) by (simp add: dbl_def)
qed

definition estimate_out :: "jsnum \<Rightarrow> jsnum" where
  "estimate_out amountIn =
     (let rest = jsub amountIn (jmul amountIn (jdiv (Fin 30) (Fin 10000)))
      in jdiv (jmul (Fin 1000000) rest) (jadd (Fin 1000000) rest))"

lemma calculateSwapQuote_fields:
  assumes "calculateSwapQuote (Some p) = Inr q" and "\<not> quote_params_missing (Some p)"
  shows "validateSlippage (qp_slippageBps p) = Inr ()"
    and "\<exists>a. parse_float (qp_amount p) = Fin a \<and> 0 < a"
    and "sq_amountOut q = to_fixed 7 (estimate_out (parse_float (qp_amount p)))"
    and "sq_minimumReceived q = to_fixed 7 (jmul (estimate_out (parse_float (qp_amount p)))
      (jsub (Fin 1) (jdiv (qp_slippageBps p) (Fin 10000))))"
proof -
  have i: "is_finite n \<Longrightarrow> \<not> jle n (Fin 0) \<Longrightarrow> \<exists>a. n = Fin a \<and> 0 < a" for n
    by (cases n) (auto simp: jle_def jeq_def)
  show "validateSlippage (qp_slippageBps p) = Inr ()"
    and "\<exists>a. parse_float (qp_amount p) = Fin a \<and> 0 < a"
    and "sq_amountOut q = to_fixed 7 (estimate_out (parse_float (qp_amount p)))"
    and "sq_minimumReceived q = to_fixed 7 (jmul (estimate_out (parse_float (qp_amount p)))
      (jsub (Fin 1) (jdiv (qp_slippageBps p) (Fin 10000))))"
    using assms i
    by (auto simp: calculateSwapQuote_def estimate_out_def Let_def result_iffs split: if_splits
        simp del: jdiv.simps jmul.simps jadd.simps)
qed

text \<open>A returned estimate prints a minimum that is not above the output it prints.\<close>

theorem calculateSwapQuote_minimum:
  assumes "calculateSwapQuote (Some p) = Inr q" and "\<not> quote_params_missing (Some p)"
    and "estimate_out (parse_float (qp_amount p)) = Fin out" and "0 \<le> out"
  shows "\<exists>least. sq_amountOut q = to_fixed 7 (Fin out) \<and> sq_minimumReceived q = to_fixed 7 (Fin least) \<and>
    0 \<le> least \<and> least \<le> out"
proof -
  note f = calculateSwapQuote_fields [OF assms(1,2)]
  obtain k where k: "jsub (Fin 1) (jdiv (qp_slippageBps p) (Fin 10000)) = Fin k" "0 \<le> k" "k \<le> 1"
    using kept_fraction [OF f(1)] .
  have "dbl out" using assms(3,4) jdiv_dbl by (auto simp: estimate_out_def Let_def)
  then obtain y where "jmul (Fin out) (Fin k) = Fin y" "dbl y" "y \<le> out"
    using k(2,3) by (rule jmul_fraction)
  then show ?thesis using f(3,4) assms(3) k(1) by (auto simp: dbl_def)
qed

lemma jmul_grows:
  assumes "dbl a" and "1 \<le> f"
  shows "jmul (Fin a) (Fin f) = Inf False \<or> (\<exists>y. jmul (Fin a) (Fin f) = Fin y \<and> a \<le> y)"
proof -
  have a: "0 \<le> a" "to_double a = Fin a" using assms(1) by (auto simp: dbl_def to_double_id)
  then have le: "a \<le> a * f" using assms(2) by (simp add: mult_left_le_one_le mult_le_cancel_left1)
  then have "0 \<le> a * f" using a by linarith
  then show ?thesis
    by (cases rule: to_double_nonneg_cases) (use to_double_mono [of a "a * f" a] a le in auto)
qed

lemma raised_fraction:
  assumes "validateSlippage s = Inr u"
  obtains f where "jadd (Fin 1) (jdiv s (Fin 10000)) = Fin f" and "1 \<le> f"
proof -
  obtain x where x: "s = Fin x" "0 \<le> x" "x \<le> 10000" using validated_slippage [OF assms] .
  obtain y where y: "jdiv (Fin x) (Fin 10000) = Fin y" "dbl y" "y \<le> 1"
    using jdiv_fraction [of x 10000] x by auto
  have "dbl 2" using dbl_of_int [of 2] by simp
  moreover have "0 \<le> 1 + y" "1 + y \<le> 2" using y by (simp_all add: dbl_def)
  ultimately obtain f where f: "to_double (1 + y) = Fin f" "f \<le> 2"
    using to_double_le_dbl by metis
  then have "1 \<le> f" using to_double_mono [of 1 "1 + y" 1 f] y(2) by (simp add: dbl_def)
  then show ?thesis using that x(1) y(1) f(1) by simp
qed

definition estimate_in :: "jsnum \<Rightarrow> jsnum" where
  "estimate_in amountOut =
     jdiv (jdiv (jmul (Fin 1000000) amountOut) (jsub (Fin 1000000) amountOut))
          (jsub (Fin 1) (jdiv (Fin 30) (Fin 10000)))"

lemma calculateExactOutputQuote_fields:
  assumes "calculateExactOutputQuote (Some p) = Inr q" and "\<not> quote_params_missing (Some p)"
  shows "validateSlippage (qp_slippageBps p) = Inr ()"
    and "eq_amountIn q = to_fixed 7 (estimate_in (parse_float (qp_amount p)))"
    and "eq_maximumIn q = to_fixed 7 (jmul (estimate_in (parse_float (qp_amount p)))
      (jadd (Fin 1) (jdiv (qp_slippageBps p) (Fin 10000))))"
  using assms
  by (auto simp: calculateExactOutputQuote_def estimate_in_def Let_def result_iffs split: if_splits
      simp del: jdiv.simps jmul.simps jadd.simps)

text \<open>A returned exact-output estimate prints a maximum that is not below the input it prints.\<close>

theorem calculateExactOutputQuote_maximum:
  assumes "calculateExactOutputQuote (Some p) = Inr q" and "\<not> quote_params_missing (Some p)"
    and "estimate_in (parse_float (qp_amount p)) = Fin ain" and "0 \<le> ain"
  shows "\<exists>most. eq_amountIn q = to_fixed 7 (Fin ain) \<and> eq_maximumIn q = to_fixed 7 most \<and>
    (most = Inf False \<or> (\<exists>m. most = Fin m \<and> ain \<le> m))"
proof -
  note f = calculateExactOutputQuote_fields [OF assms(1,2)]
  obtain k where k: "jadd (Fin 1) (jdiv (qp_slippageBps p) (Fin 10000)) = Fin k" "1 \<le> k"
    using raised_fraction [OF f(1)] .
  have "dbl ain" using assms(3,4) jdiv_dbl by (auto simp: estimate_in_def)
  from jmul_grows [OF this k(2)] show ?thesis using f(2,3) assms(3) k(1) by auto
qed

definition demo_params :: swap_quote_params where
  "demo_params = \<lparr>qp_tokenInId = ''XLM'', qp_tokenOutId = ''USDC'', qp_amount = ''100'', qp_slippageBps = Fin 50\<rparr>"

lemma demo_params_present: "\<not> quote_params_missing (Some demo_params)"
  by code_simp

lemma demo_amount: "parse_float (qp_amount demo_params) = Fin 100"
  by code_simp

theorem calculateSwapQuote_minimum_witness:
  "\<exists>q out least. calculateSwapQuote (Some demo_params) = Inr q \<and>
    sq_amountOut q = to_fixed 7 (Fin out) \<and> sq_minimumReceived q = to_fixed 7 (Fin least) \<and>
    0 \<le> least \<and> least \<le> out"
proof -
  obtain q where q: "calculateSwapQuote (Some demo_params) = Inr q"
    using demo_params_present demo_amount
    by (simp add: calculateSwapQuote_def Let_def validateSlippage_def jle_def jeq_def demo_params_def)
  have out: "estimate_out (parse_float (qp_amount demo_params)) = Fin (fin_val (estimate_out (Fin 100)))"
    and pos: "0 \<le> fin_val (estimate_out (Fin 100))"
    unfolding demo_amount by code_simp+
  from calculateSwapQuote_minimum [OF q demo_params_present out pos] q show ?thesis by blast
qed

theorem calculateExactOutputQuote_maximum_witness:
  "\<exists>q ain most. calculateExactOutputQuote (Some demo_params) = Inr q \<and>
    eq_amountIn q = to_fixed 7 (Fin ain) \<and> eq_maximumIn q = to_fixed 7 most \<and>
    (most = Inf False \<or> (\<exists>m. most = Fin m \<and> ain \<le> m))"
proof -
  obtain q where q: "calculateExactOutputQuote (Some demo_params) = Inr q"
    using demo_params_present demo_amount
    by (simp add: calculateExactOutputQuote_def Let_def validateSlippage_def jle_def jeq_def demo_params_def)
  have a: "estimate_in (parse_float (qp_amount demo_params)) = Fin (fin_val (estimate_in (Fin 100)))"
    and pos: "0 \<le> fin_val (estimate_in (Fin 100))"
    unfolding demo_amount by code_simp+
  from calculateExactOutputQuote_maximum [OF q demo_params_present a pos] q show ?thesis by blast
qed

end
