(* ===== verification/Stellar_Tx.thy ===== *)
theory Stellar_Tx
  imports Js_Rounding Js_Text
begin

text \<open>
  The unsigned transactions the SDK builds. The Stellar SDK (\<^verbatim>\<open>Contract\<close>, \<^verbatim>\<open>nativeToScVal\<close>,
  \<^verbatim>\<open>TransactionBuilder\<close>, \<^verbatim>\<open>toXDR\<close>) is not part of the repository: a builder hands it one
  \<open>tx_request\<close>, the calls it makes with their arguments, and the parameter \<open>sdk\<close> is what those calls
  return, an envelope or an exception. The random placeholder key is a parameter as well.
\<close>

datatype js_arg = StrArg string | NumArg jsnum

record contract_call =
  cc_contract :: string
  cc_method :: string
  cc_args :: "(js_arg \<times> string) list"

record tx_request =
  tx_source :: string
  tx_fee :: string
  tx_passphrase :: string
  tx_timebounds :: "(int \<times> jsnum) option"
  tx_timeout :: int
  tx_operations :: "contract_call list"

type_synonym sdk = "tx_request \<Rightarrow> js_exn + string"

text \<open>\<^verbatim>\<open>Networks.TESTNET\<close> of the Stellar SDK, as \<^verbatim>\<open>config.ts\<close> reads it, is a parameter.\<close>

record sdk_env =
  env_sdk :: sdk
  env_random_key :: string
  env_testnet :: string
  env_now_ms :: int

record unsigned_tx =
  ut_xdr :: string
  ut_type :: string

definition addr_arg :: "string \<Rightarrow> js_arg \<times> string" where
  "addr_arg s = (StrArg s, ''address'')"

definition int_arg :: "string \<Rightarrow> string \<Rightarrow> js_arg \<times> string" where
  "int_arg ty s = (StrArg s, ty)"

definition num_arg :: "string \<Rightarrow> jsnum \<Rightarrow> js_arg \<times> string" where
  "num_arg ty n = (NumArg n, ty)"

end
