(* ===== verification/Swap_Tx.thy ===== *)
theory Swap_Tx
  imports Stellar_Tx
begin

text \<open>
  The swap transaction builders of \<^verbatim>\<open>packages/sdk/src/swap.ts\<close>: parameter validation, the deadline
  window, and the router calls of exact-input and exact-output swaps.

  The lemmas show that a built swap expires within the allowed window, that the contract argument
  and the time bound of the envelope are the same deadline, and which parameters are refused.
\<close>

section \<open>Validation\<close>

definition DEFAULT_SWAP_DEADLINE_SECONDS :: int where
  "DEFAULT_SWAP_DEADLINE_SECONDS = 120"

definition MAX_SWAP_DEADLINE_SECONDS :: int where
  "MAX_SWAP_DEADLINE_SECONDS = 300"

definition isValidStellarAddress :: "string \<Rightarrow> bool" where
  "isValidStellarAddress address =
     (length address = 56 \<and> (starts_with ''G'' address \<or> starts_with ''C'' address))"

definition isValidAmount :: "string \<Rightarrow> bool" where
  "isValidAmount amount = (let num = parse_float amount in
     num \<noteq> NaN \<and> jlt (Fin 0) num \<and> is_finite num)"

text \<open>
  \<^verbatim>\<open>Date.now()\<close> is an integer number of milliseconds. A requested deadline that is no safe integer is
  refused, so the accepted deadline is an integer and the comparisons are exact.
\<close>

definition resolveSwapDeadline :: "int \<Rightarrow> jsnum option \<Rightarrow> js_exn + int" where
  "resolveSwapDeadline now_ms requestedDeadline =
     (let nowSeconds = now_ms div 1000;
          deadline = (case requestedDeadline of Some d \<Rightarrow> d
            | None \<Rightarrow> Fin (of_int (nowSeconds + DEFAULT_SWAP_DEADLINE_SECONDS)));
          d = \<lfloor>fin_val deadline\<rfloor>
      in if \<not> is_safe_integer deadline \<or> d \<le> nowSeconds \<or> MAX_SWAP_DEADLINE_SECONDS < d - nowSeconds
         then Inl (SwapValidationError (''Invalid deadline: must be a future unix timestamp no more than ''
           @ show_int MAX_SWAP_DEADLINE_SECONDS @ '' seconds away. Got: ''
           @ (case requestedDeadline of None \<Rightarrow> ''undefined'' | Some r \<Rightarrow> num_to_string r)))
         else Inr d)"

definition resolveSourceAccount :: "string \<Rightarrow> string option \<Rightarrow> string" where
  "resolveSourceAccount random_key sourceAccount =
     (case sourceAccount of Some a \<Rightarrow> a | None \<Rightarrow> random_key)"

section \<open>Builders\<close>

record swap_tx_params =
  sw_poolId :: string
  sw_tokenInId :: string
  sw_tokenOutId :: string
  sw_amountIn :: string
  sw_minimumReceived :: string
  sw_ownerAddress :: string
  sw_feeTier :: "jsnum option"
  sw_deadline :: "jsnum option"
  sw_sourceAccount :: "string option"

definition require_address :: "string \<Rightarrow> string \<Rightarrow> js_exn + unit" where
  "require_address name a = ensure (isValidStellarAddress a)
     (SwapValidationError (''Invalid '' @ name @ '': '' @ a))"

definition require_amount :: "string \<Rightarrow> string \<Rightarrow> js_exn + unit" where
  "require_amount name a = ensure (isValidAmount a)
     (SwapValidationError (''Invalid '' @ name @ '': '' @ a))"

definition router_tx :: "sdk_env \<Rightarrow> string option \<Rightarrow> contract_call \<Rightarrow> int \<Rightarrow> tx_request" where
  "router_tx env sourceAccount call deadline =
     \<lparr>tx_source = resolveSourceAccount (env_random_key env) sourceAccount, tx_fee = ''100'',
      tx_passphrase = env_testnet env, tx_timebounds = Some (0, Fin (of_int deadline)), tx_timeout = 0,
      tx_operations = [call]\<rparr>"

definition exact_input_call :: "swap_tx_params \<Rightarrow> int \<Rightarrow> contract_call" where
  "exact_input_call p deadline =
     \<lparr>cc_contract = sw_poolId p, cc_method = ''exact_input_single'',
      cc_args = [addr_arg (sw_ownerAddress p), addr_arg (sw_tokenInId p), addr_arg (sw_tokenOutId p),
        int_arg ''i128'' (sw_amountIn p), int_arg ''i128'' (sw_minimumReceived p),
        num_arg ''u32'' (case sw_feeTier p of Some f \<Rightarrow> f | None \<Rightarrow> Fin 3000),
        num_arg ''u64'' (Fin (of_int deadline))]\<rparr>"

definition buildSwapTx :: "sdk_env \<Rightarrow> swap_tx_params \<Rightarrow> js_exn + unsigned_tx" where
  "buildSwapTx env p =
     bind_result (require_address ''poolId'' (sw_poolId p)) (\<lambda>_.
     bind_result (require_address ''tokenInId'' (sw_tokenInId p)) (\<lambda>_.
     bind_result (require_address ''tokenOutId'' (sw_tokenOutId p)) (\<lambda>_.
     bind_result (require_address ''ownerAddress'' (sw_ownerAddress p)) (\<lambda>_.
     bind_result (require_amount ''amountIn'' (sw_amountIn p)) (\<lambda>_.
     bind_result (require_amount ''minimumReceived'' (sw_minimumReceived p)) (\<lambda>_.
     bind_result (resolveSwapDeadline (env_now_ms env) (sw_deadline p)) (\<lambda>deadline.
     bind_result (env_sdk env (router_tx env (sw_sourceAccount p) (exact_input_call p deadline) deadline)) (\<lambda>xdr.
     Inr \<lparr>ut_xdr = xdr, ut_type = ''swap''\<rparr>))))))))"

record exact_output_tx_params =
  eo_routerId :: string
  eo_tokenInId :: string
  eo_tokenOutId :: string
  eo_fee :: jsnum
  eo_amountOut :: string
  eo_amountInMax :: string
  eo_ownerAddress :: string
  eo_deadline :: "jsnum option"
  eo_sourceAccount :: "string option"

definition exact_output_call :: "exact_output_tx_params \<Rightarrow> int \<Rightarrow> contract_call" where
  "exact_output_call p deadline =
     \<lparr>cc_contract = eo_routerId p, cc_method = ''exact_output_single'',
      cc_args = [addr_arg (eo_ownerAddress p), addr_arg (eo_tokenInId p), addr_arg (eo_tokenOutId p),
        int_arg ''i128'' (eo_amountOut p), int_arg ''i128'' (eo_amountInMax p),
        num_arg ''u32'' (eo_fee p), num_arg ''u64'' (Fin (of_int deadline))]\<rparr>"

definition buildExactOutputSwapTx :: "sdk_env \<Rightarrow> exact_output_tx_params \<Rightarrow> js_exn + unsigned_tx" where
  "buildExactOutputSwapTx env p =
     bind_result (require_address ''routerId'' (eo_routerId p)) (\<lambda>_.
     bind_result (require_address ''tokenInId'' (eo_tokenInId p)) (\<lambda>_.
     bind_result (require_address ''tokenOutId'' (eo_tokenOutId p)) (\<lambda>_.
     bind_result (require_address ''ownerAddress'' (eo_ownerAddress p)) (\<lambda>_.
     bind_result (require_amount ''amountOut'' (eo_amountOut p)) (\<lambda>_.
     bind_result (require_amount ''amountInMax'' (eo_amountInMax p)) (\<lambda>_.
     bind_result (resolveSwapDeadline (env_now_ms env) (eo_deadline p)) (\<lambda>deadline.
     bind_result (env_sdk env (router_tx env (eo_sourceAccount p) (exact_output_call p deadline) deadline)) (\<lambda>xdr.
     Inr \<lparr>ut_xdr = xdr, ut_type = ''swap''\<rparr>))))))))"

section \<open>The deadline window\<close>

definition in_window :: "int \<Rightarrow> int \<Rightarrow> bool" where
  "in_window now_ms d = (now_ms div 1000 < d \<and> d \<le> now_ms div 1000 + MAX_SWAP_DEADLINE_SECONDS)"

lemma resolveSwapDeadline_window:
  "resolveSwapDeadline now_ms r = Inr d \<Longrightarrow> in_window now_ms d"
  by (auto simp: resolveSwapDeadline_def in_window_def Let_def split: if_splits)

lemma resolveSwapDeadline_requested:
  assumes "resolveSwapDeadline now_ms (Some r) = Inr d"
  shows "r = Fin (of_int d)"
  using assms by (cases r) (auto simp: resolveSwapDeadline_def Let_def split: if_splits)

lemma resolveSwapDeadline_default:
  assumes "0 \<le> now_ms" and "now_ms \<le> 8640000000000000"
  shows "resolveSwapDeadline now_ms None = Inr (now_ms div 1000 + 120)"
proof -
  have "0 \<le> now_ms div 1000" "now_ms div 1000 \<le> 8640000000000" using assms by auto
  then have "\<bar>of_int (now_ms div 1000 + 120) :: rat\<bar> \<le> of_int (2 ^ 53 - 1)"
    by (simp only: of_int_abs [symmetric] of_int_le_iff) simp
  then show ?thesis
    by (simp add: resolveSwapDeadline_def Let_def DEFAULT_SWAP_DEADLINE_SECONDS_def
        MAX_SWAP_DEADLINE_SECONDS_def)
qed

section \<open>What a built swap commits to\<close>

lemmas builder_simps = require_address_def require_amount_def result_iffs

text \<open>A built exact-input swap sends the caller's amounts to the router, and its contract deadline
  and its envelope time bound are one deadline inside the allowed window.\<close>

theorem buildSwapTx_commits:
  assumes "buildSwapTx env p = Inr tx"
  shows "\<exists>deadline. in_window (env_now_ms env) deadline \<and>
    env_sdk env (router_tx env (sw_sourceAccount p) (exact_input_call p deadline) deadline) = Inr (ut_xdr tx) \<and>
    isValidStellarAddress (sw_ownerAddress p) \<and> isValidAmount (sw_amountIn p) \<and>
    isValidAmount (sw_minimumReceived p) \<and>
    (\<forall>d. sw_deadline p = Some d \<longrightarrow> d = Fin (of_int deadline))"
  using assms
  by (cases "sw_deadline p")
     (auto simp: buildSwapTx_def builder_simps split: if_splits
       dest: resolveSwapDeadline_window resolveSwapDeadline_requested)

text \<open>The same for a built exact-output swap.\<close>

theorem buildExactOutputSwapTx_commits:
  assumes "buildExactOutputSwapTx env p = Inr tx"
  shows "\<exists>deadline. in_window (env_now_ms env) deadline \<and>
    env_sdk env (router_tx env (eo_sourceAccount p) (exact_output_call p deadline) deadline) = Inr (ut_xdr tx) \<and>
    isValidAmount (eo_amountOut p) \<and> isValidAmount (eo_amountInMax p) \<and>
    (\<forall>d. eo_deadline p = Some d \<longrightarrow> d = Fin (of_int deadline))"
  using assms
  by (cases "eo_deadline p")
     (auto simp: buildExactOutputSwapTx_def builder_simps split: if_splits
       dest: resolveSwapDeadline_window resolveSwapDeadline_requested)

text \<open>A concrete environment and parameters: an SDK that returns the method name as its envelope.\<close>

definition demo_env :: sdk_env where
  "demo_env = \<lparr>env_sdk = (\<lambda>r. Inr (concat (map cc_method (tx_operations r)))), env_random_key = ''GRANDOM'',
     env_testnet = ''Test SDF Network ; September 2015'', env_now_ms = 1700000000000\<rparr>"

definition demo_address :: string where
  "demo_address = CHR ''C'' # replicate 55 (CHR ''A'')"

definition demo_swap :: swap_tx_params where
  "demo_swap = \<lparr>sw_poolId = demo_address, sw_tokenInId = demo_address, sw_tokenOutId = demo_address,
     sw_amountIn = ''1000'', sw_minimumReceived = ''990'', sw_ownerAddress = demo_address,
     sw_feeTier = None, sw_deadline = Some (Fin 1700000060), sw_sourceAccount = None\<rparr>"

lemma demo_address_valid: "isValidStellarAddress demo_address"
  by (simp add: isValidStellarAddress_def demo_address_def starts_with_def)

lemma demo_amounts_valid: "isValidAmount ''1000''" "isValidAmount ''990''"
  by code_simp+

lemma demo_deadline: "resolveSwapDeadline 1700000000000 (Some (Fin 1700000060)) = Inr 1700000060"
  by (simp add: resolveSwapDeadline_def MAX_SWAP_DEADLINE_SECONDS_def)

lemma demo_swap_built: "\<exists>tx. buildSwapTx demo_env demo_swap = Inr tx"
  by (simp add: buildSwapTx_def builder_simps demo_swap_def demo_env_def demo_address_valid
      demo_amounts_valid demo_deadline)

theorem buildSwapTx_commits_witness:
  "\<exists>tx deadline. buildSwapTx demo_env demo_swap = Inr tx \<and> in_window 1700000000000 deadline \<and>
    (\<forall>d. sw_deadline demo_swap = Some d \<longrightarrow> d = Fin (of_int deadline))"
proof -
  obtain tx where tx: "buildSwapTx demo_env demo_swap = Inr tx" using demo_swap_built by blast
  have "env_now_ms demo_env = 1700000000000" by (simp add: demo_env_def)
  with buildSwapTx_commits [OF tx] tx show ?thesis by auto
qed

definition demo_exact_output :: exact_output_tx_params where
  "demo_exact_output = \<lparr>eo_routerId = demo_address, eo_tokenInId = demo_address, eo_tokenOutId = demo_address,
     eo_fee = Fin 3000, eo_amountOut = ''990'', eo_amountInMax = ''1000'', eo_ownerAddress = demo_address,
     eo_deadline = Some (Fin 1700000060), eo_sourceAccount = None\<rparr>"

lemma demo_exact_output_built: "\<exists>tx. buildExactOutputSwapTx demo_env demo_exact_output = Inr tx"
  by (simp add: buildExactOutputSwapTx_def builder_simps demo_exact_output_def demo_env_def
      demo_address_valid demo_amounts_valid demo_deadline)

theorem buildExactOutputSwapTx_commits_witness:
  "\<exists>tx deadline. buildExactOutputSwapTx demo_env demo_exact_output = Inr tx \<and>
    in_window 1700000000000 deadline \<and>
    (\<forall>d. eo_deadline demo_exact_output = Some d \<longrightarrow> d = Fin (of_int deadline))"
proof -
  obtain tx where tx: "buildExactOutputSwapTx demo_env demo_exact_output = Inr tx"
    using demo_exact_output_built by blast
  have "env_now_ms demo_env = 1700000000000" by (simp add: demo_env_def)
  with buildExactOutputSwapTx_commits [OF tx] tx show ?thesis by auto
qed

text \<open>The amount check reads a numeric prefix only: trailing text and fractions pass it.\<close>

lemma amount_check_accepts_prefix: "isValidAmount ''12abc''" and "isValidAmount ''0.5''"
  by code_simp+

end
