(* ===== verification/Liquidity_Laws.thy ===== *)
theory Liquidity_Laws
  imports Liquidity_Tx Swap_Tx
begin

text \<open>
  Properties of the liquidity transactions of \<^verbatim>\<open>Liquidity_Tx\<close>: the amount a burn removes, what a
  rerange takes out and puts back, who may be named by a collect, and the range of the removal
  estimate, which instantiates the facts of the locale \<open>price_scale\<close>.
\<close>

section \<open>Conversions\<close>

lemma bigint_num_Inr_iff: "bigint_num x = Inr i \<longleftrightarrow> x = Fin (of_int i)"
  by (cases x) (auto simp: bigint_num_def)

lemma bigint_num_fraction:
  "x \<noteq> of_int \<lfloor>x\<rfloor> \<Longrightarrow> bigint_num (Fin x) =
     Inl (RangeError ''The number cannot be converted to a BigInt because it is not an integer'')"
  by (simp add: bigint_num_def)

lemma bigint_arg_Inr_iff: "bigint_arg s = Inr i \<longleftrightarrow> bigint_of_string s = Some i"
  by (auto simp: bigint_arg_def split: option.splits)

lemma bigint_arg_show [simp]: "bigint_arg (show_int i) = Inr i"
  by (simp add: bigint_arg_Inr_iff bigint_round_trip)

lemmas conversion_iffs = bigint_num_Inr_iff bigint_arg_Inr_iff

lemma submit_build_Inr_iff:
  "submit_build env req ty = Inr tx \<longleftrightarrow> env_sdk env req = Inr (ut_xdr tx) \<and> ut_type tx = ty"
  by (cases tx) (auto simp: submit_build_def result_iffs)

section \<open>Burn\<close>

lemma jle_bps_bounds:
  "\<not> jlt (Fin (of_int b)) (Fin 0) \<Longrightarrow> \<not> jlt (Fin 10000) (Fin (of_int b)) \<Longrightarrow> 0 \<le> b \<and> b \<le> 10000"
proof -
  assume "\<not> jlt (Fin (of_int b)) (Fin 0)" "\<not> jlt (Fin 10000) (Fin (of_int b))"
  then have "(0::rat) \<le> of_int b" "(of_int b :: rat) \<le> of_int 10000" by simp_all
  then show ?thesis by (simp only: of_int_0_le_iff of_int_le_iff)
qed

lemma share_of_liquidity:
  fixes liq b :: int
  assumes "0 \<le> liq" and "0 \<le> b" and "b \<le> 10000"
  shows "0 \<le> liq * b div 10000" and "liq * b div 10000 \<le> liq"
proof -
  show "0 \<le> liq * b div 10000" using assms by (simp add: pos_imp_zdiv_nonneg_iff)
  have "liq * b \<le> liq * 10000" using assms by (simp add: mult_left_mono)
  then show "liq * b div 10000 \<le> liq" by linarith
qed

text \<open>A built burn names the owner's position and removes the requested share of the stated
  liquidity: never more than all of it, all of it at 10000 basis points, nothing at 0.\<close>

theorem buildBurnTx_removes:
  assumes "buildBurnTx env p = Inr tx" and "bigint_of_string (integer_part (bp_liquidity p)) = Some liq"
    and "0 \<le> liq"
  shows "\<exists>removed bps.
    env_sdk env (placeholder_tx env ''100000''
      [remove_call (default_pool_type (bp_poolType p)) (bp_poolId p) (bp_ownerAddress p)
         (bp_positionId p) removed]) = Inr (ut_xdr tx) \<and>
    bp_liquidityBps p = Fin (of_int bps) \<and>
    0 \<le> removed \<and> removed \<le> liq \<and>
    (bps = 10000 \<longrightarrow> removed = liq) \<and> (bps = 0 \<longrightarrow> removed = 0)"
proof -
  obtain b where b: "bp_liquidityBps p = Fin (of_int b)"
    and sdk: "env_sdk env (placeholder_tx env ''100000''
      [remove_call (default_pool_type (bp_poolType p)) (bp_poolId p) (bp_ownerAddress p)
         (bp_positionId p) (liq * b sdiv 10000)]) = Inr (ut_xdr tx)"
    using assms(1,2)
    by (auto simp: buildBurnTx_def burn_liquidity_def result_iffs conversion_iffs submit_build_Inr_iff
        bigdiv_Inr_iff split: if_splits)
  have range: "0 \<le> b \<and> b \<le> 10000"
    using assms(1) b by (intro jle_bps_bounds) (auto simp: buildBurnTx_def split: if_splits)
  then have div: "liq * b sdiv 10000 = liq * b div 10000"
    using assms(3) by (intro sdiv_nonneg_pos) auto
  show ?thesis
    using sdk b range share_of_liquidity [of liq b] assms(3) div
    by (intro exI [of _ "liq * b div 10000"] exI [of _ b]) auto
qed

definition demo_burn :: burn_params where
  "demo_burn = \<lparr>bp_positionId = ''7'', bp_poolId = demo_address, bp_liquidity = ''1000.5'',
     bp_liquidityBps = Fin 2500, bp_ownerAddress = demo_address, bp_poolType = Some ClPool\<rparr>"

lemma demo_burn_total: "bigint_of_string (integer_part (bp_liquidity demo_burn)) = Some 1000"
  by code_simp

lemma demo_burn_built: "\<exists>tx. buildBurnTx demo_env demo_burn = Inr tx"
proof -
  have "burn_liquidity demo_burn = Inr 250" by code_simp
  then show ?thesis
    by (simp add: buildBurnTx_def demo_burn_def demo_env_def demo_address_def submit_build_def
        placeholder_tx_def remove_call_def default_pool_type_def)
qed

theorem buildBurnTx_removes_witness:
  "\<exists>tx (removed::int) bps. buildBurnTx demo_env demo_burn = Inr tx \<and>
    bp_liquidityBps demo_burn = Fin (of_int bps) \<and> 0 \<le> removed \<and> removed \<le> 1000 \<and>
    (bps = 10000 \<longrightarrow> removed = 1000)"
proof -
  obtain tx where tx: "buildBurnTx demo_env demo_burn = Inr tx" using demo_burn_built by blast
  moreover have "(0::int) \<le> 1000" by simp
  ultimately show ?thesis using buildBurnTx_removes [OF tx demo_burn_total] by blast
qed

text \<open>
  A basis-point value with a fraction passes the range check and then makes the BigInt conversion
  throw, so a percentage such as 33.33 percent of a hundred positions never yields a transaction.
\<close>

lemma fractional_bps_throws:
  "x \<noteq> of_int \<lfloor>x\<rfloor> \<Longrightarrow> bp_liquidityBps p = Fin x \<Longrightarrow> \<exists>e. buildBurnTx env p = Inl e"
  by (cases "buildBurnTx env p")
     (auto simp: buildBurnTx_def burn_liquidity_def result_iffs conversion_iffs split: if_splits)

section \<open>Collect\<close>

lemma buildCollectTx_wallet:
  "buildCollectTx env p = Inr tx \<longleftrightarrow>
     isValidWalletAddress (cp_ownerWallet p) \<and> cp_ownerWallet p \<noteq> [] \<and> ut_type tx = ''collect'' \<and>
     env_sdk env (placeholder_tx env ''100000'' [collect_call p]) = Inr (ut_xdr tx)"
  by (auto simp: buildCollectTx_def submit_build_Inr_iff split: if_splits)

section \<open>Adding liquidity and reranging\<close>

lemma buildAddLiquidityTx_accepts:
  assumes "buildAddLiquidityTx env p = Inr tx"
  shows "ap_lowerTick p < ap_upperTick p" and "\<exists>l. bigint_of_string (ap_liquidity p) = Some l \<and> 0 < l"
  using assms by (auto simp: buildAddLiquidityTx_def result_iffs conversion_iffs split: if_splits)

text \<open>A built rerange is one envelope with exactly two calls, the removal before the addition,
  which take out and put back the same positive liquidity, the latter in the new range.\<close>

theorem buildRerangeTx_moves_same_liquidity:
  assumes "buildRerangeTx env p = Inr tx"
  shows "\<exists>l. 0 < l \<and> bigint_of_string (rp_liquidity p) = Some l \<and> rp_newLowerTick p < rp_newUpperTick p \<and>
    env_sdk env (placeholder_tx env ''200000''
      [remove_call (default_pool_type (rp_poolType p)) (rp_poolId p) (rp_ownerAddress p) (rp_positionId p) l,
       add_call (default_pool_type (rp_poolType p)) (rp_poolId p) (rp_ownerAddress p) (rp_positionId p)
         (rp_newLowerTick p) (rp_newUpperTick p) l]) = Inr (ut_xdr tx)"
  using assms
  by (auto simp: buildRerangeTx_def result_iffs conversion_iffs submit_build_Inr_iff Let_def
      split: if_splits)

definition demo_rerange :: rerange_params where
  "demo_rerange = \<lparr>rp_poolId = demo_address, rp_positionId = ''7'', rp_ownerAddress = demo_address,
     rp_liquidity = ''500'', rp_newLowerTick = - 60, rp_newUpperTick = 60, rp_poolType = None\<rparr>"

lemma demo_rerange_built: "\<exists>tx. buildRerangeTx demo_env demo_rerange = Inr tx"
proof -
  have "bigint_arg ''500'' = Inr 500" by code_simp
  then show ?thesis
    by (simp add: buildRerangeTx_def demo_rerange_def demo_env_def demo_address_def submit_build_def
        placeholder_tx_def remove_call_def add_call_def default_pool_type_def)
qed

theorem buildRerangeTx_moves_same_liquidity_witness:
  "\<exists>tx l. buildRerangeTx demo_env demo_rerange = Inr tx \<and> 0 < l \<and>
     bigint_of_string (rp_liquidity demo_rerange) = Some l"
proof -
  obtain tx where tx: "buildRerangeTx demo_env demo_rerange = Inr tx" using demo_rerange_built by blast
  show ?thesis using buildRerangeTx_moves_same_liquidity [OF tx] tx by blast
qed

text \<open>
  The calls for the default pool type carry the tick bounds 0 and 0 whatever range the position
  has, and they do not mention the owner.
\<close>

lemma pool_calls_placeholder_ticks:
  "cc_args (remove_call Pool poolId owner positionId l) =
     [int_arg ''u64'' positionId, zero_tick_arg, zero_tick_arg, int_arg ''u128'' (show_int l)]"
  "default_pool_type (cp_poolType p) = Pool \<Longrightarrow>
     cc_args (collect_call p) = [int_arg ''u64'' (cp_positionId p), zero_tick_arg, zero_tick_arg]"
  by (simp_all add: remove_call_def collect_call_def Let_def)

section \<open>The removal estimate\<close>

lemma seven_decimals_small:
  assumes "0 \<le> a" and "a * 10000000 < Q96"
  shows "seven_decimals a = ''0.0000000''"
proof -
  have "push_bit 96 1 = Q96" by (simp add: Q96_def)
  then have "a * 10000000 sdiv push_bit 96 1 = 0"
    using assms by (simp only: sdiv_nonneg_pos) (simp add: div_pos_pos_trivial sdiv_nonneg_pos)
  then have "seven_decimals a = to_fixed 7 (jmax (Fin 0) (jdiv (num_of_int 0) (num_of_int 10000000)))"
    by (simp add: seven_decimals_def)
  also have "\<dots> = ''0.0000000''" by code_simp
  finally show ?thesis .
qed

text \<open>The sqrt prices of the ticks above \<open>- 20000\<close> lie between \<open>Q96 / 20000\<close> and \<open>46 * Q96\<close>.\<close>

lemma tick_price_lower:
  assumes "tickToSqrtPriceX96 t = Inr p" and "- 20000 < t"
  shows "Q96 \<le> p * 20000"
proof -
  have r: "MIN_TICK \<le> t" "t \<le> MAX_TICK"
    using assms(1) by (auto simp: tickToSqrtPriceX96_def split: if_splits)
  show ?thesis
  proof (cases "0 \<le> t")
    case True
    then have "0 \<le> t * Q96 div 20000" by (simp add: pos_imp_zdiv_nonneg_iff)
    then show ?thesis using assms(1) True r Q96_pos(1) tick_price_nonneg_eq [of t] by auto
  next
    case False
    then have p: "p = Q96 - (- t * Q96) div 20000"
      using assms r tick_price_neg_eq [of t] by auto
    have "- t * Q96 \<le> 19999 * Q96" using assms(2) by (intro mult_right_mono) auto
    moreover have "(- t * Q96) div 20000 * 20000 \<le> - t * Q96" by (simp add: div_mult_le_int)
    ultimately show ?thesis unfolding p left_diff_distrib by linarith
  qed
qed

lemma tick_price_upper:
  assumes "tickToSqrtPriceX96 t = Inr p"
  shows "p \<le> 46 * Q96"
proof -
  have r: "MIN_TICK \<le> t" "t \<le> MAX_TICK"
    using assms(1) by (auto simp: tickToSqrtPriceX96_def split: if_splits)
  have top: "tickToSqrtPriceX96 MAX_TICK = Inr (Q96 + MAX_TICK * Q96 div 20000)"
    by (intro tick_price_nonneg_eq) (simp_all add: MAX_TICK_def)
  have "p \<le> Q96 + MAX_TICK * Q96 div 20000" using tick_price_mono [OF assms top] r by simp
  also have "\<dots> \<le> 46 * Q96" by (simp add: Q96_eq MAX_TICK_def)
  finally show ?thesis .
qed

lemma estimate_amounts_small:
  assumes "tickToSqrtPriceX96 lo = Inr p" and "tickToSqrtPriceX96 up = Inr q"
    and "- 20000 < lo" and "lo \<le> up" and "0 \<le> l" and "l \<le> 2 ^ 53"
  shows "\<exists>a. getAmountsForLiquidity s p q l = Inr a \<and>
    seven_decimals (amount0 a) = ''0.0000000'' \<and> seven_decimals (amount1 a) = ''0.0000000''"
proof -
  have p: "0 < p" "p \<le> q" using tick_price_pos [OF assms(1)] tick_price_mono [OF assms(1,2,4)] by auto
  obtain a where a: "getAmountsForLiquidity s p q l = Inr a" and nn: "0 \<le> amount0 a" "0 \<le> amount1 a"
    and a0: "amount0 a * p \<le> l * Q96" and a1: "amount1 a * Q96 \<le> l * (q - p)"
    using amounts_bounds [OF p assms(5), of s] by blast
  have "amount0 a * Q96 \<le> amount0 a * (p * 20000)"
    using tick_price_lower [OF assms(1,3)] nn by (intro mult_left_mono) auto
  also have "\<dots> \<le> (l * 20000) * Q96" using a0 by simp
  finally have "amount0 a \<le> l * 20000" by (simp add: mult_le_cancel_right)
  moreover have "l * (q - p) \<le> l * (46 * Q96)"
    using tick_price_upper [OF assms(2)] p assms(5) by (intro mult_left_mono) auto
  with a1 have "amount1 a * Q96 \<le> (l * 46) * Q96" by (simp only: mult.assoc)
  then have "amount1 a \<le> l * 46" by (simp add: mult_le_cancel_right)
  ultimately show ?thesis
    using a nn assms(5,6) by (auto intro!: seven_decimals_small simp: Q96_eq)
qed

text \<open>For a position of at most \<open>2 ^ 53\<close> liquidity whose range lies above tick \<open>- 20000\<close>, the removal
  estimate is ''0.0000000'' for both tokens, whatever the price and the percentage.\<close>

theorem estimateRemoveAmounts_prints_zero:
  assumes "parse_float liquidity = Fin (of_int L)" and "0 \<le> L" and "L \<le> 2 ^ 53"
    and "0 \<le> pct" and "pct \<le> 100"
    and "jmul (math_sqrt price) (num_of_int Q96) = Fin s"
    and "- 20000 < lo" and "lo \<le> up" and "up \<le> MAX_TICK"
  shows "estimateRemoveAmounts math_sqrt liquidity (Fin pct) price lo up =
    Inr \<lparr>rr_amount0 = ''0.0000000'', rr_amount1 = ''0.0000000''\<rparr>"
proof -
  have dL: "dbl (of_int L)" using assms(2,3) by (rule dbl_of_int)
  obtain f where f: "jdiv (Fin pct) (Fin 100) = Fin f" "dbl f" "f \<le> 1"
    using jdiv_fraction [of pct 100] assms(4,5) by auto
  then have "0 \<le> f" by (simp add: dbl_def)
  then obtain y where y: "jmul (Fin (of_int L)) (Fin f) = Fin y" "dbl y" "y \<le> of_int L"
    using jmul_fraction [OF dL] f(3) by metis
  have fl: "0 \<le> \<lfloor>y\<rfloor>" "\<lfloor>y\<rfloor> \<le> 2 ^ 53" using y(2,3) assms(3) by (auto simp: dbl_def floor_le_iff)
  obtain p q where ticks: "tickToSqrtPriceX96 lo = Inr p" "tickToSqrtPriceX96 up = Inr q"
  proof (rule tick_scale.scale_range [of lo up])
    show "MIN_TICK \<le> lo" using assms(7) by (simp add: MIN_TICK_def)
  qed (use assms(8,9) in auto)
  obtain a where "getAmountsForLiquidity \<lfloor>s\<rfloor> p q \<lfloor>y\<rfloor> = Inr a"
    "seven_decimals (amount0 a) = ''0.0000000''" "seven_decimals (amount1 a) = ''0.0000000''"
    using estimate_amounts_small [OF ticks assms(7,8) fl] by blast
  then show ?thesis
    using assms(1,4,5,6) f(1) y(1) ticks
    by (simp add: estimateRemoveAmounts_def Let_def bigint_num_def)
qed

theorem estimateRemoveAmounts_prints_zero_witness:
  "estimateRemoveAmounts (\<lambda>_. Fin 1) ''1000000000000'' (Fin 50) (Fin 1) (- 60) 60 =
    Inr \<lparr>rr_amount0 = ''0.0000000'', rr_amount1 = ''0.0000000''\<rparr>"
proof -
  have "parse_float ''1000000000000'' = Fin (of_int 1000000000000)" by code_simp
  moreover have "jmul (Fin 1) (num_of_int Q96) = Fin 79228162514264337593543950336" by code_simp
  ultimately show ?thesis
    using estimateRemoveAmounts_prints_zero [of "''1000000000000''" 1000000000000 50 "\<lambda>_. Fin 1" "Fin 1" _ "- 60" 60]
    by (auto simp: MAX_TICK_def)
qed

end
