(* ===== verification/Sdk_Errors.thy ===== *)
theory Sdk_Errors
  imports Js_Rounding
begin

text \<open>
  The error mapping of \<^verbatim>\<open>packages/sdk/src/errors.ts\<close>: the stable codes, the table from contract
  codes, \<^verbatim>\<open>mapContractError\<close> and \<^verbatim>\<open>withContractErrorMapping\<close>.

  The lemmas show that the mapping fails closed (an unlisted code becomes the generic error and
  nothing thrown is ever swallowed) and what becomes of messages and correlation ids.
\<close>

section \<open>Codes and errors\<close>

datatype sdk_error_code =
    UnknownContractError
  | InvalidInput
  | Unauthorized
  | InsufficientBalance
  | SlippageExceeded
  | NotFound
  | InvalidPoolState
  | Replay
  | DependencyUnavailable

fun sdk_code_string :: "sdk_error_code \<Rightarrow> string" where
  "sdk_code_string UnknownContractError = ''SDK_UNKNOWN_CONTRACT_ERROR''"
| "sdk_code_string InvalidInput = ''SDK_INVALID_INPUT''"
| "sdk_code_string Unauthorized = ''SDK_UNAUTHORIZED''"
| "sdk_code_string InsufficientBalance = ''SDK_INSUFFICIENT_BALANCE''"
| "sdk_code_string SlippageExceeded = ''SDK_SLIPPAGE_EXCEEDED''"
| "sdk_code_string NotFound = ''SDK_NOT_FOUND''"
| "sdk_code_string InvalidPoolState = ''SDK_INVALID_POOL_STATE''"
| "sdk_code_string Replay = ''SDK_REPLAY''"
| "sdk_code_string DependencyUnavailable = ''SDK_DEPENDENCY_UNAVAILABLE''"

datatype contract_code = CodeNum jsnum | CodeStr string

record raw_contract_error =
  re_code :: "contract_code option"
  re_message :: "string option"
  re_correlationId :: "string option"

text \<open>
  What a call may throw: the SDK's own error, an instance of \<^verbatim>\<open>Error\<close> (whose message is a
  non-enumerable property), a plain object, or a value that is no object, given by its \<^verbatim>\<open>String(..)\<close>.
\<close>

datatype thrown =
    SdkError (se_code: sdk_error_code) (se_message: string) (se_contractCode: "contract_code option")
      (se_correlationId: "string option") (se_cause: "thrown option")
  | ErrorInstance string "contract_code option" "string option"
  | PlainObject raw_contract_error
  | OtherValue string

fun is_sdk_error :: "thrown \<Rightarrow> bool" where
  "is_sdk_error (SdkError _ _ _ _ _) = True"
| "is_sdk_error _ = False"

section \<open>The mapping\<close>

definition CONTRACT_ERROR_CODE_MAP :: "jsnum \<Rightarrow> sdk_error_code option" where
  "CONTRACT_ERROR_CODE_MAP n =
     (if n = Fin 1 then Some InvalidInput
      else if n = Fin 2 then Some Unauthorized
      else if n = Fin 3 then Some InsufficientBalance
      else if n = Fin 4 then Some SlippageExceeded
      else if n = Fin 5 then Some NotFound
      else if n = Fin 6 then Some InvalidPoolState
      else if n = Fin 7 then Some Replay
      else if n = Fin 8 then Some DependencyUnavailable
      else None)"

definition normalizeCode :: "contract_code option \<Rightarrow> jsnum option" where
  "normalizeCode code =
     (case code of
        None \<Rightarrow> None
      | Some (CodeNum n) \<Rightarrow> (if is_finite n then Some n else None)
      | Some (CodeStr s) \<Rightarrow> (let parsed = num_of_string s in if is_finite parsed then Some parsed else None))"

text \<open>The properties \<^verbatim>\<open>code\<close>, \<^verbatim>\<open>message\<close> and \<^verbatim>\<open>correlationId\<close> the mapper reads off a value.\<close>

fun read_raw :: "thrown \<Rightarrow> raw_contract_error" where
  "read_raw (SdkError c m cc cid _) =
     \<lparr>re_code = Some (CodeStr (sdk_code_string c)), re_message = Some m, re_correlationId = cid\<rparr>"
| "read_raw (ErrorInstance m c cid) = \<lparr>re_code = c, re_message = Some m, re_correlationId = cid\<rparr>"
| "read_raw (PlainObject r) = r"
| "read_raw (OtherValue s) = \<lparr>re_code = None, re_message = Some s, re_correlationId = None\<rparr>"

definition mapContractError :: "thrown \<Rightarrow> thrown" where
  "mapContractError raw =
     (let input = read_raw raw;
          numericCode = normalizeCode (re_code input);
          mapped = Option.bind numericCode CONTRACT_ERROR_CODE_MAP;
          code = (case mapped of Some c \<Rightarrow> c | None \<Rightarrow> UnknownContractError);
          message = (case re_message input of
              Some m \<Rightarrow> m
            | None \<Rightarrow> (case numericCode of
                Some n \<Rightarrow> ''Contract error '' @ num_to_string n
              | None \<Rightarrow> ''Unknown contract error''))
      in SdkError code message (re_code input) (re_correlationId input) (Some raw))"

definition truthy_string :: "string option \<Rightarrow> bool" where
  "truthy_string s = (s \<noteq> None \<and> s \<noteq> Some [])"

text \<open>
  \<^verbatim>\<open>{ ...err, correlationId }\<close> copies enumerable own properties only, so the message of an
  \<^verbatim>\<open>Error\<close> instance is not copied. A value that is no object becomes its string.
\<close>

fun spread_with :: "thrown \<Rightarrow> string option \<Rightarrow> thrown" where
  "spread_with (ErrorInstance m c _) cid =
     PlainObject \<lparr>re_code = c, re_message = None, re_correlationId = cid\<rparr>"
| "spread_with (OtherValue s) cid =
     PlainObject \<lparr>re_code = None, re_message = Some s, re_correlationId = cid\<rparr>"
| "spread_with err cid = PlainObject ((read_raw err)\<lparr>re_correlationId := cid\<rparr>)"

definition withContractErrorMapping :: "thrown + 'a \<Rightarrow> string option \<Rightarrow> thrown + 'a" where
  "withContractErrorMapping fn_result correlationId =
     (case fn_result of
        Inr x \<Rightarrow> Inr x
      | Inl err \<Rightarrow>
          (if is_sdk_error err then
             (if truthy_string correlationId \<and> \<not> truthy_string (se_correlationId err)
              then Inl (SdkError (se_code err) (se_message err) (se_contractCode err) correlationId (Some err))
              else Inl err)
           else Inl (mapContractError (spread_with err correlationId))))"

section \<open>Fail closed\<close>

lemma is_sdk_error_iff: "is_sdk_error e \<longleftrightarrow> (\<exists>c m cc cid cause. e = SdkError c m cc cid cause)"
  by (cases e) auto

lemma mapContractError_is_sdk [simp]: "is_sdk_error (mapContractError raw)"
  by (simp add: mapContractError_def Let_def)

lemma code_map_known:
  "CONTRACT_ERROR_CODE_MAP n = Some c \<Longrightarrow> c \<noteq> UnknownContractError"
  by (auto simp: CONTRACT_ERROR_CODE_MAP_def split: if_splits)

lemma code_map_inject:
  "CONTRACT_ERROR_CODE_MAP n = Some c \<Longrightarrow> CONTRACT_ERROR_CODE_MAP m = Some c \<Longrightarrow> n = m"
  by (auto simp: CONTRACT_ERROR_CODE_MAP_def split: if_splits)

lemma mapContractError_code:
  "se_code (mapContractError raw) =
     (case Option.bind (normalizeCode (re_code (read_raw raw))) CONTRACT_ERROR_CODE_MAP of
        Some c \<Rightarrow> c | None \<Rightarrow> UnknownContractError)"
  by (simp add: mapContractError_def Let_def)

text \<open>An error keeps a specific code exactly when its normalised contract code is listed, and
  then two errors share the specific code only if their normalised contract codes agree.\<close>

theorem mapContractError_fails_closed:
  "(se_code (mapContractError raw) = UnknownContractError \<longleftrightarrow>
      Option.bind (normalizeCode (re_code (read_raw raw))) CONTRACT_ERROR_CODE_MAP = None) \<and>
   (se_code (mapContractError raw) = se_code (mapContractError raw') \<longrightarrow>
      se_code (mapContractError raw) = UnknownContractError \<or>
      normalizeCode (re_code (read_raw raw)) = normalizeCode (re_code (read_raw raw')))"
  using code_map_inject
  by (fastforce simp: mapContractError_code bind_eq_Some_conv dest: code_map_known split: option.splits)

text \<open>Witness of the second part: a numeric code and its string form are the same error.\<close>

theorem mapContractError_fails_closed_witness:
  "normalizeCode (Some (CodeNum (Fin 4))) = normalizeCode (Some (CodeStr ''4''))"
proof -
  let ?e = "\<lambda>c. PlainObject \<lparr>re_code = Some c, re_message = None, re_correlationId = None\<rparr>"
  have "se_code (mapContractError (?e (CodeNum (Fin 4)))) = SlippageExceeded"
    and "se_code (mapContractError (?e (CodeStr ''4''))) = SlippageExceeded" by code_simp+
  with mapContractError_fails_closed [of "?e (CodeNum (Fin 4))" "?e (CodeStr ''4'')"]
  show ?thesis by simp
qed

text \<open>The wrapper passes results through, turns everything thrown into an SDK error, keeps the
  code of an SDK error, and stamps the caller's correlation id on any error that carries none.\<close>

theorem withContractErrorMapping_never_swallows:
  "(withContractErrorMapping (Inr x) cid = Inr x) \<and>
   (\<exists>e. withContractErrorMapping (Inl err) cid = Inl e \<and> is_sdk_error e \<and>
      (is_sdk_error err \<longrightarrow> se_code e = se_code err \<and> se_message e = se_message err) \<and>
      (truthy_string cid \<longrightarrow> truthy_string (se_correlationId e)) \<and>
      (\<not> is_sdk_error err \<longrightarrow> se_correlationId e = cid))"
  by (cases err) (auto simp: withContractErrorMapping_def mapContractError_def Let_def)

theorem withContractErrorMapping_never_swallows_witness:
  "\<exists>e. withContractErrorMapping (Inl (OtherValue ''timeout'') :: thrown + unit) (Some ''req-1'') = Inl e \<and>
     is_sdk_error e \<and> se_correlationId e = Some ''req-1''"
  using withContractErrorMapping_never_swallows [of "()" "Some ''req-1''" "OtherValue ''timeout''"]
  by fastforce

text \<open>The message of a thrown \<^verbatim>\<open>Error\<close> instance does not survive the wrapper: the mapped
  message is the same whatever the original one was.\<close>

theorem error_instance_message_lost:
  "withContractErrorMapping (Inl (ErrorInstance m c own_cid) :: thrown + 'a) cid =
   withContractErrorMapping (Inl (ErrorInstance m' c own_cid')) cid"
  by (simp add: withContractErrorMapping_def)

lemma error_instance_message:
  "withContractErrorMapping (Inl (ErrorInstance m None own_cid) :: thrown + 'a) cid = Inl e \<Longrightarrow>
   se_message e = ''Unknown contract error''"
  by (auto simp: withContractErrorMapping_def mapContractError_def normalizeCode_def)

end
