(* ===== verification/Observability.thy ===== *)
theory Observability
  imports Js_Map Js_Rounding
begin

text \<open>
  Request metadata of the API: headers, correlation ids (\<^verbatim>\<open>observability/correlation-id.ts\<close>), bounded
  metric counters (\<^verbatim>\<open>observability/bounded-counter.ts\<close>), and the HTTP errors the guards throw.

  The lemmas show that a correlation id echoed to a client is always short and made of the
  conservative character set, and that a counter never grows a series.
\<close>

section \<open>Headers and HTTP errors\<close>

text \<open>A header of an incoming request is absent, one string, or a list of strings.\<close>

datatype header = HStr string | HList "string list"

type_synonym headers = "string \<Rightarrow> header option"

type_synonym env = "string \<Rightarrow> string option"

record http_error =
  he_status :: int
  he_code :: string
  he_message :: string
  he_correlation :: string
  he_retry_after :: "int option"

definition http_error :: "int \<Rightarrow> string \<Rightarrow> string \<Rightarrow> string \<Rightarrow> http_error" where
  "http_error status code message cid =
     \<lparr>he_status = status, he_code = code, he_message = message, he_correlation = cid, he_retry_after = None\<rparr>"

text \<open>What a handler throws: an HTTP exception, or an error of a library that becomes a 500.\<close>

datatype api_exn = Http http_error | Crash string

fun join :: "string \<Rightarrow> string list \<Rightarrow> string" where
  "join sep [] = []"
| "join sep [s] = s"
| "join sep (s # t # ts) = s @ sep @ join sep (t # ts)"

text \<open>How a header value converts to a string, as \<^verbatim>\<open>Number(..)\<close> and template literals do.\<close>

fun header_string :: "header \<Rightarrow> string" where
  "header_string (HStr s) = s"
| "header_string (HList ss) = join '','' ss"

text \<open>A header is truthy when it is present and not the empty string; a list always is.\<close>

definition truthy_header :: "header option \<Rightarrow> bool" where
  "truthy_header h = (h \<noteq> None \<and> h \<noteq> Some (HStr []))"

section \<open>Correlation ids\<close>

text \<open>\<^verbatim>\<open>digit_val\<close> is defined on the letters and digits of ASCII exactly.\<close>

definition correlation_char :: "char \<Rightarrow> bool" where
  "correlation_char c =
     (digit_val c \<noteq> None \<or> c = CHR ''.'' \<or> c = CHR ''_'' \<or> c = CHR '':'' \<or> c = CHR ''-'')"

definition correlation_id_ok :: "string \<Rightarrow> bool" where
  "correlation_id_ok s = (1 \<le> length s \<and> length s \<le> 128 \<and> list_all correlation_char s)"

fun accept_correlation :: "header option \<Rightarrow> string option" where
  "accept_correlation (Some (HStr s)) = (if correlation_id_ok s then Some s else None)"
| "accept_correlation _ = None"

definition resolveCorrelationId :: "string \<Rightarrow> headers \<Rightarrow> string" where
  "resolveCorrelationId random_uuid headers =
     (case accept_correlation (headers ''x-correlation-id'') of
        Some v \<Rightarrow> v
      | None \<Rightarrow> (case accept_correlation (headers ''x-request-id'') of
          Some v \<Rightarrow> v
        | None \<Rightarrow> random_uuid))"

lemma accept_correlation_ok: "accept_correlation h = Some s \<Longrightarrow> correlation_id_ok s"
  by (cases h rule: accept_correlation.cases) (auto split: if_splits)

lemma resolveCorrelationId_ok:
  "correlation_id_ok random_uuid \<Longrightarrow> correlation_id_ok (resolveCorrelationId random_uuid headers)"
  by (auto simp: resolveCorrelationId_def dest: accept_correlation_ok split: option.splits)

section \<open>Bounded counters\<close>

type_synonym counter = "(string, int) js_map"

definition counter_new :: "string list \<Rightarrow> counter" where
  "counter_new labels = jm_set (foldl (\<lambda>m l. jm_set m l 0) [] labels) ''other'' 0"

definition counter_inc :: "counter \<Rightarrow> string \<Rightarrow> counter" where
  "counter_inc m label =
     (let key = (if jm_has m label then label else ''other'')
      in jm_set m key ((case jm_get m key of Some n \<Rightarrow> n | None \<Rightarrow> 0) + 1))"

definition counter_reset :: "counter \<Rightarrow> counter" where
  "counter_reset m = foldl (\<lambda>m k. jm_set m k 0) m (map fst m)"

lemma foldl_jm_set_keys: "fst ` set (foldl (\<lambda>m l. jm_set m l v) m ls) = fst ` set m \<union> set ls"
  by (induction ls arbitrary: m) (auto simp: jm_set_keys)

lemma counter_has_other: "jm_has (counter_new labels) ''other''"
  by (simp add: counter_new_def jm_has_get)

lemma counter_inc_keys: "jm_has m ''other'' \<Longrightarrow> map fst (counter_inc m label) = map fst m"
  by (simp add: counter_inc_def Let_def jm_set_same_keys)

lemma counter_inc_other: "jm_has m ''other'' \<Longrightarrow> jm_has (counter_inc m label) ''other''"
  by (simp add: counter_inc_def Let_def jm_has_get)

lemma counter_keys_bounded:
  "map fst (foldl counter_inc (counter_new labels) incs) = map fst (counter_new labels)"
proof -
  have "map fst (foldl counter_inc m incs) = map fst m" if "jm_has m ''other''" for m
    using that by (induction incs arbitrary: m) (simp_all add: counter_inc_keys counter_inc_other)
  then show ?thesis by (simp add: counter_has_other)
qed

text \<open>Every increment is counted exactly once, under its label or under \<^verbatim>\<open>other\<close>.\<close>

lemma sum_list_update_present:
  "jm_get m k = Some n \<Longrightarrow> sum_list (map snd (jm_set m k (n + 1))) = sum_list (map snd m) + (1::int)"
  by (induction m) (auto simp: jm_set_def jm_get_def split: if_splits)

lemma counter_inc_total:
  "jm_has m ''other'' \<Longrightarrow> sum_list (map snd (counter_inc m label)) = sum_list (map snd m) + 1"
  by (auto simp: counter_inc_def Let_def jm_has_get sum_list_update_present split: option.splits)

text \<open>Whatever labels a counter is asked to count, its series are the ones it was created with,
  and after \<open>n\<close> increments the counts of all series add up to \<open>n\<close> more than before.\<close>

theorem counter_bounded:
  "map fst (foldl counter_inc (counter_new labels) incs) = map fst (counter_new labels) \<and>
   sum_list (map snd (foldl counter_inc (counter_new labels) incs)) =
     sum_list (map snd (counter_new labels)) + int (length incs)"
proof -
  have "sum_list (map snd (foldl counter_inc m incs)) = sum_list (map snd m) + int (length incs)"
    if "jm_has m ''other''" for m
    using that
    by (induction incs arbitrary: m) (simp_all add: counter_inc_total counter_inc_other)
  then show ?thesis by (simp add: counter_keys_bounded counter_has_other)
qed

end
