(* ===== verification/Key_Ring.thy ===== *)
theory Key_Ring
  imports Observability
begin

text \<open>
  The internal key ring of \<^verbatim>\<open>apps/api/src/admin/internal-key-ring.ts\<close>: loading a ring from the
  environment, matching a presented key against its two slots, and the boot-time validation of the
  rotation window. SHA-256 and \<^verbatim>\<open>Date.parse\<close> are parameters.

  The lemmas show that a ring fails closed, that the previous key opens nothing after its expiry,
  and that a validated configuration bounds the rotation window by seven days from boot.
\<close>

datatype key_ring_name = INTERNAL_API_KEY | FEE_COLLECTOR_AUTH | TESTNET_REDEPLOY_AUTH

fun ring_env_name :: "key_ring_name \<Rightarrow> string" where
  "ring_env_name INTERNAL_API_KEY = ''INTERNAL_API_KEY''"
| "ring_env_name FEE_COLLECTOR_AUTH = ''FEE_COLLECTOR_AUTH''"
| "ring_env_name TESTNET_REDEPLOY_AUTH = ''TESTNET_REDEPLOY_AUTH''"

datatype key_slot = Current | Previous

datatype key_ring_denial = Not_Configured | Missing | Invalid | Previous_Expired

datatype key_ring_match = Ring_Ok key_slot | Ring_Denied key_ring_denial

record key_ring =
  kr_name :: key_ring_name
  kr_current :: "string option"
  kr_previous :: "string option"
  kr_previousExpiresAt :: "int option"

definition MAX_ROTATION_WINDOW_MS :: int where
  "MAX_ROTATION_WINDOW_MS = 7 * 24 * 60 * 60 * 1000"

definition PLACEHOLDER_INTERNAL_API_KEY :: string where
  "PLACEHOLDER_INTERNAL_API_KEY = ''change-me-in-production''"

definition nonEmpty :: "string option \<Rightarrow> string option" where
  "nonEmpty v = (case v of Some (c # cs) \<Rightarrow> Some (c # cs) | _ \<Rightarrow> None)"

text \<open>\<open>date_parse\<close> is \<^verbatim>\<open>Date.parse\<close>, \<open>None\<close> standing for NaN.\<close>

definition loadKeyRing :: "(string \<Rightarrow> int option) \<Rightarrow> key_ring_name \<Rightarrow> env \<Rightarrow> key_ring" where
  "loadKeyRing date_parse name env =
     (let expiresRaw = nonEmpty (env (ring_env_name name @ ''_PREVIOUS_EXPIRES_AT''));
          expiresAt = Option.bind expiresRaw date_parse
      in \<lparr>kr_name = name,
          kr_current = nonEmpty (env (ring_env_name name)),
          kr_previous = nonEmpty (env (ring_env_name name @ ''_PREVIOUS'')),
          kr_previousExpiresAt = expiresAt\<rparr>)"

definition matchKeyRing :: "(string \<Rightarrow> string) \<Rightarrow> header option \<Rightarrow> key_ring \<Rightarrow> int \<Rightarrow> key_ring_match" where
  "matchKeyRing digest presented ring now =
     (case kr_current ring of
        None \<Rightarrow> Ring_Denied Not_Configured
      | Some current \<Rightarrow>
          (case presented of
             Some (HStr (c # cs)) \<Rightarrow>
               (let presentedDigest = digest (c # cs);
                    currentMatch = (presentedDigest = digest current);
                    previousMatch = (presentedDigest =
                      digest (case kr_previous ring of Some p \<Rightarrow> p | None \<Rightarrow> current @ [char_of (0::nat)]))
                in if currentMatch then Ring_Ok Current
                   else if kr_previous ring \<noteq> None \<and> previousMatch then
                     (case kr_previousExpiresAt ring of
                        Some e \<Rightarrow> if now < e then Ring_Ok Previous else Ring_Denied Previous_Expired
                      | None \<Rightarrow> Ring_Denied Previous_Expired)
                   else Ring_Denied Invalid)
           | _ \<Rightarrow> Ring_Denied Missing))"

definition problem_if :: "bool \<Rightarrow> string \<Rightarrow> string list" where
  "problem_if b msg = (if b then [msg] else [])"

definition keyRingConfigProblems :: "key_ring \<Rightarrow> env \<Rightarrow> int \<Rightarrow> string list" where
  "keyRingConfigProblems ring env now =
     (let n = ring_env_name (kr_name ring);
          expiresRaw = nonEmpty (env (n @ ''_PREVIOUS_EXPIRES_AT''))
      in case kr_previous ring of
           Some previous \<Rightarrow>
             problem_if (kr_current ring = None) (n @ ''_PREVIOUS is set but '' @ n @ '' is not'') @
             problem_if (kr_current ring = Some previous) (n @ ''_PREVIOUS must differ from '' @ n) @
             problem_if (previous = PLACEHOLDER_INTERNAL_API_KEY)
               (n @ ''_PREVIOUS must not be the placeholder value'') @
             (case kr_previousExpiresAt ring of
                None \<Rightarrow> [n @ ''_PREVIOUS_EXPIRES_AT must be a valid ISO-8601 timestamp'']
              | Some e \<Rightarrow> problem_if (MAX_ROTATION_WINDOW_MS < e - now)
                  (n @ ''_PREVIOUS_EXPIRES_AT must be within 7 days of boot''))
         | None \<Rightarrow> problem_if (expiresRaw \<noteq> None)
             (n @ ''_PREVIOUS_EXPIRES_AT is set but '' @ n @ ''_PREVIOUS is not''))"

section \<open>Auth outcome counters\<close>

datatype surface = Fee_Collector | Testnet_Redeploy | Metrics | Dlq_Replay

fun surface_label :: "surface \<Rightarrow> string" where
  "surface_label Fee_Collector = ''fee_collector''"
| "surface_label Testnet_Redeploy = ''testnet_redeploy''"
| "surface_label Metrics = ''metrics''"
| "surface_label Dlq_Replay = ''dlq_replay''"

fun slot_label :: "key_slot \<Rightarrow> string" where
  "slot_label Current = ''current''"
| "slot_label Previous = ''previous''"

fun denial_label :: "key_ring_denial \<Rightarrow> string" where
  "denial_label Not_Configured = ''not_configured''"
| "denial_label Missing = ''missing''"
| "denial_label Invalid = ''invalid''"
| "denial_label Previous_Expired = ''previous_expired''"

definition SURFACES :: "string list" where
  "SURFACES = map surface_label [Fee_Collector, Testnet_Redeploy, Metrics, Dlq_Replay]"

definition OUTCOMES :: "string list" where
  "OUTCOMES = map slot_label [Current, Previous] @
     map denial_label [Not_Configured, Missing, Invalid, Previous_Expired]"

definition internalKeyAuthOutcomes :: counter where
  "internalKeyAuthOutcomes = counter_new (concat (map (\<lambda>s. map (\<lambda>o'. s @ '':'' @ o') OUTCOMES) SURFACES))"

fun outcome_label :: "key_ring_match \<Rightarrow> string" where
  "outcome_label (Ring_Ok slot) = slot_label slot"
| "outcome_label (Ring_Denied reason) = denial_label reason"

definition recordKeyRingOutcome :: "counter \<Rightarrow> surface \<Rightarrow> key_ring_match \<Rightarrow> counter" where
  "recordKeyRingOutcome counter s m = counter_inc counter (surface_label s @ '':'' @ outcome_label m)"

section \<open>What opens a ring\<close>

text \<open>No second preimage: a key with the digest of a slot's key is that key.\<close>

definition no_collision :: "(string \<Rightarrow> string) \<Rightarrow> string \<Rightarrow> key_ring \<Rightarrow> bool" where
  "no_collision digest k ring =
     ((\<forall>c. kr_current ring = Some c \<longrightarrow> digest k = digest c \<longrightarrow> k = c) \<and>
      (\<forall>p. kr_previous ring = Some p \<longrightarrow> digest k = digest p \<longrightarrow> k = p))"

lemma match_ring_ok_cases:
  assumes "matchKeyRing digest presented ring now = Ring_Ok slot"
  obtains k c where "presented = Some (HStr k)" and "k \<noteq> []" and "kr_current ring = Some c"
    and "slot = Current \<and> digest k = digest c \<or>
      slot = Previous \<and> digest k \<noteq> digest c \<and>
        (\<exists>p e. kr_previous ring = Some p \<and> digest k = digest p \<and>
           kr_previousExpiresAt ring = Some e \<and> now < e)"
  using assms
  by (auto simp: matchKeyRing_def Let_def
      split: option.splits header.splits list.splits if_splits)

lemma match_ring_current:
  "kr_current ring = Some k \<Longrightarrow> k \<noteq> [] \<Longrightarrow> matchKeyRing digest (Some (HStr k)) ring now = Ring_Ok Current"
  by (cases k) (simp_all add: matchKeyRing_def Let_def)

lemma match_ring_previous:
  assumes "kr_current ring = Some c" and "kr_previous ring = Some k" and "k \<noteq> []"
    and "digest k \<noteq> digest c" and "kr_previousExpiresAt ring = Some e" and "now < e"
  shows "matchKeyRing digest (Some (HStr k)) ring now = Ring_Ok Previous"
  using assms by (cases k) (simp_all add: matchKeyRing_def Let_def)

lemma match_ring_not_configured:
  "kr_current ring = None \<Longrightarrow> matchKeyRing digest presented ring now = Ring_Denied Not_Configured"
  by (simp add: matchKeyRing_def)

text \<open>C22: Without digest collisions a ring opens exactly for the current key, and for the previous
  key while the rotation window is open; a ring with no current key opens for nobody.\<close>

theorem matchKeyRing_opens_iff:
  assumes "no_collision digest k ring"
  shows "(\<exists>slot. matchKeyRing digest (Some (HStr k)) ring now = Ring_Ok slot) \<longleftrightarrow>
    k \<noteq> [] \<and> kr_current ring \<noteq> None \<and>
    (kr_current ring = Some k \<or>
     kr_previous ring = Some k \<and> (\<exists>e. kr_previousExpiresAt ring = Some e \<and> now < e))"
    (is "?l \<longleftrightarrow> ?r")
proof
  assume ?l
  then obtain slot where "matchKeyRing digest (Some (HStr k)) ring now = Ring_Ok slot" by blast
  then show ?r
  proof (cases rule: match_ring_ok_cases)
    case (1 k' c)
    then show ?thesis using assms by (auto simp: no_collision_def)
  qed
next
  assume r: ?r
  show ?l
  proof (cases "kr_current ring = Some k")
    case True
    then show ?thesis using r match_ring_current by blast
  next
    case False
    then obtain c e where "kr_current ring = Some c" "kr_previous ring = Some k"
      "kr_previousExpiresAt ring = Some e" "now < e" "k \<noteq> []" using r by auto
    moreover have "digest k \<noteq> digest c"
      using assms False calculation(1) by (auto simp: no_collision_def)
    ultimately show ?thesis using match_ring_previous by blast
  qed
qed

definition demo_ring :: key_ring where
  "demo_ring = \<lparr>kr_name = INTERNAL_API_KEY, kr_current = Some ''new'', kr_previous = Some ''old'',
     kr_previousExpiresAt = Some 1000\<rparr>"

theorem matchKeyRing_opens_iff_witness:
  "(\<exists>slot. matchKeyRing rev (Some (HStr ''old'')) demo_ring 999 = Ring_Ok slot) \<and>
   \<not> (\<exists>slot. matchKeyRing rev (Some (HStr ''old'')) demo_ring 1000 = Ring_Ok slot)"
proof -
  have nc: "no_collision rev ''old'' demo_ring" by (simp add: no_collision_def demo_ring_def)
  show ?thesis
    using matchKeyRing_opens_iff [OF nc, of 999] matchKeyRing_opens_iff [OF nc, of 1000]
    by (simp add: demo_ring_def)
qed

section \<open>The rotation window\<close>

lemma problem_if_Nil [simp]: "problem_if b msg = [] \<longleftrightarrow> \<not> b"
  by (simp add: problem_if_def)

lemma no_problems_previous:
  assumes "keyRingConfigProblems ring env boot = []" and "kr_previous ring = Some p"
  shows "kr_current ring \<noteq> None \<and> kr_current ring \<noteq> Some p \<and> p \<noteq> PLACEHOLDER_INTERNAL_API_KEY \<and>
    (\<exists>e. kr_previousExpiresAt ring = Some e \<and> e \<le> boot + MAX_ROTATION_WINDOW_MS)"
  using assms by (auto simp: keyRingConfigProblems_def Let_def split: option.splits)

text \<open>A configuration that passes the boot check keeps the previous key usable for seven days
  after boot at most.\<close>

theorem rotation_window_bounded:
  assumes "keyRingConfigProblems ring env boot = []"
    and "matchKeyRing digest presented ring now = Ring_Ok Previous"
  shows "now < boot + 7 * 24 * 60 * 60 * 1000"
  using assms(2)
proof (cases rule: match_ring_ok_cases)
  case (1 k c)
  then obtain p e where "kr_previous ring = Some p" "kr_previousExpiresAt ring = Some e" "now < e"
    by auto
  then show ?thesis
    using no_problems_previous [OF assms(1)] by (auto simp: MAX_ROTATION_WINDOW_MS_def)
qed

theorem rotation_window_bounded_witness:
  "matchKeyRing rev (Some (HStr ''old'')) demo_ring 999 = Ring_Ok Previous \<and>
   (999::int) < 500 + 7 * 24 * 60 * 60 * 1000"
proof -
  have "keyRingConfigProblems demo_ring (\<lambda>_. None) 500 = []"
    by (simp add: keyRingConfigProblems_def demo_ring_def PLACEHOLDER_INTERNAL_API_KEY_def
        MAX_ROTATION_WINDOW_MS_def)
  moreover have "matchKeyRing rev (Some (HStr ''old'')) demo_ring 999 = Ring_Ok Previous"
    by (simp add: matchKeyRing_def demo_ring_def Let_def)
  ultimately show ?thesis using rotation_window_bounded by blast
qed

end
