(* ===== verification/Limiter.thy ===== *)
theory Limiter
  imports Prelude
begin

text \<open>
  The fixed-window limiter of \<^verbatim>\<open>apps/api/src/indexer/dlq-replay.guard.ts\<close>: its state, its one
  operation, and the bound on what a run of calls may be granted.
\<close>

record limiter =
  windowStart :: int
  lim_count :: int

definition limiter_init :: limiter where
  "limiter_init = \<lparr>windowStart = 0, lim_count = 0\<rparr>"

text \<open>\<^verbatim>\<open>take\<close>: 0 when granted, otherwise the milliseconds until the window resets.\<close>

definition limiter_take :: "int \<Rightarrow> int \<Rightarrow> int \<Rightarrow> limiter \<Rightarrow> int \<times> limiter" where
  "limiter_take max_n windowMs now l =
     (let l1 = (if windowMs \<le> now - windowStart l then \<lparr>windowStart = now, lim_count = 0\<rparr> else l)
      in if max_n \<le> lim_count l1 then (windowStart l1 + windowMs - now, l1)
         else (0, l1\<lparr>lim_count := lim_count l1 + 1\<rparr>))"

fun limiter_run :: "int \<Rightarrow> int \<Rightarrow> limiter \<Rightarrow> int list \<Rightarrow> (int \<times> bool) list" where
  "limiter_run max_n windowMs l [] = []"
| "limiter_run max_n windowMs l (t # ts) =
     (let (r, l') = limiter_take max_n windowMs t l in (t, r = 0) # limiter_run max_n windowMs l' ts)"

definition granted_between :: "int \<Rightarrow> int \<Rightarrow> (int \<times> bool) list \<Rightarrow> int" where
  "granted_between a b lg = int (length (filter (\<lambda>(t, ok). ok \<and> a \<le> t \<and> t < b) lg))"

lemma granted_between_simps [simp]:
  "granted_between a b [] = 0"
  "granted_between a b ((t, ok) # lg) =
     (if ok \<and> a \<le> t \<and> t < b then 1 else 0) + granted_between a b lg"
  by (simp_all add: granted_between_def)

section \<open>Invariant\<close>

definition limiter_inv :: "int \<Rightarrow> limiter \<Rightarrow> bool" where
  "limiter_inv max_n l = (0 \<le> lim_count l \<and> lim_count l \<le> max_n)"

lemma limiter_init_inv: "0 \<le> max_n \<Longrightarrow> limiter_inv max_n limiter_init"
  by (simp add: limiter_inv_def limiter_init_def)

lemma limiter_take_inv: "limiter_inv max_n l \<Longrightarrow> limiter_inv max_n (snd (limiter_take max_n windowMs now l))"
  by (auto simp: limiter_inv_def limiter_take_def Let_def)

text \<open>The three things a call can do.\<close>

lemma limiter_take_cases:
  assumes "limiter_inv max_n l" and "0 < max_n" and "0 < windowMs"
  obtains (fresh) "windowStart l + windowMs \<le> now"
      "limiter_take max_n windowMs now l = (0, \<lparr>windowStart = now, lim_count = 1\<rparr>)"
  | (again) "now < windowStart l + windowMs" "lim_count l < max_n"
      "limiter_take max_n windowMs now l = (0, l\<lparr>lim_count := lim_count l + 1\<rparr>)"
  | (full) "now < windowStart l + windowMs" "lim_count l = max_n"
      "limiter_take max_n windowMs now l = (windowStart l + windowMs - now, l)"
proof -
  consider "windowStart l + windowMs \<le> now"
    | "now < windowStart l + windowMs" "lim_count l < max_n"
    | "now < windowStart l + windowMs" "lim_count l = max_n"
    using assms(1) unfolding limiter_inv_def by linarith
  then show ?thesis
    by cases (use assms that in \<open>auto simp: limiter_take_def Let_def\<close>)
qed

section \<open>What a run is granted\<close>

lemma granted_after:
  "\<forall>t \<in> set ts. b \<le> t \<Longrightarrow> granted_between a b (limiter_run max_n windowMs l ts) = 0"
  by (induction ts arbitrary: l) (auto split: prod.splits)

lemma granted_nonneg: "0 \<le> granted_between a b lg"
  by (simp add: granted_between_def)

lemma granted_this_window:
  assumes "sorted ts" and "limiter_inv max_n l" and "0 < max_n" and "0 < windowMs"
    and "b \<le> windowStart l + windowMs"
  shows "granted_between a b (limiter_run max_n windowMs l ts) \<le> max_n - lim_count l"
  using assms
proof (induction ts arbitrary: l)
  case Nil
  then show ?case by (simp add: limiter_inv_def)
next
  case (Cons t ts)
  from Cons.prems(2,3,4) show ?case
  proof (cases rule: limiter_take_cases [where now = t])
    case fresh
    then have "\<forall>u \<in> set ts. b \<le> u" "b \<le> t" using Cons.prems by auto
    then show ?thesis using fresh Cons.prems by (simp add: granted_after limiter_inv_def)
  next
    case again
    let ?l = "l\<lparr>lim_count := lim_count l + 1\<rparr>"
    have "granted_between a b (limiter_run max_n windowMs ?l ts) \<le> max_n - lim_count ?l"
      using Cons.prems again by (intro Cons.IH) (auto simp: limiter_inv_def)
    then show ?thesis using again by simp
  next
    case full
    then have "granted_between a b (limiter_run max_n windowMs l ts) \<le> max_n - lim_count l"
      using Cons.prems by (intro Cons.IH) auto
    then show ?thesis using full by simp
  qed
qed

lemma granted_from_start:
  assumes "sorted ts" and "limiter_inv max_n l" and "0 < max_n" and "0 < windowMs"
    and "\<forall>t \<in> set ts. a \<le> t"
  shows "granted_between a (a + windowMs) (limiter_run max_n windowMs l ts) \<le> 2 * max_n - lim_count l"
  using assms
proof (induction ts arbitrary: l)
  case Nil
  then show ?case by (simp add: limiter_inv_def)
next
  case (Cons t ts)
  from Cons.prems(2,3,4) show ?case
  proof (cases rule: limiter_take_cases [where now = t])
    case fresh
    let ?l = "\<lparr>windowStart = t, lim_count = 1\<rparr>"
    have "granted_between a (a + windowMs) (limiter_run max_n windowMs ?l ts) \<le> max_n - lim_count ?l"
      using Cons.prems by (intro granted_this_window) (auto simp: limiter_inv_def)
    then show ?thesis using fresh Cons.prems by (auto simp: limiter_inv_def)
  next
    case again
    let ?l = "l\<lparr>lim_count := lim_count l + 1\<rparr>"
    have "granted_between a (a + windowMs) (limiter_run max_n windowMs ?l ts) \<le> 2 * max_n - lim_count ?l"
      using Cons.prems again by (intro Cons.IH) (auto simp: limiter_inv_def)
    then show ?thesis using again by simp
  next
    case full
    then have "granted_between a (a + windowMs) (limiter_run max_n windowMs l ts) \<le> 2 * max_n - lim_count l"
      using Cons.prems by (intro Cons.IH) auto
    then show ?thesis using full Cons.prems(4) by simp
  qed
qed

lemma granted_any_interval:
  assumes "sorted ts" and "limiter_inv max_n l" and "0 < max_n" and "0 < windowMs"
  shows "granted_between a (a + windowMs) (limiter_run max_n windowMs l ts) \<le> 2 * max_n"
  using assms
proof (induction ts arbitrary: l)
  case (Cons t ts)
  obtain r l' where rl: "limiter_take max_n windowMs t l = (r, l')" by force
  have inv: "limiter_inv max_n l'" using limiter_take_inv [OF Cons.prems(2), of windowMs t] rl by simp
  show ?case
  proof (cases "a \<le> t")
    case True
    then have "\<forall>u \<in> set (t # ts). a \<le> u" using Cons.prems(1) by auto
    then show ?thesis
      using granted_from_start [OF Cons.prems(1,2,3,4)] Cons.prems(2) by (fastforce simp: limiter_inv_def)
  next
    case False
    then show ?thesis using Cons.IH [OF _ inv] Cons.prems rl by simp
  qed
qed simp

text \<open>In any interval of one window length the limiter grants at most twice its maximum, and in
  its current window at most what is left of the maximum.\<close>

theorem limiter_grants_bounded:
  assumes "sorted ts" and "limiter_inv max_n l" and "0 < max_n" and "0 < windowMs"
  shows "granted_between a (a + windowMs) (limiter_run max_n windowMs l ts) \<le> 2 * max_n \<and>
    granted_between a (windowStart l + windowMs) (limiter_run max_n windowMs l ts) \<le> max_n - lim_count l"
  using granted_any_interval [OF assms] granted_this_window [OF assms] by blast

theorem limiter_grants_bounded_witness:
  "granted_between 0 100 (limiter_run 2 100 limiter_init [1, 2, 3, 99, 100, 101]) \<le> 2 \<and>
   granted_between 50 150 (limiter_run 2 100 limiter_init [1, 2, 3, 99, 100, 101]) \<le> 4"
  using limiter_grants_bounded [of "[1, 2, 3, 99, 100, 101]" 2 limiter_init 100 0]
    limiter_grants_bounded [of "[1, 2, 3, 99, 100, 101]" 2 limiter_init 100 50]
    limiter_init_inv [of 2]
  by (simp add: limiter_init_def)

text \<open>A refused caller is told a positive time after which the same call is granted.\<close>

theorem limiter_retry_after_works:
  assumes "limiter_inv max_n l" and "0 < max_n" and "0 < windowMs"
    and "limiter_take max_n windowMs now l = (r, l')" and "r \<noteq> 0"
  shows "0 < r \<and> fst (limiter_take max_n windowMs (now + r) l') = 0"
  using assms(1,2,3)
proof (cases rule: limiter_take_cases [where now = now])
  case full
  then show ?thesis using assms by (auto simp: limiter_take_def Let_def)
qed (use assms in auto)

theorem limiter_retry_after_works_witness:
  "limiter_take 1 100 30 \<lparr>windowStart = 10, lim_count = 1\<rparr> = (80, \<lparr>windowStart = 10, lim_count = 1\<rparr>) \<and>
   fst (limiter_take 1 100 (30 + 80) \<lparr>windowStart = 10, lim_count = 1\<rparr>) = 0"
  using limiter_retry_after_works [of 1 "\<lparr>windowStart = 10, lim_count = 1\<rparr>" 100 30 80]
  by (simp add: limiter_take_def limiter_inv_def)

end
