(* ===== verification/Dlq_Guard.thy ===== *)
theory Dlq_Guard
  imports Key_Ring Limiter
begin

text \<open>
  The guard of \<^verbatim>\<open>POST /indexer/dead-letters/replay\<close>, \<^verbatim>\<open>apps/api/src/indexer/dlq-replay.guard.ts\<close>:
  the policy read from the environment and \<^verbatim>\<open>canActivate\<close> with every denial in the order of the code.
  The guard's state is the shared limiter and the two outcome counters; the three reads of the clock
  and the fresh correlation id are arguments.

  The lemmas show what an authorised replay implies, that a caller without the key gets the same 401
  whatever the flags are, and that refused callers do not consume the limit.
\<close>

definition DLQ_REPLAY_ROLE :: string where
  "DLQ_REPLAY_ROLE = ''indexer-operator''"

record dlq_policy =
  dp_enabled :: bool
  dp_mainnet :: bool
  dp_mainnetEnabled :: bool
  dp_maxPerWindow :: int
  dp_windowMs :: int

definition num_of_env :: "string option \<Rightarrow> jsnum" where
  "num_of_env v = (case v of None \<Rightarrow> NaN | Some s \<Rightarrow> num_of_string s)"

definition resolveDlqReplayPolicy :: "env \<Rightarrow> dlq_policy" where
  "resolveDlqReplayPolicy env =
     (let max_n = num_of_env (env ''INDEXER_DLQ_REPLAY_MAX_PER_MINUTE'')
      in \<lparr>dp_enabled = (env ''INDEXER_DLQ_REPLAY_ENABLED'' = Some ''true''),
          dp_mainnet = (env ''STELLAR_NETWORK'' = Some ''mainnet''),
          dp_mainnetEnabled = (env ''INDEXER_DLQ_REPLAY_MAINNET_ENABLED'' = Some ''true''),
          dp_maxPerWindow =
            (case max_n of
               Fin x \<Rightarrow> if is_integer (Fin x) \<and> 0 < x \<and> x \<le> 1000 then \<lfloor>x\<rfloor> else 10
             | _ \<Rightarrow> 10),
          dp_windowMs = 60000\<rparr>)"

definition DLQ_OUTCOMES :: "string list" where
  "DLQ_OUTCOMES = [''allowed'', ''not_configured'', ''missing'', ''invalid'', ''previous_expired'',
     ''wrong_role'', ''expired'', ''disabled'', ''mainnet_disabled'', ''rate_limited'']"

record dlq_state =
  dq_limiter :: limiter
  dq_outcomes :: counter
  dq_ring_outcomes :: counter

definition dlq_state_init :: dlq_state where
  "dlq_state_init = \<lparr>dq_limiter = limiter_init, dq_outcomes = counter_new DLQ_OUTCOMES,
     dq_ring_outcomes = internalKeyAuthOutcomes\<rparr>"

fun KEY_DENIALS :: "key_ring_denial \<Rightarrow> string \<times> string" where
  "KEY_DENIALS Not_Configured = (''DLQ_REPLAY_AUTH_NOT_CONFIGURED'', ''Dead-letter replay auth is not configured'')"
| "KEY_DENIALS Missing = (''DLQ_REPLAY_AUTH_MISSING_KEY'', ''Missing dead-letter replay credentials'')"
| "KEY_DENIALS Invalid = (''DLQ_REPLAY_AUTH_INVALID_KEY'', ''Invalid dead-letter replay credentials'')"
| "KEY_DENIALS Previous_Expired = (''DLQ_REPLAY_AUTH_EXPIRED'', ''Dead-letter replay credentials expired'')"

text \<open>The clock is read when the key is matched, when the expiry header is checked, and by the limiter.\<close>

record guard_clock =
  at_match :: int
  at_expiry :: int
  at_limit :: int

definition dlq_deny :: "dlq_state \<Rightarrow> string \<Rightarrow> http_error \<Rightarrow> (http_error + bool) \<times> dlq_state" where
  "dlq_deny s outcome e = (Inl e, s\<lparr>dq_outcomes := counter_inc (dq_outcomes s) outcome\<rparr>)"

text \<open>An expiry header is a number of milliseconds; anything else, or a past one, is refused.\<close>

definition expiry_passed :: "header \<Rightarrow> int \<Rightarrow> bool" where
  "expiry_passed h now =
     (case num_of_string (header_string h) of Fin ts \<Rightarrow> ts \<le> of_int now | _ \<Rightarrow> True)"

definition dlq_after_auth ::
  "dlq_policy \<Rightarrow> string \<Rightarrow> headers \<Rightarrow> guard_clock \<Rightarrow> dlq_state \<Rightarrow> (http_error + bool) \<times> dlq_state" where
  "dlq_after_auth policy cid headers clk s =
     (let role = headers ''x-dlq-replay-role''; expiresAt = headers ''x-dlq-replay-expires-at'' in
      if role \<noteq> None \<and> role \<noteq> Some (HStr DLQ_REPLAY_ROLE) then
        dlq_deny s ''wrong_role'' (http_error 403 ''DLQ_REPLAY_AUTH_WRONG_ROLE''
          (''Caller lacks '' @ DLQ_REPLAY_ROLE @ '' role'') cid)
      else if (\<exists>h. expiresAt = Some h \<and> expiry_passed h (at_expiry clk)) then
        dlq_deny s ''expired'' (http_error 401 ''DLQ_REPLAY_AUTH_EXPIRED'' ''Dead-letter replay credentials expired'' cid)
      else if \<not> dp_enabled policy then
        dlq_deny s ''disabled'' (http_error 403 ''DLQ_REPLAY_AUTH_DISABLED''
          ''Dead-letter replay is disabled (INDEXER_DLQ_REPLAY_ENABLED)'' cid)
      else if dp_mainnet policy \<and> \<not> dp_mainnetEnabled policy then
        dlq_deny s ''mainnet_disabled'' (http_error 403 ''DLQ_REPLAY_AUTH_MAINNET_DISABLED''
          ''Dead-letter replay on mainnet requires INDEXER_DLQ_REPLAY_MAINNET_ENABLED'' cid)
      else
        let (retryAfterMs, l) = limiter_take (dp_maxPerWindow policy) (dp_windowMs policy) (at_limit clk) (dq_limiter s);
            s1 = s\<lparr>dq_limiter := l\<rparr>
        in if 0 < retryAfterMs then
             dlq_deny s1 ''rate_limited'' ((http_error 429 ''DLQ_REPLAY_AUTH_RATE_LIMITED''
               ''Too many dead-letter replay requests'' cid)\<lparr>he_retry_after := Some retryAfterMs\<rparr>)
           else (Inr True, s1\<lparr>dq_outcomes := counter_inc (dq_outcomes s1) ''allowed''\<rparr>))"

definition dlq_canActivate ::
  "(string \<Rightarrow> string) \<Rightarrow> (string \<Rightarrow> int option) \<Rightarrow> string \<Rightarrow> env \<Rightarrow> headers \<Rightarrow> guard_clock \<Rightarrow> dlq_state \<Rightarrow>
   (http_error + bool) \<times> dlq_state" where
  "dlq_canActivate digest date_parse random_uuid env headers clk s =
     (let cid = resolveCorrelationId random_uuid headers;
          policy = resolveDlqReplayPolicy env;
          m = matchKeyRing digest (headers ''x-internal-key'') (loadKeyRing date_parse INTERNAL_API_KEY env)
                (at_match clk);
          s0 = s\<lparr>dq_ring_outcomes := recordKeyRingOutcome (dq_ring_outcomes s) Dlq_Replay m\<rparr>
      in case m of
           Ring_Denied reason \<Rightarrow>
             (let (code, message) = KEY_DENIALS reason
              in dlq_deny s0 (denial_label reason) (http_error 401 code message cid))
         | Ring_Ok slot \<Rightarrow> dlq_after_auth policy cid headers clk s0)"

section \<open>The policy\<close>

lemma policy_max_bounds:
  "1 \<le> dp_maxPerWindow (resolveDlqReplayPolicy env) \<and> dp_maxPerWindow (resolveDlqReplayPolicy env) \<le> 1000"
proof (cases "num_of_env (env ''INDEXER_DLQ_REPLAY_MAX_PER_MINUTE'')")
  case (Fin x)
  show ?thesis
  proof (cases "is_integer (Fin x) \<and> 0 < x \<and> x \<le> 1000")
    case True
    then obtain i where i: "x = of_int i" by (metis is_integer.simps(1))
    then have "(0::rat) < of_int i" "(of_int i :: rat) \<le> of_int 1000" using True by simp_all
    then have "0 < i" "i \<le> 1000" by (simp_all only: of_int_0_less_iff of_int_le_iff)
    then show ?thesis using Fin True i by (simp add: resolveDlqReplayPolicy_def)
  next
    case False
    then have "dp_maxPerWindow (resolveDlqReplayPolicy env) = 10"
      using Fin by (auto simp: resolveDlqReplayPolicy_def)
    then show ?thesis by simp
  qed
qed (simp_all add: resolveDlqReplayPolicy_def)

lemma policy_windowMs [simp]: "dp_windowMs (resolveDlqReplayPolicy env) = 60000"
  by (simp add: resolveDlqReplayPolicy_def)

section \<open>Authorised replays\<close>

lemma dlq_after_auth_allowed:
  assumes "dlq_after_auth policy cid headers clk s = (Inr b, s')"
  shows "b \<and> (headers ''x-dlq-replay-role'' = None \<or> headers ''x-dlq-replay-role'' = Some (HStr DLQ_REPLAY_ROLE)) \<and>
    (\<forall>h. headers ''x-dlq-replay-expires-at'' = Some h \<longrightarrow> \<not> expiry_passed h (at_expiry clk)) \<and>
    dp_enabled policy \<and> (dp_mainnet policy \<longrightarrow> dp_mainnetEnabled policy) \<and>
    (\<exists>r. limiter_take (dp_maxPerWindow policy) (dp_windowMs policy) (at_limit clk) (dq_limiter s) = (r, dq_limiter s') \<and>
       r \<le> 0)"
  using assms
  by (auto simp: dlq_after_auth_def dlq_deny_def Let_def split: if_splits prod.splits)

text \<open>C19: A replay is authorised only for a holder of a live key of the INTERNAL_API_KEY ring, with the
  operator role if a role is stated, an unexpired credential, the kill switch on and the mainnet opt-in
  on mainnet. It takes one grant of the limiter: the count of a running window goes up by one, a window
  that is over is replaced by one that starts now with the count one, and the count stays within the
  maximum of the policy.\<close>

theorem dlq_replay_authorised:
  assumes "dlq_canActivate digest date_parse uuid env headers clk s = (Inr b, s')"
    and "limiter_inv (dp_maxPerWindow (resolveDlqReplayPolicy env)) (dq_limiter s)"
  shows "b \<and>
    (\<exists>slot. matchKeyRing digest (headers ''x-internal-key'') (loadKeyRing date_parse INTERNAL_API_KEY env)
       (at_match clk) = Ring_Ok slot) \<and>
    (headers ''x-dlq-replay-role'' = None \<or> headers ''x-dlq-replay-role'' = Some (HStr DLQ_REPLAY_ROLE)) \<and>
    (\<forall>h. headers ''x-dlq-replay-expires-at'' = Some h \<longrightarrow> \<not> expiry_passed h (at_expiry clk)) \<and>
    env ''INDEXER_DLQ_REPLAY_ENABLED'' = Some ''true'' \<and>
    (env ''STELLAR_NETWORK'' = Some ''mainnet'' \<longrightarrow> env ''INDEXER_DLQ_REPLAY_MAINNET_ENABLED'' = Some ''true'') \<and>
    dq_limiter s' =
      (if windowStart (dq_limiter s) + 60000 \<le> at_limit clk then \<lparr>windowStart = at_limit clk, lim_count = 1\<rparr>
       else \<lparr>windowStart = windowStart (dq_limiter s), lim_count = lim_count (dq_limiter s) + 1\<rparr>) \<and>
    lim_count (dq_limiter s') \<le> dp_maxPerWindow (resolveDlqReplayPolicy env)"
proof -
  let ?m = "matchKeyRing digest (headers ''x-internal-key'') (loadKeyRing date_parse INTERNAL_API_KEY env) (at_match clk)"
  let ?p = "resolveDlqReplayPolicy env"
  let ?s = "s\<lparr>dq_ring_outcomes := recordKeyRingOutcome (dq_ring_outcomes s) Dlq_Replay ?m\<rparr>"
  obtain slot where slot: "?m = Ring_Ok slot"
    and after: "dlq_after_auth ?p (resolveCorrelationId uuid headers) headers clk ?s = (Inr b, s')"
    using assms(1)
    by (auto simp: dlq_canActivate_def Let_def dlq_deny_def split: key_ring_match.splits prod.splits)
  note allowed = dlq_after_auth_allowed [OF after]
  then obtain r where take: "limiter_take (dp_maxPerWindow ?p) 60000 (at_limit clk) (dq_limiter s) = (r, dq_limiter s')"
    and r: "r \<le> 0" by auto
  have pos: "0 < dp_maxPerWindow ?p" "0 < (60000::int)" using policy_max_bounds [of env] by simp_all
  have policy: "dp_enabled ?p = (env ''INDEXER_DLQ_REPLAY_ENABLED'' = Some ''true'')"
    "dp_mainnet ?p = (env ''STELLAR_NETWORK'' = Some ''mainnet'')"
    "dp_mainnetEnabled ?p = (env ''INDEXER_DLQ_REPLAY_MAINNET_ENABLED'' = Some ''true'')"
    by (simp_all add: resolveDlqReplayPolicy_def)
  have lim: "dq_limiter s' =
      (if windowStart (dq_limiter s) + 60000 \<le> at_limit clk then \<lparr>windowStart = at_limit clk, lim_count = 1\<rparr>
       else \<lparr>windowStart = windowStart (dq_limiter s), lim_count = lim_count (dq_limiter s) + 1\<rparr>) \<and>
      lim_count (dq_limiter s') \<le> dp_maxPerWindow ?p"
    using assms(2) pos
  proof (cases rule: limiter_take_cases [where windowMs = 60000 and now = "at_limit clk"])
    case fresh
    then show ?thesis using take policy_max_bounds [of env] by simp
  next
    case again
    then show ?thesis using take by simp
  qed (use take r in simp)
  have slot_ex: "\<exists>slot. ?m = Ring_Ok slot" using slot by (rule exI)
  from allowed lim slot_ex show ?thesis
    unfolding policy by (elim conjE) (intro conjI; assumption)
qed

definition demo_dlq_env :: env where
  "demo_dlq_env = map_of [(''INTERNAL_API_KEY'', ''secret''), (''INDEXER_DLQ_REPLAY_ENABLED'', ''true'')]"

definition demo_dlq_headers :: headers where
  "demo_dlq_headers = map_of [(''x-internal-key'', HStr ''secret'')]"

definition demo_clock :: guard_clock where
  "demo_clock = \<lparr>at_match = 100000, at_expiry = 100000, at_limit = 100000\<rparr>"

theorem dlq_replay_authorised_witness:
  "\<exists>s'. dlq_canActivate rev (\<lambda>_. None) ''u'' demo_dlq_env demo_dlq_headers demo_clock dlq_state_init = (Inr True, s') \<and>
     dq_limiter s' = \<lparr>windowStart = 100000, lim_count = 1\<rparr>"
proof -
  have inv: "limiter_inv (dp_maxPerWindow (resolveDlqReplayPolicy demo_dlq_env)) (dq_limiter dlq_state_init)"
    using policy_max_bounds [of demo_dlq_env] by (simp add: dlq_state_init_def limiter_init_inv)
  obtain s' where s': "dlq_canActivate rev (\<lambda>_. None) ''u'' demo_dlq_env demo_dlq_headers demo_clock dlq_state_init
      = (Inr True, s')"
    by (simp add: dlq_canActivate_def matchKeyRing_def loadKeyRing_def nonEmpty_def demo_dlq_env_def
        demo_dlq_headers_def dlq_after_auth_def resolveDlqReplayPolicy_def num_of_env_def Let_def
        dlq_state_init_def limiter_init_def limiter_take_def demo_clock_def)
  have "dq_limiter s' = \<lparr>windowStart = 100000, lim_count = 1\<rparr>"
    using dlq_replay_authorised [OF s' inv] by (simp add: dlq_state_init_def limiter_init_def demo_clock_def)
  then show ?thesis using s' by blast
qed

section \<open>Refused callers\<close>

text \<open>A caller without a live key gets a 401 whose content depends on the key settings only, never on
  the kill switch, the network or the limiter, and it does not consume the limit.\<close>

theorem dlq_unauthenticated_learns_nothing:
  assumes "matchKeyRing digest (headers ''x-internal-key'') (loadKeyRing date_parse INTERNAL_API_KEY env)
      (at_match clk) = Ring_Denied reason"
    and "loadKeyRing date_parse INTERNAL_API_KEY env' = loadKeyRing date_parse INTERNAL_API_KEY env"
    and "at_match clk' = at_match clk"
  shows "\<exists>e. fst (dlq_canActivate digest date_parse uuid env headers clk s) = Inl e \<and> he_status e = 401 \<and>
    fst (dlq_canActivate digest date_parse uuid env' headers clk' s') = Inl e \<and>
    dq_limiter (snd (dlq_canActivate digest date_parse uuid env headers clk s)) = dq_limiter s"
  using assms
  by (cases reason) (simp_all add: dlq_canActivate_def Let_def dlq_deny_def http_error_def)

theorem dlq_unauthenticated_learns_nothing_witness:
  "\<exists>e. fst (dlq_canActivate rev (\<lambda>_. None) ''u'' demo_dlq_env Map.empty demo_clock dlq_state_init) = Inl e \<and>
     he_status e = 401"
proof -
  have "matchKeyRing rev (Map.empty ''x-internal-key'') (loadKeyRing (\<lambda>_. None) INTERNAL_API_KEY demo_dlq_env)
      (at_match demo_clock) = Ring_Denied Missing"
    by (simp add: matchKeyRing_def loadKeyRing_def nonEmpty_def demo_dlq_env_def)
  from dlq_unauthenticated_learns_nothing [OF this refl refl] show ?thesis by blast
qed

end
