(* ===== verification/Internal_Guards.thy ===== *)
theory Internal_Guards
  imports Dlq_Guard
begin

text \<open>
  The guards of \<^verbatim>\<open>apps/api/src/admin/internal-key.guard.ts\<close> (fee collector, testnet redeploy, pool
  initialisation, and the boot check) and the API-key guard of \<^verbatim>\<open>apps/api/src/auth/api-key.guard.ts\<close>.

  The lemmas show what each guard requires before it lets a request through, that the
  pool-init guard lets nobody through, and what the testnet guard does not look at.
\<close>

section \<open>Boot check\<close>

definition validateInternalApiKeyConfig :: "(string \<Rightarrow> int option) \<Rightarrow> env \<Rightarrow> int \<Rightarrow> string + unit" where
  "validateInternalApiKeyConfig date_parse env now =
     (if env ''NODE_ENV'' = Some ''production'' then
        (let key = env ''INTERNAL_API_KEY''
         in if nonEmpty key = None \<or> key = Some PLACEHOLDER_INTERNAL_API_KEY then
              Inl (''Production startup failed: INTERNAL_API_KEY must be set to a ''
                @ ''non-default value. It protects /admin, indexer replay, and '' @ ''/metrics endpoints.'')
            else
              let problems = concat (map (\<lambda>name. keyRingConfigProblems (loadKeyRing date_parse name env) env now)
                    [INTERNAL_API_KEY, FEE_COLLECTOR_AUTH, TESTNET_REDEPLOY_AUTH])
              in if problems \<noteq> [] then
                   Inl (''Production startup failed: invalid key rotation config: '' @ join ''; '' problems)
                 else Inr ())
      else Inr ())"

text \<open>C25: A production process that boots has a real internal key, and whatever its environment says
  about key rotation, no ring opens for a previous key from seven days after the boot on.\<close>

theorem production_boot_bounds_rotation:
  assumes "validateInternalApiKeyConfig date_parse env boot = Inr ()" and "env ''NODE_ENV'' = Some ''production''"
    and "boot + 7 * 24 * 60 * 60 * 1000 \<le> now"
  shows "(\<exists>k. env ''INTERNAL_API_KEY'' = Some k \<and> k \<noteq> [] \<and> k \<noteq> PLACEHOLDER_INTERNAL_API_KEY) \<and>
    matchKeyRing digest presented (loadKeyRing date_parse name env) now \<noteq> Ring_Ok Previous"
proof
  have none: "keyRingConfigProblems (loadKeyRing date_parse name env) env boot = []"
    using assms by (cases name) (auto simp: validateInternalApiKeyConfig_def Let_def split: if_splits)
  show "\<exists>k. env ''INTERNAL_API_KEY'' = Some k \<and> k \<noteq> [] \<and> k \<noteq> PLACEHOLDER_INTERNAL_API_KEY"
    using assms
    by (auto simp: validateInternalApiKeyConfig_def Let_def nonEmpty_def split: if_splits option.splits list.splits)
  show "matchKeyRing digest presented (loadKeyRing date_parse name env) now \<noteq> Ring_Ok Previous"
    using rotation_window_bounded [OF none] assms(3) by (meson not_le)
qed

definition demo_prod_env :: env where
  "demo_prod_env = map_of [(''NODE_ENV'', ''production''), (''INTERNAL_API_KEY'', ''new''),
     (''INTERNAL_API_KEY_PREVIOUS'', ''old''), (''INTERNAL_API_KEY_PREVIOUS_EXPIRES_AT'', ''t'')]"

theorem production_boot_bounds_rotation_witness:
  "matchKeyRing rev (Some (HStr ''old'')) (loadKeyRing (\<lambda>_. Some 1000) INTERNAL_API_KEY demo_prod_env) 999 = Ring_Ok Previous \<and>
   matchKeyRing rev (Some (HStr ''old'')) (loadKeyRing (\<lambda>_. Some 1000) INTERNAL_API_KEY demo_prod_env) 604800500
     \<noteq> Ring_Ok Previous"
proof
  have boot: "validateInternalApiKeyConfig (\<lambda>_. Some 1000) demo_prod_env 500 = Inr ()"
    by (simp add: validateInternalApiKeyConfig_def demo_prod_env_def nonEmpty_def loadKeyRing_def
        keyRingConfigProblems_def PLACEHOLDER_INTERNAL_API_KEY_def MAX_ROTATION_WINDOW_MS_def problem_if_def)
  have prod: "demo_prod_env ''NODE_ENV'' = Some ''production''" by (simp add: demo_prod_env_def)
  show "matchKeyRing rev (Some (HStr ''old'')) (loadKeyRing (\<lambda>_. Some 1000) INTERNAL_API_KEY demo_prod_env) 999
      = Ring_Ok Previous"
    by (simp add: matchKeyRing_def loadKeyRing_def nonEmpty_def demo_prod_env_def Let_def)
  show "matchKeyRing rev (Some (HStr ''old'')) (loadKeyRing (\<lambda>_. Some 1000) INTERNAL_API_KEY demo_prod_env) 604800500
      \<noteq> Ring_Ok Previous"
    using production_boot_bounds_rotation [OF boot prod, of 604800500] by simp
qed

section \<open>Shared checks\<close>

record ring_state =
  rg_outcomes :: counter
  rg_warned :: "key_ring_name list"

definition checkKeyRing ::
  "(string \<Rightarrow> string) \<Rightarrow> headers \<Rightarrow> key_ring \<Rightarrow> surface \<Rightarrow> int \<Rightarrow> ring_state \<Rightarrow> key_ring_match \<times> ring_state" where
  "checkKeyRing digest headers ring surface now s =
     (let m = matchKeyRing digest (headers ''x-internal-key'') ring now;
          s1 = s\<lparr>rg_outcomes := recordKeyRingOutcome (rg_outcomes s) surface m\<rparr>
      in (m, if m = Ring_Ok Previous \<and> kr_name ring \<notin> set (rg_warned s)
             then s1\<lparr>rg_warned := kr_name ring # rg_warned s1\<rparr> else s1))"

text \<open>The denial of a key check: code and message of one surface, always a 401.\<close>

fun ring_denial :: "string \<Rightarrow> string \<Rightarrow> string \<Rightarrow> string \<Rightarrow> key_ring_denial \<Rightarrow> http_error" where
  "ring_denial prefix Name name cid Not_Configured =
     http_error 401 (prefix @ ''_NOT_CONFIGURED'') (Name @ '' auth is not configured'') cid"
| "ring_denial prefix Name name cid Missing =
     http_error 401 (prefix @ ''_MISSING_KEY'') (''Missing '' @ name @ '' credentials'') cid"
| "ring_denial prefix Name name cid Invalid =
     http_error 401 (prefix @ ''_INVALID_KEY'') (''Invalid '' @ name @ '' credentials'') cid"
| "ring_denial prefix Name name cid Previous_Expired =
     http_error 401 (prefix @ ''_EXPIRED'') (Name @ '' credentials expired'') cid"

text \<open>The optional role and expiry headers of a scoped token; an empty header counts as absent.\<close>

definition scoped_token ::
  "string \<Rightarrow> string \<Rightarrow> string \<Rightarrow> string \<Rightarrow> headers \<Rightarrow> string \<Rightarrow> string \<Rightarrow> int \<Rightarrow> http_error + unit" where
  "scoped_token prefix Name wanted cid headers role_header expiry_header now =
     (if truthy_header (headers role_header) \<and> headers role_header \<noteq> Some (HStr wanted) then
        Inl (http_error 403 (prefix @ ''_WRONG_ROLE'') (''Caller lacks '' @ wanted @ '' role'') cid)
      else if truthy_header (headers expiry_header) \<and> expiry_passed (the (headers expiry_header)) now then
        Inl (http_error 401 (prefix @ ''_EXPIRED'') (Name @ '' credentials expired'') cid)
      else Inr ())"

lemma scoped_token_ok:
  "scoped_token prefix Name wanted cid headers rh eh now = Inr u \<Longrightarrow>
     (truthy_header (headers rh) \<longrightarrow> headers rh = Some (HStr wanted)) \<and>
     (\<forall>h. headers eh = Some h \<longrightarrow> h \<noteq> HStr [] \<longrightarrow> \<not> expiry_passed h now)"
  by (auto simp: scoped_token_def truthy_header_def split: if_splits)

section \<open>Fee collector\<close>

definition fee_collector_ring :: "(string \<Rightarrow> int option) \<Rightarrow> env \<Rightarrow> key_ring" where
  "fee_collector_ring date_parse env =
     loadKeyRing date_parse (if env ''FEE_COLLECTOR_AUTH'' \<noteq> None then FEE_COLLECTOR_AUTH else INTERNAL_API_KEY) env"

definition internal_key_canActivate ::
  "(string \<Rightarrow> string) \<Rightarrow> (string \<Rightarrow> int option) \<Rightarrow> string \<Rightarrow> env \<Rightarrow> headers \<Rightarrow> guard_clock \<Rightarrow> ring_state \<Rightarrow>
   (http_error + bool) \<times> ring_state" where
  "internal_key_canActivate digest date_parse random_uuid env headers clk s =
     (let cid = resolveCorrelationId random_uuid headers;
          (m, s1) = checkKeyRing digest headers (fee_collector_ring date_parse env) Fee_Collector (at_match clk) s
      in (case m of
            Ring_Denied reason \<Rightarrow> Inl (ring_denial ''FEE_COLLECTOR_AUTH'' ''Fee collector'' ''fee collector'' cid reason)
          | Ring_Ok slot \<Rightarrow>
              bind_result (scoped_token ''FEE_COLLECTOR_AUTH'' ''Fee collector'' ''fee-collector'' cid headers
                ''x-fee-collector-role'' ''x-fee-collector-expires-at'' (at_expiry clk)) (\<lambda>_. Inr True), s1))"

lemma checkKeyRing_match [simp]:
  "fst (checkKeyRing digest headers ring surface now s) = matchKeyRing digest (headers ''x-internal-key'') ring now"
  by (simp add: checkKeyRing_def Let_def)

text \<open>An empty FEE_COLLECTOR_AUTH closes the surface; it does not fall back to the internal key.\<close>

lemma fee_collector_empty_key_closes:
  assumes "env ''FEE_COLLECTOR_AUTH'' = Some []"
  shows "\<exists>e. fst (internal_key_canActivate digest date_parse uuid env headers clk s) = Inl e \<and> he_status e = 401"
proof -
  have "kr_current (fee_collector_ring date_parse env) = None"
    using assms by (simp add: fee_collector_ring_def loadKeyRing_def nonEmpty_def)
  then show ?thesis
    by (simp add: internal_key_canActivate_def checkKeyRing_def match_ring_not_configured http_error_def
        Let_def)
qed

section \<open>Testnet redeploy\<close>

definition testnet_redeploy_canActivate ::
  "(string \<Rightarrow> string) \<Rightarrow> (string \<Rightarrow> int option) \<Rightarrow> string \<Rightarrow> env \<Rightarrow> headers \<Rightarrow> header option \<Rightarrow> guard_clock \<Rightarrow>
   ring_state \<Rightarrow> (http_error + bool) \<times> ring_state" where
  "testnet_redeploy_canActivate digest date_parse random_uuid env headers body_network clk s =
     (let cid = resolveCorrelationId random_uuid headers;
          network = (case headers ''x-stellar-network'' of Some h \<Rightarrow> Some h | None \<Rightarrow> body_network)
      in if truthy_header network \<and> network \<noteq> Some (HStr ''testnet'') then
           (Inl (http_error 403 ''TESTNET_REDEPLOY_AUTH_MAINNET_FORBIDDEN''
              ''Wasm-hash redeploy is restricted to testnet'' cid), s)
         else
           let (m, s1) = checkKeyRing digest headers (loadKeyRing date_parse TESTNET_REDEPLOY_AUTH env)
                 Testnet_Redeploy (at_match clk) s
           in (case m of
                 Ring_Denied reason \<Rightarrow>
                   Inl (ring_denial ''TESTNET_REDEPLOY_AUTH'' ''Testnet redeploy'' ''testnet redeploy'' cid reason)
               | Ring_Ok slot \<Rightarrow>
                   bind_result (scoped_token ''TESTNET_REDEPLOY_AUTH'' ''Testnet redeploy'' ''testnet-redeployer'' cid
                     headers ''x-testnet-redeploy-role'' ''x-testnet-redeploy-expires-at'' (at_expiry clk))
                     (\<lambda>_. Inr True), s1))"

text \<open>
  The redeploy guard decides on the network the caller declares. The process's own network is not
  read: an authorised request that declares none is let through on mainnet as well.
\<close>

lemma redeploy_guard_ignores_configured_network:
  assumes "matchKeyRing digest (headers ''x-internal-key'') (loadKeyRing date_parse TESTNET_REDEPLOY_AUTH env)
      (at_match clk) = Ring_Ok slot"
    and "headers ''x-stellar-network'' = None" and "headers ''x-testnet-redeploy-role'' = None"
    and "headers ''x-testnet-redeploy-expires-at'' = None" and "env ''STELLAR_NETWORK'' = Some ''mainnet''"
  shows "fst (testnet_redeploy_canActivate digest date_parse uuid env headers None clk s) = Inr True"
  using assms
  by (simp add: testnet_redeploy_canActivate_def checkKeyRing_def scoped_token_def truthy_header_def Let_def)

section \<open>Pool initialisation\<close>

text \<open>
  The replay store is injected: \<open>claim\<close> answers or throws in a state of its own. The file calls
  \<^verbatim>\<open>timingSafeEqual\<close> and never imports it: the name is unbound, so the call throws a
  \<^verbatim>\<open>ReferenceError\<close>, which leaves the guard as a crash and not as an HTTP exception.
\<close>

type_synonym 's claim_fn = "string \<Rightarrow> 's \<Rightarrow> (string + bool) \<times> 's"

text \<open>The UTF-8 length of a string of code points below 256.\<close>

definition utf8_length :: "string \<Rightarrow> nat" where
  "utf8_length s = sum_list (map (\<lambda>c. if of_char c < (128::nat) then 1 else 2) s)"

definition safeEqual :: "string \<Rightarrow> string \<Rightarrow> string + bool" where
  "safeEqual a b = (if utf8_length a \<noteq> utf8_length b then Inr False else Inl ''timingSafeEqual is not defined'')"

definition first_header :: "headers \<Rightarrow> string list \<Rightarrow> string \<Rightarrow> string" where
  "first_header headers names fallback =
     (case dropWhile (\<lambda>n. headers n = None) names of [] \<Rightarrow> fallback | n # _ \<Rightarrow> header_string (the (headers n)))"

definition pool_init_canActivate ::
  "'s claim_fn option \<Rightarrow> env \<Rightarrow> headers \<Rightarrow> header option \<Rightarrow> int \<Rightarrow> 's \<Rightarrow> (api_exn + bool) \<times> 's" where
  "pool_init_canActivate replayStore env headers body_poolId now s =
     (let cid = first_header headers [''x-correlation-id'', ''x-request-id''] ''unknown'';
          deny = (\<lambda>status code message. Inl (Http (http_error status (''POOL_INIT_AUTH_'' @ code) message cid)));
          key = headers ''x-internal-key'';
          poolId = (case headers ''x-pool-id'' of Some h \<Rightarrow> Some h | None \<Rightarrow> body_poolId);
          nonce = headers ''x-pool-init-nonce''
      in case nonEmpty (env ''POOL_INIT_AUTH'') of
           None \<Rightarrow> (deny 401 ''NOT_CONFIGURED'' ''Pool init auth is not configured'', s)
         | Some expected \<Rightarrow>
           if \<not> truthy_header key then (deny 401 ''MISSING_KEY'' ''Missing pool init credentials'', s)
           else (case safeEqual (header_string (the key)) expected of
             Inl crash \<Rightarrow> (Inl (Crash crash), s)
           | Inr False \<Rightarrow> (deny 401 ''INVALID_KEY'' ''Invalid pool init credentials'', s)
           | Inr True \<Rightarrow>
             (case scoped_token ''POOL_INIT_AUTH'' ''Pool init'' ''pool-init-admin'' cid headers
                     ''x-pool-init-role'' ''x-pool-init-expires-at'' now of
                Inl e \<Rightarrow> (Inl (Http e), s)
              | Inr _ \<Rightarrow>
                if \<not> truthy_header poolId \<or> \<not> truthy_header nonce then
                  (deny 403 ''REPLAY_DETECTED'' ''Pool init requires a pool id and single-use nonce'', s)
                else (case replayStore of
                    None \<Rightarrow> (deny 401 ''DEPENDENCY_UNAVAILABLE'' ''Pool init replay store is unavailable'', s)
                  | Some claim \<Rightarrow>
                    (case claim (''pool-init:'' @ header_string (the poolId) @ '':'' @ header_string (the nonce)) s of
                       (Inl e, s') \<Rightarrow> (deny 401 ''DEPENDENCY_UNAVAILABLE'' ''Pool init replay store is unavailable'', s')
                     | (Inr False, s') \<Rightarrow> (deny 403 ''REPLAY_DETECTED'' ''Pool init nonce already used'', s')
                     | (Inr True, s') \<Rightarrow> (Inr True, s'))))))"

text \<open>The pool-init guard never lets a request through and never claims a nonce: the store of used
  nonces stays as it was. Without a configured key or a presented one the answer is a 401, a key of the
  wrong length is a 401, and a key of the right length, the right key included, crashes the guard on
  the comparison function the file does not import, before the role, the expiry and the nonce are
  looked at.\<close>

theorem pool_init_never_grants:
  "pool_init_canActivate replayStore env headers body_poolId now s =
     (Inl (let cid = first_header headers [''x-correlation-id'', ''x-request-id''] ''unknown'' in
        case nonEmpty (env ''POOL_INIT_AUTH'') of
          None \<Rightarrow> Http (http_error 401 ''POOL_INIT_AUTH_NOT_CONFIGURED'' ''Pool init auth is not configured'' cid)
        | Some expected \<Rightarrow>
            if \<not> truthy_header (headers ''x-internal-key'') then
              Http (http_error 401 ''POOL_INIT_AUTH_MISSING_KEY'' ''Missing pool init credentials'' cid)
            else if utf8_length (header_string (the (headers ''x-internal-key''))) = utf8_length expected then
              Crash ''timingSafeEqual is not defined''
            else Http (http_error 401 ''POOL_INIT_AUTH_INVALID_KEY'' ''Invalid pool init credentials'' cid)), s)"
  by (simp add: pool_init_canActivate_def safeEqual_def Let_def split: option.splits)

section \<open>API keys\<close>

record api_key_record =
  ak_id :: string
  ak_ownerWallet :: string
  ak_revoked :: bool
  ak_role :: "string option"
  ak_expiresAt :: "int option"

record api_user =
  au_walletAddress :: string
  au_apiKeyId :: string
  au_role :: string
  au_correlationId :: string

text \<open>
  The Prisma table is a parameter: \<open>find\<close> answers or throws, \<open>touch\<close> sets \<^verbatim>\<open>lastUsedAt\<close> and may throw.
\<close>

record 'db api_key_store =
  aks_find :: "string \<Rightarrow> 'db \<Rightarrow> string + api_key_record option"
  aks_touch :: "string \<Rightarrow> int \<Rightarrow> 'db \<Rightarrow> (string + unit) \<times> 'db"

definition api_key_canActivate ::
  "(string \<Rightarrow> string) \<Rightarrow> 'db api_key_store \<Rightarrow> string \<Rightarrow> headers \<Rightarrow> bool \<Rightarrow> int \<Rightarrow> 'db \<Rightarrow>
   (http_error + api_user) \<times> 'db" where
  "api_key_canActivate sha256_hex store random_uuid headers requiresFeeCollector now db =
     (let cid = (case headers ''x-correlation-id'' of Some h \<Rightarrow> header_string h | None \<Rightarrow> random_uuid);
          raw = headers ''x-api-key'';
          deny = (\<lambda>status code message. (Inl (http_error status (''FEE_COLLECTOR_AUTH_'' @ code) message cid), db))
      in if \<not> truthy_header raw then deny 401 ''MISSING_KEY'' ''Missing X-Api-Key header''
         else (case aks_find store (sha256_hex (header_string (the raw))) db of
             Inl e \<Rightarrow> deny 401 ''DEPENDENCY_UNAVAILABLE'' ''Auth store unavailable''
           | Inr None \<Rightarrow> deny 401 ''INVALID_KEY'' ''Invalid or revoked API key''
           | Inr (Some r) \<Rightarrow>
               if ak_revoked r then deny 401 ''INVALID_KEY'' ''Invalid or revoked API key''
               else if (\<exists>e. ak_expiresAt r = Some e \<and> e \<le> now) then deny 401 ''EXPIRED_KEY'' ''API key expired''
               else if requiresFeeCollector \<and> ak_role r \<noteq> Some ''fee_collector'' then
                 deny 403 ''WRONG_ROLE'' ''API key lacks fee_collector role''
               else (Inr \<lparr>au_walletAddress = ak_ownerWallet r, au_apiKeyId = ak_id r,
                   au_role = (case ak_role r of Some x \<Rightarrow> x | None \<Rightarrow> ''default''), au_correlationId = cid\<rparr>,
                 snd (aks_touch store (ak_id r) now db))))"

definition api_key_live :: "int \<Rightarrow> api_key_record \<Rightarrow> bool" where
  "api_key_live now r = (\<not> ak_revoked r \<and> (case ak_expiresAt r of Some e \<Rightarrow> now < e | None \<Rightarrow> True))"

lemma api_key_liveI:
  "\<not> ak_revoked r \<Longrightarrow> \<forall>e. ak_expiresAt r = Some e \<longrightarrow> now < e \<Longrightarrow> api_key_live now r"
  by (simp add: api_key_live_def split: option.splits)

text \<open>An API key is accepted only if the store holds it unrevoked and unexpired, with the fee-collector
  role where the route asks for it; an unavailable store admits nobody, and a refusal writes nothing.\<close>

theorem api_key_accepts_only_live_keys:
  "case api_key_canActivate h store uuid headers requiresFeeCollector now db of
     (Inr u, db') \<Rightarrow> \<exists>k r. headers ''x-api-key'' = Some k \<and> aks_find store (h (header_string k)) db = Inr (Some r) \<and>
        api_key_live now r \<and>
        (if requiresFeeCollector then au_role u = ''fee_collector'' else True) \<and>
        au_walletAddress u = ak_ownerWallet r \<and> au_apiKeyId u = ak_id r
   | (Inl e, db') \<Rightarrow> db' = db \<and> he_status e \<in> {401, 403}"
  by (auto intro: api_key_liveI simp: api_key_canActivate_def Let_def truthy_header_def http_error_def not_le
      split: option.splits sum.splits)

end
