(* ===== verification/Service_Prog.thy ===== *)
theory Service_Prog
  imports Prelude
begin

text \<open>
  Asynchronous code that calls a service. A handler is a tree of calls: it performs a call, receives the
  reply, and continues; \<^verbatim>\<open>await\<close> points are exactly the calls, so handlers running concurrently in one
  process interleave between calls and nowhere else. \<open>run\<close> is one handler alone, \<open>steps\<close> is any
  interleaving of several handlers with steps of the surroundings (time passing in a store).

  The lemmas relate the two: what a handler returns in an interleaving is determined by the replies it
  received, and a handler that runs alone is a special interleaving.
\<close>

datatype ('c, 'r, 'a) prog = Ret 'a | Call 'c "'r \<Rightarrow> ('c, 'r, 'a) prog"

primrec prog_bind :: "('c, 'r, 'a) prog \<Rightarrow> ('a \<Rightarrow> ('c, 'r, 'b) prog) \<Rightarrow> ('c, 'r, 'b) prog" where
  "prog_bind (Ret x) f = f x"
| "prog_bind (Call c k) f = Call c (\<lambda>r. prog_bind (k r) f)"

text \<open>Sequencing after a part that may throw.\<close>

definition prog_then :: "('c, 'r, 'e + 'a) prog \<Rightarrow> ('a \<Rightarrow> ('c, 'r, 'e + 'b) prog) \<Rightarrow> ('c, 'r, 'e + 'b) prog" where
  "prog_then m f = prog_bind m (\<lambda>x. case x of Inl e \<Rightarrow> Ret (Inl e) | Inr y \<Rightarrow> f y)"

definition prog_throw :: "'e \<Rightarrow> ('c, 'r, 'e + 'a) prog" where
  "prog_throw e = Ret (Inl e)"

definition prog_return :: "'a \<Rightarrow> ('c, 'r, 'e + 'a) prog" where
  "prog_return x = Ret (Inr x)"

text \<open>\<^verbatim>\<open>try { m } catch (e) { h(e) }\<close>.\<close>

definition prog_catch :: "('c, 'r, 'e + 'a) prog \<Rightarrow> ('e \<Rightarrow> ('c, 'r, 'd + 'a) prog) \<Rightarrow> ('c, 'r, 'd + 'a) prog" where
  "prog_catch m h = prog_bind m (\<lambda>x. case x of Inl e \<Rightarrow> h e | Inr y \<Rightarrow> Ret (Inr y))"

lemma prog_then_simps [simp]:
  "prog_then (Ret (Inl e)) f = Ret (Inl e)"
  "prog_then (Ret (Inr y)) f = f y"
  "prog_then (Call c k) f = Call c (\<lambda>r. prog_then (k r) f)"
  by (simp_all add: prog_then_def)

lemma prog_catch_simps [simp]:
  "prog_catch (Ret (Inl e)) h = h e"
  "prog_catch (Ret (Inr y)) h = Ret (Inr y)"
  "prog_catch (Call c k) h = Call c (\<lambda>r. prog_catch (k r) h)"
  by (simp_all add: prog_catch_def)

lemma prog_throw_return [simp]: "prog_throw e = Ret (Inl e)" "prog_return x = Ret (Inr x)"
  by (simp_all add: prog_throw_def prog_return_def)

text \<open>A loop over a list, one body after the other.\<close>

fun prog_for :: "'b list \<Rightarrow> ('b \<Rightarrow> ('c, 'r, 'e + unit) prog) \<Rightarrow> ('c, 'r, 'e + unit) prog" where
  "prog_for [] f = Ret (Inr ())"
| "prog_for (x # xs) f = prog_then (f x) (\<lambda>_. prog_for xs f)"

section \<open>One handler alone\<close>

type_synonym ('c, 'r, 's) service = "'c \<Rightarrow> 's \<Rightarrow> 'r \<times> 's"

primrec run :: "('c, 'r, 's) service \<Rightarrow> ('c, 'r, 'a) prog \<Rightarrow> 's \<Rightarrow> 'a \<times> 's" where
  "run exec (Ret x) s = (x, s)"
| "run exec (Call c k) s = (case exec c s of (r, s') \<Rightarrow> run exec (k r) s')"

lemma run_bind:
  "run exec (prog_bind m f) s = (case run exec m s of (x, s') \<Rightarrow> run exec (f x) s')"
  by (induction m arbitrary: s) (auto split: prod.splits)

lemma run_then:
  "run exec (prog_then m f) s =
     (case run exec m s of (Inl e, s') \<Rightarrow> (Inl e, s') | (Inr x, s') \<Rightarrow> run exec (f x) s')"
  by (simp add: prog_then_def run_bind split: prod.splits sum.splits)

lemma run_catch:
  "run exec (prog_catch m h) s =
     (case run exec m s of (Inl e, s') \<Rightarrow> run exec (h e) s' | (Inr x, s') \<Rightarrow> (Inr x, s'))"
  by (simp add: prog_catch_def run_bind split: prod.splits sum.splits)

text \<open>A state property that every call keeps is kept by every handler.\<close>

lemma run_invariant:
  assumes "\<And>c s r s'. exec c s = (r, s') \<Longrightarrow> I s \<Longrightarrow> I s'" and "I s"
  shows "I (snd (run exec m s))"
  using assms(2)
proof (induction m arbitrary: s)
  case (Call c k)
  then show ?case using assms(1) by (cases "exec c s") auto
qed simp

section \<open>Replies determine the rest of a handler\<close>

primrec feed :: "('c, 'r, 'a) prog \<Rightarrow> ('c \<times> 'r) list \<Rightarrow> ('c, 'r, 'a) prog option" where
  "feed (Ret x) lg = (if lg = [] then Some (Ret x) else None)"
| "feed (Call c k) lg =
     (case lg of [] \<Rightarrow> Some (Call c k) | (c', r) # rest \<Rightarrow> if c' = c then feed (k r) rest else None)"

lemma feed_Nil [simp]: "feed m [] = Some m"
  by (cases m) simp_all

lemma feed_snoc:
  "feed m lg = Some (Call c k) \<Longrightarrow> feed m (lg @ [(c, r)]) = Some (k r)"
proof (induction m arbitrary: lg)
  case (Call c' k')
  then show ?case by (cases lg) (auto split: if_splits)
qed (simp split: if_splits)

text \<open>The calls a handler has made when it has come to its end with result \<open>x\<close>.\<close>

lemma feed_bind_Ret:
  "feed (prog_bind m f) lg = Some (Ret y) \<Longrightarrow>
   \<exists>x lg1 lg2. lg = lg1 @ lg2 \<and> feed m lg1 = Some (Ret x) \<and> feed (f x) lg2 = Some (Ret y)"
proof (induction m arbitrary: lg)
  case (Ret x)
  then show ?case by (intro exI [of _ x] exI [of _ "[]"] exI [of _ lg]) simp
next
  case (Call c k)
  then obtain r rest where lg: "lg = (c, r) # rest" and "feed (prog_bind (k r) f) rest = Some (Ret y)"
    by (auto split: list.splits if_splits prod.splits)
  from Call.IH [OF rangeI this(2)] obtain x lg1 lg2 where
    "rest = lg1 @ lg2" "feed (k r) lg1 = Some (Ret x)" "feed (f x) lg2 = Some (Ret y)" by blast
  then show ?case using lg by (intro exI [of _ x] exI [of _ "(c, r) # lg1"] exI [of _ lg2]) simp
qed

lemma feed_bind_Call:
  "feed (prog_bind m f) lg = Some (Call c k) \<Longrightarrow>
   (\<exists>k'. feed m lg = Some (Call c k')) \<or>
   (\<exists>x lg1 lg2. lg = lg1 @ lg2 \<and> feed m lg1 = Some (Ret x) \<and> feed (f x) lg2 = Some (Call c k))"
proof (induction m arbitrary: lg)
  case (Ret x)
  then show ?case by (intro disjI2 exI [of _ x] exI [of _ "[]"] exI [of _ lg]) simp
next
  case (Call c' k')
  show ?case
  proof (cases lg)
    case Nil
    then show ?thesis using Call.prems by simp
  next
    case (Cons e rest)
    then obtain r where e: "e = (c', r)" and rest: "feed (prog_bind (k' r) f) rest = Some (Call c k)"
      using Call.prems by (cases e) (auto split: if_splits)
    from Call.IH [OF rangeI rest] show ?thesis
    proof (elim disjE exE conjE)
      fix k'' assume "feed (k' r) rest = Some (Call c k'')"
      then show ?thesis using Cons e by simp
    next
      fix x lg1 lg2 assume "rest = lg1 @ lg2" "feed (k' r) lg1 = Some (Ret x)" "feed (f x) lg2 = Some (Call c k)"
      then show ?thesis using Cons e
        by (intro disjI2 exI [of _ x] exI [of _ "(c', r) # lg1"] exI [of _ lg2]) simp
    qed
  qed
qed

section \<open>Interleavings\<close>

text \<open>
  An event is a call of handler \<open>i\<close> with its reply. \<open>drift\<close> is what the surroundings may do to the
  state between two calls.
\<close>

inductive steps ::
  "('c, 'r, 's) service \<Rightarrow> ('s \<Rightarrow> 's \<Rightarrow> bool) \<Rightarrow> ('c, 'r, 'a) prog list \<times> 's \<Rightarrow>
   (nat \<times> 'c \<times> 'r) list \<Rightarrow> ('c, 'r, 'a) prog list \<times> 's \<Rightarrow> bool"
  for exec drift where
  steps_refl: "steps exec drift (ts, s) [] (ts, s)"
| steps_drift: "steps exec drift st tr (ts, s) \<Longrightarrow> drift s s' \<Longrightarrow> steps exec drift st tr (ts, s')"
| steps_call: "steps exec drift st tr (ts, s) \<Longrightarrow> i < length ts \<Longrightarrow> ts ! i = Call c k \<Longrightarrow>
    exec c s = (r, s') \<Longrightarrow> steps exec drift st (tr @ [(i, c, r)]) (ts[i := k r], s')"

inductive_cases steps_elim: "steps exec drift st tr st'"

definition events_of :: "nat \<Rightarrow> (nat \<times> 'c \<times> 'r) list \<Rightarrow> ('c \<times> 'r) list" where
  "events_of i tr = map snd (filter (\<lambda>e. fst e = i) tr)"

lemma events_of_simps [simp]:
  "events_of i [] = []"
  "events_of i (tr @ [(j, c, r)]) = (if j = i then events_of i tr @ [(c, r)] else events_of i tr)"
  by (simp_all add: events_of_def)

lemma steps_length: "steps exec drift (ts, s) tr (ts', s') \<Longrightarrow> length ts' = length ts"
  by (induction "(ts, s)" tr "(ts', s')" arbitrary: ts' s' rule: steps.induct) auto

lemma steps_feed:
  "steps exec drift (ts, s) tr (ts', s') \<Longrightarrow> i < length ts \<Longrightarrow> feed (ts ! i) (events_of i tr) = Some (ts' ! i)"
proof (induction "(ts, s)" tr "(ts', s')" arbitrary: ts' s' rule: steps.induct)
  case (steps_call tr ts1 s1 j c k r s2)
  have len: "length ts1 = length ts" using steps_length [OF steps_call.hyps(1)] by simp
  show ?case
  proof (cases "j = i")
    case True
    then have "feed (ts ! i) (events_of i tr) = Some (Call c k)" using steps_call by simp
    then show ?thesis using feed_snoc True steps_call.prems len by fastforce
  next
    case False
    then show ?thesis using steps_call by simp
  qed
qed auto

text \<open>A handler running alone is one of the interleavings.\<close>

lemma steps_trans:
  "steps exec drift st2 tr2 st3 \<Longrightarrow> steps exec drift st1 tr1 st2 \<Longrightarrow> steps exec drift st1 (tr1 @ tr2) st3"
  by (induction rule: steps.induct)
     (auto simp flip: append_assoc intro: steps.intros)

lemma run_steps:
  "\<exists>tr. steps exec drift ([m], s) tr ([Ret (fst (run exec m s))], snd (run exec m s))"
proof (induction m arbitrary: s)
  case (Ret x)
  then show ?case by (auto intro: steps_refl)
next
  case (Call c k)
  obtain r s' where e: "exec c s = (r, s')" by force
  have "steps exec drift ([Call c k], s) ([] @ [(0, c, r)]) ([Call c k][0 := k r], s')"
    using e by (intro steps_call) (auto intro: steps_refl)
  moreover obtain tr where "steps exec drift ([k r], s') tr ([Ret (fst (run exec (k r) s'))], snd (run exec (k r) s'))"
    using Call.IH [OF rangeI] by blast
  ultimately show ?case using steps_trans e by fastforce
qed

text \<open>Invariants of the shared state, and bounds on how often an event may occur.\<close>

lemma steps_invariant:
  assumes "steps exec drift (ts, s) tr (ts', s')" and "I s"
    and "\<And>c s r s'. exec c s = (r, s') \<Longrightarrow> I s \<Longrightarrow> I s'" and "\<And>s s'. drift s s' \<Longrightarrow> I s \<Longrightarrow> I s'"
  shows "I s'"
  using assms(1,2)
  by (induction "(ts, s)" tr "(ts', s')" arbitrary: ts' s' rule: steps.induct) (auto dest: assms(3,4))

text \<open>
  A token argument: if a state holds at most \<open>tokens s\<close> tokens, no step creates one, and every good
  event uses one up, then there are at most \<open>tokens s\<close> good events.
\<close>

lemma steps_tokens:
  fixes tokens :: "'s \<Rightarrow> nat"
  assumes "steps exec drift (ts, s) tr (ts', s')"
    and "\<And>c s r s'. exec c s = (r, s') \<Longrightarrow> allowed c \<Longrightarrow> (if good c r then 1 else 0) + tokens s' \<le> tokens s"
    and "\<And>s s'. drift s s' \<Longrightarrow> tokens s' \<le> tokens s"
    and "\<And>i c r. (i, c, r) \<in> set tr \<Longrightarrow> allowed c"
  shows "length (filter (\<lambda>(i, c, r). good c r) tr) + tokens s' \<le> tokens s"
  using assms(1,4)
proof (induction "(ts, s)" tr "(ts', s')" arbitrary: ts' s' rule: steps.induct)
  case (steps_drift tr ts1 s1 s2)
  then have "length (filter (\<lambda>(i, c, r). good c r) tr) + tokens s1 \<le> tokens s" by blast
  with assms(3) [OF steps_drift.hyps(3)] show ?case by linarith
next
  case (steps_call tr ts1 s1 j c k r s2)
  have "length (filter (\<lambda>(i, c, r). good c r) tr) + tokens s1 \<le> tokens s"
    by (rule steps_call.hyps(2)) (auto intro: steps_call.prems)
  moreover have "allowed c" by (rule steps_call.prems [of j c r]) simp
  ultimately show ?case using assms(2) [OF steps_call.hyps(5)] by (auto split: if_splits)
qed simp

text \<open>
  Each handler that comes to a given kind of end has made a good call of its own, so there are at most
  as many such handlers as good calls.
\<close>

lemma events_of_in: "(c, r) \<in> set (events_of i tr) \<Longrightarrow> (i, c, r) \<in> set tr"
  by (force simp: events_of_def)

lemma handlers_le_events:
  assumes "\<And>i. i < n \<Longrightarrow> P i \<Longrightarrow> \<exists>c r. (c, r) \<in> set (events_of i tr) \<and> good c r"
  shows "card {i. i < n \<and> P i} \<le> length (filter (\<lambda>(i, c, r). good c r) tr)"
proof -
  let ?good = "filter (\<lambda>(i, c, r). good c r) tr"
  have "{i. i < n \<and> P i} \<subseteq> fst ` set ?good"
  proof
    fix i
    assume "i \<in> {i. i < n \<and> P i}"
    then obtain c r where "(c, r) \<in> set (events_of i tr)" and good: "good c r" using assms by blast
    then have "(i, c, r) \<in> set tr" by (simp add: events_of_in)
    with good have "(i, c, r) \<in> set ?good" by simp
    then show "i \<in> fst ` set ?good" by force
  qed
  then have "card {i. i < n \<and> P i} \<le> card (fst ` set ?good)" by (intro card_mono) auto
  also have "\<dots> \<le> card (set ?good)" by (rule card_image_le) simp
  also have "\<dots> \<le> length ?good" by (rule card_length)
  finally show ?thesis .
qed

text \<open>Every call in an interleaving is one some handler makes for some replies.\<close>

lemma feed_calls_subset:
  assumes "feed m lg = Some m'" and "(c, r) \<in> set lg"
  shows "\<exists>lg' f. feed m lg' = Some (Call c f)"
  using assms
proof (induction m arbitrary: lg)
  case (Call c0 f0)
  then obtain r0 rest where lg: "lg = (c0, r0) # rest" and rest: "feed (f0 r0) rest = Some m'"
    by (auto split: list.splits if_splits prod.splits)
  show ?case
  proof (cases "(c, r) = (c0, r0)")
    case True
    then show ?thesis by (intro exI [of _ "[]"] exI [of _ f0]) simp
  next
    case False
    then have "(c, r) \<in> set rest" using Call.prems(2) lg by auto
    then obtain lg' f where "feed (f0 r0) lg' = Some (Call c f)"
      using Call.IH [OF rangeI rest] by blast
    then show ?thesis by (intro exI [of _ "(c0, r0) # lg'"] exI [of _ f]) simp
  qed
qed (simp split: if_splits)

lemma steps_calls:
  assumes "steps exec drift (ts, s) tr (ts', s')" and "(i, c, r) \<in> set tr"
  shows "i < length ts \<and> (\<exists>lg f. feed (ts ! i) lg = Some (Call c f))"
  using assms
proof (induction "(ts, s)" tr "(ts', s')" arbitrary: ts' s' rule: steps.induct)
  case (steps_call tr ts1 s1 j c' k r' s2)
  show ?case
  proof (cases "(i, c, r) \<in> set tr")
    case False
    then have e: "j = i" "c' = c" using steps_call.prems by auto
    have i: "i < length ts" using steps_length [OF steps_call.hyps(1)] steps_call.hyps(3) e by simp
    then have "feed (ts ! i) (events_of i tr) = Some (ts1 ! i)"
      using steps_feed [OF steps_call.hyps(1)] by blast
    then show ?thesis using i steps_call.hyps(4) e by auto
  qed (use steps_call in blast)
qed auto

lemma feed_then_Call:
  assumes "feed (prog_then m f) lg = Some (Call c k)"
  shows "(\<exists>lg k'. feed m lg = Some (Call c k')) \<or> (\<exists>x lg. feed (f x) lg = Some (Call c k))"
  using feed_bind_Call [OF assms [unfolded prog_then_def]]
  by (fastforce split: sum.splits if_splits)

text \<open>The calls a handler may make, as a set closed under the handler's structure.\<close>

definition calls_in :: "'c set \<Rightarrow> ('c, 'r, 'a) prog \<Rightarrow> bool" where
  "calls_in C m = (\<forall>lg c k. feed m lg = Some (Call c k) \<longrightarrow> c \<in> C)"

lemma calls_in_Ret [simp]: "calls_in C (Ret x)"
  by (simp add: calls_in_def)

lemma calls_in_Call: "calls_in C (Call c k) \<longleftrightarrow> c \<in> C \<and> (\<forall>r. calls_in C (k r))"
proof
  assume l: "calls_in C (Call c k)"
  have "feed (Call c k) [] = Some (Call c k)" by simp
  then have "c \<in> C" using l unfolding calls_in_def by blast
  moreover have "calls_in C (k r)" for r
    unfolding calls_in_def
  proof (intro allI impI)
    fix lg c' k'
    assume "feed (k r) lg = Some (Call c' k')"
    then have "feed (Call c k) ((c, r) # lg) = Some (Call c' k')" by simp
    then show "c' \<in> C" using l unfolding calls_in_def by blast
  qed
  ultimately show "c \<in> C \<and> (\<forall>r. calls_in C (k r))" by blast
next
  assume r: "c \<in> C \<and> (\<forall>r. calls_in C (k r))"
  show "calls_in C (Call c k)"
    unfolding calls_in_def
  proof (intro allI impI)
    fix lg c' k'
    assume f: "feed (Call c k) lg = Some (Call c' k')"
    show "c' \<in> C"
    proof (cases lg)
      case Nil
      then show ?thesis using f r by simp
    next
      case (Cons e rest)
      then obtain x where "feed (k x) rest = Some (Call c' k')"
        using f by (cases e) (auto split: if_splits)
      then show ?thesis using r unfolding calls_in_def by blast
    qed
  qed
qed

lemma calls_in_then: "calls_in C m \<Longrightarrow> (\<And>x. calls_in C (f x)) \<Longrightarrow> calls_in C (prog_then m f)"
  using feed_then_Call unfolding calls_in_def by meson

lemma calls_in_bind: "calls_in C m \<Longrightarrow> (\<And>x. calls_in C (f x)) \<Longrightarrow> calls_in C (prog_bind m f)"
  using feed_bind_Call unfolding calls_in_def by meson

lemma calls_in_feed: "calls_in C m \<Longrightarrow> feed m lg = Some (Call c k) \<Longrightarrow> c \<in> C"
  unfolding calls_in_def by blast

text \<open>A given schedule: one call of the named handler at a time.\<close>

definition schedule_one :: "('c, 'r, 's) service \<Rightarrow> nat \<Rightarrow> ('c, 'r, 'a) prog list \<times> 's \<Rightarrow> ('c, 'r, 'a) prog list \<times> 's" where
  "schedule_one exec i st =
     (if i < length (fst st) then
        (case fst st ! i of
           Ret x \<Rightarrow> st
         | Call c k \<Rightarrow> (case exec c (snd st) of (r, s') \<Rightarrow> ((fst st)[i := k r], s')))
      else st)"

definition schedule :: "('c, 'r, 's) service \<Rightarrow> nat list \<Rightarrow> ('c, 'r, 'a) prog list \<times> 's \<Rightarrow> ('c, 'r, 'a) prog list \<times> 's" where
  "schedule exec is st = foldl (\<lambda>st i. schedule_one exec i st) st is"

lemma schedule_one_steps: "\<exists>tr. steps exec drift st tr (schedule_one exec i st)"
proof (cases "i < length (fst st)")
  case True
  obtain ts s where st: "st = (ts, s)" by force
  show ?thesis
  proof (cases "ts ! i")
    case (Call c k)
    obtain r s' where e: "exec c s = (r, s')" by force
    have "steps exec drift (ts, s) ([] @ [(i, c, r)]) (ts[i := k r], s')"
      using True st Call e by (intro steps_call) (auto intro: steps_refl)
    then show ?thesis using True st Call e by (auto simp: schedule_one_def)
  qed (use True st in \<open>auto simp: schedule_one_def intro: steps_refl\<close>)
qed (cases st, auto simp: schedule_one_def intro: steps_refl)

lemma schedule_steps: "\<exists>tr. steps exec drift st tr (schedule exec is st)"
proof (induction "is" arbitrary: st)
  case Nil
  then show ?case by (cases st) (auto simp: schedule_def intro: steps_refl)
next
  case (Cons i "is")
  obtain tr1 where "steps exec drift st tr1 (schedule_one exec i st)" using schedule_one_steps by blast
  moreover obtain tr2 where "steps exec drift (schedule_one exec i st) tr2 (schedule exec is (schedule_one exec i st))"
    using Cons.IH by blast
  ultimately have "steps exec drift st (tr1 @ tr2) (schedule exec is (schedule_one exec i st))"
    by (metis steps_trans)
  then show ?case by (auto simp: schedule_def)
qed

end
