(* ===== verification/Redis.thy ===== *)
theory Redis
  imports Service_Prog Js_Map Js_Rounding
begin

text \<open>
  The Redis commands the API issues, and what it relies on of them. Redis is not part of the
  repository: the interpreter of the commands is a parameter \<open>exec\<close>, and \<open>redis_ok exec view\<close> states the
  documented effect of each command on \<open>view\<close>, the live keys with their values and remaining
  lifetimes. A command may fail, before or after it took effect. The two Lua scripts of the repository
  are programs over the commands that the server runs atomically.

  \<open>mem_exec\<close> is a concrete store that meets the laws; the witnesses use it.
\<close>

datatype redis_cmd =
    RGet string
  | RSet string string "int option"
  | RDel string
  | RIncr string
  | RExpire string int
  | RTtl string

datatype redis_reply =
    RErr string
  | RNil
  | RStr string
  | RInt int
  | ROk
  | RPair int int

type_synonym 's redis = "(redis_cmd, redis_reply, 's) service"

type_synonym redis_view = "string \<Rightarrow> (string \<times> int option) option"

section \<open>Documented behaviour\<close>

definition counter_next :: "(string \<times> int option) option \<Rightarrow> int option" where
  "counter_next e = (case e of None \<Rightarrow> Some 1 | Some (v, _) \<Rightarrow> map_option (\<lambda>n. n + 1) (bigint_of_string v))"

text \<open>The view after a command that took effect, and its reply.\<close>

fun redis_effect :: "redis_cmd \<Rightarrow> redis_view \<Rightarrow> redis_reply \<times> redis_view" where
  "redis_effect (RGet k) V = ((case V k of None \<Rightarrow> RNil | Some (v, _) \<Rightarrow> RStr v), V)"
| "redis_effect (RSet k v ttl) V = (ROk, V(k \<mapsto> (v, ttl)))"
| "redis_effect (RDel k) V = (RInt (if V k = None then 0 else 1), V(k := None))"
| "redis_effect (RIncr k) V =
     (case counter_next (V k) of
        None \<Rightarrow> (RErr ''ERR value is not an integer'', V)
      | Some n \<Rightarrow> (RInt n, V(k \<mapsto> (show_int n, Option.bind (V k) snd))))"
| "redis_effect (RExpire k n) V =
     (case V k of None \<Rightarrow> (RInt 0, V) | Some (v, _) \<Rightarrow> (RInt 1, V(k \<mapsto> (v, Some n))))"
| "redis_effect (RTtl k) V =
     (RInt (case V k of None \<Rightarrow> - 2 | Some (_, None) \<Rightarrow> - 1 | Some (_, Some t) \<Rightarrow> t), V)"

definition redis_ok :: "'s redis \<Rightarrow> ('s \<Rightarrow> redis_view) \<Rightarrow> bool" where
  "redis_ok exec view =
     (\<forall>c s r s'. exec c s = (r, s') \<longrightarrow>
        (r, view s') = redis_effect c (view s) \<or>
        (\<exists>e. r = RErr e \<and> (view s' = view s \<or> view s' = snd (redis_effect c (view s)))))"

text \<open>Time passing: keys expire and lifetimes shrink, nothing appears and no value changes.\<close>

definition redis_drift :: "('s \<Rightarrow> redis_view) \<Rightarrow> 's \<Rightarrow> 's \<Rightarrow> bool" where
  "redis_drift view s s' =
     (\<forall>k v t'. view s' k = Some (v, t') \<longrightarrow>
        (\<exists>t. view s k = Some (v, t) \<and> (case t of None \<Rightarrow> t' = None | Some n \<Rightarrow> \<exists>n'. t' = Some n' \<and> n' \<le> n)))"

lemma redis_okD:
  assumes "redis_ok exec view" and "exec c s = (r, s')"
  obtains (applied) "(r, view s') = redis_effect c (view s)"
  | (failed) e where "r = RErr e" and "view s' = view s \<or> view s' = snd (redis_effect c (view s))"
  using assms unfolding redis_ok_def by blast

lemma redis_ok_view:
  assumes "redis_ok exec view" and "exec c s = (r, s')"
  shows "view s' = view s \<or> view s' = snd (redis_effect c (view s))"
  using assms
proof (cases rule: redis_okD)
  case applied
  then show ?thesis by (metis snd_conv)
qed simp

lemma redis_ok_reply:
  assumes "redis_ok exec view" and "exec c s = (r, s')" and "\<And>e. r \<noteq> RErr e"
  shows "(r, view s') = redis_effect c (view s)"
  using assms(1,2)
proof (cases rule: redis_okD)
  case applied
  then show ?thesis .
qed (use assms(3) in simp)

lemma redis_drift_value:
  "redis_drift view s s' \<Longrightarrow> view s' k = Some (v, t') \<Longrightarrow> \<exists>t. view s k = Some (v, t)"
  unfolding redis_drift_def by blast

section \<open>A concrete store\<close>

text \<open>An association list from keys to values and lifetimes; commands never fail.\<close>

type_synonym mem_redis = "(string, string \<times> int option) js_map"

definition mem_view :: "mem_redis \<Rightarrow> redis_view" where
  "mem_view m = jm_get m"

fun mem_exec :: "mem_redis redis" where
  "mem_exec (RGet k) m = ((case jm_get m k of None \<Rightarrow> RNil | Some (v, _) \<Rightarrow> RStr v), m)"
| "mem_exec (RSet k v ttl) m = (ROk, jm_set m k (v, ttl))"
| "mem_exec (RDel k) m = (RInt (if jm_get m k = None then 0 else 1), jm_delete m k)"
| "mem_exec (RIncr k) m =
     (case counter_next (jm_get m k) of
        None \<Rightarrow> (RErr ''ERR value is not an integer'', m)
      | Some n \<Rightarrow> (RInt n, jm_set m k (show_int n, Option.bind (jm_get m k) snd)))"
| "mem_exec (RExpire k n) m =
     (case jm_get m k of None \<Rightarrow> (RInt 0, m) | Some (v, _) \<Rightarrow> (RInt 1, jm_set m k (v, Some n)))"
| "mem_exec (RTtl k) m =
     (RInt (case jm_get m k of None \<Rightarrow> - 2 | Some (_, None) \<Rightarrow> - 1 | Some (_, Some t) \<Rightarrow> t), m)"

lemma mem_view_set [simp]: "mem_view (jm_set m k v) = (mem_view m)(k \<mapsto> v)"
  by (rule ext) (simp add: mem_view_def)

lemma mem_view_delete [simp]: "mem_view (jm_delete m k) = (mem_view m)(k := None)"
  by (rule ext) (simp add: mem_view_def)

lemma mem_exec_effect: "mem_exec c m = (r, m') \<Longrightarrow> (r, mem_view m') = redis_effect c (mem_view m)"
  by (cases c) (auto simp: mem_view_def [symmetric] split: option.splits)

lemma mem_redis_ok: "redis_ok mem_exec mem_view"
  unfolding redis_ok_def using mem_exec_effect by blast

section \<open>Scripts\<close>

text \<open>
  What the API sends: a command, the nonce script of \<^verbatim>\<open>auth.service.ts\<close>, or the rate-limit script of
  \<^verbatim>\<open>cache.service.ts\<close>. A script runs its commands with no other client in between; a command that
  fails aborts it.
\<close>

datatype redis_call = Cmd redis_cmd | ConsumeNonce string string | RateWindow string int

definition CONSUME_NONCE_LUA :: "string \<Rightarrow> string \<Rightarrow> (redis_cmd, redis_reply, redis_reply) prog" where
  "CONSUME_NONCE_LUA key arg =
     Call (RGet key) (\<lambda>stored. case stored of
        RStr v \<Rightarrow> (if v \<noteq> arg then Ret (RInt 0)
          else Call (RDel key) (\<lambda>d. case d of RErr e \<Rightarrow> Ret (RErr e) | _ \<Rightarrow> Ret (RInt 1)))
      | RErr e \<Rightarrow> Ret (RErr e)
      | _ \<Rightarrow> Ret (RInt 0))"

definition RATE_WINDOW_LUA :: "string \<Rightarrow> int \<Rightarrow> (redis_cmd, redis_reply, redis_reply) prog" where
  "RATE_WINDOW_LUA key window =
     (let ttl_then = (\<lambda>current. Call (RTtl key) (\<lambda>t. case t of
            RInt ttl \<Rightarrow> Ret (RPair current ttl) | RErr e \<Rightarrow> Ret (RErr e) | _ \<Rightarrow> Ret (RPair current 0)))
      in Call (RIncr key) (\<lambda>r. case r of
           RInt current \<Rightarrow>
             (if current = 1 then
                Call (RExpire key window) (\<lambda>x. case x of RErr e \<Rightarrow> Ret (RErr e) | _ \<Rightarrow> ttl_then current)
              else ttl_then current)
         | RErr e \<Rightarrow> Ret (RErr e)
         | _ \<Rightarrow> Ret (RErr ''unexpected reply'')))"

fun redis_do :: "'s redis \<Rightarrow> (redis_call, redis_reply, 's) service" where
  "redis_do exec (Cmd c) s = exec c s"
| "redis_do exec (ConsumeNonce k v) s = run exec (CONSUME_NONCE_LUA k v) s"
| "redis_do exec (RateWindow k w) s = run exec (RATE_WINDOW_LUA k w) s"

text \<open>The nonce script succeeds only on a key that holds the value, and then removes it.\<close>

lemma consume_nonce_once:
  assumes "redis_ok exec view" and "redis_do exec (ConsumeNonce k v) s = (RInt 1, s')"
  shows "(\<exists>t. view s k = Some (v, t)) \<and> view s' k = None"
proof -
  obtain r1 s1 where get: "exec (RGet k) s = (r1, s1)" by force
  obtain r2 s2 where del: "exec (RDel k) s1 = (r2, s2)" by force
  have r1: "r1 = RStr v" and s': "s' = s2" and r2: "\<forall>e. r2 \<noteq> RErr e"
    using assms(2) get del
    by (auto simp: CONSUME_NONCE_LUA_def split: redis_reply.splits if_splits)
  from assms(1) get have "(\<exists>t. view s k = Some (v, t)) \<and> view s1 = view s"
    by (cases rule: redis_okD) (auto simp: r1 split: option.splits)
  moreover from assms(1) del have "view s2 k = None"
    by (cases rule: redis_okD) (use r2 in auto)
  ultimately show ?thesis using s' by simp
qed

text \<open>Only a SET of the value or an INCR of the key can bring a value to a key.\<close>

fun writes_value :: "string \<Rightarrow> string \<Rightarrow> redis_cmd \<Rightarrow> bool" where
  "writes_value k v (RSet k' v' _) = (k' = k \<and> v' = v)"
| "writes_value k v (RIncr k') = (k' = k)"
| "writes_value k v _ = False"

fun call_writes_value :: "string \<Rightarrow> string \<Rightarrow> redis_call \<Rightarrow> bool" where
  "call_writes_value k v (Cmd c) = writes_value k v c"
| "call_writes_value k v (ConsumeNonce _ _) = False"
| "call_writes_value k v (RateWindow k' _) = (k' = k)"

definition holds :: "('s \<Rightarrow> redis_view) \<Rightarrow> string \<Rightarrow> string \<Rightarrow> 's \<Rightarrow> bool" where
  "holds view k v s = (\<exists>t. view s k = Some (v, t))"

lemma effect_value:
  assumes "\<not> writes_value k v c" and "snd (redis_effect c V) k = Some (v, t)"
  shows "\<exists>t. V k = Some (v, t)"
  using assms by (cases c) (auto split: if_splits option.splits)

lemma exec_holds:
  assumes "redis_ok exec view" and "exec c s = (r, s')" and "\<not> writes_value k v c" and "holds view k v s'"
  shows "holds view k v s"
  using assms(1,2)
proof (cases rule: redis_okD)
  case applied
  then have "view s' = snd (redis_effect c (view s))" by (metis snd_conv)
  then show ?thesis using effect_value assms(3,4) unfolding holds_def by metis
next
  case (failed e)
  then show ?thesis using effect_value assms(3,4) unfolding holds_def by metis
qed

lemma run_holds:
  assumes "redis_ok exec view" and "holds view k v (snd (run exec m s))"
    and "\<And>lg c f. feed m lg = Some (Call c f) \<Longrightarrow> \<not> writes_value k v c"
  shows "holds view k v s"
  using assms(2,3)
proof (induction m arbitrary: s)
  case (Call c f)
  obtain r s1 where e: "exec c s = (r, s1)" by force
  have "holds view k v s1"
  proof (rule Call.IH [OF rangeI])
    show "holds view k v (snd (run exec (f r) s1))" using Call.prems(1) e by simp
    show "\<not> writes_value k v c'" if "feed (f r) lg = Some (Call c' f')" for lg c' f'
      using Call.prems(2) [of "(c, r) # lg" c' f'] that by simp
  qed
  moreover have "\<not> writes_value k v c" using Call.prems(2) [of "[]" c f] by simp
  ultimately show ?case using exec_holds [OF assms(1) e] by blast
qed simp

lemma consume_script_reads:
  "feed (CONSUME_NONCE_LUA k' v') lg = Some (Call c f) \<Longrightarrow> \<not> writes_value k v c"
  by (auto simp: CONSUME_NONCE_LUA_def split: list.splits if_splits prod.splits redis_reply.splits)

lemma rate_script_writes:
  "feed (RATE_WINDOW_LUA k' w) lg = Some (Call c f) \<Longrightarrow> k' \<noteq> k \<Longrightarrow> \<not> writes_value k v c"
  by (auto simp: RATE_WINDOW_LUA_def Let_def split: list.splits if_splits prod.splits redis_reply.splits)

lemma redis_do_holds:
  assumes "redis_ok exec view" and "redis_do exec c s = (r, s')" and "\<not> call_writes_value k v c"
    and "holds view k v s'"
  shows "holds view k v s"
proof (cases c)
  case (Cmd c')
  then show ?thesis using assms exec_holds by fastforce
next
  case (ConsumeNonce k' v')
  then have "holds view k v (snd (run exec (CONSUME_NONCE_LUA k' v') s))" using assms by simp
  then show ?thesis using run_holds [OF assms(1)] consume_script_reads by metis
next
  case (RateWindow k' w)
  then have "holds view k v (snd (run exec (RATE_WINDOW_LUA k' w) s))" using assms by simp
  then show ?thesis using run_holds [OF assms(1)] rate_script_writes RateWindow assms(3)
    by (metis call_writes_value.simps(3))
qed

text \<open>The token of a value: it is there once, a successful script takes it, nothing but a write restores it.\<close>

definition nonce_token :: "('s \<Rightarrow> redis_view) \<Rightarrow> string \<Rightarrow> string \<Rightarrow> 's \<Rightarrow> nat" where
  "nonce_token view k v s = (if holds view k v s then 1 else 0)"

lemma nonce_token_call:
  assumes "redis_ok exec view" and "redis_do exec c s = (r, s')" and "\<not> call_writes_value k v c"
  shows "(if c = ConsumeNonce k v \<and> r = RInt 1 then 1 else 0) + nonce_token view k v s' \<le> nonce_token view k v s"
proof (cases "c = ConsumeNonce k v \<and> r = RInt 1")
  case True
  then show ?thesis
    using consume_nonce_once [OF assms(1)] assms(2) by (auto simp: nonce_token_def holds_def)
next
  case False
  then show ?thesis using redis_do_holds [OF assms(1,2,3)] by (auto simp: nonce_token_def)
qed

lemma nonce_token_drift: "redis_drift view s s' \<Longrightarrow> nonce_token view k v s' \<le> nonce_token view k v s"
  using redis_drift_value by (fastforce simp: nonce_token_def holds_def)

lemma nonce_token_le: "nonce_token view k v s \<le> 1"
  by (simp add: nonce_token_def)

end
