(* ===== verification/Rate_Limit.thy ===== *)
theory Rate_Limit
  imports Redis Key_Ring Js_Text
begin

text \<open>
  The rate-limit middleware of \<^verbatim>\<open>apps/api/src/rate-limit/rate-limit.middleware.ts\<close>: which rules apply to
  a request, whom it is counted against, one \<^verbatim>\<open>hit\<close> on a counter (INCR, EXPIRE on the first, TTL), and
  the decision. Redis is the parameter of the theory \<^verbatim>\<open>Redis\<close>.
\<close>

section \<open>Requests, rules and answers\<close>

record rl_request =
  rq_method :: string
  rq_path :: string
  rq_originalUrl :: string
  rq_headers :: headers
  rq_ip :: "string option"
  rq_remoteAddress :: "string option"

record rl_rule =
  ru_name :: string
  ru_limit :: int
  ru_windowSeconds :: int

record rl_hit =
  hi_rule :: rl_rule
  hi_remaining :: int
  hi_resetSeconds :: int
  hi_exceeded :: bool

record rl_headers =
  xh_limit :: int
  xh_remaining :: int
  xh_reset :: int

datatype rl_answer =
    Next "rl_headers option"
  | Too_Many rl_headers string string
  | Unavailable string

section \<open>Paths\<close>

definition prefix_of :: "string \<Rightarrow> string \<Rightarrow> bool" where
  "prefix_of p s = (take (length p) s = p)"

definition unversionedPath :: "string \<Rightarrow> string" where
  "unversionedPath path =
     (let r = drop 2 path; rest = dropWhile is_digit r;
          p = (if prefix_of ''/v'' path \<and> rest \<noteq> r \<and> (rest = [] \<or> hd rest = CHR ''/'') then rest else path)
      in if p = [] then ''/'' else p)"

definition is_candles_path :: "string \<Rightarrow> bool" where
  "is_candles_path path = (case split_on (CHR ''/'') path of
     [e, prices, a, b, candles] \<Rightarrow> e = [] \<and> prices = ''prices'' \<and> a \<noteq> [] \<and> b \<noteq> [] \<and> candles = ''candles''
   | [e, prices, a, b, candles, t] \<Rightarrow> e = [] \<and> prices = ''prices'' \<and> a \<noteq> [] \<and> b \<noteq> [] \<and> candles = ''candles'' \<and> t = []
   | _ \<Rightarrow> False)"

definition is_ticks_path :: "string \<Rightarrow> bool" where
  "is_ticks_path path = (case split_on (CHR ''/'') path of
     [e, pools, a, ticks] \<Rightarrow> e = [] \<and> pools = ''pools'' \<and> a \<noteq> [] \<and> ticks = ''ticks''
   | [e, pools, a, ticks, t] \<Rightarrow> e = [] \<and> pools = ''pools'' \<and> a \<noteq> [] \<and> ticks = ''ticks'' \<and> t = []
   | _ \<Rightarrow> False)"

section \<open>Rules\<close>

definition envInt :: "env \<Rightarrow> string \<Rightarrow> int \<Rightarrow> int" where
  "envInt env name fallback =
     (case parse_int10 (case env name of Some s \<Rightarrow> s | None \<Rightarrow> []) of
        Fin x \<Rightarrow> if 0 < x then \<lfloor>x\<rfloor> else fallback
      | _ \<Rightarrow> fallback)"

definition mk_rl_rule :: "env \<Rightarrow> bool \<Rightarrow> string \<Rightarrow> string \<Rightarrow> int \<Rightarrow> int \<Rightarrow> rl_rule" where
  "mk_rl_rule env internal name variable internal_default public_default =
     \<lparr>ru_name = (if internal then ''internal-'' @ name else name),
      ru_limit = (if internal then envInt env (''INTERNAL_'' @ variable) internal_default
                  else envInt env variable public_default),
      ru_windowSeconds = 60\<rparr>"

definition endpointRuleFor :: "env \<Rightarrow> rl_request \<Rightarrow> bool \<Rightarrow> rl_rule option" where
  "endpointRuleFor env req internal =
     (let path = unversionedPath (rq_path req) in
      if is_candles_path path then Some (mk_rl_rule env internal ''candles'' ''CANDLE_RATE_LIMIT_PER_MINUTE'' 240 60)
      else if rq_method req = ''POST'' \<and> path = ''/auth/nonce'' then
        Some (mk_rl_rule env internal ''auth-nonce'' ''NONCE_RATE_LIMIT_PER_MINUTE'' 30 5)
      else if prefix_of ''/auth'' path then Some (mk_rl_rule env internal ''auth'' ''AUTH_RATE_LIMIT_PER_MINUTE'' 60 10)
      else if path = ''/transactions'' \<and> rq_method req = ''POST'' then
        Some (mk_rl_rule env internal ''transactions'' ''TRANSACTION_RATE_LIMIT_PER_MINUTE'' 120 20)
      else if is_ticks_path path then Some (mk_rl_rule env internal ''ticks'' ''TICKS_RATE_LIMIT_PER_MINUTE'' 120 30)
      else None)"

definition routeBucketFor :: "rl_request \<Rightarrow> string" where
  "routeBucketFor req =
     (let path = unversionedPath (rq_path req) in
      if is_candles_path path then ''prices-candles''
      else if rq_method req = ''POST'' \<and> path = ''/auth/nonce'' then ''auth-nonce''
      else if prefix_of ''/auth'' path then ''auth''
      else if path = ''/transactions'' then ''transactions''
      else if is_ticks_path path then ''pools-ticks''
      else ''global'')"

text \<open>The slot a request's internal key matches; the clock and the digest are arguments.\<close>

record rl_context =
  cx_env :: env
  cx_digest :: "string \<Rightarrow> string"
  cx_date_parse :: "string \<Rightarrow> int option"
  cx_now_ms :: int
  cx_connected :: bool

definition internalSlot :: "rl_context \<Rightarrow> rl_request \<Rightarrow> key_slot option" where
  "internalSlot cx req =
     (case matchKeyRing (cx_digest cx) (rq_headers req ''x-internal-key'')
             (loadKeyRing (cx_date_parse cx) INTERNAL_API_KEY (cx_env cx)) (cx_now_ms cx) of
        Ring_Ok slot \<Rightarrow> Some slot | Ring_Denied _ \<Rightarrow> None)"

definition identityFor :: "rl_context \<Rightarrow> rl_request \<Rightarrow> string" where
  "identityFor cx req =
     (case internalSlot cx req of
        Some slot \<Rightarrow> ''internal:'' @ slot_label slot
      | None \<Rightarrow>
          (case rq_headers req ''x-forwarded-for'' of
             Some (HStr (c # cs)) \<Rightarrow> trim (hd (split_on (CHR '','') (c # cs)))
           | _ \<Rightarrow> (case rq_ip req of Some a \<Rightarrow> a
                | None \<Rightarrow> (case rq_remoteAddress req of Some a \<Rightarrow> a | None \<Rightarrow> ''unknown''))))"

definition rulesFor :: "rl_context \<Rightarrow> rl_request \<Rightarrow> rl_rule list" where
  "rulesFor cx req =
     (let internal = (internalSlot cx req \<noteq> None)
      in mk_rl_rule (cx_env cx) internal ''global'' ''RATE_LIMIT_PER_MINUTE'' 1200 300 #
         (case endpointRuleFor (cx_env cx) req internal of Some r \<Rightarrow> [r] | None \<Rightarrow> []))"

definition publicRuleFor :: "rl_context \<Rightarrow> rl_request \<Rightarrow> rl_rule" where
  "publicRuleFor cx req =
     (case endpointRuleFor (cx_env cx) req False of
        Some r \<Rightarrow> r
      | None \<Rightarrow> mk_rl_rule (cx_env cx) False ''global'' ''RATE_LIMIT_PER_MINUTE'' 1200 300)"

section \<open>Hits\<close>

definition hit_key :: "rl_rule \<Rightarrow> string \<Rightarrow> string \<Rightarrow> string" where
  "hit_key rule identity bucket = ''rate-limit:'' @ ru_name rule @ '':'' @ identity @ '':'' @ bucket"

definition hit_result :: "rl_rule \<Rightarrow> int \<Rightarrow> redis_reply \<Rightarrow> (redis_call, redis_reply, string + rl_hit) prog" where
  "hit_result rule hits r =
     (case r of
        RErr e \<Rightarrow> Ret (Inl e)
      | _ \<Rightarrow> (let ttl = (case r of RInt t \<Rightarrow> t | _ \<Rightarrow> 0) in
          Ret (Inr \<lparr>hi_rule = rule, hi_remaining = max (ru_limit rule - hits) 0,
            hi_resetSeconds = (if 0 < ttl then ttl else ru_windowSeconds rule),
            hi_exceeded = (ru_limit rule < hits)\<rparr>)))"

definition hit :: "rl_rule \<Rightarrow> string \<Rightarrow> string \<Rightarrow> (redis_call, redis_reply, string + rl_hit) prog" where
  "hit rule identity bucket =
     (let key = hit_key rule identity bucket in
      Call (Cmd (RIncr key)) (\<lambda>r. case r of
        RInt hits \<Rightarrow>
          (if hits = 1 then
             Call (Cmd (RExpire key (ru_windowSeconds rule))) (\<lambda>x. case x of
               RErr e \<Rightarrow> Ret (Inl e) | _ \<Rightarrow> Call (Cmd (RTtl key)) (hit_result rule hits))
           else Call (Cmd (RTtl key)) (hit_result rule hits))
      | RErr e \<Rightarrow> Ret (Inl e)
      | _ \<Rightarrow> Ret (Inl ''unexpected reply'')))"

text \<open>
  \<^verbatim>\<open>Promise.all\<close>: every hit is started, and one that fails does not stop the others; the calls of
  different hits concern different keys, so their order does not matter.
\<close>

fun all_hits :: "rl_rule list \<Rightarrow> string \<Rightarrow> string \<Rightarrow> (redis_call, redis_reply, string + rl_hit list) prog" where
  "all_hits [] identity bucket = Ret (Inr [])"
| "all_hits (rule # rules) identity bucket =
     prog_bind (hit rule identity bucket) (\<lambda>h.
     prog_bind (all_hits rules identity bucket) (\<lambda>hs.
     Ret (case h of Inl e \<Rightarrow> Inl e | Inr x \<Rightarrow> (case hs of Inl e \<Rightarrow> Inl e | Inr xs \<Rightarrow> Inr (x # xs)))))"

definition effectiveHit :: "rl_hit list \<Rightarrow> rl_hit" where
  "effectiveHit hits =
     (case filter hi_exceeded hits of
        h # _ \<Rightarrow> h
      | [] \<Rightarrow> foldl (\<lambda>lowest h. if hi_remaining h < hi_remaining lowest then h else lowest) (hd hits) (tl hits))"

definition rl_set_headers :: "int \<Rightarrow> rl_rule \<Rightarrow> int \<Rightarrow> int \<Rightarrow> rl_headers" where
  "rl_set_headers now_ms rule remaining resetSeconds =
     \<lparr>xh_limit = ru_limit rule, xh_remaining = remaining,
      xh_reset = - (- now_ms div 1000) + resetSeconds\<rparr>"

definition handleRedisUnavailable :: "rl_context \<Rightarrow> rl_request \<Rightarrow> rl_answer" where
  "handleRedisUnavailable cx req =
     (if cx_env cx ''NODE_ENV'' \<noteq> Some ''production''
      then Next (Some (rl_set_headers (cx_now_ms cx) (publicRuleFor cx req) 0 0))
      else Unavailable (if rq_originalUrl req = [] then rq_path req else rq_originalUrl req))"

text \<open>The answer once all hits are in.\<close>

definition rate_limit_answer :: "rl_context \<Rightarrow> rl_request \<Rightarrow> string + rl_hit list \<Rightarrow> rl_answer" where
  "rate_limit_answer cx req hits =
     (case hits of
        Inl e \<Rightarrow> handleRedisUnavailable cx req
      | Inr hs \<Rightarrow>
          (let h = effectiveHit hs;
               headers = rl_set_headers (cx_now_ms cx) (hi_rule h) (hi_remaining h) (hi_resetSeconds h)
           in if hi_exceeded h then
                Too_Many headers (show_int (hi_resetSeconds h))
                  (if rq_originalUrl req = [] then rq_path req else rq_originalUrl req)
              else Next (Some headers)))"

definition rate_limit_use :: "rl_context \<Rightarrow> rl_request \<Rightarrow> (redis_call, redis_reply, rl_answer) prog" where
  "rate_limit_use cx req =
     (if rq_path req = ''/health'' \<or> prefix_of ''/metrics'' (rq_path req) then Ret (Next None)
      else if \<not> cx_connected cx then Ret (handleRedisUnavailable cx req)
      else prog_bind (all_hits (rulesFor cx req) (identityFor cx req) (routeBucketFor req))
        (\<lambda>hits. Ret (rate_limit_answer cx req hits)))"

end
