(* ===== verification/Rate_Limit_Laws.thy ===== *)
theory Rate_Limit_Laws
  imports Rate_Limit
begin

text \<open>
  Properties of the rate limiter of \<^verbatim>\<open>Rate_Limit\<close>, for any interleaving of requests: no more requests than
  the limit pass while a counter lives, production fails closed, and a counter that lost its expiry
  blocks its caller for good.
\<close>

section \<open>What a request does\<close>

lemma feed_hit_Ret:
  assumes "feed (hit rule identity bucket) lg = Some (Ret (Inr h))"
  shows "hi_rule h = rule \<and>
    (\<exists>n. (Cmd (RIncr (hit_key rule identity bucket)), RInt n) \<in> set lg \<and> (hi_exceeded h \<longleftrightarrow> ru_limit rule < n))"
  using assms
  by (auto simp: hit_def hit_result_def Let_def
      split: list.splits prod.splits if_splits redis_reply.splits)

lemma feed_hit_Call:
  assumes "feed (hit rule identity bucket) lg = Some (Call c f)"
  shows "\<exists>n. c \<in> {Cmd (RIncr (hit_key rule identity bucket)), Cmd (RTtl (hit_key rule identity bucket)),
    Cmd (RExpire (hit_key rule identity bucket) n)}"
  using assms
  by (auto simp: hit_def hit_result_def Let_def
      split: list.splits prod.splits if_splits redis_reply.splits)

lemma feed_all_hits_Ret:
  assumes "feed (all_hits rules identity bucket) lg = Some (Ret (Inr hs))"
  shows "map hi_rule hs = rules \<and>
    (\<forall>h \<in> set hs. \<exists>n. (Cmd (RIncr (hit_key (hi_rule h) identity bucket)), RInt n) \<in> set lg \<and>
       (hi_exceeded h \<longleftrightarrow> ru_limit (hi_rule h) < n))"
  using assms
proof (induction rules arbitrary: lg hs)
  case (Cons rule rules)
  from feed_bind_Ret [OF Cons.prems [unfolded all_hits.simps]] obtain x lg1 lg2 where
    lg: "lg = lg1 @ lg2" and h: "feed (hit rule identity bucket) lg1 = Some (Ret x)" and
    rest: "feed (prog_bind (all_hits rules identity bucket) (\<lambda>hs. Ret (case x of Inl e \<Rightarrow> Inl e
        | Inr x \<Rightarrow> (case hs of Inl e \<Rightarrow> Inl e | Inr xs \<Rightarrow> Inr (x # xs))))) lg2 = Some (Ret (Inr hs))"
    by blast
  from feed_bind_Ret [OF rest] obtain y lg3 lg4 where
    lg2: "lg2 = lg3 @ lg4" and tl: "feed (all_hits rules identity bucket) lg3 = Some (Ret y)" and
    eq: "feed (Ret (case x of Inl e \<Rightarrow> Inl e
        | Inr x \<Rightarrow> (case y of Inl e \<Rightarrow> Inl e | Inr xs \<Rightarrow> Inr (x # xs)))) lg4 = Some (Ret (Inr hs))"
    by blast
  obtain h hs' where "x = Inr h" "y = Inr hs'" "hs = h # hs'"
    using eq by (auto split: sum.splits if_splits)
  then show ?case using feed_hit_Ret [of rule identity bucket lg1 h] h Cons.IH [of lg3 hs'] tl lg lg2
    by auto
qed (simp split: if_splits)

lemma foldl_lowest_in:
  "foldl (\<lambda>lowest h. if hi_remaining h < hi_remaining lowest then h else lowest) x hs \<in> insert x (set hs)"
proof (induction hs arbitrary: x)
  case (Cons h hs)
  have "foldl (\<lambda>lowest h. if hi_remaining h < hi_remaining lowest then h else lowest) x (h # hs)
      \<in> insert (if hi_remaining h < hi_remaining x then h else x) (set hs)"
    using Cons.IH by simp
  then show ?case by (auto split: if_splits)
qed simp

lemma effectiveHit_in: "hs \<noteq> [] \<Longrightarrow> effectiveHit hs \<in> set hs"
proof (cases "filter hi_exceeded hs")
  case Nil
  assume "hs \<noteq> []"
  then show ?thesis using Nil foldl_lowest_in [of "hd hs" "tl hs"] by (cases hs) (simp_all add: effectiveHit_def)
next
  case (Cons h t)
  then have "h \<in> set (filter hi_exceeded hs)" by (metis list.set_intros(1))
  then have "h \<in> set hs" by (simp only: set_filter mem_Collect_eq)
  then show ?thesis using Cons by (simp add: effectiveHit_def)
qed

lemma effectiveHit_exceeded:
  assumes "hs \<noteq> []"
  shows "hi_exceeded (effectiveHit hs) \<longleftrightarrow> (\<exists>h \<in> set hs. hi_exceeded h)"
proof (cases "filter hi_exceeded hs")
  case Nil
  then have "\<forall>h \<in> set hs. \<not> hi_exceeded h" by (simp add: filter_empty_conv)
  then show ?thesis using effectiveHit_in [OF assms] by blast
next
  case (Cons h t)
  then have "h \<in> set (filter hi_exceeded hs)" by (metis list.set_intros(1))
  then have "hi_exceeded h" "\<exists>h \<in> set hs. hi_exceeded h" by auto
  then show ?thesis using Cons by (simp add: effectiveHit_def)
qed

definition bypass :: "rl_request \<Rightarrow> bool" where
  "bypass req = (rq_path req = ''/health'' \<or> prefix_of ''/metrics'' (rq_path req))"

definition production :: "rl_context \<Rightarrow> bool" where
  "production cx = (cx_env cx ''NODE_ENV'' = Some ''production'')"

lemma rulesFor_nonempty: "rulesFor cx req \<noteq> []"
  by (simp add: rulesFor_def Let_def)

text \<open>A request that passes in production was counted, within the limit, on each of its rules.\<close>

lemma passed_was_counted:
  assumes "feed (rate_limit_use cx req) lg = Some (Ret (Next xh))" and "production cx" and "\<not> bypass req"
    and "rule \<in> set (rulesFor cx req)"
  shows "\<exists>n. (Cmd (RIncr (hit_key rule (identityFor cx req) (routeBucketFor req))), RInt n) \<in> set lg \<and>
    n \<le> ru_limit rule"
proof -
  have c: "cx_connected cx"
    using assms(1-3)
    by (auto simp: rate_limit_use_def bypass_def production_def handleRedisUnavailable_def split: if_splits)
  have "feed (prog_bind (all_hits (rulesFor cx req) (identityFor cx req) (routeBucketFor req))
      (\<lambda>hits. Ret (rate_limit_answer cx req hits))) lg = Some (Ret (Next xh))"
    using assms c by (simp add: rate_limit_use_def bypass_def)
  from feed_bind_Ret [OF this] obtain x lg1 lg2 where lg: "lg = lg1 @ lg2"
    and hits: "feed (all_hits (rulesFor cx req) (identityFor cx req) (routeBucketFor req)) lg1 = Some (Ret x)"
    and fin: "feed (Ret (rate_limit_answer cx req x)) lg2 = Some (Ret (Next xh))" by blast
  from fin have answer: "rate_limit_answer cx req x = Next xh" by (auto split: if_splits)
  then obtain hs where x: "x = Inr hs"
    using assms(2) by (cases x) (auto simp: rate_limit_answer_def handleRedisUnavailable_def production_def)
  have ne: "\<not> hi_exceeded (effectiveHit hs)"
    using answer x by (auto simp: rate_limit_answer_def Let_def)
  note all = feed_all_hits_Ret [OF hits [unfolded x]]
  then have "hs \<noteq> []" using rulesFor_nonempty [of cx req] by auto
  then have none: "\<forall>h \<in> set hs. \<not> hi_exceeded h" using ne effectiveHit_exceeded by blast
  obtain h where "h \<in> set hs" "hi_rule h = rule"
    using all assms(4) by (metis (no_types, lifting) imageE list.set_map)
  then show ?thesis using all none lg by fastforce
qed

section \<open>The limit holds under any interleaving\<close>

definition counter_value :: "int \<Rightarrow> (string \<times> int option) option \<Rightarrow> int" where
  "counter_value otherwise e =
     (case e of None \<Rightarrow> 0 | Some (v, _) \<Rightarrow> (case bigint_of_string v of Some n \<Rightarrow> n | None \<Rightarrow> otherwise))"

definition budget :: "('s \<Rightarrow> redis_view) \<Rightarrow> string \<Rightarrow> int \<Rightarrow> 's \<Rightarrow> nat" where
  "budget view key limit s = nat (limit - counter_value limit (view s key))"

fun limiter_call :: "redis_call \<Rightarrow> bool" where
  "limiter_call (Cmd (RIncr _)) = True"
| "limiter_call (Cmd (RTtl _)) = True"
| "limiter_call (Cmd (RExpire _ _)) = True"
| "limiter_call _ = False"

fun counted_within :: "string \<Rightarrow> int \<Rightarrow> redis_call \<Rightarrow> redis_reply \<Rightarrow> bool" where
  "counted_within key limit (Cmd (RIncr k)) (RInt n) = (k = key \<and> n \<le> limit)"
| "counted_within key limit _ _ = False"

lemma incr_value:
  "counter_next e = Some n \<Longrightarrow> counter_value limit e = n - 1 \<and> counter_value limit (Some (show_int n, t)) = n"
  by (auto simp: counter_next_def counter_value_def bigint_round_trip split: option.splits)

lemma effect_budget:
  assumes "limiter_call (Cmd c)"
  shows "(if counted_within key limit (Cmd c) (fst (redis_effect c V)) then 1 else 0) +
    nat (limit - counter_value limit (snd (redis_effect c V) key)) \<le> nat (limit - counter_value limit (V key))"
proof (cases c)
  case (RIncr k)
  then show ?thesis
  proof (cases "counter_next (V k)")
    case (Some n)
    then show ?thesis using RIncr incr_value [OF Some, of limit "Option.bind (V k) snd"] by auto
  qed simp
next
  case (RExpire k n)
  then show ?thesis by (auto simp: counter_value_def split: option.splits)
qed (use assms in auto)

lemma limiter_call_budget:
  assumes "redis_ok exec view" and "redis_do exec c s = (r, s')" and "limiter_call c"
  shows "(if counted_within key limit c r then 1 else 0) + budget view key limit s' \<le> budget view key limit s"
proof -
  obtain c' where c: "c = Cmd c'" using assms(3) by (cases c) auto
  then have e: "exec c' s = (r, s')" using assms(2) by simp
  from assms(1) e show ?thesis
  proof (cases rule: redis_okD)
    case applied
    then show ?thesis
      using effect_budget [of c' key limit "view s"] assms(3) c by (metis budget_def fst_conv snd_conv)
  next
    case (failed err)
    have "nat (limit - counter_value limit (snd (redis_effect c' (view s)) key)) \<le> budget view key limit s"
      using effect_budget [of c' key limit "view s"] assms(3) c
      by (simp add: budget_def split: if_splits)
    moreover have "\<not> counted_within key limit c r"
      using failed(1) c by (cases c') auto
    ultimately show ?thesis using failed(2) by (auto simp: budget_def)
  qed
qed

lemma feed_all_hits_Call:
  assumes "feed (all_hits rules i b) lg = Some (Call c f)"
  shows "limiter_call c"
  using assms
proof (induction rules arbitrary: lg f)
  case (Cons rule rules)
  from feed_bind_Call [OF Cons.prems [unfolded all_hits.simps]] show ?case
  proof (elim disjE exE conjE)
    fix k' assume "feed (hit rule i b) lg = Some (Call c k')"
    then show ?thesis using feed_hit_Call by fastforce
  next
    fix x lg1 lg2
    assume "feed (prog_bind (all_hits rules i b) (\<lambda>hs. Ret (case x of Inl e \<Rightarrow> Inl e
        | Inr x \<Rightarrow> (case hs of Inl e \<Rightarrow> Inl e | Inr xs \<Rightarrow> Inr (x # xs))))) lg2 = Some (Call c f)"
    from feed_bind_Call [OF this] show ?thesis
    proof (elim disjE exE conjE)
      fix k' assume "feed (all_hits rules i b) lg2 = Some (Call c k')"
      then show ?thesis using Cons.IH by blast
    qed (auto split: if_splits)
  qed
qed (simp split: if_splits)

lemma feed_use_Call:
  assumes "feed (rate_limit_use cx req) lg = Some (Call c f)"
  shows "limiter_call c"
proof (cases "bypass req \<or> \<not> cx_connected cx")
  case True
  then show ?thesis using assms by (auto simp: rate_limit_use_def bypass_def split: if_splits)
next
  case False
  then have "feed (prog_bind (all_hits (rulesFor cx req) (identityFor cx req) (routeBucketFor req))
      (\<lambda>hits. Ret (rate_limit_answer cx req hits))) lg = Some (Call c f)"
    using assms by (simp add: rate_limit_use_def bypass_def)
  from feed_bind_Call [OF this] show ?thesis
    using feed_all_hits_Call by (auto split: if_splits)
qed

text \<open>While a counter key lives: its value does not change by itself.\<close>

definition key_lives :: "('s \<Rightarrow> redis_view) \<Rightarrow> string \<Rightarrow> 's \<Rightarrow> 's \<Rightarrow> bool" where
  "key_lives view key s s' = (map_option fst (view s' key) = map_option fst (view s key))"

lemma key_lives_budget: "key_lives view key s s' \<Longrightarrow> budget view key limit s' = budget view key limit s"
  by (cases "view s key"; cases "view s' key") (auto simp: key_lives_def budget_def counter_value_def)

definition counts_against :: "rl_context \<Rightarrow> rl_rule \<Rightarrow> string \<Rightarrow> rl_request \<Rightarrow> bool" where
  "counts_against cx rule key req =
     (\<not> bypass req \<and> rule \<in> set (rulesFor cx req) \<and>
      hit_key rule (identityFor cx req) (routeBucketFor req) = key)"

text \<open>C2: In production, however the calls of concurrent requests interleave, while a counter key lives no
  more requests pass on it than its rule's limit leaves.\<close>

theorem rate_limit_holds_concurrently:
  assumes "redis_ok exec view" and "production cx"
    and "steps (redis_do exec) (key_lives view key) (map (rate_limit_use cx) reqs, s) tr (ts', s')"
  shows "card {i. i < length reqs \<and> (counts_against cx rule key (reqs ! i) \<and> (\<exists>xh. ts' ! i = Ret (Next xh)))}
    \<le> nat (ru_limit rule - counter_value (ru_limit rule) (view s key))"
proof -
  let ?good = "counted_within key (ru_limit rule)"
  have calls: "limiter_call c" if "(i, c, r) \<in> set tr" for i c r
    using steps_calls [OF assms(3) that] feed_use_Call by (metis length_map nth_map)
  have "length (filter (\<lambda>(i, c, r). ?good c r) tr) + budget view key (ru_limit rule) s'
      \<le> budget view key (ru_limit rule) s"
    using assms(3)
  proof (rule steps_tokens [where allowed = limiter_call])
    show "(if ?good c r then 1 else 0) + budget view key (ru_limit rule) s' \<le> budget view key (ru_limit rule) s"
      if "redis_do exec c s = (r, s')" "limiter_call c" for c s r s'
      using limiter_call_budget [OF assms(1) that] .
    show "budget view key (ru_limit rule) s2 \<le> budget view key (ru_limit rule) s1" if "key_lives view key s1 s2" for s1 s2
      using key_lives_budget [OF that] by simp
  qed (rule calls)
  then have few: "length (filter (\<lambda>(i, c, r). ?good c r) tr) \<le> budget view key (ru_limit rule) s" by linarith
  have "card {i. i < length reqs \<and> (counts_against cx rule key (reqs ! i) \<and> (\<exists>xh. ts' ! i = Ret (Next xh)))}
      \<le> length (filter (\<lambda>(i, c, r). ?good c r) tr)"
  proof (rule handlers_le_events)
    fix i
    assume i: "i < length reqs" and p: "counts_against cx rule key (reqs ! i) \<and> (\<exists>xh. ts' ! i = Ret (Next xh))"
    then obtain xh where "ts' ! i = Ret (Next xh)" by blast
    then have "feed (rate_limit_use cx (reqs ! i)) (events_of i tr) = Some (Ret (Next xh))"
      using steps_feed [OF assms(3)] i by simp
    then have "\<exists>n. (Cmd (RIncr key), RInt n) \<in> set (events_of i tr) \<and> n \<le> ru_limit rule"
      using passed_was_counted assms(2) p unfolding counts_against_def by blast
    then show "\<exists>c r. (c, r) \<in> set (events_of i tr) \<and> ?good c r" by force
  qed
  then show ?thesis using few by (simp add: budget_def)
qed

section \<open>A counter that lost its expiry\<close>

text \<open>
  The expiry is set by a second command, on the first hit only. A key that holds a count but no
  lifetime never gets one again.
\<close>

definition stuck_counter :: "('s \<Rightarrow> redis_view) \<Rightarrow> string \<Rightarrow> int \<Rightarrow> 's \<Rightarrow> bool" where
  "stuck_counter view key n s = (\<exists>v m. view s key = Some (v, None) \<and> bigint_of_string v = Some m \<and> n \<le> m)"

lemma stuck_step:
  assumes "redis_ok exec view" and "exec c s = (r, s')" and "c = RIncr key \<or> c = RTtl key"
    and "stuck_counter view key n s"
  shows "stuck_counter view key n s'"
proof -
  obtain v m where v: "view s key = Some (v, None)" "bigint_of_string v = Some m" "n \<le> m"
    using assms(4) unfolding stuck_counter_def by blast
  have "view s' key = Some (v, None) \<or> view s' key = Some (show_int (m + 1), None)"
    using redis_ok_view [OF assms(1,2)] assms(3) v(1,2) by (auto simp: counter_next_def)
  then show ?thesis
    unfolding stuck_counter_def using v(2,3) bigint_round_trip [of "m + 1"] by force
qed

lemma stuck_incr_reply:
  assumes "redis_ok exec view" and "exec (RIncr key) s = (RInt i, s')" and "stuck_counter view key n s"
  shows "n < i"
proof -
  have "(RInt i, view s') = redis_effect (RIncr key) (view s)"
    using assms(1,2) by (rule redis_ok_reply) simp
  then show ?thesis using assms(3) by (auto simp: stuck_counter_def counter_next_def)
qed

text \<open>Once a counter key holds at least the limit without a lifetime (the EXPIRE after the first INCR was
  lost), a hit on it never passes, and the key stays that way: its caller is blocked for good.\<close>

theorem lost_expiry_blocks_forever:
  assumes "redis_ok exec view" and "stuck_counter view (hit_key rule identity bucket) (ru_limit rule) s"
    and "1 \<le> ru_limit rule"
  shows "case run (redis_do exec) (hit rule identity bucket) s of (r, s') \<Rightarrow>
    stuck_counter view (hit_key rule identity bucket) (ru_limit rule) s' \<and>
    (case r of Inr h \<Rightarrow> hi_exceeded h | Inl e \<Rightarrow> True)"
proof -
  let ?key = "hit_key rule identity bucket" and ?n = "ru_limit rule"
  obtain r1 s1 where incr: "exec (RIncr ?key) s = (r1, s1)" by force
  obtain r2 s2 where ttl: "exec (RTtl ?key) s1 = (r2, s2)" by force
  have s1: "stuck_counter view ?key ?n s1" using stuck_step [OF assms(1) incr _ assms(2)] by simp
  have s2: "stuck_counter view ?key ?n s2" using stuck_step [OF assms(1) ttl _ s1] by simp
  show ?thesis
  proof (cases r1)
    case (RInt m)
    have m: "?n < m" using stuck_incr_reply [OF assms(1) _ assms(2)] incr RInt by blast
    then have "run (redis_do exec) (hit rule identity bucket) s = run (redis_do exec) (hit_result rule m r2) s2"
      using incr ttl RInt assms(3) by (simp add: hit_def Let_def)
    then show ?thesis using s2 m by (cases r2) (simp_all add: hit_result_def Let_def)
  qed (use incr s1 in \<open>simp_all add: hit_def Let_def\<close>)
qed

definition demo_cx :: rl_context where
  "demo_cx = \<lparr>cx_env = map_of [(''NODE_ENV'', ''production'')], cx_digest = rev, cx_date_parse = Map.empty,
     cx_now_ms = 1000, cx_connected = True\<rparr>"

definition demo_request :: rl_request where
  "demo_request = \<lparr>rq_method = ''GET'', rq_path = ''/pools'', rq_originalUrl = ''/pools'', rq_headers = Map.empty,
     rq_ip = Some ''10.0.0.1'', rq_remoteAddress = None\<rparr>"

definition demo_rule :: rl_rule where
  "demo_rule = \<lparr>ru_name = ''global'', ru_limit = 300, ru_windowSeconds = 60\<rparr>"

lemma demo_counts: "counts_against demo_cx demo_rule (hit_key demo_rule ''10.0.0.1'' ''global'') demo_request"
  by code_simp

theorem rate_limit_holds_concurrently_witness:
  "\<exists>tr ts' s'. steps (redis_do mem_exec) (key_lives mem_view (hit_key demo_rule ''10.0.0.1'' ''global''))
      (map (rate_limit_use demo_cx) [demo_request], []) tr (ts', s') \<and>
    card {i. i < length [demo_request] \<and>
      (counts_against demo_cx demo_rule (hit_key demo_rule ''10.0.0.1'' ''global'') ([demo_request] ! i) \<and>
       (\<exists>xh. ts' ! i = Ret (Next xh)))} \<le> nat 300"
proof -
  let ?key = "hit_key demo_rule ''10.0.0.1'' ''global''"
  obtain tr ts' s' where st: "steps (redis_do mem_exec) (key_lives mem_view ?key)
      (map (rate_limit_use demo_cx) [demo_request], []) tr (ts', s')"
    using run_steps [of "redis_do mem_exec" "key_lives mem_view ?key" "rate_limit_use demo_cx demo_request" "[]"]
    by auto
  have "production demo_cx" by (simp add: production_def demo_cx_def)
  moreover have "counter_value (ru_limit demo_rule) (mem_view [] ?key) = 0" "ru_limit demo_rule = 300"
    by (simp_all add: mem_view_def counter_value_def demo_rule_def)
  ultimately show ?thesis
    using rate_limit_holds_concurrently [OF mem_redis_ok _ st, of demo_rule] st by auto
qed

theorem lost_expiry_blocks_forever_witness:
  "case run (redis_do mem_exec) (hit demo_rule ''10.0.0.1'' ''global'')
      [(hit_key demo_rule ''10.0.0.1'' ''global'', (''300'', None))] of (r, s') \<Rightarrow>
    stuck_counter mem_view (hit_key demo_rule ''10.0.0.1'' ''global'') 300 s' \<and>
    (case r of Inr h \<Rightarrow> hi_exceeded h | Inl e \<Rightarrow> True)"
proof -
  have "bigint_of_string ''300'' = Some 300" by code_simp
  then have stuck: "stuck_counter mem_view (hit_key demo_rule ''10.0.0.1'' ''global'') (ru_limit demo_rule)
      [(hit_key demo_rule ''10.0.0.1'' ''global'', (''300'', None))]"
    by (simp add: stuck_counter_def mem_view_def jm_get_def demo_rule_def)
  have limit: "ru_limit demo_rule = 300" by (simp add: demo_rule_def)
  show ?thesis using lost_expiry_blocks_forever [OF mem_redis_ok stuck] by (simp add: limit)
qed

end
