(* ===== verification/Auth.thy ===== *)
theory Auth
  imports Redis Observability
begin

text \<open>
  Wallet authentication: \<^verbatim>\<open>apps/api/src/auth/auth.service.ts\<close> (verification of a signed nonce, the
  failed-attempt counter, the atomic consumption) and \<^verbatim>\<open>apps/api/src/auth/nonce.controller.ts\<close> (issuing a
  nonce). Handlers are programs over the Redis calls of the theory \<^verbatim>\<open>Redis\<close>; the Stellar SDK, the JWT
  library, the base64 decoder and the random sources are parameters.
\<close>

section \<open>Environment\<close>

datatype cfg_value = CfgNum jsnum | CfgStr string | CfgAbsent

record auth_env =
  ae_pubkey_ok :: "string \<Rightarrow> bool"
  ae_decode64 :: "string \<Rightarrow> string"
  ae_verify :: "string \<Rightarrow> string \<Rightarrow> string \<Rightarrow> bool"
  ae_jwt_sign :: "string \<Rightarrow> string + string"
  ae_max_attempts :: cfg_value

record verify_dto =
  vd_walletAddress :: string
  vd_nonce :: string
  vd_signature :: string

datatype auth_response = Token string | Nonce "string option"

type_synonym auth_prog = "(redis_call, redis_reply, api_exn + auth_response) prog"

definition NONCE_PREFIX :: string where
  "NONCE_PREFIX = ''auth:nonce:''"

definition ATTEMPTS_PREFIX :: string where
  "ATTEMPTS_PREFIX = ''auth:nonce:attempts:''"

definition maxNonceAttempts :: "auth_env \<Rightarrow> int" where
  "maxNonceAttempts env =
     (let parsed = (case ae_max_attempts env of
            CfgNum n \<Rightarrow> n | CfgStr s \<Rightarrow> parse_int10 s | CfgAbsent \<Rightarrow> parse_int10 [])
      in case parsed of
           Fin x \<Rightarrow> if is_integer (Fin x) \<and> 0 < x then \<lfloor>x\<rfloor> else 5
         | _ \<Rightarrow> 5)"

definition unauthorized :: "string \<Rightarrow> string \<Rightarrow> string \<Rightarrow> api_exn" where
  "unauthorized code message cid = Http (http_error 401 code message cid)"

definition storeUnavailable :: "string \<Rightarrow> api_exn" where
  "storeUnavailable cid =
     Http (http_error 503 ''AUTH_STORE_UNAVAILABLE'' ''Authentication temporarily unavailable'' cid)"

definition too_many_attempts :: api_exn where
  "too_many_attempts = Http (http_error 401 [] ''Too many failed attempts; nonce invalidated'' [])"

section \<open>Failed attempts\<close>

text \<open>A Redis call outside a \<^verbatim>\<open>try\<close> block: an error becomes the handler's rejection.\<close>

definition redis_await :: "redis_call \<Rightarrow> (redis_call, redis_reply, api_exn + redis_reply) prog" where
  "redis_await c = Call c (\<lambda>r. case r of RErr e \<Rightarrow> Ret (Inl (Crash e)) | _ \<Rightarrow> Ret (Inr r))"

definition int_reply :: "redis_reply \<Rightarrow> int" where
  "int_reply r = (case r of RInt n \<Rightarrow> n | _ \<Rightarrow> 0)"

definition invalidate_if_exhausted ::
  "auth_env \<Rightarrow> string \<Rightarrow> string \<Rightarrow> int \<Rightarrow> (redis_call, redis_reply, api_exn + unit) prog" where
  "invalidate_if_exhausted env nonceKey attemptsKey attempts =
     (if maxNonceAttempts env \<le> attempts then
        prog_then (redis_await (Cmd (RDel nonceKey))) (\<lambda>_.
        prog_then (redis_await (Cmd (RDel attemptsKey))) (\<lambda>_.
        Ret (Inl too_many_attempts)))
      else Ret (Inr ()))"

definition registerFailedAttempt ::
  "auth_env \<Rightarrow> string \<Rightarrow> string \<Rightarrow> (redis_call, redis_reply, api_exn + unit) prog" where
  "registerFailedAttempt env walletAddress nonceKey =
     (let attemptsKey = ATTEMPTS_PREFIX @ walletAddress in
      prog_then (redis_await (Cmd (RIncr attemptsKey))) (\<lambda>r.
        let attempts = int_reply r in
        if attempts = 1 then
          prog_then (redis_await (Cmd (RTtl nonceKey))) (\<lambda>t.
          let nonceTtl = int_reply t in
          prog_then (redis_await (Cmd (RExpire attemptsKey (if 0 < nonceTtl then nonceTtl else 120)))) (\<lambda>_.
          invalidate_if_exhausted env nonceKey attemptsKey attempts))
        else invalidate_if_exhausted env nonceKey attemptsKey attempts))"

section \<open>Verification\<close>

definition assertSignatureValid :: "auth_env \<Rightarrow> string \<Rightarrow> string \<Rightarrow> string \<Rightarrow> string \<Rightarrow> api_exn + unit" where
  "assertSignatureValid env walletAddress nonce signatureB64 cid =
     (if \<not> ae_pubkey_ok env walletAddress then
        Inl (Http (http_error 400 ''AUTH_WALLET_INVALID''
          (''walletAddress '' @ [CHR 0x27] @ walletAddress @ [CHR 0x27] @ '' is not a valid Stellar public key'') cid))
      else let signatureBytes = ae_decode64 env signatureB64 in
        if length signatureBytes \<noteq> 64 then
          Inl (unauthorized ''AUTH_SIGNATURE_INVALID'' ''Signature is malformed'' cid)
        else if \<not> ae_verify env walletAddress nonce signatureBytes then
          Inl (unauthorized ''AUTH_SIGNATURE_INVALID'' ''Signature verification failed'' cid)
        else Inr ())"

definition issueJwt :: "auth_env \<Rightarrow> string \<Rightarrow> api_exn + auth_response" where
  "issueJwt env walletAddress =
     (case ae_jwt_sign env walletAddress of Inl e \<Rightarrow> Inl (Crash e) | Inr t \<Rightarrow> Inr (Token t))"

definition consume_and_issue :: "auth_env \<Rightarrow> string \<Rightarrow> string \<Rightarrow> string \<Rightarrow> auth_prog" where
  "consume_and_issue env walletAddress nonce cid =
     Call (ConsumeNonce (NONCE_PREFIX @ walletAddress) nonce) (\<lambda>consumed. case consumed of
       RErr e \<Rightarrow> Ret (Inl (storeUnavailable cid))
     | _ \<Rightarrow>
         (if consumed \<noteq> RInt 1 then
            Ret (Inl (unauthorized ''AUTH_NONCE_ALREADY_USED'' ''Nonce has already been used'' cid))
          else prog_then (redis_await (Cmd (RDel (ATTEMPTS_PREFIX @ walletAddress)))) (\<lambda>_.
            Ret (issueJwt env walletAddress))))"

definition verify_stored :: "auth_env \<Rightarrow> verify_dto \<Rightarrow> string \<Rightarrow> string \<Rightarrow> auth_prog" where
  "verify_stored env dto cid storedNonce =
     (let w = vd_walletAddress dto; redisKey = NONCE_PREFIX @ w in
      if storedNonce \<noteq> vd_nonce dto then
        prog_then (registerFailedAttempt env w redisKey) (\<lambda>_.
        Ret (Inl (unauthorized ''AUTH_NONCE_MISMATCH'' ''Nonce mismatch'' cid)))
      else (case assertSignatureValid env w (vd_nonce dto) (vd_signature dto) cid of
          Inl err \<Rightarrow> prog_then (registerFailedAttempt env w redisKey) (\<lambda>_. Ret (Inl err))
        | Inr _ \<Rightarrow> consume_and_issue env w (vd_nonce dto) cid))"

definition verifyWallet :: "auth_env \<Rightarrow> verify_dto \<Rightarrow> string \<Rightarrow> auth_prog" where
  "verifyWallet env dto cid =
     Call (Cmd (RGet (NONCE_PREFIX @ vd_walletAddress dto))) (\<lambda>r. case r of
       RErr e \<Rightarrow> Ret (Inl (storeUnavailable cid))
     | RStr (c # cs) \<Rightarrow> verify_stored env dto cid (c # cs)
     | _ \<Rightarrow> Ret (Inl (unauthorized ''AUTH_NONCE_UNKNOWN'' ''Nonce has expired or does not exist'' cid)))"

section \<open>Issuing a nonce\<close>

definition NONCE_TTL_SECONDS :: int where
  "NONCE_TTL_SECONDS = 120"

definition base32_char :: "char \<Rightarrow> bool" where
  "base32_char c = (let n = (of_char c :: int) in 65 \<le> n \<and> n \<le> 90 \<or> 50 \<le> n \<and> n \<le> 55)"

definition normalizeWalletAddress :: "string \<Rightarrow> string option" where
  "normalizeWalletAddress value =
     (let trimmed = trim value in
      case trimmed of
        c # cs \<Rightarrow> if c = CHR ''G'' \<and> length cs = 55 \<and> list_all base32_char cs then Some trimmed else None
      | [] \<Rightarrow> None)"

definition nonceKey :: "string \<Rightarrow> string" where
  "nonceKey walletAddress = ''auth:nonce:'' @ walletAddress"

text \<open>The body's wallet address is absent, or a string; \<open>random_nonce\<close> is the 24 random bytes in base64.\<close>

definition issueNonce :: "string option \<Rightarrow> string \<Rightarrow> string \<Rightarrow> auth_prog" where
  "issueNonce walletAddress random_nonce cid =
     (case walletAddress of
        None \<Rightarrow> Ret (Inr (Nonce None))
      | Some [] \<Rightarrow> Ret (Inr (Nonce None))
      | Some (c # cs) \<Rightarrow>
          (case normalizeWalletAddress (c # cs) of
             None \<Rightarrow> Ret (Inl (Http (http_error 400 ''NONCE_INVALID_WALLET''
               ''walletAddress must be a valid Stellar public key (G...).'' cid)))
           | Some w \<Rightarrow>
               Call (Cmd (RSet (nonceKey w) random_nonce (Some NONCE_TTL_SECONDS))) (\<lambda>r. case r of
                 RErr e \<Rightarrow> Ret (Inl (Http (http_error 503 ''NONCE_STORE_UNAVAILABLE''
                   ''Nonce store is unavailable; please retry.'' cid)))
               | _ \<Rightarrow> Ret (Inr (Nonce (Some random_nonce))))))"

end
