(* ===== verification/Auth_Laws.thy ===== *)
theory Auth_Laws
  imports Auth
begin

text \<open>
  Properties of wallet authentication, for any interleaving of verification and issue requests and
  with keys expiring at any time: a nonce admits one caller at most, a token implies a valid signature
  over the stored nonce, and guessing is bounded by the attempt counter.
\<close>

section \<open>What a token implies\<close>

lemma feed_redis_await_Ret:
  "feed (redis_await c) lg = Some (Ret (Inr r)) \<Longrightarrow> lg = [(c, r)] \<and> (\<forall>e. r \<noteq> RErr e)"
  by (auto simp: redis_await_def split: list.splits prod.splits if_splits redis_reply.splits)

lemma feed_then_Ret_Inr:
  assumes "feed (prog_then m f) lg = Some (Ret (Inr y))"
  obtains x lg1 lg2 where "lg = lg1 @ lg2" and "feed m lg1 = Some (Ret (Inr x))" and "feed (f x) lg2 = Some (Ret (Inr y))"
  using feed_bind_Ret [OF assms [unfolded prog_then_def]]
  by (force split: sum.splits if_splits)

lemma feed_then_fails:
  "(\<And>x lg. feed (f x) lg \<noteq> Some (Ret (Inr y))) \<Longrightarrow> feed (prog_then m f) lg \<noteq> Some (Ret (Inr y))"
  using feed_then_Ret_Inr by metis

lemma failing_tail [simp]: "feed (prog_then m (\<lambda>_. Ret (Inl e))) lg \<noteq> Some (Ret (Inr y))"
  by (rule feed_then_fails) (simp split: if_splits)

lemma token_consumed:
  assumes "feed (consume_and_issue env w n cid) lg = Some (Ret (Inr resp))"
  shows "(ConsumeNonce (NONCE_PREFIX @ w) n, RInt 1) \<in> set lg \<and> (\<exists>t. resp = Token t \<and> ae_jwt_sign env w = Inr t)"
proof -
  obtain r rest where lg: "lg = (ConsumeNonce (NONCE_PREFIX @ w) n, r) # rest"
    using assms by (cases lg) (auto simp: consume_and_issue_def split: if_splits)
  have r: "r = RInt 1"
    using assms lg by (auto simp: consume_and_issue_def split: redis_reply.splits if_splits)
  have "feed (prog_then (redis_await (Cmd (RDel (ATTEMPTS_PREFIX @ w)))) (\<lambda>_. Ret (issueJwt env w))) rest = Some (Ret (Inr resp))"
    using assms lg r by (simp add: consume_and_issue_def)
  then obtain lg2 where "feed (Ret (issueJwt env w) :: auth_prog) lg2 = Some (Ret (Inr resp))"
    by (rule feed_then_Ret_Inr)
  then have "issueJwt env w = Inr resp" by (auto split: if_splits)
  then show ?thesis using lg r by (auto simp: issueJwt_def split: sum.splits)
qed

definition signature_valid :: "auth_env \<Rightarrow> verify_dto \<Rightarrow> bool" where
  "signature_valid env dto =
     (ae_pubkey_ok env (vd_walletAddress dto) \<and> length (ae_decode64 env (vd_signature dto)) = 64 \<and>
      ae_verify env (vd_walletAddress dto) (vd_nonce dto) (ae_decode64 env (vd_signature dto)))"

lemma assertSignatureValid_Inr:
  "assertSignatureValid env (vd_walletAddress dto) (vd_nonce dto) (vd_signature dto) cid = Inr u \<Longrightarrow> signature_valid env dto"
  by (auto simp: assertSignatureValid_def signature_valid_def Let_def split: if_splits)

lemma verify_granted:
  assumes "feed (verifyWallet env dto cid) lg = Some (Ret (Inr resp))"
  shows "(Cmd (RGet (NONCE_PREFIX @ vd_walletAddress dto)), RStr (vd_nonce dto)) \<in> set lg \<and>
    (ConsumeNonce (NONCE_PREFIX @ vd_walletAddress dto) (vd_nonce dto), RInt 1) \<in> set lg \<and>
    signature_valid env dto \<and> (\<exists>t. resp = Token t \<and> ae_jwt_sign env (vd_walletAddress dto) = Inr t)"
proof -
  let ?get = "Cmd (RGet (NONCE_PREFIX @ vd_walletAddress dto))"
  obtain r rest where lg: "lg = (?get, r) # rest"
    using assms by (cases lg) (auto simp: verifyWallet_def split: if_splits)
  obtain c cs where r: "r = RStr (c # cs)"
    using assms lg by (auto simp: verifyWallet_def split: redis_reply.splits list.splits if_splits)
  have vs: "feed (verify_stored env dto cid (c # cs)) rest = Some (Ret (Inr resp))"
    using assms lg r by (simp add: verifyWallet_def)
  then have n: "c # cs = vd_nonce dto"
    by (auto simp: verify_stored_def Let_def split: if_splits)
  obtain u where sig: "assertSignatureValid env (vd_walletAddress dto) (vd_nonce dto) (vd_signature dto) cid = Inr u"
    using vs n by (auto simp: verify_stored_def Let_def split: sum.splits if_splits)
  have "feed (consume_and_issue env (vd_walletAddress dto) (vd_nonce dto) cid) rest = Some (Ret (Inr resp))"
    using vs n sig by (simp add: verify_stored_def Let_def)
  from token_consumed [OF this] show ?thesis
    using lg r n assertSignatureValid_Inr [OF sig] by auto
qed

text \<open>C20: A token is handed out only for a wallet whose nonce was in the store, equal to the presented one,
  with a valid 64-byte signature of that wallet over it; otherwise the answer is an error.\<close>

theorem token_needs_signature:
  assumes "run (redis_do exec) (verifyWallet env dto cid) s = (Inr resp, s')" and "redis_ok exec view"
  shows "holds view (NONCE_PREFIX @ vd_walletAddress dto) (vd_nonce dto) s \<and> signature_valid env dto \<and>
    (\<exists>t. resp = Token t \<and> ae_jwt_sign env (vd_walletAddress dto) = Inr t)"
proof -
  obtain tr where st: "steps (redis_do exec) (\<lambda>_ _. False) ([verifyWallet env dto cid], s) tr ([Ret (Inr resp)], s')"
    using run_steps [of "redis_do exec" "\<lambda>_ _. False" "verifyWallet env dto cid" s] assms(1) by auto
  have "feed (verifyWallet env dto cid) (events_of 0 tr) = Some (Ret (Inr resp))"
    using steps_feed [OF st, of 0] by simp
  note g = verify_granted [OF this]
  obtain r1 s1 where get: "exec (RGet (NONCE_PREFIX @ vd_walletAddress dto)) s = (r1, s1)" by force
  have r1: "r1 = RStr (vd_nonce dto)"
  proof -
    have "\<exists>c cs. r1 = RStr (c # cs)"
      using assms(1) get by (auto simp: verifyWallet_def split: redis_reply.splits list.splits)
    then obtain c cs where r: "r1 = RStr (c # cs)" by blast
    then have "run (redis_do exec) (verify_stored env dto cid (c # cs)) s1 = (Inr resp, s')"
      using assms(1) get by (simp add: verifyWallet_def)
    then have "c # cs = vd_nonce dto"
      by (auto simp: verify_stored_def Let_def run_then split: if_splits prod.splits sum.splits)
    then show ?thesis using r by simp
  qed
  have "(r1, view s1) = redis_effect (RGet (NONCE_PREFIX @ vd_walletAddress dto)) (view s)"
    using assms(2) get by (rule redis_ok_reply) (simp add: r1)
  then have "holds view (NONCE_PREFIX @ vd_walletAddress dto) (vd_nonce dto) s"
    using r1 by (auto simp: holds_def split: option.splits)
  then show ?thesis using g by blast
qed

section \<open>A nonce admits one caller\<close>

datatype auth_request = Verify_Request verify_dto string | Issue_Request "string option" string string

fun auth_handler :: "auth_env \<Rightarrow> auth_request \<Rightarrow> auth_prog" where
  "auth_handler env (Verify_Request dto cid) = verifyWallet env dto cid"
| "auth_handler env (Issue_Request w nonce cid) = issueNonce w nonce cid"

text \<open>Calls of a request never store the nonce \<open>n\<close> for wallet \<open>w\<close>, unless it issues just that nonce.\<close>

definition auth_call_ok :: "string \<Rightarrow> string \<Rightarrow> redis_call \<Rightarrow> bool" where
  "auth_call_ok w n c = (\<not> call_writes_value (NONCE_PREFIX @ w) n c)"

lemma attempts_key_distinct: "hd w = CHR ''G'' \<Longrightarrow> w \<noteq> [] \<Longrightarrow> ATTEMPTS_PREFIX @ w' \<noteq> NONCE_PREFIX @ w"
  by (cases w) (auto simp: ATTEMPTS_PREFIX_def NONCE_PREFIX_def)

lemma feed_await_Call: "feed (redis_await c) lg = Some (Call c' f) \<Longrightarrow> c' = c"
  by (auto simp: redis_await_def split: list.splits prod.splits if_splits redis_reply.splits)

lemma calls_in_await [simp]: "calls_in C (redis_await c) \<longleftrightarrow> c \<in> C"
  by (auto simp: redis_await_def calls_in_Call split: redis_reply.splits)

lemma registerFailedAttempt_calls:
  assumes "hd w = CHR ''G''" and "w \<noteq> []"
  shows "calls_in {c. auth_call_ok w n c} (registerFailedAttempt env w' k)"
  using attempts_key_distinct [OF assms]
  by (auto simp: registerFailedAttempt_def invalidate_if_exhausted_def Let_def auth_call_ok_def intro!: calls_in_then)

lemma verifyWallet_calls:
  assumes "hd w = CHR ''G''" and "w \<noteq> []"
  shows "calls_in {c. auth_call_ok w n c} (verifyWallet env dto cid)"
proof -
  have consume: "calls_in {c. auth_call_ok w n c} (consume_and_issue env w' n' cid)" for w' n'
    by (auto simp: consume_and_issue_def calls_in_Call auth_call_ok_def split: redis_reply.splits intro!: calls_in_then)
  have "calls_in {c. auth_call_ok w n c} (verify_stored env dto cid v)" for v
    using registerFailedAttempt_calls [OF assms] consume
    by (auto simp: verify_stored_def Let_def split: sum.splits intro!: calls_in_then)
  then show ?thesis
    by (auto simp: verifyWallet_def calls_in_Call auth_call_ok_def split: redis_reply.splits list.splits)
qed

lemma issueNonce_calls:
  "nonce \<noteq> n \<Longrightarrow> calls_in {c. auth_call_ok w n c} (issueNonce w' nonce cid)"
  by (auto simp: issueNonce_def calls_in_Call auth_call_ok_def split: option.splits list.splits redis_reply.splits)

fun issues_nonce :: "string \<Rightarrow> auth_request \<Rightarrow> bool" where
  "issues_nonce n (Issue_Request w nonce cid) = (nonce = n)"
| "issues_nonce n (Verify_Request dto cid) = False"

fun presents :: "string \<Rightarrow> string \<Rightarrow> auth_request \<Rightarrow> bool" where
  "presents w n (Verify_Request dto cid) = (vd_walletAddress dto = w \<and> vd_nonce dto = n)"
| "presents w n (Issue_Request w' nonce cid) = False"

lemma auth_handler_calls:
  assumes "hd w = CHR ''G''" and "w \<noteq> []" and "\<not> issues_nonce n req"
  shows "calls_in {c. auth_call_ok w n c} (auth_handler env req)"
  using assms verifyWallet_calls issueNonce_calls by (cases req) auto

text \<open>C1: However the Redis calls of any number of verification and issue requests interleave, and whenever keys
  expire, at most one request that presents a given nonce for a given wallet obtains a token, as long
  as no request issues the same random nonce again; and none does if the nonce was not in the store.\<close>

theorem nonce_single_use:
  assumes "redis_ok exec view" and "hd w = CHR ''G''" and "w \<noteq> []"
    and "\<forall>req \<in> set reqs. \<not> issues_nonce n req"
    and "steps (redis_do exec) (redis_drift view) (map (auth_handler env) reqs, s) tr (ts', s')"
  shows "card {i. i < length reqs \<and> (presents w n (reqs ! i) \<and> (\<exists>resp. ts' ! i = Ret (Inr resp)))}
    \<le> nonce_token view (NONCE_PREFIX @ w) n s"
proof -
  let ?K = "NONCE_PREFIX @ w"
  let ?good = "\<lambda>c r. c = ConsumeNonce ?K n \<and> r = RInt 1"
  have calls: "auth_call_ok w n c" if ev: "(i, c, r) \<in> set tr" for i c r
  proof -
    obtain lg f where i: "i < length reqs" and "feed (auth_handler env (reqs ! i)) lg = Some (Call c f)"
      using steps_calls [OF assms(5) ev] by auto
    then show ?thesis
      using auth_handler_calls [OF assms(2,3)] assms(4) by (fastforce simp: calls_in_def)
  qed
  have "length (filter (\<lambda>(i, c, r). ?good c r) tr) + nonce_token view ?K n s' \<le> nonce_token view ?K n s"
    using assms(5)
  proof (rule steps_tokens [where allowed = "auth_call_ok w n"])
    show "(if ?good c r then 1 else 0) + nonce_token view ?K n s2 \<le> nonce_token view ?K n s1"
      if "redis_do exec c s1 = (r, s2)" "auth_call_ok w n c" for c s1 r s2
      using nonce_token_call [OF assms(1) that(1)] that(2) by (simp add: auth_call_ok_def)
    show "nonce_token view ?K n s2 \<le> nonce_token view ?K n s1" if "redis_drift view s1 s2" for s1 s2
      using nonce_token_drift [OF that] .
  qed (rule calls)
  moreover have "card {i. i < length reqs \<and> (presents w n (reqs ! i) \<and> (\<exists>resp. ts' ! i = Ret (Inr resp)))}
      \<le> length (filter (\<lambda>(i, c, r). ?good c r) tr)"
  proof (rule handlers_le_events)
    fix i
    assume i: "i < length reqs" and p: "presents w n (reqs ! i) \<and> (\<exists>resp. ts' ! i = Ret (Inr resp))"
    then obtain dto cid resp where req: "reqs ! i = Verify_Request dto cid" "vd_walletAddress dto = w" "vd_nonce dto = n"
      and res: "ts' ! i = Ret (Inr resp)" by (cases "reqs ! i") auto
    have "feed (verifyWallet env dto cid) (events_of i tr) = Some (Ret (Inr resp))"
      using steps_feed [OF assms(5), of i] i req res by simp
    then show "\<exists>c r. (c, r) \<in> set (events_of i tr) \<and> ?good c r"
      using verify_granted req by blast
  qed
  ultimately show ?thesis by linarith
qed

section \<open>Guessing is bounded\<close>

text \<open>When the failed-attempt count reaches the limit, the nonce and the counter are both gone by the time
  the caller sees the lock-out error, and no failed attempt beyond the limit passes silently.\<close>

theorem lockout_invalidates_nonce:
  assumes "redis_ok exec view" and "hd w = CHR ''G''" and "w \<noteq> []"
    and "run (redis_do exec) (registerFailedAttempt env w (NONCE_PREFIX @ w)) s = (res, s')"
    and "view s (ATTEMPTS_PREFIX @ w) = Some (show_int a, t)" and "1 \<le> a" and "maxNonceAttempts env \<le> a + 1"
  shows "res \<noteq> Inr () \<and>
    (res = Inl too_many_attempts \<longrightarrow> view s' (NONCE_PREFIX @ w) = None \<and> view s' (ATTEMPTS_PREFIX @ w) = None)"
proof -
  let ?A = "ATTEMPTS_PREFIX @ w" and ?K = "NONCE_PREFIX @ w"
  obtain r1 s1 where incr: "exec (RIncr ?A) s = (r1, s1)" by force
  obtain r2 s2 where d1: "exec (RDel ?K) s1 = (r2, s2)" by force
  obtain r3 s3 where d2: "exec (RDel ?A) s2 = (r3, s3)" by force
  show ?thesis
  proof (cases "\<exists>e. r1 = RErr e")
    case True
    then show ?thesis using assms(4) incr
      by (auto simp: registerFailedAttempt_def redis_await_def Let_def too_many_attempts_def)
  next
    case False
    have "(r1, view s1) = redis_effect (RIncr ?A) (view s)"
      using assms(1) incr by (rule redis_ok_reply) (use False in auto)
    then have "r1 = RInt (a + 1)" using assms(5) by (simp add: counter_next_def bigint_round_trip)
    then have res: "(res, s') = run (redis_do exec) (invalidate_if_exhausted env ?K ?A (a + 1)) s1"
      using assms(4,6) incr by (simp add: registerFailedAttempt_def redis_await_def int_reply_def Let_def)
    show ?thesis
    proof (cases "(\<exists>e. r2 = RErr e) \<or> (\<exists>e. r3 = RErr e)")
      case True
      then show ?thesis using res d1 d2 assms(7)
        by (auto simp: invalidate_if_exhausted_def redis_await_def too_many_attempts_def split: redis_reply.splits)
    next
      case False
      have v2: "(r2, view s2) = redis_effect (RDel ?K) (view s1)"
        using assms(1) d1 by (rule redis_ok_reply) (use False in auto)
      have v3: "(r3, view s3) = redis_effect (RDel ?A) (view s2)"
        using assms(1) d2 by (rule redis_ok_reply) (use False in auto)
      have "res = Inl too_many_attempts" "s' = s3"
        using res d1 d2 assms(7) False
        by (auto simp: invalidate_if_exhausted_def redis_await_def split: redis_reply.splits)
      then show ?thesis using v2 v3 attempts_key_distinct [OF assms(2,3)] by auto
    qed
  qed
qed

section \<open>Concrete runs\<close>

definition demo_auth_env :: auth_env where
  "demo_auth_env = \<lparr>ae_pubkey_ok = (\<lambda>_. True), ae_decode64 = (\<lambda>_. replicate 64 (CHR ''x'')),
     ae_verify = (\<lambda>w n sig. n = ''n1''), ae_jwt_sign = (\<lambda>w. Inr (''jwt:'' @ w)), ae_max_attempts = CfgAbsent\<rparr>"

definition demo_dto :: verify_dto where
  "demo_dto = \<lparr>vd_walletAddress = ''GA'', vd_nonce = ''n1'', vd_signature = ''sig''\<rparr>"

definition demo_auth_store :: mem_redis where
  "demo_auth_store = [(NONCE_PREFIX @ ''GA'', (''n1'', Some 120)), (ATTEMPTS_PREFIX @ ''GA'', (''4'', Some 120))]"

lemma demo_verify_run:
  "run (redis_do mem_exec) (verifyWallet demo_auth_env demo_dto ''c'') demo_auth_store = (Inr (Token ''jwt:GA''), [])"
  by code_simp

theorem token_needs_signature_witness:
  "holds mem_view (NONCE_PREFIX @ ''GA'') ''n1'' demo_auth_store \<and> signature_valid demo_auth_env demo_dto"
  using token_needs_signature [OF demo_verify_run mem_redis_ok] by (simp add: demo_dto_def)

theorem nonce_single_use_witness:
  "\<exists>tr s'. steps (redis_do mem_exec) (redis_drift mem_view)
      (map (auth_handler demo_auth_env) [Verify_Request demo_dto ''c''], demo_auth_store) tr
      ([Ret (Inr (Token ''jwt:GA''))], s') \<and>
    card {i. i < length [Verify_Request demo_dto ''c''] \<and>
      (presents ''GA'' ''n1'' ([Verify_Request demo_dto ''c''] ! i) \<and>
       (\<exists>resp. [Ret (Inr (Token ''jwt:GA''))] ! i = (Ret (Inr resp) :: auth_prog)))} \<le> 1"
proof -
  have run: "run (redis_do mem_exec) (auth_handler demo_auth_env (Verify_Request demo_dto ''c'')) demo_auth_store =
      (Inr (Token ''jwt:GA''), [])" using demo_verify_run by simp
  obtain tr where st: "steps (redis_do mem_exec) (redis_drift mem_view)
      (map (auth_handler demo_auth_env) [Verify_Request demo_dto ''c''], demo_auth_store) tr
      ([Ret (Inr (Token ''jwt:GA''))], [])"
    using run_steps [of "redis_do mem_exec" "redis_drift mem_view"
        "auth_handler demo_auth_env (Verify_Request demo_dto ''c'')" demo_auth_store] run by auto
  have wallet: "hd ''GA'' = CHR ''G''" "''GA'' \<noteq> []"
    and fresh: "\<forall>req \<in> set [Verify_Request demo_dto ''c'']. \<not> issues_nonce ''n1'' req" by simp_all
  show ?thesis
    using nonce_single_use [OF mem_redis_ok wallet fresh st] nonce_token_le [of mem_view "NONCE_PREFIX @ ''GA''" "''n1''" demo_auth_store]
      st by (meson order_trans)
qed

lemma demo_lockout_run:
  "\<exists>s'. run (redis_do mem_exec) (registerFailedAttempt demo_auth_env ''GA'' (NONCE_PREFIX @ ''GA'')) demo_auth_store =
     (Inl too_many_attempts, s')"
proof -
  have "fst (run (redis_do mem_exec) (registerFailedAttempt demo_auth_env ''GA'' (NONCE_PREFIX @ ''GA'')) demo_auth_store) =
      Inl too_many_attempts" by code_simp
  then show ?thesis by (metis prod.collapse)
qed

theorem lockout_invalidates_nonce_witness:
  "\<exists>s'. run (redis_do mem_exec) (registerFailedAttempt demo_auth_env ''GA'' (NONCE_PREFIX @ ''GA'')) demo_auth_store =
     (Inl too_many_attempts, s') \<and> mem_view s' (NONCE_PREFIX @ ''GA'') = None"
proof -
  obtain s' where s': "run (redis_do mem_exec) (registerFailedAttempt demo_auth_env ''GA'' (NONCE_PREFIX @ ''GA''))
      demo_auth_store = (Inl too_many_attempts, s')" using demo_lockout_run by blast
  have four: "show_int 4 = ''4''" and max5: "maxNonceAttempts demo_auth_env = 5" by code_simp+
  have "mem_view demo_auth_store (ATTEMPTS_PREFIX @ ''GA'') = Some (show_int 4, Some 120)"
    unfolding four by (simp add: mem_view_def jm_get_def demo_auth_store_def ATTEMPTS_PREFIX_def NONCE_PREFIX_def)
  from lockout_invalidates_nonce [OF mem_redis_ok _ _ s' this] show ?thesis using s' by (simp add: max5)
qed

end
