(* ===== verification/Indexer_Db.thy ===== *)
theory Indexer_Db
  imports Service_Prog Js_Rounding Js_Text
begin

text \<open>
  The tables the ledger indexer writes, and the database calls it makes. The job payloads are those of
  \<^verbatim>\<open>apps/api/src/indexer/queues.ts\<close>, the rows those of \<^verbatim>\<open>prisma/schema.prisma\<close> (without the columns the
  indexer leaves to the database: generated ids and \<^verbatim>\<open>updatedAt\<close>). Prisma is a parameter: \<open>db_ok exec
  view\<close> states what a call does to the tables \<open>view\<close> when it succeeds, and that a failing call did all
  of it or nothing. The clock, the RPC server and the token list answer as they like. \<open>mem_db\<close> is a
  concrete instance for the witnesses.
\<close>

section \<open>Job payloads\<close>

record pool_created_data =
  pc_eventId :: string
  pc_ledger :: "jsnum option"
  pc_poolId :: string
  pc_tokenA :: string
  pc_tokenB :: string
  pc_fee :: string
  pc_sqrtPriceX96 :: string
  pc_timestamp :: "string option"

record swap_processed_data =
  sp_eventId :: string
  sp_ledger :: "jsnum option"
  sp_poolId :: string
  sp_sender :: string
  sp_recipient :: string
  sp_amount0 :: string
  sp_amount1 :: string
  sp_sqrtPriceX96 :: string
  sp_liquidity :: string
  sp_tick :: jsnum
  sp_transactionHash :: "string option"
  sp_feeAmount :: "string option"
  sp_timestamp :: "string option"

text \<open>A position event may lack its token id: the property is then absent from the payload.\<close>

record position_data =
  pd_eventId :: string
  pd_ledger :: "jsnum option"
  pd_poolId :: string
  pd_tokenId :: "string option"
  pd_owner :: string
  pd_tickLower :: jsnum
  pd_tickUpper :: jsnum
  pd_liquidity :: string
  pd_amount0 :: string
  pd_amount1 :: string

record fees_collected_data =
  fc_eventId :: string
  fc_ledger :: "jsnum option"
  fc_poolId :: string
  fc_recipient :: string
  fc_amount0 :: string
  fc_amount1 :: string

section \<open>Rows\<close>

text \<open>
  A time column holds a reading of the clock, or what was parsed from the event's timestamp. \<open>Time_Now\<close> is
  a time of which only that it is there is kept: a column that the database fills in.
\<close>

datatype time_value = Time_Now | Time_At int | Time_Of string

record pool_row =
  po_token0Address :: string
  po_token1Address :: string
  po_feeTier :: jsnum
  po_currentSqrtPrice :: string
  po_currentTick :: jsnum
  po_liquidity :: string
  po_tvl :: string
  po_volume24h :: string
  po_feeApr :: string
  po_createdAt :: time_value

record pool_patch =
  pp_tokens :: "(string \<times> string) option"
  pp_feeTier :: "jsnum option"
  pp_currentSqrtPrice :: string
  pp_state :: "(jsnum \<times> string) option"

record swap_row =
  sr_poolId :: string
  sr_senderAddress :: string
  sr_recipientAddress :: string
  sr_amount0 :: string
  sr_amount1 :: string
  sr_sqrtPriceAfter :: string
  sr_tickAfter :: jsnum
  sr_transactionHash :: string
  sr_feeAmount :: string
  sr_timestamp :: time_value

record position_row =
  pr_ownerAddress :: string
  pr_lowerTick :: jsnum
  pr_upperTick :: jsnum
  pr_liquidity :: string
  pr_closedAt :: "time_value option"

record token_row =
  tk_symbol :: string
  tk_name :: string
  tk_decimals :: int
  tk_logoUri :: "string option"

text \<open>An entry of the token list and what a contract says of itself; every field may be missing.\<close>

record listed_token =
  lt_address :: string
  lt_symbol :: "string option"
  lt_name :: "string option"
  lt_decimals :: "int option"
  lt_logoURI :: "string option"

record token_meta =
  tm_symbol :: "string option"
  tm_name :: "string option"
  tm_decimals :: "int option"

datatype sc_value = Sc_String string | Sc_Number int | Sc_Other | Sc_Undefined

record db_view =
  t_pool_created :: "string \<Rightarrow> pool_created_data option"
  t_swap_processed :: "string \<Rightarrow> swap_processed_data option"
  t_position_minted :: "string \<Rightarrow> position_data option"
  t_position_burned :: "string \<Rightarrow> position_data option"
  t_fees_collected :: "string \<Rightarrow> fees_collected_data option"
  t_token :: "string \<Rightarrow> token_row option"
  t_pool :: "string \<Rightarrow> pool_row option"
  t_swap :: "string \<Rightarrow> swap_row option"
  t_position :: "string \<times> string \<Rightarrow> position_row option"
  t_cursor :: "string option"

section \<open>Calls\<close>

datatype idx_call =
    UpsertPoolCreated pool_created_data
  | UpsertSwapProcessed swap_processed_data
  | UpsertPositionMinted position_data
  | UpsertPositionBurned position_data
  | UpsertFeesCollected fees_collected_data
  | UpsertToken string token_row
  | UpsertPool string pool_patch pool_row
  | UpsertSwap string swap_row
  | UpsertPosition "string \<times> string" string "time_value option" position_row
  | FindPool string
  | FindCursor
  | UpsertCursor string
  | CacheGetNumber string
  | DispatchWebhook string string
  | ReadClock
  | FetchTokenList
  | NewContract string
  | Simulate string string
  | FindToken string
  | PutToken string token_row

datatype idx_reply =
    IErr string
  | IOk
  | IPool "pool_row option"
  | ICursor "string option"
  | INum "jsnum option"
  | IClock int
  | ITokenList "listed_token list"
  | IScValue sc_value
  | IToken "token_row option"

type_synonym 's idx_service = "(idx_call, idx_reply, 's) service"

definition patch_pool :: "pool_patch \<Rightarrow> pool_row \<Rightarrow> pool_row" where
  "patch_pool p r = r\<lparr>
     po_token0Address := (case pp_tokens p of Some (a, b) \<Rightarrow> a | None \<Rightarrow> po_token0Address r),
     po_token1Address := (case pp_tokens p of Some (a, b) \<Rightarrow> b | None \<Rightarrow> po_token1Address r),
     po_feeTier := (case pp_feeTier p of Some f \<Rightarrow> f | None \<Rightarrow> po_feeTier r),
     po_currentSqrtPrice := pp_currentSqrtPrice p,
     po_currentTick := (case pp_state p of Some (t, l) \<Rightarrow> t | None \<Rightarrow> po_currentTick r),
     po_liquidity := (case pp_state p of Some (t, l) \<Rightarrow> l | None \<Rightarrow> po_liquidity r)\<rparr>"

definition patch_position :: "string \<Rightarrow> time_value option \<Rightarrow> position_row \<Rightarrow> position_row" where
  "patch_position liquidity closedAt r = r\<lparr>pr_liquidity := liquidity,
     pr_closedAt := (case closedAt of Some t \<Rightarrow> Some t | None \<Rightarrow> pr_closedAt r)\<rparr>"

text \<open>An upsert with an empty update part: the row is created unless it is there.\<close>

definition insert_new :: "'k \<Rightarrow> 'v \<Rightarrow> ('k \<Rightarrow> 'v option) \<Rightarrow> 'k \<Rightarrow> 'v option" where
  "insert_new k v t = (if t k = None then t(k \<mapsto> v) else t)"

fun idx_effect :: "idx_call \<Rightarrow> db_view \<Rightarrow> db_view" where
  "idx_effect (UpsertPoolCreated d) V = V\<lparr>t_pool_created := insert_new (pc_eventId d) d (t_pool_created V)\<rparr>"
| "idx_effect (UpsertSwapProcessed d) V = V\<lparr>t_swap_processed := insert_new (sp_eventId d) d (t_swap_processed V)\<rparr>"
| "idx_effect (UpsertPositionMinted d) V = V\<lparr>t_position_minted := insert_new (pd_eventId d) d (t_position_minted V)\<rparr>"
| "idx_effect (UpsertPositionBurned d) V = V\<lparr>t_position_burned := insert_new (pd_eventId d) d (t_position_burned V)\<rparr>"
| "idx_effect (UpsertFeesCollected d) V = V\<lparr>t_fees_collected := insert_new (fc_eventId d) d (t_fees_collected V)\<rparr>"
| "idx_effect (UpsertToken a r) V = V\<lparr>t_token := insert_new a r (t_token V)\<rparr>"
| "idx_effect (PutToken a r) V = V\<lparr>t_token := (t_token V)(a \<mapsto> r)\<rparr>"
| "idx_effect (UpsertPool k p r) V =
     V\<lparr>t_pool := (t_pool V)(k \<mapsto> (case t_pool V k of None \<Rightarrow> r | Some r0 \<Rightarrow> patch_pool p r0))\<rparr>"
| "idx_effect (UpsertSwap k r) V = V\<lparr>t_swap := insert_new k r (t_swap V)\<rparr>"
| "idx_effect (UpsertPosition k l c r) V =
     V\<lparr>t_position := (t_position V)(k \<mapsto> (case t_position V k of None \<Rightarrow> r | Some r0 \<Rightarrow> patch_position l c r0))\<rparr>"
| "idx_effect (UpsertCursor c) V = V\<lparr>t_cursor := Some c\<rparr>"
| "idx_effect _ V = V"

text \<open>
  The reply of a call that succeeds: the database answers from its tables; the cache, the clock, the RPC
  server and the token list answer as they like.
\<close>

fun idx_answers :: "idx_call \<Rightarrow> db_view \<Rightarrow> idx_reply \<Rightarrow> bool" where
  "idx_answers (FindPool k) V r = (r = IPool (t_pool V k))"
| "idx_answers FindCursor V r = (r = ICursor (t_cursor V))"
| "idx_answers (CacheGetNumber _) V r = (\<exists>n. r = INum n)"
| "idx_answers ReadClock V r = (\<exists>t. r = IClock t)"
| "idx_answers FetchTokenList V r = ((\<exists>ts. r = ITokenList ts) \<or> (\<exists>e. r = IErr e))"
| "idx_answers (NewContract _) V r = (r = IOk \<or> (\<exists>e. r = IErr e))"
| "idx_answers (Simulate _ _) V r = ((\<exists>v. r = IScValue v) \<or> (\<exists>e. r = IErr e))"
| "idx_answers (FindToken a) V r = (r = IToken (t_token V a))"
| "idx_answers _ V r = (r = IOk)"

definition db_ok :: "'s idx_service \<Rightarrow> ('s \<Rightarrow> db_view) \<Rightarrow> bool" where
  "db_ok exec view =
     (\<forall>c s r s'. exec c s = (r, s') \<longrightarrow>
        (idx_answers c (view s) r \<and> view s' = idx_effect c (view s)) \<or>
        (\<exists>e. r = IErr e \<and> (view s' = view s \<or> view s' = idx_effect c (view s))))"

definition db_reliable :: "'s idx_service \<Rightarrow> ('s \<Rightarrow> db_view) \<Rightarrow> bool" where
  "db_reliable exec view =
     (\<forall>c s r s'. exec c s = (r, s') \<longrightarrow> idx_answers c (view s) r \<and> view s' = idx_effect c (view s))"

lemma db_ok_view: "db_ok exec view \<Longrightarrow> exec c s = (r, s') \<Longrightarrow> view s' = view s \<or> view s' = idx_effect c (view s)"
  unfolding db_ok_def by blast

lemma db_ok_reply:
  "db_ok exec view \<Longrightarrow> exec c s = (r, s') \<Longrightarrow> (\<And>e. r \<noteq> IErr e) \<Longrightarrow>
   idx_answers c (view s) r \<and> view s' = idx_effect c (view s)"
  unfolding db_ok_def by blast

lemma db_reliable_ok: "db_reliable exec view \<Longrightarrow> db_ok exec view"
  unfolding db_reliable_def db_ok_def by blast

text \<open>The instance: the tables are the state, and every call succeeds.\<close>

fun mem_db :: "db_view idx_service" where
  "mem_db (FindPool k) V = (IPool (t_pool V k), V)"
| "mem_db FindCursor V = (ICursor (t_cursor V), V)"
| "mem_db (CacheGetNumber k) V = (INum None, V)"
| "mem_db ReadClock V = (IClock 1700000000000, V)"
| "mem_db FetchTokenList V = (ITokenList [], V)"
| "mem_db (Simulate a m) V = (IScValue (if m = ''symbol'' then Sc_String ''USDC'' else Sc_Undefined), V)"
| "mem_db (FindToken a) V = (IToken (t_token V a), V)"
| "mem_db c V = (IOk, idx_effect c V)"

lemma mem_db_reliable: "db_reliable mem_db id"
  unfolding db_reliable_def
proof (intro allI impI)
  fix c V r V'
  assume "mem_db c V = (r, V')"
  then show "idx_answers c (id V) r \<and> id V' = idx_effect c (id V)" by (cases c) auto
qed

definition empty_db :: db_view where
  "empty_db = \<lparr>t_pool_created = Map.empty, t_swap_processed = Map.empty, t_position_minted = Map.empty,
     t_position_burned = Map.empty, t_fees_collected = Map.empty, t_token = Map.empty, t_pool = Map.empty,
     t_swap = Map.empty, t_position = Map.empty, t_cursor = None\<rparr>"

section \<open>Rows that are written once\<close>

lemma insert_new_keeps: "t k' = Some v' \<Longrightarrow> insert_new k v t k' = Some v'"
  by (auto simp: insert_new_def)

lemma insert_new_there: "\<exists>v'. insert_new k v t k = Some v'"
  by (auto simp: insert_new_def)

lemma insert_new_idem [simp]: "insert_new k v (insert_new k v t) = insert_new k v t"
  by (auto simp: insert_new_def)

lemma patch_pool_idem [simp]: "patch_pool p (patch_pool p r) = patch_pool p r"
  by (auto simp: patch_pool_def split: option.splits)

lemma patch_position_idem [simp]: "patch_position l c (patch_position l c r) = patch_position l c r"
  by (auto simp: patch_position_def split: option.splits)

end
