(* ===== verification/Indexer.thy ===== *)
theory Indexer
  imports Indexer_Db
begin

text \<open>
  The queue workers of \<^verbatim>\<open>apps/api/src/indexer/indexer.worker.ts\<close> and the ledger checkpoint of
  \<^verbatim>\<open>indexer-cursor.service.ts\<close>. A handler is a program over the calls of \<^verbatim>\<open>Indexer_Db\<close>; tracing spans and
  logging are left out. A thrown error is the \<open>Inl\<close> of a handler's result and makes BullMQ retry the
  job.
\<close>

type_synonym 'a idx_prog = "(idx_call, idx_reply, string + 'a) prog"

definition idx_await :: "idx_call \<Rightarrow> idx_reply idx_prog" where
  "idx_await c = Call c (\<lambda>r. case r of IErr e \<Rightarrow> Ret (Inl e) | _ \<Rightarrow> Ret (Inr r))"

definition idx_do :: "idx_call \<Rightarrow> unit idx_prog" where
  "idx_do c = prog_then (idx_await c) (\<lambda>_. Ret (Inr ()))"

text \<open>A promise whose rejection is caught and only logged.\<close>

definition idx_detached :: "idx_call \<Rightarrow> unit idx_prog" where
  "idx_detached c = Call c (\<lambda>_. Ret (Inr ()))"

text \<open>\<^verbatim>\<open>Promise.all\<close> of two writes: both are started, then the first failure is thrown.\<close>

definition idx_both :: "idx_call \<Rightarrow> idx_call \<Rightarrow> unit idx_prog" where
  "idx_both a b = Call a (\<lambda>ra. Call b (\<lambda>rb.
     case ra of IErr e \<Rightarrow> Ret (Inl e) | _ \<Rightarrow> (case rb of IErr e \<Rightarrow> Ret (Inl e) | _ \<Rightarrow> Ret (Inr ()))))"

text \<open>\<^verbatim>\<open>catch (err) { log }\<close> around a projection.\<close>

definition idx_swallow :: "unit idx_prog \<Rightarrow> unit idx_prog" where
  "idx_swallow m = prog_catch m (\<lambda>_. Ret (Inr ()))"

section \<open>Ledger checkpoint\<close>

definition LAST_INDEXED_LEDGER_KEY :: string where
  "LAST_INDEXED_LEDGER_KEY = ''indexer:last_ledger''"

definition safe_nonneg :: "jsnum \<Rightarrow> bool" where
  "safe_nonneg n = (is_safe_integer n \<and> jle (Fin 0) n)"

definition num_int :: "jsnum \<Rightarrow> int" where
  "num_int n = (case n of Fin x \<Rightarrow> \<lfloor>x\<rfloor> | _ \<Rightarrow> 0)"

text \<open>
  \<^verbatim>\<open>IndexerCursorService\<close>. The cache service of the repository declares no \<^verbatim>\<open>setMaxNumber\<close>, so the call
  throws before anything is sent.
\<close>

definition cache_setMaxNumber :: "string \<Rightarrow> int \<Rightarrow> bool idx_prog" where
  "cache_setMaxNumber key n = Ret (Inl ''this.cache.setMaxNumber is not a function'')"

definition cursor_should_persist :: "jsnum \<Rightarrow> string option \<Rightarrow> bool" where
  "cursor_should_persist ledger current =
     (let currentLedger = (case current of Some c \<Rightarrow> num_of_string c | None \<Rightarrow> Fin (- 1))
      in \<not> is_safe_integer currentLedger \<or> jlt currentLedger ledger)"

definition cursor_advanceLedger :: "jsnum \<Rightarrow> bool idx_prog" where
  "cursor_advanceLedger ledger =
     (if \<not> safe_nonneg ledger then Ret (Inr False)
      else prog_catch
        (prog_then (cache_setMaxNumber LAST_INDEXED_LEDGER_KEY (num_int ledger)) (\<lambda>cacheUpdated.
         prog_then (idx_await FindCursor) (\<lambda>c.
         let current = (case c of ICursor cur \<Rightarrow> cur | _ \<Rightarrow> None);
             shouldPersist = cursor_should_persist ledger current
         in if shouldPersist then
              prog_then (idx_do (UpsertCursor (show_int (num_int ledger)))) (\<lambda>_. Ret (Inr True))
            else Ret (Inr cacheUpdated))))
        (\<lambda>_. Ret (Inr False)))"

definition cursor_getLastLedger :: "jsnum idx_prog" where
  "cursor_getLastLedger =
     Call (CacheGetNumber LAST_INDEXED_LEDGER_KEY) (\<lambda>r.
       let fallback = prog_catch
             (prog_then (idx_await FindCursor) (\<lambda>c.
                case c of
                  ICursor (Some cur) \<Rightarrow>
                    (if is_safe_integer (num_of_string cur) then
                       prog_then (cache_setMaxNumber LAST_INDEXED_LEDGER_KEY (num_int (num_of_string cur)))
                         (\<lambda>_. Ret (Inr (num_of_string cur)))
                     else Ret (Inr (Fin 0)))
                | _ \<Rightarrow> Ret (Inr (Fin 0))))
             (\<lambda>_. Ret (Inr (Fin 0)))
       in case r of
            INum (Some n) \<Rightarrow> (if safe_nonneg n then Ret (Inr n) else fallback)
          | _ \<Rightarrow> fallback)"

definition worker_advanceLedger :: "jsnum option \<Rightarrow> unit idx_prog" where
  "worker_advanceLedger ledger =
     (case ledger of
        None \<Rightarrow> Ret (Inr ())
      | Some l \<Rightarrow> (if \<not> safe_nonneg l then Ret (Inr ())
          else prog_then (cursor_advanceLedger l) (\<lambda>_. Ret (Inr ()))))"

section \<open>Payload guard\<close>

text \<open>The string properties a payload has; an absent optional property is not among its entries.\<close>

definition opt_entry :: "string option \<Rightarrow> string list" where
  "opt_entry v = (case v of Some s \<Rightarrow> [s] | None \<Rightarrow> [])"

definition guardEmptyData :: "string list \<Rightarrow> bool" where
  "guardEmptyData entries = list_all (\<lambda>s. s \<noteq> []) entries"

definition pool_created_entries :: "pool_created_data \<Rightarrow> string list" where
  "pool_created_entries d = [pc_eventId d, pc_poolId d, pc_tokenA d, pc_tokenB d, pc_fee d, pc_sqrtPriceX96 d] @
     opt_entry (pc_timestamp d)"

definition swap_processed_entries :: "swap_processed_data \<Rightarrow> string list" where
  "swap_processed_entries d = [sp_eventId d, sp_poolId d, sp_sender d, sp_recipient d, sp_amount0 d, sp_amount1 d,
     sp_sqrtPriceX96 d, sp_liquidity d] @ opt_entry (sp_transactionHash d) @ opt_entry (sp_feeAmount d) @
     opt_entry (sp_timestamp d)"

definition position_entries :: "position_data \<Rightarrow> string list" where
  "position_entries d = [pd_eventId d, pd_poolId d] @ opt_entry (pd_tokenId d) @
     [pd_owner d, pd_liquidity d, pd_amount0 d, pd_amount1 d]"

definition fees_collected_entries :: "fees_collected_data \<Rightarrow> string list" where
  "fees_collected_entries d = [fc_eventId d, fc_poolId d, fc_recipient d, fc_amount0 d, fc_amount1 d]"

section \<open>Time\<close>

definition read_clock :: "time_value idx_prog" where
  "read_clock = Call ReadClock (\<lambda>r. Ret (Inr (case r of IClock t \<Rightarrow> Time_At t | _ \<Rightarrow> Time_Now)))"

text \<open>\<^verbatim>\<open>d.timestamp ? new Date(d.timestamp) : new Date()\<close>\<close>

definition time_of :: "string option \<Rightarrow> time_value idx_prog" where
  "time_of t = (case t of Some (c # cs) \<Rightarrow> Ret (Inr (Time_Of (c # cs))) | _ \<Rightarrow> read_clock)"

section \<open>Token metadata\<close>

text \<open>
  \<^verbatim>\<open>token-enrichment.service.ts\<close>. The RPC server, the contract bindings and the token list are calls. A list
  that is not configured answers like one that cannot be fetched. Keys of the list's map are lower case
  and a later entry replaces an earlier one.
\<close>

definition token_list_map :: "listed_token list \<Rightarrow> string \<Rightarrow> listed_token option" where
  "token_list_map ts = map_of (rev (map (\<lambda>t. (map lower_char (lt_address t), t)) ts))"

definition fetchTokenListMap :: "(string \<Rightarrow> listed_token option) idx_prog" where
  "fetchTokenListMap = Call FetchTokenList (\<lambda>r. case r of
     ITokenList ts \<Rightarrow> Ret (Inr (token_list_map ts)) | _ \<Rightarrow> Ret (Inr Map.empty))"

definition contract_value :: "string \<Rightarrow> string \<Rightarrow> sc_value idx_prog" where
  "contract_value a method =
     Call (Simulate a method) (\<lambda>r. Ret (Inr (case r of IScValue v \<Rightarrow> v | _ \<Rightarrow> Sc_Undefined)))"

definition sc_string :: "sc_value \<Rightarrow> string option" where
  "sc_string v = (case v of Sc_String s \<Rightarrow> Some s | _ \<Rightarrow> None)"

definition sc_number :: "sc_value \<Rightarrow> int option" where
  "sc_number v = (case v of Sc_Number n \<Rightarrow> Some n | _ \<Rightarrow> None)"

definition fetchOnChainMetadata :: "string \<Rightarrow> token_meta idx_prog" where
  "fetchOnChainMetadata a =
     prog_then (idx_do (NewContract a)) (\<lambda>_.
     prog_then (contract_value a ''symbol'') (\<lambda>s.
     prog_then (contract_value a ''name'') (\<lambda>n.
     prog_then (contract_value a ''decimals'') (\<lambda>d.
     Ret (Inr \<lparr>tm_symbol = sc_string s, tm_name = sc_string n, tm_decimals = sc_number d\<rparr>)))))"

text \<open>\<^verbatim>\<open>x ?? y\<close> where \<open>y\<close> may be missing as well.\<close>

definition first_of :: "'a option \<Rightarrow> 'a option \<Rightarrow> 'a option" where
  "first_of x y = (case x of Some v \<Rightarrow> Some v | None \<Rightarrow> y)"

definition enriched_row :: "string \<Rightarrow> token_meta \<Rightarrow> listed_token option \<Rightarrow> token_row option \<Rightarrow> token_row" where
  "enriched_row a onChain listed existing =
     \<lparr>tk_symbol = or_else (first_of (tm_symbol onChain) (first_of (Option.bind listed lt_symbol)
        (map_option tk_symbol existing))) ''UNKNOWN'',
      tk_name = or_else (first_of (tm_name onChain) (first_of (Option.bind listed lt_name)
        (map_option tk_name existing))) a,
      tk_decimals = or_else (first_of (tm_decimals onChain) (first_of (Option.bind listed lt_decimals)
        (map_option tk_decimals existing))) 7,
      tk_logoUri = first_of (Option.bind listed lt_logoURI) (Option.bind existing tk_logoUri)\<rparr>"

text \<open>
  \<^verbatim>\<open>upsertToken\<close>: the metadata and the row are asked for together, so the row is read even when there is no
  contract; any failure is logged and nothing is written.
\<close>

definition upsertToken :: "string \<Rightarrow> (string \<Rightarrow> listed_token option) \<Rightarrow> unit idx_prog" where
  "upsertToken a listMap = prog_catch
     (prog_bind (fetchOnChainMetadata a) (\<lambda>meta.
      prog_bind (idx_await (FindToken a)) (\<lambda>found.
      case meta of
        Inl e \<Rightarrow> Ret (Inl e)
      | Inr onChain \<Rightarrow> (case found of
          Inl e \<Rightarrow> Ret (Inl e)
        | Inr r \<Rightarrow>
            let existing = (case r of IToken row \<Rightarrow> row | _ \<Rightarrow> None);
                listed = listMap (map lower_char a)
            in idx_do (PutToken a (enriched_row a onChain listed existing))))))
     (\<lambda>_. Ret (Inr ()))"

definition enrichToken :: "string \<Rightarrow> unit idx_prog" where
  "enrichToken a = prog_then fetchTokenListMap (upsertToken a)"

section \<open>Pool created\<close>

definition new_token :: "string \<Rightarrow> token_row" where
  "new_token a = \<lparr>tk_symbol = take 4 a, tk_name = a, tk_decimals = 7, tk_logoUri = None\<rparr>"

definition pool_created_patch :: "pool_created_data \<Rightarrow> pool_patch" where
  "pool_created_patch d = \<lparr>pp_tokens = Some (pc_tokenA d, pc_tokenB d), pp_feeTier = Some (parse_int10 (pc_fee d)),
     pp_currentSqrtPrice = pc_sqrtPriceX96 d, pp_state = None\<rparr>"

definition pool_created_row :: "pool_created_data \<Rightarrow> time_value \<Rightarrow> pool_row" where
  "pool_created_row d createdAt = \<lparr>po_token0Address = pc_tokenA d, po_token1Address = pc_tokenB d,
     po_feeTier = parse_int10 (pc_fee d), po_currentSqrtPrice = pc_sqrtPriceX96 d, po_currentTick = Fin 0,
     po_liquidity = ''0'', po_tvl = ''0'', po_volume24h = ''0'', po_feeApr = ''0'',
     po_createdAt = createdAt\<rparr>"

text \<open>
  \<^verbatim>\<open>Promise.allSettled\<close> of the two enrichments is awaited. They are modelled one after the other: they write
  the rows of different tokens, and other handlers may run between any two of their calls.
\<close>

definition projectPoolCreated :: "pool_created_data \<Rightarrow> unit idx_prog" where
  "projectPoolCreated d = idx_swallow
     (prog_then (idx_both (UpsertToken (pc_tokenA d) (new_token (pc_tokenA d)))
                          (UpsertToken (pc_tokenB d) (new_token (pc_tokenB d)))) (\<lambda>_.
      prog_then (time_of (pc_timestamp d)) (\<lambda>createdAt.
      prog_then (idx_do (UpsertPool (pc_poolId d) (pool_created_patch d) (pool_created_row d createdAt))) (\<lambda>_.
      prog_then (idx_swallow (enrichToken (pc_tokenA d))) (\<lambda>_.
      idx_swallow (enrichToken (pc_tokenB d)))))))"

definition handlePoolCreated :: "pool_created_data \<Rightarrow> unit idx_prog" where
  "handlePoolCreated d =
     (if \<not> guardEmptyData (pool_created_entries d) then Ret (Inr ())
      else
        prog_then (idx_do (UpsertPoolCreated (d\<lparr>pc_timestamp := None\<rparr>))) (\<lambda>_.
        prog_then (projectPoolCreated d) (\<lambda>_.
        prog_then (idx_detached (DispatchWebhook ''pool.created'' (pc_eventId d))) (\<lambda>_.
        worker_advanceLedger (pc_ledger d)))))"

section \<open>Swap processed\<close>

text \<open>\<^verbatim>\<open>PoolsRepository.isValidSqrtPrice\<close>: BigInt throws on anything that is no integer literal.\<close>

definition isValidSqrtPrice :: "string \<Rightarrow> string + bool" where
  "isValidSqrtPrice value =
     (if trim value = [] then Inr False
      else case bigint_of_string (trim value) of
          None \<Rightarrow> Inl (''Cannot convert '' @ trim value @ '' to a BigInt'')
        | Some n \<Rightarrow> Inr (0 < n))"

definition derived_fee :: "string \<Rightarrow> jsnum \<Rightarrow> string" where
  "derived_fee a0 feeTier =
     (let fee = jmul (jabs (num_of_string a0)) (jdiv feeTier (Fin 1000000))
      in if is_finite fee then num_to_string fee else ''0'')"

definition resolveFeeAmount :: "swap_processed_data \<Rightarrow> string idx_prog" where
  "resolveFeeAmount d =
     (case sp_feeAmount d of
        Some (c # cs) \<Rightarrow> Ret (Inr (c # cs))
      | _ \<Rightarrow> Call (FindPool (sp_poolId d)) (\<lambda>r. case r of
          IPool (Some p) \<Rightarrow> Ret (Inr (derived_fee (sp_amount0 d) (po_feeTier p)))
        | _ \<Rightarrow> Ret (Inr ''0'')))"

definition swap_row_of :: "swap_processed_data \<Rightarrow> string \<Rightarrow> time_value \<Rightarrow> swap_row" where
  "swap_row_of d feeAmount timestamp = \<lparr>sr_poolId = sp_poolId d, sr_senderAddress = sp_sender d,
     sr_recipientAddress = sp_recipient d, sr_amount0 = sp_amount0 d, sr_amount1 = sp_amount1 d,
     sr_sqrtPriceAfter = sp_sqrtPriceX96 d, sr_tickAfter = sp_tick d,
     sr_transactionHash = (case sp_transactionHash d of Some h \<Rightarrow> h | None \<Rightarrow> sp_eventId d),
     sr_feeAmount = feeAmount, sr_timestamp = timestamp\<rparr>"

definition swap_patch :: "swap_processed_data \<Rightarrow> pool_patch" where
  "swap_patch d = \<lparr>pp_tokens = None, pp_feeTier = None, pp_currentSqrtPrice = sp_sqrtPriceX96 d,
     pp_state = Some (sp_tick d, sp_liquidity d)\<rparr>"

definition placeholder_pool :: "swap_processed_data \<Rightarrow> pool_row" where
  "placeholder_pool d = \<lparr>po_token0Address = ''unknown'', po_token1Address = ''unknown'', po_feeTier = Fin 0,
     po_currentSqrtPrice = sp_sqrtPriceX96 d, po_currentTick = sp_tick d, po_liquidity = sp_liquidity d,
     po_tvl = ''0'', po_volume24h = ''0'', po_feeApr = ''0'', po_createdAt = Time_Now\<rparr>"

definition projectSwapProcessed :: "swap_processed_data \<Rightarrow> unit idx_prog" where
  "projectSwapProcessed d = idx_swallow
     (prog_then (resolveFeeAmount d) (\<lambda>feeAmount.
      case isValidSqrtPrice (sp_sqrtPriceX96 d) of
        Inl e \<Rightarrow> Ret (Inl e)
      | Inr False \<Rightarrow>
          prog_then (time_of (sp_timestamp d)) (\<lambda>timestamp.
          idx_do (UpsertSwap (sp_eventId d) (swap_row_of d feeAmount timestamp)))
      | Inr True \<Rightarrow>
          prog_then (time_of (sp_timestamp d)) (\<lambda>timestamp.
          prog_then (idx_do (UpsertPool (sp_poolId d) (swap_patch d) (placeholder_pool d))) (\<lambda>_.
          idx_do (UpsertSwap (sp_eventId d) (swap_row_of d feeAmount timestamp))))))"

definition raw_swap :: "swap_processed_data \<Rightarrow> swap_processed_data" where
  "raw_swap d = d\<lparr>sp_transactionHash := None, sp_feeAmount := None, sp_timestamp := None\<rparr>"

definition handleSwapProcessed :: "swap_processed_data \<Rightarrow> unit idx_prog" where
  "handleSwapProcessed d =
     (if \<not> guardEmptyData (swap_processed_entries d) then Ret (Inr ())
      else
        prog_then (idx_do (UpsertSwapProcessed (raw_swap d))) (\<lambda>_.
        prog_then (projectSwapProcessed d) (\<lambda>_.
        prog_then (idx_detached (DispatchWebhook ''swap.large'' (sp_eventId d))) (\<lambda>_.
        worker_advanceLedger (sp_ledger d)))))"

section \<open>Positions and fees\<close>

definition new_position :: "position_data \<Rightarrow> time_value option \<Rightarrow> position_row" where
  "new_position d closedAt = \<lparr>pr_ownerAddress = pd_owner d, pr_lowerTick = pd_tickLower d,
     pr_upperTick = pd_tickUpper d, pr_liquidity = pd_liquidity d, pr_closedAt = closedAt\<rparr>"

text \<open>
  \<open>closes\<close> says that a burn which leaves no liquidity sets \<^verbatim>\<open>closedAt\<close>: the update and the create part of
  the upsert each read the clock, and only one of the two is used.
\<close>

definition project_position :: "position_data \<Rightarrow> bool \<Rightarrow> unit idx_prog" where
  "project_position d closes =
     (case pd_tokenId d of
        Some (c # cs) \<Rightarrow>
          prog_then (if closes then prog_then read_clock (\<lambda>t. Ret (Inr (Some t))) else Ret (Inr None)) (\<lambda>closedAt.
          idx_do (UpsertPosition (pd_poolId d, c # cs) (pd_liquidity d) closedAt (new_position d closedAt)))
      | _ \<Rightarrow> Ret (Inr ()))"

definition handlePositionMinted :: "position_data \<Rightarrow> unit idx_prog" where
  "handlePositionMinted d =
     (if \<not> guardEmptyData (position_entries d) then Ret (Inr ())
      else
        prog_then (idx_do (UpsertPositionMinted d)) (\<lambda>_.
        prog_then (project_position d False) (\<lambda>_.
        worker_advanceLedger (pd_ledger d))))"

definition handlePositionBurned :: "position_data \<Rightarrow> unit idx_prog" where
  "handlePositionBurned d =
     (if \<not> guardEmptyData (position_entries d) then Ret (Inr ())
      else
        prog_then (idx_do (UpsertPositionBurned d)) (\<lambda>_.
        prog_then (project_position d (pd_liquidity d = ''0'')) (\<lambda>_.
        worker_advanceLedger (pd_ledger d))))"

definition handleFeesCollected :: "fees_collected_data \<Rightarrow> unit idx_prog" where
  "handleFeesCollected d =
     (if \<not> guardEmptyData (fees_collected_entries d) then Ret (Inr ())
      else prog_then (idx_do (UpsertFeesCollected d)) (\<lambda>_. worker_advanceLedger (fc_ledger d)))"

section \<open>Jobs\<close>

datatype idx_job =
    Pool_Created pool_created_data
  | Swap_Processed swap_processed_data
  | Position_Minted position_data
  | Position_Burned position_data
  | Fees_Collected fees_collected_data

fun idx_handler :: "idx_job \<Rightarrow> unit idx_prog" where
  "idx_handler (Pool_Created d) = handlePoolCreated d"
| "idx_handler (Swap_Processed d) = handleSwapProcessed d"
| "idx_handler (Position_Minted d) = handlePositionMinted d"
| "idx_handler (Position_Burned d) = handlePositionBurned d"
| "idx_handler (Fees_Collected d) = handleFeesCollected d"

text \<open>\<^verbatim>\<open>guardedHandler\<close>: a worker that is not ready acknowledges the job without running it.\<close>

definition guardedHandler :: "bool \<Rightarrow> idx_job \<Rightarrow> unit idx_prog" where
  "guardedHandler ready job = (if \<not> ready then Ret (Inr ()) else idx_handler job)"

text \<open>
  \<^verbatim>\<open>worker.on('failed')\<close>: what is recorded in the dead-letter table, if the attempts are used up. The job id
  and the payload's event id may be missing.
\<close>

record dead_letter =
  dl_jobId :: string
  dl_queueName :: string
  dl_eventId :: string
  dl_error :: string
  dl_attemptsMade :: int

definition on_failed :: "string option \<Rightarrow> string \<Rightarrow> string option \<Rightarrow> string \<Rightarrow> int \<Rightarrow> dead_letter option" where
  "on_failed jobId queueName eventId err attempts =
     (if 3 \<le> attempts then
        Some \<lparr>dl_jobId = (case jobId of Some (c # cs) \<Rightarrow> c # cs | _ \<Rightarrow> ''unknown''), dl_queueName = queueName,
          dl_eventId = (case eventId of Some e \<Rightarrow> e | None \<Rightarrow> ''unknown''), dl_error = err, dl_attemptsMade = attempts\<rparr>
      else None)"

text \<open>\<^verbatim>\<open>getWorkerConcurrency\<close> of \<^verbatim>\<open>queues.ts\<close>; the two environment values are arguments.\<close>

definition getWorkerConcurrency :: "string option \<Rightarrow> string option \<Rightarrow> int" where
  "getWorkerConcurrency queue_value general_value =
     (let raw = (case queue_value of Some v \<Rightarrow> Some v | None \<Rightarrow> general_value);
          parsed = (case raw of Some s \<Rightarrow> num_of_string s | None \<Rightarrow> NaN)
      in case parsed of
           Fin x \<Rightarrow> if is_integer (Fin x) \<and> 0 < x then \<lfloor>x\<rfloor> else 5
         | _ \<Rightarrow> 5)"

end
