(* ===== verification/Indexer_Laws.thy ===== *)
theory Indexer_Laws
  imports Indexer
begin

text \<open>
  Properties of the indexer of \<^verbatim>\<open>Indexer\<close>. \<open>idx_spec\<close> is what a job is meant to do to the tables, given what
  the clock, the contracts and the token list answered; with a database that answers, every handler
  implements it, and running a job a second time changes only what it reads anew. The ledger checkpoint is
  never stored.
\<close>

section \<open>The meaning of a job\<close>

text \<open>What a job learns from outside: the time, and the metadata of the two tokens of a pool if there is any.\<close>

type_synonym enrichment = "(token_meta \<times> listed_token option) option"

record idx_env =
  en_now :: int
  en_tokenA :: enrichment
  en_tokenB :: enrichment

definition time_spec :: "string option \<Rightarrow> int \<Rightarrow> time_value" where
  "time_spec t now = (case t of Some (c # cs) \<Rightarrow> Time_Of (c # cs) | _ \<Rightarrow> Time_At now)"

definition enrich_spec :: "string \<Rightarrow> enrichment \<Rightarrow> db_view \<Rightarrow> db_view" where
  "enrich_spec a e V =
     (case e of
        None \<Rightarrow> V
      | Some (onChain, listed) \<Rightarrow> idx_effect (PutToken a (enriched_row a onChain listed (t_token V a))) V)"

definition fee_spec :: "swap_processed_data \<Rightarrow> db_view \<Rightarrow> string" where
  "fee_spec d V =
     (case sp_feeAmount d of
        Some (c # cs) \<Rightarrow> c # cs
      | _ \<Rightarrow> (case t_pool V (sp_poolId d) of Some p \<Rightarrow> derived_fee (sp_amount0 d) (po_feeTier p) | None \<Rightarrow> ''0''))"

definition swap_spec :: "swap_processed_data \<Rightarrow> time_value \<Rightarrow> db_view \<Rightarrow> db_view" where
  "swap_spec d t V =
     (let put_swap = idx_effect (UpsertSwap (sp_eventId d) (swap_row_of d (fee_spec d V) t))
      in case isValidSqrtPrice (sp_sqrtPriceX96 d) of
           Inl e \<Rightarrow> V
         | Inr False \<Rightarrow> put_swap V
         | Inr True \<Rightarrow> put_swap (idx_effect (UpsertPool (sp_poolId d) (swap_patch d) (placeholder_pool d)) V))"

definition pool_spec :: "pool_created_data \<Rightarrow> time_value \<Rightarrow> db_view \<Rightarrow> db_view" where
  "pool_spec d t V =
     idx_effect (UpsertPool (pc_poolId d) (pool_created_patch d) (pool_created_row d t))
       (idx_effect (UpsertToken (pc_tokenB d) (new_token (pc_tokenB d)))
         (idx_effect (UpsertToken (pc_tokenA d) (new_token (pc_tokenA d))) V))"

definition position_spec :: "position_data \<Rightarrow> time_value option \<Rightarrow> db_view \<Rightarrow> db_view" where
  "position_spec d closedAt V =
     (case pd_tokenId d of
        Some (c # cs) \<Rightarrow>
          idx_effect (UpsertPosition (pd_poolId d, c # cs) (pd_liquidity d) closedAt (new_position d closedAt)) V
      | _ \<Rightarrow> V)"

definition burn_time :: "position_data \<Rightarrow> int \<Rightarrow> time_value option" where
  "burn_time d now = (if pd_liquidity d = ''0'' then Some (Time_At now) else None)"

fun raw_call :: "idx_job \<Rightarrow> idx_call" where
  "raw_call (Pool_Created d) = UpsertPoolCreated (d\<lparr>pc_timestamp := None\<rparr>)"
| "raw_call (Swap_Processed d) = UpsertSwapProcessed (raw_swap d)"
| "raw_call (Position_Minted d) = UpsertPositionMinted d"
| "raw_call (Position_Burned d) = UpsertPositionBurned d"
| "raw_call (Fees_Collected d) = UpsertFeesCollected d"

fun job_entries :: "idx_job \<Rightarrow> string list" where
  "job_entries (Pool_Created d) = pool_created_entries d"
| "job_entries (Swap_Processed d) = swap_processed_entries d"
| "job_entries (Position_Minted d) = position_entries d"
| "job_entries (Position_Burned d) = position_entries d"
| "job_entries (Fees_Collected d) = fees_collected_entries d"

fun project_spec :: "idx_job \<Rightarrow> idx_env \<Rightarrow> db_view \<Rightarrow> db_view" where
  "project_spec (Pool_Created d) env V =
     enrich_spec (pc_tokenB d) (en_tokenB env) (enrich_spec (pc_tokenA d) (en_tokenA env)
       (pool_spec d (time_spec (pc_timestamp d) (en_now env)) V))"
| "project_spec (Swap_Processed d) env V = swap_spec d (time_spec (sp_timestamp d) (en_now env)) V"
| "project_spec (Position_Minted d) env V = position_spec d None V"
| "project_spec (Position_Burned d) env V = position_spec d (burn_time d (en_now env)) V"
| "project_spec (Fees_Collected d) env V = V"

text \<open>The checkpoint is not among the tables a job changes.\<close>

definition idx_spec :: "idx_job \<Rightarrow> idx_env \<Rightarrow> db_view \<Rightarrow> db_view" where
  "idx_spec job env V =
     (if guardEmptyData (job_entries job) then project_spec job env (idx_effect (raw_call job) V) else V)"

section \<open>The checkpoint is never stored\<close>

lemma cursor_advance_fails: "cursor_advanceLedger l = Ret (Inr False)"
  by (simp add: cursor_advanceLedger_def cache_setMaxNumber_def)

lemma worker_advance_nothing [simp]: "worker_advanceLedger l = Ret (Inr ())"
  by (cases l) (simp_all add: worker_advanceLedger_def cursor_advance_fails)

section \<open>Parts of a handler\<close>

text \<open>
  What the outside told: a reply that a call can get, a value a contract can return, a token list, the metadata
  of a token (\<open>None\<close> where its address is no contract), and the surroundings of a job made up of these.
\<close>

definition told :: "'s idx_service \<Rightarrow> idx_call \<Rightarrow> idx_reply \<Rightarrow> bool" where
  "told exec c r = (\<exists>s s'. exec c s = (r, s'))"

definition value_told :: "'s idx_service \<Rightarrow> string \<Rightarrow> string \<Rightarrow> sc_value \<Rightarrow> bool" where
  "value_told exec a field v =
     (\<exists>r. told exec (Simulate a field) r \<and> v = (case r of IScValue x \<Rightarrow> x | _ \<Rightarrow> Sc_Undefined))"

definition list_told :: "'s idx_service \<Rightarrow> (string \<Rightarrow> listed_token option) \<Rightarrow> bool" where
  "list_told exec m = (\<exists>r. told exec FetchTokenList r \<and>
     m = (case r of ITokenList ts \<Rightarrow> token_list_map ts | _ \<Rightarrow> Map.empty))"

definition meta_told :: "'s idx_service \<Rightarrow> string \<Rightarrow> token_meta \<Rightarrow> bool" where
  "meta_told exec a meta = (\<exists>y n d. value_told exec a ''symbol'' y \<and> value_told exec a ''name'' n \<and>
     value_told exec a ''decimals'' d \<and>
     meta = \<lparr>tm_symbol = sc_string y, tm_name = sc_string n, tm_decimals = sc_number d\<rparr>)"

definition enrichment_of :: "'s idx_service \<Rightarrow> string \<Rightarrow> (string \<Rightarrow> listed_token option) \<Rightarrow> enrichment \<Rightarrow> bool" where
  "enrichment_of exec a m e = (case e of
     None \<Rightarrow> \<exists>x. told exec (NewContract a) (IErr x)
   | Some (onChain, listed) \<Rightarrow> meta_told exec a onChain \<and> listed = m (map lower_char a))"

definition enrichment_told :: "'s idx_service \<Rightarrow> string \<Rightarrow> enrichment \<Rightarrow> bool" where
  "enrichment_told exec a e = (\<exists>m. list_told exec m \<and> enrichment_of exec a m e)"

definition env_told :: "'s idx_service \<Rightarrow> idx_job \<Rightarrow> idx_env \<Rightarrow> bool" where
  "env_told exec job env = (told exec ReadClock (IClock (en_now env)) \<and>
     (case job of
        Pool_Created d \<Rightarrow> enrichment_told exec (pc_tokenA d) (en_tokenA env) \<and> enrichment_told exec (pc_tokenB d) (en_tokenB env)
      | _ \<Rightarrow> True))"

text \<open>A part of a handler that returns normally, with a result and tables that \<open>R\<close> relates to those before.\<close>

definition meets :: "'s idx_service \<Rightarrow> ('s \<Rightarrow> db_view) \<Rightarrow> 'a idx_prog \<Rightarrow> (db_view \<Rightarrow> 'a \<Rightarrow> db_view \<Rightarrow> bool) \<Rightarrow> bool" where
  "meets exec view m R = (\<forall>s. \<exists>x s'. run exec m s = (Inr x, s') \<and> R (view s) x (view s'))"

lemma meets_then:
  assumes "meets exec view m R" and "\<And>x. meets exec view (k x) (R' x)"
    and "\<And>V x U y W. R V x U \<Longrightarrow> R' x U y W \<Longrightarrow> Q V y W"
  shows "meets exec view (prog_then m k) Q"
  unfolding meets_def
proof
  fix s
  obtain x s1 where s1: "run exec m s = (Inr x, s1)" "R (view s) x (view s1)"
    using assms(1) unfolding meets_def by blast
  obtain y s2 where s2: "run exec (k x) s1 = (Inr y, s2)" "R' x (view s1) y (view s2)"
    using assms(2) unfolding meets_def by blast
  show "\<exists>y s'. run exec (prog_then m k) s = (Inr y, s') \<and> Q (view s) y (view s')"
    using s1 s2 assms(3) by (simp add: run_then)
qed

lemma meets_weaken: "meets exec view m R \<Longrightarrow> (\<And>V x W. R V x W \<Longrightarrow> Q V x W) \<Longrightarrow> meets exec view m Q"
  unfolding meets_def by metis

lemma meets_return: "meets exec view (Ret (Inr x)) (\<lambda>V y W. y = x \<and> W = V)"
  by (simp add: meets_def)

lemma meets_swallow:
  assumes "meets exec view m R"
  shows "meets exec view (idx_swallow m) R"
  unfolding meets_def
proof
  fix s
  obtain x s' where "run exec m s = (Inr x, s')" "R (view s) x (view s')" using assms unfolding meets_def by blast
  then show "\<exists>x s'. run exec (idx_swallow m) s = (Inr x, s') \<and> R (view s) x (view s')"
    by (simp add: idx_swallow_def run_catch)
qed

lemma reliable_call:
  assumes "db_reliable exec view"
  obtains r s' where "exec c s = (r, s')" and "idx_answers c (view s) r" and "view s' = idx_effect c (view s)"
proof -
  obtain r s' where "exec c s = (r, s')" by force
  then show ?thesis using assms that unfolding db_reliable_def by blast
qed

lemma meets_call:
  assumes "db_reliable exec view" and "\<And>r. meets exec view (k r) (R r)"
    and "\<And>V r y W. told exec c r \<Longrightarrow> idx_answers c V r \<Longrightarrow> R r (idx_effect c V) y W \<Longrightarrow> Q V y W"
  shows "meets exec view (Call c k) Q"
  unfolding meets_def
proof
  fix s
  obtain r s1 where s1: "exec c s = (r, s1)" "idx_answers c (view s) r" "view s1 = idx_effect c (view s)"
    using assms(1) by (rule reliable_call)
  obtain y s2 where "run exec (k r) s1 = (Inr y, s2)" "R r (view s1) y (view s2)"
    using assms(2) unfolding meets_def by blast
  moreover have "told exec c r" using s1(1) unfolding told_def by blast
  ultimately show "\<exists>y s'. run exec (Call c k) s = (Inr y, s') \<and> Q (view s) y (view s')"
    using s1 assms(3) by simp
qed

text \<open>A write that the database confirms.\<close>

lemma meets_do:
  assumes "db_reliable exec view" and "\<And>V r. idx_answers c V r \<Longrightarrow> r = IOk"
  shows "meets exec view (idx_do c) (\<lambda>V _ W. W = idx_effect c V)"
  unfolding meets_def
proof
  fix s
  obtain r s' where s': "exec c s = (r, s')" "idx_answers c (view s) r" "view s' = idx_effect c (view s)"
    using assms(1) by (rule reliable_call)
  have "r = IOk" using assms(2) s'(2) .
  then show "\<exists>x s'. run exec (idx_do c) s = (Inr x, s') \<and> view s' = idx_effect c (view s)"
    using s' by (simp add: idx_do_def idx_await_def)
qed

lemma meets_both:
  assumes "db_reliable exec view" and "\<And>V r. idx_answers a V r \<Longrightarrow> r = IOk" and "\<And>V r. idx_answers b V r \<Longrightarrow> r = IOk"
  shows "meets exec view (idx_both a b) (\<lambda>V _ W. W = idx_effect b (idx_effect a V))"
  unfolding meets_def
proof
  fix s
  obtain r1 s1 where c1: "exec a s = (r1, s1)" "idx_answers a (view s) r1" "view s1 = idx_effect a (view s)"
    using assms(1) by (rule reliable_call)
  obtain r2 s2 where c2: "exec b s1 = (r2, s2)" "idx_answers b (view s1) r2" "view s2 = idx_effect b (view s1)"
    using assms(1) by (rule reliable_call)
  have "r1 = IOk" "r2 = IOk" using c1(2) c2(2) assms(2,3) by auto
  then show "\<exists>x s'. run exec (idx_both a b) s = (Inr x, s') \<and> view s' = idx_effect b (idx_effect a (view s))"
    using c1 c2 by (simp add: idx_both_def)
qed

lemma meets_hook:
  assumes "db_reliable exec view"
  shows "meets exec view (idx_detached (DispatchWebhook a b)) (\<lambda>V _ W. W = V)"
  unfolding idx_detached_def by (rule meets_call [OF assms meets_return]) simp

lemma meets_clock:
  assumes "db_reliable exec view"
  shows "meets exec view read_clock (\<lambda>V t W. W = V \<and> (\<exists>now. t = Time_At now \<and> told exec ReadClock (IClock now)))"
  unfolding read_clock_def by (rule meets_call [OF assms meets_return]) auto

definition env_at :: "int \<Rightarrow> idx_env" where
  "env_at now = \<lparr>en_now = now, en_tokenA = None, en_tokenB = None\<rparr>"

lemma env_at_sel [simp]: "en_now (env_at now) = now" "en_tokenA (env_at now) = None" "en_tokenB (env_at now) = None"
  by (simp_all add: env_at_def)

lemma clock_tells:
  assumes "db_reliable exec view"
  obtains now where "told exec ReadClock (IClock now)"
proof -
  obtain r s' where "exec ReadClock undefined = (r, s')" "idx_answers ReadClock (view undefined) r"
    using assms by (rule reliable_call)
  then show ?thesis using that unfolding told_def by auto
qed

lemma meets_time:
  assumes "db_reliable exec view"
  shows "meets exec view (time_of ts) (\<lambda>V t W. W = V \<and> (\<exists>now. t = time_spec ts now \<and> told exec ReadClock (IClock now)))"
proof (cases "\<exists>c cs. ts = Some (c # cs)")
  case True
  then obtain c cs where ts: "ts = Some (c # cs)" by blast
  show ?thesis
    unfolding ts time_of_def time_spec_def using clock_tells [OF assms] by (auto simp: meets_def)
next
  case False
  then have "time_of ts = read_clock" and t: "time_spec ts now = Time_At now" for now
    by (auto simp: time_of_def time_spec_def split: option.splits list.splits)
  then show ?thesis using meets_clock [OF assms] by (simp only: t)
qed

section \<open>Token metadata\<close>

lemma meets_value:
  assumes "db_reliable exec view"
  shows "meets exec view (contract_value a f) (\<lambda>V v W. W = V \<and> value_told exec a f v)"
  unfolding contract_value_def by (rule meets_call [OF assms meets_return]) (auto simp: value_told_def)

lemma run_values:
  assumes "db_reliable exec view"
  shows "\<exists>m s'. run exec (fetchOnChainMetadata a) s = (m, s') \<and> view s' = view s \<and>
    (case m of Inl e \<Rightarrow> \<exists>x. told exec (NewContract a) (IErr x) | Inr meta \<Rightarrow> meta_told exec a meta)"
proof -
  let ?meta = "\<lambda>s n d. \<lparr>tm_symbol = sc_string s, tm_name = sc_string n, tm_decimals = sc_number d\<rparr>"
  let ?rest = "prog_then (contract_value a ''symbol'') (\<lambda>s.
     prog_then (contract_value a ''name'') (\<lambda>n.
     prog_then (contract_value a ''decimals'') (\<lambda>d. Ret (Inr (?meta s n d)) :: token_meta idx_prog)))"
  obtain r s1 where c: "exec (NewContract a) s = (r, s1)" "idx_answers (NewContract a) (view s) r"
    "view s1 = idx_effect (NewContract a) (view s)" using assms by (rule reliable_call)
  then have s1: "exec (NewContract a) s = (r, s1)" "view s1 = view s" by simp_all
  note v = meets_value [OF assms]
  have one: "meets exec view (prog_then (contract_value a ''decimals'') (\<lambda>d. Ret (Inr (?meta y n d)) :: token_meta idx_prog))
      (\<lambda>V m W. W = V \<and> (\<exists>d. value_told exec a ''decimals'' d \<and> m = ?meta y n d))" for y n
    by (rule meets_then [OF v meets_return]) auto
  have two: "meets exec view (prog_then (contract_value a ''name'') (\<lambda>n.
      prog_then (contract_value a ''decimals'') (\<lambda>d. Ret (Inr (?meta y n d)) :: token_meta idx_prog)))
      (\<lambda>V m W. W = V \<and> (\<exists>n d. value_told exec a ''name'' n \<and> value_told exec a ''decimals'' d \<and> m = ?meta y n d))" for y
    by (rule meets_then [OF v one]) auto
  have "meets exec view ?rest (\<lambda>V m W. W = V \<and> meta_told exec a m)"
    by (rule meets_then [OF v two]) (auto simp: meta_told_def)
  then obtain m s2 where m: "run exec ?rest s1 = (Inr m, s2)" "view s2 = view s" "meta_told exec a m"
    unfolding meets_def s1(2) [symmetric] by blast
  show ?thesis
  proof (cases "r = IOk")
    case True
    then show ?thesis using s1(1) m by (simp add: fetchOnChainMetadata_def idx_do_def idx_await_def)
  next
    case False
    then obtain e where e: "r = IErr e" using c(2) by auto
    then have "told exec (NewContract a) (IErr e)" using s1(1) unfolding told_def by blast
    then show ?thesis using s1 e by (auto simp: fetchOnChainMetadata_def idx_do_def idx_await_def)
  qed
qed

lemma meets_upsertToken:
  assumes "db_reliable exec view"
  shows "meets exec view (upsertToken a m) (\<lambda>V _ W. \<exists>e. W = enrich_spec a e V \<and> enrichment_of exec a m e)"
  unfolding meets_def
proof
  fix s
  obtain meta s1 where s1: "run exec (fetchOnChainMetadata a) s = (meta, s1)" "view s1 = view s"
    and told: "case meta of Inl e \<Rightarrow> \<exists>x. told exec (NewContract a) (IErr x) | Inr meta \<Rightarrow> meta_told exec a meta"
    using run_values [OF assms] by blast
  obtain r s2 where "exec (FindToken a) s1 = (r, s2)" "idx_answers (FindToken a) (view s1) r"
    "view s2 = idx_effect (FindToken a) (view s1)" using assms by (rule reliable_call)
  then have s2: "exec (FindToken a) s1 = (IToken (t_token (view s) a), s2)" "view s2 = view s" using s1(2) by simp_all
  show "\<exists>x s'. run exec (upsertToken a m) s = (Inr x, s') \<and> (\<exists>e. view s' = enrich_spec a e (view s) \<and> enrichment_of exec a m e)"
  proof (cases meta)
    case (Inl e)
    then have "enrichment_of exec a m None" using told by (simp add: enrichment_of_def)
    then show ?thesis
      using s1 s2 Inl by (auto simp: upsertToken_def run_catch run_bind idx_await_def enrich_spec_def intro!: exI [of _ None])
  next
    case (Inr onChain)
    let ?row = "enriched_row a onChain (m (map lower_char a)) (t_token (view s) a)"
    have "enrichment_of exec a m (Some (onChain, m (map lower_char a)))" using told Inr by (simp add: enrichment_of_def)
    moreover obtain s3 where s3: "run exec (idx_do (PutToken a ?row)) s2 = (Inr (), s3)" "view s3 = idx_effect (PutToken a ?row) (view s)"
      using meets_do [OF assms, of "PutToken a ?row"] s2(2) unfolding meets_def by fastforce
    ultimately show ?thesis
      using s1 s2 Inr
      by (auto simp: upsertToken_def run_catch run_bind idx_await_def enrich_spec_def Let_def
          intro!: exI [of _ "Some (onChain, m (map lower_char a))"])
  qed
qed

lemma meets_fetchList:
  assumes "db_reliable exec view"
  shows "meets exec view fetchTokenListMap (\<lambda>V m W. W = V \<and> list_told exec m)"
  unfolding fetchTokenListMap_def
proof (rule meets_call [OF assms])
  show "meets exec view (case r of ITokenList ts \<Rightarrow> Ret (Inr (token_list_map ts)) | _ \<Rightarrow> Ret (Inr Map.empty))
      (\<lambda>V m W. W = V \<and> m = (case r of ITokenList ts \<Rightarrow> token_list_map ts | _ \<Rightarrow> Map.empty))" for r
    by (cases r) (simp_all add: meets_def)
qed (auto simp: list_told_def)

lemma meets_enrich:
  assumes "db_reliable exec view"
  shows "meets exec view (idx_swallow (enrichToken a)) (\<lambda>V _ W. \<exists>e. W = enrich_spec a e V \<and> enrichment_told exec a e)"
  unfolding enrichToken_def
  by (rule meets_swallow, rule meets_then [OF meets_fetchList [OF assms] meets_upsertToken [OF assms]])
     (auto simp: enrichment_told_def)

text \<open>Metadata once found is not replaced by the placeholders.\<close>

lemma enriched_keeps:
  "existing = Some r \<Longrightarrow> tm_symbol m = None \<Longrightarrow> Option.bind listed lt_symbol = None \<Longrightarrow>
   tk_symbol (enriched_row a m listed existing) = tk_symbol r"
  by (simp add: enriched_row_def first_of_def)

section \<open>Handlers implement the specification\<close>

lemma meets_pool_created:
  assumes "db_reliable exec view"
  shows "meets exec view (projectPoolCreated d) (\<lambda>V _ W. \<exists>env. W = project_spec (Pool_Created d) env V \<and> env_told exec (Pool_Created d) env)"
proof -
  have tokens: "meets exec view (idx_both (UpsertToken (pc_tokenA d) (new_token (pc_tokenA d)))
      (UpsertToken (pc_tokenB d) (new_token (pc_tokenB d))))
      (\<lambda>V _ W. W = idx_effect (UpsertToken (pc_tokenB d) (new_token (pc_tokenB d)))
         (idx_effect (UpsertToken (pc_tokenA d) (new_token (pc_tokenA d))) V))"
    by (rule meets_both [OF assms]) simp_all
  have pool: "meets exec view (idx_do (UpsertPool (pc_poolId d) (pool_created_patch d) (pool_created_row d t)))
      (\<lambda>V _ W. W = idx_effect (UpsertPool (pc_poolId d) (pool_created_patch d) (pool_created_row d t)) V)" for t
    by (rule meets_do [OF assms]) simp
  note enrich = meets_enrich [OF assms]
  have two: "meets exec view (prog_then (idx_swallow (enrichToken (pc_tokenA d))) (\<lambda>_. idx_swallow (enrichToken (pc_tokenB d))))
      (\<lambda>V _ W. \<exists>a b. W = enrich_spec (pc_tokenB d) b (enrich_spec (pc_tokenA d) a V) \<and>
         enrichment_told exec (pc_tokenA d) a \<and> enrichment_told exec (pc_tokenB d) b)"
    by (rule meets_then [OF enrich enrich]) blast
  have three: "meets exec view (prog_then (idx_do (UpsertPool (pc_poolId d) (pool_created_patch d) (pool_created_row d t))) (\<lambda>_.
      prog_then (idx_swallow (enrichToken (pc_tokenA d))) (\<lambda>_. idx_swallow (enrichToken (pc_tokenB d)))))
      (\<lambda>V _ W. \<exists>a b. W = enrich_spec (pc_tokenB d) b (enrich_spec (pc_tokenA d) a
         (idx_effect (UpsertPool (pc_poolId d) (pool_created_patch d) (pool_created_row d t)) V)) \<and>
         enrichment_told exec (pc_tokenA d) a \<and> enrichment_told exec (pc_tokenB d) b)" for t
    by (rule meets_then [OF pool two]) simp
  have spec: "\<exists>env. env_told exec (Pool_Created d) env \<and> enrich_spec (pc_tokenB d) b (enrich_spec (pc_tokenA d) a
      (pool_spec d (time_spec (pc_timestamp d) now) V)) = project_spec (Pool_Created d) env V"
    if "told exec ReadClock (IClock now)" "enrichment_told exec (pc_tokenA d) a" "enrichment_told exec (pc_tokenB d) b" for a b now V
    by (rule exI [of _ "\<lparr>en_now = now, en_tokenA = a, en_tokenB = b\<rparr>"]) (use that in \<open>simp add: env_told_def\<close>)
  show ?thesis
    unfolding projectPoolCreated_def
  proof (rule meets_swallow, rule meets_then [OF tokens meets_then [OF meets_time [OF assms] three]])
    fix V U W :: db_view and t :: time_value
    let ?U = "idx_effect (UpsertToken (pc_tokenB d) (new_token (pc_tokenB d)))
         (idx_effect (UpsertToken (pc_tokenA d) (new_token (pc_tokenA d))) V)"
    assume U: "U = ?U" and "\<exists>now a b. told exec ReadClock (IClock now) \<and> enrichment_told exec (pc_tokenA d) a \<and>
         enrichment_told exec (pc_tokenB d) b \<and> W = enrich_spec (pc_tokenB d) b (enrich_spec (pc_tokenA d) a
         (idx_effect (UpsertPool (pc_poolId d) (pool_created_patch d)
            (pool_created_row d (time_spec (pc_timestamp d) now))) U))"
    then obtain now a b where told: "told exec ReadClock (IClock now)" "enrichment_told exec (pc_tokenA d) a"
      "enrichment_told exec (pc_tokenB d) b"
      and W: "W = enrich_spec (pc_tokenB d) b (enrich_spec (pc_tokenA d) a (pool_spec d (time_spec (pc_timestamp d) now) V))"
      unfolding pool_spec_def by blast
    then show "\<exists>env. W = project_spec (Pool_Created d) env V \<and> env_told exec (Pool_Created d) env"
      using spec [OF told] by metis
  qed blast
qed

lemma meets_fee:
  assumes "db_reliable exec view"
  shows "meets exec view (resolveFeeAmount d) (\<lambda>V fee W. fee = fee_spec d V \<and> W = V)"
  unfolding meets_def
proof
  fix s
  obtain r s' where "exec (FindPool (sp_poolId d)) s = (r, s')" "idx_answers (FindPool (sp_poolId d)) (view s) r"
    "view s' = idx_effect (FindPool (sp_poolId d)) (view s)" using assms by (rule reliable_call)
  then show "\<exists>x s'. run exec (resolveFeeAmount d) s = (Inr x, s') \<and> x = fee_spec d (view s) \<and> view s' = view s"
    by (auto simp: resolveFeeAmount_def fee_spec_def split: option.splits list.splits)
qed

lemma meets_swap_row:
  assumes "db_reliable exec view"
  shows "meets exec view (idx_do (UpsertSwap k r)) (\<lambda>V _ W. W = idx_effect (UpsertSwap k r) V)"
  by (rule meets_do [OF assms]) simp

lemma meets_swap_pool:
  assumes "db_reliable exec view"
  shows "meets exec view (idx_do (UpsertPool k p r)) (\<lambda>V _ W. W = idx_effect (UpsertPool k p r) V)"
  by (rule meets_do [OF assms]) simp

lemma meets_swap:
  assumes "db_reliable exec view"
  shows "meets exec view (projectSwapProcessed d) (\<lambda>V _ W. \<exists>env. W = project_spec (Swap_Processed d) env V \<and> env_told exec (Swap_Processed d) env)"
proof -
  let ?put = "\<lambda>fee t. UpsertSwap (sp_eventId d) (swap_row_of d fee t)"
  let ?pool = "UpsertPool (sp_poolId d) (swap_patch d) (placeholder_pool d)"
  note time = meets_time [OF assms, of "sp_timestamp d"]
  have skip: "meets exec view (prog_then (time_of (sp_timestamp d)) (\<lambda>t. idx_do (?put fee t)))
      (\<lambda>V _ W. \<exists>now. W = idx_effect (?put fee (time_spec (sp_timestamp d) now)) V \<and> told exec ReadClock (IClock now))" for fee
    by (rule meets_then [OF time meets_swap_row [OF assms]]) blast
  have both: "meets exec view (prog_then (idx_do ?pool) (\<lambda>_. idx_do (?put fee t)))
      (\<lambda>V _ W. W = idx_effect (?put fee t) (idx_effect ?pool V))" for fee t
    by (rule meets_then [OF meets_swap_pool [OF assms] meets_swap_row [OF assms]]) simp
  have full: "meets exec view (prog_then (time_of (sp_timestamp d)) (\<lambda>t. prog_then (idx_do ?pool) (\<lambda>_. idx_do (?put fee t))))
      (\<lambda>V _ W. \<exists>now. W = idx_effect (?put fee (time_spec (sp_timestamp d) now)) (idx_effect ?pool V) \<and> told exec ReadClock (IClock now))" for fee
    by (rule meets_then [OF time both]) blast
  note fee = meets_fee [OF assms, of d]
  show ?thesis
  proof (cases "isValidSqrtPrice (sp_sqrtPriceX96 d)")
    case (Inl e)
    have "run exec (projectSwapProcessed d) s = (Inr (), snd (run exec (resolveFeeAmount d) s))" for s
      using Inl by (auto simp: projectSwapProcessed_def idx_swallow_def run_catch run_then split: prod.splits sum.splits)
    moreover have "view (snd (run exec (resolveFeeAmount d) s)) = view s" for s
      using fee unfolding meets_def by (metis snd_conv)
    moreover obtain now where "env_told exec (Swap_Processed d) (env_at now)"
      using clock_tells [OF assms] by (auto simp: env_told_def)
    ultimately show ?thesis using Inl by (auto simp: meets_def swap_spec_def Let_def)
  next
    case (Inr b)
    show ?thesis
    proof (cases b)
      case True
      have "meets exec view (prog_then (resolveFeeAmount d) (\<lambda>fee. prog_then (time_of (sp_timestamp d)) (\<lambda>t.
          prog_then (idx_do ?pool) (\<lambda>_. idx_do (?put fee t))))) (\<lambda>V _ W. \<exists>env. W = project_spec (Swap_Processed d) env V \<and> env_told exec (Swap_Processed d) env)"
        by (rule meets_then [OF fee full]) (auto simp: swap_spec_def Inr True Let_def env_told_def intro: exI [of _ "env_at now" for now])
      then show ?thesis
        unfolding projectSwapProcessed_def by (intro meets_swallow) (simp add: Inr True)
    next
      case False
      have "meets exec view (prog_then (resolveFeeAmount d) (\<lambda>fee. prog_then (time_of (sp_timestamp d)) (\<lambda>t.
          idx_do (?put fee t)))) (\<lambda>V _ W. \<exists>env. W = project_spec (Swap_Processed d) env V \<and> env_told exec (Swap_Processed d) env)"
        by (rule meets_then [OF fee skip]) (auto simp: swap_spec_def Inr False Let_def env_told_def intro: exI [of _ "env_at now" for now])
      then show ?thesis
        unfolding projectSwapProcessed_def by (intro meets_swallow) (simp add: Inr False)
    qed
  qed
qed

lemma meets_position:
  assumes "db_reliable exec view"
  shows "meets exec view (project_position d closes)
    (\<lambda>V _ W. \<exists>now. W = position_spec d (if closes then Some (Time_At now) else None) V \<and>
       told exec ReadClock (IClock now))"
proof (cases "\<exists>c cs. pd_tokenId d = Some (c # cs)")
  case True
  then obtain c cs where t: "pd_tokenId d = Some (c # cs)" by blast
  let ?put = "\<lambda>closedAt. UpsertPosition (pd_poolId d, c # cs) (pd_liquidity d) closedAt (new_position d closedAt)"
  have put: "meets exec view (idx_do (?put closedAt)) (\<lambda>V _ W. W = idx_effect (?put closedAt) V)" for closedAt
    by (rule meets_do [OF assms]) simp
  have "meets exec view (prog_then read_clock (\<lambda>t. Ret (Inr (Some t)))) (\<lambda>V t W. W = V \<and> (\<exists>now. t = Some (Time_At now) \<and> told exec ReadClock (IClock now)))"
    by (rule meets_then [OF meets_clock [OF assms] meets_return]) auto
  then have clock: "meets exec view (if closes then prog_then read_clock (\<lambda>t. Ret (Inr (Some t))) else Ret (Inr None))
      (\<lambda>V t W. W = V \<and> (\<exists>now. t = (if closes then Some (Time_At now) else None) \<and> told exec ReadClock (IClock now)))"
    using clock_tells [OF assms] by (cases closes) (auto simp: meets_def)
  show ?thesis
    unfolding project_position_def t option.case list.case
    by (rule meets_then [OF clock put]) (auto simp: position_spec_def t split: if_splits)
next
  case False
  then have "project_position d closes = Ret (Inr ())" and "position_spec d c V = V" for c V
    by (auto simp: project_position_def position_spec_def split: option.splits list.splits)
  moreover obtain now where "told exec ReadClock (IClock now)" using clock_tells [OF assms] .
  ultimately show ?thesis by (auto simp: meets_def)
qed

lemma meets_raw:
  assumes "db_reliable exec view"
  shows "meets exec view (idx_do (raw_call job)) (\<lambda>V _ W. W = idx_effect (raw_call job) V)"
  by (rule meets_do [OF assms]) (cases job; simp)

text \<open>The steps of a handler after its guard.\<close>

fun project_job :: "idx_job \<Rightarrow> unit idx_prog" where
  "project_job (Pool_Created d) = projectPoolCreated d"
| "project_job (Swap_Processed d) = projectSwapProcessed d"
| "project_job (Position_Minted d) = project_position d False"
| "project_job (Position_Burned d) = project_position d (pd_liquidity d = ''0'')"
| "project_job (Fees_Collected d) = Ret (Inr ())"

lemma meets_project:
  assumes "db_reliable exec view"
  shows "meets exec view (project_job job) (\<lambda>V _ W. \<exists>env. W = project_spec job env V \<and> env_told exec job env)"
proof (cases job)
  case (Pool_Created d)
  then show ?thesis using meets_pool_created [OF assms, of d] by simp
next
  case (Swap_Processed d)
  then show ?thesis using meets_swap [OF assms, of d] by simp
next
  case (Position_Minted d)
  have "meets exec view (project_position d False) (\<lambda>V _ W. \<exists>env. W = position_spec d None V \<and> env_told exec job env)"
    by (rule meets_weaken [OF meets_position [OF assms]])
       (auto simp: Position_Minted env_told_def intro: exI [of _ "env_at now" for now])
  then show ?thesis using Position_Minted by simp
next
  case (Position_Burned d)
  have "meets exec view (project_position d (pd_liquidity d = ''0''))
      (\<lambda>V _ W. \<exists>env. W = position_spec d (burn_time d (en_now env)) V \<and> env_told exec job env)"
    by (rule meets_weaken [OF meets_position [OF assms]])
       (auto simp: Position_Burned burn_time_def env_told_def intro: exI [of _ "env_at now" for now])
  then show ?thesis using Position_Burned by simp
next
  case (Fees_Collected d)
  obtain now where "env_told exec job (env_at now)"
    using clock_tells [OF assms] by (auto simp: env_told_def Fees_Collected)
  then show ?thesis using Fees_Collected by (auto simp: meets_def)
qed

definition hook_job :: "idx_job \<Rightarrow> unit idx_prog" where
  "hook_job job = (case job of
     Pool_Created d \<Rightarrow> idx_detached (DispatchWebhook ''pool.created'' (pc_eventId d))
   | Swap_Processed d \<Rightarrow> idx_detached (DispatchWebhook ''swap.large'' (sp_eventId d))
   | _ \<Rightarrow> Ret (Inr ()))"

lemma prog_then_return: "prog_then m (\<lambda>_. Ret (Inr ())) = m" for m :: "unit idx_prog"
  by (induction m) (auto simp: prog_then_def split: sum.splits)

lemma handler_parts:
  assumes "guardEmptyData (job_entries job)"
  shows "idx_handler job = prog_then (idx_do (raw_call job)) (\<lambda>_. prog_then (project_job job) (\<lambda>_. hook_job job))"
  using assms
  by (cases job) (simp_all add: handlePoolCreated_def handleSwapProcessed_def handlePositionMinted_def
      handlePositionBurned_def handleFeesCollected_def hook_job_def prog_then_return)

lemma handler_guard: "\<not> guardEmptyData (job_entries job) \<Longrightarrow> idx_handler job = Ret (Inr ())"
  by (cases job) (simp_all add: handlePoolCreated_def handleSwapProcessed_def handlePositionMinted_def
      handlePositionBurned_def handleFeesCollected_def)

lemma meets_hook_job:
  assumes "db_reliable exec view"
  shows "meets exec view (hook_job job) (\<lambda>V _ W. W = V)"
  using meets_hook [OF assms] by (cases job) (simp_all add: hook_job_def meets_def)

lemma meets_handler:
  assumes "db_reliable exec view"
  shows "meets exec view (idx_handler job) (\<lambda>V _ W. \<exists>env. W = idx_spec job env V \<and> env_told exec job env)"
proof (cases "guardEmptyData (job_entries job)")
  case True
  show ?thesis
    unfolding handler_parts [OF True]
    by (rule meets_then [OF meets_raw [OF assms] meets_then [OF meets_project [OF assms] meets_hook_job [OF assms]]])
       (auto simp: idx_spec_def True)
next
  case False
  obtain env where "env_told exec job env"
    using meets_project [OF assms] unfolding meets_def by blast
  then show ?thesis using False by (auto simp: handler_guard idx_spec_def meets_def)
qed

text \<open>What no job changes.\<close>

lemma spec_cursors [simp]:
  "t_cursor (enrich_spec a e V) = t_cursor V" "t_cursor (pool_spec d t V) = t_cursor V"
  "t_cursor (swap_spec w t V) = t_cursor V" "t_cursor (position_spec p c V) = t_cursor V"
  by (auto simp: enrich_spec_def pool_spec_def swap_spec_def position_spec_def Let_def
      split: option.splits list.splits sum.splits bool.splits)

lemma raw_cursor [simp]: "t_cursor (idx_effect (raw_call job) V) = t_cursor V"
  by (cases job) auto

lemma idx_spec_cursor: "t_cursor (idx_spec job env V) = t_cursor V"
  by (cases job) (auto simp: idx_spec_def)


definition demo_swap_job :: swap_processed_data where
  "demo_swap_job = \<lparr>sp_eventId = ''e1'', sp_ledger = Some (Fin 7), sp_poolId = ''p'', sp_sender = ''a'', sp_recipient = ''b'',
     sp_amount0 = ''10'', sp_amount1 = ''20'', sp_sqrtPriceX96 = ''123'', sp_liquidity = ''5'', sp_tick = Fin 1,
     sp_transactionHash = None, sp_feeAmount = Some ''1'', sp_timestamp = None\<rparr>"


section \<open>Doing a job twice\<close>

text \<open>
  What a second run may change: metadata of tokens that have a row, and the time at which a position that is
  closed is said to be closed.
\<close>

definition reclosed :: "position_row option \<Rightarrow> position_row option \<Rightarrow> bool" where
  "reclosed r r' = (case (r, r') of
     (None, None) \<Rightarrow> True
   | (Some p, Some p') \<Rightarrow> p' = p\<lparr>pr_closedAt := pr_closedAt p'\<rparr> \<and> (pr_closedAt p' = None \<longleftrightarrow> pr_closedAt p = None)
   | _ \<Rightarrow> False)"

definition refreshed :: "db_view \<Rightarrow> db_view \<Rightarrow> bool" where
  "refreshed V W =
     (t_pool_created W = t_pool_created V \<and> t_swap_processed W = t_swap_processed V \<and>
      t_position_minted W = t_position_minted V \<and> t_position_burned W = t_position_burned V \<and>
      t_fees_collected W = t_fees_collected V \<and> t_pool W = t_pool V \<and> t_swap W = t_swap V \<and>
      t_cursor W = t_cursor V \<and> dom (t_token W) = dom (t_token V) \<and>
      (\<forall>k. reclosed (t_position V k) (t_position W k)))"

lemma reclosed_refl [simp]: "reclosed r r"
  by (cases r) (auto simp: reclosed_def)

lemma refreshed_refl: "refreshed V V"
  by (simp add: refreshed_def)

lemma patch_own_row [simp]:
  "patch_pool (swap_patch d) (placeholder_pool d) = placeholder_pool d"
  "patch_pool (pool_created_patch c) (pool_created_row c t) = pool_created_row c t"
  by (auto simp: patch_pool_def swap_patch_def placeholder_pool_def pool_created_patch_def pool_created_row_def
      split: option.splits)

lemma twice_swap:
  "idx_spec (Swap_Processed d) e' (idx_spec (Swap_Processed d) e V) = idx_spec (Swap_Processed d) e V"
proof -
  have put: "insert_new k r' (insert_new k r t) = insert_new k r t" for k :: string and r r' :: "'a" and t
    by (auto simp: insert_new_def)
  show ?thesis
    by (auto simp: idx_spec_def swap_spec_def Let_def put split: sum.splits bool.splits option.splits)
qed

lemma enrich_again: "a \<in> dom (t_token V) \<Longrightarrow> refreshed W V \<Longrightarrow> refreshed W (enrich_spec a e V)"
  by (auto simp: enrich_spec_def refreshed_def split: option.splits)

lemma enrich_keeps [simp]:
  "t_pool_created (enrich_spec a e V) = t_pool_created V" "t_pool (enrich_spec a e V) = t_pool V"
  "dom (t_token V) \<subseteq> dom (t_token (enrich_spec a e V))"
  by (auto simp: enrich_spec_def split: option.splits)

lemma insert_new_dom: "dom (insert_new k v t) = insert k (dom t)"
  by (auto simp: insert_new_def)

lemma raw_pool_again:
  assumes "t_pool_created V (pc_eventId d) \<noteq> None"
  shows "idx_effect (raw_call (Pool_Created d)) V = V"
  using assms by (auto simp: insert_new_def)

lemma pool_again:
  assumes "\<exists>r. t_pool V (pc_poolId d) = Some (patch_pool (pool_created_patch d) r)"
    and "{pc_tokenA d, pc_tokenB d} \<subseteq> dom (t_token V)"
  shows "pool_spec d t V = V"
proof -
  have "insert_new a v (t_token V) = t_token V" if "a \<in> dom (t_token V)" for a v
    using that by (auto simp: insert_new_def)
  moreover have "(t_pool V)(pc_poolId d \<mapsto> patch_pool (pool_created_patch d) r) = t_pool V"
    if "t_pool V (pc_poolId d) = Some (patch_pool (pool_created_patch d) r)" for r
    using that by (auto simp: fun_upd_idem)
  ultimately show ?thesis using assms by (auto simp: pool_spec_def)
qed

lemma pool_once:
  "\<exists>r. t_pool (pool_spec d t V) (pc_poolId d) = Some (patch_pool (pool_created_patch d) r)"
  "{pc_tokenA d, pc_tokenB d} \<subseteq> dom (t_token (pool_spec d t V))"
  by (auto simp: pool_spec_def insert_new_def split: option.splits intro: exI [of _ "pool_created_row d t"])

lemma twice_pool: "refreshed (idx_spec (Pool_Created d) e V) (idx_spec (Pool_Created d) e' (idx_spec (Pool_Created d) e V))"
proof (cases "guardEmptyData (pool_created_entries d)")
  case True
  let ?U = "idx_spec (Pool_Created d) e V"
  let ?P = "pool_spec d (time_spec (pc_timestamp d) (en_now e)) (idx_effect (raw_call (Pool_Created d)) V)"
  have U: "?U = enrich_spec (pc_tokenB d) (en_tokenB e) (enrich_spec (pc_tokenA d) (en_tokenA e) ?P)"
    using True by (simp add: idx_spec_def)
  have tokens: "{pc_tokenA d, pc_tokenB d} \<subseteq> dom (t_token ?U)"
    using pool_once(2) enrich_keeps(3) unfolding U by (meson order_trans)
  have raw: "t_pool_created ?U (pc_eventId d) \<noteq> None"
    unfolding U by (simp add: pool_spec_def insert_new_def)
  have pool: "\<exists>r. t_pool ?U (pc_poolId d) = Some (patch_pool (pool_created_patch d) r)"
    unfolding U using pool_once(1) by simp
  have "idx_spec (Pool_Created d) e' ?U = enrich_spec (pc_tokenB d) (en_tokenB e') (enrich_spec (pc_tokenA d) (en_tokenA e') ?U)"
    using True raw_pool_again [OF raw] pool_again [OF pool tokens] by (simp add: idx_spec_def)
  moreover have "pc_tokenB d \<in> dom (t_token (enrich_spec (pc_tokenA d) (en_tokenA e') ?U))"
    using tokens enrich_keeps(3) by blast
  ultimately show ?thesis
    using tokens by (simp add: enrich_again refreshed_refl)
qed (simp add: idx_spec_def refreshed_refl)

lemma twice_position:
  "refreshed (idx_spec (Position_Burned d) e V) (idx_spec (Position_Burned d) e' (idx_spec (Position_Burned d) e V))"
  by (auto simp: idx_spec_def position_spec_def refreshed_def reclosed_def burn_time_def patch_position_def
      new_position_def split: option.splits list.splits)

lemma twice_minted:
  "idx_spec (Position_Minted d) e' (idx_spec (Position_Minted d) e V) = idx_spec (Position_Minted d) e V"
  by (auto simp: idx_spec_def position_spec_def patch_position_def new_position_def
      split: option.splits list.splits)

lemma idx_spec_twice: "refreshed (idx_spec job e V) (idx_spec job e' (idx_spec job e V))"
proof (cases job)
  case (Fees_Collected d)
  then show ?thesis by (simp add: idx_spec_def refreshed_refl)
qed (simp_all add: twice_swap twice_pool twice_position twice_minted refreshed_refl)

text \<open>C24: With a database that answers, running an indexer job again right after the first time changes nothing in
  the tables but the metadata of tokens that have a row, and the closing time of a position that is closed
  already (columns that every write stamps with the time, \<^verbatim>\<open>updatedAt\<close>, are not modelled).\<close>

theorem idx_redelivery_harmless:
  assumes "db_reliable exec view"
  shows "refreshed (view (snd (run exec (idx_handler job) s)))
    (view (snd (run exec (idx_handler job) (snd (run exec (idx_handler job) s)))))"
proof -
  obtain s1 e1 where first: "run exec (idx_handler job) s = (Inr (), s1)" "view s1 = idx_spec job e1 (view s)"
    using meets_handler [OF assms] unfolding meets_def by fastforce
  obtain s2 e2 where "run exec (idx_handler job) s1 = (Inr (), s2)" "view s2 = idx_spec job e2 (view s1)"
    using meets_handler [OF assms] unfolding meets_def by fastforce
  then show ?thesis using first idx_spec_twice by simp
qed

definition demo_burn_job :: position_data where
  "demo_burn_job = \<lparr>pd_eventId = ''b1'', pd_ledger = None, pd_poolId = ''p'', pd_tokenId = Some ''t'', pd_owner = ''w'',
     pd_tickLower = Fin 0, pd_tickUpper = Fin 60, pd_liquidity = ''0'', pd_amount0 = ''1'', pd_amount1 = ''2''\<rparr>"

theorem idx_redelivery_harmless_witness:
  "refreshed (snd (run mem_db (idx_handler (Position_Burned demo_burn_job)) empty_db))
     (snd (run mem_db (idx_handler (Position_Burned demo_burn_job))
        (snd (run mem_db (idx_handler (Position_Burned demo_burn_job)) empty_db))))"
  using idx_redelivery_harmless [OF mem_db_reliable, of "Position_Burned demo_burn_job" empty_db] by simp

end
