(* ===== verification/Indexer_Races.thy ===== *)
theory Indexer_Races
  imports Indexer_Laws
begin

text \<open>
  The indexer when calls fail and workers interleave: what an acknowledgement guarantees, which rows can
  change, and what the checkpoint does.
\<close>

section \<open>Write-once rows\<close>

text \<open>The raw event rows and the swap rows; token, pool and position rows are rewritten.\<close>

definition event_rows_kept :: "db_view \<Rightarrow> db_view \<Rightarrow> bool" where
  "event_rows_kept V W =
     (t_pool_created V \<subseteq>\<^sub>m t_pool_created W \<and> t_swap_processed V \<subseteq>\<^sub>m t_swap_processed W \<and>
      t_position_minted V \<subseteq>\<^sub>m t_position_minted W \<and> t_position_burned V \<subseteq>\<^sub>m t_position_burned W \<and>
      t_fees_collected V \<subseteq>\<^sub>m t_fees_collected W \<and> t_swap V \<subseteq>\<^sub>m t_swap W)"

lemma insert_new_map_le: "t \<subseteq>\<^sub>m insert_new k v t"
  by (auto simp: insert_new_def map_le_def)

lemma effect_keeps_rows: "event_rows_kept V (idx_effect c V)"
  by (cases c) (auto simp: event_rows_kept_def insert_new_map_le)

lemma event_rows_kept_refl [simp]: "event_rows_kept V V"
  by (simp add: event_rows_kept_def)

lemma event_rows_kept_trans: "event_rows_kept V W \<Longrightarrow> event_rows_kept W X \<Longrightarrow> event_rows_kept V X"
  unfolding event_rows_kept_def by (meson map_le_trans)

lemma call_keeps_rows: "db_ok exec view \<Longrightarrow> exec c s = (r, s') \<Longrightarrow> event_rows_kept (view s) (view s')"
  using db_ok_view effect_keeps_rows by (metis event_rows_kept_refl)


section \<open>Acknowledged jobs\<close>

fun row_present :: "idx_job \<Rightarrow> db_view \<Rightarrow> bool" where
  "row_present (Pool_Created d) V = (t_pool_created V (pc_eventId d) \<noteq> None)"
| "row_present (Swap_Processed d) V = (t_swap_processed V (sp_eventId d) \<noteq> None)"
| "row_present (Position_Minted d) V = (t_position_minted V (pd_eventId d) \<noteq> None)"
| "row_present (Position_Burned d) V = (t_position_burned V (pd_eventId d) \<noteq> None)"
| "row_present (Fees_Collected d) V = (t_fees_collected V (fc_eventId d) \<noteq> None)"

lemma raw_call_row: "row_present job (idx_effect (raw_call job) V)"
  by (cases job) (auto simp: insert_new_def raw_swap_def)

lemma map_le_present: "t \<subseteq>\<^sub>m u \<Longrightarrow> \<exists>y. t k = Some y \<Longrightarrow> \<exists>y. u k = Some y"
  by (metis domIff map_le_implies_dom_le not_None_eq subsetD)

lemma rows_kept_present: "event_rows_kept V W \<Longrightarrow> row_present job V \<Longrightarrow> row_present job W"
  by (cases job; simp add: event_rows_kept_def; blast dest: map_le_present)

text \<open>After its guard every handler starts with the write of its event row.\<close>

lemma handler_starts_raw:
  assumes "guardEmptyData (job_entries job)"
  shows "\<exists>k. idx_handler job = prog_then (idx_do (raw_call job)) k"
  using handler_parts [OF assms] by blast

lemma feed_do_then:
  assumes "feed (prog_then (idx_do c) k) lg = Some (Ret (Inr ()))"
  shows "\<exists>r. (c, r) \<in> set lg \<and> (\<forall>e. r \<noteq> IErr e)"
  using assms
  by (cases lg) (auto simp: idx_do_def idx_await_def split: if_splits idx_reply.splits)

lemma answered_call_row:
  assumes "db_ok exec view" and "steps exec drift (ts, s) tr (ts', s')"
    and "\<And>s s'. drift s s' \<Longrightarrow> view s' = view s"
    and "(i, raw_call job, r) \<in> set tr" and "\<forall>e. r \<noteq> IErr e"
  shows "row_present job (view s')"
  using assms(2,4)
proof (induction "(ts, s)" tr "(ts', s')" arbitrary: ts' s' rule: steps.induct)
  case (steps_drift tr ts1 s1 s2)
  then show ?case using assms(3) by simp
next
  case (steps_call tr ts1 s1 j c k r' s2)
  show ?case
  proof (cases "(i, raw_call job, r) \<in> set tr")
    case True
    then have "row_present job (view s1)" using steps_call.hyps(2) by blast
    then show ?thesis using call_keeps_rows [OF assms(1) steps_call.hyps(5)] rows_kept_present by blast
  next
    case False
    then have e: "c = raw_call job" "r' = r" using steps_call.prems by auto
    then have "view s2 = idx_effect (raw_call job) (view s1)"
      using db_ok_reply [OF assms(1) steps_call.hyps(5)] assms(5) by blast
    then show ?thesis by (simp add: raw_call_row)
  qed
qed simp

lemma guarded_finished:
  assumes "steps exec drift (map (case_prod guardedHandler) jobs, s) tr (ts', s')"
    and "i < length jobs" and "jobs ! i = (ready, job)" and "ts' ! i = Ret (Inr ())"
  shows "feed (guardedHandler ready job) (events_of i tr) = Some (Ret (Inr ()))"
  using steps_feed [OF assms(1), of i] assms(2,3,4) by simp

text \<open>C5: A job with a complete payload that a worker acknowledges while it is ready has left its event row in
  the database, in every interleaving and with any calls failing; a worker that is not ready acknowledges
  a job without a single call.\<close>

theorem acknowledged_job_recorded:
  assumes "db_ok exec view"
    and "steps exec (\<lambda>s s'. view s' = view s) (map (case_prod guardedHandler) jobs, s) tr (ts', s')"
    and "i < length jobs" and "jobs ! i = (ready, job)" and "ts' ! i = Ret (Inr ())"
    and "guardEmptyData (job_entries job)"
  shows "if ready then row_present job (view s') else events_of i tr = []"
proof (cases ready)
  case True
  have "feed (idx_handler job) (events_of i tr) = Some (Ret (Inr ()))"
    using guarded_finished [OF assms(2-5)] True by (simp add: guardedHandler_def)
  then obtain r where r: "(raw_call job, r) \<in> set (events_of i tr)" "\<forall>e. r \<noteq> IErr e"
    using handler_starts_raw [OF assms(6)] feed_do_then by metis
  show ?thesis
    using answered_call_row [OF assms(1,2) _ events_of_in [OF r(1)] r(2)] True by simp
next
  case False
  then show ?thesis
    using guarded_finished [OF assms(2-5)] by (simp add: guardedHandler_def split: if_splits)
qed

text \<open>The two witnesses share one run: a single swap job on an empty database.\<close>

abbreviation demo_jobs :: "(bool \<times> idx_job) list" where
  "demo_jobs \<equiv> [(True, Swap_Processed demo_swap_job)]"

lemma demo_swap_steps:
  "\<exists>tr s'. steps mem_db (\<lambda>s s'. id s' = id s) (map (case_prod guardedHandler) demo_jobs, empty_db) tr ([Ret (Inr ())], s')"
proof -
  obtain s' where "run mem_db (idx_handler (Swap_Processed demo_swap_job)) empty_db = (Inr (), s')"
    using meets_handler [OF mem_db_reliable, of "Swap_Processed demo_swap_job"] unfolding meets_def by fastforce
  then show ?thesis
    using run_steps [of mem_db "\<lambda>s s'. id s' = id s" "idx_handler (Swap_Processed demo_swap_job)" empty_db]
    by (auto simp: guardedHandler_def)
qed


theorem acknowledged_job_recorded_witness:
  "\<exists>tr s'. steps mem_db (\<lambda>s s'. id s' = id s) (map (case_prod guardedHandler) demo_jobs, empty_db) tr
     ([Ret (Inr ())], s') \<and> row_present (Swap_Processed demo_swap_job) s'"
proof -
  obtain tr s' where st: "steps mem_db (\<lambda>s s'. id s' = id s) (map (case_prod guardedHandler) demo_jobs, empty_db) tr
      ([Ret (Inr ())], s')" using demo_swap_steps by blast
  have "guardEmptyData (job_entries (Swap_Processed demo_swap_job))"
    by (simp add: guardEmptyData_def swap_processed_entries_def demo_swap_job_def opt_entry_def)
  then show ?thesis
    using acknowledged_job_recorded [OF db_reliable_ok [OF mem_db_reliable] st, of 0 True] st by auto
qed

section \<open>Failures of a projection\<close>

definition never_throws :: "'s idx_service \<Rightarrow> unit idx_prog \<Rightarrow> bool" where
  "never_throws exec m = (\<forall>s. \<exists>s'. run exec m s = (Inr (), s'))"

lemma never_throws_then: "never_throws exec m \<Longrightarrow> never_throws exec m' \<Longrightarrow> never_throws exec (prog_then m (\<lambda>_. m'))"
  unfolding never_throws_def
proof
  fix s
  assume "\<forall>s. \<exists>s'. run exec m s = (Inr (), s')" and l: "\<forall>s. \<exists>s'. run exec m' s = (Inr (), s')"
  then obtain s1 where "run exec m s = (Inr (), s1)" by blast
  then show "\<exists>s'. run exec (prog_then m (\<lambda>_. m')) s = (Inr (), s')" using l by (simp add: run_then)
qed

lemma never_throws_swallow: "never_throws exec (idx_swallow m)"
  by (auto simp: never_throws_def idx_swallow_def run_catch split: prod.splits sum.splits)

lemma never_throws_detached: "never_throws exec (idx_detached c)"
  by (auto simp: never_throws_def idx_detached_def split: prod.splits)

lemma never_throws_cursor: "never_throws exec (worker_advanceLedger l)"
  by (simp add: never_throws_def)

text \<open>A swap job succeeds exactly when the write of its raw row does: if the write of the pool or of the swap
  itself fails, the job is acknowledged all the same and is not retried.\<close>

theorem swap_projection_failure_hidden:
  assumes "guardEmptyData (swap_processed_entries d)"
  shows "fst (run exec (handleSwapProcessed d) s) =
    (case fst (exec (UpsertSwapProcessed (raw_swap d)) s) of IErr e \<Rightarrow> Inl e | _ \<Rightarrow> Inr ())"
proof -
  let ?rest = "prog_then (projectSwapProcessed d) (\<lambda>_.
      prog_then (idx_detached (DispatchWebhook ''swap.large'' (sp_eventId d))) (\<lambda>_. worker_advanceLedger (sp_ledger d)))"
  obtain r s1 where raw: "exec (UpsertSwapProcessed (raw_swap d)) s = (r, s1)" by force
  have "never_throws exec ?rest"
    unfolding projectSwapProcessed_def
    by (intro never_throws_then never_throws_swallow never_throws_detached never_throws_cursor)
  then obtain s2 where "run exec ?rest s1 = (Inr (), s2)" unfolding never_throws_def by blast
  then show ?thesis
    using assms raw by (cases r) (simp_all add: handleSwapProcessed_def idx_do_def idx_await_def)
qed

definition broken_projection :: "db_view idx_service" where
  "broken_projection c V = (case c of UpsertSwap k r \<Rightarrow> (IErr ''connection lost'', V) | _ \<Rightarrow> mem_db c V)"

theorem swap_projection_failure_hidden_witness:
  "fst (run broken_projection (handleSwapProcessed demo_swap_job) empty_db) = Inr ()"
proof -
  have "guardEmptyData (swap_processed_entries demo_swap_job)"
    by (simp add: guardEmptyData_def swap_processed_entries_def demo_swap_job_def opt_entry_def)
  from swap_projection_failure_hidden [OF this, of broken_projection empty_db] show ?thesis
    by (simp add: broken_projection_def)
qed

section \<open>The checkpoint\<close>

text \<open>
  The ledger that a restarted process resumes from is the cached one or zero: the row in the database is
  read, but writing it back to the cache throws and the answer is lost.
\<close>

theorem last_ledger_cached_or_zero:
  assumes "feed cursor_getLastLedger lg = Some (Ret (Inr n))"
  shows "n = Fin 0 \<or> (CacheGetNumber LAST_INDEXED_LEDGER_KEY, INum (Some n)) \<in> set lg"
proof -
  obtain r rest where lg: "lg = (CacheGetNumber LAST_INDEXED_LEDGER_KEY, r) # rest"
    using assms unfolding cursor_getLastLedger_def by (cases lg) (auto split: if_splits)
  let ?fallback = "prog_catch
             (prog_then (idx_await FindCursor) (\<lambda>c.
                case c of
                  ICursor (Some cur) \<Rightarrow>
                    (if is_safe_integer (num_of_string cur) then
                       prog_then (cache_setMaxNumber LAST_INDEXED_LEDGER_KEY (num_int (num_of_string cur)))
                         (\<lambda>_. Ret (Inr (num_of_string cur)))
                     else Ret (Inr (Fin 0)))
                | _ \<Rightarrow> Ret (Inr (Fin 0))))
             (\<lambda>_. Ret (Inr (Fin 0) :: string + jsnum))"
  have fallback: "n = Fin 0" if "feed ?fallback rest = Some (Ret (Inr n))"
    using that
    by (cases rest) (auto simp: idx_await_def cache_setMaxNumber_def split: if_splits idx_reply.splits option.splits)
  show ?thesis
  proof (cases "\<exists>m. r = INum (Some m) \<and> safe_nonneg m")
    case True
    then show ?thesis using assms lg by (auto simp: cursor_getLastLedger_def split: if_splits)
  next
    case False
    then have "feed ?fallback rest = Some (Ret (Inr n))"
      using assms lg by (auto simp: cursor_getLastLedger_def Let_def split: if_splits idx_reply.splits option.splits)
    then show ?thesis using fallback by blast
  qed
qed

end
