(* ===== verification/Single_Flight.thy ===== *)
theory Single_Flight
  imports Service_Prog Js_Map
begin

text \<open>
  Requests that share work in flight. Several services keep a \<^verbatim>\<open>Map\<close> from a key to the promise of a
  running operation: a request whose key is in the map awaits that promise, any other starts the
  operation, stores its promise, and takes the key out again when it is done.

  \<open>flight_code\<close> collects what differs between the services, \<open>advance\<close> is one step of one request (the
  code between two \<^verbatim>\<open>await\<close>s and the call it ends with), \<open>flight_reach\<close> any interleaving of the requests.
  The locale \<open>single_flight\<close> states what the services rely on and proves what they promise: operations
  of one key never overlap, who joined gets the result of an operation of that key, nobody waits
  for an operation that is not there, and no key stays in the map.
\<close>

datatype 'a promise = Pending | Settled 'a

record ('q, 'k, 'c, 'r, 'a, 'b, 'm) flight_code =
  fl_key :: "'q \<Rightarrow> 'k"
  fl_pre :: "'q \<Rightarrow> ('c, 'r, 'b option) prog"
  fl_gate :: "'q \<Rightarrow> 'm \<Rightarrow> ('b \<times> 'm) option"
  fl_enter :: "'q \<Rightarrow> 'm \<Rightarrow> 'm"
  fl_body :: "'q \<Rightarrow> ('c, 'r, 'a) prog"
  fl_sync :: "'q \<Rightarrow> 'a option"
  fl_inside :: bool
  fl_finish :: "'q \<Rightarrow> 'a \<Rightarrow> 'm \<Rightarrow> 'b \<times> 'm"
  fl_join :: "'q \<Rightarrow> 'a \<Rightarrow> 'b"

text \<open>
  \<open>fl_pre\<close>: calls made before the map is looked at; they may answer the request. \<open>fl_gate\<close>: an answer
  from the memory of the service alone. \<open>fl_enter\<close>: what a request that joins does to that memory.
  \<open>fl_body\<close>: the operation. \<open>fl_sync\<close>: its result when it ends before its first \<^verbatim>\<open>await\<close>. \<open>fl_inside\<close>:
  whether the key is taken out by the operation itself, and not by the request that awaits it.
\<close>

datatype ('c, 'r, 'a, 'b) task =
    Arrived "('c, 'r, 'b option) prog"
  | Leading nat "('c, 'r, 'a) prog"
  | Leaving nat 'a
  | Joined nat
  | Answered 'b

record ('k, 'c, 'r, 'a, 'b, 'm, 's) flight_state =
  fs_tasks :: "('c, 'r, 'a, 'b) task list"
  fs_map :: "('k, nat) js_map"
  fs_promises :: "'a promise list"
  fs_memory :: 'm
  fs_world :: 's

definition flight_start ::
  "('q, 'k, 'c, 'r, 'a, 'b, 'm) flight_code \<Rightarrow> 'q list \<Rightarrow> 'm \<Rightarrow> 's \<Rightarrow> ('k, 'c, 'r, 'a, 'b, 'm, 's) flight_state" where
  "flight_start code qs m s =
     \<lparr>fs_tasks = map (\<lambda>q. Arrived (fl_pre code q)) qs, fs_map = [], fs_promises = [],
      fs_memory = m, fs_world = s\<rparr>"

definition set_task :: "nat \<Rightarrow> ('c, 'r, 'a, 'b) task \<Rightarrow>
    ('k, 'c, 'r, 'a, 'b, 'm, 's) flight_state \<Rightarrow> ('k, 'c, 'r, 'a, 'b, 'm, 's) flight_state" where
  "set_task i t st = st\<lparr>fs_tasks := (fs_tasks st)[i := t]\<rparr>"

text \<open>Looking at the map, with no \<^verbatim>\<open>await\<close> between the look-up and the entry.\<close>

definition flight_enter ::
  "('q, 'k, 'c, 'r, 'a, 'b, 'm) flight_code \<Rightarrow> 'q \<Rightarrow> nat \<Rightarrow>
   ('k, 'c, 'r, 'a, 'b, 'm, 's) flight_state \<Rightarrow> ('k, 'c, 'r, 'a, 'b, 'm, 's) flight_state" where
  "flight_enter code q i st =
     (case fl_gate code q (fs_memory st) of
        Some (b, m) \<Rightarrow> set_task i (Answered b) (st\<lparr>fs_memory := m\<rparr>)
      | None \<Rightarrow>
        (case jm_get (fs_map st) (fl_key code q) of
           Some p \<Rightarrow> set_task i (Joined p) (st\<lparr>fs_memory := fl_enter code q (fs_memory st)\<rparr>)
         | None \<Rightarrow>
           (let p = length (fs_promises st);
                opened = st\<lparr>fs_map := jm_set (fs_map st) (fl_key code q) p\<rparr>
            in case fl_sync code q of
                 None \<Rightarrow> set_task i (Leading p (fl_body code q)) (opened\<lparr>fs_promises := fs_promises st @ [Pending]\<rparr>)
               | Some a \<Rightarrow> (let (b, m) = fl_finish code q a (fs_memory st) in
                   set_task i (Answered b) (opened\<lparr>fs_promises := fs_promises st @ [Settled a], fs_memory := m\<rparr>)))))"

definition flight_leave ::
  "('q, 'k, 'c, 'r, 'a, 'b, 'm) flight_code \<Rightarrow> 'q \<Rightarrow> nat \<Rightarrow> 'a \<Rightarrow>
   ('k, 'c, 'r, 'a, 'b, 'm, 's) flight_state \<Rightarrow> ('k, 'c, 'r, 'a, 'b, 'm, 's) flight_state" where
  "flight_leave code q i a st =
     (let (b, m) = fl_finish code q a (fs_memory st) in
      set_task i (Answered b) (st\<lparr>fs_map := jm_delete (fs_map st) (fl_key code q), fs_memory := m\<rparr>))"

fun advance_task ::
  "('q, 'k, 'c, 'r, 'a, 'b, 'm) flight_code \<Rightarrow> ('c, 'r, 's) service \<Rightarrow> 'q \<Rightarrow> nat \<Rightarrow> ('c, 'r, 'a, 'b) task \<Rightarrow>
   ('k, 'c, 'r, 'a, 'b, 'm, 's) flight_state \<Rightarrow> ('k, 'c, 'r, 'a, 'b, 'm, 's) flight_state option" where
  "advance_task code exec q i (Arrived (Call c k)) st =
     (case exec c (fs_world st) of (r, s) \<Rightarrow> Some (set_task i (Arrived (k r)) (st\<lparr>fs_world := s\<rparr>)))"
| "advance_task code exec q i (Arrived (Ret (Some b))) st = Some (set_task i (Answered b) st)"
| "advance_task code exec q i (Arrived (Ret None)) st = Some (flight_enter code q i st)"
| "advance_task code exec q i (Leading p (Call c k)) st =
     (case exec c (fs_world st) of (r, s) \<Rightarrow> Some (set_task i (Leading p (k r)) (st\<lparr>fs_world := s\<rparr>)))"
| "advance_task code exec q i (Leading p (Ret a)) st =
     (let settled = st\<lparr>fs_promises := (fs_promises st)[p := Settled a]\<rparr>
      in Some (if fl_inside code then flight_leave code q i a settled else set_task i (Leaving p a) settled))"
| "advance_task code exec q i (Leaving p a) st = Some (flight_leave code q i a st)"
| "advance_task code exec q i (Joined p) st =
     (case fs_promises st ! p of Pending \<Rightarrow> None | Settled a \<Rightarrow> Some (set_task i (Answered (fl_join code q a)) st))"
| "advance_task code exec q i (Answered b) st = None"

definition advance ::
  "('q, 'k, 'c, 'r, 'a, 'b, 'm) flight_code \<Rightarrow> ('c, 'r, 's) service \<Rightarrow> 'q list \<Rightarrow> nat \<Rightarrow>
   ('k, 'c, 'r, 'a, 'b, 'm, 's) flight_state \<Rightarrow> ('k, 'c, 'r, 'a, 'b, 'm, 's) flight_state option" where
  "advance code exec qs i st =
     (if i < length qs then advance_task code exec (qs ! i) i (fs_tasks st ! i) st else None)"

inductive flight_reach ::
  "('q, 'k, 'c, 'r, 'a, 'b, 'm) flight_code \<Rightarrow> ('c, 'r, 's) service \<Rightarrow> ('s \<Rightarrow> 's \<Rightarrow> bool) \<Rightarrow> 'q list \<Rightarrow>
   ('k, 'c, 'r, 'a, 'b, 'm, 's) flight_state \<Rightarrow> ('k, 'c, 'r, 'a, 'b, 'm, 's) flight_state \<Rightarrow> bool"
  for code exec drift qs st0 where
  reach_start: "flight_reach code exec drift qs st0 st0"
| reach_step: "flight_reach code exec drift qs st0 st \<Longrightarrow> advance code exec qs i st = Some st' \<Longrightarrow>
    flight_reach code exec drift qs st0 st'"
| reach_drift: "flight_reach code exec drift qs st0 st \<Longrightarrow> drift (fs_world st) s \<Longrightarrow>
    flight_reach code exec drift qs st0 (st\<lparr>fs_world := s\<rparr>)"

text \<open>Running a list of request numbers; a request that cannot move is passed over.\<close>

fun flight_schedule ::
  "('q, 'k, 'c, 'r, 'a, 'b, 'm) flight_code \<Rightarrow> ('c, 'r, 's) service \<Rightarrow> 'q list \<Rightarrow> nat list \<Rightarrow>
   ('k, 'c, 'r, 'a, 'b, 'm, 's) flight_state \<Rightarrow> ('k, 'c, 'r, 'a, 'b, 'm, 's) flight_state" where
  "flight_schedule code exec qs [] st = st"
| "flight_schedule code exec qs (i # order) st =
     flight_schedule code exec qs order (case advance code exec qs i st of None \<Rightarrow> st | Some st' \<Rightarrow> st')"

lemma schedule_reach:
  "flight_reach code exec drift qs st0 st \<Longrightarrow> flight_reach code exec drift qs st0 (flight_schedule code exec qs order st)"
  by (induction order arbitrary: st) (auto intro: reach_step split: option.splits)

section \<open>The invariant\<close>

fun leads :: "nat \<Rightarrow> ('c, 'r, 'a, 'b) task \<Rightarrow> bool" where
  "leads p (Leading p' b) = (p' = p)"
| "leads p (Leaving p' a) = (p' = p)"
| "leads p _ = False"

definition leader :: "('c, 'r, 'a, 'b) task \<Rightarrow> bool" where
  "leader t = (\<exists>p. leads p t)"

text \<open>What holds of request \<open>q\<close> whose task is \<open>t\<close>.\<close>

fun task_ok ::
  "('q, 'k, 'c, 'r, 'a, 'b, 'm) flight_code \<Rightarrow> 'q list \<Rightarrow> ('k, 'c, 'r, 'a, 'b, 'm, 's) flight_state \<Rightarrow> 'q \<Rightarrow>
   ('c, 'r, 'a, 'b) task \<Rightarrow> bool" where
  "task_ok code qs st q (Leading p b) =
     (jm_get (fs_map st) (fl_key code q) = Some p \<and> p < length (fs_promises st) \<and> fs_promises st ! p = Pending \<and>
      (\<exists>lg. feed (fl_body code q) lg = Some b))"
| "task_ok code qs st q (Leaving p a) =
     (jm_get (fs_map st) (fl_key code q) = Some p \<and> p < length (fs_promises st) \<and> fs_promises st ! p = Settled a \<and>
      (\<exists>lg. feed (fl_body code q) lg = Some (Ret a)))"
| "task_ok code qs st q (Joined p) =
     (p < length (fs_promises st) \<and>
      (case fs_promises st ! p of
         Pending \<Rightarrow> \<exists>j<length qs. leads p (fs_tasks st ! j) \<and> fl_key code (qs ! j) = fl_key code q
       | Settled a \<Rightarrow> \<exists>j<length qs. fl_key code (qs ! j) = fl_key code q \<and>
           (\<exists>lg. feed (fl_body code (qs ! j)) lg = Some (Ret a))))"
| "task_ok code qs st q _ = True"

definition flights_ok ::
  "('q, 'k, 'c, 'r, 'a, 'b, 'm) flight_code \<Rightarrow> 'q list \<Rightarrow> ('k, 'c, 'r, 'a, 'b, 'm, 's) flight_state \<Rightarrow> bool" where
  "flights_ok code qs st =
     (length (fs_tasks st) = length qs \<and>
      (\<forall>i<length qs. task_ok code qs st (qs ! i) (fs_tasks st ! i)) \<and>
      (\<forall>k p. jm_get (fs_map st) k = Some p \<longrightarrow>
         (\<exists>i<length qs. fl_key code (qs ! i) = k \<and> leads p (fs_tasks st ! i))) \<and>
      (\<forall>i<length qs. \<forall>j<length qs. \<forall>p. leads p (fs_tasks st ! i) \<longrightarrow> leads p (fs_tasks st ! j) \<longrightarrow> i = j))"

lemma flights_okD:
  assumes "flights_ok code qs st"
  shows "length (fs_tasks st) = length qs"
    and "\<And>i. i < length qs \<Longrightarrow> task_ok code qs st (qs ! i) (fs_tasks st ! i)"
    and "\<And>k p. jm_get (fs_map st) k = Some p \<Longrightarrow> \<exists>i<length qs. fl_key code (qs ! i) = k \<and> leads p (fs_tasks st ! i)"
    and "\<And>i j p. i < length qs \<Longrightarrow> j < length qs \<Longrightarrow> leads p (fs_tasks st ! i) \<Longrightarrow> leads p (fs_tasks st ! j) \<Longrightarrow> i = j"
  using assms unfolding flights_ok_def by blast+

lemma flights_okI:
  assumes "length (fs_tasks st) = length qs"
    and "\<And>i. i < length qs \<Longrightarrow> task_ok code qs st (qs ! i) (fs_tasks st ! i)"
    and "\<And>k p. jm_get (fs_map st) k = Some p \<Longrightarrow> \<exists>i<length qs. fl_key code (qs ! i) = k \<and> leads p (fs_tasks st ! i)"
    and "\<And>i j p. i < length qs \<Longrightarrow> j < length qs \<Longrightarrow> leads p (fs_tasks st ! i) \<Longrightarrow> leads p (fs_tasks st ! j) \<Longrightarrow> i = j"
  shows "flights_ok code qs st"
  using assms unfolding flights_ok_def by blast

lemma leads_task_ok:
  "leads p t \<Longrightarrow> task_ok code qs st q t \<Longrightarrow> jm_get (fs_map st) (fl_key code q) = Some p \<and> p < length (fs_promises st)"
  by (cases t) auto

text \<open>A step after which the same requests lead the same promises.\<close>

lemma task_ok_cong:
  assumes "fs_map st' = fs_map st" and "fs_promises st' = fs_promises st"
    and "\<And>j p. j < length qs \<Longrightarrow> leads p (fs_tasks st' ! j) = leads p (fs_tasks st ! j)"
  shows "task_ok code qs st' q t = task_ok code qs st q t"
  using assms by (cases t) (auto split: promise.splits)

lemma same_leads_ok:
  assumes ok: "flights_ok code qs st" and "fs_map st' = fs_map st" and "fs_promises st' = fs_promises st"
    and tasks: "fs_tasks st' = (fs_tasks st)[i := t]" and i: "i < length qs"
    and "\<And>p. leads p t = leads p (fs_tasks st ! i)" and t: "task_ok code qs st (qs ! i) t"
  shows "flights_ok code qs st'"
proof -
  note D = flights_okD [OF ok]
  have leads: "leads p (fs_tasks st' ! j) = leads p (fs_tasks st ! j)" if "j < length qs" for j p
    using that assms(6) D(1) i by (simp add: tasks nth_list_update)
  have "task_ok code qs st' (qs ! j) (fs_tasks st' ! j)" if "j < length qs" for j
    using that D(1,2) t i by (cases "j = i") (simp_all add: task_ok_cong [OF assms(2,3) leads] tasks)
  moreover have "\<exists>j<length qs. fl_key code (qs ! j) = k \<and> leads p (fs_tasks st' ! j)"
    if "jm_get (fs_map st') k = Some p" for k p
    using D(3) that leads assms(2) by metis
  ultimately show ?thesis using D(1,4) leads by (intro flights_okI) (simp_all add: tasks)
qed

text \<open>Starting an operation.\<close>

lemma lead_ok:
  assumes ok: "flights_ok code qs st" and i: "i < length qs" and "fs_tasks st ! i = Arrived b"
    and free: "jm_get (fs_map st) (fl_key code (qs ! i)) = None"
    and map': "fs_map st' = jm_set (fs_map st) (fl_key code (qs ! i)) (length (fs_promises st))"
    and promises': "fs_promises st' = fs_promises st @ [Pending]"
    and tasks': "fs_tasks st' = (fs_tasks st)[i := Leading (length (fs_promises st)) (fl_body code (qs ! i))]"
  shows "flights_ok code qs st'"
proof -
  note D = flights_okD [OF ok]
  let ?p = "length (fs_promises st)" and ?k = "fl_key code (qs ! i)"
  have bound: "p < ?p \<and> fl_key code (qs ! j) \<noteq> ?k \<and> j \<noteq> i" if "j < length qs" "leads p (fs_tasks st ! j)" for j p
  proof -
    have "jm_get (fs_map st) (fl_key code (qs ! j)) = Some p" "p < ?p"
      using leads_task_ok [OF that(2) D(2) [OF that(1)]] by simp_all
    then show ?thesis using free that(2) assms(3) by (cases "j = i") auto
  qed
  have leads': "leads p (fs_tasks st' ! j) = (if j = i then p = ?p else leads p (fs_tasks st ! j))"
    if "j < length qs" for j p
    using that D(1) i by (cases "j = i") (auto simp: tasks')
  have other: "task_ok code qs st' (qs ! j) (fs_tasks st ! j)" if j: "j < length qs" and ji: "j \<noteq> i" for j
  proof (cases "fs_tasks st ! j")
    case (Leading p b)
    then show ?thesis using D(2) [OF j] bound [OF j, of p] by (auto simp: map' promises' nth_append)
  next
    case (Leaving p a)
    then show ?thesis using D(2) [OF j] bound [OF j, of p] by (auto simp: map' promises' nth_append)
  next
    case (Joined p)
    have p: "p < ?p" using D(2) [OF j] Joined by simp
    show ?thesis
    proof (cases "fs_promises st ! p")
      case Pending
      then obtain j' where j': "j' < length qs" "leads p (fs_tasks st ! j')" "fl_key code (qs ! j') = fl_key code (qs ! j)"
        using D(2) [OF j] Joined by auto
      then have "leads p (fs_tasks st' ! j')" using bound [OF j'(1,2)] leads' [OF j'(1)] by simp
      then have "task_ok code qs st' (qs ! j) (Joined p)" using Pending p j' by (simp add: promises' nth_append) blast
      then show ?thesis using Joined by simp
    next
      case (Settled a)
      then have "task_ok code qs st' (qs ! j) (Joined p)" using D(2) [OF j] Joined p by (simp add: promises' nth_append)
      then show ?thesis using Joined by simp
    qed
  qed auto
  have new: "task_ok code qs st' (qs ! i) (Leading ?p (fl_body code (qs ! i)))"
    by (simp add: map' promises') (rule exI [of _ "[]"], simp)
  have "task_ok code qs st' (qs ! j) (fs_tasks st' ! j)" if "j < length qs" for j
    using that other new D(1) i by (cases "j = i") (simp_all add: tasks' nth_list_update)
  moreover have "\<exists>j<length qs. fl_key code (qs ! j) = k \<and> leads p (fs_tasks st' ! j)"
    if m: "jm_get (fs_map st') k = Some p" for k p
  proof (cases "k = ?k")
    case True
    then have "p = ?p" using m by (simp add: map')
    then show ?thesis using True i leads' [OF i] by auto
  next
    case False
    then obtain j where "j < length qs" "fl_key code (qs ! j) = k" "leads p (fs_tasks st ! j)"
      using m D(3) by (auto simp: map')
    then show ?thesis using bound [of j p] leads' [of j p] by auto
  qed
  moreover have "j = j'" if "j < length qs" "j' < length qs" "leads p (fs_tasks st' ! j)" "leads p (fs_tasks st' ! j')" for j j' p
  proof (cases "p = ?p")
    case True
    then have "j = i" "j' = i" using that leads' bound [of j p] bound [of j' p] by (auto split: if_splits)
    then show ?thesis by simp
  next
    case False
    then have "leads p (fs_tasks st ! j)" "leads p (fs_tasks st ! j')" using that leads' by (simp_all split: if_splits)
    then show ?thesis using D(4) that(1,2) by blast
  qed
  ultimately show ?thesis using D(1) by (intro flights_okI) (simp_all add: tasks')
qed

text \<open>The end of an operation, and the removal of its key.\<close>

lemma settle_ok:
  assumes ok: "flights_ok code qs st" and i: "i < length qs" and old: "fs_tasks st ! i = Leading p (Ret a)"
    and map': "fs_map st' = fs_map st" and promises': "fs_promises st' = (fs_promises st)[p := Settled a]"
    and tasks': "fs_tasks st' = (fs_tasks st)[i := Leaving p a]"
  shows "flights_ok code qs st'"
proof -
  note D = flights_okD [OF ok]
  have here: "jm_get (fs_map st) (fl_key code (qs ! i)) = Some p" "p < length (fs_promises st)"
    "\<exists>lg. feed (fl_body code (qs ! i)) lg = Some (Ret a)"
    using D(2) [OF i] old by auto
  have leads': "leads p' (fs_tasks st' ! j) = leads p' (fs_tasks st ! j)" if "j < length qs" for j p'
    using that D(1) i old by (auto simp: tasks' nth_list_update)
  have lead_i: "j = i" if "j < length qs" "leads p (fs_tasks st ! j)" for j
    using D(4) [OF that(1) i that(2)] old by simp
  have "task_ok code qs st' (qs ! j) (fs_tasks st ! j)" if j: "j < length qs" and ji: "j \<noteq> i" for j
  proof (cases "fs_tasks st ! j")
    case (Leading p' b)
    then have "p' \<noteq> p" using lead_i [OF j] ji by auto
    then show ?thesis using D(2) [OF j] Leading by (auto simp: map' promises')
  next
    case (Leaving p' b)
    then have "p' \<noteq> p" using lead_i [OF j] ji by auto
    then show ?thesis using D(2) [OF j] Leaving by (auto simp: map' promises')
  next
    case (Joined p')
    show ?thesis
    proof (cases "p' = p")
      case True
      moreover have "fs_promises st ! p = Pending" using D(2) [OF i] old by simp
      ultimately have "\<exists>j'<length qs. leads p (fs_tasks st ! j') \<and> fl_key code (qs ! j') = fl_key code (qs ! j)"
        using D(2) [OF j] Joined by simp
      then have "fl_key code (qs ! i) = fl_key code (qs ! j)" using lead_i by auto
      then show ?thesis using True Joined i here by (auto simp: promises')
    next
      case False
      then show ?thesis using D(2) [OF j] Joined leads' by (auto simp: promises' split: promise.splits)
    qed
  qed auto
  then have "task_ok code qs st' (qs ! j) (fs_tasks st' ! j)" if "j < length qs" for j
    using that D(1) i here by (cases "j = i") (simp_all add: tasks' map' promises')
  moreover have "\<exists>j<length qs. fl_key code (qs ! j) = k \<and> leads p' (fs_tasks st' ! j)"
    if "jm_get (fs_map st') k = Some p'" for k p'
    using D(3) that leads' map' by metis
  ultimately show ?thesis using D(1,4) leads' by (intro flights_okI) (simp_all add: tasks')
qed

lemma leave_ok:
  assumes ok: "flights_ok code qs st" and i: "i < length qs" and old: "fs_tasks st ! i = Leaving p a"
    and map': "fs_map st' = jm_delete (fs_map st) (fl_key code (qs ! i))" and promises': "fs_promises st' = fs_promises st"
    and tasks': "fs_tasks st' = (fs_tasks st)[i := Answered b]"
  shows "flights_ok code qs st'"
proof -
  note D = flights_okD [OF ok]
  have here: "jm_get (fs_map st) (fl_key code (qs ! i)) = Some p" "fs_promises st ! p = Settled a"
    using D(2) [OF i] old by auto
  have leads': "leads p' (fs_tasks st' ! j) = (j \<noteq> i \<and> leads p' (fs_tasks st ! j))" if "j < length qs" for j p'
    using that D(1) i by (auto simp: tasks' nth_list_update)
  have key: "fl_key code (qs ! j) \<noteq> fl_key code (qs ! i)"
    if "j < length qs" "j \<noteq> i" "leads p' (fs_tasks st ! j)" for j p'
  proof
    assume "fl_key code (qs ! j) = fl_key code (qs ! i)"
    then have "p' = p" using leads_task_ok [OF that(3) D(2) [OF that(1)]] here by simp
    then show False using D(4) [OF that(1) i that(3)] old that(2) by simp
  qed
  have "task_ok code qs st' (qs ! j) (fs_tasks st ! j)" if j: "j < length qs" and ji: "j \<noteq> i" for j
  proof (cases "fs_tasks st ! j")
    case (Leading p' b)
    then show ?thesis using D(2) [OF j] key [OF j ji] by (auto simp: map' promises')
  next
    case (Leaving p' b)
    then show ?thesis using D(2) [OF j] key [OF j ji] by (auto simp: map' promises')
  next
    case (Joined p')
    show ?thesis
    proof (cases "fs_promises st ! p'")
      case Pending
      then have "p' \<noteq> p" using here by auto
      moreover obtain j' where "j' < length qs" "leads p' (fs_tasks st ! j')" "fl_key code (qs ! j') = fl_key code (qs ! j)"
        using D(2) [OF j] Joined Pending by auto
      ultimately have "leads p' (fs_tasks st' ! j')" using leads' old by auto
      then show ?thesis using D(2) [OF j] Joined Pending \<open>j' < length qs\<close> \<open>fl_key code (qs ! j') = fl_key code (qs ! j)\<close>
        by (auto simp: promises')
    next
      case (Settled a')
      then show ?thesis using D(2) [OF j] Joined by (auto simp: promises')
    qed
  qed auto
  then have tasks: "task_ok code qs st' (qs ! j) (fs_tasks st' ! j)" if "j < length qs" for j
    using that D(1) i by (cases "j = i") (auto simp: tasks' nth_list_update)
  moreover have "\<exists>j<length qs. fl_key code (qs ! j) = k \<and> leads p' (fs_tasks st' ! j)"
    if m: "jm_get (fs_map st') k = Some p'" for k p'
  proof -
    have k: "k \<noteq> fl_key code (qs ! i)" and "jm_get (fs_map st) k = Some p'" using m by (auto simp: map' split: if_splits)
    then obtain j where "j < length qs" "fl_key code (qs ! j) = k" "leads p' (fs_tasks st ! j)" using D(3) by blast
    then show ?thesis using k leads' by auto
  qed
  moreover have "j = j'" if "j < length qs" "j' < length qs" "leads p' (fs_tasks st' ! j)" "leads p' (fs_tasks st' ! j')" for j j' p'
    using that leads' D(4) [of j j' p'] by auto
  ultimately show ?thesis using D(1) by (intro flights_okI) (simp_all add: tasks')
qed

lemma set_task_fields [simp]:
  "fs_tasks (set_task i t st) = (fs_tasks st)[i := t]" "fs_map (set_task i t st) = fs_map st"
  "fs_promises (set_task i t st) = fs_promises st" "fs_memory (set_task i t st) = fs_memory st"
  "fs_world (set_task i t st) = fs_world st"
  by (simp_all add: set_task_def)

lemma flight_leave_fields:
  "fs_map (flight_leave code q i a st) = jm_delete (fs_map st) (fl_key code q)"
  "fs_promises (flight_leave code q i a st) = fs_promises st"
  "fs_tasks (flight_leave code q i a st) = (fs_tasks st)[i := Answered (fst (fl_finish code q a (fs_memory st)))]"
  by (simp_all add: flight_leave_def split: prod.splits)

lemma enter_ok:
  assumes ok: "flights_ok code qs st" and i: "i < length qs" and old: "fs_tasks st ! i = Arrived b"
    and sync: "fl_sync code (qs ! i) = None"
  shows "flights_ok code qs (flight_enter code (qs ! i) i st)"
proof (cases "fl_gate code (qs ! i) (fs_memory st)")
  case gate: None
  show ?thesis
  proof (cases "jm_get (fs_map st) (fl_key code (qs ! i))")
    case None
    then show ?thesis
      using gate sync by (intro lead_ok [OF ok i old]) (simp_all add: flight_enter_def Let_def)
  next
    case (Some p)
    note D = flights_okD [OF ok]
    obtain j where j: "j < length qs" "fl_key code (qs ! j) = fl_key code (qs ! i)" "leads p (fs_tasks st ! j)"
      using D(3) [OF Some] by blast
    have "task_ok code qs st (qs ! i) (Joined p)"
      using D(2) [OF j(1)] j by (cases "fs_tasks st ! j") auto
    then show ?thesis
      using Some gate old
      by (intro same_leads_ok [OF ok _ _ _ i, where t = "Joined p"]) (simp_all add: flight_enter_def)
  qed
next
  case (Some bm)
  then show ?thesis
    using old by (cases bm, intro same_leads_ok [OF ok _ _ _ i, where t = "Answered (fst bm)"])
      (simp_all add: flight_enter_def)
qed

lemma advance_ok:
  assumes ok: "flights_ok code qs st" and "\<And>q. fl_sync code q = None" and step: "advance code exec qs i st = Some st'"
  shows "flights_ok code qs st'"
proof -
  note D = flights_okD [OF ok]
  have i: "i < length qs" using step by (simp add: advance_def split: if_splits)
  then have adv: "advance_task code exec (qs ! i) i (fs_tasks st ! i) st = Some st'" using step by (simp add: advance_def)
  show ?thesis
  proof (cases "fs_tasks st ! i")
    case (Arrived m)
    show ?thesis
    proof (cases m)
      case (Ret b)
      show ?thesis
      proof (cases b)
        case None
        then show ?thesis using adv Arrived Ret enter_ok [OF ok i] assms(2) by simp
      next
        case (Some x)
        then show ?thesis using adv Arrived Ret
          by (intro same_leads_ok [OF ok _ _ _ i, where t = "Answered x"]) auto
      qed
    next
      case (Call c k)
      obtain r s where "exec c (fs_world st) = (r, s)" by force
      then show ?thesis using adv Arrived Call
        by (intro same_leads_ok [OF ok _ _ _ i, where t = "Arrived (k r)"]) auto
    qed
  next
    case (Leading p m)
    show ?thesis
    proof (cases m)
      case (Call c k)
      obtain r s where e: "exec c (fs_world st) = (r, s)" by force
      have "\<exists>lg. feed (fl_body code (qs ! i)) lg = Some (k r)"
        using D(2) [OF i] Leading Call feed_snoc by fastforce
      then have "task_ok code qs st (qs ! i) (Leading p (k r))" using D(2) [OF i] Leading by simp
      then show ?thesis using adv Leading Call e
        by (intro same_leads_ok [OF ok _ _ _ i, where t = "Leading p (k r)"]) auto
    next
      case (Ret a)
      let ?mid = "set_task i (Leaving p a) (st\<lparr>fs_promises := (fs_promises st)[p := Settled a]\<rparr>)"
      have mid: "flights_ok code qs ?mid"
        using Leading Ret by (intro settle_ok [OF ok i, where p = p and a = a]) simp_all
      show ?thesis
      proof (cases "fl_inside code")
        case False
        then show ?thesis using adv Leading Ret mid by (auto simp: Let_def)
      next
        case True
        then have st': "st' = flight_leave code (qs ! i) i a (st\<lparr>fs_promises := (fs_promises st)[p := Settled a]\<rparr>)"
          using adv Leading Ret by (simp add: Let_def)
        show ?thesis
          using D(1) i by (intro leave_ok [OF mid i, where p = p and a = a]) (simp_all add: st' flight_leave_fields)
      qed
    qed
  next
    case (Leaving p a)
    then show ?thesis using adv
      by (intro leave_ok [OF ok i]) (auto simp: flight_leave_fields)
  next
    case (Joined p)
    then obtain a where "st' = set_task i (Answered (fl_join code (qs ! i) a)) st"
      using adv by (auto split: promise.splits)
    then show ?thesis using Joined
      by (intro same_leads_ok [OF ok _ _ _ i, where t = "Answered (fl_join code (qs ! i) a)"]) simp_all
  qed (use adv in simp)
qed

lemma start_ok: "flights_ok code qs (flight_start code qs m s)"
  by (rule flights_okI) (simp_all add: flight_start_def)

lemma world_ok: "flights_ok code qs st \<Longrightarrow> flights_ok code qs (st\<lparr>fs_world := s\<rparr>)"
proof -
  assume ok: "flights_ok code qs st"
  note D = flights_okD [OF ok]
  show ?thesis
    by (rule flights_okI) (use D in \<open>simp_all add: task_ok_cong [of "st\<lparr>fs_world := s\<rparr>" st]\<close>)
qed

section \<open>What the services rely on\<close>

locale single_flight =
  fixes code :: "('q, 'k, 'c, 'r, 'a, 'b, 'm) flight_code"
  assumes asynchronous: "fl_sync code q = None"
begin

lemma reach_ok:
  "flight_reach code exec drift qs (flight_start code qs m s) st \<Longrightarrow> flights_ok code qs st"
  by (induction rule: flight_reach.induct) (auto intro: start_ok advance_ok asynchronous world_ok)

text \<open>Operations of one key never overlap.\<close>

lemma one_leader:
  assumes "flight_reach code exec drift qs (flight_start code qs m s) st"
    and "i < length qs" and "j < length qs" and "i \<noteq> j" and "leader (fs_tasks st ! i)" and "leader (fs_tasks st ! j)"
  shows "fl_key code (qs ! i) \<noteq> fl_key code (qs ! j)"
proof
  note D = flights_okD [OF reach_ok [OF assms(1)]]
  assume same: "fl_key code (qs ! i) = fl_key code (qs ! j)"
  obtain p p' where "leads p (fs_tasks st ! i)" "leads p' (fs_tasks st ! j)" using assms(5,6) by (auto simp: leader_def)
  moreover have "p' = p"
    using leads_task_ok [OF calculation(1) D(2) [OF assms(2)]] leads_task_ok [OF calculation(2) D(2) [OF assms(3)]] same
    by simp
  ultimately show False using D(4) [OF assms(2,3)] assms(4) by blast
qed

text \<open>A request that joined is answered with the result of an operation of its own key.\<close>

lemma joined_result:
  assumes "flight_reach code exec drift qs (flight_start code qs m s) st"
    and "i < length qs" and "fs_tasks st ! i = Joined p" and "fs_promises st ! p = Settled a"
  shows "\<exists>j<length qs. fl_key code (qs ! j) = fl_key code (qs ! i) \<and> (\<exists>lg. feed (fl_body code (qs ! j)) lg = Some (Ret a))"
  using flights_okD(2) [OF reach_ok [OF assms(1)] assms(2)] assms(3,4) by simp

text \<open>Some request can always move while one is not answered.\<close>

lemma some_moves:
  assumes r: "flight_reach code exec drift qs (flight_start code qs m s) st"
    and "i < length qs" and "\<nexists>b. fs_tasks st ! i = Answered b"
  shows "\<exists>j<length qs. advance code exec qs j st \<noteq> None"
proof -
  note D = flights_okD [OF reach_ok [OF r]]
  have moves: "advance code exec qs j st \<noteq> None" if "j < length qs" "leader (fs_tasks st ! j)" for j
  proof (cases "fs_tasks st ! j")
    case (Leading p m)
    then show ?thesis using that by (cases m) (auto simp: advance_def Let_def split: prod.splits)
  qed (use that in \<open>auto simp: advance_def leader_def\<close>)
  show ?thesis
  proof (cases "fs_tasks st ! i")
    case (Arrived m)
    have "advance code exec qs i st \<noteq> None"
    proof (cases m)
      case (Ret b)
      then show ?thesis using Arrived assms(2) by (cases b) (auto simp: advance_def)
    next
      case (Call c k)
      then show ?thesis using Arrived assms(2) by (auto simp: advance_def split: prod.splits)
    qed
    then show ?thesis using assms(2) by blast
  next
    case (Joined p)
    show ?thesis
    proof (cases "fs_promises st ! p")
      case Pending
      then obtain j where "j < length qs" "leads p (fs_tasks st ! j)" using D(2) [OF assms(2)] Joined by auto
      then have "j < length qs" "advance code exec qs j st \<noteq> None" using moves [of j] by (auto simp: leader_def)
      then show ?thesis by blast
    next
      case (Settled a)
      then have "advance code exec qs i st \<noteq> None" using Joined assms(2) by (simp add: advance_def)
      then show ?thesis using assms(2) by blast
    qed
  next
    case (Leading p m)
    then show ?thesis using moves [OF assms(2)] assms(2) by (auto simp: leader_def)
  next
    case (Leaving p a)
    then show ?thesis using moves [OF assms(2)] assms(2) by (auto simp: leader_def)
  next
    case (Answered b)
    then show ?thesis using assms(3) by blast
  qed
qed

text \<open>A key is in the map only while a request leads its operation.\<close>

lemma key_released:
  assumes "flight_reach code exec drift qs (flight_start code qs m s) st" and "jm_get (fs_map st) k = Some p"
  shows "\<exists>i<length qs. fl_key code (qs ! i) = k \<and> leads p (fs_tasks st ! i)"
  using flights_okD(3) [OF reach_ok [OF assms(1)] assms(2)] .

text \<open>The four guarantees together, for a request \<open>i\<close>.\<close>

lemma shared_run:
  assumes "flight_reach code exec drift qs (flight_start code qs m s) st" and "i < length qs"
  shows "(if leader (fs_tasks st ! i) then
            {j. j < length qs \<and> leader (fs_tasks st ! j) \<and> fl_key code (qs ! j) = fl_key code (qs ! i)} = {i} else True) \<and>
     (case fs_tasks st ! i of
        Joined p \<Rightarrow> (case fs_promises st ! p of
            Settled a \<Rightarrow> \<exists>j<length qs. fl_key code (qs ! j) = fl_key code (qs ! i) \<and>
              (\<exists>lg. feed (fl_body code (qs ! j)) lg = Some (Ret a))
          | Pending \<Rightarrow> True)
      | _ \<Rightarrow> True) \<and>
     (case jm_get (fs_map st) k of
        Some p \<Rightarrow> \<exists>j<length qs. fl_key code (qs ! j) = k \<and> leads p (fs_tasks st ! j) | None \<Rightarrow> True) \<and>
     ((\<exists>b. fs_tasks st ! i = Answered b) \<or> (\<exists>j<length qs. advance code exec qs j st \<noteq> None))"
proof (intro conjI)
  show "if leader (fs_tasks st ! i) then
      {j. j < length qs \<and> leader (fs_tasks st ! j) \<and> fl_key code (qs ! j) = fl_key code (qs ! i)} = {i} else True"
    using assms(2) one_leader [OF assms(1) _ assms(2)] by auto
  show "case jm_get (fs_map st) k of
      Some p \<Rightarrow> \<exists>j<length qs. fl_key code (qs ! j) = k \<and> leads p (fs_tasks st ! j) | None \<Rightarrow> True"
    using key_released [OF assms(1)] by (simp split: option.splits)
qed (use joined_result [OF assms] some_moves [OF assms] in \<open>auto split: task.splits promise.splits\<close>)

end

end
