(* ===== verification/Json.thy ===== *)
theory Json
  imports Js_Text Js_Map
begin

text \<open>Values of unknown shape: JSON, the fields of an object, and the operators \<^verbatim>\<open>??\<close> and \<^verbatim>\<open>!\<close> on them.\<close>

datatype json = JNull | JBool bool | JNum jsnum | JStr string | JArr "json list" | JObj "(string \<times> json) list"

text \<open>A field of a value; \<^verbatim>\<open>undefined\<close> is \<open>None\<close>.\<close>

fun json_field :: "json \<Rightarrow> string \<Rightarrow> json option" where
  "json_field (JObj fields) k = map_of (rev fields) k"
| "json_field _ k = None"

text \<open>\<^verbatim>\<open>a ?? b ?? ...\<close>: the first value that is neither undefined nor null.\<close>

fun json_coalesce :: "json option list \<Rightarrow> json option" where
  "json_coalesce [] = None"
| "json_coalesce (v # vs) = (if v = None \<or> v = Some JNull then json_coalesce vs else v)"

fun json_truthy :: "json option \<Rightarrow> bool" where
  "json_truthy None = False"
| "json_truthy (Some JNull) = False"
| "json_truthy (Some (JBool b)) = b"
| "json_truthy (Some (JNum x)) = (x \<noteq> NaN \<and> x \<noteq> Fin 0)"
| "json_truthy (Some (JStr s)) = (s \<noteq> [])"
| "json_truthy (Some (JArr vs)) = True"
| "json_truthy (Some (JObj fs)) = True"

text \<open>A non-empty string.\<close>

fun json_str :: "json option \<Rightarrow> string option" where
  "json_str (Some (JStr s)) = (if s = [] then None else Some s)"
| "json_str _ = None"

lemma json_str_Some [simp]: "json_str v = Some s \<longleftrightarrow> v = Some (JStr s) \<and> s \<noteq> []"
  by (cases v rule: json_str.cases) auto

end
