(* ===== verification/Dead_Letters.thy ===== *)
theory Dead_Letters
  imports Indexer Single_Flight Observability Json
begin

text \<open>
  The dead-letter table of the indexer: \<^verbatim>\<open>apps/api/src/indexer/indexer-dead-letter.service.ts\<close>, over the
  calls \<open>dlq_call\<close> to Prisma, the queues and the replay dispatcher. \<open>dlq_ok exec view\<close> states what a
  call does to the rows and to the jobs the queues hold: a failing call did all of it or nothing, and
  adding a job whose id the queue already holds leaves the queue as it is, as BullMQ documents.
  The parser of JSON text is a parameter.
\<close>

section \<open>JSON values\<close>

text \<open>Reading a property; \<^verbatim>\<open>null.p\<close> throws, and values that are no object have no such property.\<close>

definition json_prop :: "string \<Rightarrow> json \<Rightarrow> string + json option" where
  "json_prop p j = (case j of
     JNull \<Rightarrow> Inl (''Cannot read properties of null (reading '' @ p @ '')'')
   | JObj ps \<Rightarrow> Inr (map_of ps p)
   | _ \<Rightarrow> Inr None)"

section \<open>Rows and calls\<close>

record dead_row =
  dr_jobId :: string
  dr_queueName :: string
  dr_eventId :: string
  dr_data :: string
  dr_error :: string
  dr_attemptsMade :: int
  dr_recoveredAt :: "time_value option"

record dead_entry =
  de_jobId :: string
  de_queueName :: string
  de_eventId :: string
  de_data :: json
  de_error :: string
  de_attemptsMade :: int

datatype dlq_call =
    DeadUpsert dead_row
  | DeadFindMany "string option" bool int
  | DeadFind string
  | DeadRecover string
  | DeadCount
  | QueueAdd string string json string
  | DispatchReplay dead_entry string
  | FindEvents string jsnum
  | QueueAddBulk string "idx_job list"

datatype dlq_reply =
    DErr string
  | DOk
  | DRow "dead_row option"
  | DRows "dead_row list"
  | DInt int
  | DEvents "idx_job list"

type_synonym 's dlq_service = "(dlq_call, dlq_reply, 's) service"

text \<open>The rows by job id, and the payloads of the jobs that the queues hold, by queue and job id.\<close>

record dlq_view =
  dv_rows :: "string \<Rightarrow> dead_row option"
  dv_jobs :: "string \<times> string \<Rightarrow> json option"

fun dlq_effect :: "dlq_call \<Rightarrow> dlq_view \<Rightarrow> dlq_view" where
  "dlq_effect (DeadUpsert r) V = V\<lparr>dv_rows := (dv_rows V)(dr_jobId r \<mapsto>
     (case dv_rows V (dr_jobId r) of
        None \<Rightarrow> r\<lparr>dr_recoveredAt := None\<rparr>
      | Some old \<Rightarrow> old\<lparr>dr_error := dr_error r, dr_attemptsMade := dr_attemptsMade r, dr_recoveredAt := None\<rparr>))\<rparr>"
| "dlq_effect (DeadRecover j) V = (case dv_rows V j of
     None \<Rightarrow> V
   | Some r \<Rightarrow> V\<lparr>dv_rows := (dv_rows V)(j \<mapsto> r\<lparr>dr_recoveredAt := Some Time_Now\<rparr>)\<rparr>)"
| "dlq_effect (QueueAdd q n d j) V =
     (if dv_jobs V (q, j) = None then V\<lparr>dv_jobs := (dv_jobs V)((q, j) \<mapsto> d)\<rparr> else V)"
| "dlq_effect _ V = V"

text \<open>\<^verbatim>\<open>update\<close> of a row that is not there is an error of Prisma's.\<close>

fun dlq_answers :: "dlq_call \<Rightarrow> dlq_view \<Rightarrow> dlq_reply \<Rightarrow> bool" where
  "dlq_answers (DeadFind j) V r = (r = DRow (dv_rows V j))"
| "dlq_answers (DeadFindMany q u l) V r = (\<exists>rs. r = DRows rs \<and> int (length rs) \<le> max 0 l \<and> distinct (map dr_jobId rs) \<and>
     (\<forall>x\<in>set rs. dv_rows V (dr_jobId x) = Some x \<and> (u \<longrightarrow> dr_recoveredAt x = None) \<and>
        (\<forall>name. q = Some name \<longrightarrow> dr_queueName x = name)))"
| "dlq_answers (DeadRecover j) V r = (r = DOk \<and> dv_rows V j \<noteq> None)"
| "dlq_answers DeadCount V r = (\<exists>n. r = DInt n)"
| "dlq_answers (FindEvents q l) V r = (\<exists>es. r = DEvents es)"
| "dlq_answers _ V r = (r = DOk)"

definition dlq_ok :: "'s dlq_service \<Rightarrow> ('s \<Rightarrow> dlq_view) \<Rightarrow> bool" where
  "dlq_ok exec view =
     (\<forall>c s r s'. exec c s = (r, s') \<longrightarrow>
        (dlq_answers c (view s) r \<and> view s' = dlq_effect c (view s)) \<or>
        (\<exists>e. r = DErr e \<and> (view s' = view s \<or> view s' = dlq_effect c (view s))))"

lemma dlq_ok_reply:
  "dlq_ok exec view \<Longrightarrow> exec c s = (r, s') \<Longrightarrow> (\<And>e. r \<noteq> DErr e) \<Longrightarrow>
   dlq_answers c (view s) r \<and> view s' = dlq_effect c (view s)"
  unfolding dlq_ok_def by blast

lemma dlq_ok_view: "dlq_ok exec view \<Longrightarrow> exec c s = (r, s') \<Longrightarrow> view s' = view s \<or> view s' = dlq_effect c (view s)"
  unfolding dlq_ok_def by blast

definition dlq_reliable :: "'s dlq_service \<Rightarrow> ('s \<Rightarrow> dlq_view) \<Rightarrow> bool" where
  "dlq_reliable exec view =
     (\<forall>c s r s'. exec c s = (r, s') \<longrightarrow>
        (dlq_answers c (view s) r \<and> view s' = dlq_effect c (view s)) \<or>
        (\<exists>j. c = DeadRecover j \<and> dv_rows (view s) j = None \<and> (\<exists>e. r = DErr e) \<and> view s' = view s))"

text \<open>A concrete instance: the view and the rows in the order \<^verbatim>\<open>findMany\<close> lists them are the state.\<close>

fun mem_dlq :: "(dlq_view \<times> string list) dlq_service" where
  "mem_dlq (DeadFind j) (V, ids) = (DRow (dv_rows V j), (V, ids))"
| "mem_dlq (DeadFindMany q u l) (V, ids) =
     (DRows (take (nat l) (map (\<lambda>j. the (dv_rows V j)) (filter (\<lambda>j. case dv_rows V j of
         Some x \<Rightarrow> dr_jobId x = j \<and> (u \<longrightarrow> dr_recoveredAt x = None) \<and>
           (case q of Some n \<Rightarrow> dr_queueName x = n | None \<Rightarrow> True)
       | None \<Rightarrow> False) (remdups ids)))), (V, ids))"
| "mem_dlq (DeadRecover j) (V, ids) =
     (if dv_rows V j = None then (DErr ''Record to update not found'', (V, ids)) else (DOk, (dlq_effect (DeadRecover j) V, ids)))"
| "mem_dlq (DeadUpsert r) (V, ids) = (DOk, (dlq_effect (DeadUpsert r) V, if dr_jobId r \<in> set ids then ids else dr_jobId r # ids))"
| "mem_dlq DeadCount (V, ids) = (DInt (int (length (filter (\<lambda>j. dv_rows V j \<noteq> None) ids))), (V, ids))"
| "mem_dlq (FindEvents q l) (V, ids) = (DEvents [], (V, ids))"
| "mem_dlq c (V, ids) = (DOk, (dlq_effect c V, ids))"

section \<open>The service\<close>

text \<open>What the code throws: the service's own exception classes, or an \<^verbatim>\<open>Error\<close> with a message.\<close>

datatype dlq_exn =
    Store_Unavailable string
  | No_Such_Job string
  | Unsupported_Queue string
  | Js_Error string

type_synonym 'a dlq_prog = "(dlq_call, dlq_reply, dlq_exn + 'a) prog"

definition dlq_await :: "dlq_call \<Rightarrow> dlq_reply dlq_prog" where
  "dlq_await c = Call c (\<lambda>r. case r of DErr e \<Rightarrow> Ret (Inl (Js_Error e)) | _ \<Rightarrow> Ret (Inr r))"

fun dlq_message :: "dlq_exn \<Rightarrow> string" where
  "dlq_message (Store_Unavailable e) = ''Dead-letter store unavailable''"
| "dlq_message (No_Such_Job j) = ''Dead letter job not found: '' @ j"
| "dlq_message (Unsupported_Queue q) = ''Unsupported DLQ queueName: '' @ q"
| "dlq_message (Js_Error e) = e"

definition recordDeadLetter :: "(json \<Rightarrow> string) \<Rightarrow> dead_entry \<Rightarrow> unit dlq_prog" where
  "recordDeadLetter json_text e =
     prog_catch
       (prog_then (dlq_await (DeadUpsert \<lparr>dr_jobId = de_jobId e, dr_queueName = de_queueName e,
          dr_eventId = de_eventId e, dr_data = json_text (de_data e), dr_error = de_error e,
          dr_attemptsMade = de_attemptsMade e, dr_recoveredAt = None\<rparr>)) (\<lambda>_. Ret (Inr ())))
       (\<lambda>_. Ret (Inr ()))"

definition toEntry :: "(string \<Rightarrow> json option) \<Rightarrow> dead_row \<Rightarrow> dead_entry" where
  "toEntry json_parse r = \<lparr>de_jobId = dr_jobId r, de_queueName = dr_queueName r, de_eventId = dr_eventId r,
     de_data = (case json_parse (dr_data r) of Some j \<Rightarrow> j | None \<Rightarrow> JObj []),
     de_error = dr_error r, de_attemptsMade = dr_attemptsMade r\<rparr>"

definition getDeadLetters ::
  "(string \<Rightarrow> json option) \<Rightarrow> string option \<Rightarrow> int \<Rightarrow> bool \<Rightarrow> bool \<Rightarrow> dead_entry list dlq_prog" where
  "getDeadLetters json_parse queueName limit unrecoveredOnly failClosed =
     prog_catch
       (prog_then (dlq_await (DeadFindMany (case queueName of Some (c # cs) \<Rightarrow> Some (c # cs) | _ \<Rightarrow> None)
          unrecoveredOnly limit)) (\<lambda>r.
        Ret (Inr (case r of DRows rs \<Rightarrow> map (toEntry json_parse) rs | _ \<Rightarrow> []))))
       (\<lambda>e. if failClosed then Ret (Inl (Store_Unavailable (dlq_message e))) else Ret (Inr []))"

definition getDeadLetter ::
  "(string \<Rightarrow> json option) \<Rightarrow> string \<Rightarrow> bool \<Rightarrow> dead_entry option dlq_prog" where
  "getDeadLetter json_parse jobId failClosed =
     prog_catch
       (prog_then (dlq_await (DeadFind jobId)) (\<lambda>r.
        Ret (Inr (case r of DRow (Some x) \<Rightarrow> Some (toEntry json_parse x) | _ \<Rightarrow> None))))
       (\<lambda>e. if failClosed then Ret (Inl (Store_Unavailable (dlq_message e))) else Ret (Inr None))"

definition clearDeadLetter :: "string \<Rightarrow> unit dlq_prog" where
  "clearDeadLetter jobId =
     prog_catch (prog_then (dlq_await (DeadRecover jobId)) (\<lambda>_. Ret (Inr ()))) (\<lambda>_. Ret (Inr ()))"

definition getDeadLetterCount :: "int dlq_prog" where
  "getDeadLetterCount =
     prog_catch (prog_then (dlq_await DeadCount) (\<lambda>r. Ret (Inr (case r of DInt n \<Rightarrow> n | _ \<Rightarrow> 0)))) (\<lambda>_. Ret (Inr 0))"

section \<open>Replay of one row\<close>

record replay_request =
  rr_jobId :: string
  rr_idempotencyKey :: "string option"
  rr_correlationId :: "string option"
  rr_uuid :: string

datatype replay_code = DLQ_NOT_FOUND | DLQ_ALREADY_RECOVERED | DLQ_REPLAY_IN_PROGRESS | DLQ_DEPENDENCY_UNAVAILABLE

record replay_result =
  rs_ok :: bool
  rs_jobId :: string
  rs_correlationId :: string
  rs_deduplicated :: bool
  rs_errorCode :: "replay_code option"

definition replay_fail :: "string \<Rightarrow> string \<Rightarrow> replay_code \<Rightarrow> replay_result" where
  "replay_fail jobId cid errorCode = \<lparr>rs_ok = False, rs_jobId = jobId, rs_correlationId = cid,
     rs_deduplicated = False, rs_errorCode = Some errorCode\<rparr>"

definition request_cid :: "replay_request \<Rightarrow> string" where
  "request_cid q = (case rr_correlationId q of Some c \<Rightarrow> c | None \<Rightarrow> rr_uuid q)"

definition executeReplay ::
  "(string \<Rightarrow> json option) \<Rightarrow> replay_request \<Rightarrow> (dlq_call, dlq_reply, replay_result) prog" where
  "executeReplay json_parse q =
     (let j = rr_jobId q; cid = request_cid q; down = replay_fail j cid DLQ_DEPENDENCY_UNAVAILABLE in
      Call (DeadFind j) (\<lambda>r. case r of
        DErr e \<Rightarrow> Ret down
      | DRow (Some row) \<Rightarrow>
          (if dr_recoveredAt row \<noteq> None then Ret (replay_fail j cid DLQ_ALREADY_RECOVERED)
           else Call (DispatchReplay (toEntry json_parse row) cid) (\<lambda>d. case d of
             DErr e \<Rightarrow> Ret down
           | _ \<Rightarrow> Call (DeadRecover j) (\<lambda>u. case u of
               DErr e \<Rightarrow> Ret down
             | _ \<Rightarrow> Ret \<lparr>rs_ok = True, rs_jobId = j, rs_correlationId = cid, rs_deduplicated = False,
                  rs_errorCode = None\<rparr>)))
      | _ \<Rightarrow> Ret (replay_fail j cid DLQ_NOT_FOUND)))"

text \<open>\<^verbatim>\<open>replayDeadLetter\<close>: requests with the same idempotency key share one \<^verbatim>\<open>executeReplay\<close>.\<close>

definition replayDeadLetter ::
  "(string \<Rightarrow> json option) \<Rightarrow>
   (replay_request, string, dlq_call, dlq_reply, replay_result, replay_result, unit) flight_code" where
  "replayDeadLetter json_parse =
     \<lparr>fl_key = (\<lambda>q. case rr_idempotencyKey q of Some k \<Rightarrow> k | None \<Rightarrow> rr_jobId q),
      fl_pre = (\<lambda>q. Ret None), fl_gate = (\<lambda>q m. None), fl_enter = (\<lambda>q m. m),
      fl_body = executeReplay json_parse, fl_sync = (\<lambda>q. None), fl_inside = False,
      fl_finish = (\<lambda>q a m. (a, m)),
      fl_join = (\<lambda>q prior. prior\<lparr>rs_correlationId := request_cid q, rs_deduplicated := True\<rparr>)\<rparr>"

interpretation dlq_flight: single_flight "replayDeadLetter json_parse"
  by unfold_locales (simp add: replayDeadLetter_def)

end
