(* ===== verification/Replay.thy ===== *)
theory Replay
  imports Dead_Letters Js_Text
begin

text \<open>
  Putting events back on the queues: \<^verbatim>\<open>apps/api/src/indexer/indexer-replay.service.ts\<close>. A replay of dead
  letters goes through a map of replays in flight and a bounded memory of completed ones; a replay
  of persisted events from a ledger onward goes through a map of replays in flight only.
\<close>

section \<open>Text\<close>

fun has_substring :: "string \<Rightarrow> string \<Rightarrow> bool" where
  "has_substring pat [] = (pat = [])"
| "has_substring pat (c # cs) = (take (length pat) (c # cs) = pat \<or> has_substring pat cs)"

text \<open>\<^verbatim>\<open>/already exists|Job with this? id/i\<close>\<close>

definition says_duplicate :: "string \<Rightarrow> bool" where
  "says_duplicate message = (let m = map lower_char message in
     has_substring ''already exists'' m \<or> has_substring ''job with this id'' m \<or> has_substring ''job with thi id'' m)"

section \<open>Dead letters\<close>

definition QUEUE_NAMES :: "string list" where
  "QUEUE_NAMES = [''pool.created'', ''swap.processed'', ''position.minted'', ''position.burned'', ''fees.collected'']"

definition DLQ_REPLAY_RESULT_TTL_MS :: int where
  "DLQ_REPLAY_RESULT_TTL_MS = 10 * 60 * 1000"

definition DLQ_REPLAY_RESULT_MAX :: nat where
  "DLQ_REPLAY_RESULT_MAX = 1000"

text \<open>The event id of the payload if it has one, otherwise that of the row.\<close>

definition entry_event_id :: "dead_entry \<Rightarrow> dlq_exn + string" where
  "entry_event_id e = (case json_prop ''eventId'' (de_data e) of
     Inl err \<Rightarrow> Inl (Js_Error err)
   | Inr (Some (JStr (c # cs))) \<Rightarrow> Inr (c # cs)
   | Inr _ \<Rightarrow> Inr (de_eventId e))"

definition replay_job_id :: "string \<Rightarrow> string" where
  "replay_job_id jobId = ''dlq-replay:'' @ jobId"

definition enqueueDeadLetter :: "dead_entry \<Rightarrow> bool dlq_prog" where
  "enqueueDeadLetter e =
     (case entry_event_id e of
        Inl err \<Rightarrow> Ret (Inl err)
      | Inr eventId \<Rightarrow>
          (if eventId = [] then Ret (Inr False)
           else prog_catch
             (if de_queueName e \<in> set QUEUE_NAMES then
                prog_then (dlq_await (QueueAdd (de_queueName e) eventId (de_data e) (replay_job_id (de_jobId e))))
                  (\<lambda>_. Ret (Inr True))
              else Ret (Inl (Unsupported_Queue (de_queueName e))))
             (\<lambda>err. Ret (Inr (says_duplicate (dlq_message err))))))"

record replay_summary =
  sm_replayed :: "string list"
  sm_skipped :: "string list"
  sm_total :: nat

definition summary_of :: "string list \<Rightarrow> string list \<Rightarrow> replay_summary" where
  "summary_of replayed skipped = \<lparr>sm_replayed = replayed, sm_skipped = skipped, sm_total = length replayed\<rparr>"

fun replay_entries :: "dead_entry list \<Rightarrow> string list \<Rightarrow> string list \<Rightarrow> replay_summary dlq_prog" where
  "replay_entries [] replayed skipped = Ret (Inr (summary_of replayed skipped))"
| "replay_entries (e # es) replayed skipped =
     prog_then (enqueueDeadLetter e) (\<lambda>ok.
       if \<not> ok then replay_entries es replayed (skipped @ [de_jobId e])
       else prog_then (clearDeadLetter (de_jobId e)) (\<lambda>_. replay_entries es (replayed @ [de_jobId e]) skipped))"

definition loadSingleDeadLetter :: "(string \<Rightarrow> json option) \<Rightarrow> string \<Rightarrow> dead_entry list dlq_prog" where
  "loadSingleDeadLetter json_parse jobId =
     prog_then (getDeadLetter json_parse jobId True) (\<lambda>e.
     case e of None \<Rightarrow> Ret (Inl (No_Such_Job jobId)) | Some x \<Rightarrow> Ret (Inr [x]))"

definition replay_source :: "(string \<Rightarrow> json option) \<Rightarrow> string option \<Rightarrow> dead_entry list dlq_prog" where
  "replay_source json_parse jobId =
     (case jobId of
        Some (c # cs) \<Rightarrow> loadSingleDeadLetter json_parse (c # cs)
      | _ \<Rightarrow> getDeadLetters json_parse None 500 True True)"

definition replayDeadLetters :: "(string \<Rightarrow> json option) \<Rightarrow> string option \<Rightarrow> replay_summary dlq_prog" where
  "replayDeadLetters json_parse jobId =
     prog_then (replay_source json_parse jobId) (\<lambda>entries. replay_entries entries [] [])"

section \<open>The idempotent entry point\<close>

record dlq_replay_request =
  dq_jobId :: "string option"
  dq_idempotencyKey :: "string option"
  dq_correlationId :: string
  dq_now :: int

record dlq_replay_memory =
  dm_completed :: "(string, int \<times> replay_summary) js_map"
  dm_outcomes :: counter

definition dlqReplayOutcomes :: counter where
  "dlqReplayOutcomes = counter_new [''replayed'', ''deduplicated'', ''not_found'', ''dependency_unavailable'', ''failed'']"

datatype dlq_replay_answer =
    Replay_Response replay_summary string bool
  | Replay_Http http_error
  | Replay_Raw dlq_exn

definition replay_key :: "dlq_replay_request \<Rightarrow> string" where
  "replay_key q =
     (case dq_jobId q of Some (c # cs) \<Rightarrow> ''job:'' @ c # cs | _ \<Rightarrow> ''all'') @ ''|'' @
     (case dq_idempotencyKey q of Some k \<Rightarrow> k | None \<Rightarrow> [])"

definition explicit_key :: "dlq_replay_request \<Rightarrow> bool" where
  "explicit_key q = (case dq_idempotencyKey q of Some (c # cs) \<Rightarrow> True | _ \<Rightarrow> False)"

definition rememberDlqReplay ::
  "string \<Rightarrow> replay_summary \<Rightarrow> int \<Rightarrow> (string, int \<times> replay_summary) js_map \<Rightarrow> (string, int \<times> replay_summary) js_map" where
  "rememberDlqReplay key summary now m =
     (let fresh = filter (\<lambda>(k, v). now - fst v < DLQ_REPLAY_RESULT_TTL_MS) m;
          room = (if DLQ_REPLAY_RESULT_MAX \<le> length fresh
                  then (case fresh of (oldest, v) # _ \<Rightarrow> jm_delete fresh oldest | [] \<Rightarrow> fresh) else fresh)
      in jm_set room key (now, summary))"

definition count_outcome :: "string \<Rightarrow> dlq_replay_memory \<Rightarrow> dlq_replay_memory" where
  "count_outcome label m = m\<lparr>dm_outcomes := counter_inc (dm_outcomes m) label\<rparr>"

definition completed_answer ::
  "dlq_replay_request \<Rightarrow> dlq_replay_memory \<Rightarrow> (dlq_replay_answer \<times> dlq_replay_memory) option" where
  "completed_answer q m =
     (if explicit_key q then
        (case jm_get (dm_completed m) (replay_key q) of
           Some (since, summary) \<Rightarrow>
             (if dq_now q - since < DLQ_REPLAY_RESULT_TTL_MS
              then Some (Replay_Response summary (dq_correlationId q) True, count_outcome ''deduplicated'' m)
              else None)
         | None \<Rightarrow> None)
      else None)"

definition replay_finished ::
  "dlq_replay_request \<Rightarrow> dlq_exn + replay_summary \<Rightarrow> dlq_replay_memory \<Rightarrow> dlq_replay_answer \<times> dlq_replay_memory" where
  "replay_finished q a m =
     (case a of
        Inr summary \<Rightarrow>
          (Replay_Response summary (dq_correlationId q) False,
           count_outcome ''replayed'' (if explicit_key q
             then m\<lparr>dm_completed := rememberDlqReplay (replay_key q) summary (dq_now q) (dm_completed m)\<rparr> else m))
      | Inl (No_Such_Job j) \<Rightarrow>
          (Replay_Http (http_error 404 ''DLQ_REPLAY_NOT_FOUND'' ''Dead-letter job not found'' (dq_correlationId q)),
           count_outcome ''not_found'' m)
      | Inl (Store_Unavailable e) \<Rightarrow>
          (Replay_Http (http_error 503 ''DLQ_REPLAY_DEPENDENCY_UNAVAILABLE''
             ''Dead-letter store unavailable; nothing was replayed'' (dq_correlationId q)),
           count_outcome ''dependency_unavailable'' m)
      | Inl e \<Rightarrow> (Replay_Raw e, count_outcome ''failed'' m))"

text \<open>A request that joined awaits the shared promise outside the \<^verbatim>\<open>try\<close>: an error reaches it as it was thrown.\<close>

definition replay_joined :: "dlq_replay_request \<Rightarrow> dlq_exn + replay_summary \<Rightarrow> dlq_replay_answer" where
  "replay_joined q a =
     (case a of Inr summary \<Rightarrow> Replay_Response summary (dq_correlationId q) True | Inl e \<Rightarrow> Replay_Raw e)"

definition replayDeadLettersIdempotent ::
  "(string \<Rightarrow> json option) \<Rightarrow>
   (dlq_replay_request, string, dlq_call, dlq_reply, dlq_exn + replay_summary, dlq_replay_answer, dlq_replay_memory)
     flight_code" where
  "replayDeadLettersIdempotent json_parse =
     \<lparr>fl_key = replay_key, fl_pre = (\<lambda>q. Ret None), fl_gate = completed_answer,
      fl_enter = (\<lambda>q. count_outcome ''deduplicated''),
      fl_body = (\<lambda>q. replayDeadLetters json_parse (dq_jobId q)), fl_sync = (\<lambda>q. None), fl_inside = False,
      fl_finish = replay_finished, fl_join = replay_joined\<rparr>"

interpretation replay_flight: single_flight "replayDeadLettersIdempotent json_parse"
  by unfold_locales (simp add: replayDeadLettersIdempotent_def)

section \<open>Replay from a ledger\<close>

record ledger_request =
  lq_fromLedger :: jsnum
  lq_idempotencyKey :: "string option"

record ledger_summary =
  ls_fromLedger :: jsnum
  ls_counts :: "nat list"
  ls_total :: nat

text \<open>The payload built from a persisted row: columns the row does not have are left out.\<close>

fun replay_payload :: "idx_job \<Rightarrow> idx_job" where
  "replay_payload (Pool_Created d) = Pool_Created (d\<lparr>pc_timestamp := None\<rparr>)"
| "replay_payload (Swap_Processed d) =
     Swap_Processed (d\<lparr>sp_transactionHash := None, sp_feeAmount := None, sp_timestamp := None\<rparr>)"
| "replay_payload (Position_Minted d) =
     Position_Minted (d\<lparr>pd_tokenId := Some (case pd_tokenId d of Some t \<Rightarrow> t | None \<Rightarrow> [])\<rparr>)"
| "replay_payload (Position_Burned d) =
     Position_Burned (d\<lparr>pd_tokenId := Some (case pd_tokenId d of Some t \<Rightarrow> t | None \<Rightarrow> [])\<rparr>)"
| "replay_payload (Fees_Collected d) = Fees_Collected d"

definition replay_queue :: "jsnum \<Rightarrow> string \<Rightarrow> nat dlq_prog" where
  "replay_queue fromLedger queue =
     prog_then (dlq_await (FindEvents queue fromLedger)) (\<lambda>r.
     case r of
       DEvents (e # es) \<Rightarrow> prog_then (dlq_await (QueueAddBulk queue (map replay_payload (e # es))))
         (\<lambda>_. Ret (Inr (Suc (length es))))
     | _ \<Rightarrow> Ret (Inr 0))"

text \<open>\<^verbatim>\<open>Promise.all\<close>: all five are started, and the first failure is thrown once they are awaited.\<close>

fun replay_queues :: "jsnum \<Rightarrow> string list \<Rightarrow> (dlq_call, dlq_reply, dlq_exn + nat list) prog" where
  "replay_queues fromLedger [] = Ret (Inr [])"
| "replay_queues fromLedger (queue # queues) =
     prog_bind (replay_queue fromLedger queue) (\<lambda>n.
     prog_bind (replay_queues fromLedger queues) (\<lambda>ns.
     Ret (case n of Inl e \<Rightarrow> Inl e | Inr x \<Rightarrow> (case ns of Inl e \<Rightarrow> Inl e | Inr xs \<Rightarrow> Inr (x # xs)))))"

definition runReplayFromLedger :: "jsnum \<Rightarrow> ledger_summary dlq_prog" where
  "runReplayFromLedger fromLedger =
     prog_then (replay_queues fromLedger QUEUE_NAMES) (\<lambda>counts.
     Ret (Inr \<lparr>ls_fromLedger = fromLedger, ls_counts = counts, ls_total = sum_list counts\<rparr>))"

definition replayFromLedger ::
  "(ledger_request, string, dlq_call, dlq_reply, dlq_exn + ledger_summary, dlq_exn + ledger_summary, unit) flight_code" where
  "replayFromLedger =
     \<lparr>fl_key = (\<lambda>q. num_to_string (lq_fromLedger q) @ ''|'' @ (case lq_idempotencyKey q of Some k \<Rightarrow> k | None \<Rightarrow> [])),
      fl_pre = (\<lambda>q. case lq_idempotencyKey q of
         Some (c # cs) \<Rightarrow> Ret None
       | _ \<Rightarrow> prog_bind (runReplayFromLedger (lq_fromLedger q)) (\<lambda>r. Ret (Some r))),
      fl_gate = (\<lambda>q m. None), fl_enter = (\<lambda>q m. m),
      fl_body = (\<lambda>q. runReplayFromLedger (lq_fromLedger q)), fl_sync = (\<lambda>q. None), fl_inside = False,
      fl_finish = (\<lambda>q a m. (a, m)), fl_join = (\<lambda>q a. a)\<rparr>"

interpretation ledger_flight: single_flight replayFromLedger
  by unfold_locales (simp add: replayFromLedger_def)

end
