(* ===== verification/Replay_Laws.thy ===== *)
theory Replay_Laws
  imports Replay
begin

text \<open>
  What the dead-letter store and the replays guarantee, and where they do not keep what their
  documentation says.
\<close>

section \<open>Programs and their events\<close>

lemma feed_then_Ret:
  assumes "feed (prog_then m f) lg = Some (Ret y)"
  obtains (threw) e where "feed m lg = Some (Ret (Inl e))" and "y = Inl e"
  | (went_on) x lg1 lg2 where "lg = lg1 @ lg2" and "feed m lg1 = Some (Ret (Inr x))" and "feed (f x) lg2 = Some (Ret y)"
proof -
  obtain x lg1 lg2 where s: "lg = lg1 @ lg2" "feed m lg1 = Some (Ret x)"
    "feed (case x of Inl e \<Rightarrow> Ret (Inl e) | Inr y \<Rightarrow> f y) lg2 = Some (Ret y)"
    using feed_bind_Ret [OF assms [unfolded prog_then_def]] by blast
  show thesis
  proof (cases x)
    case (Inl e)
    then show thesis using s threw by (auto split: if_splits)
  next
    case (Inr z)
    then show thesis using s went_on by simp
  qed
qed

lemma feed_dlq_await:
  "feed (dlq_await c) lg = Some (Ret y) \<Longrightarrow>
   \<exists>r. lg = [(c, r)] \<and> y = (case r of DErr e \<Rightarrow> Inl (Js_Error e) | _ \<Rightarrow> Inr r)"
  by (auto simp: dlq_await_def split: list.splits prod.splits if_splits dlq_reply.splits)

text \<open>The reply to an addition that the code takes for success.\<close>

definition add_accepted :: "dlq_reply \<Rightarrow> bool" where
  "add_accepted r = (case r of DErr e \<Rightarrow> says_duplicate e | _ \<Rightarrow> True)"

lemma enqueue_events:
  assumes "feed (enqueueDeadLetter e) lg = Some (Ret (Inr ok))"
  shows "lg = [] \<or> (\<exists>n r. lg = [(QueueAdd (de_queueName e) n (de_data e) (replay_job_id (de_jobId e)), r)])"
    and "ok \<Longrightarrow> de_queueName e \<in> set QUEUE_NAMES \<Longrightarrow>
      \<exists>n r. lg = [(QueueAdd (de_queueName e) n (de_data e) (replay_job_id (de_jobId e)), r)] \<and> add_accepted r"
  using assms
  by (auto simp: enqueueDeadLetter_def dlq_await_def add_accepted_def
      split: sum.splits if_splits list.splits prod.splits dlq_reply.splits)

text \<open>The replay job of a dead letter was added to the letter's own queue, with its payload, and the queue accepted it.\<close>

definition enqueued_in :: "(dlq_call \<times> dlq_reply) list \<Rightarrow> dead_entry \<Rightarrow> bool" where
  "enqueued_in lg e =
     (de_queueName e \<in> set QUEUE_NAMES \<and>
      (\<exists>n r. (QueueAdd (de_queueName e) n (de_data e) (replay_job_id (de_jobId e)), r) \<in> set lg \<and> add_accepted r))"

lemma enqueued_append: "enqueued_in (a @ b) e \<longleftrightarrow> enqueued_in a e \<or> enqueued_in b e"
  unfolding enqueued_in_def by auto

text \<open>A row that the store returned to a read of the replay.\<close>

definition row_read :: "(dlq_call \<times> dlq_reply) list \<Rightarrow> dead_row \<Rightarrow> bool" where
  "row_read lg row =
     ((\<exists>j. (DeadFind j, DRow (Some row)) \<in> set lg) \<or>
      (\<exists>rows. (DeadFindMany None True 500, DRows rows) \<in> set lg \<and> row \<in> set rows))"

text \<open>An unknown queue name is refused with a message that quotes it; a name with the phrase in it passes for a duplicate.\<close>

definition misleading_queue :: "dead_entry \<Rightarrow> bool" where
  "misleading_queue e =
     (de_queueName e \<notin> set QUEUE_NAMES \<and> says_duplicate (dlq_message (Unsupported_Queue (de_queueName e))))"

lemma enqueue_true:
  assumes "feed (enqueueDeadLetter e) lg = Some (Ret (Inr True))"
  shows "enqueued_in lg e \<or> misleading_queue e"
proof (cases "de_queueName e \<in> set QUEUE_NAMES")
  case True
  then show ?thesis using enqueue_events(2) [OF assms] unfolding enqueued_in_def by fastforce
next
  case False
  then show ?thesis using assms
    by (auto simp: enqueueDeadLetter_def misleading_queue_def split: sum.splits if_splits)
qed

lemma enqueue_no_recover: "feed (enqueueDeadLetter e) lg = Some (Ret (Inr ok)) \<Longrightarrow> (DeadRecover j, r) \<notin> set lg"
  using enqueue_events(1) by fastforce

lemma clear_events: "feed (clearDeadLetter j) lg = Some (Ret x) \<Longrightarrow> x = Inr () \<and> (\<exists>r. lg = [(DeadRecover j, r)])"
  by (auto simp: clearDeadLetter_def dlq_await_def split: list.splits prod.splits if_splits dlq_reply.splits)

lemma replay_entries_events:
  assumes "feed (replay_entries es replayed skipped) lg = Some (Ret (Inr sm))"
  shows "\<exists>more. sm_replayed sm = replayed @ more \<and> sm_total sm = length (sm_replayed sm) \<and>
     (\<forall>j\<in>set more. \<exists>e\<in>set es. de_jobId e = j \<and> (enqueued_in lg e \<or> misleading_queue e)) \<and>
     (\<forall>j r. (DeadRecover j, r) \<in> set lg \<longrightarrow> j \<in> set more)"
  using assms
proof (induction es arbitrary: replayed skipped lg)
  case Nil
  then show ?case by (auto simp: summary_of_def split: if_splits)
next
  case (Cons e es)
  then have "feed (prog_then (enqueueDeadLetter e) (\<lambda>ok. if \<not> ok then replay_entries es replayed (skipped @ [de_jobId e])
      else prog_then (clearDeadLetter (de_jobId e)) (\<lambda>_. replay_entries es (replayed @ [de_jobId e]) skipped))) lg =
      Some (Ret (Inr sm))" by simp
  then show ?case
  proof (cases rule: feed_then_Ret)
    case (went_on ok lg1 lg2)
    have no1: "(DeadRecover j, r) \<notin> set lg1" for j r by (rule enqueue_no_recover [OF went_on(2)])
    show ?thesis
    proof (cases ok)
      case False
      then have "feed (replay_entries es replayed (skipped @ [de_jobId e])) lg2 = Some (Ret (Inr sm))"
        using went_on(3) by simp
      from Cons.IH [OF this] obtain more where
        "sm_replayed sm = replayed @ more" "sm_total sm = length (sm_replayed sm)"
        "\<forall>j\<in>set more. \<exists>e\<in>set es. de_jobId e = j \<and> (enqueued_in lg2 e \<or> misleading_queue e)"
        "\<forall>j r. (DeadRecover j, r) \<in> set lg2 \<longrightarrow> j \<in> set more" by blast
      then show ?thesis using no1 by (intro exI [of _ more]) (fastforce simp: went_on(1) enqueued_append)
    next
      case True
      then have "feed (prog_then (clearDeadLetter (de_jobId e)) (\<lambda>_. replay_entries es (replayed @ [de_jobId e]) skipped)) lg2 =
        Some (Ret (Inr sm))" using went_on(3) by simp
      then show ?thesis
      proof (cases rule: feed_then_Ret)
        case inner: (went_on u lgc lgr)
        obtain r where lgc: "lgc = [(DeadRecover (de_jobId e), r)]" using clear_events [OF inner(2)] by blast
        from Cons.IH [OF inner(3)] obtain more where more:
          "sm_replayed sm = (replayed @ [de_jobId e]) @ more" "sm_total sm = length (sm_replayed sm)"
          "\<forall>j\<in>set more. \<exists>e\<in>set es. de_jobId e = j \<and> (enqueued_in lgr e \<or> misleading_queue e)"
          "\<forall>j r. (DeadRecover j, r) \<in> set lgr \<longrightarrow> j \<in> set more" by blast
        have first: "enqueued_in lg e \<or> misleading_queue e"
          using enqueue_true went_on(2) True by (auto simp: went_on(1) enqueued_append)
        have rest: "enqueued_in lgr e' \<Longrightarrow> enqueued_in lg e'" for e'
          by (simp add: went_on(1) inner(1) enqueued_append)
        have "sm_replayed sm = replayed @ (de_jobId e # more)" using more(1) by simp
        moreover have "\<forall>j\<in>set (de_jobId e # more). \<exists>e'\<in>set (e # es). de_jobId e' = j \<and>
            (enqueued_in lg e' \<or> misleading_queue e')" using first more(3) rest by fastforce
        moreover have "\<forall>j r. (DeadRecover j, r) \<in> set lg \<longrightarrow> j \<in> set (de_jobId e # more)"
          using no1 more(4) by (auto simp: went_on(1) inner(1) lgc)
        ultimately show ?thesis using more(2) by blast
      qed simp
    qed
  qed simp
qed

text \<open>The rows a replay works on come from one read of the store; a failed read ends it.\<close>

lemma replay_source_events:
  assumes "feed (replay_source json_parse jobId) lg = Some (Ret x)"
  obtains c r where "lg = [(c, r)]" and "c = DeadFindMany None True 500 \<or> (\<exists>j. c = DeadFind j)"
    and "\<And>e. r = DErr e \<longleftrightarrow> x = Inl (Store_Unavailable e)"
    and "\<And>es e. x = Inr es \<Longrightarrow> e \<in> set es \<Longrightarrow> \<exists>row. row_read lg row \<and> e = toEntry json_parse row"
proof -
  have "\<exists>c r. lg = [(c, r)] \<and> (c = DeadFindMany None True 500 \<or> (\<exists>j. c = DeadFind j)) \<and>
     (\<forall>e. r = DErr e \<longleftrightarrow> x = Inl (Store_Unavailable e)) \<and>
     (\<forall>es. x = Inr es \<longrightarrow> (\<forall>e\<in>set es. \<exists>row. row_read lg row \<and> e = toEntry json_parse row))"
    using assms
  by (auto simp: replay_source_def row_read_def loadSingleDeadLetter_def getDeadLetter_def getDeadLetters_def dlq_await_def
      split: option.splits list.splits prod.splits if_splits dlq_reply.splits sum.splits)
  then show thesis using that by blast
qed

section \<open>What is marked recovered was put on a queue\<close>

text \<open>C29: Whatever a replay reports as replayed is the job of a row that the store returned to the replay's own
  read, and the queue of that row accepted the replay job with the row's payload or called it a
  duplicate; the one exception is a row whose unknown queue name itself contains the duplicate phrase.
  Only reported rows are marked recovered.\<close>

theorem replay_recovers_only_enqueued:
  assumes "steps exec drift (ts, s) tr (ts', s')" and "i < length ts"
    and "ts ! i = replayDeadLetters json_parse jobId" and "ts' ! i = Ret (Inr sm)"
  shows "(\<forall>j\<in>set (sm_replayed sm). \<exists>row. row_read (events_of i tr) row \<and> dr_jobId row = j \<and>
       (enqueued_in (events_of i tr) (toEntry json_parse row) \<or> misleading_queue (toEntry json_parse row))) \<and>
     (\<forall>j r. (i, DeadRecover j, r) \<in> set tr \<longrightarrow> j \<in> set (sm_replayed sm)) \<and>
     sm_total sm = length (sm_replayed sm)"
proof -
  have "feed (prog_then (replay_source json_parse jobId) (\<lambda>entries. replay_entries entries [] [])) (events_of i tr) =
      Some (Ret (Inr sm))"
    using steps_feed [OF assms(1,2)] assms(3,4) by (simp add: replayDeadLetters_def)
  then show ?thesis
  proof (cases rule: feed_then_Ret)
    case (went_on es lg1 lg2)
    obtain c r where src: "lg1 = [(c, r)]" "c = DeadFindMany None True 500 \<or> (\<exists>j. c = DeadFind j)"
      and rows: "\<And>e. e \<in> set es \<Longrightarrow> \<exists>row. row_read lg1 row \<and> e = toEntry json_parse row"
      by (rule replay_source_events [OF went_on(2)]) blast
    from replay_entries_events [OF went_on(3)] obtain more where more: "sm_replayed sm = [] @ more"
      "sm_total sm = length (sm_replayed sm)"
      "\<forall>j\<in>set more. \<exists>e\<in>set es. de_jobId e = j \<and> (enqueued_in lg2 e \<or> misleading_queue e)"
      "\<forall>j r. (DeadRecover j, r) \<in> set lg2 \<longrightarrow> j \<in> set more" by blast
    have "j \<in> set (sm_replayed sm)" if "(i, DeadRecover j, r') \<in> set tr" for j r'
    proof -
      have "(DeadRecover j, r') \<in> set (events_of i tr)" using that by (force simp: events_of_def)
      then show ?thesis using went_on(1) src more(1,4) by auto
    qed
    moreover have "\<exists>row. row_read (events_of i tr) row \<and> dr_jobId row = j \<and>
       (enqueued_in (events_of i tr) (toEntry json_parse row) \<or> misleading_queue (toEntry json_parse row))"
      if "j \<in> set (sm_replayed sm)" for j
    proof -
      obtain e where e: "e \<in> set es" "de_jobId e = j" "enqueued_in lg2 e \<or> misleading_queue e"
        using more(1,3) \<open>j \<in> set (sm_replayed sm)\<close> by auto
      obtain row where "row_read lg1 row" "e = toEntry json_parse row" using rows [OF e(1)] by blast
      then show ?thesis using e(2,3) by (intro exI [of _ row]) (auto simp: went_on(1) row_read_def enqueued_append toEntry_def)
    qed
    ultimately show ?thesis using more(2) by blast
  qed simp
qed

definition demo_row :: dead_row where
  "demo_row = \<lparr>dr_jobId = ''7'', dr_queueName = ''swap.processed'', dr_eventId = ''e1'', dr_data = ''{}'',
     dr_error = ''timeout'', dr_attemptsMade = 3, dr_recoveredAt = None\<rparr>"

definition demo_dlq :: "dlq_view \<times> string list" where
  "demo_dlq = (\<lparr>dv_rows = [''7'' \<mapsto> demo_row], dv_jobs = Map.empty\<rparr>, [''7''])"

definition no_payload :: "string \<Rightarrow> json option" where
  "no_payload s = Some (JObj [])"

lemma demo_replay_run:
  "fst (run mem_dlq (replayDeadLetters no_payload (Some ''7'')) demo_dlq) = Inr (summary_of [''7''] [])"
  by code_simp

theorem replay_recovers_only_enqueued_witness:
  "\<exists>tr ts' s'. steps mem_dlq (\<lambda>s s'. False) ([replayDeadLetters no_payload (Some ''7'')], demo_dlq) tr (ts', s') \<and>
     (\<exists>row. row_read (events_of 0 tr) row \<and> dr_jobId row = ''7'' \<and>
       (enqueued_in (events_of 0 tr) (toEntry no_payload row) \<or> misleading_queue (toEntry no_payload row)))"
proof -
  let ?m = "replayDeadLetters no_payload (Some ''7'')"
  obtain tr where st: "steps mem_dlq (\<lambda>s s'. False) ([?m], demo_dlq) tr
      ([Ret (fst (run mem_dlq ?m demo_dlq))], snd (run mem_dlq ?m demo_dlq))"
    using run_steps [of mem_dlq "\<lambda>s s'. False" ?m demo_dlq] by blast
  have "\<exists>row. row_read (events_of 0 tr) row \<and> dr_jobId row = ''7'' \<and>
       (enqueued_in (events_of 0 tr) (toEntry no_payload row) \<or> misleading_queue (toEntry no_payload row))"
    using replay_recovers_only_enqueued [OF st, where i = 0 and json_parse = no_payload and jobId = "Some ''7''"
        and sm = "summary_of [''7''] []"]
    by (simp add: demo_replay_run) (simp add: summary_of_def)
  then show ?thesis using st by blast
qed

lemma enqueue_throws: "feed (enqueueDeadLetter e) lg = Some (Ret (Inl x)) \<Longrightarrow> \<exists>m. x = Js_Error m"
  by (auto simp: enqueueDeadLetter_def entry_event_id_def dlq_await_def
      split: sum.splits if_splits list.splits prod.splits dlq_reply.splits option.splits json.splits)

lemma replay_entries_throws:
  "feed (replay_entries es replayed skipped) lg = Some (Ret (Inl x)) \<Longrightarrow> \<exists>m. x = Js_Error m"
proof (induction es arbitrary: replayed skipped lg)
  case (Cons e es)
  then have "feed (prog_then (enqueueDeadLetter e) (\<lambda>ok. if \<not> ok then replay_entries es replayed (skipped @ [de_jobId e])
      else prog_then (clearDeadLetter (de_jobId e)) (\<lambda>_. replay_entries es (replayed @ [de_jobId e]) skipped))) lg =
      Some (Ret (Inl x))" by simp
  then show ?case
  proof (cases rule: feed_then_Ret)
    case (threw y)
    then show ?thesis using enqueue_throws by simp
  next
    case (went_on ok lg1 lg2)
    show ?thesis
    proof (cases ok)
      case True
      then have "feed (prog_then (clearDeadLetter (de_jobId e)) (\<lambda>_. replay_entries es (replayed @ [de_jobId e]) skipped)) lg2 =
        Some (Ret (Inl x))" using went_on(3) by simp
      then show ?thesis
      proof (cases rule: feed_then_Ret)
        case (threw y)
        then show ?thesis using clear_events by blast
      qed (rule Cons.IH)
    qed (use went_on(3) Cons.IH in auto)
  qed
qed (simp split: if_splits)

text \<open>A replay that reports an unavailable store made one call, the read that failed: it enqueued nothing and
  marked nothing; and every failed read is reported so.\<close>

theorem replay_store_down:
  assumes "steps exec drift (ts, s) tr (ts', s')" and "i < length ts"
    and "ts ! i = replayDeadLetters json_parse jobId" and "ts' ! i = Ret x"
  shows "x = Inl (Store_Unavailable e) \<longleftrightarrow> (\<exists>c. events_of i tr = [(c, DErr e)] \<and>
     (c = DeadFindMany None True 500 \<or> (\<exists>j. c = DeadFind j)))"
proof -
  have "feed (prog_then (replay_source json_parse jobId) (\<lambda>entries. replay_entries entries [] [])) (events_of i tr) =
      Some (Ret x)"
    using steps_feed [OF assms(1,2)] assms(3,4) by (simp add: replayDeadLetters_def)
  then show ?thesis
  proof (cases rule: feed_then_Ret)
    case (threw y)
    obtain c r where "events_of i tr = [(c, r)]" "c = DeadFindMany None True 500 \<or> (\<exists>j. c = DeadFind j)"
      "\<And>e. r = DErr e \<longleftrightarrow> y = Store_Unavailable e"
      by (rule replay_source_events [OF threw(1)]) auto
    then show ?thesis using threw(2) by auto
  next
    case (went_on es lg1 lg2)
    obtain c r where "lg1 = [(c, r)]" "\<And>e. r \<noteq> DErr e"
      by (rule replay_source_events [OF went_on(2)]) simp
    moreover have "x \<noteq> Inl (Store_Unavailable e)" using replay_entries_throws went_on(3) by fastforce
    ultimately show ?thesis using went_on(1) by auto
  qed
qed

lemma demo_down_run: "fst (run (\<lambda>c s. (DErr ''down'', s)) (replayDeadLetters no_payload None) ()) =
    Inl (Store_Unavailable ''down'')"
  by (simp add: replayDeadLetters_def replay_source_def getDeadLetters_def dlq_await_def)

theorem replay_store_down_witness:
  "\<exists>tr ts' s'. steps (\<lambda>c s. (DErr ''down'', s)) (\<lambda>s s'. False) ([replayDeadLetters no_payload None], ()) tr (ts', s') \<and>
     (\<exists>c. events_of 0 tr = [(c, DErr ''down'')])"
proof -
  let ?down = "\<lambda>(c :: dlq_call) (s :: unit). (DErr ''down'', s)" and ?m = "replayDeadLetters no_payload None"
  obtain tr where st: "steps ?down (\<lambda>s s'. False) ([?m], ()) tr ([Ret (fst (run ?down ?m ()))], snd (run ?down ?m ()))"
    using run_steps [of ?down "\<lambda>s s'. False" ?m "()"] by blast
  have "\<exists>c. events_of 0 tr = [(c, DErr ''down'')]"
    using replay_store_down [OF st, where i = 0 and x = "Inl (Store_Unavailable ''down'')" and json_parse = no_payload
        and jobId = None and e = "''down''"]
    by (auto simp: demo_down_run)
  then show ?thesis using st by blast
qed

section \<open>Replays in flight\<close>

text \<open>Replays of one target under one idempotency key never run at the same time; a request that joined one is
  answered with the result of a replay of that target and key; the key is held only while its replay runs; and
  whenever a request is still to be answered, some request can go on.\<close>

theorem replays_share_one_run:
  assumes "flight_reach (replayDeadLettersIdempotent json_parse) exec drift qs
      (flight_start (replayDeadLettersIdempotent json_parse) qs m s) st"
    and "i < length qs"
  shows "(if leader (fs_tasks st ! i) then
            {j. j < length qs \<and> leader (fs_tasks st ! j) \<and> replay_key (qs ! j) = replay_key (qs ! i)} = {i} else True) \<and>
     (case fs_tasks st ! i of
        Joined p \<Rightarrow> (case fs_promises st ! p of
            Settled a \<Rightarrow> \<exists>j<length qs. replay_key (qs ! j) = replay_key (qs ! i) \<and>
              (\<exists>lg. feed (replayDeadLetters json_parse (dq_jobId (qs ! j))) lg = Some (Ret a))
          | Pending \<Rightarrow> True)
      | _ \<Rightarrow> True) \<and>
     (case jm_get (fs_map st) k of
        Some p \<Rightarrow> \<exists>j<length qs. replay_key (qs ! j) = k \<and> leads p (fs_tasks st ! j) | None \<Rightarrow> True) \<and>
     ((\<exists>b. fs_tasks st ! i = Answered b) \<or>
      (\<exists>j<length qs. advance (replayDeadLettersIdempotent json_parse) exec qs j st \<noteq> None))"
proof -
  have key: "fl_key (replayDeadLettersIdempotent json_parse) = replay_key"
    and body: "fl_body (replayDeadLettersIdempotent json_parse) = (\<lambda>q. replayDeadLetters json_parse (dq_jobId q))"
    by (simp_all add: replayDeadLettersIdempotent_def)
  show ?thesis by (rule replay_flight.shared_run [OF assms, unfolded key body])
qed

definition demo_replay :: dlq_replay_request where
  "demo_replay = \<lparr>dq_jobId = Some ''7'', dq_idempotencyKey = Some ''k'', dq_correlationId = ''c'', dq_now = 1000000\<rparr>"

definition demo_memory :: dlq_replay_memory where
  "demo_memory = \<lparr>dm_completed = [], dm_outcomes = dlqReplayOutcomes\<rparr>"

definition demo_replay_start ::
  "(string, dlq_call, dlq_reply, dlq_exn + replay_summary, dlq_replay_answer, dlq_replay_memory, dlq_view \<times> string list)
     flight_state" where
  "demo_replay_start = flight_start (replayDeadLettersIdempotent no_payload) [demo_replay, demo_replay] demo_memory demo_dlq"

lemma demo_replay_joined:
  "fs_tasks (flight_schedule (replayDeadLettersIdempotent no_payload) mem_dlq [demo_replay, demo_replay] [0, 1]
     demo_replay_start) = [Leading 0 (replayDeadLetters no_payload (Some ''7'')), Joined 0]"
  by (simp add: demo_replay_start_def flight_start_def advance_def flight_enter_def replayDeadLettersIdempotent_def
      completed_answer_def demo_memory_def demo_replay_def Let_def)

theorem replays_share_one_run_witness:
  "\<exists>st :: (string, dlq_call, dlq_reply, dlq_exn + replay_summary, dlq_replay_answer, dlq_replay_memory,
        dlq_view \<times> string list) flight_state.
     fs_tasks st ! 1 = Joined 0 \<and>
     {j. j < 2 \<and> leader (fs_tasks st ! j) \<and> replay_key ([demo_replay, demo_replay] ! j) = replay_key demo_replay} = {0}"
proof -
  obtain st where st: "flight_reach (replayDeadLettersIdempotent no_payload) mem_dlq (\<lambda>s s'. False)
      [demo_replay, demo_replay] demo_replay_start st"
    and tasks: "fs_tasks st = [Leading 0 (replayDeadLetters no_payload (Some ''7'')), Joined 0]"
    using schedule_reach [OF reach_start] demo_replay_joined by blast
  from replays_share_one_run [OF st [unfolded demo_replay_start_def], of 0]
  have "{j. j < 2 \<and> leader (fs_tasks st ! j) \<and> replay_key ([demo_replay, demo_replay] ! j) = replay_key demo_replay} = {0}"
    by (simp add: tasks leader_def numeral_2_eq_2)
  then show ?thesis using tasks by (intro exI [of _ st]) simp
qed

section \<open>Completed replays\<close>

lemma update_length: "length (AList.update k v m) \<le> Suc (length m)"
  by (induction m) auto

lemma remember_length:
  assumes "length m \<le> DLQ_REPLAY_RESULT_MAX"
  shows "length (rememberDlqReplay key summary now m) \<le> DLQ_REPLAY_RESULT_MAX"
proof -
  let ?fresh = "filter (\<lambda>(k, v). now - fst v < DLQ_REPLAY_RESULT_TTL_MS) m"
  define room where "room = (if DLQ_REPLAY_RESULT_MAX \<le> length ?fresh
      then (case ?fresh of (oldest, v) # _ \<Rightarrow> jm_delete ?fresh oldest | [] \<Rightarrow> ?fresh) else ?fresh)"
  have fresh: "length ?fresh \<le> DLQ_REPLAY_RESULT_MAX" by (rule order_trans [OF length_filter_le assms])
  have "length room < DLQ_REPLAY_RESULT_MAX"
  proof (cases "DLQ_REPLAY_RESULT_MAX \<le> length ?fresh")
    case True
    then obtain k v xs where x: "?fresh = (k, v) # xs"
      by (cases ?fresh) (auto simp: DLQ_REPLAY_RESULT_MAX_def)
    then have "room = AList.delete k xs" using True by (simp add: room_def jm_delete_def)
    moreover have "length (AList.delete k xs) \<le> length xs" by (rule length_delete_le)
    ultimately show ?thesis using fresh x by simp
  qed (simp add: room_def)
  then show ?thesis
    using update_length [of key "(now, summary)" room]
    by (simp add: rememberDlqReplay_def Let_def jm_set_def flip: room_def)
qed

text \<open>A completed replay with an explicit key answers every later request of the same key within ten minutes from
  memory, with the same summary and without a single call; and the memory never exceeds its bound.\<close>

theorem completed_replay_answers:
  assumes "explicit_key q" and "explicit_key q'" and "replay_key q' = replay_key q"
    and "dq_now q' - dq_now q < DLQ_REPLAY_RESULT_TTL_MS" and "length (dm_completed m) \<le> DLQ_REPLAY_RESULT_MAX"
    and "replay_finished q (Inr summary) m = (b, m')"
  shows "completed_answer q' m' =
      Some (Replay_Response summary (dq_correlationId q') True, count_outcome ''deduplicated'' m') \<and>
     length (dm_completed m') \<le> DLQ_REPLAY_RESULT_MAX"
proof -
  have m': "dm_completed m' = rememberDlqReplay (replay_key q) summary (dq_now q) (dm_completed m)"
    using assms(1,6) by (auto simp: replay_finished_def count_outcome_def)
  then have "jm_get (dm_completed m') (replay_key q') = Some (dq_now q, summary)"
    using assms(3) by (simp add: rememberDlqReplay_def Let_def)
  then show ?thesis using assms(2,4,5) m' remember_length by (simp add: completed_answer_def)
qed

theorem completed_replay_answers_witness:
  "completed_answer (demo_replay\<lparr>dq_now := 1000500\<rparr>)
      (snd (replay_finished demo_replay (Inr (summary_of [''7''] [])) demo_memory)) =
    Some (Replay_Response (summary_of [''7''] []) ''c'' True,
      count_outcome ''deduplicated'' (snd (replay_finished demo_replay (Inr (summary_of [''7''] [])) demo_memory)))"
proof -
  have "explicit_key demo_replay" "explicit_key (demo_replay\<lparr>dq_now := 1000500\<rparr>)"
    "replay_key (demo_replay\<lparr>dq_now := 1000500\<rparr>) = replay_key demo_replay"
    "dq_now (demo_replay\<lparr>dq_now := 1000500\<rparr>) - dq_now demo_replay < DLQ_REPLAY_RESULT_TTL_MS"
    "length (dm_completed demo_memory) \<le> DLQ_REPLAY_RESULT_MAX"
    by (simp_all add: explicit_key_def demo_replay_def replay_key_def DLQ_REPLAY_RESULT_TTL_MS_def demo_memory_def)
  from completed_replay_answers [OF this prod.collapse [symmetric]]
  show ?thesis by (simp add: demo_replay_def)
qed

section \<open>Where the replays fall short of their documentation\<close>

text \<open>C30: With a store and queues that answer, replaying a dead letter whose replay job a queue still holds (a replay
  that failed, for one) adds nothing to any queue, yet is reported as a success and marks the row recovered.\<close>

theorem held_job_replay_is_lost:
  assumes "dlq_reliable exec view" and "dv_rows (view s) j = Some row" and "dr_queueName row \<in> set QUEUE_NAMES"
    and "entry_event_id (toEntry json_parse row) = Inr (c # cs)" and "dr_jobId row = j" and "j \<noteq> []"
    and "dv_jobs (view s) (dr_queueName row, replay_job_id j) = Some held"
    and "run exec (replayDeadLetters json_parse (Some j)) s = (res, s')"
  shows "res = Inr (summary_of [j] []) \<and> dv_jobs (view s') = dv_jobs (view s) \<and>
     dv_rows (view s') j = Some (row\<lparr>dr_recoveredAt := Some Time_Now\<rparr>)"
proof -
  obtain d ds where j: "j = d # ds" using assms(6) by (cases j) auto
  let ?add = "QueueAdd (dr_queueName row) (c # cs) (de_data (toEntry json_parse row)) (replay_job_id j)"
  obtain r1 s1 where 1: "exec (DeadFind j) s = (r1, s1)" by force
  obtain r2 s2 where 2: "exec ?add s1 = (r2, s2)" by force
  obtain r3 s3 where 3: "exec (DeadRecover j) s2 = (r3, s3)" by force
  have v1: "r1 = DRow (Some row)" "view s1 = view s" using assms(1,2) 1 unfolding dlq_reliable_def by fastforce+
  have v2: "r2 = DOk" "view s2 = view s" using assms(1,7) 2 v1 unfolding dlq_reliable_def by fastforce+
  have v3: "r3 = DOk" "view s3 = (view s)\<lparr>dv_rows := (dv_rows (view s))(j \<mapsto> row\<lparr>dr_recoveredAt := Some Time_Now\<rparr>)\<rparr>"
    using assms(1,2) 3 v2 unfolding dlq_reliable_def by fastforce+
  have "run exec (replayDeadLetters json_parse (Some j)) s = (Inr (summary_of [j] []), s3)"
    using 1 2 3 v1 v2 v3 assms(3-5)
    by (simp add: replayDeadLetters_def replay_source_def loadSingleDeadLetter_def getDeadLetter_def dlq_await_def
        enqueueDeadLetter_def clearDeadLetter_def toEntry_def j run_then run_catch)
  then show ?thesis using assms(8) v3 by simp
qed

lemma mem_find_many:
  assumes "rs = take n (map (\<lambda>j. the (dv_rows V j)) (filter P (remdups ids)))"
    and "\<And>j. P j \<Longrightarrow> \<exists>x. dv_rows V j = Some x \<and> dr_jobId x = j \<and> Q x"
  shows "length rs \<le> n" and "distinct (map dr_jobId rs)" and "\<forall>x\<in>set rs. dv_rows V (dr_jobId x) = Some x \<and> Q x"
proof -
  let ?js = "take n (filter P (remdups ids))"
  have rs: "rs = map (\<lambda>j. the (dv_rows V j)) ?js" using assms(1) by (simp only: take_map)
  have row: "dv_rows V j = Some (the (dv_rows V j)) \<and> dr_jobId (the (dv_rows V j)) = j \<and> Q (the (dv_rows V j))"
    if "j \<in> set ?js" for j
  proof -
    have "P j" using in_set_takeD [OF that] by simp
    then show ?thesis using assms(2) by fastforce
  qed
  have "map dr_jobId rs = ?js"
    unfolding rs map_map by (rule map_idI, drule row, simp only: o_apply)
  then show "distinct (map dr_jobId rs)" by (simp only: distinct_take distinct_filter distinct_remdups)
  show "length rs \<le> n" by (simp add: assms(1))
  show "\<forall>x\<in>set rs. dv_rows V (dr_jobId x) = Some x \<and> Q x"
  proof
    fix x
    assume "x \<in> set rs"
    then obtain j where "j \<in> set ?js" and x: "x = the (dv_rows V j)" unfolding rs set_map by (rule imageE) blast
    then show "dv_rows V (dr_jobId x) = Some x \<and> Q x" using row [of j] by (simp only: x simp_thms)
  qed
qed

lemma mem_dlq_reliable: "dlq_reliable mem_dlq fst"
  unfolding dlq_reliable_def
proof (intro allI impI)
  fix c S r S'
  assume step: "mem_dlq c S = (r, S')"
  obtain V ids where S: "S = (V, ids)" by force
  show "dlq_answers c (fst S) r \<and> fst S' = dlq_effect c (fst S) \<or>
     (\<exists>j. c = DeadRecover j \<and> dv_rows (fst S) j = None \<and> (\<exists>e. r = DErr e) \<and> fst S' = fst S)"
  proof (cases c)
    case (DeadFindMany q u l)
    let ?Q = "\<lambda>x. (u \<longrightarrow> dr_recoveredAt x = None) \<and> (case q of Some n \<Rightarrow> dr_queueName x = n | None \<Rightarrow> True)"
    obtain rs where r: "r = DRows rs" "S' = S" and rs: "rs = take (nat l) (map (\<lambda>j. the (dv_rows V j))
        (filter (\<lambda>j. case dv_rows V j of Some x \<Rightarrow> dr_jobId x = j \<and> ?Q x | None \<Rightarrow> False) (remdups ids)))"
      using step by (auto simp: S DeadFindMany)
    have P: "\<exists>x. dv_rows V j = Some x \<and> dr_jobId x = j \<and> ?Q x"
      if "case dv_rows V j of Some x \<Rightarrow> dr_jobId x = j \<and> ?Q x | None \<Rightarrow> False" for j
      using that by (simp split: option.splits)
    note M = mem_find_many [OF rs P]
    have "\<forall>name. q = Some name \<longrightarrow> (\<forall>x\<in>set rs. dr_queueName x = name)" using M(3) by auto
    then show ?thesis using M by (simp add: DeadFindMany r S)
  qed (use step in \<open>auto simp: S split: if_splits\<close>)
qed

definition held_dlq :: "dlq_view \<times> string list" where
  "held_dlq = (\<lparr>dv_rows = [''7'' \<mapsto> demo_row], dv_jobs = [(''swap.processed'', ''dlq-replay:7'') \<mapsto> JObj []]\<rparr>, [''7''])"

theorem held_job_replay_is_lost_witness:
  "fst (run mem_dlq (replayDeadLetters no_payload (Some ''7'')) held_dlq) = Inr (summary_of [''7''] []) \<and>
   dv_jobs (fst (snd (run mem_dlq (replayDeadLetters no_payload (Some ''7'')) held_dlq))) = dv_jobs (fst held_dlq)"
proof -
  obtain res s' where run: "run mem_dlq (replayDeadLetters no_payload (Some ''7'')) held_dlq = (res, s')"
    by (rule prod.exhaust)
  have "dv_rows (fst held_dlq) ''7'' = Some demo_row" by (simp add: held_dlq_def)
  moreover have "dr_queueName demo_row \<in> set QUEUE_NAMES" by (simp add: demo_row_def QUEUE_NAMES_def)
  moreover have "entry_event_id (toEntry no_payload demo_row) = Inr (CHR ''e'' # ''1'')"
    by (simp add: demo_row_def entry_event_id_def toEntry_def no_payload_def json_prop_def)
  moreover have "dr_jobId demo_row = ''7''" "''7'' \<noteq> []" by (simp_all add: demo_row_def)
  moreover have "dv_jobs (fst held_dlq) (dr_queueName demo_row, replay_job_id ''7'') = Some (JObj [])"
    by (simp add: held_dlq_def demo_row_def replay_job_id_def)
  ultimately have "res = Inr (summary_of [''7''] []) \<and> dv_jobs (fst s') = dv_jobs (fst held_dlq) \<and>
      dv_rows (fst s') ''7'' = Some (demo_row\<lparr>dr_recoveredAt := Some Time_Now\<rparr>)"
    by (rule held_job_replay_is_lost [OF mem_dlq_reliable _ _ _ _ _ _ run])
  then show ?thesis unfolding run fst_conv snd_conv by blast
qed

text \<open>When the store is down, the request that runs a replay gets a 503 with a code; a request that joined it gets
  the bare error, which the framework turns into a 500.\<close>

theorem joined_replay_error_uncoded:
  "fs_tasks (flight_schedule (replayDeadLettersIdempotent json_parse) (\<lambda>c s. (DErr ''down'', s)) [q, q] [0, 1, 0, 0, 0, 1]
     (flight_start (replayDeadLettersIdempotent json_parse) [q, q] demo_memory ())) =
   [Answered (Replay_Http (http_error 503 ''DLQ_REPLAY_DEPENDENCY_UNAVAILABLE''
      ''Dead-letter store unavailable; nothing was replayed'' (dq_correlationId q))),
    Answered (Replay_Raw (Store_Unavailable ''down''))]"
proof -
  obtain c f where run: "replayDeadLetters json_parse (dq_jobId q) = Call c f"
    and down: "f (DErr ''down'') = Ret (Inl (Store_Unavailable ''down''))"
    by (cases "dq_jobId q" rule: option.exhaust; cases "the (dq_jobId q)")
      (auto simp: replayDeadLetters_def replay_source_def loadSingleDeadLetter_def getDeadLetter_def getDeadLetters_def
        dlq_await_def)
  show ?thesis
    by (simp add: flight_start_def advance_def flight_enter_def flight_leave_def replayDeadLettersIdempotent_def
        completed_answer_def demo_memory_def count_outcome_def run down replay_finished_def replay_joined_def Let_def)
qed

text \<open>A persisted position event without a token id cannot be replayed: its payload carries an empty token id, and
  the worker acknowledges the job without doing anything.\<close>

theorem untokened_position_replay_skipped:
  "idx_handler (replay_payload (Position_Minted (d\<lparr>pd_tokenId := None\<rparr>))) = Ret (Inr ()) \<and>
   idx_handler (replay_payload (Position_Burned (d\<lparr>pd_tokenId := None\<rparr>))) = Ret (Inr ())"
  by (simp add: handlePositionMinted_def handlePositionBurned_def guardEmptyData_def position_entries_def opt_entry_def)

section \<open>Replay of one row\<close>

text \<open>The replay of a row succeeds only after it read an unrecovered row, the dispatcher took it and the row was
  marked; otherwise its answer carries an error code and it has not marked the row successfully.\<close>

theorem executeReplay_outcome:
  assumes "steps exec drift (ts, s) tr (ts', s')" and "i < length ts"
    and "ts ! i = executeReplay json_parse q" and "ts' ! i = Ret rs"
  shows "if rs_ok rs
    then (\<exists>row d u. events_of i tr = [(DeadFind (rr_jobId q), DRow (Some row)),
        (DispatchReplay (toEntry json_parse row) (request_cid q), d), (DeadRecover (rr_jobId q), u)] \<and>
        dr_recoveredAt row = None \<and> (\<forall>e. d \<noteq> DErr e) \<and> (\<forall>e. u \<noteq> DErr e))
    else rs_errorCode rs \<noteq> None \<and> (\<forall>j r. (i, DeadRecover j, r) \<in> set tr \<longrightarrow> (\<exists>e. r = DErr e))"
proof -
  have feed: "feed (executeReplay json_parse q) (events_of i tr) = Some (Ret rs)"
    using steps_feed [OF assms(1,2)] assms(3,4) by simp
  have "if rs_ok rs
    then (\<exists>row d u. events_of i tr = [(DeadFind (rr_jobId q), DRow (Some row)),
        (DispatchReplay (toEntry json_parse row) (request_cid q), d), (DeadRecover (rr_jobId q), u)] \<and>
        dr_recoveredAt row = None \<and> (\<forall>e. d \<noteq> DErr e) \<and> (\<forall>e. u \<noteq> DErr e))
    else rs_errorCode rs \<noteq> None \<and> (\<forall>j r. (DeadRecover j, r) \<in> set (events_of i tr) \<longrightarrow> (\<exists>e. r = DErr e))"
    using feed
    by (auto simp: executeReplay_def Let_def replay_fail_def
        split: list.splits prod.splits if_splits dlq_reply.splits option.splits)
  moreover have "(i, c, r) \<in> set tr \<Longrightarrow> (c, r) \<in> set (events_of i tr)" for c r by (force simp: events_of_def)
  ultimately show ?thesis by (cases "rs_ok rs") (simp_all, blast)
qed

definition demo_request :: replay_request where
  "demo_request = \<lparr>rr_jobId = ''7'', rr_idempotencyKey = Some ''k'', rr_correlationId = Some ''c'', rr_uuid = ''u''\<rparr>"

definition demo_result :: replay_result where
  "demo_result = \<lparr>rs_ok = True, rs_jobId = ''7'', rs_correlationId = ''c'', rs_deduplicated = False, rs_errorCode = None\<rparr>"

lemma demo_execute_run: "fst (run mem_dlq (executeReplay no_payload demo_request) demo_dlq) = demo_result"
  by (simp add: executeReplay_def demo_request_def demo_dlq_def demo_row_def demo_result_def request_cid_def Let_def)

theorem executeReplay_outcome_witness:
  "\<exists>tr ts' s' row d u. steps mem_dlq (\<lambda>s s'. False) ([executeReplay no_payload demo_request], demo_dlq) tr (ts', s') \<and>
     events_of 0 tr = [(DeadFind ''7'', DRow (Some row)), (DispatchReplay (toEntry no_payload row) ''c'', d),
       (DeadRecover ''7'', u)]"
proof -
  let ?m = "executeReplay no_payload demo_request"
  obtain tr where st: "steps mem_dlq (\<lambda>s s'. False) ([?m], demo_dlq) tr
      ([Ret (fst (run mem_dlq ?m demo_dlq))], snd (run mem_dlq ?m demo_dlq))"
    using run_steps [of mem_dlq "\<lambda>s s'. False" ?m demo_dlq] by blast
  have fields: "rs_ok demo_result" "rr_jobId demo_request = ''7''" "request_cid demo_request = ''c''"
    by (simp_all add: demo_result_def demo_request_def request_cid_def)
  from executeReplay_outcome [OF st, where i = 0 and rs = demo_result and json_parse = no_payload and q = demo_request]
  have "\<exists>row d u. events_of 0 tr = [(DeadFind ''7'', DRow (Some row)),
      (DispatchReplay (toEntry no_payload row) ''c'', d), (DeadRecover ''7'', u)]"
    by (simp add: demo_execute_run fields) blast
  then show ?thesis using st by blast
qed

text \<open>The idempotency key of a single-row replay is not tied to the row: a request for one job that carries the key
  of a running replay of another is answered with that job's success, and nothing is done for its own.\<close>

theorem replay_key_not_scoped:
  "fs_tasks (flight_schedule (replayDeadLetter no_payload) mem_dlq
     [demo_request, demo_request\<lparr>rr_jobId := ''8''\<rparr>] [0, 1, 0, 0, 0, 0, 0, 1]
     (flight_start (replayDeadLetter no_payload) [demo_request, demo_request\<lparr>rr_jobId := ''8''\<rparr>] () demo_dlq)) =
   [Answered demo_result, Answered (demo_result\<lparr>rs_deduplicated := True\<rparr>)]"
  by (simp add: flight_start_def advance_def flight_enter_def flight_leave_def replayDeadLetter_def Let_def
      executeReplay_def demo_request_def demo_dlq_def demo_row_def demo_result_def request_cid_def)

end
