(* ===== verification/Cache.thy ===== *)
theory Cache
  imports Single_Flight Redis Dead_Letters
begin

text \<open>
  The cache of the API, \<^verbatim>\<open>apps/api/src/cache/cache.service.ts\<close>: reads and writes that degrade to a miss,
  the read-through with one fetch per key in flight, and the rate limiter whose counter lives in one
  Redis script. The availability flag, which the connection events set, is read by a call of its own, so
  it may change between any two steps. JSON text is read and written by parameters.
\<close>

datatype cache_call = IsAvailable | RedisCall redis_call | PublishCall string string | Fetch string

datatype cache_reply = CBool bool | CRedis redis_reply | CFetched "string + json"

datatype cache_exn =
    CacheError string string "string option"
  | RateLimitError string string "string option"
  | Fetch_Failed string

type_synonym 'a cache_prog = "(cache_call, cache_reply, 'a) prog"

section \<open>Reads and writes\<close>

definition if_available :: "'a cache_prog \<Rightarrow> 'a cache_prog \<Rightarrow> 'a cache_prog" where
  "if_available yes no = Call IsAvailable (\<lambda>r. if r = CBool True then yes else no)"

definition redis_reply_of :: "cache_reply \<Rightarrow> redis_reply" where
  "redis_reply_of r = (case r of CRedis x \<Rightarrow> x | _ \<Rightarrow> RErr ''unexpected reply'')"

definition cache_get :: "(string \<Rightarrow> json option) \<Rightarrow> string \<Rightarrow> json option cache_prog" where
  "cache_get json_parse key = if_available
     (Call (RedisCall (Cmd (RGet key))) (\<lambda>r. Ret (case redis_reply_of r of RStr raw \<Rightarrow> json_parse raw | _ \<Rightarrow> None)))
     (Ret None)"

definition cache_set :: "(json \<Rightarrow> string) \<Rightarrow> string \<Rightarrow> json \<Rightarrow> int option \<Rightarrow> unit cache_prog" where
  "cache_set json_text key v ttlSeconds = if_available
     (Call (RedisCall (Cmd (RSet key (json_text v)
        (case ttlSeconds of Some t \<Rightarrow> if 0 < t then Some t else None | None \<Rightarrow> None)))) (\<lambda>r. Ret ()))
     (Ret ())"

definition cache_del :: "string \<Rightarrow> unit cache_prog" where
  "cache_del key = if_available (Call (RedisCall (Cmd (RDel key))) (\<lambda>r. Ret ())) (Ret ())"

definition cache_publish :: "string \<Rightarrow> string \<Rightarrow> bool cache_prog" where
  "cache_publish channel message = if_available
     (Call (PublishCall channel message) (\<lambda>r. Ret (case r of CRedis (RErr e) \<Rightarrow> False | _ \<Rightarrow> True)))
     (Ret False)"

section \<open>Read-through\<close>

text \<open>
  \<open>cq_sync_throw\<close>: the error of a fetcher that throws before it returns a promise; an \<^verbatim>\<open>async\<close> fetcher never
  does.
\<close>

record fetch_request =
  cq_key :: string
  cq_ttlSeconds :: "int option"
  cq_correlationId :: "string option"
  cq_failClosed :: bool
  cq_sync_throw :: "string option"

definition fetch_error :: "fetch_request \<Rightarrow> string \<Rightarrow> cache_exn" where
  "fetch_error q e = (if cq_failClosed q
     then CacheError ''CACHE_FETCH_FAILED'' (''Upstream fetch failed for key='' @ cq_key q) (cq_correlationId q)
     else Fetch_Failed e)"

definition fetch_lookup :: "(string \<Rightarrow> json option) \<Rightarrow> fetch_request \<Rightarrow> (cache_exn + json) option cache_prog" where
  "fetch_lookup json_parse q =
     (let look = prog_bind (cache_get json_parse (cq_key q)) (\<lambda>v. Ret (case v of
            Some JNull \<Rightarrow> None | Some x \<Rightarrow> Some (Inr x) | None \<Rightarrow> None))
      in if cq_failClosed q then if_available look
           (Ret (Some (Inl (CacheError ''CACHE_DEPENDENCY_UNAVAILABLE''
              (''Cache dependency unavailable for key='' @ cq_key q) (cq_correlationId q)))))
         else look)"

definition fetch_body :: "(json \<Rightarrow> string) \<Rightarrow> fetch_request \<Rightarrow> (cache_exn + json) cache_prog" where
  "fetch_body json_text q =
     Call (Fetch (cq_key q)) (\<lambda>r. case r of
       CFetched (Inr v) \<Rightarrow> prog_bind (cache_set json_text (cq_key q) v (cq_ttlSeconds q)) (\<lambda>_. Ret (Inr v))
     | CFetched (Inl e) \<Rightarrow> Ret (Inl (fetch_error q e))
     | _ \<Rightarrow> Ret (Inl (fetch_error q ''unexpected reply'')))"

definition getOrFetch ::
  "(string \<Rightarrow> json option) \<Rightarrow> (json \<Rightarrow> string) \<Rightarrow>
   (fetch_request, string, cache_call, cache_reply, cache_exn + json, cache_exn + json, unit) flight_code" where
  "getOrFetch json_parse json_text =
     \<lparr>fl_key = cq_key, fl_pre = fetch_lookup json_parse, fl_gate = (\<lambda>q m. None), fl_enter = (\<lambda>q m. m),
      fl_body = fetch_body json_text,
      fl_sync = (\<lambda>q. map_option (\<lambda>e. Inl (fetch_error q e)) (cq_sync_throw q)),
      fl_inside = True, fl_finish = (\<lambda>q a m. (a, m)), fl_join = (\<lambda>q a. a)\<rparr>"

text \<open>The same code called with \<^verbatim>\<open>async\<close> fetchers only.\<close>

definition getOrFetch_async ::
  "(string \<Rightarrow> json option) \<Rightarrow> (json \<Rightarrow> string) \<Rightarrow>
   (fetch_request, string, cache_call, cache_reply, cache_exn + json, cache_exn + json, unit) flight_code" where
  "getOrFetch_async json_parse json_text = (getOrFetch json_parse json_text)\<lparr>fl_sync := (\<lambda>q. None)\<rparr>"

interpretation cache_flight: single_flight "getOrFetch_async json_parse json_text"
  by unfold_locales (simp add: getOrFetch_async_def)

section \<open>Rate limit\<close>

record rate_limit_options =
  ro_limit :: int
  ro_windowSeconds :: int
  ro_correlationId :: "string option"
  ro_failClosed :: bool

record rate_limit_result =
  rr_allowed :: bool
  rr_remaining :: int
  rr_retryAfterSeconds :: int

definition rate_limit_down :: "string \<Rightarrow> rate_limit_options \<Rightarrow> string \<Rightarrow> cache_exn + rate_limit_result" where
  "rate_limit_down key opts why =
     (if ro_failClosed opts
      then Inl (RateLimitError ''RATE_LIMIT_DEPENDENCY_UNAVAILABLE'' (''Rate-limit store '' @ why @ '' for key='' @ key)
        (ro_correlationId opts))
      else Inr \<lparr>rr_allowed = True, rr_remaining = 0, rr_retryAfterSeconds = 0\<rparr>)"

definition rate_limit_verdict :: "rate_limit_options \<Rightarrow> int \<Rightarrow> int \<Rightarrow> rate_limit_result" where
  "rate_limit_verdict opts hits ttl =
     (let allowed = (hits \<le> ro_limit opts) in
      \<lparr>rr_allowed = allowed, rr_remaining = max 0 (ro_limit opts - hits),
       rr_retryAfterSeconds = (if allowed then 0 else max 1 ttl)\<rparr>)"

definition checkRateLimit :: "string \<Rightarrow> rate_limit_options \<Rightarrow> (cache_exn + rate_limit_result) cache_prog" where
  "checkRateLimit key opts = if_available
     (Call (RedisCall (RateWindow key (ro_windowSeconds opts))) (\<lambda>r. Ret (case redis_reply_of r of
        RPair hits ttl \<Rightarrow> Inr (rate_limit_verdict opts hits ttl)
      | _ \<Rightarrow> rate_limit_down key opts ''error'')))
     (Ret (rate_limit_down key opts ''unavailable''))"

section \<open>The service behind the calls\<close>

text \<open>What the calls do: the flag answers as it likes, Redis as documented, fetchers and channels as they like.\<close>

definition cache_ok :: "'s redis \<Rightarrow> (cache_call, cache_reply, 's) service \<Rightarrow> bool" where
  "cache_ok redis exec =
     ((\<forall>c s. \<exists>r s'. redis_do redis c s = (r, s') \<and> exec (RedisCall c) s = (CRedis r, s')) \<and>
      (\<forall>s. \<exists>b. exec IsAvailable s = (CBool b, s)) \<and>
      (\<forall>ch m s. \<exists>r. exec (PublishCall ch m) s = (CRedis r, s)) \<and>
      (\<forall>k s. \<exists>v. exec (Fetch k) s = (CFetched v, s)))"

text \<open>An instance: the flag is up, and every fetcher delivers one value.\<close>

fun mem_cache :: "json \<Rightarrow> (cache_call, cache_reply, mem_redis) service" where
  "mem_cache v IsAvailable s = (CBool True, s)"
| "mem_cache v (RedisCall c) s = (case redis_do mem_exec c s of (r, s') \<Rightarrow> (CRedis r, s'))"
| "mem_cache v (PublishCall ch m) s = (CRedis (RInt 0), s)"
| "mem_cache v (Fetch k) s = (CFetched (Inr v), s)"

lemma mem_cache_ok: "cache_ok mem_exec (mem_cache v)"
  unfolding cache_ok_def by (auto split: prod.splits)

end
