(* ===== verification/Cache_Laws.thy ===== *)
theory Cache_Laws
  imports Cache Rate_Limit_Laws
begin

text \<open>
  What the cache guarantees: one fetch per key in flight, a rate limit that concurrent callers cannot
  exceed, and a counter that always gets a lifetime; and what a fetcher that throws synchronously does
  to its key.
\<close>

section \<open>One fetch per key\<close>

text \<open>C31: With \<^verbatim>\<open>async\<close> fetchers, two fetches of one key never run at the same time; a request that joined one is
  answered with the result of a fetch of its key; a key is held only while its fetch runs; and whenever a
  request is still to be answered, some request can go on.\<close>

theorem cache_fetch_shared:
  assumes "flight_reach (getOrFetch_async json_parse json_text) exec drift qs
      (flight_start (getOrFetch_async json_parse json_text) qs () s) st"
    and "i < length qs"
  shows "(if leader (fs_tasks st ! i) then
            {j. j < length qs \<and> leader (fs_tasks st ! j) \<and> cq_key (qs ! j) = cq_key (qs ! i)} = {i} else True) \<and>
     (case fs_tasks st ! i of
        Joined p \<Rightarrow> (case fs_promises st ! p of
            Settled a \<Rightarrow> \<exists>j<length qs. cq_key (qs ! j) = cq_key (qs ! i) \<and>
              (\<exists>lg. feed (fetch_body json_text (qs ! j)) lg = Some (Ret a))
          | Pending \<Rightarrow> True)
      | _ \<Rightarrow> True) \<and>
     (case jm_get (fs_map st) k of
        Some p \<Rightarrow> \<exists>j<length qs. cq_key (qs ! j) = k \<and> leads p (fs_tasks st ! j) | None \<Rightarrow> True) \<and>
     ((\<exists>b. fs_tasks st ! i = Answered b) \<or>
      (\<exists>j<length qs. advance (getOrFetch_async json_parse json_text) exec qs j st \<noteq> None))"
proof -
  have key: "fl_key (getOrFetch_async json_parse json_text) = cq_key"
    and body: "fl_body (getOrFetch_async json_parse json_text) = fetch_body json_text"
    by (simp_all add: getOrFetch_async_def getOrFetch_def)
  show ?thesis by (rule cache_flight.shared_run [OF assms, unfolded key body])
qed

definition demo_fetch :: fetch_request where
  "demo_fetch = \<lparr>cq_key = ''pools'', cq_ttlSeconds = Some 30, cq_correlationId = None, cq_failClosed = False,
     cq_sync_throw = None\<rparr>"

definition no_json :: "string \<Rightarrow> json option" where
  "no_json s = None"

definition null_text :: "json \<Rightarrow> string" where
  "null_text j = ''null''"

definition demo_cache_start ::
  "(string, cache_call, cache_reply, cache_exn + json, cache_exn + json, unit, mem_redis) flight_state" where
  "demo_cache_start = flight_start (getOrFetch_async no_json null_text) [demo_fetch, demo_fetch] () []"

lemma demo_fetch_joined:
  "fs_tasks (flight_schedule (getOrFetch_async no_json null_text) (mem_cache (JBool True)) [demo_fetch, demo_fetch]
     [0, 0, 0, 1, 1, 1] demo_cache_start) = [Leading 0 (fetch_body null_text demo_fetch), Joined 0]"
  by (simp add: demo_cache_start_def flight_start_def advance_def flight_enter_def getOrFetch_async_def getOrFetch_def
      demo_fetch_def fetch_lookup_def if_available_def cache_get_def redis_reply_of_def Let_def)

theorem cache_fetch_shared_witness:
  "\<exists>st :: (string, cache_call, cache_reply, cache_exn + json, cache_exn + json, unit, mem_redis) flight_state.
     fs_tasks st ! 1 = Joined 0 \<and>
     {j. j < 2 \<and> leader (fs_tasks st ! j) \<and> cq_key ([demo_fetch, demo_fetch] ! j) = cq_key demo_fetch} = {0}"
proof -
  obtain st where st: "flight_reach (getOrFetch_async no_json null_text) (mem_cache (JBool True)) (\<lambda>s s'. False)
      [demo_fetch, demo_fetch] demo_cache_start st"
    and tasks: "fs_tasks st = [Leading 0 (fetch_body null_text demo_fetch), Joined 0]"
    using schedule_reach [OF reach_start] demo_fetch_joined by blast
  from cache_fetch_shared [OF st [unfolded demo_cache_start_def], of 0]
  have "{j. j < 2 \<and> leader (fs_tasks st ! j) \<and> cq_key ([demo_fetch, demo_fetch] ! j) = cq_key demo_fetch} = {0}"
    by (simp add: tasks leader_def numeral_2_eq_2)
  then show ?thesis using tasks by (intro exI [of _ st]) simp
qed

section \<open>A fetcher that throws before its first await\<close>

text \<open>A fetcher that throws synchronously poisons its key: the rejected promise is stored after the operation has
  already taken its key out, so a later request for that key is answered with the old error and fetches
  nothing, though the cache and its own fetcher work.\<close>

theorem sync_throw_poisons_key:
  "fs_tasks (flight_schedule (getOrFetch json_parse json_text) (mem_cache v)
     [demo_fetch\<lparr>cq_sync_throw := Some ''boom''\<rparr>, demo_fetch] [0, 0, 0, 1, 1, 1, 1]
     (flight_start (getOrFetch json_parse json_text) [demo_fetch\<lparr>cq_sync_throw := Some ''boom''\<rparr>, demo_fetch] () [])) =
   [Answered (Inl (Fetch_Failed ''boom'')), Answered (Inl (Fetch_Failed ''boom''))]"
  by (simp add: flight_start_def advance_def flight_enter_def getOrFetch_def demo_fetch_def fetch_lookup_def
      if_available_def cache_get_def redis_reply_of_def fetch_error_def Let_def)

section \<open>The rate limit\<close>

lemma window_script:
  assumes "redis_do redis (RateWindow key w) s = (RPair n ttl, s')"
  obtains s1 where "redis (RIncr key) s = (RInt n, s1)"
    and "(n \<noteq> 1 \<and> (\<exists>t. redis (RTtl key) s1 = (t, s'))) \<or>
      (n = 1 \<and> (\<exists>x s2 t. redis (RExpire key w) s1 = (x, s2) \<and> (\<forall>e. x \<noteq> RErr e) \<and> redis (RTtl key) s2 = (t, s')))"
  using assms by (auto simp: RATE_WINDOW_LUA_def Let_def split: prod.splits redis_reply.splits if_splits)

text \<open>The first count of a key gives it a lifetime, in the same script.\<close>

lemma window_sets_lifetime:
  assumes "redis_ok redis view" and "redis_do redis (RateWindow key w) s = (RPair n ttl, s')" and "view s key = None"
  shows "n = 1 \<and> (\<exists>v. view s' key = Some (v, Some w))"
proof -
  obtain s1 where incr: "redis (RIncr key) s = (RInt n, s1)"
    and rest: "(n \<noteq> 1 \<and> (\<exists>t. redis (RTtl key) s1 = (t, s'))) \<or>
      (n = 1 \<and> (\<exists>x s2 t. redis (RExpire key w) s1 = (x, s2) \<and> (\<forall>e. x \<noteq> RErr e) \<and> redis (RTtl key) s2 = (t, s')))"
    using window_script [OF assms(2)] .
  have e1: "(RInt n, view s1) = redis_effect (RIncr key) (view s)" by (rule redis_ok_reply [OF assms(1) incr]) simp
  then have n: "n = 1" and v1: "view s1 key = Some (show_int 1, None)"
    using assms(3) by (auto simp: counter_next_def)
  then obtain x s2 t where x: "redis (RExpire key w) s1 = (x, s2)" "\<forall>e. x \<noteq> RErr e" "redis (RTtl key) s2 = (t, s')"
    using rest by blast
  have "(x, view s2) = redis_effect (RExpire key w) (view s1)" by (rule redis_ok_reply [OF assms(1) x(1)]) (use x(2) in simp)
  then have "view s2 key = Some (show_int 1, Some w)" using v1 by simp
  moreover have "view s' = view s2" using redis_ok_view [OF assms(1) x(3)] by simp
  ultimately show ?thesis using n by simp
qed

lemma cmd_budget:
  "redis_ok redis view \<Longrightarrow> redis c s = (r, s') \<Longrightarrow> limiter_call (Cmd c) \<Longrightarrow>
   (if counted_within key limit (Cmd c) r then 1 else 0) + budget view key limit s' \<le> budget view key limit s"
  using limiter_call_budget [of redis view "Cmd c" s r s'] by simp

definition window_within :: "string \<Rightarrow> int \<Rightarrow> redis_call \<Rightarrow> redis_reply \<Rightarrow> bool" where
  "window_within key limit c r = (\<exists>w n ttl. c = RateWindow key w \<and> r = RPair n ttl \<and> n \<le> limit)"

lemma window_budget:
  assumes ok: "redis_ok redis view" and run: "redis_do redis (RateWindow k w) s = (r, s')"
  shows "(if window_within key limit (RateWindow k w) r then 1 else 0) + budget view key limit s' \<le> budget view key limit s"
proof -
  obtain r1 s1 where 1: "redis (RIncr k) s = (r1, s1)" by (rule prod.exhaust)
  obtain r2 s2 where 2: "redis (RExpire k w) s1 = (r2, s2)" by (rule prod.exhaust)
  obtain r3 s3 where 3: "redis (RTtl k) s2 = (r3, s3)" by (rule prod.exhaust)
  obtain r4 s4 where 4: "redis (RTtl k) s1 = (r4, s4)" by (rule prod.exhaust)
  have b1: "(if counted_within key limit (Cmd (RIncr k)) r1 then 1 else 0) + budget view key limit s1 \<le> budget view key limit s"
    by (rule cmd_budget [OF ok 1]) simp
  have b2: "budget view key limit s2 \<le> budget view key limit s1" using cmd_budget [OF ok 2, of key limit] by simp
  have b3: "budget view key limit s3 \<le> budget view key limit s2" using cmd_budget [OF ok 3, of key limit] by simp
  have b4: "budget view key limit s4 \<le> budget view key limit s1" using cmd_budget [OF ok 4, of key limit] by simp
  have "run redis (RATE_WINDOW_LUA k w) s = (r, s')" using run by simp
  then have cases: "s' \<in> {s1, s2, s3, s4}" and reply: "\<And>n ttl. r = RPair n ttl \<Longrightarrow> r1 = RInt n"
    by (simp_all add: RATE_WINDOW_LUA_def Let_def 1 2 3 4 split: redis_reply.splits if_splits)
  have "budget view key limit s' \<le> budget view key limit s1" using cases b2 b3 b4 by auto
  moreover have "counted_within key limit (Cmd (RIncr k)) r1" if "window_within key limit (RateWindow k w) r"
    using that reply by (auto simp: window_within_def)
  ultimately show ?thesis using b1 by (auto split: if_splits)
qed

lemma feed_check:
  assumes "feed (checkRateLimit key opts) lg = Some m"
  shows "(\<forall>c f. m = Call c f \<longrightarrow> c = IsAvailable \<or> c = RedisCall (RateWindow key (ro_windowSeconds opts))) \<and>
    (\<forall>x. m = Ret (Inr x) \<longrightarrow> ro_failClosed opts \<longrightarrow>
       (\<exists>n ttl. (RedisCall (RateWindow key (ro_windowSeconds opts)), CRedis (RPair n ttl)) \<in> set lg \<and>
          x = rate_limit_verdict opts n ttl))"
  using assms
  by (auto simp: checkRateLimit_def if_available_def rate_limit_down_def redis_reply_of_def
      split: list.splits prod.splits if_splits cache_reply.splits redis_reply.splits)

fun allowed_count :: "string \<Rightarrow> int \<Rightarrow> cache_call \<Rightarrow> cache_reply \<Rightarrow> bool" where
  "allowed_count key limit (RedisCall c) (CRedis r) = window_within key limit c r"
| "allowed_count key limit _ _ = False"

fun window_call :: "cache_call \<Rightarrow> bool" where
  "window_call IsAvailable = True"
| "window_call (RedisCall (RateWindow k w)) = True"
| "window_call _ = False"

lemma cache_call_budget:
  assumes "redis_ok redis view" and "cache_ok redis exec" and "exec c s = (r, s')" and "window_call c"
  shows "(if allowed_count key limit c r then 1 else 0) + budget view key limit s' \<le> budget view key limit s"
  using assms(4)
proof (cases c rule: window_call.cases)
  case 1
  then obtain b where "exec c s = (CBool b, s)" using assms(2) unfolding cache_ok_def by blast
  then show ?thesis using assms(3) by simp
next
  case (2 k w)
  then obtain r' where "redis_do redis (RateWindow k w) s = (r', s')" "r = CRedis r'"
    using assms(2,3) unfolding cache_ok_def by (metis prod.inject)
  then show ?thesis using window_budget [OF assms(1), of k w s r' s' key limit] 2 by simp
qed simp_all

text \<open>Callers of \<^verbatim>\<open>checkRateLimit\<close> that fail closed are never let past the limit: however their calls interleave,
  and whether the store answers or not, while the counter lives no more of them are allowed than it leaves.\<close>

theorem cache_rate_limit_holds:
  assumes "redis_ok redis view" and "cache_ok redis exec"
    and "steps exec (key_lives view key) (map (\<lambda>(k, opts). checkRateLimit k opts) reqs, s) tr (ts', s')"
  shows "card {i. i < length reqs \<and> (fst (reqs ! i) = key \<and> ro_failClosed (snd (reqs ! i)) \<and>
      ro_limit (snd (reqs ! i)) = limit \<and> (\<exists>x. ts' ! i = Ret (Inr x) \<and> rr_allowed x))}
    \<le> nat (limit - counter_value limit (view s key))"
proof -
  let ?good = "allowed_count key limit"
  have feed: "feed (checkRateLimit (fst (reqs ! i)) (snd (reqs ! i))) (events_of i tr) = Some (ts' ! i)"
    if "i < length reqs" for i
    using steps_feed [OF assms(3)] that by (simp add: case_prod_beta)
  have calls: "window_call c" if tr: "(i, c, r) \<in> set tr" for i c r
  proof -
    obtain lg f where "i < length reqs" "feed (checkRateLimit (fst (reqs ! i)) (snd (reqs ! i))) lg = Some (Call c f)"
      using steps_calls [OF assms(3) tr] by (auto simp: case_prod_beta)
    then show ?thesis using feed_check by fastforce
  qed
  have "length (filter (\<lambda>(i, c, r). ?good c r) tr) + budget view key limit s' \<le> budget view key limit s"
    using assms(3)
  proof (rule steps_tokens [where allowed = window_call])
    show "(if ?good c r then 1 else 0) + budget view key limit s2 \<le> budget view key limit s1"
      if "exec c s1 = (r, s2)" "window_call c" for c s1 r s2
      by (rule cache_call_budget [OF assms(1,2) that])
    show "budget view key limit s2 \<le> budget view key limit s1" if "key_lives view key s1 s2" for s1 s2
      using key_lives_budget [OF that] by simp
  qed (rule calls)
  then have few: "length (filter (\<lambda>(i, c, r). ?good c r) tr) \<le> budget view key limit s" by linarith
  have "card {i. i < length reqs \<and> (fst (reqs ! i) = key \<and> ro_failClosed (snd (reqs ! i)) \<and>
      ro_limit (snd (reqs ! i)) = limit \<and> (\<exists>x. ts' ! i = Ret (Inr x) \<and> rr_allowed x))}
    \<le> length (filter (\<lambda>(i, c, r). ?good c r) tr)"
  proof (rule handlers_le_events)
    fix i
    assume i: "i < length reqs" and p: "fst (reqs ! i) = key \<and> ro_failClosed (snd (reqs ! i)) \<and>
      ro_limit (snd (reqs ! i)) = limit \<and> (\<exists>x. ts' ! i = Ret (Inr x) \<and> rr_allowed x)"
    then obtain x where x: "ts' ! i = Ret (Inr x)" "rr_allowed x" by blast
    then obtain n ttl where "(RedisCall (RateWindow key (ro_windowSeconds (snd (reqs ! i)))), CRedis (RPair n ttl))
        \<in> set (events_of i tr)" and "x = rate_limit_verdict (snd (reqs ! i)) n ttl"
      using feed_check [OF feed [OF i]] p by blast
    then show "\<exists>c r. (c, r) \<in> set (events_of i tr) \<and> ?good c r"
      using x(2) p by (fastforce simp: rate_limit_verdict_def Let_def window_within_def)
  qed
  then show ?thesis using few by (simp add: budget_def)
qed

definition demo_options :: rate_limit_options where
  "demo_options = \<lparr>ro_limit = 1, ro_windowSeconds = 60, ro_correlationId = None, ro_failClosed = True\<rparr>"

lemma demo_script_runs:
  "redis_do mem_exec (RateWindow ''k'' 60) [] = (RPair 1 60, [(''k'', (''1'', Some 60))])"
  "redis_do mem_exec (RateWindow ''k'' 60) [(''k'', (''1'', Some 60))] = (RPair 2 60, [(''k'', (''2'', Some 60))])"
  by code_simp+

lemma demo_window_run:
  "schedule (mem_cache JNull) [0, 0, 1, 1] (map (\<lambda>(k, opts). checkRateLimit k opts) [(''k'', demo_options), (''k'', demo_options)], []) =
   ([Ret (Inr \<lparr>rr_allowed = True, rr_remaining = 0, rr_retryAfterSeconds = 0\<rparr>),
     Ret (Inr \<lparr>rr_allowed = False, rr_remaining = 0, rr_retryAfterSeconds = 60\<rparr>)], [(''k'', (''2'', Some 60))])"
  by (simp add: schedule_def schedule_one_def checkRateLimit_def if_available_def redis_reply_of_def demo_options_def
      rate_limit_verdict_def demo_script_runs del: redis_do.simps)

theorem cache_rate_limit_holds_witness:
  "\<exists>tr ts' s'. steps (mem_cache JNull) (key_lives mem_view ''k'')
      (map (\<lambda>(k, opts). checkRateLimit k opts) [(''k'', demo_options), (''k'', demo_options)], []) tr (ts', s') \<and>
     ts' ! 0 = Ret (Inr \<lparr>rr_allowed = True, rr_remaining = 0, rr_retryAfterSeconds = 0\<rparr>) \<and>
     card {i. i < length [(''k'', demo_options), (''k'', demo_options)] \<and>
       (fst ([(''k'', demo_options), (''k'', demo_options)] ! i) = ''k'' \<and>
        ro_failClosed (snd ([(''k'', demo_options), (''k'', demo_options)] ! i)) \<and>
        ro_limit (snd ([(''k'', demo_options), (''k'', demo_options)] ! i)) = 1 \<and>
        (\<exists>x. ts' ! i = Ret (Inr x) \<and> rr_allowed x))} \<le> 1"
proof -
  obtain tr ts' s' where st: "steps (mem_cache JNull) (key_lives mem_view ''k'')
      (map (\<lambda>(k, opts). checkRateLimit k opts) [(''k'', demo_options), (''k'', demo_options)], []) tr (ts', s')"
    and first: "ts' ! 0 = Ret (Inr \<lparr>rr_allowed = True, rr_remaining = 0, rr_retryAfterSeconds = 0\<rparr>)"
    using schedule_steps [of "mem_cache JNull" "key_lives mem_view ''k''"] demo_window_run by (metis nth_Cons_0)
  have "counter_value 1 (mem_view [] ''k'') = 0" by (simp add: mem_view_def counter_value_def)
  then show ?thesis
    using cache_rate_limit_holds [OF mem_redis_ok mem_cache_ok st, of 1] st first by auto
qed

text \<open>A decision of \<^verbatim>\<open>checkRateLimit\<close> taken by a store that answers: allowed exactly while the count is within the
  limit, with the rest of the limit remaining and no waiting time, denied with a positive one; and the count
  that starts a window has given the key its lifetime, in the same atomic script.\<close>

theorem cache_rate_limit_decision:
  assumes "redis_ok redis view" and "redis_do redis (RateWindow key (ro_windowSeconds opts)) s = (RPair n ttl, s')"
    and "0 \<le> ro_limit opts"
  shows "rr_allowed (rate_limit_verdict opts n ttl) = (n \<le> ro_limit opts) \<and>
     rr_remaining (rate_limit_verdict opts n ttl) \<in> {0..ro_limit opts - n} \<union> {0} \<and>
     (if rr_allowed (rate_limit_verdict opts n ttl) then rr_retryAfterSeconds (rate_limit_verdict opts n ttl) = 0
      else 1 \<le> rr_retryAfterSeconds (rate_limit_verdict opts n ttl)) \<and>
     (if view s key = None then n = 1 \<and> (\<exists>v. view s' key = Some (v, Some (ro_windowSeconds opts))) else True)"
  using window_sets_lifetime [OF assms(1,2)] by (auto simp: rate_limit_verdict_def Let_def)

theorem cache_rate_limit_decision_witness:
  "\<exists>v. mem_view (snd (redis_do mem_exec (RateWindow ''k'' 60) [])) ''k'' = Some (v, Some 60)"
proof -
  have run: "redis_do mem_exec (RateWindow ''k'' (ro_windowSeconds demo_options)) [] = (RPair 1 60, [(''k'', (''1'', Some 60))])"
    by code_simp
  show ?thesis
    using cache_rate_limit_decision [OF mem_redis_ok run] run by (simp add: demo_options_def mem_view_def jm_get_def)
qed

end
