(* ===== verification/Candles.thy ===== *)
theory Candles
  imports Service_Prog Js_Rounding Js_Map "HOL-Library.Multiset"
begin

text \<open>
  The OHLCV candles of \<^verbatim>\<open>apps/api/src/candles/candles.service.ts\<close>: aggregation of one period from swaps or
  from finer candles, the catch-up loop over all periods, and the paged read of the ticks endpoint.

  Times are whole milliseconds. The clock is an argument (\<open>now\<close>), the database a parameter whose documented
  answers are \<open>candle_ok\<close>, and so is the text of dates and cursors (\<open>date_text\<close>). The set of keys being
  processed lives in the process: \<open>Claim\<close> and \<open>Release\<close> are the synchronous \<^verbatim>\<open>has\<close>/\<^verbatim>\<open>add\<close> and \<^verbatim>\<open>delete\<close> on
  it, which \<open>candle_service\<close> runs beside the database.
\<close>

section \<open>Intervals, errors, rows\<close>

datatype candle_interval = M1 | M5 | H1 | D1

fun interval_name :: "candle_interval \<Rightarrow> string" where
  "interval_name M1 = ''1m''"
| "interval_name M5 = ''5m''"
| "interval_name H1 = ''1h''"
| "interval_name D1 = ''1d''"

fun INTERVAL_MS :: "candle_interval \<Rightarrow> int" where
  "INTERVAL_MS M1 = 60000"
| "INTERVAL_MS M5 = 300000"
| "INTERVAL_MS H1 = 3600000"
| "INTERVAL_MS D1 = 86400000"

lemma INTERVAL_MS_pos [simp]: "0 < INTERVAL_MS i"
  by (cases i) simp_all

fun BUCKET_SOURCE :: "candle_interval \<Rightarrow> candle_interval option" where
  "BUCKET_SOURCE H1 = Some M5"
| "BUCKET_SOURCE _ = None"

text \<open>\<open>Coded\<close> are the classes \<^verbatim>\<open>CandleError\<close> and \<^verbatim>\<open>TickError\<close>: code, message, correlation id.\<close>

datatype candle_exn =
    Coded string string string
  | Db_Down string

record ohlcv =
  oh_open :: jsnum
  oh_high :: jsnum
  oh_low :: jsnum
  oh_close :: jsnum
  oh_volumeUsd :: jsnum

record candle_row =
  ca_poolId :: string
  ca_interval :: candle_interval
  ca_periodStart :: int
  ca_ohlcv :: ohlcv

record raw_swap =
  rs_poolId :: string
  rs_createdAt :: int
  rs_sqrtPriceX96 :: string
  rs_amount0 :: string

datatype gap_policy = Strict | Fill

record candle_actor =
  ac_id :: string
  ac_roles :: "string list"

section \<open>The database and the process\<close>

datatype candle_call =
    First_Swap
  | Swaps_In int int
  | Candles_In candle_interval int int
  | Upsert_Candle candle_row
  | Ticks_After string candle_interval "int option" nat
  | Claim string
  | Release string

datatype candle_reply =
    CSwap "raw_swap option"
  | CSwaps "raw_swap list"
  | CCandles "candle_row list"
  | CBool bool
  | CUnit
  | CErr string

type_synonym 'a candle_prog = "(candle_call, candle_reply, candle_exn + 'a) prog"

text \<open>The tables: the swaps, and the candles by their unique key of pool, interval and period.\<close>

record candle_view =
  cv_swaps :: "raw_swap multiset"
  cv_candles :: "string \<times> candle_interval \<times> int \<Rightarrow> ohlcv option"

definition row_key :: "candle_row \<Rightarrow> string \<times> candle_interval \<times> int" where
  "row_key r = (ca_poolId r, ca_interval r, ca_periodStart r)"

fun candle_effect :: "candle_call \<Rightarrow> candle_view \<Rightarrow> candle_view" where
  "candle_effect (Upsert_Candle r) V = V\<lparr>cv_candles := (cv_candles V)(row_key r \<mapsto> ca_ohlcv r)\<rparr>"
| "candle_effect _ V = V"

definition is_row :: "candle_view \<Rightarrow> candle_row \<Rightarrow> bool" where
  "is_row V r = (cv_candles V (row_key r) = Some (ca_ohlcv r))"

text \<open>
  What the queries answer: the rows of the filter in the order asked for (rows that tie come in any order),
  each once; the \<^verbatim>\<open>take\<close> of the paged read cuts the list.
\<close>

fun candle_answers :: "candle_call \<Rightarrow> candle_view \<Rightarrow> candle_reply \<Rightarrow> bool" where
  "candle_answers First_Swap V r =
     ((r = CSwap None \<and> cv_swaps V = {#}) \<or>
      (\<exists>w. r = CSwap (Some w) \<and> w \<in># cv_swaps V \<and> (\<forall>x\<in>#cv_swaps V. rs_createdAt w \<le> rs_createdAt x)))"
| "candle_answers (Swaps_In a b) V r =
     (\<exists>ws. r = CSwaps ws \<and> sorted (map rs_createdAt ws) \<and>
        mset ws = filter_mset (\<lambda>w. a \<le> rs_createdAt w \<and> rs_createdAt w < b) (cv_swaps V))"
| "candle_answers (Candles_In i a b) V r =
     (\<exists>cs. r = CCandles cs \<and> sorted (map ca_periodStart cs) \<and> distinct cs \<and>
        set cs = {c. is_row V c \<and> ca_interval c = i \<and> a \<le> ca_periodStart c \<and> ca_periodStart c < b})"
| "candle_answers (Upsert_Candle c) V r = (r = CUnit)"
| "candle_answers (Ticks_After p i after n) V r =
     (\<exists>cs. r = CCandles (take n cs) \<and> sorted (map ca_periodStart cs) \<and> distinct cs \<and>
        set cs = {c. is_row V c \<and> ca_poolId c = p \<and> ca_interval c = i \<and>
          (case after of None \<Rightarrow> True | Some t \<Rightarrow> t < ca_periodStart c)})"
| "candle_answers (Claim k) V r = True"
| "candle_answers (Release k) V r = True"

text \<open>A database that answers, and one whose calls may fail (a failed write did all of its work or nothing).\<close>

definition candle_ok :: "(candle_call, candle_reply, 's) service \<Rightarrow> ('s \<Rightarrow> candle_view) \<Rightarrow> bool" where
  "candle_ok db view =
     (\<forall>c s r s'. db c s = (r, s') \<longrightarrow>
        (candle_answers c (view s) r \<and> view s' = candle_effect c (view s)) \<or>
        (\<exists>e. r = CErr e \<and> (view s' = view s \<or> view s' = candle_effect c (view s))))"

definition candle_reliable :: "(candle_call, candle_reply, 's) service \<Rightarrow> ('s \<Rightarrow> candle_view) \<Rightarrow> bool" where
  "candle_reliable db view =
     (\<forall>c s r s'. db c s = (r, s') \<longrightarrow> candle_answers c (view s) r \<and> view s' = candle_effect c (view s))"

text \<open>A concrete instance: the swaps, and the candles as an association list of their keys.\<close>

type_synonym mem_candles_state = "raw_swap list \<times> ((string \<times> candle_interval \<times> int) \<times> ohlcv) list"

definition mem_candle_view :: "mem_candles_state \<Rightarrow> candle_view" where
  "mem_candle_view s = \<lparr>cv_swaps = mset (fst s), cv_candles = map_of (snd s)\<rparr>"

definition mem_row :: "((string \<times> candle_interval \<times> int) \<times> ohlcv) list \<Rightarrow> string \<times> candle_interval \<times> int \<Rightarrow> candle_row" where
  "mem_row cs k = (case k of (p, i, u) \<Rightarrow>
     \<lparr>ca_poolId = p, ca_interval = i, ca_periodStart = u, ca_ohlcv = the (map_of cs k)\<rparr>)"

definition mem_rows :: "((string \<times> candle_interval \<times> int) \<times> ohlcv) list \<Rightarrow> candle_row list" where
  "mem_rows cs = sort_key ca_periodStart (map (mem_row cs) (remdups (map fst cs)))"

fun mem_candles :: "(candle_call, candle_reply, mem_candles_state) service" where
  "mem_candles First_Swap (ws, cs) = (CSwap (case sort_key rs_createdAt ws of [] \<Rightarrow> None | w # _ \<Rightarrow> Some w), (ws, cs))"
| "mem_candles (Swaps_In a b) (ws, cs) =
     (CSwaps (sort_key rs_createdAt (filter (\<lambda>w. a \<le> rs_createdAt w \<and> rs_createdAt w < b) ws)), (ws, cs))"
| "mem_candles (Candles_In i a b) (ws, cs) =
     (CCandles (filter (\<lambda>c. ca_interval c = i \<and> a \<le> ca_periodStart c \<and> ca_periodStart c < b) (mem_rows cs)), (ws, cs))"
| "mem_candles (Upsert_Candle c) (ws, cs) = (CUnit, (ws, (row_key c, ca_ohlcv c) # cs))"
| "mem_candles (Ticks_After p i after n) (ws, cs) =
     (CCandles (take n (filter (\<lambda>c. ca_poolId c = p \<and> ca_interval c = i \<and>
        (case after of None \<Rightarrow> True | Some t \<Rightarrow> t < ca_periodStart c)) (mem_rows cs))), (ws, cs))"
| "mem_candles c (ws, cs) = (CUnit, (ws, cs))"

lemma mem_row_key [simp]: "row_key (mem_row cs k) = k"
  by (simp add: mem_row_def row_key_def split: prod.splits)

lemma mem_rows_ordered: "sorted (map ca_periodStart (mem_rows cs))"
  by (simp add: mem_rows_def)

lemma mem_rows_distinct: "distinct (mem_rows cs)"
proof -
  have "inj_on (mem_row cs) A" for A by (metis inj_onI mem_row_key)
  then show ?thesis by (simp add: mem_rows_def distinct_map)
qed

lemma mem_rows_set: "c \<in> set (mem_rows cs) \<longleftrightarrow> is_row (mem_candle_view (ws, cs)) c"
proof
  assume "c \<in> set (mem_rows cs)"
  then obtain k x where "c = mem_row cs k" "(k, x) \<in> set cs" by (auto simp: mem_rows_def)
  moreover then obtain y where "map_of cs k = Some y" by (metis weak_map_of_SomeI)
  ultimately show "is_row (mem_candle_view (ws, cs)) c"
    by (simp add: is_row_def mem_candle_view_def) (simp add: mem_row_def split: prod.splits)
next
  assume r: "is_row (mem_candle_view (ws, cs)) c"
  then have m: "map_of cs (row_key c) = Some (ca_ohlcv c)" by (simp add: is_row_def mem_candle_view_def)
  then have "c = mem_row cs (row_key c)" by (simp add: mem_row_def row_key_def)
  moreover have "row_key c \<in> set (map fst cs)" using map_of_SomeD [OF m] by force
  ultimately show "c \<in> set (mem_rows cs)" by (auto simp: mem_rows_def)
qed

lemma mem_candles_reliable: "candle_reliable mem_candles mem_candle_view"
  unfolding candle_reliable_def
proof (intro allI impI)
  fix c s r s' assume e: "mem_candles c s = (r, s')"
  obtain ws cs where s: "s = (ws, cs)" by (cases s)
  note rows = mem_rows_ordered [of cs] mem_rows_distinct [of cs] mem_rows_set [of _ cs ws]
  show "candle_answers c (mem_candle_view s) r \<and> mem_candle_view s' = candle_effect c (mem_candle_view s)"
  proof (cases c)
    case First_Swap
    have sorted: "sorted (map rs_createdAt (sort_key rs_createdAt ws))" by simp
    have same: "set (sort_key rs_createdAt ws) = set ws" by simp
    show ?thesis
    proof (cases "sort_key rs_createdAt ws")
      case Nil
      then have "ws = []" using same by simp
      then show ?thesis using e s First_Swap by (auto simp: mem_candle_view_def)
    next
      case (Cons w rest)
      then have "w \<in> set ws" "\<forall>x\<in>set ws. rs_createdAt w \<le> rs_createdAt x" using sorted same by auto
      then show ?thesis using e s First_Swap Cons by (auto simp: mem_candle_view_def)
    qed
  next
    case (Swaps_In a b)
    then show ?thesis using e s by (auto simp: mem_candle_view_def)
  next
    case (Candles_In i a b)
    then show ?thesis using e s rows by (auto intro: sorted_filter)
  next
    case (Upsert_Candle x)
    then show ?thesis using e s by (auto simp: mem_candle_view_def)
  next
    case (Ticks_After p i after n)
    let ?cs = "filter (\<lambda>c. ca_poolId c = p \<and> ca_interval c = i \<and>
        (case after of None \<Rightarrow> True | Some t \<Rightarrow> t < ca_periodStart c)) (mem_rows cs)"
    have "sorted (map ca_periodStart ?cs)" "distinct ?cs"
      "set ?cs = {c. is_row (mem_candle_view (ws, cs)) c \<and> ca_poolId c = p \<and> ca_interval c = i \<and>
          (case after of None \<Rightarrow> True | Some t \<Rightarrow> t < ca_periodStart c)}"
      using rows by (auto intro: sorted_filter)
    then show ?thesis using e s Ticks_After by auto
  qed (use e s in auto)
qed

text \<open>The process: the database beside the set of keys in flight.\<close>

fun candle_service ::
  "(candle_call, candle_reply, 's) service \<Rightarrow> (candle_call, candle_reply, 's \<times> string list) service" where
  "candle_service db (Claim k) (s, fl) = (if k \<in> set fl then (CBool False, (s, fl)) else (CBool True, (s, k # fl)))"
| "candle_service db (Release k) (s, fl) = (CUnit, (s, removeAll k fl))"
| "candle_service db c (s, fl) = (case db c s of (r, s') \<Rightarrow> (r, (s', fl)))"

definition db_await :: "candle_call \<Rightarrow> candle_reply candle_prog" where
  "db_await c = Call c (\<lambda>r. Ret (case r of CErr e \<Rightarrow> Inl (Db_Down e) | _ \<Rightarrow> Inr r))"

section \<open>Guards\<close>

definition ALLOWED_ROLES :: "string list" where
  "ALLOWED_ROLES = [''admin'', ''candles:write'']"

definition TICKS_READ_ROLES :: "string list" where
  "TICKS_READ_ROLES = [''admin'', ''candles:read'', ''ticks:read'']"

definition authorize :: "candle_actor option \<Rightarrow> string \<Rightarrow> candle_exn + unit" where
  "authorize actor cid = ensure (case actor of Some a \<Rightarrow> list_ex (\<lambda>r. r \<in> set ALLOWED_ROLES) (ac_roles a) | None \<Rightarrow> False)
     (Coded ''CANDLES_UNAUTHORIZED'' ''Caller is not authorized to process candles'' cid)"

definition authorizeTicks :: "candle_actor option \<Rightarrow> string \<Rightarrow> candle_exn + unit" where
  "authorizeTicks actor cid = ensure (case actor of Some a \<Rightarrow> list_ex (\<lambda>r. r \<in> set TICKS_READ_ROLES) (ac_roles a) | None \<Rightarrow> False)
     (Coded ''TICKS_UNAUTHORIZED'' ''Caller is not authorized to read ticks'' cid)"

definition assertInterval :: "string \<Rightarrow> string \<Rightarrow> candle_exn + candle_interval" where
  "assertInterval name cid =
     (if name = ''1m'' then Inr M1 else if name = ''5m'' then Inr M5
      else if name = ''1h'' then Inr H1 else if name = ''1d'' then Inr D1
      else Inl (Coded ''CANDLES_INVALID_INTERVAL'' (''Unsupported candle interval: '' @ name) cid))"

section \<open>Aggregation of one period\<close>

text \<open>The entry of a pool is rewritten in place; a new pool goes to the end of the map.\<close>

definition oh_join :: "ohlcv \<Rightarrow> ohlcv \<Rightarrow> ohlcv" where
  "oh_join e x = e\<lparr>oh_high := jmax (oh_high e) (oh_high x), oh_low := jmin (oh_low e) (oh_low x),
     oh_close := oh_close x, oh_volumeUsd := jadd (oh_volumeUsd e) (oh_volumeUsd x)\<rparr>"

definition accumulate :: "(string, ohlcv) js_map \<Rightarrow> string \<Rightarrow> ohlcv \<Rightarrow> (string, ohlcv) js_map" where
  "accumulate byPool p x = jm_set byPool p (case jm_get byPool p of None \<Rightarrow> x | Some e \<Rightarrow> oh_join e x)"

definition swap_point :: "raw_swap \<Rightarrow> ohlcv" where
  "swap_point w = (let price = num_of_string (rs_sqrtPriceX96 w) in
     \<lparr>oh_open = price, oh_high = price, oh_low = price, oh_close = price,
      oh_volumeUsd = jabs (num_of_string (rs_amount0 w))\<rparr>)"

text \<open>The gap check: the first step of the window, from its start on, that no present bucket starts.\<close>

function gap_from :: "int \<Rightarrow> int list \<Rightarrow> int \<Rightarrow> int \<Rightarrow> int option" where
  "gap_from step present t windowEnd =
     (if step \<le> 0 \<or> windowEnd \<le> t then None
      else if t \<notin> set present then Some t
      else gap_from step present (t + step) windowEnd)"
  by pat_completeness auto
termination
  by (relation "measure (\<lambda>(step, present, t, windowEnd). nat (windowEnd - t))") auto

declare gap_from.simps [simp del]

definition assertNoGap ::
  "(int \<Rightarrow> string) \<Rightarrow> int list \<Rightarrow> int \<Rightarrow> int \<Rightarrow> candle_interval \<Rightarrow> gap_policy \<Rightarrow> string \<Rightarrow> candle_exn + unit" where
  "assertNoGap iso_of present windowStart windowEnd source policy cid =
     (if policy = Fill then Inr ()
      else case gap_from (INTERVAL_MS source) present windowStart windowEnd of
        None \<Rightarrow> Inr ()
      | Some t \<Rightarrow> Inl (Coded ''CANDLES_DEPENDENCY_UNAVAILABLE''
          (''Candle gap detected at '' @ iso_of t @ ''; refusing to write under strict policy'') cid))"

text \<open>The points of the period, each with its pool, from the finer candles or from the swaps.\<close>

definition period_points ::
  "(int \<Rightarrow> string) \<Rightarrow> candle_interval \<Rightarrow> int \<Rightarrow> gap_policy \<Rightarrow> string \<Rightarrow> (string \<times> ohlcv) list candle_prog" where
  "period_points iso_of interval periodStart policy cid =
     (let periodEnd = periodStart + INTERVAL_MS interval in
      case BUCKET_SOURCE interval of
        Some source \<Rightarrow> prog_then (db_await (Candles_In source periodStart periodEnd)) (\<lambda>r. case r of
            CCandles buckets \<Rightarrow> Ret (bind_result
              (assertNoGap iso_of (map ca_periodStart buckets) periodStart periodEnd source policy cid)
              (\<lambda>_. Inr (map (\<lambda>b. (ca_poolId b, ca_ohlcv b)) buckets)))
          | _ \<Rightarrow> Ret (Inl (Db_Down ''unexpected reply'')))
      | None \<Rightarrow> prog_then (db_await (Swaps_In periodStart periodEnd)) (\<lambda>r. case r of
            CSwaps swaps \<Rightarrow> Ret (Inr (map (\<lambda>w. (rs_poolId w, swap_point w)) swaps))
          | _ \<Rightarrow> Ret (Inl (Db_Down ''unexpected reply''))))"

definition by_pool :: "(string \<times> ohlcv) list \<Rightarrow> (string, ohlcv) js_map" where
  "by_pool points = foldl (\<lambda>m (p, x). accumulate m p x) [] points"

definition aggregatePeriod ::
  "(int \<Rightarrow> string) \<Rightarrow> candle_interval \<Rightarrow> int \<Rightarrow> gap_policy \<Rightarrow> string \<Rightarrow> nat candle_prog" where
  "aggregatePeriod iso_of interval periodStart policy cid =
     prog_then (period_points iso_of interval periodStart policy cid) (\<lambda>points.
       let byPool = by_pool points in
       prog_then (prog_for byPool (\<lambda>(p, x). prog_then
           (db_await (Upsert_Candle \<lparr>ca_poolId = p, ca_interval = interval, ca_periodStart = periodStart, ca_ohlcv = x\<rparr>))
           (\<lambda>_. Ret (Inr ()))))
         (\<lambda>_. Ret (Inr (length byPool))))"

section \<open>Exclusion, one period, all periods\<close>

text \<open>\<^verbatim>\<open>try { m } finally { c }\<close>.\<close>

definition prog_finally :: "('c, 'r, 'a) prog \<Rightarrow> 'c \<Rightarrow> ('c, 'r, 'a) prog" where
  "prog_finally m c = prog_bind m (\<lambda>x. Call c (\<lambda>_. Ret x))"

definition runExclusive :: "string \<Rightarrow> string \<Rightarrow> 'a candle_prog \<Rightarrow> 'a candle_prog" where
  "runExclusive key cid fn = Call (Claim key) (\<lambda>r.
     if r = CBool True then prog_finally fn (Release key)
     else Ret (Inl (Coded ''CANDLES_CONCURRENT_PROCESSING'' (''Concurrent processing for '' @ key @ '' rejected'') cid)))"

definition period_key :: "(int \<Rightarrow> string) \<Rightarrow> candle_interval \<Rightarrow> int \<Rightarrow> string" where
  "period_key iso_of interval t = interval_name interval @ '':'' @ iso_of t"

definition period_floor :: "int \<Rightarrow> int \<Rightarrow> int" where
  "period_floor ms t = t div ms * ms"

definition aggregate ::
  "(int \<Rightarrow> string) \<Rightarrow> int \<Rightarrow> string \<Rightarrow> candle_actor option \<Rightarrow> string \<Rightarrow> gap_policy \<Rightarrow> unit candle_prog" where
  "aggregate iso_of now name actor cid policy =
     (case authorize actor cid of Inl e \<Rightarrow> Ret (Inl e) | Inr _ \<Rightarrow>
      (case assertInterval name cid of Inl e \<Rightarrow> Ret (Inl e) | Inr interval \<Rightarrow>
       (let ms = INTERVAL_MS interval; periodStart = period_floor ms (now - ms) in
        prog_then (runExclusive (period_key iso_of interval periodStart) cid
            (aggregatePeriod iso_of interval periodStart policy cid))
          (\<lambda>written. Ret (Inr ())))))"

function backfill_loop ::
  "(int \<Rightarrow> string) \<Rightarrow> candle_interval \<Rightarrow> gap_policy \<Rightarrow> string \<Rightarrow> int \<Rightarrow> int \<Rightarrow> nat \<Rightarrow> nat candle_prog" where
  "backfill_loop iso_of interval policy cid lastPeriodStart periodStart written =
     (if periodStart < lastPeriodStart
      then prog_then (runExclusive (period_key iso_of interval periodStart) cid
             (aggregatePeriod iso_of interval periodStart policy cid))
           (\<lambda>n. backfill_loop iso_of interval policy cid lastPeriodStart (periodStart + INTERVAL_MS interval) (written + n))
      else Ret (Inr written))"
  by pat_completeness auto
termination
  by (relation "measure (\<lambda>(iso_of, interval, policy, cid, lastPeriodStart, periodStart, written).
      nat (lastPeriodStart - periodStart))") (auto intro: zless_nat_conj [THEN iffD2])

declare backfill_loop.simps [simp del]

definition backfill ::
  "(int \<Rightarrow> string) \<Rightarrow> int \<Rightarrow> string \<Rightarrow> candle_actor option \<Rightarrow> string \<Rightarrow> gap_policy \<Rightarrow> unit candle_prog" where
  "backfill iso_of now name actor cid policy =
     (case authorize actor cid of Inl e \<Rightarrow> Ret (Inl e) | Inr _ \<Rightarrow>
      (case assertInterval name cid of Inl e \<Rightarrow> Ret (Inl e) | Inr interval \<Rightarrow>
       prog_then (db_await First_Swap) (\<lambda>r. case r of
         CSwap (Some firstSwap) \<Rightarrow>
           (let ms = INTERVAL_MS interval in
            prog_then (backfill_loop iso_of interval policy cid (period_floor ms (now - ms))
                (period_floor ms (rs_createdAt firstSwap)) 0)
              (\<lambda>written. Ret (Inr ())))
       | _ \<Rightarrow> Ret (Inr ()))))"

section \<open>The ticks endpoint\<close>

definition TICKS_DEFAULT_LIMIT :: nat where
  "TICKS_DEFAULT_LIMIT = 100"

definition TICKS_MAX_LIMIT :: nat where
  "TICKS_MAX_LIMIT = 1000"

definition resolveLimit :: "jsnum option \<Rightarrow> string \<Rightarrow> candle_exn + nat" where
  "resolveLimit limit cid = (case limit of None \<Rightarrow> Inr TICKS_DEFAULT_LIMIT
   | Some l \<Rightarrow> (if \<not> is_integer l \<or> jlt l (Fin 1) \<or> jlt (Fin (of_nat TICKS_MAX_LIMIT)) l
       then Inl (Coded ''TICKS_INVALID_LIMIT'' ''limit must be an integer between 1 and 1000'' cid)
       else Inr (nat \<lfloor>fin_val l\<rfloor>)))"

text \<open>Dates and cursors as text: \<^verbatim>\<open>toISOString\<close>, \<^verbatim>\<open>new Date(s)\<close>, and \<^verbatim>\<open>Buffer\<close> to and from \<^verbatim>\<open>base64url\<close>.\<close>

record date_text =
  dt_iso :: "int \<Rightarrow> string"
  dt_parse :: "string \<Rightarrow> int option"
  dt_base64url :: "string \<Rightarrow> string"
  dt_unbase64url :: "string \<Rightarrow> string"

definition encodeCursor :: "date_text \<Rightarrow> int \<Rightarrow> string" where
  "encodeCursor D t = dt_base64url D (dt_iso D t)"

definition decodeCursor :: "date_text \<Rightarrow> string option \<Rightarrow> string \<Rightarrow> candle_exn + int option" where
  "decodeCursor D cursor cid = (case cursor of None \<Rightarrow> Inr None
   | Some c \<Rightarrow> (if c = [] then Inr None else case dt_parse D (dt_unbase64url D c) of
       Some t \<Rightarrow> Inr (Some t)
     | None \<Rightarrow> Inl (Coded ''TICKS_INVALID_CURSOR'' ''cursor is not a valid pagination token'' cid)))"

record ticks_query =
  tq_poolId :: string
  tq_interval :: "string option"
  tq_limit :: "jsnum option"
  tq_cursor :: "string option"

record tick_dto =
  td_poolId :: string
  td_interval :: candle_interval
  td_periodStart :: string
  td_ohlcv :: ohlcv

record ticks_page =
  tp_data :: "tick_dto list"
  tp_nextCursor :: "string option"
  tp_correlationId :: string

definition tick_of :: "date_text \<Rightarrow> candle_row \<Rightarrow> tick_dto" where
  "tick_of D r = \<lparr>td_poolId = ca_poolId r, td_interval = ca_interval r, td_periodStart = dt_iso D (ca_periodStart r),
     td_ohlcv = ca_ohlcv r\<rparr>"

definition ticks_page_of :: "date_text \<Rightarrow> nat \<Rightarrow> string \<Rightarrow> candle_row list \<Rightarrow> ticks_page" where
  "ticks_page_of D limit cid rows =
     (let hasMore = (limit < length rows); page = (if hasMore then take limit rows else rows) in
      \<lparr>tp_data = map (tick_of D) page,
       tp_nextCursor = (if hasMore \<and> page \<noteq> [] then Some (encodeCursor D (ca_periodStart (last page))) else None),
       tp_correlationId = cid\<rparr>)"

definition getTicks :: "date_text \<Rightarrow> ticks_query \<Rightarrow> candle_actor option \<Rightarrow> string \<Rightarrow> ticks_page candle_prog" where
  "getTicks D q actor cid =
     (case authorizeTicks actor cid of Inl e \<Rightarrow> Ret (Inl e) | Inr _ \<Rightarrow>
      (case assertInterval (case tq_interval q of Some i \<Rightarrow> i | None \<Rightarrow> ''1m'') cid of Inl e \<Rightarrow> Ret (Inl e) | Inr interval \<Rightarrow>
       (case resolveLimit (tq_limit q) cid of Inl e \<Rightarrow> Ret (Inl e) | Inr limit \<Rightarrow>
        (case decodeCursor D (tq_cursor q) cid of Inl e \<Rightarrow> Ret (Inl e) | Inr cursorStart \<Rightarrow>
           Call (Ticks_After (tq_poolId q) interval cursorStart (limit + 1)) (\<lambda>r. Ret (case r of
               CCandles rows \<Rightarrow> Inr (ticks_page_of D limit cid rows)
             | _ \<Rightarrow> Inl (Coded ''TICKS_DEPENDENCY_UNAVAILABLE''
                 ''Tick source is unavailable; refusing to serve a partial page'' cid)))))))"

end
