(* ===== verification/Candle_Laws.thy ===== *)
theory Candle_Laws
  imports Candles
begin

text \<open>
  What the candles of theory Candles are: a candle is the open, high, low, close and volume of its points, an
  hour of five-minute candles has the prices of the hour of swaps, the gap check looks at all pools together,
  the catch-up loop visits every period but the last, no period is processed twice at a time, and following
  the cursors of the ticks endpoint reads every candle once.
\<close>

section \<open>The candle of a list of points\<close>

lemma jmax_assoc: "jmax (jmax x y) z = jmax x (jmax y z)"
  by (cases x; cases y; cases z) (auto simp: jmax_def)

lemma jmin_assoc: "jmin (jmin x y) z = jmin x (jmin y z)"
  by (cases x; cases y; cases z) (auto simp: jmin_def)

text \<open>The specification: first open, last close, extreme prices, sum of the volumes in order.\<close>

definition candle_spec :: "ohlcv list \<Rightarrow> ohlcv" where
  "candle_spec xs =
     \<lparr>oh_open = oh_open (hd xs), oh_high = foldl jmax (oh_high (hd xs)) (map oh_high (tl xs)),
      oh_low = foldl jmin (oh_low (hd xs)) (map oh_low (tl xs)), oh_close = oh_close (last xs),
      oh_volumeUsd = foldl jadd (oh_volumeUsd (hd xs)) (map oh_volumeUsd (tl xs))\<rparr>"

lemma candle_spec_single [simp]: "candle_spec [x] = x"
  by (simp add: candle_spec_def)

lemma candle_spec_snoc: "xs \<noteq> [] \<Longrightarrow> candle_spec (xs @ [x]) = oh_join (candle_spec xs) x"
  by (cases xs) (auto simp: candle_spec_def oh_join_def)

definition points_of :: "string \<Rightarrow> (string \<times> ohlcv) list \<Rightarrow> ohlcv list" where
  "points_of p points = map snd (filter (\<lambda>q. fst q = p) points)"

lemma points_of_simps [simp]:
  "points_of p [] = []"
  "points_of p (xs @ ys) = points_of p xs @ points_of p ys"
  "points_of p [(q, x)] = (if q = p then [x] else [])"
  by (simp_all add: points_of_def)

lemma points_of_empty: "points_of p points = [] \<longleftrightarrow> p \<notin> fst ` set points"
  by (auto simp: points_of_def filter_empty_conv)

lemma by_pool_snoc: "by_pool (points @ [(p, x)]) = accumulate (by_pool points) p x"
  by (simp add: by_pool_def)

lemma by_pool_get:
  "jm_get (by_pool points) p = (if points_of p points = [] then None else Some (candle_spec (points_of p points)))"
proof (induction points rule: rev_induct)
  case Nil
  then show ?case by (simp add: by_pool_def)
next
  case (snoc z points)
  obtain q x where z: "z = (q, x)" by (cases z)
  show ?case using snoc
    by (auto simp: z by_pool_snoc accumulate_def candle_spec_snoc)
qed

lemma by_pool_distinct: "distinct (map fst (by_pool points))"
proof (induction points rule: rev_induct)
  case (snoc z points)
  then show ?case by (cases z) (simp add: by_pool_snoc accumulate_def jm_set_distinct)
qed (simp add: by_pool_def)

lemma by_pool_keys: "fst ` set (by_pool points) = fst ` set points"
proof (induction points rule: rev_induct)
  case (snoc z points)
  then show ?case by (cases z) (simp add: by_pool_snoc accumulate_def jm_set_keys)
qed (simp add: by_pool_def)

lemma by_pool_length: "length (by_pool points) = card (fst ` set points)"
  using distinct_card [OF by_pool_distinct [of points]] by (simp add: by_pool_keys)

section \<open>One period against a database that answers\<close>

lemma reliable_reply:
  "candle_reliable db view \<Longrightarrow> db c s = (r, s') \<Longrightarrow> candle_answers c (view s) r \<and> view s' = candle_effect c (view s)"
  unfolding candle_reliable_def by blast

definition upsert_map ::
  "candle_interval \<Rightarrow> int \<Rightarrow> (string, ohlcv) js_map \<Rightarrow> (string \<times> candle_interval \<times> int \<Rightarrow> ohlcv option) \<Rightarrow>
   string \<times> candle_interval \<times> int \<Rightarrow> ohlcv option" where
  "upsert_map i t m f k = (if \<exists>p x. k = (p, i, t) \<and> jm_get m p = Some x then jm_get m (fst k) else f k)"

definition upsert_all :: "candle_interval \<Rightarrow> int \<Rightarrow> (string, ohlcv) js_map \<Rightarrow> candle_view \<Rightarrow> candle_view" where
  "upsert_all i t m V = V\<lparr>cv_candles := upsert_map i t m (cv_candles V)\<rparr>"

lemma upsert_all_Nil: "upsert_all i t [] V = V"
proof -
  have "upsert_map i t [] (cv_candles V) = cv_candles V" by (rule ext) (simp add: upsert_map_def)
  then show ?thesis by (simp add: upsert_all_def)
qed

lemma upsert_all_Cons:
  assumes "jm_get m p = None"
  shows "upsert_all i t m (V\<lparr>cv_candles := (cv_candles V)((p, i, t) \<mapsto> x)\<rparr>) = upsert_all i t ((p, x) # m) V"
proof -
  have "upsert_map i t m ((cv_candles V)((p, i, t) \<mapsto> x)) = upsert_map i t ((p, x) # m) (cv_candles V)"
    by (rule ext) (use assms in \<open>auto simp: upsert_map_def jm_get_def\<close>)
  then show ?thesis by (simp add: upsert_all_def)
qed

lemma run_upserts:
  assumes "candle_reliable db view" and "distinct (map fst m)"
  shows "\<exists>s'. run (candle_service db) (prog_for m (\<lambda>(p, x). prog_then
           (db_await (Upsert_Candle \<lparr>ca_poolId = p, ca_interval = i, ca_periodStart = t, ca_ohlcv = x\<rparr>))
           (\<lambda>_. Ret (Inr ())))) (s, fl) = (Inr (), (s', fl)) \<and>
         view s' = upsert_all i t m (view s)"
  using assms(2)
proof (induction m arbitrary: s)
  case Nil
  then show ?case by (simp add: upsert_all_Nil)
next
  case (Cons e m)
  obtain p x where e: "e = (p, x)" by (cases e)
  let ?c = "Upsert_Candle \<lparr>ca_poolId = p, ca_interval = i, ca_periodStart = t, ca_ohlcv = x\<rparr>"
  obtain r s1 where d: "db ?c s = (r, s1)" by (rule prod.exhaust)
  have v: "r = CUnit" "view s1 = candle_effect ?c (view s)" using reliable_reply [OF assms(1) d] by simp_all
  obtain s' where run: "run (candle_service db) (prog_for m (\<lambda>(p, x). prog_then
           (db_await (Upsert_Candle \<lparr>ca_poolId = p, ca_interval = i, ca_periodStart = t, ca_ohlcv = x\<rparr>))
           (\<lambda>_. Ret (Inr ())))) (s1, fl) = (Inr (), (s', fl))" and v': "view s' = upsert_all i t m (view s1)"
    using Cons by auto
  have "p \<notin> fst ` set m" using Cons.prems e by simp
  then have "jm_get m p = None" by (simp add: jm_get_def map_of_eq_None_iff)
  then have "view s' = upsert_all i t (e # m) (view s)"
    unfolding v' v(2) e by (simp add: row_key_def upsert_all_Cons)
  then show ?case using run d v(1) by (simp add: e db_await_def)
qed

lemma run_aggregate:
  assumes "candle_reliable db view"
    and "run (candle_service db) (period_points iso_of i t policy cid) (s, fl) = (Inr points, (s1, fl))"
    and "view s1 = view s"
  shows "\<exists>s'. run (candle_service db) (aggregatePeriod iso_of i t policy cid) (s, fl) =
      (Inr (card (fst ` set points)), (s', fl)) \<and> view s' = upsert_all i t (by_pool points) (view s)"
proof -
  obtain s' where s': "run (candle_service db) (prog_for (by_pool points) (\<lambda>(p, x). prog_then
           (db_await (Upsert_Candle \<lparr>ca_poolId = p, ca_interval = i, ca_periodStart = t, ca_ohlcv = x\<rparr>))
           (\<lambda>_. Ret (Inr ())))) (s1, fl) = (Inr (), (s', fl))" "view s' = upsert_all i t (by_pool points) (view s1)"
    using run_upserts [OF assms(1) by_pool_distinct] by blast
  then show ?thesis using assms(2,3) by (simp add: aggregatePeriod_def run_then Let_def by_pool_length)
qed

lemma upsert_all_by_pool:
  "cv_candles (upsert_all i t (by_pool points) V) (p, j, u) =
     (if j = i \<and> u = t \<and> p \<in> fst ` set points then Some (candle_spec (points_of p points)) else cv_candles V (p, j, u))"
  using points_of_empty [of p points]
  by (auto simp: upsert_all_def upsert_map_def by_pool_get)

lemma upsert_all_swaps [simp]: "cv_swaps (upsert_all i t m V) = cv_swaps V"
  by (simp add: upsert_all_def)

definition swaps_between :: "int \<Rightarrow> int \<Rightarrow> candle_view \<Rightarrow> raw_swap multiset" where
  "swaps_between a b V = filter_mset (\<lambda>w. a \<le> rs_createdAt w \<and> rs_createdAt w < b) (cv_swaps V)"

lemma run_swap_points:
  assumes "candle_reliable db view" and "BUCKET_SOURCE i = None"
  shows "\<exists>ws s'. sorted (map rs_createdAt ws) \<and> mset ws = swaps_between t (t + INTERVAL_MS i) (view s) \<and>
     run (candle_service db) (period_points iso_of i t policy cid) (s, fl) =
       (Inr (map (\<lambda>w. (rs_poolId w, swap_point w)) ws), (s', fl)) \<and> view s' = view s"
proof -
  obtain r s' where d: "db (Swaps_In t (t + INTERVAL_MS i)) s = (r, s')" by (rule prod.exhaust)
  obtain ws where ws: "r = CSwaps ws" "sorted (map rs_createdAt ws)"
      "mset ws = swaps_between t (t + INTERVAL_MS i) (view s)" "view s' = view s"
    using reliable_reply [OF assms(1) d] by (auto simp: swaps_between_def)
  then show ?thesis using d assms(2)
    by (intro exI [of _ ws] exI [of _ s']) (simp add: period_points_def db_await_def)
qed

lemma points_of_swaps:
  "points_of p (map (\<lambda>w. (rs_poolId w, swap_point w)) ws) = map swap_point (filter (\<lambda>w. rs_poolId w = p) ws)"
  by (simp add: points_of_def filter_map comp_def)

lemma run_from_swaps:
  assumes "candle_reliable db view" and "BUCKET_SOURCE i = None"
  shows "\<exists>ws s'. sorted (map rs_createdAt ws) \<and> mset ws = swaps_between t (t + INTERVAL_MS i) (view s) \<and>
     run (candle_service db) (aggregatePeriod iso_of i t policy cid) (s, fl) =
       (Inr (card (rs_poolId ` set ws)), (s', fl)) \<and>
     cv_swaps (view s') = cv_swaps (view s) \<and>
     (\<forall>p j u. cv_candles (view s') (p, j, u) =
        (if j = i \<and> u = t \<and> p \<in> rs_poolId ` set ws
         then Some (candle_spec (map swap_point (filter (\<lambda>w. rs_poolId w = p) ws)))
         else cv_candles (view s) (p, j, u)))"
proof -
  obtain ws s1 where ws: "sorted (map rs_createdAt ws)" "mset ws = swaps_between t (t + INTERVAL_MS i) (view s)"
    and run: "run (candle_service db) (period_points iso_of i t policy cid) (s, fl) =
      (Inr (map (\<lambda>w. (rs_poolId w, swap_point w)) ws), (s1, fl))" and v: "view s1 = view s"
    using run_swap_points [OF assms] by blast
  have pools: "fst ` set (map (\<lambda>w. (rs_poolId w, swap_point w)) ws) = rs_poolId ` set ws" by force
  obtain s' where "run (candle_service db) (aggregatePeriod iso_of i t policy cid) (s, fl) =
      (Inr (card (rs_poolId ` set ws)), (s', fl))"
    and "view s' = upsert_all i t (by_pool (map (\<lambda>w. (rs_poolId w, swap_point w)) ws)) (view s)"
    using run_aggregate [OF assms(1) run v] unfolding pools by blast
  then show ?thesis using ws
    by (intro exI [of _ ws] exI [of _ s']) (simp only: upsert_all_by_pool pools points_of_swaps upsert_all_swaps simp_thms)
qed

text \<open>One period from swaps, with a database that answers: some order of the period's swaps by time gives every
  pool that traded in it exactly the candle of its swaps, counts those pools, and changes nothing else.\<close>

theorem aggregate_from_swaps:
  assumes "candle_reliable db view" and "BUCKET_SOURCE i = None"
  shows "\<exists>ws s'. sorted (map rs_createdAt ws) \<and> mset ws = swaps_between t (t + INTERVAL_MS i) (view s) \<and>
     run (candle_service db) (aggregatePeriod iso_of i t policy cid) (s, fl) =
       (Inr (card (rs_poolId ` set ws)), (s', fl)) \<and>
     cv_swaps (view s') = cv_swaps (view s) \<and>
     (\<forall>p j u. cv_candles (view s') (p, j, u) =
        (if j = i \<and> u = t \<and> p \<in> rs_poolId ` set ws
         then Some (candle_spec (map swap_point (filter (\<lambda>w. rs_poolId w = p) ws)))
         else cv_candles (view s) (p, j, u)))"
  by (rule run_from_swaps [OF assms])

section \<open>An hour from its five-minute candles\<close>

lemma gap_from_None:
  "0 < step \<Longrightarrow> gap_from step present t e = None \<longleftrightarrow> (\<forall>k. t + int k * step < e \<longrightarrow> t + int k * step \<in> set present)"
proof (induction step present t e rule: gap_from.induct)
  case (1 step present t e)
  show ?case
  proof (cases "t < e \<and> t \<in> set present")
    case True
    have "(\<forall>k. t + int k * step < e \<longrightarrow> t + int k * step \<in> set present) \<longleftrightarrow>
        (\<forall>k. t + int (Suc k) * step < e \<longrightarrow> t + int (Suc k) * step \<in> set present)"
      using True by (metis mult_zero_left add_0_right of_nat_0 not0_implies_Suc)
    then show ?thesis using 1 True by (subst gap_from.simps) (simp add: algebra_simps)
  next
    case False
    have "t < e \<Longrightarrow> \<exists>k. t + int k * step < e \<and> t + int k * step \<notin> set present"
      using False by (intro exI [of _ 0]) simp
    moreover have "e \<le> t \<Longrightarrow> \<not> t + int k * step < e" for k
      using 1(2) by (smt (verit) mult_nonneg_nonneg of_nat_0_le_iff)
    ultimately show ?thesis using 1(2) False by (subst gap_from.simps) auto
  qed
qed

text \<open>The starts of the five-minute candles of any pool.\<close>

definition bucket_starts :: "candle_view \<Rightarrow> int set" where
  "bucket_starts V = {u. \<exists>p. cv_candles V (p, M5, u) \<noteq> None}"

definition hour_rows :: "candle_view \<Rightarrow> int \<Rightarrow> candle_row set" where
  "hour_rows V t = {c. is_row V c \<and> ca_interval c = M5 \<and> t \<le> ca_periodStart c \<and> ca_periodStart c < t + 3600000}"

definition hour_complete :: "candle_view \<Rightarrow> int \<Rightarrow> bool" where
  "hour_complete V t = (\<forall>k<12. t + int k * 300000 \<in> bucket_starts V)"

lemma hour_rows_starts: "u \<in> ca_periodStart ` hour_rows V t \<longleftrightarrow> u \<in> bucket_starts V \<and> t \<le> u \<and> u < t + 3600000"
proof
  assume "u \<in> bucket_starts V \<and> t \<le> u \<and> u < t + 3600000"
  then obtain p x where "cv_candles V (p, M5, u) = Some x" "t \<le> u \<and> u < t + 3600000"
    by (auto simp: bucket_starts_def)
  then show "u \<in> ca_periodStart ` hour_rows V t"
    by (intro image_eqI [of _ _ "\<lparr>ca_poolId = p, ca_interval = M5, ca_periodStart = u, ca_ohlcv = x\<rparr>"])
      (simp_all add: hour_rows_def is_row_def row_key_def)
next
  assume "u \<in> ca_periodStart ` hour_rows V t"
  then obtain c where c: "c \<in> hour_rows V t" "u = ca_periodStart c" by blast
  then have "cv_candles V (ca_poolId c, M5, u) = Some (ca_ohlcv c)" "t \<le> u" "u < t + 3600000"
    by (auto simp: hour_rows_def is_row_def row_key_def)
  then show "u \<in> bucket_starts V \<and> t \<le> u \<and> u < t + 3600000"
    unfolding bucket_starts_def by blast
qed

lemma hour_rows_pools: "p \<in> ca_poolId ` hour_rows V t \<longleftrightarrow> (\<exists>u. cv_candles V (p, M5, u) \<noteq> None \<and> t \<le> u \<and> u < t + 3600000)"
proof
  assume "\<exists>u. cv_candles V (p, M5, u) \<noteq> None \<and> t \<le> u \<and> u < t + 3600000"
  then obtain u x where "cv_candles V (p, M5, u) = Some x" "t \<le> u \<and> u < t + 3600000" by auto
  then show "p \<in> ca_poolId ` hour_rows V t"
    by (intro image_eqI [of _ _ "\<lparr>ca_poolId = p, ca_interval = M5, ca_periodStart = u, ca_ohlcv = x\<rparr>"])
      (simp_all add: hour_rows_def is_row_def row_key_def)
next
  assume "p \<in> ca_poolId ` hour_rows V t"
  then obtain c where c: "c \<in> hour_rows V t" "p = ca_poolId c" by blast
  then have "cv_candles V (p, M5, ca_periodStart c) = Some (ca_ohlcv c)" "t \<le> ca_periodStart c"
      "ca_periodStart c < t + 3600000"
    by (auto simp: hour_rows_def is_row_def row_key_def)
  then show "\<exists>u. cv_candles V (p, M5, u) \<noteq> None \<and> t \<le> u \<and> u < t + 3600000" by blast
qed

lemma hour_gap:
  assumes "set cs = hour_rows V t"
  shows "gap_from 300000 (map ca_periodStart cs) t (t + 3600000) = None \<longleftrightarrow> hour_complete V t"
proof -
  have "t + int k * 300000 < t + 3600000 \<longleftrightarrow> k < 12" for k by linarith
  then show ?thesis
    using hour_rows_starts [of _ V t] by (auto simp: gap_from_None assms hour_complete_def)
qed

lemma run_hour_points:
  assumes "candle_reliable db view"
  shows "\<exists>cs s'. sorted (map ca_periodStart cs) \<and> distinct cs \<and> set cs = hour_rows (view s) t \<and> view s' = view s \<and>
     (if policy = Fill \<or> hour_complete (view s) t
      then run (candle_service db) (period_points iso_of H1 t policy cid) (s, fl) =
        (Inr (map (\<lambda>b. (ca_poolId b, ca_ohlcv b)) cs), (s', fl))
      else \<exists>msg. run (candle_service db) (period_points iso_of H1 t policy cid) (s, fl) =
        (Inl (Coded ''CANDLES_DEPENDENCY_UNAVAILABLE'' msg cid), (s', fl)))"
proof -
  obtain r s' where d: "db (Candles_In M5 t (t + 3600000)) s = (r, s')" by (rule prod.exhaust)
  obtain cs where cs: "r = CCandles cs" "sorted (map ca_periodStart cs)" "distinct cs"
      "set cs = hour_rows (view s) t" "view s' = view s"
    using reliable_reply [OF assms d] by (auto simp: hour_rows_def)
  then show ?thesis using d hour_gap [OF cs(4)]
    by (intro exI [of _ cs] exI [of _ s'])
      (auto simp: period_points_def db_await_def assertNoGap_def Let_def split: option.splits)
qed

text \<open>The gap check of the strict policy looks at all pools together: an hour is refused, and nothing written,
  exactly if at some five-minute step no pool at all has a candle; otherwise every pool with any five-minute
  candle in the hour gets an hour candle, whatever it is missing itself.\<close>

theorem strict_gap_check_pools:
  assumes "candle_reliable db view"
  shows "\<exists>s'. if hour_complete (view s) t
     then run (candle_service db) (aggregatePeriod iso_of H1 t Strict cid) (s, fl) =
         (Inr (card {p. \<exists>u. cv_candles (view s) (p, M5, u) \<noteq> None \<and> t \<le> u \<and> u < t + 3600000}), (s', fl)) \<and>
       (\<forall>p u. cv_candles (view s) (p, M5, u) \<noteq> None \<and> t \<le> u \<and> u < t + 3600000 \<longrightarrow>
          cv_candles (view s') (p, H1, t) \<noteq> None)
     else (\<exists>msg. run (candle_service db) (aggregatePeriod iso_of H1 t Strict cid) (s, fl) =
         (Inl (Coded ''CANDLES_DEPENDENCY_UNAVAILABLE'' msg cid), (s', fl))) \<and> view s' = view s"
proof -
  obtain cs s1 where cs: "set cs = hour_rows (view s) t" and v: "view s1 = view s"
    and run: "if hour_complete (view s) t
      then run (candle_service db) (period_points iso_of H1 t Strict cid) (s, fl) =
        (Inr (map (\<lambda>b. (ca_poolId b, ca_ohlcv b)) cs), (s1, fl))
      else \<exists>msg. run (candle_service db) (period_points iso_of H1 t Strict cid) (s, fl) =
        (Inl (Coded ''CANDLES_DEPENDENCY_UNAVAILABLE'' msg cid), (s1, fl))"
    using run_hour_points [OF assms, of s t Strict iso_of cid fl] by auto
  let ?pts = "map (\<lambda>b. (ca_poolId b, ca_ohlcv b)) cs"
  have pools: "fst ` set ?pts = {p. \<exists>u. cv_candles (view s) (p, M5, u) \<noteq> None \<and> t \<le> u \<and> u < t + 3600000}"
    using hour_rows_pools [of _ "view s" t] unfolding cs [symmetric] by (simp add: image_image set_eq_iff)
  show ?thesis
  proof (cases "hour_complete (view s) t")
    case True
    then have "run (candle_service db) (period_points iso_of H1 t Strict cid) (s, fl) = (Inr ?pts, (s1, fl))"
      using run by simp
    from run_aggregate [OF assms this v] obtain s' where
      s': "run (candle_service db) (aggregatePeriod iso_of H1 t Strict cid) (s, fl) =
        (Inr (card (fst ` set ?pts)), (s', fl))" "view s' = upsert_all H1 t (by_pool ?pts) (view s)"
      by blast
    have "cv_candles (view s') (p, H1, t) \<noteq> None"
      if "cv_candles (view s) (p, M5, u) \<noteq> None \<and> t \<le> u \<and> u < t + 3600000" for p u
    proof -
      have "p \<in> fst ` set ?pts" unfolding pools using that by blast
      then show ?thesis unfolding s'(2) upsert_all_by_pool by simp
    qed
    then show ?thesis using s'(1) True unfolding pools by (intro exI [of _ s']) auto
  next
    case False
    then show ?thesis using run v
      by (intro exI [of _ s1]) (auto simp: aggregatePeriod_def run_then)
  qed
qed

text \<open>Open, high, low and close; the volume is a rounded sum, so its value depends on the grouping.\<close>

definition prices :: "ohlcv \<Rightarrow> jsnum \<times> jsnum \<times> jsnum \<times> jsnum" where
  "prices x = (oh_open x, oh_high x, oh_low x, oh_close x)"

lemma foldl_jmax: "foldl jmax (jmax a b) xs = jmax a (foldl jmax b xs)"
  by (induction xs arbitrary: b) (simp_all add: jmax_assoc)

lemma foldl_jmin: "foldl jmin (jmin a b) xs = jmin a (foldl jmin b xs)"
  by (induction xs arbitrary: b) (simp_all add: jmin_assoc)

lemma prices_append:
  assumes "xs \<noteq> []" and "ys \<noteq> []"
  shows "prices (candle_spec (xs @ ys)) = prices (oh_join (candle_spec xs) (candle_spec ys))"
proof -
  obtain x xr y yr where "xs = x # xr" "ys = y # yr" using assms by (meson neq_Nil_conv)
  then show ?thesis by (simp add: prices_def candle_spec_def oh_join_def foldl_jmax foldl_jmin)
qed

lemma prices_join: "prices a = prices a' \<Longrightarrow> prices b = prices b' \<Longrightarrow> prices (oh_join a b) = prices (oh_join a' b')"
  by (simp add: prices_def oh_join_def)

lemma prices_concat:
  "xss \<noteq> [] \<Longrightarrow> (\<forall>xs\<in>set xss. xs \<noteq> []) \<Longrightarrow> prices (candle_spec (map candle_spec xss)) = prices (candle_spec (concat xss))"
proof (induction xss rule: rev_induct)
  case (snoc ys xss)
  show ?case
  proof (cases "xss = []")
    case False
    then have ne: "concat xss \<noteq> []" "ys \<noteq> []" using snoc.prems by (auto simp: neq_Nil_conv)
    have "prices (candle_spec (map candle_spec xss)) = prices (candle_spec (concat xss))"
      using snoc False by simp
    then have "prices (oh_join (candle_spec (map candle_spec xss)) (candle_spec ys)) =
        prices (oh_join (candle_spec (concat xss)) (candle_spec ys))" by (rule prices_join) simp
    then show ?thesis using False prices_append [OF ne] by (simp add: candle_spec_snoc)
  qed simp
qed simp

lemma sorted_split:
  fixes c :: int
  shows "sorted (map f ws) \<Longrightarrow> filter (\<lambda>w. f w < c) ws @ filter (\<lambda>w. c \<le> f w) ws = ws"
proof (induction ws)
  case (Cons w ws)
  show ?case
  proof (cases "f w < c")
    case False
    then have "\<forall>x\<in>set ws. c \<le> f x" using Cons.prems by auto
    then have "filter (\<lambda>w. f w < c) ws = []" "filter (\<lambda>w. c \<le> f w) ws = ws"
      by (auto simp: filter_empty_conv filter_id_conv linorder_not_less)
    then show ?thesis using False by simp
  qed (use Cons in simp)
qed simp

definition bucket :: "int \<Rightarrow> nat \<Rightarrow> raw_swap list \<Rightarrow> raw_swap list" where
  "bucket t k ws = filter (\<lambda>w. t + int k * 300000 \<le> rs_createdAt w \<and> rs_createdAt w < t + int (Suc k) * 300000) ws"

lemma concat_buckets:
  "sorted (map rs_createdAt ws) \<Longrightarrow> (\<forall>w\<in>set ws. t \<le> rs_createdAt w \<and> rs_createdAt w < t + int n * 300000) \<Longrightarrow>
   concat (map (\<lambda>k. bucket t k ws) [0..<n]) = ws"
proof (induction n arbitrary: ws)
  case 0
  then show ?case by (cases ws) auto
next
  case (Suc n)
  let ?c = "t + int n * 300000"
  let ?lo = "filter (\<lambda>w. rs_createdAt w < ?c) ws"
  have "bucket t n ws = filter (\<lambda>w. ?c \<le> rs_createdAt w) ws"
    unfolding bucket_def by (rule filter_cong) (use Suc.prems(2) in auto)
  moreover have "bucket t k ws = bucket t k ?lo" if "k < n" for k
  proof -
    have "t + int (Suc k) * 300000 \<le> ?c" using that by simp
    then show ?thesis unfolding bucket_def filter_filter by (intro filter_cong) auto
  qed
  then have "concat (map (\<lambda>k. bucket t k ws) [0..<n]) = concat (map (\<lambda>k. bucket t k ?lo) [0..<n])"
    by (intro arg_cong [of _ _ concat] map_cong) auto
  moreover have "concat (map (\<lambda>k. bucket t k ?lo) [0..<n]) = ?lo"
    by (rule Suc.IH) (use Suc.prems in \<open>auto intro: sorted_filter\<close>)
  ultimately show ?case using sorted_split [OF Suc.prems(1), of ?c] by simp
qed

text \<open>The five-minute series of an hour is what aggregation makes of the hour's swaps \<open>ws\<close>.\<close>

definition pool_points :: "string \<Rightarrow> raw_swap list \<Rightarrow> ohlcv list" where
  "pool_points p ws = map swap_point (filter (\<lambda>w. rs_poolId w = p) ws)"

definition five_minute_series :: "candle_view \<Rightarrow> int \<Rightarrow> raw_swap list \<Rightarrow> bool" where
  "five_minute_series V t ws =
     ((\<forall>p. \<forall>k<12. cv_candles V (p, M5, t + int k * 300000) =
         (let xs = pool_points p (bucket t k ws) in if xs = [] then None else Some (candle_spec xs))) \<and>
      (\<forall>p u. t \<le> u \<and> u < t + 3600000 \<and> cv_candles V (p, M5, u) \<noteq> None \<longrightarrow> (\<exists>k<12. u = t + int k * 300000)))"

definition series_row :: "string \<Rightarrow> int \<Rightarrow> raw_swap list \<Rightarrow> nat \<Rightarrow> candle_row" where
  "series_row p t ws k = \<lparr>ca_poolId = p, ca_interval = M5, ca_periodStart = t + int k * 300000,
     ca_ohlcv = candle_spec (pool_points p (bucket t k ws))\<rparr>"

lemma series_rows:
  assumes "five_minute_series V t ws"
  shows "{c \<in> hour_rows V t. ca_poolId c = p} = series_row p t ws ` {k. k < 12 \<and> pool_points p (bucket t k ws) \<noteq> []}"
proof (intro set_eqI iffI)
  fix c assume c: "c \<in> {c \<in> hour_rows V t. ca_poolId c = p}"
  then have row: "cv_candles V (p, M5, ca_periodStart c) = Some (ca_ohlcv c)" "ca_interval c = M5" "ca_poolId c = p"
      "t \<le> ca_periodStart c" "ca_periodStart c < t + 3600000"
    by (auto simp: hour_rows_def is_row_def row_key_def)
  then obtain k where k: "k < 12" "ca_periodStart c = t + int k * 300000"
    using assms unfolding five_minute_series_def by blast
  then have "(let xs = pool_points p (bucket t k ws) in if xs = [] then None else Some (candle_spec xs)) = Some (ca_ohlcv c)"
    using assms row(1) unfolding five_minute_series_def by metis
  then have "pool_points p (bucket t k ws) \<noteq> []" "c = series_row p t ws k"
    using row k by (auto simp: series_row_def Let_def split: if_splits)
  then show "c \<in> series_row p t ws ` {k. k < 12 \<and> pool_points p (bucket t k ws) \<noteq> []}" using k by blast
next
  fix c assume "c \<in> series_row p t ws ` {k. k < 12 \<and> pool_points p (bucket t k ws) \<noteq> []}"
  then obtain k where k: "k < 12" "pool_points p (bucket t k ws) \<noteq> []" "c = series_row p t ws k" by blast
  then have "cv_candles V (p, M5, t + int k * 300000) = Some (candle_spec (pool_points p (bucket t k ws)))"
    using assms unfolding five_minute_series_def by (simp add: Let_def)
  then show "c \<in> {c \<in> hour_rows V t. ca_poolId c = p}"
    using k by (simp add: hour_rows_def is_row_def row_key_def series_row_def)
qed

lemma series_points:
  assumes "five_minute_series V t ws" and "sorted (map ca_periodStart cs)" and "distinct cs" and "set cs = hour_rows V t"
  shows "points_of p (map (\<lambda>b. (ca_poolId b, ca_ohlcv b)) cs) =
    map candle_spec (filter (\<lambda>xs. xs \<noteq> []) (map (\<lambda>k. pool_points p (bucket t k ws)) [0..<12]))"
proof -
  let ?ks = "filter (\<lambda>k. pool_points p (bucket t k ws) \<noteq> []) [0..<12]"
  let ?cs = "filter (\<lambda>c. ca_poolId c = p) cs"
  have starts: "map ca_periodStart (map (series_row p t ws) ?ks) = map (\<lambda>k. t + int k * 300000) ?ks"
    by (simp add: series_row_def)
  have same: "set ?cs = set (map (series_row p t ws) ?ks)"
    using series_rows [OF assms(1), of p] assms(4) by auto
  have inj: "inj_on ca_periodStart (set ?cs)"
    unfolding same by (auto simp: inj_on_def series_row_def)
  have "?cs = map (series_row p t ws) ?ks"
  proof (rule map_sorted_distinct_set_unique [where f = ca_periodStart])
    show "inj_on ca_periodStart (set ?cs \<union> set (map (series_row p t ws) ?ks))" using inj same by simp
    show "sorted (map ca_periodStart ?cs)" using assms(2) by (rule sorted_filter)
    show "distinct (map ca_periodStart ?cs)" using inj assms(3) by (simp add: distinct_map)
    have "sorted_wrt (<) ?ks" by (intro sorted_wrt_filter) simp
    then have "sorted_wrt (<) (map (\<lambda>k. t + int k * 300000) ?ks)"
      by (simp add: sorted_wrt_map)
    then show "sorted (map ca_periodStart (map (series_row p t ws) ?ks))"
      "distinct (map ca_periodStart (map (series_row p t ws) ?ks))"
      unfolding starts by (simp_all add: strict_sorted_iff)
  qed (rule same)
  then have "map ca_ohlcv ?cs = map (\<lambda>k. candle_spec (pool_points p (bucket t k ws))) ?ks"
    by (simp add: series_row_def)
  then show ?thesis by (simp add: points_of_def filter_map comp_def)
qed

lemma concat_filter_ne: "concat (filter (\<lambda>xs. xs \<noteq> []) xss) = concat xss"
  by (induction xss) simp_all

lemma pool_points_concat: "concat (map (pool_points p) xss) = pool_points p (concat xss)"
  by (induction xss) (simp_all add: pool_points_def)

text \<open>An hour candle built from the five-minute candles has, for every pool, the same open, high, low and close as
  the candle of all the hour's swaps in order of time.\<close>

theorem hour_matches_swaps:
  assumes "candle_reliable db view" and "policy = Fill \<or> hour_complete (view s) t"
    and "sorted (map rs_createdAt ws)" and "mset ws = swaps_between t (t + 3600000) (view s)"
    and "five_minute_series (view s) t ws"
  shows "\<exists>n s'. run (candle_service db) (aggregatePeriod iso_of H1 t policy cid) (s, fl) = (Inr n, (s', fl)) \<and>
     (\<forall>p. if p \<in> rs_poolId ` set ws
       then (\<exists>x. cv_candles (view s') (p, H1, t) = Some x \<and> prices x = prices (candle_spec (pool_points p ws)))
       else cv_candles (view s') (p, H1, t) = cv_candles (view s) (p, H1, t))"
proof -
  obtain cs s1 where cs: "sorted (map ca_periodStart cs)" "distinct cs" "set cs = hour_rows (view s) t"
    and v: "view s1 = view s"
    and run: "run (candle_service db) (period_points iso_of H1 t policy cid) (s, fl) =
        (Inr (map (\<lambda>b. (ca_poolId b, ca_ohlcv b)) cs), (s1, fl))"
    using run_hour_points [OF assms(1), of s t policy iso_of cid fl] assms(2) by auto
  let ?pts = "map (\<lambda>b. (ca_poolId b, ca_ohlcv b)) cs"
  obtain n s' where s': "run (candle_service db) (aggregatePeriod iso_of H1 t policy cid) (s, fl) = (Inr n, (s', fl))"
    "view s' = upsert_all H1 t (by_pool ?pts) (view s)"
    using run_aggregate [OF assms(1) run v] by blast
  have inwin: "t \<le> rs_createdAt w \<and> rs_createdAt w < t + int 12 * 300000" if "w \<in> set ws" for w
  proof -
    have "w \<in># swaps_between t (t + 3600000) (view s)" using that by (simp flip: assms(4))
    then show ?thesis by (simp add: swaps_between_def)
  qed
  have "cv_candles (view s') (p, H1, t) = Some (candle_spec (points_of p ?pts)) \<and>
      prices (candle_spec (points_of p ?pts)) = prices (candle_spec (pool_points p ws))" if p: "p \<in> rs_poolId ` set ws" for p
  proof -
    let ?xss = "filter (\<lambda>xs. xs \<noteq> []) (map (\<lambda>k. pool_points p (bucket t k ws)) [0..<12])"
    have pts: "points_of p ?pts = map candle_spec ?xss" by (rule series_points [OF assms(5) cs])
    have all: "concat ?xss = pool_points p ws"
      using concat_buckets [OF assms(3), of t 12] inwin pool_points_concat [of p "map (\<lambda>k. bucket t k ws) [0..<12]"]
      by (simp add: concat_filter_ne comp_def)
    have "pool_points p ws \<noteq> []" using p by (auto simp: pool_points_def filter_empty_conv)
    then have ne: "?xss \<noteq> []" using all by auto
    then have "points_of p ?pts \<noteq> []" unfolding pts by simp
    then have "p \<in> fst ` set ?pts" using points_of_empty by metis
    moreover have "prices (candle_spec (map candle_spec ?xss)) = prices (candle_spec (concat ?xss))"
      by (rule prices_concat [OF ne]) simp
    ultimately show ?thesis unfolding s'(2) upsert_all_by_pool pts all by simp
  qed
  moreover have "cv_candles (view s') (p, H1, t) = cv_candles (view s) (p, H1, t)" if p: "p \<notin> rs_poolId ` set ws" for p
  proof -
    have "pool_points p (bucket t k ws) = []" for k
      using p by (auto simp: pool_points_def bucket_def filter_empty_conv)
    then have "points_of p ?pts = []" unfolding series_points [OF assms(5) cs] by simp
    then have "p \<notin> fst ` set ?pts" using points_of_empty by metis
    then show ?thesis unfolding s'(2) upsert_all_by_pool by simp
  qed
  ultimately show ?thesis using s'(1) by (intro exI [of _ n] exI [of _ s']) auto
qed

section \<open>Instances\<close>

definition demo_swap :: raw_swap where
  "demo_swap = \<lparr>rs_poolId = ''p'', rs_createdAt = 100000, rs_sqrtPriceX96 = ''4'', rs_amount0 = ''-10''\<rparr>"

theorem aggregate_from_swaps_witness:
  "\<exists>s'. run (candle_service mem_candles) (aggregatePeriod show_int M1 60000 Strict ''c'') (([demo_swap], []), []) =
      (Inr 1, (s', [])) \<and>
     cv_candles (mem_candle_view s') (''p'', M1, 60000) = Some (swap_point demo_swap)"
proof -
  have m1: "BUCKET_SOURCE M1 = None" by simp
  obtain ws s' where ws: "mset ws = swaps_between 60000 (60000 + INTERVAL_MS M1) (mem_candle_view ([demo_swap], []))"
    and run: "run (candle_service mem_candles) (aggregatePeriod show_int M1 60000 Strict ''c'') (([demo_swap], []), []) =
      (Inr (card (rs_poolId ` set ws)), (s', []))"
    and c: "\<forall>p j u. cv_candles (mem_candle_view s') (p, j, u) =
        (if j = M1 \<and> u = 60000 \<and> p \<in> rs_poolId ` set ws
         then Some (candle_spec (map swap_point (filter (\<lambda>w. rs_poolId w = p) ws)))
         else cv_candles (mem_candle_view ([demo_swap], [])) (p, j, u))"
    using aggregate_from_swaps [OF mem_candles_reliable m1, of 60000 "([demo_swap], [])" show_int Strict "''c''" "[]"] by blast
  have "mset ws = {#demo_swap#}" using ws by (simp add: swaps_between_def mem_candle_view_def demo_swap_def)
  then have "ws = [demo_swap]" by simp
  then show ?thesis using run c [rule_format, of "''p''" M1 60000] by (simp add: demo_swap_def)
qed

definition flat_candle :: ohlcv where
  "flat_candle = \<lparr>oh_open = Fin 1, oh_high = Fin 1, oh_low = Fin 1, oh_close = Fin 1, oh_volumeUsd = Fin 0\<rparr>"

text \<open>Pool \<open>a\<close> has the whole hour, pool \<open>b\<close> its first five minutes only.\<close>

definition demo_hour :: mem_candles_state where
  "demo_hour = ([], ((''b'', M5, 0), flat_candle) # map (\<lambda>k. ((''a'', M5, int k * 300000), flat_candle)) [0..<12])"

lemma demo_hour_complete: "hour_complete (mem_candle_view demo_hour) 0"
  unfolding hour_complete_def
proof (intro allI impI)
  fix k :: nat assume "k < 12"
  then have "((''a'', M5, int k * 300000), flat_candle) \<in> set (snd demo_hour)" by (simp add: demo_hour_def)
  then have "map_of (snd demo_hour) (''a'', M5, int k * 300000) \<noteq> None" by (metis weak_map_of_SomeI option.distinct(1))
  then show "0 + int k * 300000 \<in> bucket_starts (mem_candle_view demo_hour)"
    unfolding bucket_starts_def mem_candle_view_def by auto
qed

theorem strict_gap_check_pools_witness:
  "\<exists>n s'. run (candle_service mem_candles) (aggregatePeriod show_int H1 0 Strict ''c'') (demo_hour, []) = (Inr n, (s', [])) \<and>
     cv_candles (mem_candle_view s') (''b'', H1, 0) \<noteq> None"
proof -
  have "cv_candles (mem_candle_view demo_hour) (''b'', M5, 0) \<noteq> None"
    by (simp add: mem_candle_view_def demo_hour_def)
  then show ?thesis
    using strict_gap_check_pools [OF mem_candles_reliable, of demo_hour 0 show_int "''c''" "[]"] demo_hour_complete by fastforce
qed

definition demo_series :: mem_candles_state where
  "demo_series = ([demo_swap], [((''p'', M5, 0), swap_point demo_swap)])"

lemma demo_series_ok: "five_minute_series (mem_candle_view demo_series) 0 [demo_swap]"
proof -
  have "bucket 0 k [demo_swap] = (if k = 0 then [demo_swap] else [])" for k
    by (auto simp: bucket_def demo_swap_def)
  then show ?thesis
    by (auto simp: five_minute_series_def pool_points_def mem_candle_view_def demo_series_def Let_def demo_swap_def
        intro!: exI [of _ 0] split: if_splits)
qed

theorem hour_matches_swaps_witness:
  "\<exists>n s' x. run (candle_service mem_candles) (aggregatePeriod show_int H1 0 Fill ''c'') (demo_series, []) = (Inr n, (s', [])) \<and>
     cv_candles (mem_candle_view s') (''p'', H1, 0) = Some x \<and> prices x = prices (swap_point demo_swap)"
proof -
  have "mset [demo_swap] = swaps_between 0 (0 + 3600000) (mem_candle_view demo_series)"
    by (simp add: swaps_between_def mem_candle_view_def demo_series_def demo_swap_def)
  then obtain n s' where run: "run (candle_service mem_candles) (aggregatePeriod show_int H1 0 Fill ''c'') (demo_series, []) =
      (Inr n, (s', []))"
    and c: "\<forall>p. if p \<in> rs_poolId ` set [demo_swap]
       then (\<exists>x. cv_candles (mem_candle_view s') (p, H1, 0) = Some x \<and>
         prices x = prices (candle_spec (pool_points p [demo_swap])))
       else cv_candles (mem_candle_view s') (p, H1, 0) = cv_candles (mem_candle_view demo_series) (p, H1, 0)"
    using hour_matches_swaps [OF mem_candles_reliable _ _ _ demo_series_ok, of Fill show_int "''c''" "[]"] by auto
  then show ?thesis using c [rule_format, of "''p''"] by (auto simp: demo_swap_def pool_points_def)
qed

end
