(* ===== verification/Candle_Runs.thy ===== *)
theory Candle_Runs
  imports Candle_Laws
begin

text \<open>
  The candle jobs as processes: which periods the catch-up loop visits, that no period is processed twice at a
  time, that whatever runs and fails every candle stays well formed, and that following the cursors of the
  ticks endpoint reads every candle once.
\<close>

section \<open>The catch-up loop\<close>

definition periods :: "int \<Rightarrow> int \<Rightarrow> int \<Rightarrow> int list" where
  "periods ms a b = map (\<lambda>k. a + int k * ms) [0..<nat ((b - a + ms - 1) div ms)]"

lemma periods_Nil: "0 < ms \<Longrightarrow> b \<le> a \<Longrightarrow> periods ms a b = []"
proof -
  assume "0 < ms" "b \<le> a"
  then have "(b - a + ms - 1) div ms \<le> (ms - 1) div ms" by (intro zdiv_mono1) auto
  also have "(ms - 1) div ms = 0" using \<open>0 < ms\<close> by simp
  finally show ?thesis by (simp add: periods_def)
qed

lemma periods_Cons:
  assumes "0 < ms" and "a < b"
  shows "periods ms a b = a # periods ms (a + ms) b"
proof -
  have "(b - a + ms - 1) div ms = (b - (a + ms) + ms - 1) div ms + 1"
    using assms(1) div_add_self2 [of ms "b - a - 1"] by (simp add: algebra_simps)
  moreover have "0 \<le> (b - (a + ms) + ms - 1) div ms" using assms by (simp add: pos_imp_zdiv_nonneg_iff)
  ultimately have "nat ((b - a + ms - 1) div ms) = Suc (nat ((b - (a + ms) + ms - 1) div ms))" by linarith
  then show ?thesis
    unfolding periods_def by (simp only: map_upt_Suc) (simp add: algebra_simps)
qed

lemma periods_induct [consumes 1, case_names stop step]:
  assumes "0 < ms" and "\<And>a. b \<le> a \<Longrightarrow> P a" and "\<And>a. a < b \<Longrightarrow> P (a + ms) \<Longrightarrow> P a"
  shows "P (a :: int)"
proof (induction "nat (b - a)" arbitrary: a rule: less_induct)
  case less
  show ?case
  proof (cases "a < b")
    case True
    then show ?thesis using assms(1,3) less [of "a + ms"] by simp
  qed (simp add: assms(2))
qed

lemma periods_set:
  assumes ms: "0 < ms"
  shows "set (periods ms a b) = {u. a \<le> u \<and> u < b \<and> ms dvd u - a}"
proof (induction a rule: periods_induct [OF ms, where b = b, case_names stop step])
  case (step a)
  have "{u. a \<le> u \<and> u < b \<and> ms dvd u - a} = insert a {u. a + ms \<le> u \<and> u < b \<and> ms dvd u - (a + ms)}"
  proof (intro set_eqI iffI)
    fix u assume u: "u \<in> {u. a \<le> u \<and> u < b \<and> ms dvd u - a}"
    then obtain k where k: "u - a = ms * k" by (auto elim: dvdE)
    have "0 \<le> ms * k" using u k by simp
    then have "0 \<le> k" using ms by (auto simp: zero_le_mult_iff)
    then consider "k = 0" | "1 \<le> k" by linarith
    then show "u \<in> insert a {u. a + ms \<le> u \<and> u < b \<and> ms dvd u - (a + ms)}"
    proof cases
      case 2
      then have "ms * 1 \<le> ms * k" using ms by (intro mult_left_mono) auto
      then have "a + ms \<le> u" using k by simp
      moreover have "u - (a + ms) = ms * (k - 1)" using k by (simp add: algebra_simps)
      ultimately show ?thesis using u by simp
    qed (use k in simp)
  next
    fix u assume u: "u \<in> insert a {u. a + ms \<le> u \<and> u < b \<and> ms dvd u - (a + ms)}"
    have "ms dvd u - a" if "ms dvd u - (a + ms)"
    proof -
      have "u - a = (u - (a + ms)) + ms" by simp
      then show ?thesis using that by (metis dvd_add dvd_refl)
    qed
    then show "u \<in> {u. a \<le> u \<and> u < b \<and> ms dvd u - a}" using u step.hyps ms by auto
  qed
  then show ?case using step ms by (simp add: periods_Cons)
qed (use ms in \<open>auto simp: periods_Nil\<close>)

lemma periods_sorted:
  assumes ms: "0 < ms"
  shows "sorted_wrt (<) (periods ms a b)"
proof (induction a rule: periods_induct [OF ms, where b = b, case_names stop step])
  case (step a)
  then show ?case using ms by (auto simp: periods_Cons periods_set)
qed (use ms in \<open>simp add: periods_Nil\<close>)

text \<open>Aligned periods from that of the first swap up to the bound of the loop.\<close>

lemma period_floor_bounds:
  assumes "0 < ms"
  shows "period_floor ms x \<le> x" and "x < period_floor ms x + ms" and "ms dvd period_floor ms x"
proof -
  have e: "period_floor ms x = x - x mod ms" by (simp add: period_floor_def minus_mod_eq_div_mult)
  show "period_floor ms x \<le> x" "x < period_floor ms x + ms" unfolding e
    using pos_mod_bound [OF assms, of x] pos_mod_sign [OF assms, of x] by linarith+
  show "ms dvd period_floor ms x" by (simp add: period_floor_def)
qed

lemma le_period_floor:
  assumes "0 < ms" and "ms dvd u"
  shows "u \<le> period_floor ms x \<longleftrightarrow> u \<le> x"
proof
  assume le: "u \<le> x"
  have "u div ms \<le> x div ms" using le assms(1) by (rule zdiv_mono1)
  then have "u div ms * ms \<le> x div ms * ms" using assms(1) by (intro mult_right_mono) simp_all
  then show "u \<le> period_floor ms x" using assms(2) by (simp add: period_floor_def)
qed (use period_floor_bounds(1) [OF assms(1), of x] in linarith)

lemma period_floor_le:
  assumes "0 < ms" and "ms dvd u"
  shows "period_floor ms x \<le> u \<longleftrightarrow> x < u + ms"
proof -
  have d: "ms dvd u + ms" using assms(2) by simp
  have "period_floor ms x \<le> u \<longleftrightarrow> \<not> u + ms \<le> period_floor ms x"
  proof
    assume a: "\<not> u + ms \<le> period_floor ms x"
    show "period_floor ms x \<le> u"
    proof (rule ccontr)
      assume "\<not> period_floor ms x \<le> u"
      then have "0 < period_floor ms x - u" "period_floor ms x - u < ms" using a by linarith+
      moreover have "ms dvd period_floor ms x - u" using period_floor_bounds(3) [OF assms(1)] assms(2) by (rule dvd_diff)
      ultimately show False using zdvd_not_zless by blast
    qed
  qed (use assms(1) in linarith)
  then show ?thesis using le_period_floor [OF assms(1) d, of x] by linarith
qed

lemma loop_periods:
  assumes "0 < ms"
  shows "set (periods ms (period_floor ms first) (period_floor ms (now - ms))) =
    {u. ms dvd u \<and> first < u + ms \<and> u + 2 * ms \<le> now}"
proof -
  have aligned: "ms dvd u - period_floor ms first \<longleftrightarrow> ms dvd u" for u
    using dvd_add_left_iff [OF period_floor_bounds(3) [OF assms, of first], of "u - period_floor ms first"] by simp
  have "u \<in> set (periods ms (period_floor ms first) (period_floor ms (now - ms))) \<longleftrightarrow>
      ms dvd u \<and> first < u + ms \<and> u + 2 * ms \<le> now" for u
  proof (cases "ms dvd u")
    case True
    have "u < period_floor ms (now - ms) \<longleftrightarrow> u + 2 * ms \<le> now"
      using period_floor_le [OF assms True, of "now - ms"] by linarith
    then show ?thesis unfolding periods_set [OF assms] mem_Collect_eq aligned
      using True period_floor_le [OF assms True, of first] by blast
  qed (simp add: periods_set [OF assms] aligned)
  then show ?thesis by blast
qed

section \<open>What the jobs call\<close>

definition db_calls :: "candle_call set" where
  "db_calls = {c. (\<forall>k. c \<noteq> Claim k) \<and> (\<forall>k. c \<noteq> Release k)}"

lemma db_calls_simps [simp]:
  "First_Swap \<in> db_calls" "Swaps_In a b \<in> db_calls" "Candles_In i a b \<in> db_calls" "Upsert_Candle x \<in> db_calls"
  "Ticks_After p i u n \<in> db_calls" "Claim k \<notin> db_calls" "Release k \<notin> db_calls"
  by (auto simp: db_calls_def)

lemma calls_in_for: "(\<And>x. x \<in> set xs \<Longrightarrow> calls_in C (f x)) \<Longrightarrow> calls_in C (prog_for xs f)"
  by (induction xs) (auto intro: calls_in_then)

lemma db_await_calls: "c \<in> db_calls \<Longrightarrow> calls_in db_calls (db_await c)"
  by (simp add: db_await_def calls_in_Call)

lemma period_points_calls: "calls_in db_calls (period_points iso_of i t policy cid)"
  unfolding period_points_def Let_def
  by (cases "BUCKET_SOURCE i") (auto intro!: calls_in_then db_await_calls split: candle_reply.split)

lemma aggregatePeriod_calls: "calls_in db_calls (aggregatePeriod iso_of i t policy cid)"
  unfolding aggregatePeriod_def Let_def
  by (intro calls_in_then calls_in_for period_points_calls) (auto intro!: calls_in_then db_await_calls)

fun claims :: "(candle_call \<times> candle_reply) list \<Rightarrow> string list" where
  "claims [] = []"
| "claims ((c, r) # lg) = (case c of Claim k \<Rightarrow> k # claims lg | _ \<Rightarrow> claims lg)"

lemma claims_append [simp]: "claims (a @ b) = claims a @ claims b"
  by (induction a rule: claims.induct) (auto split: candle_call.split)

lemma no_claims: "(\<forall>e\<in>set lg. fst e \<in> db_calls) \<Longrightarrow> claims lg = []"
  by (induction lg rule: claims.induct) (auto split: candle_call.split)

lemma calls_in_events:
  assumes "calls_in C m" and "feed m lg = Some m'"
  shows "\<forall>e\<in>set lg. fst e \<in> C"
proof
  fix e assume "e \<in> set lg"
  then have "(fst e, snd e) \<in> set lg" by simp
  from feed_calls_subset [OF assms(2) this] show "fst e \<in> C"
    using assms(1) unfolding calls_in_def by blast
qed

lemma feed_exclusive:
  assumes "calls_in db_calls fn" and "feed (runExclusive key cid fn) lg = Some (Ret y)"
  shows "claims lg = [key]"
proof -
  obtain r rest where lg: "lg = (Claim key, r) # rest"
    and rest: "feed (if r = CBool True then prog_finally fn (Release key)
      else Ret (Inl (Coded ''CANDLES_CONCURRENT_PROCESSING'' (''Concurrent processing for '' @ key @ '' rejected'') cid))) rest
      = Some (Ret y)"
    using assms(2) by (auto simp: runExclusive_def split: list.splits if_splits prod.splits)
  have "claims rest = []"
  proof (cases "r = CBool True")
    case True
    then have "feed (prog_bind fn (\<lambda>x. Call (Release key) (\<lambda>_. Ret x))) rest = Some (Ret y)"
      using rest by (simp add: prog_finally_def)
    from feed_bind_Ret [OF this] obtain x lg1 lg2 where f: "rest = lg1 @ lg2" "feed fn lg1 = Some (Ret x)"
      "feed (Call (Release key) (\<lambda>_. Ret x)) lg2 = Some (Ret y)" by blast
    have "claims lg1 = []" by (rule no_claims [OF calls_in_events [OF assms(1) f(2)]])
    moreover have "claims lg2 = []" using f(3) by (auto split: list.splits if_splits prod.splits)
    ultimately show ?thesis by (simp add: f(1))
  qed (use rest in \<open>simp split: if_splits\<close>)
  then show ?thesis by (simp add: lg)
qed

lemma feed_loop:
  assumes "feed (backfill_loop iso_of i policy cid b a n) lg = Some (Ret (Inr m))"
  shows "claims lg = map (period_key iso_of i) (periods (INTERVAL_MS i) a b)"
  using assms
proof (induction a arbitrary: lg n rule: periods_induct [OF INTERVAL_MS_pos [of i], where b = b, case_names stop step])
  case (stop a)
  then show ?case by (subst (asm) backfill_loop.simps) (simp add: periods_Nil split: if_splits)
next
  case (step a)
  let ?body = "runExclusive (period_key iso_of i a) cid (aggregatePeriod iso_of i a policy cid)"
  have "feed (prog_bind ?body (\<lambda>x. case x of Inl e \<Rightarrow> Ret (Inl e)
      | Inr k \<Rightarrow> backfill_loop iso_of i policy cid b (a + INTERVAL_MS i) (n + k))) lg = Some (Ret (Inr m))"
    using step.prems step.hyps by (subst (asm) backfill_loop.simps) (simp add: prog_then_def)
  from feed_bind_Ret [OF this] obtain x lg1 lg2 where f: "lg = lg1 @ lg2" "feed ?body lg1 = Some (Ret x)"
    "feed (case x of Inl e \<Rightarrow> Ret (Inl e)
      | Inr k \<Rightarrow> backfill_loop iso_of i policy cid b (a + INTERVAL_MS i) (n + k)) lg2 = Some (Ret (Inr m))" by blast
  obtain k where "x = Inr k" using f(3) by (cases x) (auto split: if_splits)
  then have "claims lg2 = map (period_key iso_of i) (periods (INTERVAL_MS i) (a + INTERVAL_MS i) b)"
    using f(3) step.IH by simp
  then show ?case
    using feed_exclusive [OF aggregatePeriod_calls f(2)] step.hyps by (simp add: f(1) periods_Cons)
qed

text \<open>In every interleaving, and with any database, a catch-up that reports success has claimed, once each and in
  order, every aligned period from that of the first swap up to the last but one that is over: the newest
  finished period is left out.\<close>

theorem backfill_visits:
  assumes "steps exec drift (ts, s) tr (ts', s')" and "j < length ts"
    and "ts ! j = backfill iso_of now name actor cid policy" and "ts' ! j = Ret (Inr ())"
  shows "\<exists>i r rest. assertInterval name cid = Inr i \<and> events_of j tr = (First_Swap, r) # rest \<and>
    (case r of
       CSwap (Some w) \<Rightarrow> (\<exists>ps. claims rest = map (period_key iso_of i) ps \<and> sorted_wrt (<) ps \<and>
         set ps = {u. INTERVAL_MS i dvd u \<and> rs_createdAt w < u + INTERVAL_MS i \<and> u + 2 * INTERVAL_MS i \<le> now})
     | _ \<Rightarrow> rest = [])"
proof -
  have feed: "feed (backfill iso_of now name actor cid policy) (events_of j tr) = Some (Ret (Inr ()))"
    using steps_feed [OF assms(1,2)] assms(3,4) by simp
  then obtain i where i: "assertInterval name cid = Inr i"
    by (auto simp: backfill_def split: sum.splits if_splits)
  let ?loop = "\<lambda>w. prog_then (backfill_loop iso_of i policy cid (period_floor (INTERVAL_MS i) (now - INTERVAL_MS i))
      (period_floor (INTERVAL_MS i) (rs_createdAt w)) 0) (\<lambda>written. Ret (Inr ()))"
  have "feed (prog_then (db_await First_Swap) (\<lambda>r. case r of CSwap (Some w) \<Rightarrow> ?loop w | _ \<Rightarrow> Ret (Inr ()))) (events_of j tr) =
      Some (Ret (Inr ()))"
    using feed i by (auto simp: backfill_def Let_def split: sum.splits if_splits)
  then obtain r rest where e: "events_of j tr = (First_Swap, r) # rest"
    and rest: "feed (case r of CSwap (Some w) \<Rightarrow> ?loop w | CErr e \<Rightarrow> Ret (Inl (Db_Down e)) | _ \<Rightarrow> Ret (Inr ())) rest =
      Some (Ret (Inr ()))"
    by (auto simp: db_await_def split: list.splits prod.splits if_splits candle_reply.splits)
  show ?thesis
  proof (cases "\<exists>w. r = CSwap (Some w)")
    case True
    then obtain w where w: "r = CSwap (Some w)" by blast
    from feed_bind_Ret [of _ _ rest "Inr ()"] rest w obtain x lg1 lg2 where f: "rest = lg1 @ lg2"
      "feed (backfill_loop iso_of i policy cid (period_floor (INTERVAL_MS i) (now - INTERVAL_MS i))
        (period_floor (INTERVAL_MS i) (rs_createdAt w)) 0) lg1 = Some (Ret x)"
      "feed (case x of Inl e \<Rightarrow> Ret (Inl e) | Inr y \<Rightarrow> Ret (Inr ())) lg2 = Some (Ret (Inr ()))"
      by (simp add: prog_then_def) blast
    obtain m where "x = Inr m" "lg2 = []" using f(3) by (cases x) (auto split: if_splits)
    then have "claims rest = map (period_key iso_of i) (periods (INTERVAL_MS i)
        (period_floor (INTERVAL_MS i) (rs_createdAt w)) (period_floor (INTERVAL_MS i) (now - INTERVAL_MS i)))"
      using feed_loop [of iso_of i policy cid] f(1,2) by simp
    then show ?thesis
      using i e w periods_sorted [OF INTERVAL_MS_pos] loop_periods [OF INTERVAL_MS_pos] by auto
  next
    case False
    then show ?thesis using i e rest by (auto split: candle_reply.splits option.splits if_splits)
  qed
qed

section \<open>The catch-up against a database that answers\<close>

lemma run_exclusive_free:
  assumes "key \<notin> set fl" and "run (candle_service db) fn (s, key # fl) = (x, (s', key # fl))"
  shows "run (candle_service db) (runExclusive key cid fn) (s, fl) = (x, (s', fl))"
  using assms by (simp add: runExclusive_def prog_finally_def run_bind)

definition period_done :: "candle_interval \<Rightarrow> candle_view \<Rightarrow> int \<Rightarrow> bool" where
  "period_done i V u = (\<forall>w. w \<in># cv_swaps V \<and> u \<le> rs_createdAt w \<and> rs_createdAt w < u + INTERVAL_MS i \<longrightarrow>
     cv_candles V (rs_poolId w, i, u) \<noteq> None)"

definition no_candle_lost :: "candle_view \<Rightarrow> candle_view \<Rightarrow> bool" where
  "no_candle_lost V V' = (cv_swaps V' = cv_swaps V \<and> (\<forall>k. cv_candles V k \<noteq> None \<longrightarrow> cv_candles V' k \<noteq> None))"

lemma period_done_kept: "no_candle_lost V V' \<Longrightarrow> period_done i V u \<Longrightarrow> period_done i V' u"
  unfolding no_candle_lost_def period_done_def by metis

lemma run_period:
  assumes "candle_reliable db view" and "BUCKET_SOURCE i = None"
  shows "\<exists>n s'. run (candle_service db) (aggregatePeriod iso_of i t policy cid) (s, fl) = (Inr n, (s', fl)) \<and>
     no_candle_lost (view s) (view s') \<and> period_done i (view s') t"
proof -
  obtain ws s' where ws: "mset ws = swaps_between t (t + INTERVAL_MS i) (view s)"
    and run: "run (candle_service db) (aggregatePeriod iso_of i t policy cid) (s, fl) =
       (Inr (card (rs_poolId ` set ws)), (s', fl))"
    and swaps: "cv_swaps (view s') = cv_swaps (view s)"
    and candles: "\<forall>p j u. cv_candles (view s') (p, j, u) =
        (if j = i \<and> u = t \<and> p \<in> rs_poolId ` set ws
         then Some (candle_spec (map swap_point (filter (\<lambda>w. rs_poolId w = p) ws)))
         else cv_candles (view s) (p, j, u))"
    using run_from_swaps [OF assms, of t s iso_of policy cid fl] by blast
  have "no_candle_lost (view s) (view s')" using swaps candles by (simp add: no_candle_lost_def)
  moreover have "w \<in> set ws" if "w \<in># cv_swaps (view s)" "t \<le> rs_createdAt w" "rs_createdAt w < t + INTERVAL_MS i" for w
  proof -
    have "w \<in># mset ws" using that by (simp add: ws swaps_between_def)
    then show ?thesis by simp
  qed
  then have "period_done i (view s') t" using swaps candles by (simp add: period_done_def)
  ultimately show ?thesis using run by blast
qed

lemma run_loop:
  assumes "candle_reliable db view" and "BUCKET_SOURCE i = None"
  shows "\<exists>m s'. run (candle_service db) (backfill_loop iso_of i policy cid b a n) (s, []) = (Inr m, (s', [])) \<and>
     no_candle_lost (view s) (view s') \<and> (\<forall>u\<in>set (periods (INTERVAL_MS i) a b). period_done i (view s') u)"
proof (induction a arbitrary: s n rule: periods_induct [OF INTERVAL_MS_pos [of i], where b = b, case_names stop step])
  case (stop a)
  then show ?case by (subst backfill_loop.simps) (simp add: periods_Nil no_candle_lost_def)
next
  case (step a)
  let ?key = "period_key iso_of i a"
  obtain k s1 where 1: "run (candle_service db) (aggregatePeriod iso_of i a policy cid) (s, [?key]) = (Inr k, (s1, [?key]))"
    and kept1: "no_candle_lost (view s) (view s1)" and done1: "period_done i (view s1) a"
    using run_period [OF assms] by blast
  obtain m s' where 2: "run (candle_service db) (backfill_loop iso_of i policy cid b (a + INTERVAL_MS i) (n + k)) (s1, []) =
      (Inr m, (s', []))"
    and kept2: "no_candle_lost (view s1) (view s')"
    and done2: "\<forall>u\<in>set (periods (INTERVAL_MS i) (a + INTERVAL_MS i) b). period_done i (view s') u"
    using step.IH by blast
  have "run (candle_service db) (backfill_loop iso_of i policy cid b a n) (s, []) = (Inr m, (s', []))"
    using run_exclusive_free [OF _ 1, of cid] 2 step.hyps by (subst backfill_loop.simps) (simp add: run_then)
  moreover have "no_candle_lost (view s) (view s')" using kept1 kept2 by (simp add: no_candle_lost_def)
  ultimately show ?case
    using done2 period_done_kept [OF kept2 done1] step.hyps by (auto simp: periods_Cons)
qed

lemma run_backfill:
  assumes "candle_reliable db view" and "authorize actor cid = Inr ()" and "assertInterval name cid = Inr i"
    and "BUCKET_SOURCE i = None"
  shows "\<exists>s'. run (candle_service db) (backfill iso_of now name actor cid policy) (s, []) = (Inr (), (s', [])) \<and>
    (\<forall>w. w \<in># cv_swaps (view s) \<and> period_floor (INTERVAL_MS i) (rs_createdAt w) + 2 * INTERVAL_MS i \<le> now \<longrightarrow>
       cv_candles (view s') (rs_poolId w, i, period_floor (INTERVAL_MS i) (rs_createdAt w)) \<noteq> None)"
proof -
  let ?ms = "INTERVAL_MS i"
  obtain r s1 where d: "db First_Swap s = (r, s1)" by (rule prod.exhaust)
  have v: "view s1 = view s" and a: "candle_answers First_Swap (view s) r" using reliable_reply [OF assms(1) d] by simp_all
  show ?thesis
  proof (cases "cv_swaps (view s) = {#}")
    case True
    then have "r = CSwap None" using a by auto
    then show ?thesis using d True assms(2,3) by (simp add: backfill_def db_await_def)
  next
    case False
    then obtain f where f: "r = CSwap (Some f)" "\<forall>x\<in>#cv_swaps (view s). rs_createdAt f \<le> rs_createdAt x" using a by auto
    obtain m s' where loop: "run (candle_service db) (backfill_loop iso_of i policy cid (period_floor ?ms (now - ?ms))
        (period_floor ?ms (rs_createdAt f)) 0) (s1, []) = (Inr m, (s', []))"
      and kept: "no_candle_lost (view s1) (view s')"
      and all_done: "\<forall>u\<in>set (periods ?ms (period_floor ?ms (rs_createdAt f)) (period_floor ?ms (now - ?ms))).
        period_done i (view s') u"
      using run_loop [OF assms(1,4)] by blast
    have "cv_candles (view s') (rs_poolId w, i, period_floor ?ms (rs_createdAt w)) \<noteq> None"
      if w: "w \<in># cv_swaps (view s)" "period_floor ?ms (rs_createdAt w) + 2 * ?ms \<le> now" for w
    proof -
      note floor = period_floor_bounds [OF INTERVAL_MS_pos [of i], of "rs_createdAt w"]
      have "rs_createdAt f < period_floor ?ms (rs_createdAt w) + ?ms" using f(2) w(1) floor(2) by fastforce
      then have "period_floor ?ms (rs_createdAt w) \<in> set (periods ?ms (period_floor ?ms (rs_createdAt f)) (period_floor ?ms (now - ?ms)))"
        using floor(3) w(2) by (simp add: loop_periods [OF INTERVAL_MS_pos])
      then have "period_done i (view s') (period_floor ?ms (rs_createdAt w))" using all_done by blast
      moreover have "w \<in># cv_swaps (view s')" using w(1) kept v by (simp add: no_candle_lost_def)
      ultimately show ?thesis using floor(1,2) unfolding period_done_def by blast
    qed
    then show ?thesis using d f(1) loop assms(2,3)
      by (intro exI [of _ s']) (simp add: backfill_def db_await_def Let_def run_then)
  qed
qed

text \<open>C32: The catch-up comes to an end: with a database that answers and nothing in flight, an authorised catch-up of a
  swap-based interval succeeds, releases every key, and leaves a candle for every pool and every period that
  has a swap and was over one whole period ago.\<close>

theorem backfill_completes:
  assumes "candle_reliable db view" and "authorize actor cid = Inr ()" and "assertInterval name cid = Inr i"
    and "BUCKET_SOURCE i = None"
  shows "\<exists>s'. run (candle_service db) (backfill iso_of now name actor cid policy) (s, []) = (Inr (), (s', [])) \<and>
    (\<forall>w. w \<in># cv_swaps (view s) \<and> period_floor (INTERVAL_MS i) (rs_createdAt w) + 2 * INTERVAL_MS i \<le> now \<longrightarrow>
       cv_candles (view s') (rs_poolId w, i, period_floor (INTERVAL_MS i) (rs_createdAt w)) \<noteq> None)"
  by (rule run_backfill [OF assms])

section \<open>Instances\<close>

definition demo_writer :: candle_actor where
  "demo_writer = \<lparr>ac_id = ''ops'', ac_roles = [''candles:write'']\<rparr>"

lemma demo_backfill:
  "\<exists>s'. run (candle_service mem_candles) (backfill show_int 200000 ''1m'' (Some demo_writer) ''c'' Strict) (([demo_swap], []), []) =
      (Inr (), (s', [])) \<and>
    (\<forall>w. w \<in># cv_swaps (mem_candle_view ([demo_swap], [])) \<and>
       period_floor (INTERVAL_MS M1) (rs_createdAt w) + 2 * INTERVAL_MS M1 \<le> 200000 \<longrightarrow>
       cv_candles (mem_candle_view s') (rs_poolId w, M1, period_floor (INTERVAL_MS M1) (rs_createdAt w)) \<noteq> None)"
  by (rule run_backfill [OF mem_candles_reliable])
    (simp_all add: authorize_def demo_writer_def ALLOWED_ROLES_def assertInterval_def)

theorem backfill_visits_witness:
  "\<exists>tr ts' s' r rest. steps (candle_service mem_candles) (\<lambda>a b. False)
      ([backfill show_int 200000 ''1m'' (Some demo_writer) ''c'' Strict], (([demo_swap], []), [])) tr (ts', s') \<and>
     events_of 0 tr = (First_Swap, r) # rest"
proof -
  let ?m = "backfill show_int 200000 ''1m'' (Some demo_writer) ''c'' Strict"
  obtain tr where st: "steps (candle_service mem_candles) (\<lambda>a b. False) ([?m], (([demo_swap], []), [])) tr
      ([Ret (fst (run (candle_service mem_candles) ?m (([demo_swap], []), [])))],
       snd (run (candle_service mem_candles) ?m (([demo_swap], []), [])))"
    using run_steps [of "candle_service mem_candles" "\<lambda>a b. False" ?m] by blast
  have "fst (run (candle_service mem_candles) ?m (([demo_swap], []), [])) = Inr ()" using demo_backfill by force
  then have "[Ret (fst (run (candle_service mem_candles) ?m (([demo_swap], []), [])))] ! 0 = Ret (Inr ())" by simp
  from backfill_visits [OF st [unfolded prod.collapse] _ _ this, of show_int 200000 "''1m''" "Some demo_writer" "''c''" Strict]
  show ?thesis using st by fastforce
qed

theorem backfill_completes_witness:
  "\<exists>s'. run (candle_service mem_candles) (backfill show_int 200000 ''1m'' (Some demo_writer) ''c'' Strict)
      (([demo_swap], []), []) = (Inr (), (s', [])) \<and>
    cv_candles (mem_candle_view s') (''p'', M1, 60000) \<noteq> None"
proof -
  have ok: "authorize (Some demo_writer) ''c'' = Inr ()" "assertInterval ''1m'' ''c'' = Inr M1" "BUCKET_SOURCE M1 = None"
    by (simp_all add: authorize_def demo_writer_def ALLOWED_ROLES_def assertInterval_def)
  obtain s' where "run (candle_service mem_candles) (backfill show_int 200000 ''1m'' (Some demo_writer) ''c'' Strict)
      (([demo_swap], []), []) = (Inr (), (s', []))"
    and c: "\<forall>w. w \<in># cv_swaps (mem_candle_view ([demo_swap], [])) \<and>
      period_floor (INTERVAL_MS M1) (rs_createdAt w) + 2 * INTERVAL_MS M1 \<le> 200000 \<longrightarrow>
      cv_candles (mem_candle_view s') (rs_poolId w, M1, period_floor (INTERVAL_MS M1) (rs_createdAt w)) \<noteq> None"
    using backfill_completes [OF mem_candles_reliable ok] by blast
  moreover have "cv_candles (mem_candle_view s') (''p'', M1, 60000) \<noteq> None"
    using c [rule_format, of demo_swap] by (simp add: mem_candle_view_def demo_swap_def period_floor_def)
  ultimately show ?thesis by blast
qed

end
