(* ===== verification/Candle_Jobs.thy ===== *)
theory Candle_Jobs
  imports Candle_Runs
begin

text \<open>
  Candle jobs running at the same time in one process: no period is in the hands of two jobs, a finished job
  holds none, and every candle ever written is well formed, whatever calls fail.
\<close>

section \<open>The jobs\<close>

datatype candle_job =
    Aggregate int string "candle_actor option" string gap_policy
  | Backfill int string "candle_actor option" string gap_policy

fun job_prog :: "(int \<Rightarrow> string) \<Rightarrow> candle_job \<Rightarrow> unit candle_prog" where
  "job_prog iso_of (Aggregate now name actor cid policy) = aggregate iso_of now name actor cid policy"
| "job_prog iso_of (Backfill now name actor cid policy) = backfill iso_of now name actor cid policy"

text \<open>What the surroundings do between two calls: swaps arrive, with a numeric price.\<close>

definition priced :: "raw_swap \<Rightarrow> bool" where
  "priced w = (num_of_string (rs_sqrtPriceX96 w) \<noteq> NaN)"

definition swaps_arrive :: "('s \<Rightarrow> candle_view) \<Rightarrow> 's \<times> string list \<Rightarrow> 's \<times> string list \<Rightarrow> bool" where
  "swaps_arrive view a b = (snd b = snd a \<and> cv_candles (view (fst b)) = cv_candles (view (fst a)) \<and>
     (\<forall>w. w \<in># cv_swaps (view (fst b)) \<longrightarrow> w \<in># cv_swaps (view (fst a)) \<or> priced w))"

section \<open>Keys in hand\<close>

text \<open>The keys a job has in hand after its calls so far, starting with \<open>h\<close>.\<close>

fun held_from :: "string list \<Rightarrow> (candle_call \<times> candle_reply) list \<Rightarrow> string list" where
  "held_from h [] = h"
| "held_from h ((c, r) # lg) = held_from (case c of
       Claim k \<Rightarrow> if r = CBool True then k # h else h
     | Release k \<Rightarrow> removeAll k h
     | _ \<Rightarrow> h) lg"

definition held :: "(candle_call \<times> candle_reply) list \<Rightarrow> string list" where
  "held lg = held_from [] lg"

lemma held_from_append [simp]: "held_from h (a @ b) = held_from (held_from h a) b"
  by (induction h a rule: held_from.induct) simp_all

lemma held_Nil [simp]: "held [] = []"
  by (simp add: held_def)

lemma held_snoc: "held (lg @ [(c, r)]) = (case c of
    Claim k \<Rightarrow> if r = CBool True then k # held lg else held lg
  | Release k \<Rightarrow> removeAll k (held lg)
  | _ \<Rightarrow> held lg)"
  by (cases c) (simp_all add: held_def)

text \<open>A disciplined program releases only what it has in hand, and ends with nothing in hand.\<close>

primrec disciplined :: "(candle_call, candle_reply, 'a) prog \<Rightarrow> string list \<Rightarrow> bool" where
  "disciplined (Ret x) h = (h = [])"
| "disciplined (Call c f) h = (case c of
     Claim k \<Rightarrow> (\<forall>r. disciplined (f r) (if r = CBool True then k # h else h))
   | Release k \<Rightarrow> k \<in> set h \<and> (\<forall>r. disciplined (f r) (removeAll k h))
   | _ \<Rightarrow> (\<forall>r. disciplined (f r) h))"

lemma disciplined_feed: "disciplined m h \<Longrightarrow> feed m lg = Some m' \<Longrightarrow> disciplined m' (held_from h lg)"
proof (induction m arbitrary: h lg)
  case (Call c f)
  show ?case
  proof (cases lg)
    case (Cons e rest)
    obtain r where e: "e = (c, r)" and rest: "feed (f r) rest = Some m'"
      using Call.prems(2) Cons by (cases e) (simp split: if_splits)
    note IH = Call.IH [OF rangeI _ rest]
    show ?thesis using Call.prems(1) IH by (cases c) (simp_all add: Cons e)
  next
    case Nil
    then have "m' = Call c f" using Call.prems(2) by simp
    then show ?thesis using Call.prems(1) Nil by (simp del: disciplined.simps)
  qed
qed (auto split: if_splits)

lemma disciplined_silent:
  "calls_in db_calls m \<Longrightarrow> (\<And>x. disciplined (f x) h) \<Longrightarrow> disciplined (prog_bind m f) h"
proof (induction m)
  case (Call c k)
  then have "\<forall>r. disciplined (prog_bind (k r) f) h" "c \<in> db_calls" by (simp_all add: calls_in_Call)
  then show ?case by (auto simp: db_calls_def split: candle_call.split)
qed simp

lemma disciplined_exclusive:
  assumes "calls_in db_calls fn" and "\<And>x. disciplined (f x) []"
  shows "disciplined (prog_bind (runExclusive key cid fn) f) []"
proof -
  have "disciplined (prog_bind fn (\<lambda>x. Call (Release key) (\<lambda>_. f x))) [key]"
    by (rule disciplined_silent [OF assms(1)]) (simp add: assms(2))
  moreover have "prog_bind (prog_finally fn (Release key)) f = prog_bind fn (\<lambda>x. Call (Release key) (\<lambda>_. f x))"
    unfolding prog_finally_def by (induction fn) simp_all
  ultimately show ?thesis by (simp add: runExclusive_def assms(2))
qed

lemma disciplined_loop:
  "(\<And>x. disciplined (f x) []) \<Longrightarrow> disciplined (prog_bind (backfill_loop iso_of i policy cid b a n) f) []"
proof (induction a arbitrary: n rule: periods_induct [OF INTERVAL_MS_pos [of i], where b = b, case_names stop step])
  case (stop a)
  then show ?case by (subst backfill_loop.simps) simp
next
  case (step a)
  have assoc: "prog_bind (prog_then m g) f = prog_bind m (\<lambda>x. prog_bind (case x of Inl e \<Rightarrow> Ret (Inl e) | Inr y \<Rightarrow> g y) f)"
    for m g unfolding prog_then_def by (induction m) simp_all
  show ?case
    by (subst backfill_loop.simps) (use step in \<open>auto simp: assoc split: sum.split intro!: disciplined_exclusive aggregatePeriod_calls\<close>)
qed

lemma disciplined_job: "disciplined (job_prog iso_of jb) []"
proof (cases jb)
  case (Aggregate now name actor cid policy)
  then show ?thesis
    by (auto simp: aggregate_def prog_then_def Let_def split: sum.split
        intro!: disciplined_exclusive aggregatePeriod_calls)
next
  case (Backfill now name actor cid policy)
  have "disciplined (prog_then (backfill_loop iso_of i policy cid b a n) (\<lambda>written. Ret (Inr ()))) []" for i b a n
    unfolding prog_then_def by (rule disciplined_loop) (simp split: sum.split)
  then show ?thesis
    by (auto simp: Backfill backfill_def Let_def db_await_def split: sum.split candle_reply.split option.split)
qed

section \<open>No period in two hands\<close>

definition keys_ok :: "nat \<Rightarrow> string list \<Rightarrow> (nat \<times> candle_call \<times> candle_reply) list \<Rightarrow> bool" where
  "keys_ok n fl tr = (set fl = (\<Union>i<n. set (held (events_of i tr))) \<and>
     (\<forall>i<n. \<forall>j<n. i \<noteq> j \<longrightarrow> set (held (events_of i tr)) \<inter> set (held (events_of j tr)) = {}))"

lemma keys_ok_step:
  assumes ok: "keys_ok n fl tr" and i: "i < n"
    and exec: "candle_service db c (s, fl) = (r, (s', fl'))"
    and own: "\<And>k. c = Release k \<Longrightarrow> k \<in> set (held (events_of i tr))"
  shows "keys_ok n fl' (tr @ [(i, c, r)])"
proof -
  let ?H = "\<lambda>j. set (held (events_of j tr))" and ?H' = "\<lambda>j. set (held (events_of j (tr @ [(i, c, r)])))"
  have other: "?H' j = ?H j" if "j \<noteq> i" for j using that by simp
  have fl: "set fl = (\<Union>j<n. ?H j)" and dis: "\<And>a b. a < n \<Longrightarrow> b < n \<Longrightarrow> a \<noteq> b \<Longrightarrow> ?H a \<inter> ?H b = {}"
    using ok unfolding keys_ok_def by blast+
  have all: "(\<Union>j<n. ?H' j) = ?H' i \<union> (\<Union>j\<in>{..<n} - {i}. ?H j)"
  proof -
    have "(\<Union>j<n. ?H' j) = ?H' i \<union> (\<Union>j\<in>{..<n} - {i}. ?H' j)" using i by blast
    moreover have "(\<Union>j\<in>{..<n} - {i}. ?H' j) = (\<Union>j\<in>{..<n} - {i}. ?H j)" using other by (intro SUP_cong) auto
    ultimately show ?thesis by simp
  qed
  have all0: "set fl = ?H i \<union> (\<Union>j\<in>{..<n} - {i}. ?H j)" using fl i by blast
  consider (claim) k where "c = Claim k" "k \<notin> set fl" "fl' = k # fl" "?H' i = insert k (?H i)"
    | (release) k where "c = Release k" "fl' = removeAll k fl" "?H' i = ?H i - {k}"
    | (same) "fl' = fl" "?H' i = ?H i"
    using exec by (cases c) (auto simp: held_snoc split: if_splits prod.splits)
  then have goal: "set fl' = ?H' i \<union> (\<Union>j\<in>{..<n} - {i}. ?H j) \<and>
      (\<forall>j<n. j \<noteq> i \<longrightarrow> ?H' i \<inter> ?H j = {})"
  proof cases
    case (claim k)
    then show ?thesis using all0 dis [OF i] fl by (auto simp del: events_of_simps)
  next
    case (release k)
    have "k \<in> ?H i" using own [OF release(1)] .
    then have "\<forall>j\<in>{..<n} - {i}. k \<notin> ?H j" using dis [OF i] by blast
    then have "set fl - {k} = ?H i - {k} \<union> (\<Union>j\<in>{..<n} - {i}. ?H j)" unfolding all0 by blast
    moreover have "(?H i - {k}) \<inter> ?H j = {}" if "j < n" "j \<noteq> i" for j using dis [OF i that(1)] that(2) by blast
    ultimately show ?thesis unfolding release(2,3) set_removeAll by blast
  next
    case same
    then show ?thesis using all0 dis [OF i] by (auto simp del: events_of_simps)
  qed
  have hi: "?H' i \<inter> ?H j = {}" if "j < n" "j \<noteq> i" for j using goal that by blast
  have "?H' a \<inter> ?H' b = {}" if ab: "a < n" "b < n" "a \<noteq> b" for a b
  proof -
    consider "a = i" "b \<noteq> i" | "b = i" "a \<noteq> i" | "a \<noteq> i" "b \<noteq> i" using ab(3) by blast
    then show ?thesis
    proof cases
      case 1
      then show ?thesis using hi [OF ab(2)] unfolding other [OF 1(2)] by blast
    next
      case 2
      then show ?thesis using hi [OF ab(1)] unfolding other [OF 2(2)] by blast
    next
      case 3
      then show ?thesis using dis [OF ab] unfolding other [OF 3(1)] other [OF 3(2)] by blast
    qed
  qed
  moreover have "set fl' = (\<Union>j<n. ?H' j)" unfolding all using goal by (rule conjunct1)
  ultimately show ?thesis unfolding keys_ok_def by (intro conjI allI impI)
qed

lemma jobs_keys_ok:
  assumes "steps (candle_service db) drift (map (job_prog iso_of) jobs, (s, [])) tr (ts', (s', fl'))"
    and "\<And>a b. drift a b \<Longrightarrow> snd b = snd a"
  shows "keys_ok (length jobs) fl' tr"
  using assms(1)
proof (induction "(map (job_prog iso_of) jobs, (s, [] :: string list))" tr "(ts', (s', fl'))"
    arbitrary: ts' s' fl' rule: steps.induct)
  case steps_refl
  then show ?case by (simp add: keys_ok_def)
next
  case (steps_drift tr ts a s' fl')
  then show ?case using assms(2) [of a "(s', fl')"] by (cases a) simp
next
  case (steps_call tr ts a i c k r s' fl')
  obtain s1 fl1 where a: "a = (s1, fl1)" by (cases a)
  have st: "steps (candle_service db) drift (map (job_prog iso_of) jobs, (s, [])) tr (ts, a)" by (rule steps_call.hyps(1))
  have len: "i < length jobs" using steps_length [OF st] steps_call.hyps(3) by simp
  have "feed (job_prog iso_of (jobs ! i)) (events_of i tr) = Some (Call c k)"
    using steps_feed [OF st] len steps_call.hyps(4) by simp
  from disciplined_feed [OF disciplined_job this]
  have own: "key \<in> set (held (events_of i tr))" if "c = Release key" for key using that by (simp add: held_def)
  have "keys_ok (length jobs) fl1 tr" using steps_call.hyps(2) a by simp
  then show ?case
    by (rule keys_ok_step [OF _ len]) (use steps_call.hyps(5) own in \<open>simp_all add: a\<close>)
qed

text \<open>However candle jobs interleave, and whatever calls fail, a period of an interval is in the hands of at most
  one of them at a time, the set of keys in flight is what they have in hand, and a job that has ended, with
  a result or an error, has nothing in hand.\<close>

theorem candle_period_exclusive:
  assumes "steps (candle_service db) (swaps_arrive view) (map (job_prog iso_of) jobs, (s, [])) tr (ts', (s', fl'))"
  shows "(\<forall>k. card {i. i < length jobs \<and> k \<in> set (held (events_of i tr))} \<le> 1) \<and>
    set fl' = (\<Union>i<length jobs. set (held (events_of i tr))) \<and>
    (\<forall>i<length jobs. \<forall>x. ts' ! i = Ret x \<longrightarrow> held (events_of i tr) = [])"
proof -
  have ok: "keys_ok (length jobs) fl' tr"
    using jobs_keys_ok [OF assms] by (simp add: swaps_arrive_def)
  have "card {i. i < length jobs \<and> k \<in> set (held (events_of i tr))} \<le> 1" for k
  proof -
    let ?S = "{i. i < length jobs \<and> k \<in> set (held (events_of i tr))}"
    have fin: "finite ?S" by simp
    have "a = b" if "a \<in> ?S" "b \<in> ?S" for a b
      using ok that unfolding keys_ok_def by blast
    then have "card ?S \<le> Suc 0" using card_le_Suc0_iff_eq [OF fin] by blast
    then show ?thesis by simp
  qed
  moreover have "held (events_of i tr) = []" if "i < length jobs" "ts' ! i = Ret x" for i x
  proof -
    have "feed (job_prog iso_of (jobs ! i)) (events_of i tr) = Some (Ret x)"
      using steps_feed [OF assms] that by simp
    from disciplined_feed [OF disciplined_job this] show ?thesis by (simp add: held_def)
  qed
  ultimately show ?thesis using conjunct1 [OF ok [unfolded keys_ok_def]] by (intro conjI allI impI)
qed

section \<open>Well-formed candles\<close>

text \<open>The type of a candle: all four prices are numbers, with the low below and the high above the other two.\<close>

definition ohlc_ok :: "ohlcv \<Rightarrow> bool" where
  "ohlc_ok x = (jle (oh_low x) (oh_open x) \<and> jle (oh_open x) (oh_high x) \<and>
     jle (oh_low x) (oh_close x) \<and> jle (oh_close x) (oh_high x))"

definition series_ok :: "candle_view \<Rightarrow> bool" where
  "series_ok V = ((\<forall>k x. cv_candles V k = Some x \<longrightarrow> ohlc_ok x) \<and> (\<forall>w. w \<in># cv_swaps V \<longrightarrow> priced w))"

lemma jle_refl: "x \<noteq> NaN \<Longrightarrow> jle x x"
  by (simp add: jle_def jeq_def)

lemma jle_number: "jle x y \<Longrightarrow> x \<noteq> NaN \<and> y \<noteq> NaN"
  by (cases x; cases y) (auto simp: jle_def jeq_def)

lemma jle_jmax: "jle x y \<Longrightarrow> z \<noteq> NaN \<Longrightarrow> jle x (jmax y z) \<and> jle x (jmax z y)"
  by (cases x; cases y; cases z) (auto simp: jle_def jeq_def jmax_def split: if_splits)

lemma jmin_jle: "jle x y \<Longrightarrow> z \<noteq> NaN \<Longrightarrow> jle (jmin x z) y \<and> jle (jmin z x) y"
  by (cases x; cases y; cases z) (auto simp: jle_def jeq_def jmin_def split: if_splits)

lemma oh_join_ok: "ohlc_ok a \<Longrightarrow> ohlc_ok b \<Longrightarrow> ohlc_ok (oh_join a b)"
proof -
  assume a: "ohlc_ok a" and b: "ohlc_ok b"
  have "oh_low a \<noteq> NaN" "oh_high a \<noteq> NaN" using a jle_number unfolding ohlc_ok_def by blast+
  moreover have "oh_low b \<noteq> NaN" "oh_high b \<noteq> NaN" using b jle_number unfolding ohlc_ok_def by blast+
  ultimately show ?thesis using a b by (simp add: ohlc_ok_def oh_join_def jle_jmax jmin_jle)
qed

lemma swap_point_ok: "priced w \<Longrightarrow> ohlc_ok (swap_point w)"
  by (simp add: ohlc_ok_def swap_point_def priced_def Let_def jle_refl)

lemma candle_spec_ok: "xs \<noteq> [] \<Longrightarrow> (\<forall>x\<in>set xs. ohlc_ok x) \<Longrightarrow> ohlc_ok (candle_spec xs)"
proof (induction xs rule: rev_induct)
  case (snoc x xs)
  then show ?case by (cases "xs = []") (auto simp: candle_spec_snoc oh_join_ok)
qed simp

lemma by_pool_ok:
  assumes "\<forall>z\<in>set points. ohlc_ok (snd z)" and "(p, x) \<in> set (by_pool points)"
  shows "ohlc_ok x"
proof -
  have "jm_get (by_pool points) p = Some x"
    using assms(2) by_pool_distinct by (simp add: jm_get_def)
  then have "points_of p points \<noteq> [] \<and> x = candle_spec (points_of p points)" by (simp add: by_pool_get split: if_splits)
  moreover have "\<forall>y\<in>set (points_of p points). ohlc_ok y" using assms(1) by (auto simp: points_of_def)
  ultimately show ?thesis using candle_spec_ok by blast
qed

text \<open>A sound program, given sound replies, writes sound candles only.\<close>

fun reply_ok :: "candle_reply \<Rightarrow> bool" where
  "reply_ok (CSwaps ws) = (\<forall>w\<in>set ws. priced w)"
| "reply_ok (CCandles cs) = (\<forall>c\<in>set cs. ohlc_ok (ca_ohlcv c))"
| "reply_ok _ = True"

fun call_ok :: "candle_call \<Rightarrow> bool" where
  "call_ok (Upsert_Candle c) = ohlc_ok (ca_ohlcv c)"
| "call_ok _ = True"

primrec sound :: "(candle_call, candle_reply, 'a) prog \<Rightarrow> ('a \<Rightarrow> bool) \<Rightarrow> bool" where
  "sound (Ret x) Q = Q x"
| "sound (Call c f) Q = (call_ok c \<and> (\<forall>r. reply_ok r \<longrightarrow> sound (f r) Q))"

lemma sound_bind: "sound m P \<Longrightarrow> (\<And>x. P x \<Longrightarrow> sound (f x) Q) \<Longrightarrow> sound (prog_bind m f) Q"
  by (induction m) auto

lemma sound_then:
  "sound m (\<lambda>x. case x of Inl e \<Rightarrow> True | Inr y \<Rightarrow> P y) \<Longrightarrow> (\<And>y. P y \<Longrightarrow> sound (f y) Q) \<Longrightarrow> (\<And>e. Q (Inl e)) \<Longrightarrow>
   sound (prog_then m f) Q"
  unfolding prog_then_def by (erule sound_bind) (simp split: sum.splits)

lemma sound_await: "call_ok c \<Longrightarrow> sound (db_await c) (\<lambda>x. case x of Inl e \<Rightarrow> True | Inr r \<Rightarrow> reply_ok r)"
  by (auto simp: db_await_def split: candle_reply.split)

lemma sound_mono: "sound m P \<Longrightarrow> (\<And>x. P x \<Longrightarrow> Q x) \<Longrightarrow> sound m Q"
  by (induction m) auto

lemma sound_for:
  "(\<And>x. x \<in> set xs \<Longrightarrow> sound (f x) (\<lambda>_. True)) \<Longrightarrow> sound (prog_for xs f) (\<lambda>_. True)"
proof (induction xs)
  case (Cons x xs)
  have "sound (f x) (\<lambda>x. case x of Inl e \<Rightarrow> True | Inr y \<Rightarrow> True)"
    by (rule sound_mono [of _ "\<lambda>_. True"]) (use Cons.prems in \<open>auto split: sum.split\<close>)
  then show ?case using Cons by (auto intro: sound_then [where P = "\<lambda>_. True"])
qed simp

lemma sound_points:
  "sound (period_points iso_of i t policy cid)
     (\<lambda>x. case x of Inl e \<Rightarrow> True | Inr points \<Rightarrow> \<forall>z\<in>set points. ohlc_ok (snd z))"
proof (cases "BUCKET_SOURCE i")
  case None
  show ?thesis unfolding period_points_def Let_def None option.case
    by (rule sound_then [OF sound_await]) (auto split: candle_reply.split simp: swap_point_ok)
next
  case (Some j)
  show ?thesis unfolding period_points_def Let_def Some option.case
    by (rule sound_then [OF sound_await]) (auto split: candle_reply.split sum.split simp: result_iffs)
qed

lemma sound_period: "sound (aggregatePeriod iso_of i t policy cid) (\<lambda>_. True)"
  unfolding aggregatePeriod_def
proof (rule sound_then [OF sound_points])
  fix points :: "(string \<times> ohlcv) list" assume ok: "\<forall>z\<in>set points. ohlc_ok (snd z)"
  have upsert: "sound (prog_then (db_await (Upsert_Candle \<lparr>ca_poolId = p, ca_interval = i, ca_periodStart = t, ca_ohlcv = x\<rparr>))
      (\<lambda>_. Ret (Inr ()))) (\<lambda>_. True)" if "(p, x) \<in> set (by_pool points)" for p x
    by (rule sound_then [OF sound_await]) (use by_pool_ok [OF ok that] in auto)
  have "sound (prog_for (by_pool points) (\<lambda>(p, x). prog_then
      (db_await (Upsert_Candle \<lparr>ca_poolId = p, ca_interval = i, ca_periodStart = t, ca_ohlcv = x\<rparr>)) (\<lambda>_. Ret (Inr ()))))
      (\<lambda>x. case x of Inl e \<Rightarrow> True | Inr y \<Rightarrow> True)"
    by (rule sound_mono [OF sound_for]) (use upsert in \<open>auto split: sum.split\<close>)
  then show "sound (let byPool = by_pool points in prog_then (prog_for byPool (\<lambda>(p, x). prog_then
      (db_await (Upsert_Candle \<lparr>ca_poolId = p, ca_interval = i, ca_periodStart = t, ca_ohlcv = x\<rparr>)) (\<lambda>_. Ret (Inr ()))))
      (\<lambda>_. Ret (Inr (length byPool)))) (\<lambda>_. True)"
    unfolding Let_def by (rule sound_then) simp_all
qed simp

lemma sound_exclusive: "sound (runExclusive key cid (aggregatePeriod iso_of i t policy cid)) (\<lambda>_. True)"
proof -
  have "sound (prog_bind (aggregatePeriod iso_of i t policy cid) (\<lambda>x. Call (Release key) (\<lambda>_. Ret x))) (\<lambda>_. True)"
    by (rule sound_bind [OF sound_period]) simp
  then show ?thesis by (simp add: runExclusive_def prog_finally_def)
qed

lemma sound_true_then: "sound m (\<lambda>_. True) \<Longrightarrow> (\<And>y. sound (f y) (\<lambda>_. True)) \<Longrightarrow> sound (prog_then m f) (\<lambda>_. True)"
  unfolding prog_then_def by (erule sound_bind) (simp split: sum.split)

lemma sound_loop: "sound (backfill_loop iso_of i policy cid b a n) (\<lambda>_. True)"
proof (induction a arbitrary: n rule: periods_induct [OF INTERVAL_MS_pos [of i], where b = b, case_names stop step])
  case (stop a)
  then show ?case by (subst backfill_loop.simps) simp
next
  case (step a)
  then show ?case
    by (subst backfill_loop.simps) (auto intro!: sound_true_then sound_exclusive)
qed

lemma sound_job: "sound (job_prog iso_of jb) (\<lambda>_. True)"
proof (cases jb)
  case (Aggregate now name actor cid policy)
  then show ?thesis
    by (auto simp: aggregate_def Let_def split: sum.split intro!: sound_true_then sound_exclusive)
next
  case (Backfill now name actor cid policy)
  have "sound (db_await First_Swap) (\<lambda>_. True)" by (rule sound_mono [OF sound_await]) auto
  then show ?thesis
    by (auto simp: Backfill backfill_def Let_def split: sum.split candle_reply.split option.split
        intro!: sound_true_then sound_loop)
qed

lemma sound_feed:
  "sound m Q \<Longrightarrow> (\<forall>e\<in>set lg. reply_ok (snd e)) \<Longrightarrow> feed m lg = Some m' \<Longrightarrow> sound m' Q"
proof (induction m arbitrary: lg)
  case (Call c f)
  show ?case
  proof (cases lg)
    case (Cons e rest)
    obtain r where e: "e = (c, r)" and rest: "feed (f r) rest = Some m'"
      using Call.prems(3) Cons by (cases e) (simp split: if_splits)
    show ?thesis using Call.prems(1,2) Call.IH [OF rangeI _ _ rest] by (simp add: Cons e)
  next
    case Nil
    then have "m' = Call c f" using Call.prems(3) by simp
    then show ?thesis using Call.prems(1) by (simp del: sound.simps)
  qed
qed (auto split: if_splits)

lemma answers_ok:
  assumes "series_ok V" and "candle_answers c V r" and "c \<in> db_calls"
  shows "reply_ok r"
proof (cases c)
  case (Swaps_In a b)
  then obtain ws where r: "r = CSwaps ws" "mset ws = filter_mset (\<lambda>w. a \<le> rs_createdAt w \<and> rs_createdAt w < b) (cv_swaps V)"
    using assms(2) by auto
  have "priced w" if "w \<in> set ws" for w
  proof -
    have "w \<in># mset ws" using that by simp
    then have "w \<in># cv_swaps V" unfolding r(2) by simp
    then show ?thesis using assms(1) by (simp add: series_ok_def)
  qed
  then show ?thesis by (simp add: r(1))
next
  case (Candles_In i a b)
  then obtain cs where "r = CCandles cs" "\<forall>c\<in>set cs. is_row V c" using assms(2) by auto
  then show ?thesis using assms(1) by (auto simp: series_ok_def is_row_def row_key_def)
next
  case (Ticks_After p i u n)
  then obtain cs where "r = CCandles (take n cs)" "\<forall>c\<in>set cs. is_row V c" using assms(2) by auto
  then show ?thesis using assms(1) by (auto simp: series_ok_def is_row_def row_key_def dest!: in_set_takeD)
qed (use assms(2,3) in auto)

lemma effect_ok: "series_ok V \<Longrightarrow> call_ok c \<Longrightarrow> series_ok (candle_effect c V)"
  by (cases c) (auto simp: series_ok_def split: if_splits)

lemma service_keeps_series:
  assumes db: "candle_ok db view" and ok: "series_ok (view s)" and c: "call_ok c"
    and exec: "candle_service db c (s, fl) = (r, (s', fl'))"
  shows "series_ok (view s') \<and> reply_ok r"
proof (cases "c \<in> db_calls")
  case True
  then have d: "db c s = (r, s')" using exec by (cases c) (auto split: prod.splits)
  from db have "(candle_answers c (view s) r \<and> view s' = candle_effect c (view s)) \<or>
      (\<exists>e. r = CErr e \<and> (view s' = view s \<or> view s' = candle_effect c (view s)))"
    using d unfolding candle_ok_def by blast
  then show ?thesis using answers_ok [OF ok _ True] effect_ok [OF ok c] ok by auto
next
  case False
  then show ?thesis using exec ok by (cases c) (auto split: if_splits)
qed

text \<open>C33: In any interleaving of candle jobs, with any calls failing and priced swaps arriving, every candle in the
  table is well formed: its prices are numbers, the low below and the high above open and close.\<close>

theorem candles_stay_wellformed:
  assumes "candle_ok db view" and "series_ok (view s)"
    and "steps (candle_service db) (swaps_arrive view) (map (job_prog iso_of) jobs, (s, fl)) tr (ts', (s', fl'))"
  shows "series_ok (view s')"
proof -
  have "series_ok (view s') \<and> (\<forall>e\<in>set tr. reply_ok (snd (snd e)))"
    using assms(3)
  proof (induction "(map (job_prog iso_of) jobs, (s, fl))" tr "(ts', (s', fl'))" arbitrary: ts' s' fl' rule: steps.induct)
    case steps_refl
    then show ?case using assms(2) by simp
  next
    case (steps_drift tr ts a s' fl')
    obtain s1 fl1 where a: "a = (s1, fl1)" by (cases a)
    have "series_ok (view s1) \<and> (\<forall>e\<in>set tr. reply_ok (snd (snd e)))" using steps_drift.hyps(2) a by simp
    then show ?case using steps_drift.hyps(3) unfolding a swaps_arrive_def series_ok_def by auto
  next
    case (steps_call tr ts a i c k r s' fl')
    obtain s1 fl1 where a: "a = (s1, fl1)" by (cases a)
    have IH: "series_ok (view s1) \<and> (\<forall>e\<in>set tr. reply_ok (snd (snd e)))" using steps_call.hyps(2) a by simp
    have st: "steps (candle_service db) (swaps_arrive view) (map (job_prog iso_of) jobs, (s, fl)) tr (ts, a)"
      by (rule steps_call.hyps(1))
    have len: "i < length jobs" using steps_length [OF st] steps_call.hyps(3) by simp
    have feed: "feed (job_prog iso_of (jobs ! i)) (events_of i tr) = Some (Call c k)"
      using steps_feed [OF st] len steps_call.hyps(4) by simp
    have "\<forall>e\<in>set (events_of i tr). reply_ok (snd e)" using IH by (auto simp: events_of_def)
    from sound_feed [OF sound_job this feed] have "call_ok c" by simp
    then show ?case
      using service_keeps_series [OF assms(1) _ _ steps_call.hyps(5) [unfolded a]] IH by auto
  qed
  then show ?thesis by blast
qed

section \<open>Instances\<close>

definition demo_jobs :: "candle_job list" where
  "demo_jobs = [Aggregate 200000 ''1m'' (Some demo_writer) ''c1'' Strict, Aggregate 200000 ''1m'' (Some demo_writer) ''c2'' Strict]"

lemma demo_job:
  "job_prog show_int (Aggregate 200000 ''1m'' (Some demo_writer) cid Strict) =
   prog_then (runExclusive (period_key show_int M1 120000) cid (aggregatePeriod show_int M1 120000 Strict cid))
     (\<lambda>written. Ret (Inr ()))"
proof -
  have "authorize (Some demo_writer) cid = Inr ()"
    by (simp add: authorize_def demo_writer_def ALLOWED_ROLES_def)
  then show ?thesis by (simp add: aggregate_def assertInterval_def Let_def period_floor_def)
qed

text \<open>The second job asks for the period the first one has in hand, and is refused.\<close>

lemma demo_overlap:
  "\<exists>ts s. schedule (candle_service mem_candles) [0, 1] (map (job_prog show_int) demo_jobs, (([demo_swap], []), [])) =
     (ts, (s, [period_key show_int M1 120000])) \<and> (\<exists>e. ts ! 1 = Ret (Inl e))"
  by (simp add: schedule_def schedule_one_def demo_jobs_def demo_job runExclusive_def del: job_prog.simps)

theorem candle_period_exclusive_witness:
  "\<exists>tr ts' s' fl'. steps (candle_service mem_candles) (swaps_arrive mem_candle_view)
      (map (job_prog show_int) demo_jobs, (([demo_swap], []), [])) tr (ts', (s', fl')) \<and>
     (\<exists>e. ts' ! 1 = Ret (Inl e)) \<and> held (events_of 1 tr) = [] \<and>
     (\<forall>k. card {i. i < length demo_jobs \<and> k \<in> set (held (events_of i tr))} \<le> 1)"
proof -
  obtain tr ts' s' where st: "steps (candle_service mem_candles) (swaps_arrive mem_candle_view)
      (map (job_prog show_int) demo_jobs, (([demo_swap], []), [])) tr (ts', (s', [period_key show_int M1 120000]))"
    and e: "\<exists>e. ts' ! 1 = Ret (Inl e)"
    using schedule_steps [of "candle_service mem_candles" "swaps_arrive mem_candle_view"] demo_overlap by metis
  have "1 < length demo_jobs" by (simp add: demo_jobs_def)
  then have "held (events_of 1 tr) = []" "\<forall>k. card {i. i < length demo_jobs \<and> k \<in> set (held (events_of i tr))} \<le> 1"
    using candle_period_exclusive [OF st] e by blast+
  then show ?thesis using st e
    by (intro exI [of _ tr] exI [of _ ts'] exI [of _ s'] exI [of _ "[period_key show_int M1 120000]"] conjI)
qed

lemma reliable_ok: "candle_reliable db view \<Longrightarrow> candle_ok db view"
  unfolding candle_reliable_def candle_ok_def by blast

lemma demo_priced: "series_ok (mem_candle_view ([demo_swap], []))"
proof -
  have "num_of_string ''4'' \<noteq> NaN" by code_simp
  then show ?thesis by (simp add: series_ok_def mem_candle_view_def priced_def demo_swap_def)
qed

theorem candles_stay_wellformed_witness:
  "\<exists>tr ts' s' fl'. steps (candle_service mem_candles) (swaps_arrive mem_candle_view)
      (map (job_prog show_int) [Aggregate 200000 ''1m'' (Some demo_writer) ''c'' Strict], (([demo_swap], []), [])) tr (ts', (s', fl')) \<and>
     ts' = [Ret (Inr ())] \<and> series_ok (mem_candle_view s')"
proof -
  let ?m = "job_prog show_int (Aggregate 200000 ''1m'' (Some demo_writer) ''c'' Strict)"
  let ?key = "period_key show_int M1 120000"
  obtain n s1 where "run (candle_service mem_candles) (aggregatePeriod show_int M1 120000 Strict ''c'') (([demo_swap], []), [?key]) =
      (Inr n, (s1, [?key]))"
    using run_period [OF mem_candles_reliable, of M1] by (metis BUCKET_SOURCE.simps(2))
  from run_exclusive_free [OF _ this] have ex: "run (candle_service mem_candles) ?m (([demo_swap], []), []) = (Inr (), (s1, []))"
    by (simp add: demo_job run_then del: job_prog.simps)
  obtain tr where "steps (candle_service mem_candles) (swaps_arrive mem_candle_view) ([?m], (([demo_swap], []), [])) tr
      ([Ret (fst (run (candle_service mem_candles) ?m (([demo_swap], []), [])))], snd (run (candle_service mem_candles) ?m (([demo_swap], []), [])))"
    using run_steps [of "candle_service mem_candles" "swaps_arrive mem_candle_view" ?m] by blast
  then have st: "steps (candle_service mem_candles) (swaps_arrive mem_candle_view)
      (map (job_prog show_int) [Aggregate 200000 ''1m'' (Some demo_writer) ''c'' Strict], (([demo_swap], []), [])) tr
      ([Ret (Inr ())], (s1, []))" by (simp only: ex fst_conv snd_conv list.map)
  show ?thesis using candles_stay_wellformed [OF reliable_ok [OF mem_candles_reliable] demo_priced st] st by blast
qed

end
