(* ===== verification/Ticks_Laws.thy ===== *)
theory Ticks_Laws
  imports Candle_Laws
begin

text \<open>The ticks endpoint: who may read, what a page is, and that following the cursors reads every candle once.\<close>

text \<open>What the code relies on of dates and cursors: a printed date is read back, and a cursor is not empty.\<close>

definition date_text_ok :: "date_text \<Rightarrow> bool" where
  "date_text_ok D = (\<forall>t. dt_parse D (dt_unbase64url D (dt_base64url D (dt_iso D t))) = Some t \<and>
     dt_base64url D (dt_iso D t) \<noteq> [])"

text \<open>A client that reads a page, and then the page of its cursor until there is none; \<open>n\<close> pages at most.\<close>

fun read_all ::
  "(candle_call, candle_reply, 's) service \<Rightarrow> date_text \<Rightarrow> candle_actor option \<Rightarrow> string \<Rightarrow> nat \<Rightarrow> ticks_query \<Rightarrow> 's \<Rightarrow>
   tick_dto list option" where
  "read_all db D actor cid 0 q s = None"
| "read_all db D actor cid (Suc n) q s = (case run db (getTicks D q actor cid) s of
     (Inr page, s') \<Rightarrow> (case tp_nextCursor page of
         None \<Rightarrow> Some (tp_data page)
       | Some c \<Rightarrow> map_option (\<lambda>more. tp_data page @ more) (read_all db D actor cid n (q\<lparr>tq_cursor := Some c\<rparr>) s'))
   | (Inl e, s') \<Rightarrow> None)"

definition tick_rows :: "candle_view \<Rightarrow> string \<Rightarrow> candle_interval \<Rightarrow> int option \<Rightarrow> candle_row set" where
  "tick_rows V p i after = {c. is_row V c \<and> ca_poolId c = p \<and> ca_interval c = i \<and>
     (case after of None \<Rightarrow> True | Some t \<Rightarrow> t < ca_periodStart c)}"

lemma tick_rows_inj: "inj_on ca_periodStart (tick_rows V p i after)"
  by (rule inj_onI) (auto simp: tick_rows_def is_row_def row_key_def intro!: candle_row.equality)

definition lists_rows :: "candle_view \<Rightarrow> string \<Rightarrow> candle_interval \<Rightarrow> int option \<Rightarrow> candle_row list \<Rightarrow> bool" where
  "lists_rows V p i after cs = (sorted (map ca_periodStart cs) \<and> distinct cs \<and> set cs = tick_rows V p i after)"

lemma lists_rows_strict:
  assumes "lists_rows V p i after cs"
  shows "sorted_wrt (<) (map ca_periodStart cs)"
  using assms tick_rows_inj [of V p i after] by (auto simp: lists_rows_def strict_sorted_iff distinct_map)

lemma lists_rows_unique:
  assumes "lists_rows V p i after cs" and "lists_rows V p i after cs'"
  shows "cs = cs'"
  using assms lists_rows_strict [OF assms(1)] lists_rows_strict [OF assms(2)] tick_rows_inj [of V p i after]
  unfolding lists_rows_def strict_sorted_iff
  by (intro map_sorted_distinct_set_unique [where f = ca_periodStart]) auto

text \<open>The rows after the last one of a page are the rest of the list.\<close>

lemma lists_rows_drop:
  assumes cs: "lists_rows V p i after cs" and n: "0 < n" "n < length cs"
  shows "lists_rows V p i (Some (ca_periodStart (cs ! (n - 1)))) (drop n cs)"
proof -
  have split: "cs = take n cs @ drop n cs" by simp
  have strict: "sorted_wrt (<) (map ca_periodStart cs)" by (rule lists_rows_strict [OF cs])
  have last: "cs ! (n - 1) \<in> set (take n cs)"
    unfolding in_set_conv_nth using n by (intro exI [of _ "n - 1"]) simp
  have le: "ca_periodStart c \<le> ca_periodStart (cs ! (n - 1))" if c: "c \<in> set (take n cs)" for c
  proof -
    obtain j where "j < length (take n cs)" "take n cs ! j = c" using c unfolding in_set_conv_nth by blast
    then have j: "j < n" "c = cs ! j" by simp_all
    show ?thesis
    proof (cases "j = n - 1")
      case False
      then have "map ca_periodStart cs ! j < map ca_periodStart cs ! (n - 1)"
        using sorted_wrt_nth_less [OF strict, of j "n - 1"] j n by simp
      then show ?thesis using j n by simp
    qed (simp add: j)
  qed
  have gt: "ca_periodStart (cs ! (n - 1)) < ca_periodStart c" if "c \<in> set (drop n cs)" for c
  proof -
    have "sorted_wrt (<) (map ca_periodStart (take n cs) @ map ca_periodStart (drop n cs))"
      using strict by (metis append_take_drop_id map_append)
    then show ?thesis using last that by (auto simp: sorted_wrt_append)
  qed
  have later: "tick_rows V p i (Some (ca_periodStart (cs ! (n - 1)))) =
      {c \<in> tick_rows V p i after. ca_periodStart (cs ! (n - 1)) < ca_periodStart c}"
  proof -
    have "cs ! (n - 1) \<in> set cs" using last by (rule in_set_takeD)
    then have "cs ! (n - 1) \<in> tick_rows V p i after" using cs by (simp add: lists_rows_def)
    then show ?thesis by (auto simp: tick_rows_def split: option.splits)
  qed
  have "set (drop n cs) = {c \<in> set cs. ca_periodStart (cs ! (n - 1)) < ca_periodStart c}"
  proof (intro set_eqI iffI)
    fix c assume "c \<in> set (drop n cs)"
    then show "c \<in> {c \<in> set cs. ca_periodStart (cs ! (n - 1)) < ca_periodStart c}" using gt by (auto dest: in_set_dropD)
  next
    fix c assume c: "c \<in> {c \<in> set cs. ca_periodStart (cs ! (n - 1)) < ca_periodStart c}"
    then have "c \<notin> set (take n cs)" using le by fastforce
    moreover have "c \<in> set (take n cs) \<union> set (drop n cs)" using c set_append [of "take n cs" "drop n cs"] by auto
    ultimately show "c \<in> set (drop n cs)" by blast
  qed
  moreover have "sorted (map ca_periodStart (drop n cs))"
    using cs by (simp add: lists_rows_def drop_map [symmetric] sorted_wrt_drop)
  ultimately show ?thesis using cs later by (simp add: lists_rows_def)
qed

lemma resolveLimit_bounds:
  assumes "resolveLimit limit cid = Inr n"
  shows "0 < n \<and> n \<le> TICKS_MAX_LIMIT"
proof (cases limit)
  case None
  then show ?thesis using assms by (simp add: resolveLimit_def TICKS_DEFAULT_LIMIT_def TICKS_MAX_LIMIT_def)
next
  case (Some l)
  then obtain x where l: "l = Fin x" using assms by (cases l) (auto simp: resolveLimit_def split: if_splits)
  have "1 \<le> x" "x \<le> 1000" "n = nat \<lfloor>x\<rfloor>"
    using assms Some l by (auto simp: resolveLimit_def TICKS_MAX_LIMIT_def split: if_splits)
  moreover have "1 \<le> \<lfloor>x\<rfloor>" "\<lfloor>x\<rfloor> \<le> 1000" using calculation(1,2) by linarith+
  ultimately show ?thesis by (simp add: TICKS_MAX_LIMIT_def nat_le_iff)
qed

lemma answer_lists_rows:
  "candle_answers (Ticks_After p i after n) V r \<longleftrightarrow> (\<exists>cs. r = CCandles (take n cs) \<and> lists_rows V p i after cs)"
  by (simp add: lists_rows_def tick_rows_def)

lemma run_getTicks:
  assumes "candle_reliable db view" and "authorizeTicks actor cid = Inr ()"
    and "assertInterval (case tq_interval q of Some i \<Rightarrow> i | None \<Rightarrow> ''1m'') cid = Inr i"
    and "resolveLimit (tq_limit q) cid = Inr limit" and "decodeCursor D (tq_cursor q) cid = Inr after"
    and "lists_rows (view s) (tq_poolId q) i after cs"
  shows "\<exists>s'. run db (getTicks D q actor cid) s = (Inr (ticks_page_of D limit cid (take (limit + 1) cs)), s') \<and> view s' = view s"
proof -
  obtain r s' where d: "db (Ticks_After (tq_poolId q) i after (limit + 1)) s = (r, s')" by (rule prod.exhaust)
  have "candle_answers (Ticks_After (tq_poolId q) i after (limit + 1)) (view s) r" and v: "view s' = view s"
    using assms(1) d unfolding candle_reliable_def by fastforce+
  then obtain cs' where "r = CCandles (take (limit + 1) cs')" "lists_rows (view s) (tq_poolId q) i after cs'"
    unfolding answer_lists_rows by blast
  then have "r = CCandles (take (limit + 1) cs)" using lists_rows_unique [OF assms(6)] by blast
  then show ?thesis using d v assms(2-5) by (simp add: getTicks_def)
qed

lemma decode_encode: "date_text_ok D \<Longrightarrow> decodeCursor D (Some (encodeCursor D t)) cid = Inr (Some t)"
  by (simp add: decodeCursor_def encodeCursor_def date_text_ok_def)

lemma ticks_page_last:
  "length cs \<le> limit \<Longrightarrow> ticks_page_of D limit cid (take (limit + 1) cs) =
     \<lparr>tp_data = map (tick_of D) cs, tp_nextCursor = None, tp_correlationId = cid\<rparr>"
  by (simp add: ticks_page_of_def Let_def)

lemma ticks_page_more:
  assumes "0 < limit" and "limit < length cs"
  shows "ticks_page_of D limit cid (take (limit + 1) cs) =
     \<lparr>tp_data = map (tick_of D) (take limit cs), tp_nextCursor = Some (encodeCursor D (ca_periodStart (cs ! (limit - 1)))),
      tp_correlationId = cid\<rparr>"
proof -
  have ne: "take limit cs \<noteq> []" using assms by auto
  have "take limit (take (limit + 1) cs) = take limit cs" by simp
  moreover have "last (take limit cs) = cs ! (limit - 1)" using assms ne by (simp add: last_conv_nth)
  ultimately show ?thesis using assms ne by (simp add: ticks_page_of_def Let_def del: take_eq_Nil)
qed

lemma read_all_rows:
  assumes "candle_reliable db view" and "date_text_ok D" and "authorizeTicks actor cid = Inr ()"
    and "assertInterval (case tq_interval q of Some i \<Rightarrow> i | None \<Rightarrow> ''1m'') cid = Inr i"
    and "resolveLimit (tq_limit q) cid = Inr limit" and "decodeCursor D (tq_cursor q) cid = Inr after"
    and "lists_rows (view s) (tq_poolId q) i after cs" and "length cs \<le> n"
  shows "read_all db D actor cid (Suc n) q s = Some (map (tick_of D) cs)"
  using assms(4-8)
proof (induction n arbitrary: q after cs s)
  case 0
  obtain s' where "run db (getTicks D q actor cid) s = (Inr (ticks_page_of D limit cid (take (limit + 1) cs)), s')"
    using run_getTicks [OF assms(1,3) 0(1-4)] by blast
  then show ?case using 0(5) ticks_page_last [of cs limit D cid] by simp
next
  case (Suc n)
  obtain s' where run: "run db (getTicks D q actor cid) s = (Inr (ticks_page_of D limit cid (take (limit + 1) cs)), s')"
    and v: "view s' = view s"
    using run_getTicks [OF assms(1,3) Suc.prems(1-4)] by blast
  have pos: "0 < limit" using resolveLimit_bounds [OF Suc.prems(2)] by blast
  show ?case
  proof (cases "length cs \<le> limit")
    case True
    then show ?thesis by (simp only: read_all.simps run prod.case sum.case ticks_page_last ticks_page.select_convs option.case)
  next
    case False
    let ?t = "ca_periodStart (cs ! (limit - 1))"
    have "read_all db D actor cid (Suc n) (q\<lparr>tq_cursor := Some (encodeCursor D ?t)\<rparr>) s' =
        Some (map (tick_of D) (drop limit cs))"
    proof (rule Suc.IH)
      show "lists_rows (view s') (tq_poolId (q\<lparr>tq_cursor := Some (encodeCursor D ?t)\<rparr>)) i (Some ?t) (drop limit cs)"
        using lists_rows_drop [OF Suc.prems(4) pos] False v by simp
    qed (use Suc.prems pos False decode_encode [OF assms(2)] in simp_all)
    then show ?thesis using False pos
      by (simp only: read_all.simps(2) [of _ _ _ _ "Suc n"] run prod.case sum.case ticks_page_more not_le
          ticks_page.select_convs option.case option.map map_append [symmetric] append_take_drop_id)
  qed
qed

text \<open>C39: A reader that follows the cursors, with any page limit the endpoint accepts, gets every candle of the pool and
  interval exactly once and in order of time, and comes to the end after at most one page more than candles.\<close>

theorem ticks_pages_complete:
  assumes "candle_reliable db view" and "date_text_ok D" and "authorizeTicks actor cid = Inr ()"
    and "assertInterval (case tq_interval q of Some i \<Rightarrow> i | None \<Rightarrow> ''1m'') cid = Inr i"
    and "resolveLimit (tq_limit q) cid = Inr limit" and "tq_cursor q = None"
  shows "\<exists>cs. sorted_wrt (<) (map ca_periodStart cs) \<and>
     set cs = {c. is_row (view s) c \<and> ca_poolId c = tq_poolId q \<and> ca_interval c = i} \<and>
     read_all db D actor cid (Suc (length cs)) q s = Some (map (tick_of D) cs)"
proof -
  obtain r s' where d: "db (Ticks_After (tq_poolId q) i None 0) s = (r, s')" by (rule prod.exhaust)
  have "candle_answers (Ticks_After (tq_poolId q) i None 0) (view s) r"
    using assms(1) d unfolding candle_reliable_def by blast
  then obtain cs where cs: "lists_rows (view s) (tq_poolId q) i None cs" unfolding answer_lists_rows by blast
  have "decodeCursor D (tq_cursor q) cid = Inr None" using assms(6) by (simp add: decodeCursor_def)
  from read_all_rows [OF assms(1-5) this cs order_refl] show ?thesis
    using lists_rows_strict [OF cs] cs by (intro exI [of _ cs]) (simp add: lists_rows_def tick_rows_def)
qed

section \<open>An instance\<close>

text \<open>Decimal milliseconds for dates, read back by \<^verbatim>\<open>BigInt\<close>.\<close>

definition demo_dates :: date_text where
  "demo_dates = \<lparr>dt_iso = show_int, dt_parse = bigint_of_string, dt_base64url = (\<lambda>s. CHR ''c'' # s), dt_unbase64url = tl\<rparr>"

definition demo_reader :: candle_actor where
  "demo_reader = \<lparr>ac_id = ''ui'', ac_roles = [''ticks:read'']\<rparr>"

definition demo_query :: ticks_query where
  "demo_query = \<lparr>tq_poolId = ''p'', tq_interval = None, tq_limit = Some (Fin 1), tq_cursor = None\<rparr>"

definition demo_candles :: mem_candles_state where
  "demo_candles = ([], [((''p'', M1, 0), flat_candle), ((''p'', M1, 60000), flat_candle)])"

theorem ticks_pages_complete_witness:
  "\<exists>ticks. length ticks = 2 \<and> read_all mem_candles demo_dates (Some demo_reader) ''c'' 3 demo_query demo_candles = Some ticks"
proof -
  have dates: "date_text_ok demo_dates" by (simp add: date_text_ok_def demo_dates_def bigint_round_trip)
  have auth: "authorizeTicks (Some demo_reader) ''c'' = Inr ()"
    by (simp add: authorizeTicks_def demo_reader_def TICKS_READ_ROLES_def)
  have interval: "assertInterval (case tq_interval demo_query of Some i \<Rightarrow> i | None \<Rightarrow> ''1m'') ''c'' = Inr M1"
    by (simp add: demo_query_def assertInterval_def)
  have limit: "resolveLimit (tq_limit demo_query) ''c'' = Inr 1" "tq_cursor demo_query = None"
    by (simp_all add: resolveLimit_def demo_query_def TICKS_MAX_LIMIT_def)
  obtain cs where cs: "sorted_wrt (<) (map ca_periodStart cs)"
    "set cs = {c. is_row (mem_candle_view demo_candles) c \<and> ca_poolId c = tq_poolId demo_query \<and> ca_interval c = M1}"
    and all: "read_all mem_candles demo_dates (Some demo_reader) ''c'' (Suc (length cs)) demo_query demo_candles =
      Some (map (tick_of demo_dates) cs)"
    using ticks_pages_complete [OF mem_candles_reliable dates auth interval limit] by blast
  have "distinct cs" using cs(1) by (simp add: strict_sorted_iff distinct_map)
  moreover have "set cs = {\<lparr>ca_poolId = ''p'', ca_interval = M1, ca_periodStart = 0, ca_ohlcv = flat_candle\<rparr>,
      \<lparr>ca_poolId = ''p'', ca_interval = M1, ca_periodStart = 60000, ca_ohlcv = flat_candle\<rparr>}"
    unfolding cs(2) by (auto simp: is_row_def row_key_def mem_candle_view_def demo_candles_def demo_query_def split: if_splits)
  ultimately have "length cs = 2" using distinct_card [of cs] by simp
  then show ?thesis using all by (simp add: numeral_3_eq_3 numeral_2_eq_2)
qed

end
