(* ===== verification/Prog_Wp.thy ===== *)
theory Prog_Wp
  imports Service_Prog
begin

text \<open>
  Weakest preconditions of a handler that runs while its surroundings change the state between its calls:
  \<open>wp exec drift m Q s\<close> says that \<open>m\<close>, started in \<open>s\<close>, can only end in results and states that satisfy \<open>Q\<close>.
  An assertion is used across a call only if it is stable under \<open>drift\<close>.
\<close>

primrec wp ::
  "('c, 'r, 's) service \<Rightarrow> ('s \<Rightarrow> 's \<Rightarrow> bool) \<Rightarrow> ('c, 'r, 'a) prog \<Rightarrow> ('a \<Rightarrow> 's \<Rightarrow> bool) \<Rightarrow> 's \<Rightarrow> bool" where
  "wp exec drift (Ret x) Q s = (\<forall>s'. drift\<^sup>*\<^sup>* s s' \<longrightarrow> Q x s')"
| "wp exec drift (Call c k) Q s =
     (\<forall>s1 r s2. drift\<^sup>*\<^sup>* s s1 \<longrightarrow> exec c s1 = (r, s2) \<longrightarrow> wp exec drift (k r) Q s2)"

definition stays :: "('s \<Rightarrow> 's \<Rightarrow> bool) \<Rightarrow> ('s \<Rightarrow> bool) \<Rightarrow> bool" where
  "stays drift P = (\<forall>s s'. P s \<longrightarrow> drift s s' \<longrightarrow> P s')"

lemma stays_star: "drift\<^sup>*\<^sup>* s s' \<Longrightarrow> stays drift P \<Longrightarrow> P s \<Longrightarrow> P s'"
  by (induction rule: rtranclp_induct) (auto simp: stays_def)

lemma wp_drift: "wp exec drift m Q s \<Longrightarrow> drift\<^sup>*\<^sup>* s s' \<Longrightarrow> wp exec drift m Q s'"
  by (cases m) (auto intro: rtranclp_trans)

lemma wp_ret: "stays drift (Q x) \<Longrightarrow> Q x s \<Longrightarrow> wp exec drift (Ret x) Q s"
  using stays_star by fastforce

lemma wp_call:
  assumes "stays drift P" and "P s" and "\<And>s1 r s2. P s1 \<Longrightarrow> exec c s1 = (r, s2) \<Longrightarrow> wp exec drift (k r) Q s2"
  shows "wp exec drift (Call c k) Q s"
  using assms stays_star by fastforce

lemma wp_mono:
  "wp exec drift m Q s \<Longrightarrow> (\<And>x s. Q x s \<Longrightarrow> R x s) \<Longrightarrow> wp exec drift m R s"
  by (induction m arbitrary: s) auto

lemma wp_bind:
  "wp exec drift m (\<lambda>x. wp exec drift (f x) Q) s \<Longrightarrow> wp exec drift (prog_bind m f) Q s"
  by (induction m arbitrary: s) auto

text \<open>What holds of every result, whatever the replies are.\<close>

primrec ends :: "('c, 'r, 'a) prog \<Rightarrow> ('a \<Rightarrow> bool) \<Rightarrow> bool" where
  "ends (Ret x) P = P x"
| "ends (Call c k) P = (\<forall>r. ends (k r) P)"

lemma ends_bind: "ends m P \<Longrightarrow> (\<And>x. P x \<Longrightarrow> ends (f x) Q) \<Longrightarrow> ends (prog_bind m f) Q"
  by (induction m) auto

lemma ends_True [simp]: "ends m (\<lambda>x. True)"
  by (induction m) auto

text \<open>An assertion that the surroundings and all calls keep.\<close>

definition kept_by :: "('c, 'r, 's) service \<Rightarrow> ('s \<Rightarrow> 's \<Rightarrow> bool) \<Rightarrow> ('s \<Rightarrow> bool) \<Rightarrow> bool" where
  "kept_by exec drift J = (stays drift J \<and> (\<forall>c s r s'. exec c s = (r, s') \<longrightarrow> J s \<longrightarrow> J s'))"

lemma wp_ends: "kept_by exec drift J \<Longrightarrow> J s \<Longrightarrow> ends m P \<Longrightarrow> wp exec drift m (\<lambda>x s. P x \<and> J s) s"
proof (induction m arbitrary: s)
  case (Ret x)
  then show ?case using stays_star unfolding kept_by_def by fastforce
next
  case (Call c k)
  show ?case unfolding wp.simps
  proof (intro allI impI)
    fix s1 r s2 assume "drift\<^sup>*\<^sup>* s s1" "exec c s1 = (r, s2)"
    then have "J s2" using Call.prems(1,2) stays_star unfolding kept_by_def by meson
    then show "wp exec drift (k r) (\<lambda>x s. P x \<and> J s) s2" using Call.IH [OF rangeI Call.prems(1)] Call.prems(3) by simp
  qed
qed

text \<open>What a precondition promises holds of every interleaving.\<close>

lemma wp_steps_aux:
  "steps exec drift (ts, s) tr (ts', s') \<Longrightarrow> length ts = 1 \<Longrightarrow> wp exec drift (ts ! 0) Q s \<Longrightarrow> wp exec drift (ts' ! 0) Q s'"
proof (induction "(ts, s)" tr "(ts', s')" arbitrary: ts' s' rule: steps.induct)
  case (steps_drift tr ts1 s1 s2)
  then have "wp exec drift (ts1 ! 0) Q s1" by blast
  moreover have "drift\<^sup>*\<^sup>* s1 s2" using steps_drift.hyps(3) by blast
  ultimately show ?case by (rule wp_drift)
next
  case (steps_call tr ts1 s1 i c k r s2)
  have "length ts1 = 1" using steps_length [OF steps_call.hyps(1)] steps_call.prems(1) by simp
  then have i: "i = 0" using steps_call.hyps(3) by simp
  have "wp exec drift (Call c k) Q s1" using steps_call i by simp
  then have "wp exec drift (k r) Q s2" using steps_call.hyps(5) by auto
  then show ?case using i \<open>length ts1 = 1\<close> by simp
qed simp

lemma wp_steps:
  assumes "steps exec drift ([m], s) tr ([Ret x], s')" and "wp exec drift m Q s"
  shows "Q x s'"
proof -
  have "wp exec drift (Ret x) Q s'" using wp_steps_aux [OF assms(1)] assms(2) by simp
  then show ?thesis by simp
qed

section \<open>Call discipline\<close>

text \<open>
  \<open>meets ok may P m\<close>: whatever replies \<open>may\<close> allows, \<open>m\<close> only makes calls that are \<open>ok\<close> and ends in results with \<open>P\<close>. If the
  calls that are \<open>ok\<close> keep an invariant, and under it get such replies, handlers that run together keep to their
  discipline.
\<close>

primrec meets :: "('c \<Rightarrow> bool) \<Rightarrow> ('c \<Rightarrow> 'r \<Rightarrow> bool) \<Rightarrow> ('a \<Rightarrow> bool) \<Rightarrow> ('c, 'r, 'a) prog \<Rightarrow> bool" where
  "meets ok may P (Ret x) = P x"
| "meets ok may P (Call c k) = (ok c \<and> (\<forall>r. may c r \<longrightarrow> meets ok may P (k r)))"

abbreviation guarded :: "('c \<Rightarrow> bool) \<Rightarrow> ('c \<Rightarrow> 'r \<Rightarrow> bool) \<Rightarrow> ('c, 'r, 'a) prog \<Rightarrow> bool" where
  "guarded ok may m \<equiv> meets ok may (\<lambda>_. True) m"

lemma meets_bind: "meets ok may P m \<Longrightarrow> (\<And>x. P x \<Longrightarrow> meets ok may Q (f x)) \<Longrightarrow> meets ok may Q (prog_bind m f)"
  by (induction m) auto

lemma guarded_bind: "guarded ok may m \<Longrightarrow> (\<And>x. guarded ok may (f x)) \<Longrightarrow> guarded ok may (prog_bind m f)"
  by (rule meets_bind)

lemma guarded_then: "guarded ok may m \<Longrightarrow> (\<And>x. guarded ok may (f x)) \<Longrightarrow> guarded ok may (prog_then m f)"
  unfolding prog_then_def by (rule guarded_bind) (auto split: sum.split)

lemma steps_meets:
  assumes "steps exec drift (ts, s) tr (ts', s')"
    and "\<And>i. i < length ts \<Longrightarrow> meets ok may (P i) (ts ! i)" and "I s"
    and "\<And>c s r s'. exec c s = (r, s') \<Longrightarrow> ok c \<Longrightarrow> I s \<Longrightarrow> may c r \<and> I s'"
    and "\<And>s s'. drift s s' \<Longrightarrow> I s \<Longrightarrow> I s'"
  shows "I s' \<and> (\<forall>i < length ts'. meets ok may (P i) (ts' ! i)) \<and> (\<forall>(i, c, r) \<in> set tr. ok c)"
  using assms(1,2,3)
proof (induction "(ts, s)" tr "(ts', s')" arbitrary: ts' s' rule: steps.induct)
  case (steps_drift tr ts1 s1 s2)
  then show ?case using assms(5) by blast
next
  case (steps_call tr ts1 s1 i c k r s2)
  have IH: "I s1" "\<forall>i < length ts1. meets ok may (P i) (ts1 ! i)" "\<forall>(i, c, r) \<in> set tr. ok c" using steps_call by blast+
  then have g: "ok c" "\<And>r. may c r \<Longrightarrow> meets ok may (P i) (k r)" using steps_call.hyps(3,4) by (metis meets.simps(2))+
  have "may c r" "I s2" using assms(4) [OF steps_call.hyps(5) g(1) IH(1)] by blast+
  moreover have "\<forall>j < length (ts1[i := k r]). meets ok may (P j) (ts1[i := k r] ! j)"
  proof (intro allI impI)
    fix j assume "j < length (ts1[i := k r])"
    then show "meets ok may (P j) (ts1[i := k r] ! j)"
      using IH(2) g(2) [OF \<open>may c r\<close>] by (cases "j = i") simp_all
  qed
  ultimately show ?case using IH(3) g(1) by auto
qed auto

lemma steps_guarded:
  assumes "steps exec drift (ts, s) tr (ts', s')"
    and "\<And>m. m \<in> set ts \<Longrightarrow> guarded ok may m" and "I s"
    and "\<And>c s r s'. exec c s = (r, s') \<Longrightarrow> ok c \<Longrightarrow> I s \<Longrightarrow> may c r \<and> I s'"
    and "\<And>s s'. drift s s' \<Longrightarrow> I s \<Longrightarrow> I s'"
  shows "I s' \<and> (\<forall>m \<in> set ts'. guarded ok may m) \<and> (\<forall>(i, c, r) \<in> set tr. ok c)"
proof -
  have "I s' \<and> (\<forall>i < length ts'. guarded ok may (ts' ! i)) \<and> (\<forall>(i, c, r) \<in> set tr. ok c)"
    by (rule steps_meets [where I = I, OF assms(1) _ assms(3)]) (use assms(2,4,5) in auto)
  then show ?thesis by (metis in_set_conv_nth)
qed

text \<open>\<open>justified P past m\<close>: each call \<open>m\<close> makes is justified by what it was answered before.\<close>

primrec justified :: "(('c \<times> 'r) list \<Rightarrow> 'c \<Rightarrow> bool) \<Rightarrow> ('c \<times> 'r) list \<Rightarrow> ('c, 'r, 'a) prog \<Rightarrow> bool" where
  "justified P past (Ret x) = True"
| "justified P past (Call c k) = (P past c \<and> (\<forall>r. justified P (past @ [(c, r)]) (k r)))"

lemma justified_feed:
  "justified P past m \<Longrightarrow> feed m lg = Some m' \<Longrightarrow> lg = before @ (c, r) # rest \<Longrightarrow> P (past @ before) c"
proof (induction m arbitrary: past lg before)
  case (Call d k)
  have "lg \<noteq> []" using Call.prems(3) by simp
  then obtain q lg' where lg: "lg = (d, q) # lg'" and f: "feed (k q) lg' = Some m'"
    using Call.prems(2) by (cases lg) (auto split: if_splits)
  show ?case
  proof (cases before)
    case Nil
    then show ?thesis using Call.prems(1,3) lg by simp
  next
    case (Cons x xs)
    then have "lg' = xs @ (c, r) # rest" "x = (d, q)" using Call.prems(3) lg by simp_all
    moreover have "justified P (past @ [(d, q)]) (k q)" using Call.prems(1) by simp
    ultimately show ?thesis using Call.IH [OF rangeI _ f] Cons by fastforce
  qed
qed (simp split: if_splits)

lemma justified_bind:
  "justified P past m \<Longrightarrow> (\<And>x lg. feed m lg = Some (Ret x) \<Longrightarrow> justified P (past @ lg) (f x)) \<Longrightarrow> justified P past (prog_bind m f)"
proof (induction m arbitrary: past)
  case (Ret x)
  then show ?case using Ret.prems(2) [of "[]"] by simp
next
  case (Call c k)
  show ?case unfolding prog_bind.simps justified.simps
  proof (intro conjI allI)
    show "P past c" using Call.prems(1) by simp
    fix r
    have "feed (k r) lg = Some (Ret x) \<Longrightarrow> justified P ((past @ [(c, r)]) @ lg) (f x)" for x lg
      using Call.prems(2) [of "(c, r) # lg" x] by simp
    moreover have "justified P (past @ [(c, r)]) (k r)" using Call.prems(1) by simp
    ultimately show "justified P (past @ [(c, r)]) (prog_bind (k r) f)" using Call.IH [OF rangeI] by blast
  qed
qed

section \<open>The calls of one handler alone\<close>

primrec run_log :: "('c, 'r, 's) service \<Rightarrow> ('c, 'r, 'a) prog \<Rightarrow> 's \<Rightarrow> ('c \<times> 'r) list" where
  "run_log exec (Ret x) s = []"
| "run_log exec (Call c k) s = (case exec c s of (r, s') \<Rightarrow> (c, r) # run_log exec (k r) s')"

lemma events_of_append: "events_of i (tr @ tr') = events_of i tr @ events_of i tr'"
  by (simp add: events_of_def)

lemma run_log_steps:
  "\<exists>tr. steps exec drift ([m], s) tr ([Ret (fst (run exec m s))], snd (run exec m s)) \<and> events_of 0 tr = run_log exec m s"
proof (induction m arbitrary: s)
  case (Ret x)
  then show ?case by (auto intro: steps_refl)
next
  case (Call c k)
  obtain r s' where e: "exec c s = (r, s')" by (rule prod.exhaust)
  have one: "steps exec drift ([Call c k], s) ([] @ [(0, c, r)]) ([Call c k][0 := k r], s')"
    using e by (intro steps_call) (auto intro: steps_refl)
  obtain tr where tr: "steps exec drift ([k r], s') tr ([Ret (fst (run exec (k r) s'))], snd (run exec (k r) s'))"
    "events_of 0 tr = run_log exec (k r) s'" using Call.IH [OF rangeI] by blast
  have "steps exec drift ([Call c k], s) (([] @ [(0, c, r)]) @ tr) ([Ret (fst (run exec (k r) s'))], snd (run exec (k r) s'))"
    by (rule steps_trans [OF tr(1)]) (use one in simp)
  then show ?case using tr(2) e by (intro exI [of _ "([] @ [(0, c, r)]) @ tr"]) (simp add: events_of_append, simp add: events_of_def)
qed

lemma wp_run: "wp exec drift m Q s \<Longrightarrow> Q (fst (run exec m s)) (snd (run exec m s))"
proof (induction m arbitrary: s)
  case (Call c k)
  obtain r s' where e: "exec c s = (r, s')" by (rule prod.exhaust)
  then have "wp exec drift (k r) Q s'" using Call.prems by auto
  then show ?case using Call.IH [OF rangeI] e by simp
qed auto

text \<open>A handler of several that runs to its end before the others go on.\<close>

lemma run_steps_in:
  "i < length ts \<Longrightarrow> ts ! i = m \<Longrightarrow>
   \<exists>tr. steps exec drift (ts, s) tr (ts[i := Ret (fst (run exec m s))], snd (run exec m s))"
proof (induction m arbitrary: ts s)
  case (Ret x)
  then show ?case using list_update_id [of ts i] by (auto intro: steps_refl)
next
  case (Call c k)
  obtain r s' where e: "exec c s = (r, s')" by (rule prod.exhaust)
  have one: "steps exec drift (ts, s) ([] @ [(i, c, r)]) (ts[i := k r], s')"
    using e Call.prems by (intro steps_call) (auto intro: steps_refl)
  have "i < length (ts[i := k r])" "ts[i := k r] ! i = k r" using Call.prems(1) by simp_all
  from Call.IH [OF rangeI this] obtain tr
    where "steps exec drift (ts[i := k r], s') tr ((ts[i := k r])[i := Ret (fst (run exec (k r) s'))], snd (run exec (k r) s'))"
    by blast
  from steps_trans [OF this one] show ?case using e by auto
qed

end
