(* ===== verification/Horizon.thy ===== *)
theory Horizon
  imports Prog_Wp Replay
begin

text \<open>
  Event ingestion: \<^verbatim>\<open>apps/api/src/horizon/horizon.service.ts\<close>. A timer polls the effects of every tracked account
  page by page, publishes prices, starts tracking the pools it sees created, puts the events on the indexer's
  queues ledger by ledger, and moves the account's paging cursor.

  The state of the service is threaded through the code of one poll: \<^verbatim>\<open>polling\<close> keeps a second poll from starting.
  Horizon, the queues, the price service and the database are calls; \<open>hz_ok\<close> states what is relied on of them. The
  time-out of a request is a call that fails. The square root, the date parser and \<^verbatim>\<open>JSON.stringify\<close> are the
  parameter \<open>hz_env\<close>.
\<close>

section \<open>Records and calls\<close>

record effect_record =
  er_paging_token :: string
  er_ledger :: "jsnum option"
  er_amount :: "string option"
  er_tick :: "jsnum option"
  er_liquidity :: "string option"
  er_created_at :: string
  er_eventType :: "string option"
  er_eventId :: "string option"
  er_poolId :: "string option"
  er_tokenA :: "string option"
  er_tokenB :: "string option"
  er_fee :: "string option"
  er_sqrtPrice :: "string option"
  er_sender :: "string option"
  er_recipient :: "string option"
  er_amount0 :: "string option"
  er_amount1 :: "string option"
  er_owner :: "string option"
  er_tokenId :: "string option"
  er_tickLower :: "jsnum option"
  er_tickUpper :: "jsnum option"
  er_transactionHash :: "string option"

record price_event =
  pe_poolId :: string
  pe_currentPrice :: string
  pe_sqrtPrice :: string
  pe_tick :: jsnum
  pe_liquidity :: string
  pe_timestamp :: jsnum
  pe_change24h :: "string option"

record hz_env =
  he_sqrt :: "jsnum \<Rightarrow> jsnum"
  he_date_ms :: "string \<Rightarrow> jsnum"
  he_json :: "price_event \<Rightarrow> string"

datatype hz_call =
    Fetch_Effects string string
  | Broadcast price_event
  | Pool_State_Update string string
  | Publish_Price string string
  | Add_Bulk string "idx_job list"

datatype hz_reply = HRecords "effect_record list" | HOk | HErr string

type_synonym 'a hz_prog = "(hz_call, hz_reply, 'a) prog"

record hz_state =
  hs_tracked :: "string list"
  hs_cursors :: "(string, string) js_map"
  hs_polling :: bool
  hs_stopped :: bool
  hs_failures :: nat
  hs_nextAttemptAt :: int

section \<open>Jobs of a record\<close>

definition event_type :: "effect_record \<Rightarrow> string" where
  "event_type r = map lower_char (or_else (er_eventType r) [])"

definition pool_created_of :: "string \<Rightarrow> effect_record \<Rightarrow> pool_created_data" where
  "pool_created_of account r =
     \<lparr>pc_eventId = or_else (er_eventId r) (er_paging_token r), pc_ledger = er_ledger r,
      pc_poolId = or_else (er_poolId r) account, pc_tokenA = or_else (er_tokenA r) [], pc_tokenB = or_else (er_tokenB r) [],
      pc_fee = or_else (er_fee r) ''0'', pc_sqrtPriceX96 = or_else (er_sqrtPrice r) ''0'', pc_timestamp = None\<rparr>"

definition swap_processed_of :: "string \<Rightarrow> effect_record \<Rightarrow> swap_processed_data" where
  "swap_processed_of account r =
     \<lparr>sp_eventId = or_else (er_eventId r) (er_paging_token r), sp_ledger = er_ledger r,
      sp_poolId = or_else (er_poolId r) account, sp_sender = or_else (er_sender r) [],
      sp_recipient = or_else (er_recipient r) [], sp_amount0 = or_else (er_amount0 r) ''0'',
      sp_amount1 = or_else (er_amount1 r) ''0'', sp_sqrtPriceX96 = or_else (er_sqrtPrice r) ''0'',
      sp_liquidity = or_else (er_liquidity r) ''0'', sp_tick = or_else (er_tick r) (Fin 0),
      sp_transactionHash = er_transactionHash r, sp_feeAmount = None, sp_timestamp = Some (er_created_at r)\<rparr>"

definition position_of :: "string \<Rightarrow> effect_record \<Rightarrow> position_data" where
  "position_of account r =
     \<lparr>pd_eventId = or_else (er_eventId r) (er_paging_token r), pd_ledger = er_ledger r,
      pd_poolId = or_else (er_poolId r) account, pd_tokenId = Some (or_else (er_tokenId r) []),
      pd_owner = or_else (er_owner r) [], pd_tickLower = or_else (er_tickLower r) (Fin 0),
      pd_tickUpper = or_else (er_tickUpper r) (Fin 0), pd_liquidity = or_else (er_liquidity r) ''0'',
      pd_amount0 = or_else (er_amount0 r) ''0'', pd_amount1 = or_else (er_amount1 r) ''0''\<rparr>"

definition fees_collected_of :: "string \<Rightarrow> effect_record \<Rightarrow> fees_collected_data" where
  "fees_collected_of account r =
     \<lparr>fc_eventId = or_else (er_eventId r) (er_paging_token r), fc_ledger = er_ledger r,
      fc_poolId = or_else (er_poolId r) account, fc_recipient = or_else (er_recipient r) [],
      fc_amount0 = or_else (er_amount0 r) ''0'', fc_amount1 = or_else (er_amount1 r) ''0''\<rparr>"

text \<open>The queue and the job of a record; none if its type is unknown or a required field is missing.\<close>

definition effect_job :: "string \<Rightarrow> effect_record \<Rightarrow> (string \<times> idx_job) option" where
  "effect_job account r =
     (if event_type r = ''pool_created'' then
        (let d = pool_created_of account r in
         if pc_tokenA d \<noteq> [] \<and> pc_tokenB d \<noteq> [] then Some (''pool.created'', Pool_Created d) else None)
      else if event_type r = ''swap_processed'' then
        (let d = swap_processed_of account r in
         if sp_sender d \<noteq> [] \<and> sp_recipient d \<noteq> [] then Some (''swap.processed'', Swap_Processed d) else None)
      else if event_type r = ''position_minted'' then
        (let d = position_of account r in
         if pd_owner d \<noteq> [] \<and> pd_tokenId d \<noteq> Some [] then Some (''position.minted'', Position_Minted d) else None)
      else if event_type r = ''position_burned'' then
        (let d = position_of account r in
         if pd_owner d \<noteq> [] \<and> pd_tokenId d \<noteq> Some [] then Some (''position.burned'', Position_Burned d) else None)
      else if event_type r = ''fees_collected'' then
        (let d = fees_collected_of account r in
         if fc_recipient d \<noteq> [] then Some (''fees.collected'', Fees_Collected d) else None)
      else None)"

text \<open>\<^verbatim>\<open>Promise.all\<close> of the five \<^verbatim>\<open>addBulk\<close>s: all are started, the first failure is reported.\<close>

definition window_jobs :: "string \<Rightarrow> effect_record list \<Rightarrow> string \<Rightarrow> idx_job list" where
  "window_jobs account records queue =
     map snd (filter (\<lambda>qj. fst qj = queue) (List.map_filter (effect_job account) records))"

fun add_all :: "(string \<Rightarrow> idx_job list) \<Rightarrow> string list \<Rightarrow> string option hz_prog" where
  "add_all jobs [] = Ret None"
| "add_all jobs (q # qs) =
     (if jobs q = [] then add_all jobs qs
      else Call (Add_Bulk q (jobs q)) (\<lambda>r. prog_bind (add_all jobs qs) (\<lambda>e.
        Ret (case r of HErr x \<Rightarrow> Some x | _ \<Rightarrow> e))))"

definition batchEnqueueLedgerWindow :: "string \<Rightarrow> effect_record list \<Rightarrow> string option hz_prog" where
  "batchEnqueueLedgerWindow account records = add_all (window_jobs account records) QUEUE_NAMES"

section \<open>Prices\<close>

definition toPrice :: "hz_env \<Rightarrow> string \<Rightarrow> effect_record \<Rightarrow> price_event option" where
  "toPrice env account r =
     (case er_amount r of
        Some (c # cs) \<Rightarrow>
          (let price = num_of_string (c # cs) in
           if \<not> is_finite price \<or> jlt price (Fin 0) then None
           else Some \<lparr>pe_poolId = or_else (er_poolId r) account, pe_currentPrice = c # cs,
             pe_sqrtPrice = to_fixed 7 (he_sqrt env price), pe_tick = or_else (er_tick r) (Fin 0),
             pe_liquidity = or_else (er_liquidity r) ''0'', pe_timestamp = he_date_ms env (er_created_at r), pe_change24h = None\<rparr>)
      | _ \<Rightarrow> None)"

definition publish_price :: "hz_env \<Rightarrow> string \<Rightarrow> effect_record \<Rightarrow> string option hz_prog" where
  "publish_price env account r =
     (case toPrice env account r of
        None \<Rightarrow> Ret None
      | Some ev \<Rightarrow> Call (Broadcast ev) (\<lambda>_.
          Call (Pool_State_Update (pe_poolId ev) (pe_currentPrice ev)) (\<lambda>x. case x of
            HErr e \<Rightarrow> Ret (Some e)
          | _ \<Rightarrow> Call (Publish_Price (''prices:'' @ pe_poolId ev) (he_json env ev)) (\<lambda>_. Ret None))))"

section \<open>Polling\<close>

text \<open>A pool that was created is tracked from the cursor the page was asked for.\<close>

definition track_pool :: "string \<Rightarrow> effect_record \<Rightarrow> hz_state \<Rightarrow> hz_state" where
  "track_pool cursor r st =
     (case er_poolId r of
        Some (c # cs) \<Rightarrow>
          (if event_type r = ''pool_created'' \<and> c # cs \<notin> set (hs_tracked st)
           then st\<lparr>hs_tracked := hs_tracked st @ [c # cs], hs_cursors := jm_set (hs_cursors st) (c # cs) cursor\<rparr>
           else st)
      | _ \<Rightarrow> st)"

text \<open>Results carry the error, if any, and the state.\<close>

fun scan_records ::
  "hz_env \<Rightarrow> string \<Rightarrow> string \<Rightarrow> effect_record list \<Rightarrow> hz_state \<Rightarrow> (string option \<times> hz_state) hz_prog" where
  "scan_records env account cursor [] st = Ret (None, st)"
| "scan_records env account cursor (r # rs) st =
     prog_bind (publish_price env account r) (\<lambda>e. case e of
       Some err \<Rightarrow> Ret (Some err, st)
     | None \<Rightarrow> scan_records env account cursor rs (track_pool cursor r st))"

definition group_by_ledger :: "effect_record list \<Rightarrow> effect_record list list" where
  "group_by_ledger records = map snd (foldl (\<lambda>m r. jm_set m (er_ledger r) (or_else (jm_get m (er_ledger r)) [] @ [r])) [] records)"

fun poll_windows ::
  "hz_env \<Rightarrow> string \<Rightarrow> string \<Rightarrow> effect_record list list \<Rightarrow> hz_state \<Rightarrow> (string option \<times> hz_state) hz_prog" where
  "poll_windows env account cursor [] st = Ret (None, st)"
| "poll_windows env account cursor (w # ws) st =
     prog_bind (scan_records env account cursor w st) (\<lambda>(e, st1). case e of
       Some err \<Rightarrow> Ret (Some err, st1)
     | None \<Rightarrow> prog_bind (batchEnqueueLedgerWindow account w) (\<lambda>e. case e of
         Some err \<Rightarrow> Ret (Some err, st1)
       | None \<Rightarrow> poll_windows env account cursor ws
           (foldl (\<lambda>st r. st\<lparr>hs_cursors := jm_set (hs_cursors st) account (er_paging_token r)\<rparr>) st1 w)))"

definition pollAccount :: "hz_env \<Rightarrow> string \<Rightarrow> hz_state \<Rightarrow> (string option \<times> hz_state) hz_prog" where
  "pollAccount env account st =
     (let cursor = or_else (jm_get (hs_cursors st) account) ''now'' in
      Call (Fetch_Effects account cursor) (\<lambda>r. case r of
        HRecords records \<Rightarrow> poll_windows env account cursor (group_by_ledger records) st
      | HErr e \<Rightarrow> Ret (Some e, st)
      | _ \<Rightarrow> Ret (Some ''unexpected reply'', st)))"

text \<open>An account that fails does not keep the others from being polled.\<close>

fun poll_accounts :: "hz_env \<Rightarrow> string list \<Rightarrow> hz_state \<Rightarrow> bool \<Rightarrow> (bool \<times> hz_state) hz_prog" where
  "poll_accounts env [] st failed = Ret (failed, st)"
| "poll_accounts env (account # accounts) st failed =
     prog_bind (pollAccount env account st) (\<lambda>(e, st1). poll_accounts env accounts st1 (failed \<or> e \<noteq> None))"

definition backoff_ms :: "nat \<Rightarrow> int" where
  "backoff_ms failures = min 30000 (1000 * 2 ^ (failures - 1))"

text \<open>\<open>now\<close> and \<open>later\<close> are the two reads of the clock.\<close>

definition poll :: "hz_env \<Rightarrow> int \<Rightarrow> int \<Rightarrow> hz_state \<Rightarrow> hz_state hz_prog" where
  "poll env now later st =
     (if hs_polling st \<or> hs_stopped st \<or> now < hs_nextAttemptAt st then Ret st
      else prog_bind (poll_accounts env (hs_tracked st) (st\<lparr>hs_polling := True\<rparr>) False) (\<lambda>(failed, st1).
        Ret ((if failed
              then st1\<lparr>hs_failures := hs_failures st1 + 1, hs_nextAttemptAt := later + backoff_ms (hs_failures st1 + 1)\<rparr>
              else st1\<lparr>hs_failures := 0, hs_nextAttemptAt := 0\<rparr>)\<lparr>hs_polling := False\<rparr>)))"

text \<open>The timer: one poll after the other, each with its reads of the clock.\<close>

fun polls :: "hz_env \<Rightarrow> (int \<times> int) list \<Rightarrow> hz_state \<Rightarrow> hz_state hz_prog" where
  "polls env [] st = Ret st"
| "polls env ((now, later) # clocks) st = prog_bind (poll env now later st) (polls env clocks)"

text \<open>Start-up: the configured accounts, from the checkpoint or from now on.\<close>

definition hz_init :: "string \<Rightarrow> string \<Rightarrow> jsnum \<Rightarrow> hz_state" where
  "hz_init factory legacyPool lastLedger =
     (let tracked = remdups (filter (\<lambda>a. a \<noteq> []) [factory, legacyPool]);
          start = (if jlt (Fin 0) lastLedger then num_to_string lastLedger else ''now'')
      in \<lparr>hs_tracked = tracked, hs_cursors = map (\<lambda>a. (a, start)) tracked, hs_polling = False, hs_stopped = False,
          hs_failures = 0, hs_nextAttemptAt = 0\<rparr>)"

section \<open>Horizon and the queues\<close>

text \<open>The effects of each account in paging order, and the jobs the queues accepted.\<close>

record hz_view =
  hv_stream :: "string \<Rightarrow> effect_record list"
  hv_accepted :: "idx_job set"

text \<open>
  A page holds some of the records after the cursor, from the first one on; after \<^verbatim>\<open>now\<close> there are none yet. A queue
  accepts the jobs or fails, having accepted some of them. \<open>rank\<close> is the order of paging tokens.
\<close>

fun hz_answers :: "(string \<Rightarrow> nat) \<Rightarrow> hz_call \<Rightarrow> hz_view \<Rightarrow> hz_reply \<Rightarrow> hz_view \<Rightarrow> bool" where
  "hz_answers rank (Fetch_Effects account cursor) V r V' =
     (V' = V \<and> ((\<exists>e. r = HErr e) \<or>
        (\<exists>n. r = HRecords (if cursor = ''now'' then []
           else take n (filter (\<lambda>x. rank cursor < rank (er_paging_token x)) (hv_stream V account))))))"
| "hz_answers rank (Add_Bulk q js) V r V' =
     (hv_stream V' = hv_stream V \<and> hv_accepted V \<subseteq> hv_accepted V' \<and>
      ((\<exists>e. r = HErr e) \<or> (r = HOk \<and> set js \<subseteq> hv_accepted V')))"
| "hz_answers rank _ V r V' = (V' = V)"

definition hz_ok :: "(string \<Rightarrow> nat) \<Rightarrow> (hz_call, hz_reply, 's) service \<Rightarrow> ('s \<Rightarrow> hz_view) \<Rightarrow> bool" where
  "hz_ok rank exec view = (\<forall>c s r s'. exec c s = (r, s') \<longrightarrow> hz_answers rank c (view s) r (view s'))"

end
