(* ===== verification/Horizon_Laws.thy ===== *)
theory Horizon_Laws
  imports Horizon
begin

text \<open>
  What polling promises: with Horizon's records in order and the records of a ledger together, an account's cursor
  never passes an event whose job the queue has not accepted, whatever fails and however the chain grows; a
  page that mixes records with and without a ledger breaks this; and a cursor that starts at \<^verbatim>\<open>now\<close> stays there.
\<close>

section \<open>Groups of a page\<close>

text \<open>The elements of one key stand together.\<close>

fun together :: "('a \<Rightarrow> 'k) \<Rightarrow> 'a list \<Rightarrow> bool" where
  "together f [] = True"
| "together f (x # xs) = (together f xs \<and> (f x \<in> set (map f xs) \<longrightarrow> f (hd xs) = f x))"

lemma together_suffix: "together f (xs @ ys) \<Longrightarrow> together f ys"
  by (induction xs) auto

lemma together_Cons:
  "together f (x # y # xs) \<longleftrightarrow> together f (y # xs) \<and> (f x \<in> f ` set (y # xs) \<longrightarrow> f y = f x)"
  unfolding together.simps(2) [of f x "y # xs"] list.sel(1) set_map ..

lemma together_prefix: "together f (xs @ ys) \<Longrightarrow> together f xs"
proof (induction xs)
  case (Cons x xs)
  show ?case
  proof (cases xs)
    case (Cons y zs)
    have l: "together f (x # y # (zs @ ys))" using Cons.prems unfolding Cons append_Cons .
    note l1 = conjunct1 [OF iffD1 [OF together_Cons l]] and l2 = conjunct2 [OF iffD1 [OF together_Cons l]]
    have "together f (y # zs)" by (rule Cons.IH [unfolded Cons append_Cons, OF l1])
    moreover have "f x \<in> f ` set (y # zs) \<longrightarrow> f y = f x"
    proof
      assume "f x \<in> f ` set (y # zs)"
      moreover have "f ` set (y # zs) \<subseteq> f ` set (y # (zs @ ys))" by (rule image_mono) auto
      ultimately show "f y = f x" by (intro mp [OF l2]) (rule subsetD)
    qed
    ultimately show ?thesis unfolding Cons together_Cons by (rule conjI)
  qed simp
qed simp

lemma together_last: "together f (xs @ [r]) \<Longrightarrow> f r \<in> f ` set xs \<Longrightarrow> f (last xs) = f r"
proof (induction xs)
  case (Cons x xs)
  show ?case
  proof (cases xs)
    case (Cons y zs)
    have l: "together f (x # y # (zs @ [r]))" using Cons.prems(1) unfolding Cons append_Cons .
    note l1 = conjunct1 [OF iffD1 [OF together_Cons l]] and l2 = conjunct2 [OF iffD1 [OF together_Cons l]]
    have "f r \<in> f ` set (y # zs)"
    proof (cases "f r = f x")
      case True
      have "f r \<in> f ` set (y # (zs @ [r]))" by (rule imageI) simp
      then have "f y = f x" unfolding True by (rule mp [OF l2])
      then have "f r = f y" by (rule trans [OF True sym])
      then show ?thesis by (rule image_eqI) simp
    next
      case False
      then show ?thesis using Cons.prems(2) unfolding Cons by (auto simp only: list.set image_insert insert_iff)
    qed
    from Cons.IH [unfolded Cons append_Cons, OF l1 this] show ?thesis unfolding Cons by (simp only: last.simps list.distinct if_False)
  qed (use Cons.prems in simp)
qed simp

definition grouped :: "('a \<Rightarrow> 'k) \<Rightarrow> 'a list \<Rightarrow> ('k, 'a list) js_map" where
  "grouped f xs = foldl (\<lambda>m r. jm_set m (f r) (or_else (jm_get m (f r)) [] @ [r])) [] xs"

lemma grouped_snoc: "grouped f (xs @ [r]) = jm_set (grouped f xs) (f r) (or_else (jm_get (grouped f xs) (f r)) [] @ [r])"
  by (simp add: grouped_def)

lemma jm_set_last: "k \<notin> fst ` set m \<Longrightarrow> jm_set (m @ [(k, l)]) k v = m @ [(k, v)]"
  by (induction m) (auto simp: jm_set_def)

lemma jm_set_new: "k \<notin> fst ` set m \<Longrightarrow> jm_set m k v = m @ [(k, v)]"
  by (induction m) (auto simp: jm_set_def)

lemma grouped_page:
  "together f xs \<Longrightarrow> distinct (map fst (grouped f xs)) \<and> fst ` set (grouped f xs) = set (map f xs) \<and>
     concat (map snd (grouped f xs)) = xs \<and> (\<forall>w\<in>set (map snd (grouped f xs)). w \<noteq> []) \<and>
     (xs \<noteq> [] \<longrightarrow> grouped f xs \<noteq> [] \<and> fst (last (grouped f xs)) = f (last xs))"
proof (induction xs rule: rev_induct)
  case Nil
  then show ?case by (simp add: grouped_def)
next
  case (snoc r xs)
  have IH: "distinct (map fst (grouped f xs))" "fst ` set (grouped f xs) = set (map f xs)"
    "concat (map snd (grouped f xs)) = xs" "\<forall>w\<in>set (map snd (grouped f xs)). w \<noteq> []"
    "xs \<noteq> [] \<longrightarrow> grouped f xs \<noteq> [] \<and> fst (last (grouped f xs)) = f (last xs)"
    using snoc together_prefix by blast+
  show ?case
  proof (cases "f r \<in> set (map f xs)")
    case True
    then have "xs \<noteq> []" by auto
    then have g: "grouped f xs \<noteq> []" "fst (last (grouped f xs)) = f r"
      using IH(5) together_last [OF snoc.prems True [unfolded set_map]] by simp_all
    define m l where "m = butlast (grouped f xs)" and "l = snd (last (grouped f xs))"
    have m: "grouped f xs = m @ [(f r, l)]"
      unfolding m_def l_def using g by (metis append_butlast_last_id prod.collapse)
    have k: "f r \<notin> fst ` set m" using IH(1) unfolding m by simp
    then have "jm_get (grouped f xs) (f r) = Some l" by (simp add: m jm_get_def map_add_def map_of_eq_None_iff [THEN iffD2])
    then have "grouped f (xs @ [r]) = m @ [(f r, l @ [r])]"
      using jm_set_last [OF k] by (simp add: grouped_snoc m or_else_def)
    note new = this
    have "map fst (grouped f (xs @ [r])) = map fst (grouped f xs)" unfolding new m by simp
    then have "distinct (map fst (grouped f (xs @ [r])))" "fst ` set (grouped f (xs @ [r])) = set (map f xs)"
      using IH(1,2) by (metis, metis image_set)
    moreover have "set (map f xs) = set (map f (xs @ [r]))" using True by auto
    moreover have "concat (map snd (grouped f (xs @ [r]))) = xs @ [r]"
      unfolding new using IH(3) unfolding m by simp
    moreover have "\<forall>w\<in>set (map snd (grouped f (xs @ [r]))). w \<noteq> []"
      using IH(4) [unfolded m] unfolding new by simp
    ultimately show ?thesis unfolding new by (simp only: last_snoc fst_conv) blast
  next
    case False
    then have k: "f r \<notin> fst ` set (grouped f xs)" using IH(2) by simp
    then have "jm_get (grouped f xs) (f r) = None" by (simp add: jm_get_def map_of_eq_None_iff)
    then have "grouped f (xs @ [r]) = grouped f xs @ [(f r, [r])]"
      using jm_set_new [OF k] by (simp add: grouped_snoc or_else_def)
    then show ?thesis using IH k by auto
  qed
qed

lemma group_by_ledger_page:
  assumes "together er_ledger rs"
  shows "concat (group_by_ledger rs) = rs" and "[] \<notin> set (group_by_ledger rs)"
  using grouped_page [OF assms] unfolding group_by_ledger_def grouped_def by blast+

section \<open>The records after a cursor\<close>

definition ordered :: "('a \<Rightarrow> nat) \<Rightarrow> 'a list \<Rightarrow> bool" where
  "ordered g xs = sorted_wrt (\<lambda>x y. g x < g y) xs"

definition after :: "('a \<Rightarrow> nat) \<Rightarrow> nat \<Rightarrow> 'a list \<Rightarrow> 'a list" where
  "after g k xs = filter (\<lambda>x. k < g x) xs"

lemma after_suffix: "ordered g xs \<Longrightarrow> \<exists>before. xs = before @ after g k xs"
proof (induction xs)
  case (Cons x xs)
  show ?case
  proof (cases "k < g x")
    case True
    then have "\<forall>y\<in>set xs. k < g y" using Cons.prems by (force simp: ordered_def)
    then have "after g k (x # xs) = x # xs" using True by (simp add: after_def filter_id_conv)
    then show ?thesis by (intro exI [of _ "[]"]) simp
  next
    case False
    obtain before where "xs = before @ after g k xs" using Cons by (auto simp: ordered_def)
    then show ?thesis using False by (intro exI [of _ "x # before"]) (simp add: after_def)
  qed
qed (simp add: after_def)

lemma ordered_last:
  assumes "ordered g w" and "x \<in> set w"
  shows "g x \<le> g (last w)"
  using assms
proof (induction w)
  case (Cons y w)
  show ?case
  proof (cases "w = []")
    case False
    have "ordered g w" "\<forall>z\<in>set w. g y < g z" using Cons.prems(1) by (simp_all add: ordered_def)
    then have "x = y \<Longrightarrow> g x \<le> g (last w)" "x \<in> set w \<Longrightarrow> g x \<le> g (last w)"
      using Cons.IH last_in_set [OF False] less_imp_le by blast+
    then show ?thesis using Cons.prems(2) False by auto
  qed (use Cons.prems in simp)
qed simp

lemma after_step:
  assumes ord: "ordered g xs" and split: "after g k xs = w @ rest" and w: "w \<noteq> []"
  shows "after g (g (last w)) xs = rest" and "k < g (last w)" and "last w \<in> set xs"
    and "\<And>x. x \<in> set xs \<Longrightarrow> k < g x \<Longrightarrow> g x \<le> g (last w) \<Longrightarrow> x \<in> set w"
proof -
  have l: "last w \<in> set (after g k xs)" using w by (simp add: split)
  then show kl: "k < g (last w)" and "last w \<in> set xs" by (simp_all add: after_def)
  have sorted: "ordered g (w @ rest)"
    using ord unfolding split [symmetric] after_def ordered_def by (rule sorted_wrt_filter)
  have low: "g x \<le> g (last w)" if "x \<in> set w" for x
    using ordered_last [of g w x] sorted that by (simp add: ordered_def sorted_wrt_append)
  have high: "g (last w) < g x" if "x \<in> set rest" for x
    using sorted that w by (auto simp: ordered_def sorted_wrt_append)
  have "after g (g (last w)) xs = filter (\<lambda>x. g (last w) < g x) (after g k xs)"
    using kl by (auto simp: after_def intro!: filter_cong)
  also have "\<dots> = filter (\<lambda>x. g (last w) < g x) w @ filter (\<lambda>x. g (last w) < g x) rest" by (simp add: split)
  also have "filter (\<lambda>x. g (last w) < g x) w = []" using low by (fastforce simp: filter_empty_conv)
  also have "filter (\<lambda>x. g (last w) < g x) rest = rest" using high by (simp add: filter_id_conv)
  finally show "after g (g (last w)) xs = rest" by simp
  fix x assume x: "x \<in> set xs" "k < g x" "g x \<le> g (last w)"
  then have "x \<in> set (w @ rest)" by (simp add: split [symmetric] after_def)
  then show "x \<in> set w" using high x(3) by fastforce
qed

section \<open>Streams and cursors\<close>

definition stream_ok :: "(string \<Rightarrow> nat) \<Rightarrow> hz_view \<Rightarrow> bool" where
  "stream_ok rank V = (\<forall>a. ordered (\<lambda>x. rank (er_paging_token x)) (hv_stream V a) \<and>
     together er_ledger (hv_stream V a) \<and> ''now'' \<notin> er_paging_token ` set (hv_stream V a))"

text \<open>Between two calls the chain may grow; Horizon lists it in order, the records of a ledger together.\<close>

definition chain_grows :: "(string \<Rightarrow> nat) \<Rightarrow> ('s \<Rightarrow> hz_view) \<Rightarrow> 's \<Rightarrow> 's \<Rightarrow> bool" where
  "chain_grows rank view s s' = (stream_ok rank (view s') \<and> hv_accepted (view s) \<subseteq> hv_accepted (view s') \<and>
     (\<forall>a. \<exists>zs. hv_stream (view s') a = hv_stream (view s) a @ zs))"

definition all_accepted :: "hz_view \<Rightarrow> string \<Rightarrow> effect_record list \<Rightarrow> bool" where
  "all_accepted V a xs = (\<forall>x\<in>set xs. \<forall>q j. effect_job a x = Some (q, j) \<longrightarrow> j \<in> hv_accepted V)"

lemma all_accepted_mono: "all_accepted V a xs \<Longrightarrow> hv_accepted V \<subseteq> hv_accepted V' \<Longrightarrow> all_accepted V' a xs"
  unfolding all_accepted_def by blast

definition between :: "('a \<Rightarrow> nat) \<Rightarrow> nat \<Rightarrow> nat \<Rightarrow> 'a list \<Rightarrow> 'a list" where
  "between g k l xs = filter (\<lambda>x. k < g x \<and> g x \<le> l) xs"

text \<open>The cursor \<open>c\<close> of account \<open>a\<close>, that was \<open>c0\<close>: all events it has passed since are on the queues.\<close>

definition covered :: "(string \<Rightarrow> nat) \<Rightarrow> hz_view \<Rightarrow> string \<Rightarrow> string \<Rightarrow> string \<Rightarrow> bool" where
  "covered rank V a c0 c = (c \<noteq> ''now'' \<and> (c = c0 \<or> c \<in> er_paging_token ` set (hv_stream V a)) \<and> rank c0 \<le> rank c \<and>
     all_accepted V a (between (\<lambda>x. rank (er_paging_token x)) (rank c0) (rank c) (hv_stream V a)))"

text \<open>\<open>rs\<close> are the next records after \<open>c\<close>.\<close>

definition page_ahead :: "(string \<Rightarrow> nat) \<Rightarrow> hz_view \<Rightarrow> string \<Rightarrow> string \<Rightarrow> effect_record list \<Rightarrow> bool" where
  "page_ahead rank V a c rs = (\<exists>rest. after (\<lambda>x. rank (er_paging_token x)) (rank c) (hv_stream V a) = rs @ rest)"

definition safe :: "(string \<Rightarrow> nat) \<Rightarrow> ('s \<Rightarrow> hz_view) \<Rightarrow> string \<Rightarrow> string \<Rightarrow> string \<Rightarrow> effect_record list \<Rightarrow> 's \<Rightarrow> bool" where
  "safe rank view a c0 c rs s =
     (stream_ok rank (view s) \<and> covered rank (view s) a c0 c \<and> page_ahead rank (view s) a c rs)"

lemma between_new:
  assumes "ordered g (xs @ zs)" and "l \<le> k \<or> (\<exists>x\<in>set xs. g x = l)"
  shows "between g k l zs = []"
proof -
  have "\<not> (k < g y \<and> g y \<le> l)" if "y \<in> set zs" for y
    using assms that unfolding ordered_def sorted_wrt_append by fastforce
  then show ?thesis by (simp add: between_def filter_empty_conv)
qed

lemma safe_grows:
  assumes "safe rank view a c0 c rs s" and "chain_grows rank view s s'"
  shows "safe rank view a c0 c rs s'"
proof -
  let ?g = "\<lambda>x. rank (er_paging_token x)"
  obtain zs where zs: "hv_stream (view s') a = hv_stream (view s) a @ zs"
    and ok: "stream_ok rank (view s')" and acc: "hv_accepted (view s) \<subseteq> hv_accepted (view s')"
    using assms(2) unfolding chain_grows_def by blast
  have cov: "covered rank (view s) a c0 c" and page: "page_ahead rank (view s) a c rs"
    using assms(1) unfolding safe_def by blast+
  have "ordered ?g (hv_stream (view s) a @ zs)" using ok unfolding stream_ok_def zs [symmetric] by blast
  moreover have "rank c \<le> rank c0 \<or> (\<exists>x\<in>set (hv_stream (view s) a). ?g x = rank c)"
    using cov unfolding covered_def by blast
  ultimately have "between ?g (rank c0) (rank c) zs = []" by (rule between_new)
  then have same: "between ?g (rank c0) (rank c) (hv_stream (view s') a) = between ?g (rank c0) (rank c) (hv_stream (view s) a)"
    by (simp add: zs between_def)
  have "all_accepted (view s') a (between ?g (rank c0) (rank c) (hv_stream (view s') a))"
    unfolding same using cov acc unfolding covered_def by (blast intro: all_accepted_mono)
  moreover have "er_paging_token ` set (hv_stream (view s) a) \<subseteq> er_paging_token ` set (hv_stream (view s') a)"
    unfolding zs by (rule image_mono) simp
  ultimately have "covered rank (view s') a c0 c" using cov unfolding covered_def by blast
  moreover have "page_ahead rank (view s') a c rs"
    using page unfolding page_ahead_def zs after_def filter_append by force
  ultimately show ?thesis using ok unfolding safe_def by blast
qed

lemma safe_mono:
  assumes "safe rank view a c0 c rs s" and "hv_stream (view s') = hv_stream (view s)"
    and "hv_accepted (view s) \<subseteq> hv_accepted (view s')"
  shows "safe rank view a c0 c rs s'"
  using assms(1,3) unfolding safe_def stream_ok_def covered_def page_ahead_def all_accepted_def assms(2) by blast

lemma hz_ok_view:
  assumes "hz_ok rank exec view" and "exec c s = (r, s')"
  shows "hv_stream (view s') = hv_stream (view s) \<and> hv_accepted (view s) \<subseteq> hv_accepted (view s')"
proof -
  have "hz_answers rank c (view s) r (view s')" using assms unfolding hz_ok_def by blast
  then show ?thesis by (cases c) simp_all
qed

lemma safe_kept: "hz_ok rank exec view \<Longrightarrow> kept_by exec (chain_grows rank view) (safe rank view a c0 c rs)"
  unfolding kept_by_def stays_def
  by (intro conjI allI impI, rule safe_grows, assumption+,
      rule safe_mono, assumption, drule (1) hz_ok_view, erule conjunct1, drule (1) hz_ok_view, erule conjunct2)

lemma safe_prefix: "safe rank view a c0 c (rs @ rs') s \<Longrightarrow> safe rank view a c0 c rs s"
  unfolding safe_def page_ahead_def by force

text \<open>The cursor moves over a window whose events are accepted.\<close>

lemma safe_advance:
  assumes "safe rank view a c0 c (w @ rs) s" and "w \<noteq> []" and "all_accepted (view s) a w"
  shows "safe rank view a c0 (er_paging_token (last w)) rs s"
proof -
  let ?g = "\<lambda>x. rank (er_paging_token x)" and ?xs = "hv_stream (view s) a"
  obtain rest where page: "after ?g (rank c) ?xs = w @ (rs @ rest)"
    using assms(1) unfolding safe_def page_ahead_def append_assoc by blast
  have ok: "stream_ok rank (view s)" and cov: "covered rank (view s) a c0 c" using assms(1) unfolding safe_def by blast+
  then have ord: "ordered ?g ?xs" and now: "''now'' \<notin> er_paging_token ` set ?xs" unfolding stream_ok_def by blast+
  note step = after_step [OF ord page assms(2)]
  have "x \<in> set (between ?g (rank c0) (rank c) ?xs) \<or> x \<in> set w"
    if "x \<in> set (between ?g (rank c0) (?g (last w)) ?xs)" for x
    using step(4) [of x] that unfolding between_def set_filter by (simp, linarith)
  then have "all_accepted (view s) a (between ?g (rank c0) (?g (last w)) ?xs)"
    using cov assms(3) unfolding covered_def all_accepted_def by blast
  moreover have "er_paging_token (last w) \<noteq> ''now''" using now step(3) by (metis imageI)
  moreover have "rank c0 \<le> ?g (last w)" using cov step(2) unfolding covered_def by linarith
  ultimately have "covered rank (view s) a c0 (er_paging_token (last w))"
    using step(3) unfolding covered_def by blast
  then show ?thesis using ok step(1) unfolding safe_def page_ahead_def by blast
qed

section \<open>Polling keeps the cursor safe\<close>

definition at_cursor :: "string \<Rightarrow> string \<Rightarrow> hz_state \<Rightarrow> bool" where
  "at_cursor a c st = (a \<in> set (hs_tracked st) \<and> jm_get (hs_cursors st) a = Some c)"

lemma track_pool_at: "at_cursor a c st \<Longrightarrow> at_cursor a c (track_pool cur r st)"
  unfolding track_pool_def at_cursor_def by (auto split: option.split list.split)

lemma cursor_moves_at:
  "at_cursor a c st \<Longrightarrow>
   at_cursor a (if b = a \<and> w \<noteq> [] then er_paging_token (last w) else c)
     (foldl (\<lambda>st r. st\<lparr>hs_cursors := jm_set (hs_cursors st) b (er_paging_token r)\<rparr>) st w)"
  by (induction w rule: rev_induct) (auto simp: at_cursor_def)

lemma scan_records_at: "at_cursor a c st \<Longrightarrow> ends (scan_records env b cur rs st) (\<lambda>x. at_cursor a c (snd x))"
proof (induction rs arbitrary: st)
  case (Cons r rs)
  show ?case unfolding scan_records.simps
    by (rule ends_bind [OF ends_True]) (simp add: Cons track_pool_at split: option.split)
qed simp

lemma poll_windows_other:
  "b \<noteq> a \<Longrightarrow> at_cursor a c st \<Longrightarrow> ends (poll_windows env b cur ws st) (\<lambda>x. at_cursor a c (snd x))"
proof (induction ws arbitrary: st)
  case (Cons w ws)
  have onward: "at_cursor a c st1 \<Longrightarrow> ends (poll_windows env b cur ws
      (foldl (\<lambda>st r. st\<lparr>hs_cursors := jm_set (hs_cursors st) b (er_paging_token r)\<rparr>) st1 w)) (\<lambda>x. at_cursor a c (snd x))" for st1
    by (rule Cons.IH [OF Cons.prems(1)]) (use cursor_moves_at [of a c st1 b w] Cons.prems(1) in simp)
  have windows: "at_cursor a c st1 \<Longrightarrow> ends (prog_bind (batchEnqueueLedgerWindow b w) (\<lambda>e. case e of
       Some err \<Rightarrow> Ret (Some err, st1)
     | None \<Rightarrow> poll_windows env b cur ws
         (foldl (\<lambda>st r. st\<lparr>hs_cursors := jm_set (hs_cursors st) b (er_paging_token r)\<rparr>) st1 w))) (\<lambda>x. at_cursor a c (snd x))" for st1
    by (rule ends_bind [OF ends_True]) (simp add: onward split: option.split)
  show ?case unfolding poll_windows.simps
  proof (rule ends_bind [OF scan_records_at [OF Cons.prems(2)]])
    fix x :: "string option \<times> hz_state" assume x: "at_cursor a c (snd x)"
    obtain e st1 where "x = (e, st1)" by (rule prod.exhaust)
    then show "ends (case x of (e, st1) \<Rightarrow> case e of
         None \<Rightarrow> prog_bind (batchEnqueueLedgerWindow b w) (\<lambda>e. case e of
           None \<Rightarrow> poll_windows env b cur ws
             (foldl (\<lambda>st r. st\<lparr>hs_cursors := jm_set (hs_cursors st) b (er_paging_token r)\<rparr>) st1 w)
         | Some err \<Rightarrow> Ret (Some err, st1))
       | Some err \<Rightarrow> Ret (Some err, st1)) (\<lambda>x. at_cursor a c (snd x))"
      using x windows [of st1] by (cases e) simp_all
  qed
qed simp

lemma kept_accepted: "hz_ok rank exec view \<Longrightarrow> kept_by exec (chain_grows rank view) (\<lambda>s. X \<subseteq> hv_accepted (view s))"
  unfolding kept_by_def stays_def chain_grows_def using hz_ok_view by (meson order_trans)

lemma kept_and: "kept_by exec drift P \<Longrightarrow> kept_by exec drift Q \<Longrightarrow> kept_by exec drift (\<lambda>s. P s \<and> Q s)"
  unfolding kept_by_def stays_def by meson

lemma wp_add_all:
  assumes "hz_ok rank exec view" and "kept_by exec (chain_grows rank view) J" and "J s"
  shows "wp exec (chain_grows rank view) (add_all jobs qs)
    (\<lambda>e s. J s \<and> (e = None \<longrightarrow> (\<forall>q\<in>set qs. set (jobs q) \<subseteq> hv_accepted (view s)))) s"
  using assms(2,3)
proof (induction qs arbitrary: s J)
  case Nil
  then show ?case unfolding add_all.simps kept_by_def by (intro wp_ret) simp_all
next
  case (Cons q qs)
  show ?case
  proof (cases "jobs q = []")
    case False
    have "wp exec (chain_grows rank view) (prog_bind (add_all jobs qs) (\<lambda>e. Ret (case r of HErr x \<Rightarrow> Some x | _ \<Rightarrow> e)))
        (\<lambda>e s. J s \<and> (e = None \<longrightarrow> (\<forall>q\<in>set (q # qs). set (jobs q) \<subseteq> hv_accepted (view s)))) s2"
      if "J s1" "exec (Add_Bulk q (jobs q)) s1 = (r, s2)" for s1 r s2
    proof -
      let ?X = "if \<exists>x. r = HErr x then {} else set (jobs q)"
      let ?J = "\<lambda>s. J s \<and> ?X \<subseteq> hv_accepted (view s)"
      have keep: "kept_by exec (chain_grows rank view) ?J" using Cons.prems(1) kept_accepted [OF assms(1)] by (rule kept_and)
      have "hz_answers rank (Add_Bulk q (jobs q)) (view s1) r (view s2)" using assms(1) that(2) unfolding hz_ok_def by blast
      moreover have "J s2" using Cons.prems(1) that unfolding kept_by_def by blast
      ultimately have "?J s2" by auto
      note IH = Cons.IH [OF keep this]
      have fin: "J s \<and> ((case r of HErr x \<Rightarrow> Some x | _ \<Rightarrow> e) = None \<longrightarrow>
          (\<forall>q\<in>set (q # qs). set (jobs q) \<subseteq> hv_accepted (view s)))"
        if "?J s \<and> (e = None \<longrightarrow> (\<forall>q\<in>set qs. set (jobs q) \<subseteq> hv_accepted (view s)))" for e s
        using that by (cases r) simp_all
      let ?Q = "\<lambda>e s. J s \<and> (e = None \<longrightarrow> (\<forall>q\<in>set (q # qs). set (jobs q) \<subseteq> hv_accepted (view s)))"
      have stay: "stays (chain_grows rank view) (?Q e)" for e
        using Cons.prems(1) unfolding kept_by_def stays_def chain_grows_def by (meson order_trans)
      show ?thesis by (rule wp_bind, rule wp_mono [OF IH], rule wp_ret, rule stay, rule fin)
    qed
    then show ?thesis unfolding add_all.simps if_not_P [OF False]
      by (intro wp_call [where P = J]) (use Cons.prems in \<open>simp_all add: kept_by_def\<close>)
  qed (use Cons in simp)
qed

lemma effect_job_queue: "effect_job a x = Some (q, j) \<Longrightarrow> q \<in> set QUEUE_NAMES"
  unfolding effect_job_def Let_def QUEUE_NAMES_def by (auto split: if_splits)

lemma all_accepted_window:
  assumes "\<forall>q\<in>set QUEUE_NAMES. set (window_jobs a w q) \<subseteq> hv_accepted V"
  shows "all_accepted V a w"
proof -
  have "j \<in> hv_accepted V" if x: "x \<in> set w" and j: "effect_job a x = Some (q, j)" for x q j
  proof -
    have "(q, j) \<in> set (List.map_filter (effect_job a) w)" using x j by (force simp: map_filter_def)
    then have "j \<in> set (window_jobs a w q)" unfolding window_jobs_def by force
    then show ?thesis using assms effect_job_queue [OF j] by blast
  qed
  then show ?thesis unfolding all_accepted_def by blast
qed

end
