(* ===== verification/Horizon_Polls.thy ===== *)
theory Horizon_Polls
  imports Horizon_Laws
begin

text \<open>
  The polls of the ingestion service as a whole, over the stream and cursor lemmas: they keep an account's cursor
  behind the events the queues have, whatever fails and however the chain grows.
\<close>

section \<open>One account\<close>

definition tracked_safe :: "(string \<Rightarrow> nat) \<Rightarrow> ('s \<Rightarrow> hz_view) \<Rightarrow> string \<Rightarrow> string \<Rightarrow> hz_state \<Rightarrow> 's \<Rightarrow> bool" where
  "tracked_safe rank view a c0 st s = (\<exists>c. at_cursor a c st \<and> safe rank view a c0 c [] s)"

lemma tracked_safeI: "at_cursor a c st \<Longrightarrow> safe rank view a c0 c [] s \<Longrightarrow> tracked_safe rank view a c0 st s"
  unfolding tracked_safe_def by blast

lemma safe_Nil: "safe rank view a c0 c rs s \<Longrightarrow> safe rank view a c0 c [] s"
  using safe_prefix [where rs = "[]" and rs' = rs] by simp

lemma tracked_safe_stays:
  "hz_ok rank exec view \<Longrightarrow> stays (chain_grows rank view) (tracked_safe rank view a c0 st)"
  unfolding stays_def tracked_safe_def using safe_grows by metis

lemma wp_poll_windows_other:
  assumes ok: "hz_ok rank exec view" and st: "at_cursor a c st" and s: "safe rank view a c0 c [] s" and b: "b \<noteq> a"
  shows "wp exec (chain_grows rank view) (poll_windows env b cur ws st) (\<lambda>x. tracked_safe rank view a c0 (snd x)) s"
  by (rule wp_mono [OF wp_ends [OF safe_kept [OF ok] s poll_windows_other [OF b st]]])
     (elim conjE, rule tracked_safeI)

lemma wp_poll_windows_same:
  assumes ok: "hz_ok rank exec view"
  shows "at_cursor a c st \<Longrightarrow> [] \<notin> set ws \<Longrightarrow> safe rank view a c0 c (concat ws) s \<Longrightarrow>
    wp exec (chain_grows rank view) (poll_windows env a cur ws st) (\<lambda>x. tracked_safe rank view a c0 (snd x)) s"
proof (induction ws arbitrary: c st s)
  case Nil
  have "tracked_safe rank view a c0 (snd (None :: string option, st)) s"
    using Nil by (auto intro: tracked_safeI)
  then show ?case unfolding poll_windows.simps using tracked_safe_stays [OF ok] by (intro wp_ret) simp_all
next
  case (Cons w ws)
  let ?post = "\<lambda>x. tracked_safe rank view a c0 (snd x)"
  let ?move = "\<lambda>st1. foldl (\<lambda>st r. st\<lparr>hs_cursors := jm_set (hs_cursors st) a (er_paging_token r)\<rparr>) st1 w"
  have w: "w \<noteq> []" using Cons.prems(2) by auto
  have stop: "wp exec (chain_grows rank view) (Ret (e, st1)) ?post s"
    if "at_cursor a c st1" "safe rank view a c0 c (w @ concat ws) s" for e :: "string option" and st1 s
  proof -
    have "?post (e, st1) s" using that tracked_safeI [OF that(1) safe_Nil [OF that(2)]] by simp
    then show ?thesis using tracked_safe_stays [OF ok] by (intro wp_ret) simp_all
  qed
  have enqueued: "wp exec (chain_grows rank view) (case e of
      None \<Rightarrow> poll_windows env a cur ws (?move st1) | Some err \<Rightarrow> Ret (Some err, st1)) ?post s"
    if st1: "at_cursor a c st1" and s: "safe rank view a c0 c (w @ concat ws) s"
      and acc: "e = None \<longrightarrow> (\<forall>q\<in>set QUEUE_NAMES. set (window_jobs a w q) \<subseteq> hv_accepted (view s))" for e st1 s
  proof (cases e)
    case None
    have "safe rank view a c0 (er_paging_token (last w)) (concat ws) s"
      using safe_advance [OF s w] all_accepted_window acc None by blast
    moreover have "at_cursor a (er_paging_token (last w)) (?move st1)" using cursor_moves_at [OF st1, of a w] w by simp
    moreover have "[] \<notin> set ws" using Cons.prems(2) by simp
    ultimately show ?thesis unfolding None option.case using Cons.IH by blast
  next
    case (Some err)
    then show ?thesis using stop [OF st1 s] by simp
  qed
  have window: "wp exec (chain_grows rank view) (prog_bind (batchEnqueueLedgerWindow a w) (\<lambda>e. case e of
      None \<Rightarrow> poll_windows env a cur ws (?move st1) | Some err \<Rightarrow> Ret (Some err, st1))) ?post s"
    if "at_cursor a c st1" and "safe rank view a c0 c (w @ concat ws) s" for st1 s
    unfolding batchEnqueueLedgerWindow_def
    by (rule wp_bind, rule wp_mono [OF wp_add_all [OF ok safe_kept [OF ok] that(2)]])
       (rule enqueued [OF that(1) conjunct1 conjunct2])
  have scanned: "wp exec (chain_grows rank view) (case x of (e, st1) \<Rightarrow> case e of
       None \<Rightarrow> prog_bind (batchEnqueueLedgerWindow a w) (\<lambda>e. case e of
         None \<Rightarrow> poll_windows env a cur ws (?move st1) | Some err \<Rightarrow> Ret (Some err, st1))
     | Some err \<Rightarrow> Ret (Some err, st1)) ?post s"
    if x: "at_cursor a c (snd x) \<and> safe rank view a c0 c (w @ concat ws) s" for x :: "string option \<times> hz_state" and s
  proof -
    obtain e st1 where "x = (e, st1)" by (rule prod.exhaust)
    then show ?thesis using x window [of st1 s] stop [of st1 s e] by (cases e) simp_all
  qed
  show ?case unfolding poll_windows.simps
    by (rule wp_bind, rule wp_mono [OF wp_ends [OF safe_kept [OF ok] Cons.prems(3) [unfolded concat.simps] scan_records_at [OF Cons.prems(1)]]])
       (rule scanned)
qed

text \<open>A page of the stream is in order and keeps the ledgers together.\<close>

lemma page_together:
  assumes "stream_ok rank V"
  shows "together er_ledger (take n (after (\<lambda>x. rank (er_paging_token x)) k (hv_stream V a)))"
proof -
  let ?f = "\<lambda>x. rank (er_paging_token x)" and ?xs = "hv_stream V a"
  have "ordered ?f ?xs" and t: "together er_ledger ?xs" using assms unfolding stream_ok_def by blast+
  then obtain before where "?xs = before @ after ?f k ?xs" using after_suffix by blast
  then have "together er_ledger (after ?f k ?xs)" using together_suffix t by metis
  then show ?thesis using together_prefix append_take_drop_id by metis
qed

lemma page_safe:
  assumes "safe rank view a c0 c [] s"
  shows "safe rank view a c0 c (take n (after (\<lambda>x. rank (er_paging_token x)) (rank c) (hv_stream (view s) a))) s"
  using assms unfolding safe_def page_ahead_def by (metis append_take_drop_id)

lemma wp_pollAccount:
  assumes ok: "hz_ok rank exec view" and st: "tracked_safe rank view a c0 st s"
  shows "wp exec (chain_grows rank view) (pollAccount env b st) (\<lambda>x. tracked_safe rank view a c0 (snd x)) s"
proof -
  let ?post = "\<lambda>x. tracked_safe rank view a c0 (snd x)"
  obtain c where c: "at_cursor a c st" and s: "safe rank view a c0 c [] s" using st unfolding tracked_safe_def by blast
  have kept: "kept_by exec (chain_grows rank view) (safe rank view a c0 c [])" by (rule safe_kept [OF ok])
  define cur where "cur = or_else (jm_get (hs_cursors st) b) ''now''"
  have reply: "wp exec (chain_grows rank view) (case r of
        HRecords records \<Rightarrow> poll_windows env b cur (group_by_ledger records) st
      | HErr e \<Rightarrow> Ret (Some e, st)
      | _ \<Rightarrow> Ret (Some ''unexpected reply'', st)) ?post s2"
    if s1: "safe rank view a c0 c [] s1" and run: "exec (Fetch_Effects b cur) s1 = (r, s2)" for s1 r s2
  proof -
    have s2: "safe rank view a c0 c [] s2" using kept s1 run unfolding kept_by_def by blast
    have fail: "wp exec (chain_grows rank view) (Ret (e, st)) ?post s2" for e :: "string option"
    proof -
      have "?post (e, st) s2" using tracked_safeI [OF c s2] by simp
      then show ?thesis using tracked_safe_stays [OF ok] by (intro wp_ret) simp_all
    qed
    have ans: "hz_answers rank (Fetch_Effects b cur) (view s1) r (view s2)" using ok run unfolding hz_ok_def by blast
    have "wp exec (chain_grows rank view) (poll_windows env b cur (group_by_ledger records) st) ?post s2"
      if r: "r = HRecords records" for records
    proof (cases "b = a")
      case False
      show ?thesis by (rule wp_poll_windows_other [OF ok c s2 False])
    next
      case True
      have "cur = c" using c True by (simp add: cur_def at_cursor_def or_else_def)
      moreover have "c \<noteq> ''now''" using s unfolding safe_def covered_def by blast
      ultimately obtain n where "records = take n (after (\<lambda>x. rank (er_paging_token x)) (rank c) (hv_stream (view s2) a))"
        using ans r True unfolding after_def by auto
      moreover note page_together [of rank "view s2" n "rank c" a] page_safe [OF s2, of n]
      moreover have "stream_ok rank (view s2)" using s2 unfolding safe_def by blast
      ultimately have "together er_ledger records" and "safe rank view a c0 c records s2" by simp_all
      then show ?thesis unfolding True
        by (intro wp_poll_windows_same [OF ok c]) (simp_all add: group_by_ledger_page)
    qed
    then show ?thesis using fail by (cases r) simp_all
  qed
  show ?thesis unfolding pollAccount_def Let_def cur_def [symmetric]
    by (rule wp_call [where P = "safe rank view a c0 c []"]) (use kept s reply in \<open>simp_all add: kept_by_def\<close>)
qed

section \<open>All polls\<close>

lemma tracked_safe_other [simp]:
  "tracked_safe rank view a c0 (st\<lparr>hs_polling := b\<rparr>) s = tracked_safe rank view a c0 st s"
  "tracked_safe rank view a c0 (st\<lparr>hs_failures := n, hs_nextAttemptAt := t\<rparr>) s = tracked_safe rank view a c0 st s"
  unfolding tracked_safe_def at_cursor_def by simp_all

lemma wp_poll_accounts:
  assumes ok: "hz_ok rank exec view"
  shows "tracked_safe rank view a c0 st s \<Longrightarrow>
    wp exec (chain_grows rank view) (poll_accounts env bs st failed) (\<lambda>x. tracked_safe rank view a c0 (snd x)) s"
proof (induction bs arbitrary: st s failed)
  case Nil
  then show ?case unfolding poll_accounts.simps using tracked_safe_stays [OF ok] by (intro wp_ret) simp_all
next
  case (Cons b bs)
  show ?case unfolding poll_accounts.simps
    apply (rule wp_bind, rule wp_mono [OF wp_pollAccount [OF ok Cons.prems]])
    subgoal for x s by (cases x) (simp add: Cons.IH)
    done
qed

lemma wp_poll:
  assumes ok: "hz_ok rank exec view" and st: "tracked_safe rank view a c0 st s"
  shows "wp exec (chain_grows rank view) (poll env now later st) (tracked_safe rank view a c0) s"
proof -
  note stay = tracked_safe_stays [OF ok]
  have fin: "wp exec (chain_grows rank view) (case x of (failed, st1) \<Rightarrow>
      Ret ((if failed
            then st1\<lparr>hs_failures := hs_failures st1 + 1, hs_nextAttemptAt := later + backoff_ms (hs_failures st1 + 1)\<rparr>
            else st1\<lparr>hs_failures := 0, hs_nextAttemptAt := 0\<rparr>)\<lparr>hs_polling := False\<rparr>)) (tracked_safe rank view a c0) s'"
    if "tracked_safe rank view a c0 (snd x) s'" for x s'
  proof -
    obtain f st1 where x: "x = (f, st1)" by (rule prod.exhaust)
    show ?thesis using that unfolding x prod.case by (intro wp_ret [OF stay]) simp
  qed
  have started: "tracked_safe rank view a c0 (st\<lparr>hs_polling := True\<rparr>) s" using st by simp
  show ?thesis
  proof (cases "hs_polling st \<or> hs_stopped st \<or> now < hs_nextAttemptAt st")
    case True
    then show ?thesis unfolding poll_def by (simp only: if_True) (rule wp_ret, rule stay, rule st)
  next
    case False
    then show ?thesis unfolding poll_def
      by (simp only: if_False) (rule wp_bind, rule wp_mono [OF wp_poll_accounts [OF ok started]], rule fin)
  qed
qed

lemma wp_polls:
  assumes ok: "hz_ok rank exec view"
  shows "tracked_safe rank view a c0 st s \<Longrightarrow>
    wp exec (chain_grows rank view) (polls env clocks st) (tracked_safe rank view a c0) s"
proof (induction clocks arbitrary: st s)
  case Nil
  then show ?case unfolding polls.simps by (rule wp_ret [OF tracked_safe_stays [OF ok]])
next
  case (Cons t clocks)
  obtain now later where t: "t = (now, later)" by (rule prod.exhaust)
  show ?case unfolding t polls.simps
    by (rule wp_bind, rule wp_mono [OF wp_poll [OF ok Cons.prems]]) (rule Cons.IH)
qed

end
