(* ===== verification/Horizon_Props.thy ===== *)
theory Horizon_Props
  imports Horizon_Polls
begin

text \<open>What the polls of the ingestion service promise, and where they fall short, with concrete runs.\<close>

section \<open>A Horizon in memory\<close>

fun digits_rank :: "string \<Rightarrow> nat" where
  "digits_rank cs = foldl (\<lambda>n c. 10 * n + of_char c) 0 cs"

fun mem_horizon :: "(string \<Rightarrow> nat) \<Rightarrow> hz_call \<Rightarrow> hz_view \<Rightarrow> hz_reply \<times> hz_view" where
  "mem_horizon rank (Fetch_Effects a cursor) V =
     (HRecords (if cursor = ''now'' then []
        else take 50 (filter (\<lambda>x. rank cursor < rank (er_paging_token x)) (hv_stream V a))), V)"
| "mem_horizon rank (Add_Bulk q js) V = (HOk, V\<lparr>hv_accepted := hv_accepted V \<union> set js\<rparr>)"
| "mem_horizon rank _ V = (HOk, V)"

lemma mem_horizon_ok: "hz_ok rank (mem_horizon rank) (\<lambda>V. V)"
  unfolding hz_ok_def
proof (intro allI impI)
  fix c V r V' assume "mem_horizon rank c V = (r, V')"
  then show "hz_answers rank c V r V'" by (cases c) auto
qed

text \<open>A queue that fails once, at its \<open>n\<close>-th bulk.\<close>

fun flaky_horizon :: "(string \<Rightarrow> nat) \<Rightarrow> hz_call \<Rightarrow> hz_view \<times> nat \<Rightarrow> hz_reply \<times> (hz_view \<times> nat)" where
  "flaky_horizon rank (Add_Bulk q js) (V, n) =
     (if n = 1 then (HErr ''down'', (V, 0))
      else let (r, V') = mem_horizon rank (Add_Bulk q js) V in (r, (V', n - 1)))"
| "flaky_horizon rank c (V, n) = (let (r, V') = mem_horizon rank c V in (r, (V', n)))"

lemma flaky_horizon_ok: "hz_ok rank (flaky_horizon rank) fst"
  unfolding hz_ok_def
proof (intro allI impI)
  fix c s r s' assume "flaky_horizon rank c s = (r, s')"
  then show "hz_answers rank c (fst s) r (fst s')"
    by (cases s; cases c) (auto split: if_splits)
qed

definition demo_env :: hz_env where
  "demo_env = \<lparr>he_sqrt = (\<lambda>x. x), he_date_ms = (\<lambda>_. Fin 0), he_json = (\<lambda>_. [])\<rparr>"

definition demo_effect :: "string \<Rightarrow> jsnum option \<Rightarrow> effect_record" where
  "demo_effect token ledger =
     \<lparr>er_paging_token = token, er_ledger = ledger, er_amount = None, er_tick = None, er_liquidity = None, er_created_at = [],
      er_eventType = Some ''swap_processed'', er_eventId = None, er_poolId = Some ''P'', er_tokenA = None, er_tokenB = None,
      er_fee = None, er_sqrtPrice = None, er_sender = Some ''S'', er_recipient = Some ''R'', er_amount0 = None,
      er_amount1 = None, er_owner = None, er_tokenId = None, er_tickLower = None, er_tickUpper = None,
      er_transactionHash = None\<rparr>"

definition demo_state :: "string \<Rightarrow> hz_state" where
  "demo_state cursor = \<lparr>hs_tracked = [''P''], hs_cursors = [(''P'', cursor)], hs_polling = False, hs_stopped = False,
     hs_failures = 0, hs_nextAttemptAt = 0\<rparr>"

definition demo_stream :: "effect_record list" where
  "demo_stream = [demo_effect ''1'' (Some (Fin 5)), demo_effect ''2'' (Some (Fin 5)), demo_effect ''3'' (Some (Fin 6))]"

definition mixed_stream :: "effect_record list" where
  "mixed_stream = [demo_effect ''1'' (Some (Fin 5)), demo_effect ''2'' None, demo_effect ''3'' (Some (Fin 5))]"

definition demo_view :: "effect_record list \<Rightarrow> hz_view" where
  "demo_view xs = \<lparr>hv_stream = (\<lambda>a. if a = ''P'' then xs else []), hv_accepted = {}\<rparr>"

definition demo_job :: "string \<Rightarrow> jsnum option \<Rightarrow> idx_job" where
  "demo_job token ledger = Swap_Processed
     \<lparr>sp_eventId = token, sp_ledger = ledger, sp_poolId = ''P'', sp_sender = ''S'', sp_recipient = ''R'',
      sp_amount0 = ''0'', sp_amount1 = ''0'', sp_sqrtPriceX96 = ''0'', sp_liquidity = ''0'', sp_tick = Fin 0,
      sp_transactionHash = None, sp_feeAmount = None, sp_timestamp = Some []\<rparr>"

lemma demo_effect_fields [simp]:
  "er_paging_token (demo_effect t l) = t" "er_ledger (demo_effect t l) = l"
  by (simp_all add: demo_effect_def)

lemma flaky_stream: "hv_stream (fst (snd (run (flaky_horizon rank) m s))) = hv_stream (fst s)"
  by (rule run_invariant [where I = "\<lambda>s'. hv_stream (fst s') = hv_stream (fst s)"])
     (use hz_ok_view [OF flaky_horizon_ok] in simp, rule refl)

lemma demo_effect_job: "effect_job ''P'' (demo_effect t l) = Some (''swap.processed'', demo_job t l)"
  by (simp add: effect_job_def event_type_def demo_effect_def swap_processed_of_def demo_job_def or_else_def Let_def)
     code_simp

section \<open>No event is skipped\<close>

text \<open>C4: A tracked account whose cursor starts at a paging token never loses an event: after any number of polls, with
  requests and queues failing at will and the chain growing in between, every event after the first cursor and up to
  the cursor reached is on its queue, if its job is complete. Horizon lists records in order, those of a ledger together.
\<close>

theorem horizon_never_skips:
  assumes "hz_ok rank exec view" and "stream_ok rank (view s)"
    and "a \<in> set (hs_tracked st)" and "jm_get (hs_cursors st) a = Some c0" and "c0 \<noteq> ''now''"
    and "steps exec (chain_grows rank view) ([polls env clocks st], s) tr ([Ret st'], s')"
  shows "\<exists>c. jm_get (hs_cursors st') a = Some c \<and> rank c0 \<le> rank c \<and>
    (\<forall>x \<in> set (hv_stream (view s') a). \<forall>q j.
       rank c0 < rank (er_paging_token x) \<and> rank (er_paging_token x) \<le> rank c \<and> effect_job a x = Some (q, j) \<longrightarrow>
       j \<in> hv_accepted (view s'))"
proof -
  have "safe rank view a c0 c0 [] s"
    using assms(2,5) by (simp add: safe_def covered_def page_ahead_def all_accepted_def between_def)
  then have "tracked_safe rank view a c0 st s" using assms(3,4) by (simp add: tracked_safe_def at_cursor_def)
  then have "wp exec (chain_grows rank view) (polls env clocks st) (tracked_safe rank view a c0) s"
    by (rule wp_polls [OF assms(1)])
  then have "tracked_safe rank view a c0 st' s'" by (rule wp_steps [OF assms(6)])
  then obtain c where "at_cursor a c st'" "covered rank (view s') a c0 c" unfolding tracked_safe_def safe_def by blast
  then show ?thesis unfolding at_cursor_def covered_def all_accepted_def between_def set_filter by blast
qed

lemma demo_stream_ok: "stream_ok digits_rank (demo_view demo_stream)"
  by (auto simp: stream_ok_def demo_view_def demo_stream_def ordered_def)

lemma demo_poll_cursor:
  "hs_cursors (fst (run (flaky_horizon digits_rank) (polls demo_env [(1, 1), (5000, 5000)] (demo_state ''0'')) (demo_view demo_stream, 2))) =
     [(''P'', ''3'')]"
  by code_simp

theorem horizon_never_skips_witness:
  "\<exists>tr st' s'. steps (flaky_horizon digits_rank) (chain_grows digits_rank fst)
      ([polls demo_env [(1, 1), (5000, 5000)] (demo_state ''0'')], (demo_view demo_stream, 2)) tr ([Ret st'], s') \<and>
     jm_get (hs_cursors st') ''P'' = Some ''3'' \<and> demo_job ''3'' (Some (Fin 6)) \<in> hv_accepted (fst s')"
proof -
  let ?exec = "flaky_horizon digits_rank" and ?m = "polls demo_env [(1, 1), (5000, 5000)] (demo_state ''0'')"
  let ?r = "run ?exec ?m (demo_view demo_stream, 2)"
  obtain tr where tr: "steps ?exec (chain_grows digits_rank fst) ([?m], (demo_view demo_stream, 2)) tr ([Ret (fst ?r)], snd ?r)"
    using run_steps [of ?exec "chain_grows digits_rank fst" ?m "(demo_view demo_stream, 2)"] by blast
  have c: "jm_get (hs_cursors (fst ?r)) ''P'' = Some ''3''" unfolding demo_poll_cursor by (simp add: jm_get_def)
  have "''P'' \<in> set (hs_tracked (demo_state ''0''))" "jm_get (hs_cursors (demo_state ''0'')) ''P'' = Some ''0''"
    by (simp_all add: demo_state_def jm_get_def)
  from horizon_never_skips [OF flaky_horizon_ok _ this _ tr] demo_stream_ok
  have all: "\<forall>x \<in> set (hv_stream (fst (snd ?r)) ''P''). \<forall>q j.
       digits_rank ''0'' < digits_rank (er_paging_token x) \<and> digits_rank (er_paging_token x) \<le> digits_rank ''3'' \<and>
       effect_job ''P'' x = Some (q, j) \<longrightarrow> j \<in> hv_accepted (fst (snd ?r))" using c by fastforce
  note stream = flaky_stream [of digits_rank ?m "(demo_view demo_stream, 2)"]
  have "demo_effect ''3'' (Some (Fin 6)) \<in> set (hv_stream (fst (snd ?r)) ''P'')"
    unfolding stream by (simp add: demo_view_def demo_stream_def)
  then have "demo_job ''3'' (Some (Fin 6)) \<in> hv_accepted (fst (snd ?r))"
    using all demo_effect_job [of "''3''" "Some (Fin 6)"] by fastforce
  then show ?thesis using tr c by blast
qed

text \<open>The records of a ledger standing together is needed: in a page where a record without a ledger stands between two
  of the same ledger, that record is enqueued last; if this fails the cursor has already passed it and no later poll
  asks for it again.
\<close>

theorem horizon_mixed_page_skips:
  "\<exists>exec view rank env clocks st s tr st' s' x c q j.
     hz_ok rank exec (view :: hz_view \<times> nat \<Rightarrow> hz_view) \<and> (\<forall>a. ordered (\<lambda>x. rank (er_paging_token x)) (hv_stream (view s) a)) \<and>
     hs_tracked st = [''P''] \<and> jm_get (hs_cursors st) ''P'' = Some ''0'' \<and>
     steps exec (\<lambda>_ _. False) ([polls env clocks st], s) tr ([Ret st'], s') \<and> length clocks = 2 \<and>
     jm_get (hs_cursors st') ''P'' = Some c \<and> x \<in> set (hv_stream (view s') ''P'') \<and>
     rank ''0'' < rank (er_paging_token x) \<and> rank (er_paging_token x) < rank c \<and>
     effect_job ''P'' x = Some (q, j) \<and> j \<notin> hv_accepted (view s')"
proof -
  let ?exec = "flaky_horizon digits_rank" and ?m = "polls demo_env [(1, 1), (5000, 5000)] (demo_state ''0'')"
  let ?r = "run ?exec ?m (demo_view mixed_stream, 2)" and ?x = "demo_effect ''2'' None"
  obtain tr where tr: "steps ?exec (\<lambda>_ _. False) ([?m], (demo_view mixed_stream, 2)) tr ([Ret (fst ?r)], snd ?r)"
    using run_steps [of ?exec "\<lambda>_ _. False" ?m "(demo_view mixed_stream, 2)"] by blast
  have "hs_cursors (fst ?r) = [(''P'', ''3'')]" by code_simp
  then have c: "jm_get (hs_cursors (fst ?r)) ''P'' = Some ''3''" by (simp add: jm_get_def)
  have lost: "demo_job ''2'' None \<notin> hv_accepted (fst (snd ?r))" by code_simp
  note stream = flaky_stream [of digits_rank ?m "(demo_view mixed_stream, 2)"]
  have x: "?x \<in> set (hv_stream (fst (snd ?r)) ''P'')" unfolding stream by (simp add: demo_view_def mixed_stream_def)
  have "\<forall>a. ordered (\<lambda>x. digits_rank (er_paging_token x)) (hv_stream (demo_view mixed_stream) a)"
    by (simp add: demo_view_def mixed_stream_def ordered_def)
  moreover have "hs_tracked (demo_state ''0'') = [''P'']" "jm_get (hs_cursors (demo_state ''0'')) ''P'' = Some ''0''"
    by (simp_all add: demo_state_def jm_get_def)
  moreover have "digits_rank ''0'' < digits_rank (er_paging_token ?x)" "digits_rank (er_paging_token ?x) < digits_rank ''3''"
    by simp_all
  ultimately show ?thesis using flaky_horizon_ok tr c x lost demo_effect_job
    by (intro exI [of _ ?exec] exI [of _ fst] exI [of _ digits_rank] exI [of _ demo_env] exI [of _ "[(1, 1), (5000, 5000)]"]
          exI [of _ "demo_state ''0''"] exI [of _ "(demo_view mixed_stream, 2)"] exI [of _ tr] exI [of _ "fst ?r"]
          exI [of _ "snd ?r"] exI [of _ ?x] exI [of _ "''3''"] exI [of _ "''swap.processed''"] exI [of _ "demo_job ''2'' None"] conjI)
       simp_all
qed

section \<open>A cursor at now\<close>

text \<open>
  A poller that waits: its accounts are \<open>T\<close> and every cursor is \<^verbatim>\<open>now\<close>. Its calls are requests for the effects of these
  accounts after \<^verbatim>\<open>now\<close>, which are answered with no record or fail.
\<close>

definition waiting :: "string list \<Rightarrow> hz_state \<Rightarrow> bool" where
  "waiting T st = (hs_tracked st = T \<and> hs_cursors st = map (\<lambda>a. (a, ''now'')) T)"

definition asks_now :: "string list \<Rightarrow> hz_call \<Rightarrow> bool" where
  "asks_now T c = (\<exists>a\<in>set T. c = Fetch_Effects a ''now'')"

definition told_nothing :: "hz_call \<Rightarrow> hz_reply \<Rightarrow> bool" where
  "told_nothing c r = (r = HRecords [] \<or> (\<exists>e. r = HErr e))"

lemma waiting_cursor: "waiting T st \<Longrightarrow> or_else (jm_get (hs_cursors st) a) ''now'' = ''now''"
  unfolding waiting_def jm_get_def or_else_def
  by (auto split: option.split dest!: map_of_SomeD)

lemma pollAccount_waits:
  assumes "waiting T st" and "a \<in> set T"
  shows "meets (asks_now T) told_nothing (\<lambda>x. waiting T (snd x)) (pollAccount env a st)"
  unfolding pollAccount_def Let_def waiting_cursor [OF assms(1)] using assms
  by (auto simp: asks_now_def told_nothing_def group_by_ledger_def)

lemma poll_accounts_wait:
  "waiting T st \<Longrightarrow> set as \<subseteq> set T \<Longrightarrow>
   meets (asks_now T) told_nothing (\<lambda>x. waiting T (snd x)) (poll_accounts env as st failed)"
proof (induction as arbitrary: st failed)
  case (Cons a as)
  then have "meets (asks_now T) told_nothing (\<lambda>x. waiting T (snd x)) (pollAccount env a st)"
    by (intro pollAccount_waits) simp_all
  then show ?case unfolding poll_accounts.simps
    by (rule meets_bind) (use Cons in \<open>auto split: prod.split\<close>)
qed simp

lemma waiting_other [simp]:
  "waiting T (st\<lparr>hs_polling := b\<rparr>) = waiting T st"
  "waiting T (st\<lparr>hs_failures := n, hs_nextAttemptAt := t\<rparr>) = waiting T st"
  unfolding waiting_def by simp_all

lemma poll_waits:
  assumes "waiting T st"
  shows "meets (asks_now T) told_nothing (waiting T) (poll env now later st)"
proof -
  have "set (hs_tracked st) \<subseteq> set T" "waiting T (st\<lparr>hs_polling := True\<rparr>)" using assms by (simp_all add: waiting_def)
  note accounts = poll_accounts_wait [OF this(2,1)]
  show ?thesis unfolding poll_def
    using assms by (auto intro!: meets_bind [OF accounts])
qed

lemma polls_wait: "waiting T st \<Longrightarrow> meets (asks_now T) told_nothing (waiting T) (polls env clocks st)"
proof (induction clocks arbitrary: st)
  case (Cons t clocks)
  obtain now later where t: "t = (now, later)" by (rule prod.exhaust)
  show ?case unfolding t polls.simps by (rule meets_bind [OF poll_waits [OF Cons.prems] Cons.IH])
qed simp

text \<open>C40: A poller that starts without a checkpoint starts every account at the cursor \<^verbatim>\<open>now\<close>, and stays there: however
  many polls it makes and however the chain grows meanwhile, all it ever does is to ask for the effects
  after \<^verbatim>\<open>now\<close>, of which Horizon has none. It adds no job to a queue and publishes nothing, and when its
  polls are over its cursors are those it started with.\<close>

theorem horizon_now_never_starts:
  assumes "hz_ok rank exec view" and "\<not> jlt (Fin 0) lastLedger"
    and "steps exec drift ([polls env clocks (hz_init factory legacyPool lastLedger)], s) tr ([m], s')"
  shows "(\<forall>(i, c, r)\<in>set tr. \<exists>a\<in>{factory, legacyPool}. c = Fetch_Effects a ''now'') \<and>
    (\<forall>st'. m = Ret st' \<longrightarrow> hs_cursors st' = hs_cursors (hz_init factory legacyPool lastLedger))"
proof -
  let ?T = "hs_tracked (hz_init factory legacyPool lastLedger)"
  have start: "waiting ?T (hz_init factory legacyPool lastLedger)"
    using assms(2) by (simp add: waiting_def hz_init_def Let_def)
  have told: "told_nothing c r \<and> True" if run: "exec c s = (r, s')" and asks: "asks_now ?T c" for c s r s'
  proof -
    obtain a where "c = Fetch_Effects a ''now''" using asks unfolding asks_now_def by blast
    moreover have "hz_answers rank c (view s) r (view s')" using run assms(1) unfolding hz_ok_def by blast
    ultimately show ?thesis by (auto simp: told_nothing_def)
  qed
  have "True \<and> (\<forall>i < length [m]. meets (asks_now ?T) told_nothing (waiting ?T) ([m] ! i)) \<and>
      (\<forall>(i, c, r) \<in> set tr. asks_now ?T c)"
    by (rule steps_meets [where I = "\<lambda>_. True", OF assms(3)])
       (simp_all add: polls_wait [OF start] told [THEN conjunct1])
  moreover have "set ?T \<subseteq> {factory, legacyPool}" by (auto simp: hz_init_def Let_def)
  moreover have "hs_cursors st' = hs_cursors (hz_init factory legacyPool lastLedger)" if "waiting ?T st'" for st'
    using start \<open>waiting ?T st'\<close> by (simp add: waiting_def)
  ultimately show ?thesis unfolding asks_now_def by auto
qed

theorem horizon_now_never_starts_witness:
  "\<exists>tr st' s'. steps (mem_horizon digits_rank) (chain_grows digits_rank (\<lambda>V. V))
      ([polls demo_env [(1, 1), (5000, 5000)] (hz_init ''F'' ''P'' (Fin 0))], demo_view demo_stream) tr ([Ret st'], s') \<and>
     (\<forall>(i, c, r)\<in>set tr. \<exists>a\<in>{''F'', ''P''}. c = Fetch_Effects a ''now'') \<and>
     hs_cursors st' = [(''F'', ''now''), (''P'', ''now'')]"
proof -
  let ?exec = "mem_horizon digits_rank" and ?m = "polls demo_env [(1, 1), (5000, 5000)] (hz_init ''F'' ''P'' (Fin 0))"
  obtain tr where tr: "steps ?exec (chain_grows digits_rank (\<lambda>V. V)) ([?m], demo_view demo_stream) tr
      ([Ret (fst (run ?exec ?m (demo_view demo_stream)))], snd (run ?exec ?m (demo_view demo_stream)))"
    using run_steps [of ?exec "chain_grows digits_rank (\<lambda>V. V)" ?m "demo_view demo_stream"] by blast
  have zero: "\<not> jlt (Fin 0) (Fin 0)" by code_simp
  then have cursors: "hs_cursors (hz_init ''F'' ''P'' (Fin 0)) = [(''F'', ''now''), (''P'', ''now'')]"
    by (simp add: hz_init_def Let_def)
  from horizon_now_never_starts [OF mem_horizon_ok zero tr] show ?thesis using tr unfolding cursors by blast
qed

end
