(* ===== verification/Webhook_Guard.thy ===== *)
theory Webhook_Guard
  imports Js_Text Service_Prog "HOL-Library.Word"
begin

text \<open>
  The pure parts of the webhooks: which addresses are blocked (\<^verbatim>\<open>apps/api/src/webhooks/webhook-url-guard.ts\<close>), the
  check of a signature (\<^verbatim>\<open>webhook.types.ts\<close>) and the retry delays (\<^verbatim>\<open>webhook-backoff.ts\<close>).

  The lemmas compare the address check with the address blocks it names, show what a signature must be, and
  give the retry schedule.
\<close>

section \<open>Addresses\<close>

text \<open>\<^verbatim>\<open>net.isIP\<close> of Node: four decimal numbers without leading zeros.\<close>

definition v4_segment :: "string \<Rightarrow> bool" where
  "v4_segment s = (s \<noteq> [] \<and> list_all is_digit s \<and> length s \<le> 3 \<and> (hd s = CHR ''0'' \<longrightarrow> length s = 1) \<and> digits_value 10 0 s \<le> 255)"

definition is_v4 :: "string \<Rightarrow> bool" where
  "is_v4 s = (let parts = split_on (CHR ''.'') s in length parts = 4 \<and> list_all v4_segment parts)"

text \<open>
  Eight groups of up to four hexadecimal digits, the last two possibly as an IPv4 address, or fewer with one
  omission, and possibly a zone. \<open>v6_groups\<close> counts the groups.
\<close>

definition v6_segment :: "string \<Rightarrow> bool" where
  "v6_segment s = (s \<noteq> [] \<and> length s \<le> 4 \<and> list_all (is_radix_digit 16) s)"

fun v6_groups :: "bool \<Rightarrow> string list \<Rightarrow> nat option" where
  "v6_groups tail [] = Some 0"
| "v6_groups tail [g] = (if v6_segment g then Some 1 else if tail \<and> is_v4 g then Some 2 else None)"
| "v6_groups tail (g # gs) = (if v6_segment g then map_option Suc (v6_groups tail gs) else None)"

fun split_omission :: "string \<Rightarrow> (string \<times> string) option" where
  "split_omission (c # d # cs) =
     (if c = CHR '':'' \<and> d = CHR '':'' then Some ([], cs)
      else map_option (\<lambda>(l, r). (c # l, r)) (split_omission (d # cs)))"
| "split_omission cs = None"

definition groups_of :: "bool \<Rightarrow> string \<Rightarrow> nat option" where
  "groups_of tail s = (if s = [] then Some 0 else v6_groups tail (split_on (CHR '':'') s))"

definition v6_body :: "string \<Rightarrow> bool" where
  "v6_body s = (case split_omission s of
       None \<Rightarrow> v6_groups True (split_on (CHR '':'') s) = Some 8
     | Some (l, r) \<Rightarrow> (case (groups_of False l, groups_of True r) of (Some m, Some n) \<Rightarrow> m + n \<le> 7 | _ \<Rightarrow> False))"

definition v6_zone :: "string \<Rightarrow> bool" where
  "v6_zone z = (z = [] \<or> (tl z \<noteq> [] \<and> list_all (\<lambda>c. is_radix_digit 36 c \<or> c \<in> set ''-.:'') (tl z)))"

definition is_v6 :: "string \<Rightarrow> bool" where
  "is_v6 s = (v6_body (takeWhile (\<lambda>c. c \<noteq> CHR ''%'') s) \<and> v6_zone (dropWhile (\<lambda>c. c \<noteq> CHR ''%'') s))"

definition isIP :: "string \<Rightarrow> nat" where
  "isIP s = (if is_v4 s then 4 else if is_v6 s then 6 else 0)"

definition isBlockedIp :: "string \<Rightarrow> bool" where
  "isBlockedIp ip =
     (if isIP ip = 4 then
        (let parts = map num_of_string (split_on (CHR ''.'') ip); a = parts ! 0; b = parts ! 1 in
           a = Fin 127 \<or> a = Fin 10 \<or> a = Fin 0 \<or> (a = Fin 169 \<and> b = Fin 254) \<or>
           (a = Fin 172 \<and> jle (Fin 16) b \<and> jle b (Fin 31)) \<or> (a = Fin 192 \<and> b = Fin 168))
      else if isIP ip = 6 then
        (let l = map lower_char ip in
           l = ''::1'' \<or> starts_with ''fe80:'' l \<or> starts_with ''fc'' l \<or> starts_with ''fd'' l)
      else False)"

section \<open>Address blocks\<close>

text \<open>The address as a word, and the blocks the guard means, as network and prefix length.\<close>

definition v4_word :: "string \<Rightarrow> 32 word" where
  "v4_word ip = foldl (\<lambda>w s. 256 * w + of_int (digits_value 10 0 s)) 0 (split_on (CHR ''.'') ip)"

definition in_block :: "32 word \<Rightarrow> 32 word \<times> nat \<Rightarrow> bool" where
  "in_block w = (\<lambda>(network, len). drop_bit (32 - len) w = drop_bit (32 - len) network)"

definition v4_quad :: "nat \<Rightarrow> nat \<Rightarrow> nat \<Rightarrow> nat \<Rightarrow> 32 word" where
  "v4_quad a b c d = of_nat (a * 2 ^ 24 + b * 2 ^ 16 + c * 2 ^ 8 + d)"

definition v4_blocks :: "(32 word \<times> nat) list" where
  "v4_blocks = [(v4_quad 127 0 0 0, 8), (v4_quad 10 0 0 0, 8), (v4_quad 0 0 0 0, 8), (v4_quad 169 254 0 0, 16),
     (v4_quad 172 16 0 0, 12), (v4_quad 192 168 0 0, 16)]"

lemma v4_parts:
  assumes "is_v4 ip"
  obtains sa sb sc sd a b c d where "split_on (CHR ''.'') ip = [sa, sb, sc, sd]"
    and "map (digits_value 10 0) [sa, sb, sc, sd] = [int a, int b, int c, int d]"
    and "map num_of_string [sa, sb, sc, sd] = [Fin (of_nat a), Fin (of_nat b), Fin (of_nat c), Fin (of_nat d)]"
    and "a \<le> 255" "b \<le> 255" "c \<le> 255" "d \<le> 255"
proof -
  have "length (split_on (CHR ''.'') ip) = 4" using assms by (simp add: is_v4_def Let_def)
  then obtain sa sb sc sd where s: "split_on (CHR ''.'') ip = [sa, sb, sc, sd]"
    by (auto simp: numeral_eq_Suc length_Suc_conv)
  have seg: "v4_segment sa" "v4_segment sb" "v4_segment sc" "v4_segment sd"
    using assms s by (simp_all add: is_v4_def Let_def)
  have num: "\<exists>n. digits_value 10 0 x = int n \<and> num_of_string x = Fin (of_nat n) \<and> n \<le> 255" if "v4_segment x" for x
  proof -
    have x: "x \<noteq> []" "list_all is_digit x" "digits_value 10 0 x \<le> 255" using that by (auto simp: v4_segment_def)
    then have "0 \<le> digits_value 10 0 x" using digits_value_ge by blast
    then obtain n where "digits_value 10 0 x = int n" using nonneg_int_cases by blast
    then show ?thesis using x num_of_string_digits [of x] by (intro exI [of _ n]) simp
  qed
  show ?thesis using that [OF s] num [OF seg(1)] num [OF seg(2)] num [OF seg(3)] num [OF seg(4)] by (elim exE conjE) simp
qed

lemma drop_octets:
  assumes "n < 2 ^ 32" and "m < 2 ^ 32"
  shows "drop_bit k (of_nat n :: 32 word) = drop_bit k (of_nat m) \<longleftrightarrow> n div 2 ^ k = m div 2 ^ k"
proof -
  have "unat (drop_bit k (of_nat j :: 32 word)) = j div 2 ^ k" if "j < 2 ^ 32" for j
    using that by (simp add: unat_drop_bit_eq unat_of_nat take_bit_nat_eq_self drop_bit_eq_div [where 'a = nat])
  then show ?thesis using assms by (metis word_unat_eq_iff)
qed

lemma octets_div:
  fixes a b c d :: nat
  assumes "b \<le> 255" "c \<le> 255" "d \<le> 255"
  defines "n \<equiv> a * 2 ^ 24 + b * 2 ^ 16 + c * 2 ^ 8 + d"
  shows "n div 2 ^ 24 = a" and "n div 2 ^ 16 = a * 256 + b" and "n div 2 ^ 20 = a * 16 + b div 16"
proof -
  have n: "n = (a * 256 + b) * 65536 + (c * 256 + d)" by (simp add: n_def)
  have "c * 256 + d < 65536" using assms by linarith
  then show d16: "n div 2 ^ 16 = a * 256 + b" unfolding n by simp
  have "n div 2 ^ 24 = n div 2 ^ 16 div 2 ^ 8" by (simp add: div_mult2_eq)
  also have "\<dots> = a" unfolding d16 using assms(1) by simp
  finally show "n div 2 ^ 24 = a" .
  have "n div 2 ^ 20 = n div 2 ^ 16 div 2 ^ 4" by (simp add: div_mult2_eq)
  also have "\<dots> = a * 16 + b div 16" unfolding d16 by simp
  finally show "n div 2 ^ 20 = a * 16 + b div 16" .
qed

lemma mixed_eq:
  fixes a b k :: nat
  assumes "b < k" and "b' < k"
  shows "a * k + b = a' * k + b' \<longleftrightarrow> a = a' \<and> b = b'"
proof
  assume e: "a * k + b = a' * k + b'"
  have "(a * k + b) div k = a" "(a' * k + b') div k = a'" "(a * k + b) mod k = b" "(a' * k + b') mod k = b'"
    using assms by simp_all
  then show "a = a' \<and> b = b'" unfolding e by simp
qed simp

lemma v4_in_block:
  assumes "a \<le> 255" "b \<le> 255" "c \<le> 255" "d \<le> 255" "a0 \<le> 255" "b0 \<le> 255"
  shows "in_block (v4_quad a b c d) (v4_quad a0 b0 0 0, 8) \<longleftrightarrow> a = a0"
    and "in_block (v4_quad a b c d) (v4_quad a0 b0 0 0, 16) \<longleftrightarrow> a = a0 \<and> b = b0"
    and "in_block (v4_quad a b c d) (v4_quad a0 b0 0 0, 12) \<longleftrightarrow> a = a0 \<and> b div 16 = b0 div 16"
proof -
  let ?n = "a * 2 ^ 24 + b * 2 ^ 16 + c * 2 ^ 8 + d" and ?m = "a0 * 2 ^ 24 + b0 * 2 ^ 16 + 0 * 2 ^ 8 + 0"
  have small: "?n < 2 ^ 32" "?m < 2 ^ 32" using assms by simp_all
  note n = octets_div [OF assms(2-4), of a] and m = octets_div [OF assms(6) le0 le0, of a0]
  have block: "in_block (v4_quad a b c d) (v4_quad a0 b0 0 0, len) \<longleftrightarrow> ?n div 2 ^ (32 - len) = ?m div 2 ^ (32 - len)" for len
    unfolding in_block_def prod.case v4_quad_def by (rule drop_octets [OF small])
  have k: "32 - 8 = (24 :: nat)" "32 - 16 = (16 :: nat)" "32 - 12 = (20 :: nat)" by simp_all
  show "in_block (v4_quad a b c d) (v4_quad a0 b0 0 0, 8) \<longleftrightarrow> a = a0"
    unfolding block k n(1) m(1) ..
  show "in_block (v4_quad a b c d) (v4_quad a0 b0 0 0, 16) \<longleftrightarrow> a = a0 \<and> b = b0"
    unfolding block k n(2) m(2) by (rule mixed_eq) (use assms(2,6) in simp_all)
  have "b div 16 < 16" "b0 div 16 < 16" using assms(2,6) by linarith+
  then show "in_block (v4_quad a b c d) (v4_quad a0 b0 0 0, 12) \<longleftrightarrow> a = a0 \<and> b div 16 = b0 div 16"
    unfolding block k n(3) m(3) by (rule mixed_eq)
qed

lemma isBlockedIp_v4:
  assumes "is_v4 ip"
  shows "isBlockedIp ip = (\<exists>b \<in> set v4_blocks. in_block (v4_word ip) b)"
proof -
  obtain sa sb sc sd a b c d where s: "split_on (CHR ''.'') ip = [sa, sb, sc, sd]"
    and v: "map (digits_value 10 0) [sa, sb, sc, sd] = [int a, int b, int c, int d]"
    and n: "map num_of_string [sa, sb, sc, sd] = [Fin (of_nat a), Fin (of_nat b), Fin (of_nat c), Fin (of_nat d)]"
    and le: "a \<le> 255" "b \<le> 255" "c \<le> 255" "d \<le> 255"
    using v4_parts [OF assms] .
  have w: "v4_word ip = v4_quad a b c d"
    using v by (simp add: v4_word_def v4_quad_def s algebra_simps)
  have eq: "(Fin (of_nat x) = Fin (numeral k)) = (x = numeral k)" for x k
    by (metis jsnum.inject(2) of_nat_eq_iff of_nat_numeral)
  have ord: "jle (Fin 16) (Fin (of_nat b)) \<and> jle (Fin (of_nat b)) (Fin 31) \<longleftrightarrow> b div 16 = 1"
    using le(2) by (auto simp: jle_def jeq_def)
  have "isBlockedIp ip \<longleftrightarrow> a = 127 \<or> a = 10 \<or> a = 0 \<or> (a = 169 \<and> b = 254) \<or> (a = 172 \<and> b div 16 = 1) \<or> (a = 192 \<and> b = 168)"
    using assms n ord by (simp add: isBlockedIp_def isIP_def s Let_def eq)
  also have "\<dots> \<longleftrightarrow> (\<exists>b \<in> set v4_blocks. in_block (v4_word ip) b)"
    unfolding v4_blocks_def w list.set bex_simps using v4_in_block [OF le] by simp
  finally show ?thesis .
qed

lemma set_split_on: "set s \<subseteq> insert d (\<Union>w \<in> set (split_on d s). set w)"
proof (induction s)
  case (Cons c s)
  then show ?case by (cases "split_on d s") auto
qed simp

lemma v4_chars:
  assumes "is_v4 ip" and "c \<in> set ip"
  shows "c = CHR ''.'' \<or> is_digit c"
proof -
  have "\<forall>w \<in> set (split_on (CHR ''.'') ip). \<forall>c \<in> set w. is_digit c"
    using assms(1) by (auto simp: is_v4_def Let_def v4_segment_def list_all_iff)
  then show ?thesis using set_split_on [of ip "CHR ''.''"] assms(2) by blast
qed

lemma split_on_absent: "d \<notin> set s \<Longrightarrow> split_on d s = [s]"
  by (induction s) auto

lemma mapped_v6:
  assumes "is_v4 ip"
  shows "isIP (''::ffff:'' @ ip) = 6 \<and> \<not> isBlockedIp (''::ffff:'' @ ip)"
proof -
  have "CHR '':'' \<notin> set ip" "CHR ''%'' \<notin> set ip"
    using v4_chars [OF assms] by (force simp: is_radix_digit_def digit_val_def)+
  then have colon: "split_on (CHR '':'') ip = [ip]" and percent: "takeWhile (\<lambda>c. c \<noteq> CHR ''%'') ip = ip"
      "dropWhile (\<lambda>c. c \<noteq> CHR ''%'') ip = []"
    by (auto simp: split_on_absent takeWhile_eq_all_conv)
  have "\<not> is_v4 (''::ffff:'' @ ip)"
    using v4_chars [of "''::ffff:'' @ ip" "CHR '':''"] by (force simp: is_radix_digit_def digit_val_def)
  moreover have "v6_segment ''ffff''" by code_simp
  then have "groups_of True (''ffff:'' @ ip) = (if v6_segment ip then Some 2 else Some 3)"
    using assms by (simp add: groups_of_def colon)
  then have "is_v6 (''::ffff:'' @ ip)" by (simp add: is_v6_def v6_body_def percent v6_zone_def groups_of_def)
  ultimately show ?thesis by (simp add: isBlockedIp_def isIP_def starts_with_def lower_char_def)
qed

text \<open>An IPv4 address is blocked exactly if it lies in one of the six blocks the guard names, 127.0.0.0/8,
  10.0.0.0/8, 0.0.0.0/8, 169.254.0.0/16, 172.16.0.0/12 and 192.168.0.0/16. The IPv6 address that stands for the
  same IPv4 address is never blocked.
\<close>

theorem isBlockedIp_v4_blocks:
  assumes "isIP ip = 4"
  shows "isBlockedIp ip = (\<exists>b \<in> set v4_blocks. in_block (v4_word ip) b) \<and>
    isIP (''::ffff:'' @ ip) = 6 \<and> \<not> isBlockedIp (''::ffff:'' @ ip)"
  using assms isBlockedIp_v4 [of ip] mapped_v6 [of ip] by (simp_all add: isIP_def split: if_splits)

theorem isBlockedIp_v4_blocks_witness:
  "(\<exists>b \<in> set v4_blocks. in_block (v4_word ''172.31.0.1'') b) \<and> isIP ''::ffff:172.31.0.1'' = 6 \<and>
   \<not> isBlockedIp ''::ffff:172.31.0.1''"
proof -
  have ip: "isIP ''172.31.0.1'' = 4" and blocked: "isBlockedIp ''172.31.0.1''" by code_simp+
  show ?thesis using isBlockedIp_v4_blocks [OF ip] blocked by simp
qed

section \<open>Signatures\<close>

definition hex_digit :: "int \<Rightarrow> char" where
  "hex_digit d = (if d < 10 then char_of (48 + d) else char_of (87 + d))"

definition hex_encode :: "8 word list \<Rightarrow> string" where
  "hex_encode bs = concat (map (\<lambda>b. [hex_digit (uint b div 16), hex_digit (uint b mod 16)]) bs)"

text \<open>\<^verbatim>\<open>Buffer.from(s, 'hex')\<close> stops at the first pair that is not hexadecimal.\<close>

fun hex_decode :: "string \<Rightarrow> 8 word list" where
  "hex_decode (c # d # cs) =
     (if is_radix_digit 16 c \<and> is_radix_digit 16 d
      then of_int (16 * the (digit_val c) + the (digit_val d)) # hex_decode cs else [])"
| "hex_decode _ = []"

text \<open>\<open>hmac secret body\<close> is the HMAC-SHA256; comparing the buffers in constant time is comparing them.\<close>

definition verifyWebhookSignature :: "(string \<Rightarrow> string \<Rightarrow> 8 word list) \<Rightarrow> string \<Rightarrow> string \<Rightarrow> string \<Rightarrow> bool" where
  "verifyWebhookSignature hmac body signature secret =
     (if signature = [] \<or> secret = [] then False
      else if \<not> (length signature = 64 \<and> list_all (is_radix_digit 16) signature) then False
      else let expected = hex_encode (hmac secret body); sigBuf = hex_decode signature; expBuf = hex_decode expected in
        if length sigBuf \<noteq> length expBuf then False else sigBuf = expBuf)"

lemma hex_digit_val:
  assumes "0 \<le> d" and "d < 16"
  shows "digit_val (hex_digit d) = Some d" and "is_radix_digit 16 (hex_digit d)"
proof -
  show "digit_val (hex_digit d) = Some d" using assms by (simp add: digit_val_def hex_digit_def Let_def)
  then show "is_radix_digit 16 (hex_digit d)" using assms by (simp add: is_radix_digit_def)
qed

lemma digit_val_hex:
  assumes "is_radix_digit 16 c"
  shows "hex_digit (the (digit_val c)) = lower_char c" and "0 \<le> the (digit_val c)" and "the (digit_val c) < 16"
proof -
  define m where "m = (of_char c :: nat)"
  have i: "(of_char c :: int) = int m" and c: "c = char_of m" by (simp_all add: m_def of_nat_of_char)
  have up: "char_of (int m + 32) = (char_of (m + 32) :: char)" by (metis char_of_nat of_nat_add of_nat_numeral)
  have "0 \<le> the (digit_val c) \<and> the (digit_val c) < 16 \<and> hex_digit (the (digit_val c)) = lower_char c"
    using assms unfolding is_radix_digit_def digit_val_def hex_digit_def lower_char_def Let_def i m_def [symmetric]
    by (auto simp: up add.commute c split: if_splits)
  then show "hex_digit (the (digit_val c)) = lower_char c" and "0 \<le> the (digit_val c)" and "the (digit_val c) < 16" by blast+
qed

lemma byte_nibbles:
  fixes b :: "8 word"
  shows "0 \<le> uint b div 16" "uint b div 16 < 16" "0 \<le> uint b mod 16" "uint b mod 16 < 16"
    and "16 * (uint b div 16) + uint b mod 16 = uint b"
proof -
  have "uint b < 2 ^ LENGTH(8)" by (rule uint_lt2p)
  then have "uint b < 256" by simp
  moreover have "0 \<le> uint b" by (rule uint_ge_0)
  ultimately show "0 \<le> uint b div 16" "uint b div 16 < 16" "0 \<le> uint b mod 16" "uint b mod 16 < 16"
    "16 * (uint b div 16) + uint b mod 16 = uint b" by (simp_all add: pos_imp_zdiv_nonneg_iff del: uint_div)
qed

lemma hex_encode_digits: "list_all (is_radix_digit 16) (hex_encode bs)"
  by (induction bs) (simp_all add: hex_encode_def hex_digit_val byte_nibbles)

lemma length_hex_encode: "length (hex_encode bs) = 2 * length bs"
  by (induction bs) (simp_all add: hex_encode_def)

lemma hex_decode_encode: "hex_decode (hex_encode bs) = bs"
proof (induction bs)
  case (Cons b bs)
  have "hex_encode (b # bs) = hex_digit (uint b div 16) # hex_digit (uint b mod 16) # hex_encode bs"
    by (simp add: hex_encode_def)
  then show ?case using Cons by (simp add: hex_digit_val byte_nibbles)
qed (simp add: hex_encode_def)

lemma hex_encode_decode:
  "list_all (is_radix_digit 16) s \<Longrightarrow> even (length s) \<Longrightarrow> hex_encode (hex_decode s) = map lower_char s"
proof (induction s rule: hex_decode.induct)
  case (1 c d cs)
  let ?c = "the (digit_val c)" and ?d = "the (digit_val d)"
  have hex: "is_radix_digit 16 c" "is_radix_digit 16 d" using 1(2) by simp_all
  note c = digit_val_hex [OF hex(1)] and d = digit_val_hex [OF hex(2)]
  have "uint (of_int (16 * ?c + ?d) :: 8 word) = 16 * ?c + ?d"
    using c(2,3) d(2,3) by (subst uint_word_of_int) simp
  moreover have "(16 * ?c + ?d) div 16 = ?c" "(16 * ?c + ?d) mod 16 = ?d" using d(2,3) by simp_all
  ultimately have "hex_encode (of_int (16 * ?c + ?d) # hex_decode cs) = lower_char c # lower_char d # hex_encode (hex_decode cs)"
    using c(1) d(1) by (simp add: hex_encode_def)
  moreover have "hex_decode (c # d # cs) = of_int (16 * ?c + ?d) # hex_decode cs" using hex by simp
  moreover have "hex_encode (hex_decode cs) = map lower_char cs" by (rule 1(1)) (use hex 1(2,3) in simp_all)
  ultimately show ?case by (simp only: list.map)
qed (simp_all add: hex_encode_def)

lemma lower_hex: "is_radix_digit 16 (lower_char c) = is_radix_digit 16 c"
proof -
  define m where "m = (of_char c :: nat)"
  have i: "(of_char c :: int) = int m" by (simp add: m_def of_nat_of_char)
  have "digit_val (lower_char c) = digit_val c"
  proof (cases "65 \<le> m \<and> m \<le> 90")
    case True
    then have l: "lower_char c = char_of (m + 32)" by (simp add: lower_char_def Let_def m_def)
    have "(of_char (char_of (m + 32)) :: nat) = m + 32" using True by simp
    then have "(of_char (lower_char c) :: int) = int (m + 32)" unfolding l by (metis of_nat_of_char)
    then show ?thesis using True by (simp add: digit_val_def Let_def i)
  next
    case False
    then have "lower_char c = c" by (auto simp: lower_char_def Let_def m_def)
    then show ?thesis by simp
  qed
  then show ?thesis by (simp add: is_radix_digit_def)
qed

text \<open>With a secret, a signature is accepted exactly if it is the hexadecimal text of the body's HMAC, in upper or
  lower case; without a secret nothing is accepted. What a delivery sends in its header is accepted.
\<close>

theorem verifyWebhookSignature_iff:
  assumes "length (hmac secret body) = 32"
  shows "verifyWebhookSignature hmac body signature secret \<longleftrightarrow>
     secret \<noteq> [] \<and> map lower_char signature = hex_encode (hmac secret body)"
proof
  assume v: "verifyWebhookSignature hmac body signature secret"
  then have s: "secret \<noteq> []" and hex: "length signature = 64" "list_all (is_radix_digit 16) signature"
    and eq: "hex_decode signature = hex_decode (hex_encode (hmac secret body))"
    by (auto simp: verifyWebhookSignature_def Let_def split: if_splits)
  have "map lower_char signature = hex_encode (hex_decode signature)" using hex by (simp add: hex_encode_decode)
  with s eq show "secret \<noteq> [] \<and> map lower_char signature = hex_encode (hmac secret body)" by (simp add: hex_decode_encode)
next
  assume a: "secret \<noteq> [] \<and> map lower_char signature = hex_encode (hmac secret body)"
  then have "length (map lower_char signature) = 64" using assms by (simp only: length_hex_encode)
  then have len: "length signature = 64" by simp
  have "list_all (is_radix_digit 16) (map lower_char signature)" using a hex_encode_digits by metis
  then have hex: "list_all (is_radix_digit 16) signature" by (simp add: list_all_iff lower_hex)
  have "hex_encode (hex_decode signature) = hex_encode (hmac secret body)" using a hex len by (simp add: hex_encode_decode)
  then have "hex_decode signature = hmac secret body" by (metis hex_decode_encode)
  moreover have "signature \<noteq> []" using len by auto
  ultimately show "verifyWebhookSignature hmac body signature secret"
    using a len hex by (simp add: verifyWebhookSignature_def hex_decode_encode)
qed

theorem verifyWebhookSignature_iff_witness:
  "verifyWebhookSignature (\<lambda>_ _. replicate 32 171) ''{}'' (concat (replicate 32 ''Ab'')) ''s'' \<and>
   \<not> verifyWebhookSignature (\<lambda>_ _. replicate 32 171) ''{}'' (concat (replicate 32 ''Ac'')) ''s''"
proof -
  let ?hmac = "\<lambda>_ _. replicate 32 171 :: 8 word list"
  have len: "length (?hmac ''s'' ''{}'') = 32" by simp
  have hex: "hex_encode (replicate 32 171) = concat (replicate 32 ''ab'')"
  proof -
    have "[hex_digit (uint (171 :: 8 word) div 16), hex_digit (uint (171 :: 8 word) mod 16)] = ''ab''" by code_simp
    then show ?thesis unfolding hex_encode_def map_replicate by simp
  qed
  show ?thesis unfolding verifyWebhookSignature_iff [where hmac = ?hmac, OF len] hex by code_simp
qed

section \<open>Retry delays\<close>

text \<open>\<^verbatim>\<open>Array.from({ length: n })\<close> takes the whole part of a number, and at most \<open>2 ^ 53 - 1\<close>.\<close>

fun array_length :: "jsnum \<Rightarrow> nat" where
  "array_length NaN = 0"
| "array_length (Inf neg) = (if neg then 0 else 2 ^ 53 - 1)"
| "array_length (Fin x) = min (nat \<lfloor>x\<rfloor>) (2 ^ 53 - 1)"

definition webhookBackoffDelayMs :: "int \<Rightarrow> jsnum \<Rightarrow> jsnum \<Rightarrow> jsnum option" where
  "webhookBackoffDelayMs attempt baseDelayMs maxAttempts =
     (if attempt < 1 \<or> jlt maxAttempts (num_of_int attempt) then None
      else if attempt = 1 then Some (Fin 0)
      else Some (jmul baseDelayMs (to_double (2 powi (attempt - 2)))))"

definition webhookBackoffSchedule :: "jsnum \<Rightarrow> jsnum \<Rightarrow> jsnum option list" where
  "webhookBackoffSchedule baseDelayMs maxAttempts =
     map (\<lambda>i. webhookBackoffDelayMs (int i + 1) baseDelayMs maxAttempts) [0..<array_length maxAttempts]"

text \<open>The first retry delay that \<^verbatim>\<open>dispatch\<close> of \<^verbatim>\<open>webhook.processor.ts\<close> hands to the queue.\<close>

definition firstRetryDelayMs :: "jsnum \<Rightarrow> jsnum \<Rightarrow> jsnum" where
  "firstRetryDelayMs baseDelayMs maxAttempts =
     (let retryDelays = map (\<lambda>i. webhookBackoffDelayMs (int i + 2) baseDelayMs maxAttempts)
          [0..<array_length (jmax (Fin 0) (jsub maxAttempts (Fin 1)))]
      in case retryDelays of Some d # _ \<Rightarrow> d | _ \<Rightarrow> baseDelayMs)"

lemma nat_double: "n \<le> 2 ^ 53 \<Longrightarrow> to_double (of_nat n) = Fin (of_nat n)"
proof -
  assume "n \<le> 2 ^ 53"
  then have "int n \<le> 2 ^ 53" by (metis of_nat_le_iff of_nat_numeral of_nat_power)
  then show ?thesis using to_double_of_int [of "int n"] by simp
qed

lemma backoff_retry:
  assumes "b * 2 ^ k \<le> 2 ^ 53" and "0 < b" and "k + 2 \<le> m" and "m \<le> 2 ^ 52"
  shows "webhookBackoffDelayMs (int k + 2) (Fin (of_nat b)) (Fin (of_nat m)) = Some (Fin (of_nat (b * 2 ^ k)))"
proof -
  have "2 ^ k \<le> b * 2 ^ k" using assms(2) by simp
  then have two: "(2 :: nat) ^ k \<le> 2 ^ 53" using assms(1) by linarith
  have "(2 :: rat) powi (int k + 2 - 2) = of_nat (2 ^ k)" by (simp add: power_int_def)
  then have "to_double (2 powi (int k + 2 - 2)) = Fin (of_nat (2 ^ k))" using nat_double [OF two] by simp
  then have "jmul (Fin (of_nat b)) (to_double (2 powi (int k + 2 - 2))) = to_double (of_nat (b * 2 ^ k))" by simp
  then have delay: "jmul (Fin (of_nat b)) (to_double (2 powi (int k + 2 - 2))) = Fin (of_nat (b * 2 ^ k))"
    using nat_double [OF assms(1)] by simp
  have "k + 2 \<le> 2 ^ 53" using assms(3,4) by simp
  then have "num_of_int (int k + 2) = Fin (of_nat (k + 2))" using nat_double [of "k + 2"] by (simp add: num_of_int_def add.commute)
  moreover have "\<not> (of_nat m :: rat) < of_nat (k + 2)" using assms(3) by (simp only: of_nat_less_iff not_less)
  ultimately have "\<not> jlt (Fin (of_nat m)) (num_of_int (int k + 2))" by simp
  then show ?thesis using delay by (simp add: webhookBackoffDelayMs_def)
qed

text \<open>For whole numbers, the schedule starts at once and doubles the base delay with every retry, and the delay handed
  to the queue is the base delay, so the queue's own doubling gives the same schedule.
\<close>

theorem webhook_retry_schedule:
  assumes "0 < b" and "1 \<le> m" and "m \<le> 2 ^ 52" and "b * 2 ^ m \<le> 2 ^ 53"
  shows "webhookBackoffSchedule (Fin (of_nat b)) (Fin (of_nat m)) =
      Some (Fin 0) # map (\<lambda>k. Some (Fin (of_nat (b * 2 ^ k)))) [0..<m - 1] \<and>
    firstRetryDelayMs (Fin (of_nat b)) (Fin (of_nat m)) = Fin (of_nat b)"
proof
  have retry: "webhookBackoffDelayMs (int k + 2) (Fin (of_nat b)) (Fin (of_nat m)) = Some (Fin (of_nat (b * 2 ^ k)))"
    if "k < m - 1" for k
  proof (rule backoff_retry [OF _ assms(1) _ assms(3)])
    have "(2 :: nat) ^ k \<le> 2 ^ m" using that by (intro power_increasing) simp_all
    then have "b * 2 ^ k \<le> b * 2 ^ m" by (rule mult_le_mono2)
    then show "b * 2 ^ k \<le> 2 ^ 53" using assms(4) by linarith
  qed (use that in simp)
  have len: "array_length (Fin (of_nat m)) = m" using assms(3) by simp
  have "\<not> (of_nat m :: rat) < 1" using assms(2) by (metis not_less of_nat_1 of_nat_le_iff)
  moreover have "num_of_int 1 = Fin 1" by simp
  ultimately have first: "webhookBackoffDelayMs (int 0 + 1) (Fin (of_nat b)) (Fin (of_nat m)) = Some (Fin 0)"
    by (simp add: webhookBackoffDelayMs_def)
  have "[0..<m] = 0 # map Suc [0..<m - 1]" using assms(2) by (simp add: map_Suc_upt upt_conv_Cons)
  then have "webhookBackoffSchedule (Fin (of_nat b)) (Fin (of_nat m)) =
      Some (Fin 0) # map (\<lambda>k. webhookBackoffDelayMs (int (Suc k) + 1) (Fin (of_nat b)) (Fin (of_nat m))) [0..<m - 1]"
    unfolding webhookBackoffSchedule_def len using first by simp
  also have "\<dots> = Some (Fin 0) # map (\<lambda>k. Some (Fin (of_nat (b * 2 ^ k)))) [0..<m - 1]"
  proof -
    have "int (Suc k) + 1 = int k + 2" for k by simp
    then have "webhookBackoffDelayMs (int (Suc k) + 1) (Fin (of_nat b)) (Fin (of_nat m)) = Some (Fin (of_nat (b * 2 ^ k)))"
      if "k < m - 1" for k using retry [OF that] by (simp only:)
    then show ?thesis by (intro arg_cong2 [where f = Cons] map_cong refl) (simp only: set_upt atLeastLessThan_iff)
  qed
  finally show "webhookBackoffSchedule (Fin (of_nat b)) (Fin (of_nat m)) =
      Some (Fin 0) # map (\<lambda>k. Some (Fin (of_nat (b * 2 ^ k)))) [0..<m - 1]" .
  have "(of_nat m :: rat) + - 1 = of_nat (m - 1)" using assms(2) by (simp add: of_nat_diff)
  moreover have "m - 1 \<le> 2 ^ 53" using assms(3) by simp
  ultimately have "jsub (Fin (of_nat m)) (Fin 1) = Fin (of_nat (m - 1))"
    unfolding jsub_def jneg.simps jadd.simps by (simp only: nat_double)
  then have n: "array_length (jmax (Fin 0) (jsub (Fin (of_nat m)) (Fin 1))) = m - 1"
    using assms(3) by (simp add: jmax_def) arith
  show "firstRetryDelayMs (Fin (of_nat b)) (Fin (of_nat m)) = Fin (of_nat b)"
  proof (cases "m - 1")
    case 0
    then show ?thesis by (simp add: firstRetryDelayMs_def n)
  next
    case (Suc l)
    then show ?thesis using retry [of 0] by (simp add: firstRetryDelayMs_def n upt_conv_Cons del: upt_Suc)
  qed
qed

theorem webhook_retry_schedule_witness:
  "webhookBackoffSchedule (Fin 2000) (Fin 3) = [Some (Fin 0), Some (Fin 2000), Some (Fin 4000)]"
  using webhook_retry_schedule [of 2000 3] by (simp add: upt_rec)

end
