(* ===== verification/Webhooks.thy ===== *)
theory Webhooks
  imports Webhook_Guard Prog_Wp Json
begin

text \<open>
  Webhooks: the service (\<^verbatim>\<open>apps/api/src/webhooks/webhooks.service.ts\<close>), the queue worker (\<^verbatim>\<open>webhook.processor.ts\<close>) and the
  URL check at delivery (\<^verbatim>\<open>webhook-url-guard.ts\<close>). A wallet registers URLs for kinds of events; an event becomes
  a delivery job per subscribed webhook; a job that fails is retried by the queue, and a webhook whose
  deliveries keep failing is disabled.

  The database, the queue, DNS, HTTP and the clock are calls. \<open>wh_answers\<close> states what is relied on of them; URL parsing,
  HMAC and \<^verbatim>\<open>JSON.stringify\<close> are in the parameter \<open>wh_env\<close>. A time-out of a look-up or of a request is a
  call that fails.
\<close>

section \<open>Data and calls\<close>

record webhook =
  wk_id :: string
  wk_owner :: string
  wk_url :: string
  wk_eventTypes :: "string list"
  wk_secret :: "string option"
  wk_largeSwapUsd :: jsnum
  wk_disabled :: bool
  wk_fails :: int

record webhook_payload =
  wp_event :: string
  wp_timestamp :: string
  wp_data :: json

record wh_audit =
  wa_webhookId :: string
  wa_action :: string
  wa_owner :: string
  wa_meta :: string

record wh_env =
  we_json :: "json \<Rightarrow> string"
  we_hmac :: "string \<Rightarrow> string \<Rightarrow> 8 word list"
  we_parse_url :: "string \<Rightarrow> (string \<times> string) option"
  we_large_swap :: "string option"
  we_attempts :: jsnum
  we_backoff :: jsnum
  we_max_fails :: jsnum

datatype wh_call =
    Create_Webhook string string "string list" "string option" jsnum
  | Create_Audit wh_audit
  | List_Webhooks string
  | Delete_Owned string string
  | List_Audit string
  | Find_Owned string string
  | Find_Subscribed string
  | Find_Webhook string
  | Update_Webhook string int "bool option"
  | Create_Delivery string string "int option" int
  | Add_Job string webhook_payload jsnum jsnum
  | Get_Failed_Jobs
  | Retry_Job string
  | Dns_Lookup string
  | Post_Url string string "string option"
  | Read_Clock

datatype wh_reply =
    WErr string
  | WOk
  | WCreated string
  | WFound "webhook option"
  | WHooks "webhook list"
  | WAudit "wh_audit list"
  | WCount int
  | WJobs "(string \<times> string) list"
  | WAddresses "string list"
  | WStatus int
  | WTime int string

type_synonym 'a wh_prog = "(wh_call, wh_reply, 'a) prog"

definition wh_await :: "wh_call \<Rightarrow> (wh_reply \<Rightarrow> (string + 'a) wh_prog) \<Rightarrow> (string + 'a) wh_prog" where
  "wh_await c k = Call c (\<lambda>r. case r of WErr e \<Rightarrow> Ret (Inl e) | _ \<Rightarrow> k r)"

text \<open>\<^verbatim>\<open>Promise.all\<close>: all calls are made, the first failure is reported.\<close>

fun await_all :: "wh_call list \<Rightarrow> string option wh_prog" where
  "await_all [] = Ret None"
| "await_all (c # cs) = Call c (\<lambda>r. prog_bind (await_all cs) (\<lambda>e. Ret (case r of WErr x \<Rightarrow> Some x | _ \<Rightarrow> e)))"

definition WEBHOOK_EVENTS :: "string list" where
  "WEBHOOK_EVENTS = [''pool.created'', ''swap'', ''swap.large'', ''pool.tvl.milestone'', ''position.minted'', ''position.burned'']"

section \<open>Worker\<close>

definition worker_job :: "wh_env \<Rightarrow> string \<Rightarrow> webhook_payload \<Rightarrow> wh_call" where
  "worker_job env webhookId payload =
     Add_Job webhookId payload (we_attempts env) (firstRetryDelayMs (we_backoff env) (we_attempts env))"

definition worker_dispatch :: "wh_env \<Rightarrow> string \<Rightarrow> webhook_payload \<Rightarrow> (string + unit) wh_prog" where
  "worker_dispatch env webhookId payload = wh_await (worker_job env webhookId payload) (\<lambda>_. Ret (Inr ()))"

definition retryFailedDeliveries :: "string \<Rightarrow> (string + nat) wh_prog" where
  "retryFailedDeliveries webhookId =
     wh_await Get_Failed_Jobs (\<lambda>r. case r of
       WJobs failedJobs \<Rightarrow>
         (let matching = filter (\<lambda>(job, hook). hook = webhookId) failedJobs in
          prog_bind (await_all (map (\<lambda>(job, hook). Retry_Job job) matching)) (\<lambda>e.
            Ret (case e of Some x \<Rightarrow> Inl x | None \<Rightarrow> Inr (length matching))))
     | _ \<Rightarrow> Ret (Inl ''unexpected reply''))"

definition assertPublicWebhookUrl :: "wh_env \<Rightarrow> string \<Rightarrow> (string + unit) wh_prog" where
  "assertPublicWebhookUrl env rawUrl =
     (case we_parse_url env rawUrl of
        None \<Rightarrow> Ret (Inl ''Invalid webhook URL'')
      | Some (protocol, hostname) \<Rightarrow>
          if protocol \<noteq> ''http:'' \<and> protocol \<noteq> ''https:'' then Ret (Inl ''Webhook URL must use http or https'')
          else if isIP hostname \<noteq> 0 then
            (if isBlockedIp hostname then Ret (Inl ''Webhook URL resolves to a blocked address'') else Ret (Inr ()))
          else wh_await (Dns_Lookup hostname) (\<lambda>r. case r of
            WAddresses records \<Rightarrow>
              (if list_ex isBlockedIp records then Ret (Inl ''Webhook URL resolves to a blocked address'') else Ret (Inr ()))
          | _ \<Rightarrow> Ret (Inl ''unexpected reply'')))"

text \<open>The request of a delivery; a failure of any kind leaves no status.\<close>

definition post_webhook :: "wh_env \<Rightarrow> webhook \<Rightarrow> string \<Rightarrow> int option wh_prog" where
  "post_webhook env webhook body =
     prog_bind (assertPublicWebhookUrl env (wk_url webhook)) (\<lambda>x. case x of
       Inl e \<Rightarrow> Ret None
     | Inr _ \<Rightarrow> Call (Post_Url (wk_url webhook) body (case wk_secret webhook of
           Some (c # cs) \<Rightarrow> Some (hex_encode (we_hmac env (c # cs) body))
         | _ \<Rightarrow> None)) (\<lambda>r. Ret (case r of WStatus status \<Rightarrow> Some status | _ \<Rightarrow> None)))"

definition payload_json :: "webhook_payload \<Rightarrow> json" where
  "payload_json p = JObj [(''event'', JStr (wp_event p)), (''timestamp'', JStr (wp_timestamp p)), (''data'', wp_data p)]"

definition attempt_meta :: "webhook_payload \<Rightarrow> jsnum \<Rightarrow> jsnum \<Rightarrow> int option \<Rightarrow> int \<Rightarrow> bool \<Rightarrow> json" where
  "attempt_meta payload attempt maxAttempts responseStatus deliveryMs success =
     JObj [(''event'', JStr (wp_event payload)), (''attempt'', JNum attempt), (''maxAttempts'', JNum maxAttempts),
       (''responseStatus'', case responseStatus of None \<Rightarrow> JNull | Some s \<Rightarrow> JNum (num_of_int s)),
       (''deliveryMs'', JNum (num_of_int deliveryMs)), (''success'', JBool success)]"

text \<open>After the request: the records of the attempt, and the webhook's count of failures.\<close>

definition settle_delivery ::
  "wh_env \<Rightarrow> webhook \<Rightarrow> webhook_payload \<Rightarrow> jsnum \<Rightarrow> jsnum \<Rightarrow> int option \<Rightarrow> int \<Rightarrow> (string + unit) wh_prog" where
  "settle_delivery env webhook payload attempt maxAttempts responseStatus deliveryMs =
     (let success = (case responseStatus of Some s \<Rightarrow> s < 400 | None \<Rightarrow> False) in
      wh_await (Create_Delivery (wk_id webhook) (wp_event payload) responseStatus deliveryMs) (\<lambda>_.
      wh_await (Create_Audit \<lparr>wa_webhookId = wk_id webhook, wa_action = ''delivery_attempt'', wa_owner = wk_owner webhook,
        wa_meta = we_json env (attempt_meta payload attempt maxAttempts responseStatus deliveryMs success)\<rparr>) (\<lambda>_.
      if \<not> success then
        (let fails = wk_fails webhook + 1 in
         wh_await (Update_Webhook (wk_id webhook) fails (Some (jle (we_max_fails env) (num_of_int fails)))) (\<lambda>_.
           Ret (Inl (''Delivery failed with status '' @
             (case responseStatus of None \<Rightarrow> ''network error'' | Some s \<Rightarrow> num_to_string (num_of_int s))))))
      else wh_await (Update_Webhook (wk_id webhook) 0 None) (\<lambda>_. Ret (Inr ())))))"

definition deliver_to ::
  "wh_env \<Rightarrow> webhook \<Rightarrow> webhook_payload \<Rightarrow> jsnum option \<Rightarrow> jsnum option \<Rightarrow> (string + unit) wh_prog" where
  "deliver_to env webhook payload attemptsMade attempts =
     Call Read_Clock (\<lambda>t0.
       prog_bind (post_webhook env webhook (we_json env (payload_json payload))) (\<lambda>responseStatus.
       Call Read_Clock (\<lambda>t1.
         settle_delivery env webhook payload (jadd (or_else attemptsMade (Fin 0)) (Fin 1)) (or_else attempts (we_attempts env))
           responseStatus (case (t0, t1) of (WTime a _, WTime b _) \<Rightarrow> b - a | _ \<Rightarrow> 0))))"

definition deliver ::
  "wh_env \<Rightarrow> string \<Rightarrow> webhook_payload \<Rightarrow> jsnum option \<Rightarrow> jsnum option \<Rightarrow> (string + unit) wh_prog" where
  "deliver env webhookId payload attemptsMade attempts =
     wh_await (Find_Webhook webhookId) (\<lambda>r. case r of
       WFound (Some webhook) \<Rightarrow>
         if wk_disabled webhook then Ret (Inr ()) else deliver_to env webhook payload attemptsMade attempts
     | WFound None \<Rightarrow> Ret (Inr ())
     | _ \<Rightarrow> Ret (Inl ''unexpected reply''))"

section \<open>Service\<close>

definition webhook_create ::
  "wh_env \<Rightarrow> string \<Rightarrow> string \<Rightarrow> string list \<Rightarrow> string option \<Rightarrow> jsnum option \<Rightarrow> (string + string) wh_prog" where
  "webhook_create env ownerWallet url eventTypes secret largeSwapUsd =
     (let validTypes = filter (\<lambda>e. e \<in> set WEBHOOK_EVENTS) eventTypes in
      wh_await (Create_Webhook ownerWallet url validTypes secret
        (or_else largeSwapUsd (parse_float (or_else (we_large_swap env) ''10000'')))) (\<lambda>r. case r of
        WCreated wid \<Rightarrow> wh_await (Create_Audit \<lparr>wa_webhookId = wid, wa_action = ''created'', wa_owner = ownerWallet,
          wa_meta = we_json env (JObj [(''url'', JStr url), (''eventTypes'', JArr (map JStr validTypes))])\<rparr>) (\<lambda>_. Ret (Inr wid))
      | _ \<Rightarrow> Ret (Inl ''unexpected reply'')))"

definition webhook_list :: "string \<Rightarrow> (string + webhook list) wh_prog" where
  "webhook_list ownerWallet = wh_await (List_Webhooks ownerWallet) (\<lambda>r. case r of
     WHooks hooks \<Rightarrow> Ret (Inr hooks) | _ \<Rightarrow> Ret (Inl ''unexpected reply''))"

definition webhook_remove :: "string \<Rightarrow> string \<Rightarrow> (string + unit) wh_prog" where
  "webhook_remove wid ownerWallet =
     wh_await (Delete_Owned wid ownerWallet) (\<lambda>r. case r of
       WCount n \<Rightarrow>
         (if 0 < n then wh_await (Create_Audit \<lparr>wa_webhookId = wid, wa_action = ''deleted'', wa_owner = ownerWallet, wa_meta = ''{}''\<rparr>)
            (\<lambda>_. Ret (Inr ()))
          else Ret (Inr ()))
     | _ \<Rightarrow> Ret (Inl ''unexpected reply''))"

definition webhook_auditLog :: "string \<Rightarrow> (string + wh_audit list) wh_prog" where
  "webhook_auditLog ownerWallet = wh_await (List_Audit ownerWallet) (\<lambda>r. case r of
     WAudit entries \<Rightarrow> Ret (Inr entries) | _ \<Rightarrow> Ret (Inl ''unexpected reply''))"

definition retryDeliveries :: "string \<Rightarrow> string \<Rightarrow> (string + nat) wh_prog" where
  "retryDeliveries webhookId ownerWallet =
     wh_await (Find_Owned webhookId ownerWallet) (\<lambda>r. case r of
       WFound (Some _) \<Rightarrow> retryFailedDeliveries webhookId
     | WFound None \<Rightarrow> Ret (Inr 0)
     | _ \<Rightarrow> Ret (Inl ''unexpected reply''))"

definition webhook_dispatch :: "wh_env \<Rightarrow> string \<Rightarrow> json \<Rightarrow> (string + unit) wh_prog" where
  "webhook_dispatch env event data =
     wh_await (Find_Subscribed event) (\<lambda>r. case r of
       WHooks webhooks \<Rightarrow> Call Read_Clock (\<lambda>t.
         let payload = \<lparr>wp_event = event, wp_timestamp = (case t of WTime _ txt \<Rightarrow> txt | _ \<Rightarrow> []), wp_data = data\<rparr> in
         prog_bind (await_all (map (\<lambda>w. worker_job env (wk_id w) payload) webhooks)) (\<lambda>e.
           Ret (case e of Some x \<Rightarrow> Inl x | None \<Rightarrow> Inr ())))
     | _ \<Rightarrow> Ret (Inl ''unexpected reply''))"

definition ping_message :: string where
  "ping_message = ''This is a test webhook ping to verify connectivity''"

definition webhook_ping :: "wh_env \<Rightarrow> string \<Rightarrow> string \<Rightarrow> string \<Rightarrow> (string + bool \<times> string) wh_prog" where
  "webhook_ping env webhookId ownerWallet testEventType =
     wh_await (Find_Owned webhookId ownerWallet) (\<lambda>r. case r of
       WFound None \<Rightarrow> Call Read_Clock (\<lambda>t. Ret (Inr (False, testEventType)))
     | WFound (Some _) \<Rightarrow> Call Read_Clock (\<lambda>t.
         prog_then (worker_dispatch env webhookId
           \<lparr>wp_event = testEventType, wp_timestamp = (case t of WTime _ txt \<Rightarrow> txt | _ \<Rightarrow> []),
            wp_data = JObj [(''message'', JStr ping_message), (''webhookId'', JStr webhookId), (''ownerWallet'', JStr ownerWallet),
              (''test'', JBool True)]\<rparr>) (\<lambda>_.
         Call Read_Clock (\<lambda>_. Ret (Inr (True, testEventType)))))
     | _ \<Rightarrow> Ret (Inl ''unexpected reply''))"

text \<open>The endpoints of \<^verbatim>\<open>webhooks.controller.ts\<close>: the wallet is that of the token.\<close>

datatype wh_request =
    Rq_Create string "string list" "string option" "jsnum option"
  | Rq_List
  | Rq_Remove string
  | Rq_Audit
  | Rq_Retry string
  | Rq_Ping string "string option"

definition wh_done :: "(string + 'a) wh_prog \<Rightarrow> (string + unit) wh_prog" where
  "wh_done m = prog_then m (\<lambda>_. Ret (Inr ()))"

fun wh_endpoint :: "wh_env \<Rightarrow> string \<Rightarrow> wh_request \<Rightarrow> (string + unit) wh_prog" where
  "wh_endpoint env wallet (Rq_Create url types secret large) = wh_done (webhook_create env wallet url types secret large)"
| "wh_endpoint env wallet Rq_List = wh_done (webhook_list wallet)"
| "wh_endpoint env wallet (Rq_Remove wid) = wh_done (webhook_remove wid wallet)"
| "wh_endpoint env wallet Rq_Audit = wh_done (webhook_auditLog wallet)"
| "wh_endpoint env wallet (Rq_Retry wid) = wh_done (retryDeliveries wid wallet)"
| "wh_endpoint env wallet (Rq_Ping wid testEventType) = wh_done (webhook_ping env wid wallet (or_else testEventType ''swap''))"

section \<open>Database, queue and network\<close>

text \<open>The webhooks by id, the delivery jobs added, and the jobs that were retried.\<close>

record wh_view =
  wv_hooks :: "string \<Rightarrow> webhook option"
  wv_jobs :: "(string \<times> webhook_payload) list"
  wv_failed :: "(string \<times> string) list"

fun wh_answers :: "wh_call \<Rightarrow> wh_view \<Rightarrow> wh_reply \<Rightarrow> wh_view \<Rightarrow> bool" where
  "wh_answers (Create_Webhook owner url types secret large) V r V' =
     ((\<exists>e. r = WErr e) \<and> V' = V \<or>
      (\<exists>wid. r = WCreated wid \<and> wv_hooks V wid = None \<and>
         V' = V\<lparr>wv_hooks := (wv_hooks V)(wid \<mapsto> \<lparr>wk_id = wid, wk_owner = owner, wk_url = url, wk_eventTypes = types,
           wk_secret = secret, wk_largeSwapUsd = large, wk_disabled = False, wk_fails = 0\<rparr>)\<rparr>))"
| "wh_answers (Delete_Owned wid owner) V r V' =
     ((\<exists>e. r = WErr e) \<and> V' = V \<or>
      (if \<exists>w. wv_hooks V wid = Some w \<and> wk_owner w = owner
       then r = WCount 1 \<and> V' = V\<lparr>wv_hooks := (wv_hooks V)(wid := None)\<rparr> else r = WCount 0 \<and> V' = V))"
| "wh_answers (Find_Owned wid owner) V r V' =
     (V' = V \<and> ((\<exists>e. r = WErr e) \<or>
        r = WFound (case wv_hooks V wid of Some w \<Rightarrow> if wk_owner w = owner then Some w else None | None \<Rightarrow> None)))"
| "wh_answers (Find_Webhook wid) V r V' = (V' = V \<and> ((\<exists>e. r = WErr e) \<or> r = WFound (wv_hooks V wid)))"
| "wh_answers (Update_Webhook wid fails disabled) V r V' =
     ((\<exists>e. r = WErr e) \<and> V' = V \<or>
      (\<exists>w. wv_hooks V wid = Some w \<and> r = WOk \<and>
         V' = V\<lparr>wv_hooks := (wv_hooks V)(wid \<mapsto> w\<lparr>wk_fails := fails, wk_disabled := or_else disabled (wk_disabled w)\<rparr>)\<rparr>))"
| "wh_answers (Add_Job wid payload attempts delay) V r V' =
     ((\<exists>e. r = WErr e) \<and> V' = V \<or> r = WOk \<and> V' = V\<lparr>wv_jobs := wv_jobs V @ [(wid, payload)]\<rparr>)"
| "wh_answers (Find_Subscribed event) V r V' =
     (V' = V \<and> ((\<exists>e. r = WErr e) \<or>
        (\<exists>hs. r = WHooks hs \<and> set hs = {w. wv_hooks V (wk_id w) = Some w \<and> \<not> wk_disabled w \<and> event \<in> set (wk_eventTypes w)})))"
| "wh_answers (List_Webhooks owner) V r V' =
     (V' = V \<and> ((\<exists>e. r = WErr e) \<or> (\<exists>hs. r = WHooks hs \<and> set hs = {w. wv_hooks V (wk_id w) = Some w \<and> wk_owner w = owner})))"
| "wh_answers Get_Failed_Jobs V r V' = (V' = V \<and> ((\<exists>e. r = WErr e) \<or> r = WJobs (wv_failed V)))"
| "wh_answers (Retry_Job job) V r V' =
     ((\<exists>e. r = WErr e) \<and> V' = V \<or> r = WOk \<and> V' = V\<lparr>wv_failed := filter (\<lambda>(j, h). j \<noteq> job) (wv_failed V)\<rparr>)"
| "wh_answers (Post_Url url body signature) V r V' = (V' = V \<and> ((\<exists>e. r = WErr e) \<or> (\<exists>s. r = WStatus s)))"
| "wh_answers (Dns_Lookup host) V r V' = (V' = V \<and> ((\<exists>e. r = WErr e) \<or> (\<exists>as. r = WAddresses as)))"
| "wh_answers Read_Clock V r V' = (V' = V \<and> (\<exists>t txt. r = WTime t txt))"
| "wh_answers _ V r V' = (V' = V)"

definition wh_ok :: "(wh_call, wh_reply, 's) service \<Rightarrow> ('s \<Rightarrow> wh_view) \<Rightarrow> bool" where
  "wh_ok exec view = (\<forall>c s r s'. exec c s = (r, s') \<longrightarrow> wh_answers c (view s) r (view s'))"

text \<open>A database that always answers; an insert may still fail, and so does the update of a row that is gone.\<close>

definition wh_reliable :: "(wh_call, wh_reply, 's) service \<Rightarrow> ('s \<Rightarrow> wh_view) \<Rightarrow> bool" where
  "wh_reliable exec view = (wh_ok exec view \<and>
     (\<forall>c s e s'. exec c s = (WErr e, s') \<longrightarrow> (\<exists>u b h. c = Post_Url u b h) \<or> (\<exists>h. c = Dns_Lookup h) \<or>
       (\<exists>ow u t x l. c = Create_Webhook ow u t x l) \<or>
       (\<exists>wid n d. c = Update_Webhook wid n d \<and> wv_hooks (view s) wid = None)))"

text \<open>A store in memory, whose endpoints answer with a given status or not at all.\<close>

record mem_hooks =
  mh_hooks :: "(string, webhook) js_map"
  mh_next :: int
  mh_jobs :: "(string \<times> webhook_payload) list"
  mh_failed :: "(string \<times> string) list"

definition mem_hook_view :: "mem_hooks \<Rightarrow> wh_view" where
  "mem_hook_view s = \<lparr>wv_hooks = jm_get (mh_hooks s), wv_jobs = mh_jobs s, wv_failed = mh_failed s\<rparr>"

definition mem_stored :: "mem_hooks \<Rightarrow> webhook list" where
  "mem_stored s = filter (\<lambda>w. jm_get (mh_hooks s) (wk_id w) = Some w) (map snd (mh_hooks s))"

fun mem_webhooks :: "int option \<Rightarrow> wh_call \<Rightarrow> mem_hooks \<Rightarrow> wh_reply \<times> mem_hooks" where
  "mem_webhooks status (Create_Webhook owner url types secret large) s =
     (let wid = CHR ''w'' # show_int (mh_next s) in
      if jm_has (mh_hooks s) wid then (WErr ''unique constraint'', s)
      else (WCreated wid, s\<lparr>mh_hooks := jm_set (mh_hooks s) wid \<lparr>wk_id = wid, wk_owner = owner, wk_url = url, wk_eventTypes = types,
           wk_secret = secret, wk_largeSwapUsd = large, wk_disabled = False, wk_fails = 0\<rparr>, mh_next := mh_next s + 1\<rparr>))"
| "mem_webhooks status (Delete_Owned wid owner) s =
     (case jm_get (mh_hooks s) wid of
        Some w \<Rightarrow> if wk_owner w = owner then (WCount 1, s\<lparr>mh_hooks := jm_delete (mh_hooks s) wid\<rparr>) else (WCount 0, s)
      | None \<Rightarrow> (WCount 0, s))"
| "mem_webhooks status (Find_Owned wid owner) s =
     (WFound (case jm_get (mh_hooks s) wid of Some w \<Rightarrow> if wk_owner w = owner then Some w else None | None \<Rightarrow> None), s)"
| "mem_webhooks status (Find_Webhook wid) s = (WFound (jm_get (mh_hooks s) wid), s)"
| "mem_webhooks status (Update_Webhook wid fails disabled) s =
     (case jm_get (mh_hooks s) wid of
        Some w \<Rightarrow> (WOk, s\<lparr>mh_hooks := jm_set (mh_hooks s) wid
          (w\<lparr>wk_fails := fails, wk_disabled := or_else disabled (wk_disabled w)\<rparr>)\<rparr>)
      | None \<Rightarrow> (WErr ''record not found'', s))"
| "mem_webhooks status (Add_Job wid payload attempts delay) s = (WOk, s\<lparr>mh_jobs := mh_jobs s @ [(wid, payload)]\<rparr>)"
| "mem_webhooks status (Find_Subscribed event) s =
     (WHooks (filter (\<lambda>w. \<not> wk_disabled w \<and> event \<in> set (wk_eventTypes w)) (mem_stored s)), s)"
| "mem_webhooks status (List_Webhooks owner) s = (WHooks (filter (\<lambda>w. wk_owner w = owner) (mem_stored s)), s)"
| "mem_webhooks status Get_Failed_Jobs s = (WJobs (mh_failed s), s)"
| "mem_webhooks status (Retry_Job job) s = (WOk, s\<lparr>mh_failed := filter (\<lambda>(j, h). j \<noteq> job) (mh_failed s)\<rparr>)"
| "mem_webhooks status (Post_Url url body signature) s = (case status of Some n \<Rightarrow> WStatus n | None \<Rightarrow> WErr ''fetch failed'', s)"
| "mem_webhooks status (Dns_Lookup host) s = (WAddresses [''93.184.216.34''], s)"
| "mem_webhooks status Read_Clock s = (WTime 0 ''1970-01-01T00:00:00.000Z'', s)"
| "mem_webhooks status (List_Audit owner) s = (WAudit [], s)"
| "mem_webhooks status (Create_Audit entry) s = (WOk, s)"
| "mem_webhooks status (Create_Delivery wid event responseStatus ms) s = (WOk, s)"

lemma mem_stored_set: "w \<in> set (mem_stored s) \<longleftrightarrow> jm_get (mh_hooks s) (wk_id w) = Some w"
proof -
  have "jm_get (mh_hooks s) (wk_id w) = Some w \<Longrightarrow> w \<in> set (map snd (mh_hooks s))"
    unfolding jm_get_def by (drule map_of_SomeD) force
  then show ?thesis by (auto simp: mem_stored_def)
qed

lemma mem_webhooks_ok: "wh_ok (mem_webhooks status) mem_hook_view"
  unfolding wh_ok_def
proof (intro allI impI)
  fix c s r s' assume e: "mem_webhooks status c s = (r, s')"
  have upd: "jm_get (jm_set m k v) = (jm_get m)(k \<mapsto> v)" "jm_get (jm_delete m k) = (jm_get m)(k := None)" for m k and v :: webhook
    by (auto simp: fun_eq_iff)
  show "wh_answers c (mem_hook_view s) r (mem_hook_view s')"
    using e by (cases c) (auto simp: mem_hook_view_def jm_has_get upd Let_def mem_stored_set split: if_splits option.splits)
qed

lemma mem_webhooks_reliable: "wh_reliable (mem_webhooks status) mem_hook_view"
proof -
  have "(\<exists>u b h. c = Post_Url u b h) \<or> (\<exists>ow u t x l. c = Create_Webhook ow u t x l) \<or> (\<exists>wid n d. c = Update_Webhook wid n d \<and> wv_hooks (mem_hook_view s) wid = None)"
    if "mem_webhooks status c s = (WErr e, s')" for c s e s'
    using that by (cases c) (auto simp: mem_hook_view_def Let_def split: if_splits option.splits)
  then show ?thesis unfolding wh_reliable_def using mem_webhooks_ok by blast
qed

end
