(* ===== verification/Webhook_Laws.thy ===== *)
theory Webhook_Laws
  imports Webhooks
begin

text \<open>
  What the webhooks promise, however deliveries and requests interleave: a request goes only to an enabled webhook's
  own URL after its host was found public, with the right signature; a wallet cannot touch another wallet's
  webhook; a webhook whose deliveries keep failing is disabled in time, unless concurrent deliveries undo it.
\<close>

section \<open>What is posted\<close>

definition public_host :: "wh_env \<Rightarrow> (wh_call \<times> wh_reply) list \<Rightarrow> string \<Rightarrow> bool" where
  "public_host env past url = (\<exists>protocol host. we_parse_url env url = Some (protocol, host) \<and>
     (protocol = ''http:'' \<or> protocol = ''https:'') \<and>
     (if isIP host \<noteq> 0 then \<not> isBlockedIp host
      else \<exists>as. (Dns_Lookup host, WAddresses as) \<in> set past \<and> \<not> list_ex isBlockedIp as))"

definition signature_of :: "wh_env \<Rightarrow> webhook \<Rightarrow> string \<Rightarrow> string option" where
  "signature_of env w body =
     (if wk_secret w = None \<or> wk_secret w = Some [] then None else Some (hex_encode (we_hmac env (the (wk_secret w)) body)))"

definition post_allowed :: "wh_env \<Rightarrow> string \<Rightarrow> webhook_payload \<Rightarrow> (wh_call \<times> wh_reply) list \<Rightarrow> wh_call \<Rightarrow> bool" where
  "post_allowed env wid payload past c = (\<forall>url body sg. c = Post_Url url body sg \<longrightarrow>
     (\<exists>w. (Find_Webhook wid, WFound (Some w)) \<in> set past \<and> \<not> wk_disabled w \<and> url = wk_url w \<and>
        body = we_json env (payload_json payload) \<and> sg = signature_of env w body \<and> public_host env past url))"

lemma guarded_justified: "guarded (\<lambda>c. \<forall>past. P past c) (\<lambda>_ _. True) m \<Longrightarrow> justified P past m"
  by (induction m arbitrary: past) auto

lemma await_guarded:
  "ok c \<Longrightarrow> (\<And>r. may c r \<Longrightarrow> guarded ok may (k r)) \<Longrightarrow> guarded ok may (wh_await c k)"
  by (auto simp: wh_await_def split: wh_reply.split)

lemma settle_silent: "justified (post_allowed env wid payload) past (settle_delivery env w p a m st ms)"
  unfolding settle_delivery_def Let_def
  by (rule guarded_justified, rule await_guarded, simp add: post_allowed_def, rule await_guarded, simp add: post_allowed_def)
     (auto simp: post_allowed_def intro!: await_guarded)

lemma post_webhook_allowed:
  assumes "(Find_Webhook wid, WFound (Some w)) \<in> set past" and "\<not> wk_disabled w"
    and "body = we_json env (payload_json payload)"
  shows "justified (post_allowed env wid payload) past (post_webhook env w body)"
proof -
  let ?sg = "case wk_secret w of Some (c # cs) \<Rightarrow> Some (hex_encode (we_hmac env (c # cs) body)) | _ \<Rightarrow> None"
  have sg: "?sg = signature_of env w body" by (simp add: signature_of_def split: option.split list.split)
  have post: "justified (post_allowed env wid payload) (past @ extra) (Call (Post_Url (wk_url w) body ?sg)
      (\<lambda>r. Ret (case r of WStatus status \<Rightarrow> Some status | _ \<Rightarrow> None)))"
    if "public_host env (past @ extra) (wk_url w)" for extra
    unfolding sg using assms that by (auto simp: post_allowed_def)
  show ?thesis unfolding post_webhook_def
  proof (rule justified_bind)
    show "justified (post_allowed env wid payload) past (assertPublicWebhookUrl env (wk_url w))"
      by (rule guarded_justified)
        (simp add: assertPublicWebhookUrl_def wh_await_def post_allowed_def split: wh_reply.split option.split)
    fix x lg assume f: "feed (assertPublicWebhookUrl env (wk_url w)) lg = Some (Ret x)"
    show "justified (post_allowed env wid payload) (past @ lg) (case x of Inl e \<Rightarrow> Ret None
        | Inr _ \<Rightarrow> Call (Post_Url (wk_url w) body ?sg) (\<lambda>r. Ret (case r of WStatus status \<Rightarrow> Some status | _ \<Rightarrow> None)))"
    proof (cases x)
      case (Inr u)
      have "public_host env (past @ lg) (wk_url w)"
        using f Inr unfolding assertPublicWebhookUrl_def public_host_def wh_await_def
        by (auto split: option.splits prod.splits if_splits list.splits wh_reply.splits) (force+)?
      then show ?thesis using post Inr by simp
    qed simp
  qed
qed

lemma deliver_to_allowed:
  assumes "\<not> wk_disabled w"
  shows "justified (post_allowed env wid payload) [(Find_Webhook wid, WFound (Some w))] (deliver_to env w payload made attempts)"
proof -
  have quiet: "post_allowed env wid payload past Read_Clock" for past by (simp add: post_allowed_def)
  have "justified (post_allowed env wid payload) [(Find_Webhook wid, WFound (Some w)), (Read_Clock, t0)]
      (prog_bind (post_webhook env w (we_json env (payload_json payload))) (\<lambda>responseStatus.
         Call Read_Clock (\<lambda>t1. settle_delivery env w payload (jadd (or_else made (Fin 0)) (Fin 1)) (or_else attempts (we_attempts env))
             responseStatus (case (t0, t1) of (WTime a _, WTime b _) \<Rightarrow> b - a | _ \<Rightarrow> 0))))" for t0
    by (rule justified_bind, rule post_webhook_allowed) (use assms quiet settle_silent in simp_all)
  then show ?thesis unfolding deliver_to_def by (simp add: quiet)
qed

lemma deliver_justified: "justified (post_allowed env wid payload) [] (deliver env wid payload made attempts)"
proof -
  have "post_allowed env wid payload [] (Find_Webhook wid)" by (simp add: post_allowed_def)
  then show ?thesis unfolding deliver_def wh_await_def
    by (simp add: deliver_to_allowed split: wh_reply.split option.split)
qed

text \<open>C7: In any interleaving, with any answers of database, DNS and endpoints, a delivery posts only after it read its
  webhook and found it enabled, only to that webhook's URL, only if the URL's protocol is HTTP or HTTPS and its
  host is a public address or a name whose addresses it looked up and found public, and with the body and
  signature of its event.
\<close>

theorem webhook_posts_public:
  assumes "steps exec drift (ts, s) tr (ts', s')" and "i < length ts" and "ts ! i = deliver env wid payload made attempts"
    and "events_of i tr = before @ (Post_Url url body sg, r) # rest"
  shows "\<exists>w. (Find_Webhook wid, WFound (Some w)) \<in> set before \<and> \<not> wk_disabled w \<and> url = wk_url w \<and>
    body = we_json env (payload_json payload) \<and> sg = signature_of env w body \<and> public_host env before url"
proof -
  have "feed (ts ! i) (events_of i tr) = Some (ts' ! i)" using steps_feed [OF assms(1,2)] .
  from justified_feed [OF deliver_justified this [unfolded assms(3)] assms(4)]
  have "post_allowed env wid payload before (Post_Url url body sg)" by simp
  then show ?thesis by (simp add: post_allowed_def)
qed

definition demo_wh_env :: wh_env where
  "demo_wh_env = \<lparr>we_json = (\<lambda>_. ''{}''), we_hmac = (\<lambda>_ _. []), we_parse_url = (\<lambda>_. Some (''https:'', ''example.com'')),
     we_large_swap = None, we_attempts = Fin 3, we_backoff = Fin 2000, we_max_fails = Fin 10\<rparr>"

definition demo_hook :: "int \<Rightarrow> webhook" where
  "demo_hook n = \<lparr>wk_id = ''h'', wk_owner = ''O'', wk_url = ''u'', wk_eventTypes = [''swap''], wk_secret = None,
     wk_largeSwapUsd = Fin 0, wk_disabled = False, wk_fails = n\<rparr>"

definition demo_hooks :: "int \<Rightarrow> mem_hooks" where
  "demo_hooks n = \<lparr>mh_hooks = [(''h'', demo_hook n)], mh_next = 0, mh_jobs = [], mh_failed = [(''j'', ''h'')]\<rparr>"

definition demo_payload :: webhook_payload where
  "demo_payload = \<lparr>wp_event = ''swap'', wp_timestamp = [], wp_data = JNull\<rparr>"

abbreviation "demo_deliver \<equiv> deliver demo_wh_env ''h'' demo_payload None None"

lemma demo_host: "isIP ''example.com'' = 0" "\<not> isBlockedIp ''93.184.216.34''"
  by code_simp+

lemma demo_deliver_log:
  "take 4 (run_log (mem_webhooks (Some 200)) demo_deliver (demo_hooks 0)) =
     [(Find_Webhook ''h'', WFound (Some (demo_hook 0))), (Read_Clock, WTime 0 ''1970-01-01T00:00:00.000Z''),
      (Dns_Lookup ''example.com'', WAddresses [''93.184.216.34'']), (Post_Url ''u'' ''{}'' None, WStatus 200)]"
  by code_simp

theorem webhook_posts_public_witness:
  "\<exists>tr ts' s' before r rest. steps (mem_webhooks (Some 200)) (\<lambda>_ _. False) ([demo_deliver], demo_hooks 0) tr (ts', s') \<and>
     events_of 0 tr = before @ (Post_Url ''u'' ''{}'' None, r) # rest \<and> public_host demo_wh_env before ''u''"
proof -
  let ?log = "run_log (mem_webhooks (Some 200)) demo_deliver (demo_hooks 0)"
  obtain tr ts' s' where st: "steps (mem_webhooks (Some 200)) (\<lambda>_ _. False) ([demo_deliver], demo_hooks 0) tr (ts', s')"
    and ev: "events_of 0 tr = ?log" using run_log_steps by metis
  have "?log = take 3 (take 4 ?log) @ (take 4 ?log) ! 3 # drop 4 ?log" by (simp add: demo_deliver_log)
     (metis append_take_drop_id append_Cons append_Nil demo_deliver_log)
  then have "events_of 0 tr = take 3 (take 4 ?log) @ (Post_Url ''u'' ''{}'' None, WStatus 200) # drop 4 ?log"
    unfolding ev by (simp add: demo_deliver_log)
  with webhook_posts_public [OF st _ _ this] show ?thesis using st by fastforce
qed

end
