(* ===== verification/Webhook_Owners.thy ===== *)
theory Webhook_Owners
  imports Webhook_Laws
begin

text \<open>
  Who may change a webhook, and when one is given up: requests of other wallets leave a webhook, its delivery jobs and
  its failed jobs alone; deliveries one after the other disable a failing webhook at the limit; deliveries that
  overlap can enable it again.
\<close>

section \<open>Owners\<close>

fun leaves_alone :: "string \<Rightarrow> string \<Rightarrow> string set \<Rightarrow> wh_call \<Rightarrow> bool" where
  "leaves_alone h ow J (Delete_Owned wid wallet) = (wid = h \<longrightarrow> wallet \<noteq> ow)"
| "leaves_alone h ow J (Update_Webhook wid n d) = (wid \<noteq> h)"
| "leaves_alone h ow J (Add_Job wid p a d) = (wid \<noteq> h)"
| "leaves_alone h ow J (Retry_Job job) = (job \<notin> J)"
| "leaves_alone h ow J _ = True"

fun foreign_reply :: "string \<Rightarrow> string \<Rightarrow> string set \<Rightarrow> wh_call \<Rightarrow> wh_reply \<Rightarrow> bool" where
  "foreign_reply h ow J (Find_Owned wid wallet) r = (wid = h \<longrightarrow> wallet \<noteq> ow \<longrightarrow> (\<forall>w. r \<noteq> WFound (Some w)))"
| "foreign_reply h ow J Get_Failed_Jobs r = (\<forall>js. r = WJobs js \<longrightarrow> (\<forall>(j, k) \<in> set js. k \<noteq> h \<longrightarrow> j \<notin> J))"
| "foreign_reply h ow J _ r = True"

lemma all_guarded: "(\<And>c. c \<in> set cs \<Longrightarrow> ok c) \<Longrightarrow> guarded ok may (await_all cs)"
  by (induction cs) (auto intro!: guarded_bind)

lemma retry_guarded:
  assumes "wid \<noteq> h"
  shows "guarded (leaves_alone h ow J) (foreign_reply h ow J) (retryFailedDeliveries wid)"
  unfolding retryFailedDeliveries_def Let_def
proof (rule await_guarded)
  show "leaves_alone h ow J Get_Failed_Jobs" by simp
  fix r assume may: "foreign_reply h ow J Get_Failed_Jobs r"
  have "guarded (leaves_alone h ow J) (foreign_reply h ow J)
      (await_all (map (\<lambda>(job, hook). Retry_Job job) (filter (\<lambda>(job, hook). hook = wid) js)))" if "r = WJobs js" for js
    using may that assms by (intro all_guarded) auto
  then show "guarded (leaves_alone h ow J) (foreign_reply h ow J) (case r of
       WJobs failedJobs \<Rightarrow> prog_bind (await_all (map (\<lambda>(job, hook). Retry_Job job) (filter (\<lambda>(job, hook). hook = wid) failedJobs)))
         (\<lambda>e. Ret (case e of Some x \<Rightarrow> Inl x | None \<Rightarrow> Inr (length (filter (\<lambda>(job, hook). hook = wid) failedJobs))))
     | _ \<Rightarrow> Ret (Inl ''unexpected reply''))"
    by (cases r) (auto intro!: guarded_bind)
qed

lemma endpoint_guarded:
  assumes "wallet \<noteq> ow"
  shows "guarded (leaves_alone h ow J) (foreign_reply h ow J) (wh_endpoint env wallet rq)"
proof (cases rq)
  case (Rq_Create url types secret large)
  then show ?thesis
    by (auto simp: wh_done_def webhook_create_def Let_def intro!: guarded_then await_guarded split: wh_reply.split)
next
  case (Rq_Remove wid)
  then show ?thesis using assms
    by (auto simp: wh_done_def webhook_remove_def intro!: guarded_then await_guarded split: wh_reply.split)
next
  case (Rq_Retry wid)
  have "guarded (leaves_alone h ow J) (foreign_reply h ow J) (retryDeliveries wid wallet)"
    unfolding retryDeliveries_def using assms retry_guarded [of wid h]
    by (intro await_guarded) (auto split: wh_reply.split option.split)
  then show ?thesis using Rq_Retry by (auto simp: wh_done_def intro: guarded_then)
next
  case (Rq_Ping wid ev)
  have "guarded (leaves_alone h ow J) (foreign_reply h ow J) (webhook_ping env wid wallet (or_else ev ''swap''))"
    unfolding webhook_ping_def worker_dispatch_def worker_job_def using assms
    by (intro await_guarded) (auto intro!: guarded_then await_guarded split: wh_reply.split option.split)
  then show ?thesis using Rq_Ping by (auto simp: wh_done_def intro: guarded_then)
qed (auto simp: wh_done_def webhook_list_def webhook_auditLog_def intro!: guarded_then await_guarded split: wh_reply.split)

definition hook_untouched ::
  "string \<Rightarrow> webhook \<Rightarrow> (string \<times> webhook_payload) list \<Rightarrow> (string \<times> string) list \<Rightarrow> wh_view \<Rightarrow> bool" where
  "hook_untouched h w jobs failed V = (wv_hooks V h = Some w \<and> filter (\<lambda>(k, p). k = h) (wv_jobs V) = jobs \<and>
     filter (\<lambda>(j, k). k = h) (wv_failed V) = failed \<and> (\<forall>(j, k) \<in> set (wv_failed V). k \<noteq> h \<longrightarrow> j \<notin> fst ` set failed))"

lemma filter_retried:
  assumes "filter (\<lambda>(j, k). k = h) xs = failed" and "job \<notin> fst ` set failed"
  shows "filter (\<lambda>(j, k). k = h) (filter (\<lambda>(j, k). j \<noteq> job) xs) = failed"
proof -
  have "filter (\<lambda>(j, k). j \<noteq> job) failed = failed" using assms(2) by (force simp: filter_id_conv)
  then have "filter (\<lambda>(j, k). j \<noteq> job) (filter (\<lambda>(j, k). k = h) xs) = failed" unfolding assms(1) .
  then show ?thesis by (simp add: conj_commute case_prod_unfold)
qed

lemma untouched_step:
  assumes "wh_answers c V r V'" and "leaves_alone h (wk_owner w) (fst ` set failed) c" and "hook_untouched h w jobs failed V"
  shows "foreign_reply h (wk_owner w) (fst ` set failed) c r \<and> hook_untouched h w jobs failed V'"
proof (cases c)
  case (Retry_Job job)
  then show ?thesis using assms filter_retried [of h "wv_failed V" failed job]
    by (auto simp: hook_untouched_def)
qed (use assms in \<open>auto simp: hook_untouched_def split: if_splits option.splits\<close>)

text \<open>C8: However requests of other wallets interleave - registering, listing, removing, auditing, retrying, pinging - and
  whatever fails, a webhook keeps its row, gets no delivery job and none of its failed jobs is retried.
\<close>

theorem webhook_owner_isolation:
  assumes "wh_ok exec view"
    and "steps exec (\<lambda>_ _. False) (map (\<lambda>(wallet, rq). wh_endpoint env wallet rq) rqs, s) tr (ts', s')"
    and "wv_hooks (view s) h = Some w" and "wk_owner w \<notin> fst ` set rqs" and "distinct (map fst (wv_failed (view s)))"
  shows "wv_hooks (view s') h = Some w \<and>
    filter (\<lambda>(k, p). k = h) (wv_jobs (view s')) = filter (\<lambda>(k, p). k = h) (wv_jobs (view s)) \<and>
    filter (\<lambda>(j, k). k = h) (wv_failed (view s')) = filter (\<lambda>(j, k). k = h) (wv_failed (view s))"
proof -
  define failed where "failed = filter (\<lambda>(j, k). k = h) (wv_failed (view s))"
  define jobs where "jobs = filter (\<lambda>(k, p). k = h) (wv_jobs (view s))"
  have "j \<notin> fst ` set failed" if "(j, k) \<in> set (wv_failed (view s))" "k \<noteq> h" for j k
    using that eq_key_imp_eq_value [OF assms(5) that(1), of h] by (force simp: failed_def)
  then have start: "hook_untouched h w jobs failed (view s)"
    using assms(3) by (auto simp: hook_untouched_def failed_def jobs_def)
  let ?J = "fst ` set failed"
  have tasks: "guarded (leaves_alone h (wk_owner w) ?J) (foreign_reply h (wk_owner w) ?J) m"
    if "m \<in> set (map (\<lambda>(wallet, rq). wh_endpoint env wallet rq) rqs)" for m
  proof -
    from that [unfolded set_map] obtain x where x: "m = (\<lambda>(wallet, rq). wh_endpoint env wallet rq) x" "x \<in> set rqs"
      by (rule imageE)
    obtain wallet rq where "x = (wallet, rq)" by (rule prod.exhaust)
    then have m: "m = wh_endpoint env wallet rq" and "(wallet, rq) \<in> set rqs" using x by simp_all
    then have "wallet \<noteq> wk_owner w" using assms(4) image_eqI [of wallet fst "(wallet, rq)"] by auto
    then show ?thesis unfolding m by (rule endpoint_guarded)
  qed
  have answers: "foreign_reply h (wk_owner w) ?J c r \<and> hook_untouched h w jobs failed (view s2)"
    if "exec c s1 = (r, s2)" "leaves_alone h (wk_owner w) ?J c" "hook_untouched h w jobs failed (view s1)" for c s1 r s2
  proof (rule untouched_step [OF _ that(2,3)])
    show "wh_answers c (view s1) r (view s2)" using assms(1) that(1) unfolding wh_ok_def by blast
  qed
  have "hook_untouched h w jobs failed (view s') \<and> (\<forall>m \<in> set ts'. guarded (leaves_alone h (wk_owner w) ?J) (foreign_reply h (wk_owner w) ?J) m) \<and>
      (\<forall>(i, c, r) \<in> set tr. leaves_alone h (wk_owner w) ?J c)"
    by (rule steps_guarded [OF assms(2), where I = "\<lambda>s. hook_untouched h w jobs failed (view s)"])
       (erule tasks, rule start, erule (2) answers, erule FalseE)
  then show ?thesis by (simp add: hook_untouched_def failed_def jobs_def)
qed

theorem webhook_owner_isolation_witness:
  "\<exists>tr ts' s'. steps (mem_webhooks (Some 200)) (\<lambda>_ _. False)
      (map (\<lambda>(wallet, rq). wh_endpoint demo_wh_env wallet rq) [(''X'', Rq_Remove ''h''), (''Y'', Rq_Retry ''h'')], demo_hooks 0) tr (ts', s') \<and>
     ts' = [Ret (Inr ()), Ret (Inr ())] \<and> jm_get (mh_hooks s') ''h'' = Some (demo_hook 0) \<and>
     filter (\<lambda>(j, k). k = ''h'') (mh_failed s') = [(''j'', ''h'')]"
proof -
  let ?rqs = "[(''X'', Rq_Remove ''h''), (''Y'', Rq_Retry ''h'')]"
  let ?fin = "schedule (mem_webhooks (Some 200)) [0, 1] (map (\<lambda>(wallet, rq). wh_endpoint demo_wh_env wallet rq) ?rqs, demo_hooks 0)"
  obtain tr where st: "steps (mem_webhooks (Some 200)) (\<lambda>_ _. False)
      (map (\<lambda>(wallet, rq). wh_endpoint demo_wh_env wallet rq) ?rqs, demo_hooks 0) tr (fst ?fin, snd ?fin)"
    using schedule_steps [of "mem_webhooks (Some 200)" "\<lambda>_ _. False"] by (metis prod.collapse)
  have view: "wv_hooks (mem_hook_view (demo_hooks 0)) ''h'' = Some (demo_hook 0)"
    "wv_failed (mem_hook_view (demo_hooks 0)) = [(''j'', ''h'')]"
    by (simp_all add: mem_hook_view_def demo_hooks_def jm_get_def)
  have "wk_owner (demo_hook 0) \<notin> fst ` set ?rqs" "distinct (map fst (wv_failed (mem_hook_view (demo_hooks 0))))"
    unfolding view by (simp_all add: demo_hook_def)
  from webhook_owner_isolation [OF mem_webhooks_ok st view(1) this]
  have "jm_get (mh_hooks (snd ?fin)) ''h'' = Some (demo_hook 0)" "filter (\<lambda>(j, k). k = ''h'') (mh_failed (snd ?fin)) = [(''j'', ''h'')]"
    unfolding view by (simp_all add: mem_hook_view_def)
  moreover have "fst ?fin = [Ret (Inr ()), Ret (Inr ())]"
    by (simp add: schedule_def schedule_one_def wh_done_def webhook_remove_def retryDeliveries_def wh_await_def demo_hooks_def jm_get_def demo_hook_def)
  ultimately show ?thesis using st by blast
qed

section \<open>Giving up\<close>

fun deliver_all :: "wh_env \<Rightarrow> string \<Rightarrow> webhook_payload list \<Rightarrow> unit wh_prog" where
  "deliver_all env wid [] = Ret ()"
| "deliver_all env wid (p # ps) = prog_bind (deliver env wid p None None) (\<lambda>_. deliver_all env wid ps)"

abbreviation wp_alone :: "('c, 'r, 's) service \<Rightarrow> ('c, 'r, 'a) prog \<Rightarrow> ('a \<Rightarrow> 's \<Rightarrow> bool) \<Rightarrow> 's \<Rightarrow> bool" where
  "wp_alone exec \<equiv> wp exec (\<lambda>_ _. False)"

lemma alone_star [simp]: "(\<lambda>_ _. False)\<^sup>*\<^sup>* s s' \<longleftrightarrow> s = s'"
  by (metis (mono_tags) converse_rtranclpE rtranclp.rtrancl_refl)

lemma wp_alone_call:
  "(\<And>r s'. exec c s = (r, s') \<Longrightarrow> wp_alone exec (k r) Q s') \<Longrightarrow> wp_alone exec (Call c k) Q s"
  by auto

definition posts_fail :: "(wh_call, wh_reply, 's) service \<Rightarrow> bool" where
  "posts_fail exec = (\<forall>u b g s st s'. exec (Post_Url u b g) s = (WStatus st, s') \<longrightarrow> 400 \<le> st)"

lemma wp_assert:
  assumes "wh_ok exec view" and "wv_hooks (view s) = H"
  shows "wp_alone exec (assertPublicWebhookUrl env url) (\<lambda>_ s. wv_hooks (view s) = H) s"
proof -
  have "wv_hooks (view s') = H" if "exec (Dns_Lookup h) s = (r, s')" for h r s'
  proof -
    have "wh_answers (Dns_Lookup h) (view s) r (view s')" using assms(1) that unfolding wh_ok_def by blast
    then show ?thesis using assms(2) by simp
  qed
  then show ?thesis using assms(2)
    by (auto simp: assertPublicWebhookUrl_def wh_await_def split: option.split wh_reply.split)
qed

lemma wp_post:
  assumes ok: "wh_ok exec view" and "posts_fail exec" and "wv_hooks (view s) = H"
  shows "wp_alone exec (post_webhook env w body) (\<lambda>x s. wv_hooks (view s) = H \<and> (\<forall>st. x = Some st \<longrightarrow> 400 \<le> st)) s"
proof -
  have post: "wv_hooks (view s2) = H \<and> (\<forall>st. r = WStatus st \<longrightarrow> 400 \<le> st)"
    if "wv_hooks (view s1) = H" "exec (Post_Url u b g) s1 = (r, s2)" for s1 u b g r s2
  proof -
    have "wh_answers (Post_Url u b g) (view s1) r (view s2)" using ok that(2) unfolding wh_ok_def by blast
    then have "wv_hooks (view s2) = H" using that(1) by simp
    moreover have "400 \<le> st" if "r = WStatus st" for st
      using assms(2) \<open>exec (Post_Url u b g) s1 = (r, s2)\<close> unfolding posts_fail_def that by blast
    ultimately show ?thesis by blast
  qed
  have go: "wp_alone exec (case x of Inl e \<Rightarrow> Ret None
      | Inr _ \<Rightarrow> Call (Post_Url u b g) (\<lambda>r. Ret (case r of WStatus status \<Rightarrow> Some status | _ \<Rightarrow> None)))
      (\<lambda>x s. wv_hooks (view s) = H \<and> (\<forall>st. x = Some st \<longrightarrow> 400 \<le> st)) s1" if "wv_hooks (view s1) = H" for x u b g s1
    using post [OF that] that by (cases x) (auto split: wh_reply.splits)
  show ?thesis unfolding post_webhook_def by (rule wp_bind, rule wp_mono [OF wp_assert [OF ok assms(3)]], rule go)
qed

text \<open>What a failed delivery writes: the count it read plus one, over whatever the row holds by then.\<close>

definition counted :: "wh_env \<Rightarrow> webhook \<Rightarrow> webhook \<Rightarrow> webhook" where
  "counted env w row = row\<lparr>wk_fails := wk_fails w + 1, wk_disabled := jle (we_max_fails env) (num_of_int (wk_fails w + 1))\<rparr>"

lemma wp_settle:
  assumes ok: "wh_reliable exec view" and hook: "wv_hooks (view s) wid = Some row" "wk_id w = wid"
    and st: "\<forall>st. x = Some st \<longrightarrow> 400 \<le> st"
  shows "wp_alone exec (settle_delivery env w p a m x ms)
    (\<lambda>res s. (\<exists>e. res = Inl e) \<and> wv_hooks (view s) wid = Some (counted env w row)) s"
proof -
  let ?Q = "\<lambda>res s. (\<exists>e. res = Inl e) \<and> wv_hooks (view s) wid = Some (counted env w row)"
  have ans: "wh_answers c (view s1) r (view s2)" if "exec c s1 = (r, s2)" for c s1 r s2
    using ok that unfolding wh_reliable_def wh_ok_def by blast
  have fine: "\<exists>e. r = WErr e \<Longrightarrow> (\<exists>u b h. c = Post_Url u b h) \<or> (\<exists>h. c = Dns_Lookup h) \<or> (\<exists>ow u t x l. c = Create_Webhook ow u t x l) \<or>
       (\<exists>wid n d. c = Update_Webhook wid n d \<and> wv_hooks (view s1) wid = None)" if "exec c s1 = (r, s2)" for c s1 r s2
    using ok that unfolding wh_reliable_def by blast
  have failed: "\<not> (case x of Some s \<Rightarrow> s < 400 | None \<Rightarrow> False)" using st by (auto split: option.split)
  let ?d = "jle (we_max_fails env) (num_of_int (wk_fails w + 1))"
  have last: "wp_alone exec (wh_await (Update_Webhook wid (wk_fails w + 1) (Some ?d)) (\<lambda>_. Ret (Inl msg))) ?Q s1"
    if "wv_hooks (view s1) wid = Some row" for s1 and msg :: string
    unfolding wh_await_def
  proof (rule wp_alone_call)
    fix r s2 assume e: "exec (Update_Webhook wid (wk_fails w + 1) (Some ?d)) s1 = (r, s2)"
    then have "wv_hooks (view s2) wid = Some (counted env w row)" and "r = WOk"
      using ans [OF e] fine [OF e] that by (auto simp: or_else_def counted_def)
    then show "wp_alone exec (case r of WErr e \<Rightarrow> Ret (Inl e) | _ \<Rightarrow> Ret (Inl msg)) ?Q s2" by simp
  qed
  have quiet: "wp_alone exec (wh_await c k) ?Q s1"
    if c: "(\<exists>a b x y. c = Create_Delivery a b x y) \<or> (\<exists>a. c = Create_Audit a)"
      and hook: "wv_hooks (view s1) wid = Some row"
      and k: "\<And>r s2. wv_hooks (view s2) wid = Some row \<Longrightarrow> wp_alone exec (k r) ?Q s2" for c k s1
    unfolding wh_await_def
  proof (rule wp_alone_call)
    fix r s2 assume e: "exec c s1 = (r, s2)"
    have "wv_hooks (view s2) wid = Some row" "\<nexists>e. r = WErr e" using ans [OF e] fine [OF e] c hook by auto
    then show "wp_alone exec (case r of WErr e \<Rightarrow> Ret (Inl e) | _ \<Rightarrow> k r) ?Q s2" using k by (cases r) auto
  qed
  show ?thesis unfolding settle_delivery_def Let_def hook(2)
    by (rule quiet, blast, rule hook(1), rule quiet, blast, assumption) (simp only: failed if_True not_False_eq_True last)
qed

lemma wp_deliver_to:
  assumes ok: "wh_reliable exec view" and fail: "posts_fail exec"
    and hook: "wv_hooks (view s) wid = Some row" "wk_id w = wid"
  shows "wp_alone exec (deliver_to env w p made att)
    (\<lambda>res s. (\<exists>e. res = Inl e) \<and> wv_hooks (view s) wid = Some (counted env w row)) s"
proof -
  have ok': "wh_ok exec view" using ok unfolding wh_reliable_def by blast
  let ?Q = "\<lambda>res s. (\<exists>e. res = Inl e) \<and> wv_hooks (view s) wid = Some (counted env w row)"
  have clock: "wp_alone exec (Call Read_Clock k) ?Q s1"
    if hook: "wv_hooks (view s1) wid = Some row" and k: "\<And>r s2. wv_hooks (view s2) wid = Some row \<Longrightarrow> wp_alone exec (k r) ?Q s2" for k s1
  proof (rule wp_alone_call)
    fix r s2 assume "exec Read_Clock s1 = (r, s2)"
    then have "wh_answers Read_Clock (view s1) r (view s2)" using ok' unfolding wh_ok_def by blast
    then show "wp_alone exec (k r) ?Q s2" using hook k by simp
  qed
  show ?thesis unfolding deliver_to_def
    by (rule clock [OF hook(1)], rule wp_bind, rule wp_mono [OF wp_post [OF ok' fail refl]], rule clock)
       (auto intro!: wp_settle [OF ok _ hook(2)])
qed

lemma wp_deliver:
  assumes ok: "wh_reliable exec view" and fail: "posts_fail exec"
    and hook: "wv_hooks (view s) wid = Some w" "wk_id w = wid" "\<not> wk_disabled w"
  shows "wp_alone exec (deliver env wid p made att)
    (\<lambda>res s. (\<exists>e. res = Inl e) \<and> wv_hooks (view s) wid = Some (counted env w w)) s"
  unfolding deliver_def wh_await_def
proof (rule wp_alone_call)
  let ?Q = "\<lambda>res s. (\<exists>e. res = Inl e) \<and> wv_hooks (view s) wid = Some (counted env w w)"
  fix r s1 assume e: "exec (Find_Webhook wid) s = (r, s1)"
  have "wh_answers (Find_Webhook wid) (view s) r (view s1)" using ok e unfolding wh_reliable_def wh_ok_def by blast
  then have s1: "wv_hooks (view s1) wid = Some w" and "r = WFound (Some w)"
    using hook(1) ok e unfolding wh_reliable_def by auto
  then show "wp_alone exec (case r of WErr e \<Rightarrow> Ret (Inl e) | _ \<Rightarrow> (case r of
       WFound (Some webhook) \<Rightarrow> if wk_disabled webhook then Ret (Inr ()) else deliver_to env webhook p made att
     | WFound None \<Rightarrow> Ret (Inr ())
     | _ \<Rightarrow> Ret (Inl ''unexpected reply''))) ?Q s1"
    using wp_deliver_to [OF ok fail s1 hook(2), of env p made att] hook(3) by simp
qed

lemma wp_deliver_disabled:
  assumes ok: "wh_ok exec view" and "wv_hooks (view s) wid = Some w" and "wk_disabled w"
  shows "wp_alone exec (deliver env wid p made att) (\<lambda>_ s. wv_hooks (view s) wid = Some w) s"
  unfolding deliver_def wh_await_def
proof (rule wp_alone_call)
  fix r s1 assume e: "exec (Find_Webhook wid) s = (r, s1)"
  have "wh_answers (Find_Webhook wid) (view s) r (view s1)" using ok e unfolding wh_ok_def by blast
  then have "wv_hooks (view s1) wid = Some w" "r = WFound (Some w) \<or> (\<exists>e. r = WErr e)" using assms(2) by auto
  then show "wp_alone exec (case r of WErr e \<Rightarrow> Ret (Inl e) | _ \<Rightarrow> (case r of
       WFound (Some webhook) \<Rightarrow> if wk_disabled webhook then Ret (Inr ()) else deliver_to env webhook p made att
     | WFound None \<Rightarrow> Ret (Inr ())
     | _ \<Rightarrow> Ret (Inl ''unexpected reply''))) (\<lambda>_ s. wv_hooks (view s) wid = Some w) s1"
    using assms(3) by auto
qed

lemma wp_deliver_all:
  assumes ok: "wh_reliable exec view" and fail: "posts_fail exec" and max: "we_max_fails env = Fin (of_nat m)" "m \<le> 2 ^ 52"
  shows "wv_hooks (view s) wid = Some (w\<lparr>wk_fails := int k, wk_disabled := m \<le> k\<rparr>) \<Longrightarrow> wk_id w = wid \<Longrightarrow> k \<le> m \<Longrightarrow>
    wp_alone exec (deliver_all env wid ps) (\<lambda>_ s. wv_hooks (view s) wid =
      Some (w\<lparr>wk_fails := int (min (k + length ps) m), wk_disabled := m \<le> k + length ps\<rparr>)) s"
proof (induction ps arbitrary: k s)
  case (Cons p ps)
  show ?case
  proof (cases "k < m")
    case True
    let ?w = "w\<lparr>wk_fails := int k, wk_disabled := m \<le> k\<rparr>"
    have le52: "int m \<le> 2 ^ 52" using max(2) by (metis of_nat_le_iff of_nat_numeral of_nat_power)
    have "jle (Fin (of_nat m)) (num_of_int (int k + 1)) \<longleftrightarrow> m \<le> k + 1"
    proof -
      have "num_of_int (int k + 1) = Fin (of_int (int k + 1))" by (rule num_of_int_exact) (use True le52 in simp_all)
      moreover have "of_int (int k + 1) = (of_nat (k + 1) :: rat)" by simp
      ultimately show ?thesis by (auto simp: jle_def jeq_def simp del: of_nat_Suc of_nat_add of_int_add)
    qed
    then have next_w: "counted env ?w ?w = w\<lparr>wk_fails := int (Suc k), wk_disabled := m \<le> Suc k\<rparr>"
      by (simp add: counted_def max(1) add.commute)
    have "\<not> wk_disabled ?w" "wk_id ?w = wid" using True Cons.prems(2) by simp_all
    note one = wp_deliver [OF ok fail Cons.prems(1) this(2,1), of env p None None, unfolded next_w]
    have len: "k + length (p # ps) = Suc k + length ps" by simp
    have "Suc k \<le> m" using True by simp
    then show ?thesis unfolding deliver_all.simps len
      by (intro wp_bind, intro wp_mono [OF one]) (erule conjE, rule Cons.IH [OF _ Cons.prems(2)])
  next
    case False
    then have k: "k = m" using Cons.prems(3) by simp
    have ok': "wh_ok exec view" using ok unfolding wh_reliable_def by blast
    have "wk_disabled (w\<lparr>wk_fails := int k, wk_disabled := m \<le> k\<rparr>)" using k by simp
    note one = wp_deliver_disabled [OF ok' Cons.prems(1) this, of env p None None]
    show ?thesis unfolding deliver_all.simps
      by (rule wp_bind, rule wp_mono [OF one]) (use Cons.IH [of _ k] Cons.prems(2) k in simp)
  qed
qed simp

text \<open>Deliveries that run one after the other and all fail count up to the limit and no further: after \<open>n\<close> of them the
  webhook has \<open>n\<close> failures, at most the limit, and is disabled exactly from the limit on.
\<close>

theorem webhook_gives_up:
  assumes "wh_reliable exec view" and "posts_fail exec" and "we_max_fails env = Fin (of_nat m)" and "1 \<le> m" and "m \<le> 2 ^ 52"
    and "wv_hooks (view s) (wk_id w) = Some w" and "wk_fails w = 0" and "\<not> wk_disabled w"
  shows "wv_hooks (view (snd (run exec (deliver_all env (wk_id w) ps) s))) (wk_id w) =
    Some (w\<lparr>wk_fails := int (min (length ps) m), wk_disabled := m \<le> length ps\<rparr>)"
proof -
  have w: "w\<lparr>wk_fails := int 0, wk_disabled := m \<le> 0\<rparr> = w" using assms(4,7,8) by simp
  have hook: "wv_hooks (view s) (wk_id w) = Some (w\<lparr>wk_fails := int 0, wk_disabled := m \<le> 0\<rparr>)" unfolding w by (rule assms(6))
  from wp_run [OF wp_deliver_all [OF assms(1,2,3,5) hook refl le0]] show ?thesis by simp
qed

lemma mem_posts_fail: "posts_fail (mem_webhooks None)"
  by (simp add: posts_fail_def)

theorem webhook_gives_up_witness:
  "jm_get (mh_hooks (snd (run (mem_webhooks None) (deliver_all demo_wh_env ''h'' (replicate 12 demo_payload)) (demo_hooks 0)))) ''h'' =
     Some ((demo_hook 0)\<lparr>wk_fails := 10, wk_disabled := True\<rparr>)"
proof -
  have env: "we_max_fails demo_wh_env = Fin (of_nat 10)" by (simp add: demo_wh_env_def)
  have hook: "wv_hooks (mem_hook_view (demo_hooks 0)) (wk_id (demo_hook 0)) = Some (demo_hook 0)"
    by (simp add: mem_hook_view_def demo_hooks_def demo_hook_def jm_get_def)
  have "wk_fails (demo_hook 0) = 0" "\<not> wk_disabled (demo_hook 0)" by (simp_all add: demo_hook_def)
  from webhook_gives_up [OF mem_webhooks_reliable mem_posts_fail env _ _ hook this, of "replicate 12 demo_payload"]
  show ?thesis by (simp add: mem_hook_view_def demo_hook_def)
qed

section \<open>Overlapping deliveries\<close>

lemma demo_counted:
  "counted demo_wh_env (demo_hook 8) (demo_hook 8) = demo_hook 9"
  "counted demo_wh_env (demo_hook 9) (demo_hook 9) = (demo_hook 10)\<lparr>wk_disabled := True\<rparr>"
  "counted demo_wh_env (demo_hook 8) ((demo_hook 10)\<lparr>wk_disabled := True\<rparr>) = demo_hook 9"
  by (simp_all add: counted_def demo_hook_def demo_wh_env_def jle_def jeq_def)

text \<open>Three deliveries of one webhook, all failing, can leave it enabled with one failure less than the limit after it had
  been disabled: a delivery that read the count before the others writes it back, and the flag with it.
\<close>

theorem webhook_disable_undone:
  "\<exists>tr ts1 s1 tr' s2 w1 w2 e1 e2 e3.
     steps (mem_webhooks None) (\<lambda>_ _. False) (replicate 3 demo_deliver, demo_hooks 8) tr (ts1, s1) \<and>
     steps (mem_webhooks None) (\<lambda>_ _. False) (ts1, s1) tr' ([Ret (Inl e3), Ret (Inl e1), Ret (Inl e2)], s2) \<and>
     we_max_fails demo_wh_env = Fin 10 \<and>
     jm_get (mh_hooks s1) ''h'' = Some w1 \<and> wk_fails w1 = 10 \<and> wk_disabled w1 \<and>
     jm_get (mh_hooks s2) ''h'' = Some w2 \<and> wk_fails w2 = 9 \<and> \<not> wk_disabled w2"
proof -
  let ?exec = "mem_webhooks None" and ?none = "\<lambda>(_ :: mem_hooks) (_ :: mem_hooks). False"
  let ?rest = "deliver_to demo_wh_env (demo_hook 8) demo_payload None None"
  let ?s0 = "demo_hooks 8" and ?s1 = "snd (run ?exec demo_deliver (demo_hooks 8))"
  let ?s2 = "snd (run ?exec demo_deliver ?s1)" and ?s3 = "snd (run ?exec ?rest (snd (run ?exec demo_deliver ?s1)))"
  have h0: "wv_hooks (mem_hook_view ?s0) ''h'' = Some (demo_hook 8)"
    by (simp add: mem_hook_view_def demo_hooks_def jm_get_def)
  have hid: "wk_id (demo_hook n) = ''h''" "\<not> wk_disabled (demo_hook n)" for n by (simp_all add: demo_hook_def)
  obtain e1 where r1: "fst (run ?exec demo_deliver ?s0) = Inl e1" and h1: "wv_hooks (mem_hook_view ?s1) ''h'' = Some (demo_hook 9)"
    using wp_run [OF wp_deliver [OF mem_webhooks_reliable mem_posts_fail h0 hid], of demo_wh_env demo_payload None None]
    unfolding demo_counted by blast
  obtain e2 where r2: "fst (run ?exec demo_deliver ?s1) = Inl e2"
    and h2: "wv_hooks (mem_hook_view ?s2) ''h'' = Some ((demo_hook 10)\<lparr>wk_disabled := True\<rparr>)"
    using wp_run [OF wp_deliver [OF mem_webhooks_reliable mem_posts_fail h1 hid], of demo_wh_env demo_payload None None]
    unfolding demo_counted by blast
  obtain e3 where r3: "fst (run ?exec ?rest ?s2) = Inl e3" and h3: "wv_hooks (mem_hook_view ?s3) ''h'' = Some (demo_hook 9)"
    using wp_run [OF wp_deliver_to [OF mem_webhooks_reliable mem_posts_fail h2 hid(1) [of 8]], of demo_wh_env demo_payload None None]
    unfolding demo_counted by blast
  let ?k = "\<lambda>r. case r of WErr e \<Rightarrow> Ret (Inl e) | _ \<Rightarrow> (case r of
       WFound (Some webhook) \<Rightarrow> if wk_disabled webhook then Ret (Inr ()) else deliver_to demo_wh_env webhook demo_payload None None
     | WFound None \<Rightarrow> Ret (Inr ())
     | _ \<Rightarrow> Ret (Inl ''unexpected reply''))"
  have call: "demo_deliver = Call (Find_Webhook ''h'') ?k" unfolding deliver_def wh_await_def ..
  have find: "?exec (Find_Webhook ''h'') ?s0 = (WFound (Some (demo_hook 8)), ?s0)"
    using h0 by (simp add: mem_hook_view_def)
  have "steps ?exec ?none (replicate 3 demo_deliver, ?s0) ([] @ [(0, Find_Webhook ''h'', WFound (Some (demo_hook 8)))])
      ((replicate 3 demo_deliver)[0 := ?k (WFound (Some (demo_hook 8)))], ?s0)"
    by (rule steps_call [where k = ?k], rule steps_refl, simp, simp add: call, rule find)
  then have one: "steps ?exec ?none (replicate 3 demo_deliver, ?s0) [(0, Find_Webhook ''h'', WFound (Some (demo_hook 8)))]
      ([?rest, demo_deliver, demo_deliver], ?s0)" by (simp add: numeral_3_eq_3 hid)
  obtain tr1 where tr1: "steps ?exec ?none ([?rest, demo_deliver, demo_deliver], ?s0) tr1 ([?rest, Ret (Inl e1), demo_deliver], ?s1)"
    using run_steps_in [of 1 "[?rest, demo_deliver, demo_deliver]" demo_deliver ?exec ?none ?s0] by (auto simp: r1)
  obtain tr2 where tr2: "steps ?exec ?none ([?rest, Ret (Inl e1), demo_deliver], ?s1) tr2 ([?rest, Ret (Inl e1), Ret (Inl e2)], ?s2)"
    using run_steps_in [of 2 "[?rest, Ret (Inl e1), demo_deliver]" demo_deliver ?exec ?none ?s1] by (auto simp: r2)
  obtain tr3 where tr3: "steps ?exec ?none ([?rest, Ret (Inl e1), Ret (Inl e2)], ?s2) tr3 ([Ret (Inl e3), Ret (Inl e1), Ret (Inl e2)], ?s3)"
    using run_steps_in [of 0 "[?rest, Ret (Inl e1), Ret (Inl e2)]" ?rest ?exec ?none ?s2] by (auto simp: r3)
  have "we_max_fails demo_wh_env = Fin 10" "wk_fails (demo_hook 9) = 9" "\<not> wk_disabled (demo_hook 9)"
    "wk_fails ((demo_hook 10)\<lparr>wk_disabled := True\<rparr>) = 10" "wk_disabled ((demo_hook 10)\<lparr>wk_disabled := True\<rparr>)"
    by (simp_all add: demo_hook_def demo_wh_env_def)
  moreover have "jm_get (mh_hooks ?s2) ''h'' = Some ((demo_hook 10)\<lparr>wk_disabled := True\<rparr>)" "jm_get (mh_hooks ?s3) ''h'' = Some (demo_hook 9)"
    using h2 h3 by (simp_all add: mem_hook_view_def)
  moreover note steps_trans [OF tr2 steps_trans [OF tr1 one]] tr3
  ultimately show ?thesis by blast
qed

end
