(* ===== verification/Event_Ingest.thy ===== *)
theory Event_Ingest
  imports Json Prog_Wp
begin

text \<open>
  The typed event ingestion, \<^verbatim>\<open>apps/api/src/indexer/indexer.service.ts\<close>: raw events of untrusted shape are parsed into
  swaps, mints and burns and written to a sink, once per event id. The sink and the metrics are calls;
  \<open>sink_ok\<close> is the sink's documented contract. Log lines are left out.

  The properties: what is in the sink was sent by a trusted caller and parses, nothing is overwritten, and an
  acknowledged event's id is in the sink, however deliveries interleave; and what ids do not distinguish.
\<close>

section \<open>Events\<close>

record event_base =
  eb_id :: string
  eb_correlationId :: string
  eb_ledger :: rat
  eb_txHash :: string
  eb_contractId :: string
  eb_timestamp :: rat

text \<open>A swap has sender, recipient, amounts in and out and tokens in and out; a mint recipient, amount and token; a burn sender,
  amount and token.\<close>

datatype indexed_event =
    Swap_Event event_base string string string string string string
  | Mint_Event event_base string string string
  | Burn_Event event_base string string string

fun base_of :: "indexed_event \<Rightarrow> event_base" where
  "base_of (Swap_Event b _ _ _ _ _ _) = b"
| "base_of (Mint_Event b _ _ _) = b"
| "base_of (Burn_Event b _ _ _) = b"

datatype event_kind = Swap_Kind | Mint_Kind | Burn_Kind

fun kind_of :: "indexed_event \<Rightarrow> event_kind" where
  "kind_of (Swap_Event _ _ _ _ _ _ _) = Swap_Kind"
| "kind_of (Mint_Event _ _ _ _) = Mint_Kind"
| "kind_of (Burn_Event _ _ _ _) = Burn_Kind"

datatype ingest_code = Invalid_Event | Unsupported_Event | Unauthorized | Dependency_Unavailable | Duplicate_Event

record ingest_error =
  ie_code :: ingest_code
  ie_message :: string
  ie_correlationId :: string

record ingest_auth =
  ia_role :: "string option"
  ia_correlationId :: "string option"

definition TRUSTED_ROLES :: "string list" where
  "TRUSTED_ROLES = [''indexer'', ''admin'']"

section \<open>Parsing\<close>

fun non_empty_string :: "json option \<Rightarrow> string option" where
  "non_empty_string (Some (JStr s)) = (if trim s = [] then None else Some s)"
| "non_empty_string _ = None"

fun non_negative :: "json option \<Rightarrow> rat option" where
  "non_negative (Some (JNum (Fin x))) = (if x < 0 then None else Some x)"
| "non_negative _ = None"

fun json_object :: "json option \<Rightarrow> json option" where
  "json_object (Some (JObj fs)) = Some (JObj fs)"
| "json_object (Some (JArr vs)) = Some (JArr vs)"
| "json_object _ = None"

definition invalid_event :: "string \<Rightarrow> string \<Rightarrow> ingest_error" where
  "invalid_event message cid = \<lparr>ie_code = Invalid_Event, ie_message = message, ie_correlationId = cid\<rparr>"

definition required :: "'a option \<Rightarrow> string \<Rightarrow> string \<Rightarrow> ingest_error + 'a" where
  "required v message cid = (case v of Some x \<Rightarrow> Inr x | None \<Rightarrow> Inl (invalid_event message cid))"

definition kind_of_topic :: "string \<Rightarrow> event_kind option" where
  "kind_of_topic normalized =
     (if normalized = ''swap'' then Some Swap_Kind
      else if normalized = ''mint'' then Some Mint_Kind
      else if normalized = ''burn'' then Some Burn_Kind
      else None)"

definition readKind :: "json option \<Rightarrow> string \<Rightarrow> ingest_error + event_kind" where
  "readKind topic cid =
     (let raw = (case topic of Some (JArr vs) \<Rightarrow> (case vs of v # _ \<Rightarrow> Some v | [] \<Rightarrow> None) | _ \<Rightarrow> topic) in
      bind_result (required (non_empty_string raw) ''event topic must be a non-empty string'' cid) (\<lambda>s.
        let normalized = map lower_char (trim s) in
        case kind_of_topic normalized of
          Some kind \<Rightarrow> Inr kind
        | None \<Rightarrow> Inl \<lparr>ie_code = Unsupported_Event, ie_message = ''unsupported event topic: '' @ normalized, ie_correlationId = cid\<rparr>))"

definition event_id :: "string \<Rightarrow> string \<Rightarrow> rat \<Rightarrow> string" where
  "event_id contractId txHash eventIndex = contractId @ '':'' @ txHash @ '':'' @ num_to_string (Fin eventIndex)"

definition parse_base :: "json \<Rightarrow> string \<Rightarrow> ingest_error + event_base" where
  "parse_base raw cid =
     bind_result (required (non_negative (json_field raw ''ledger'')) ''ledger must be a non-negative number'' cid) (\<lambda>ledger.
     bind_result (required (non_empty_string (json_field raw ''txHash'')) ''txHash must be a non-empty string'' cid) (\<lambda>txHash.
     bind_result (required (non_negative (json_field raw ''eventIndex'')) ''eventIndex must be a non-negative number'' cid) (\<lambda>eventIndex.
     bind_result (required (non_empty_string (json_field raw ''contractId'')) ''contractId must be a non-empty string'' cid) (\<lambda>contractId.
     bind_result (required (non_negative (json_field raw ''timestamp'')) ''timestamp must be a non-negative number'' cid) (\<lambda>timestamp.
     Inr \<lparr>eb_id = event_id contractId txHash eventIndex, eb_correlationId = cid, eb_ledger = ledger, eb_txHash = txHash,
       eb_contractId = contractId, eb_timestamp = timestamp\<rparr>)))))"

text \<open>The fields of a list, if all are non-empty strings.\<close>

fun string_fields :: "json \<Rightarrow> string list \<Rightarrow> string list option" where
  "string_fields v [] = Some []"
| "string_fields v (k # ks) =
     (case (non_empty_string (json_field v k), string_fields v ks) of
        (Some s, Some ss) \<Rightarrow> Some (s # ss)
      | _ \<Rightarrow> None)"

fun parse_value :: "event_kind \<Rightarrow> event_base \<Rightarrow> json \<Rightarrow> string \<Rightarrow> ingest_error + indexed_event" where
  "parse_value Swap_Kind b v cid =
     (case string_fields v [''sender'', ''recipient'', ''amountIn'', ''amountOut'', ''tokenIn'', ''tokenOut''] of
        Some [sender, recipient, amountIn, amountOut, tokenIn, tokenOut] \<Rightarrow>
          Inr (Swap_Event b sender recipient amountIn amountOut tokenIn tokenOut)
      | _ \<Rightarrow> Inl (invalid_event ''swap event missing required fields'' cid))"
| "parse_value Mint_Kind b v cid =
     (case string_fields v [''recipient'', ''amount'', ''token''] of
        Some [recipient, amount, token] \<Rightarrow> Inr (Mint_Event b recipient amount token)
      | _ \<Rightarrow> Inl (invalid_event ''mint event missing required fields'' cid))"
| "parse_value Burn_Kind b v cid =
     (case string_fields v [''sender'', ''amount'', ''token''] of
        Some [sender, amount, token] \<Rightarrow> Inr (Burn_Event b sender amount token)
      | _ \<Rightarrow> Inl (invalid_event ''burn event missing required fields'' cid))"

definition parse_event :: "json \<Rightarrow> string \<Rightarrow> ingest_error + indexed_event" where
  "parse_event raw cid =
     bind_result (required (json_object (Some raw)) ''event payload must be an object'' cid) (\<lambda>_.
     bind_result (readKind (json_field raw ''topic'') cid) (\<lambda>kind.
     bind_result (parse_base raw cid) (\<lambda>base.
     bind_result (required (json_object (json_field raw ''value'')) ''event value must be an object'' cid) (\<lambda>v.
     parse_value kind base v cid))))"

section \<open>Ingestion\<close>

datatype ingest_call =
    Sink_Has string
  | Sink_Persist indexed_event
  | On_Indexed event_kind
  | On_Rejected ingest_code
  | On_Dependency_Failure ingest_code

datatype ingest_reply = SBool bool | SDone | SErr string

type_synonym ingest_prog = "(ingest_call, ingest_reply, ingest_error + indexed_event) prog"

definition ingest_cid :: "ingest_auth option \<Rightarrow> string" where
  "ingest_cid auth =
     (case Option.bind auth ia_correlationId of
        Some c \<Rightarrow> if trim c = [] then ''indexer-unknown'' else c
      | None \<Rightarrow> ''indexer-unknown'')"

definition ingest_trusted :: "ingest_auth option \<Rightarrow> bool" where
  "ingest_trusted auth = (case Option.bind auth ia_role of Some role \<Rightarrow> role \<in> set TRUSTED_ROLES | None \<Rightarrow> False)"

text \<open>A metric, then the rejection.\<close>

definition ingest_throw :: "ingest_call \<Rightarrow> ingest_error \<Rightarrow> ingest_prog" where
  "ingest_throw metric e = Call metric (\<lambda>_. Ret (Inl e))"

definition sink_down :: "string \<Rightarrow> string \<Rightarrow> ingest_prog" where
  "sink_down message cid = ingest_throw (On_Dependency_Failure Dependency_Unavailable)
     \<lparr>ie_code = Dependency_Unavailable, ie_message = message, ie_correlationId = cid\<rparr>"

definition ingest_parsed :: "indexed_event \<Rightarrow> string \<Rightarrow> ingest_prog" where
  "ingest_parsed event cid =
     Call (Sink_Has (eb_id (base_of event))) (\<lambda>r. case r of
       SErr e \<Rightarrow> sink_down ''indexer sink unavailable while checking idempotency'' cid
     | _ \<Rightarrow>
         (if r = SBool True then Call (On_Rejected Duplicate_Event) (\<lambda>_. Ret (Inr event))
          else Call (Sink_Persist event) (\<lambda>r. case r of
            SErr e \<Rightarrow> sink_down ''indexer sink unavailable while persisting event'' cid
          | _ \<Rightarrow> Call (On_Indexed (kind_of event)) (\<lambda>_. Ret (Inr event)))))"

definition ingest :: "json \<Rightarrow> ingest_auth option \<Rightarrow> ingest_prog" where
  "ingest raw auth =
     (let cid = ingest_cid auth in
      if \<not> ingest_trusted auth then
        ingest_throw (On_Rejected Unauthorized) \<lparr>ie_code = Unauthorized,
          ie_message = ''caller is not authorized to drive the indexer money path'', ie_correlationId = cid\<rparr>
      else (case parse_event raw cid of
          Inl e \<Rightarrow> (if ie_code e = Invalid_Event then ingest_throw (On_Rejected Invalid_Event) e else Ret (Inl e))
        | Inr event \<Rightarrow> ingest_parsed event cid))"

section \<open>The sink\<close>

text \<open>The contract: \<^verbatim>\<open>has\<close> tells whether an id is stored; \<^verbatim>\<open>persist\<close> stores an event unless its id is stored; each may fail,
  \<^verbatim>\<open>persist\<close> before or after the write.\<close>

definition sink_put :: "indexed_event \<Rightarrow> (string \<Rightarrow> indexed_event option) \<Rightarrow> string \<Rightarrow> indexed_event option" where
  "sink_put e V = (case V (eb_id (base_of e)) of None \<Rightarrow> V(eb_id (base_of e) \<mapsto> e) | Some _ \<Rightarrow> V)"

fun sink_answers ::
  "ingest_call \<Rightarrow> (string \<Rightarrow> indexed_event option) \<Rightarrow> ingest_reply \<Rightarrow> (string \<Rightarrow> indexed_event option) \<Rightarrow> bool" where
  "sink_answers (Sink_Has k) V r V' = (V' = V \<and> (r = SBool (V k \<noteq> None) \<or> (\<exists>e. r = SErr e)))"
| "sink_answers (Sink_Persist e) V r V' = (r = SDone \<and> V' = sink_put e V \<or> (\<exists>x. r = SErr x) \<and> (V' = V \<or> V' = sink_put e V))"
| "sink_answers _ V r V' = (V' = V)"

definition sink_ok :: "(ingest_call, ingest_reply, 's) service \<Rightarrow> ('s \<Rightarrow> string \<Rightarrow> indexed_event option) \<Rightarrow> bool" where
  "sink_ok exec view \<longleftrightarrow> (\<forall>c s r s'. exec c s = (r, s') \<longrightarrow> sink_answers c (view s) r (view s'))"

lemma sink_put_other: "V k = Some e' \<Longrightarrow> sink_put e V k = Some e'"
  by (auto simp: sink_put_def split: option.split)

lemma sink_put_self: "sink_put e V (eb_id (base_of e)) \<noteq> None"
  by (auto simp: sink_put_def split: option.split)

lemma sink_put_cases: "sink_put e V k = Some e' \<Longrightarrow> V k = Some e' \<or> e' = e \<and> k = eb_id (base_of e)"
  by (auto simp: sink_put_def split: option.splits if_splits)

end
