(* ===== verification/Ingest_Laws.thy ===== *)
theory Ingest_Laws
  imports Event_Ingest
begin

text \<open>What ingestion keeps: the sink holds only well-formed events of trusted callers, keeps what it holds, and has the id of
  every event that was acknowledged.\<close>

section \<open>What parsing accepts\<close>

lemma required_Inr [simp]: "required v m c = Inr x \<longleftrightarrow> v = Some x"
  by (auto simp: required_def split: option.split)

lemma non_empty_string_Some: "non_empty_string v = Some s \<longleftrightarrow> v = Some (JStr s) \<and> trim s \<noteq> []"
  by (cases v rule: non_empty_string.cases) auto

lemma non_negative_Some: "non_negative v = Some x \<longleftrightarrow> v = Some (JNum (Fin x)) \<and> 0 \<le> x"
  by (cases v rule: non_negative.cases) auto

lemma json_object_Some: "json_object v = Some x \<longleftrightarrow> v = Some x \<and> ((\<exists>fs. x = JObj fs) \<or> (\<exists>vs. x = JArr vs))"
  by (cases v rule: json_object.cases) auto

text \<open>A raw event that has everything an event of its kind needs, without the order of the checks.\<close>

fun has_texts :: "json \<Rightarrow> (string \<times> string) list \<Rightarrow> bool" where
  "has_texts v [] = True"
| "has_texts v ((k, s) # ks) = (json_field v k = Some (JStr s) \<and> trim s \<noteq> [] \<and> has_texts v ks)"

fun value_matches :: "json \<Rightarrow> indexed_event \<Rightarrow> bool" where
  "value_matches v (Swap_Event b sender recipient amountIn amountOut tokenIn tokenOut) =
     has_texts v [(''sender'', sender), (''recipient'', recipient), (''amountIn'', amountIn), (''amountOut'', amountOut),
       (''tokenIn'', tokenIn), (''tokenOut'', tokenOut)]"
| "value_matches v (Mint_Event b recipient amount token) =
     has_texts v [(''recipient'', recipient), (''amount'', amount), (''token'', token)]"
| "value_matches v (Burn_Event b sender amount token) =
     has_texts v [(''sender'', sender), (''amount'', amount), (''token'', token)]"

fun kind_topic :: "event_kind \<Rightarrow> string" where
  "kind_topic Swap_Kind = ''swap''"
| "kind_topic Mint_Kind = ''mint''"
| "kind_topic Burn_Kind = ''burn''"

definition topic_matches :: "json \<Rightarrow> event_kind \<Rightarrow> bool" where
  "topic_matches raw kind \<longleftrightarrow>
     (\<exists>s. (json_field raw ''topic'' = Some (JStr s) \<or> (\<exists>vs. json_field raw ''topic'' = Some (JArr (JStr s # vs)))) \<and>
        map lower_char (trim s) = kind_topic kind)"

definition describes :: "json \<Rightarrow> string \<Rightarrow> indexed_event \<Rightarrow> bool" where
  "describes raw cid e \<longleftrightarrow>
     topic_matches raw (kind_of e) \<and>
     (\<exists>v index. json_field raw ''value'' = Some v \<and> value_matches v e \<and>
        has_texts raw [(''txHash'', eb_txHash (base_of e)), (''contractId'', eb_contractId (base_of e))] \<and>
        json_field raw ''ledger'' = Some (JNum (Fin (eb_ledger (base_of e)))) \<and> 0 \<le> eb_ledger (base_of e) \<and>
        json_field raw ''eventIndex'' = Some (JNum (Fin index)) \<and> 0 \<le> index \<and>
        json_field raw ''timestamp'' = Some (JNum (Fin (eb_timestamp (base_of e)))) \<and> 0 \<le> eb_timestamp (base_of e) \<and>
        eb_id (base_of e) = event_id (eb_contractId (base_of e)) (eb_txHash (base_of e)) index \<and>
        eb_correlationId (base_of e) = cid)"

lemma string_fields_Some:
  "string_fields v ks = Some ss \<longleftrightarrow> length ss = length ks \<and> has_texts v (zip ks ss)"
proof (induction ks arbitrary: ss)
  case (Cons k ks)
  show ?case
  proof (cases ss)
    case Nil
    then show ?thesis by (simp split: option.split)
  next
    case (Cons s ss')
    have "string_fields v (k # ks) = Some (s # ss') \<longleftrightarrow> non_empty_string (json_field v k) = Some s \<and> string_fields v ks = Some ss'"
      by (auto split: option.split)
    then show ?thesis unfolding Cons Cons.IH non_empty_string_Some by auto
  qed
qed auto

lemma kind_of_topic_Some: "kind_of_topic n = Some k \<longleftrightarrow> n = kind_topic k"
  by (cases k) (auto simp: kind_of_topic_def)

lemma readKind_Inr: "readKind (json_field raw ''topic'') cid = Inr kind \<longleftrightarrow> topic_matches raw kind"
proof -
  let ?raw = "case json_field raw ''topic'' of Some (JArr vs) \<Rightarrow> (case vs of v # _ \<Rightarrow> Some v | [] \<Rightarrow> None) | _ \<Rightarrow> json_field raw ''topic''"
  have topic: "non_empty_string ?raw = Some s \<longleftrightarrow> trim s \<noteq> [] \<and>
      (json_field raw ''topic'' = Some (JStr s) \<or> (\<exists>vs. json_field raw ''topic'' = Some (JArr (JStr s # vs))))" for s
    unfolding non_empty_string_Some by (auto split: option.splits json.splits list.splits)
  have ne: "trim s \<noteq> []" if "map lower_char (trim s) = kind_topic kind" for s
    using that by (cases kind) auto
  have "readKind (json_field raw ''topic'') cid = Inr kind \<longleftrightarrow>
      (\<exists>s. non_empty_string ?raw = Some s \<and> kind_of_topic (map lower_char (trim s)) = Some kind)"
    by (auto simp: readKind_def Let_def bind_result_Inr_iff split: option.splits)
  then show ?thesis unfolding topic topic_matches_def kind_of_topic_Some using ne by metis
qed

lemma parse_base_Inr:
  "parse_base raw cid = Inr b \<longleftrightarrow>
     has_texts raw [(''txHash'', eb_txHash b), (''contractId'', eb_contractId b)] \<and>
     json_field raw ''ledger'' = Some (JNum (Fin (eb_ledger b))) \<and> 0 \<le> eb_ledger b \<and>
     json_field raw ''timestamp'' = Some (JNum (Fin (eb_timestamp b))) \<and> 0 \<le> eb_timestamp b \<and>
     eb_correlationId b = cid \<and>
     (\<exists>index. json_field raw ''eventIndex'' = Some (JNum (Fin index)) \<and> 0 \<le> index \<and>
        eb_id b = event_id (eb_contractId b) (eb_txHash b) index)"
  by (cases b) (auto simp: parse_base_def bind_result_Inr_iff non_empty_string_Some non_negative_Some)

lemma parse_value_fields:
  "parse_value Swap_Kind b v cid = Inr e \<longleftrightarrow> (\<exists>s r i out ti tout. e = Swap_Event b s r i out ti tout \<and>
     string_fields v [''sender'', ''recipient'', ''amountIn'', ''amountOut'', ''tokenIn'', ''tokenOut''] = Some [s, r, i, out, ti, tout])"
  "parse_value Mint_Kind b v cid = Inr e \<longleftrightarrow> (\<exists>r a k. e = Mint_Event b r a k \<and>
     string_fields v [''recipient'', ''amount'', ''token''] = Some [r, a, k])"
  "parse_value Burn_Kind b v cid = Inr e \<longleftrightarrow> (\<exists>s a k. e = Burn_Event b s a k \<and>
     string_fields v [''sender'', ''amount'', ''token''] = Some [s, a, k])"
  by (auto split: option.splits list.splits simp del: string_fields.simps)

lemma parse_value_Inr: "parse_value kind b v cid = Inr e \<longleftrightarrow> kind = kind_of e \<and> b = base_of e \<and> value_matches v e"
proof (cases kind)
  case Swap_Kind
  show ?thesis unfolding Swap_Kind parse_value_fields string_fields_Some by (cases e) auto
next
  case Mint_Kind
  show ?thesis unfolding Mint_Kind parse_value_fields string_fields_Some by (cases e) auto
next
  case Burn_Kind
  show ?thesis unfolding Burn_Kind parse_value_fields string_fields_Some by (cases e) auto
qed

text \<open>The parser accepts exactly the raw events that describe an event.\<close>

lemma parse_event_Inr: "parse_event raw cid = Inr e \<longleftrightarrow> describes raw cid e"
proof -
  let ?obj = "\<lambda>j. (\<exists>fs. j = JObj fs) \<or> (\<exists>vs. j = JArr vs)"
  have obj: "?obj raw" if "topic_matches raw k" for k
    using that by (cases raw) (auto simp: topic_matches_def)
  have val: "?obj v" if "value_matches v e" for v
    using that by (cases e; cases v) auto
  have "parse_event raw cid = Inr e \<longleftrightarrow>
      (\<exists>x. json_object (Some raw) = Some x) \<and> (\<exists>k. topic_matches raw k \<and> (\<exists>b. parse_base raw cid = Inr b \<and>
        (\<exists>v. json_object (json_field raw ''value'') = Some v \<and> k = kind_of e \<and> b = base_of e \<and> value_matches v e)))"
    by (simp add: parse_event_def bind_result_Inr_iff readKind_Inr parse_value_Inr)
  also have "\<dots> \<longleftrightarrow> topic_matches raw (kind_of e) \<and> parse_base raw cid = Inr (base_of e) \<and>
      (\<exists>v. json_field raw ''value'' = Some v \<and> value_matches v e)"
    unfolding json_object_Some using obj val by metis
  finally show ?thesis unfolding describes_def parse_base_Inr by blast
qed

section \<open>What ingestion does\<close>

definition ingest_request :: "json \<times> ingest_auth option \<Rightarrow> ingest_prog" where
  "ingest_request q = ingest (fst q) (snd q)"

text \<open>An event some trusted caller sent.\<close>

definition sent_by_trusted :: "(json \<times> ingest_auth option) list \<Rightarrow> indexed_event \<Rightarrow> bool" where
  "sent_by_trusted qs e \<longleftrightarrow> (\<exists>(raw, auth) \<in> set qs. ingest_trusted auth \<and> describes raw (ingest_cid auth) e)"

definition ingest_calls_ok :: "(json \<times> ingest_auth option) list \<Rightarrow> ingest_call \<Rightarrow> bool" where
  "ingest_calls_ok qs c \<longleftrightarrow> (case c of Sink_Persist e \<Rightarrow> sent_by_trusted qs e | _ \<Rightarrow> True)"

lemma ingest_guarded:
  assumes "q \<in> set qs"
  shows "guarded (ingest_calls_ok qs) (\<lambda>_ _. True) (ingest_request q)"
proof -
  obtain raw auth where q: "q = (raw, auth)" by (rule prod.exhaust)
  have "guarded (ingest_calls_ok qs) (\<lambda>_ _. True) (ingest_parsed e (ingest_cid auth))"
    if "ingest_trusted auth" "parse_event raw (ingest_cid auth) = Inr e" for e
  proof -
    have "sent_by_trusted qs e" using assms q that unfolding sent_by_trusted_def parse_event_Inr by blast
    then show ?thesis
      by (simp add: ingest_parsed_def ingest_calls_ok_def sink_down_def ingest_throw_def split: ingest_reply.split)
  qed
  then show ?thesis
    by (auto simp: q ingest_request_def ingest_def ingest_throw_def ingest_calls_ok_def Let_def split: sum.split)
qed

lemma sink_down_fails [simp]:
  "sink_down m c \<noteq> Ret x" "feed (sink_down m c) lg \<noteq> Some (Ret (Inr e))"
proof -
  show "sink_down m c \<noteq> Ret x" by (simp add: sink_down_def ingest_throw_def)
  show "feed (sink_down m c) lg \<noteq> Some (Ret (Inr e))"
    by (cases lg) (auto simp: sink_down_def ingest_throw_def split: if_splits)
qed

text \<open>A result is handed out after the sink told of the event.\<close>

lemma ingest_answer:
  assumes "feed (ingest_request (raw, auth)) lg = Some (Ret (Inr e))"
  shows "ingest_trusted auth \<and> describes raw (ingest_cid auth) e \<and>
    ((Sink_Has (eb_id (base_of e)), SBool True) \<in> set lg \<or> (\<exists>r. (Sink_Persist e, r) \<in> set lg \<and> (\<forall>x. r \<noteq> SErr x)))"
proof -
  have tr: "ingest_trusted auth"
    using assms by (cases lg) (auto simp: ingest_request_def ingest_def ingest_throw_def Let_def split: if_splits)
  obtain e' where p: "parse_event raw (ingest_cid auth) = Inr e'"
    using assms tr by (cases lg) (auto simp: ingest_request_def ingest_def ingest_throw_def Let_def split: sum.splits if_splits)
  have f: "feed (ingest_parsed e' (ingest_cid auth)) lg = Some (Ret (Inr e))"
    using assms tr p by (simp add: ingest_request_def ingest_def Let_def)
  then obtain r1 lg1 where lg: "lg = (Sink_Has (eb_id (base_of e')), r1) # lg1"
    by (cases lg) (auto simp: ingest_parsed_def split: if_splits)
  show ?thesis
  proof (cases "r1 = SBool True")
    case True
    then have "e = e'" using f lg by (cases lg1) (auto simp: ingest_parsed_def split: if_splits)
    then show ?thesis using tr p lg True by (simp add: parse_event_Inr)
  next
    case False
    obtain r2 lg2 where lg1: "lg1 = (Sink_Persist e', r2) # lg2" and r2: "\<forall>x. r2 \<noteq> SErr x"
      using f lg False by (cases lg1) (auto simp: ingest_parsed_def split: ingest_reply.splits if_splits)
    then have "e = e'"
      using f lg lg1 False by (cases lg2) (auto simp: ingest_parsed_def split: ingest_reply.splits if_splits)
    then show ?thesis using tr p lg lg1 r2 by (auto simp: parse_event_Inr)
  qed
qed

text \<open>What the sink was told stays.\<close>

lemma sink_keeps:
  assumes "sink_ok exec view" and "exec c s = (r, s')" and "view s k = Some e"
  shows "view s' k = Some e"
proof -
  have "sink_answers c (view s) r (view s')" using assms(1,2) by (simp add: sink_ok_def)
  then show ?thesis using assms(3) sink_put_other [of "view s" k e] by (cases c) auto
qed

lemma steps_sink_keeps:
  assumes "steps exec (\<lambda>s s'. view s' = view s) (ts, s) tr (ts', s')" and "sink_ok exec view" and "view s k = Some e"
  shows "view s' k = Some e"
  using steps_invariant [OF assms(1), of "\<lambda>s. view s k = Some e"] sink_keeps [OF assms(2)] assms(3) by auto

lemma sink_told:
  assumes "steps exec (\<lambda>s s'. view s' = view s) (ts, s) tr (ts', s')" and "sink_ok exec view"
    and "(i, c, r) \<in> set tr"
    and "c = Sink_Has k \<and> r = SBool True \<or> (\<exists>e. c = Sink_Persist e \<and> k = eb_id (base_of e) \<and> (\<forall>x. r \<noteq> SErr x))"
  shows "view s' k \<noteq> None"
  using assms(1,3)
proof (induction "(ts, s)" tr "(ts', s')" arbitrary: ts' s' rule: steps.induct)
  case (steps_call tr ts1 s1 j c' f r' s2)
  show ?case
  proof (cases "(i, c, r) = (j, c', r')")
    case True
    then have "sink_answers c (view s1) r (view s2)" using assms(2) steps_call.hyps(5) by (simp add: sink_ok_def)
    then show ?thesis using assms(4) sink_put_self by (elim disjE exE conjE) (auto simp: sink_put_def split: option.split)
  next
    case False
    then have "view s1 k \<noteq> None" using steps_call by auto
    then show ?thesis using sink_keeps [OF assms(2) steps_call.hyps(5)] by fastforce
  qed
qed simp_all

text \<open>C6: However deliveries of raw events interleave, whoever sends them and whenever the sink fails: what the sink holds
  afterwards it held before or is an event that a trusted caller's raw event describes, nothing it held has changed, and
  for every event that was acknowledged the sink holds its id.\<close>

theorem ingest_sink_sound:
  assumes "sink_ok exec view"
    and "steps exec (\<lambda>s s'. view s' = view s) (map ingest_request qs, s) tr (ts', s')"
  shows "(view s' k = Some e \<longrightarrow> view s k = Some e \<or> sent_by_trusted qs e \<and> k = eb_id (base_of e)) \<and>
    (view s k = Some e \<longrightarrow> view s' k = Some e) \<and>
    (i < length qs \<and> ts' ! i = Ret (Inr e) \<longrightarrow> sent_by_trusted qs e \<and> view s' (eb_id (base_of e)) \<noteq> None)"
proof (intro conjI impI)
  let ?I = "\<lambda>s'. \<forall>k e. view s' k = Some e \<longrightarrow> view s k = Some e \<or> sent_by_trusted qs e \<and> k = eb_id (base_of e)"
  have "?I s' \<and> (\<forall>m \<in> set ts'. guarded (ingest_calls_ok qs) (\<lambda>_ _. True) m) \<and> (\<forall>(i, c, r) \<in> set tr. ingest_calls_ok qs c)"
  proof (rule steps_guarded [where I = ?I, OF assms(2)])
    fix c s1 r s2
    assume c: "exec c s1 = (r, s2)" "ingest_calls_ok qs c" "?I s1"
    have a: "sink_answers c (view s1) r (view s2)" using assms(1) c(1) by (simp add: sink_ok_def)
    show "True \<and> ?I s2"
    proof (cases "\<exists>ev. c = Sink_Persist ev")
      case True
      then obtain ev where ev: "c = Sink_Persist ev" "sent_by_trusted qs ev"
        using c(2) by (auto simp: ingest_calls_ok_def)
      then have "view s2 = view s1 \<or> view s2 = sink_put ev (view s1)" using a by auto
      then have "view s2 k = Some e \<Longrightarrow> view s1 k = Some e \<or> e = ev \<and> k = eb_id (base_of ev)" for k e
        by (auto dest: sink_put_cases)
      then show ?thesis using c(3) ev(2) by blast
    next
      case False
      then have "view s2 = view s1" using a by (cases c) auto
      then show ?thesis using c(3) by simp
    qed
  qed (use ingest_guarded in auto)
  then show "view s' k = Some e \<Longrightarrow> view s k = Some e \<or> sent_by_trusted qs e \<and> k = eb_id (base_of e)" by blast
  show "view s k = Some e \<Longrightarrow> view s' k = Some e" by (rule steps_sink_keeps [OF assms(2,1)])
  assume i: "i < length qs \<and> ts' ! i = Ret (Inr e)"
  obtain raw auth where q: "qs ! i = (raw, auth)" by (rule prod.exhaust)
  have "feed (ingest_request (raw, auth)) (events_of i tr) = Some (Ret (Inr e))"
    using steps_feed [OF assms(2), of i] i q by simp
  note a = ingest_answer [OF this]
  have "(raw, auth) \<in> set qs" using i q nth_mem by metis
  then show "sent_by_trusted qs e" using a unfolding sent_by_trusted_def by blast
  from a consider "(i, Sink_Has (eb_id (base_of e)), SBool True) \<in> set tr"
    | r where "(i, Sink_Persist e, r) \<in> set tr" "\<forall>x. r \<noteq> SErr x" using events_of_in by metis
  then show "view s' (eb_id (base_of e)) \<noteq> None"
    using sink_told [OF assms(2,1)] by cases blast+
qed

section \<open>What an id tells\<close>

text \<open>The parts of an id are joined by colons that the parts themselves may have.\<close>

lemma event_ids_collide: "event_id ''C:a'' ''b'' 0 = event_id ''C'' ''a:b'' 0"
  by (simp add: event_id_def)

lemma colon_split:
  "CHR '':'' \<notin> set a \<Longrightarrow> CHR '':'' \<notin> set b \<Longrightarrow> a @ CHR '':'' # x = b @ CHR '':'' # y \<Longrightarrow> a = b \<and> x = y"
  by (induction a arbitrary: b) (auto simp: Cons_eq_append_conv append_eq_Cons_conv)

lemma event_id_parts:
  assumes "event_id c t i = event_id c' t' i'"
    and "CHR '':'' \<notin> set c" "CHR '':'' \<notin> set c'" "CHR '':'' \<notin> set t" "CHR '':'' \<notin> set t'"
  shows "c = c' \<and> t = t' \<and> num_to_string (Fin i) = num_to_string (Fin i')"
proof -
  let ?n = "num_to_string (Fin i)" and ?n' = "num_to_string (Fin i')"
  have "c @ CHR '':'' # t @ CHR '':'' # ?n = c' @ CHR '':'' # t' @ CHR '':'' # ?n'"
    using assms(1) by (simp add: event_id_def del: num_to_string.simps)
  from colon_split [OF assms(2,3) this] have "c = c'" and t: "t @ CHR '':'' # ?n = t' @ CHR '':'' # ?n'" by simp_all
  moreover have "t = t' \<and> ?n = ?n'" by (rule colon_split [OF assms(4,5) t])
  ultimately show ?thesis by simp
qed

section \<open>A concrete sink\<close>

type_synonym mem_sink = "(string, indexed_event) js_map"

fun mem_sink_exec :: "(ingest_call, ingest_reply, mem_sink) service" where
  "mem_sink_exec (Sink_Has k) s = (SBool (jm_has s k), s)"
| "mem_sink_exec (Sink_Persist e) s =
     (SDone, if jm_has s (eb_id (base_of e)) then s else jm_set s (eb_id (base_of e)) e)"
| "mem_sink_exec _ s = (SDone, s)"

lemma mem_sink_ok: "sink_ok mem_sink_exec jm_get"
  unfolding sink_ok_def
proof (intro allI impI)
  fix c s r s' assume "mem_sink_exec c s = (r, s')"
  then show "sink_answers c (jm_get s) r (jm_get s')"
    by (cases c) (auto simp: sink_put_def jm_has_get fun_eq_iff split: if_splits option.split)
qed

definition demo_raw_event :: json where
  "demo_raw_event = JObj [(''topic'', JArr [JStr '' Burn '']), (''ledger'', JNum (Fin 5)), (''txHash'', JStr ''t1''),
     (''eventIndex'', JNum (Fin 0)), (''contractId'', JStr ''C1''), (''timestamp'', JNum (Fin 9)),
     (''value'', JObj [(''sender'', JStr ''G1''), (''amount'', JStr ''7''), (''token'', JStr ''T'')])]"

definition demo_event_burn :: indexed_event where
  "demo_event_burn = Burn_Event \<lparr>eb_id = ''C1:t1:0'', eb_correlationId = ''indexer-unknown'', eb_ledger = 5, eb_txHash = ''t1'',
     eb_contractId = ''C1'', eb_timestamp = 9\<rparr> ''G1'' ''7'' ''T''"

definition demo_ingests :: "(json \<times> ingest_auth option) list" where
  "demo_ingests = [(demo_raw_event, Some \<lparr>ia_role = Some ''indexer'', ia_correlationId = None\<rparr>)]"

lemma demo_ingest_run:
  "run mem_sink_exec (ingest_request (hd demo_ingests)) [] = (Inr demo_event_burn, [(''C1:t1:0'', demo_event_burn)])"
  by code_simp

theorem ingest_sink_sound_witness:
  "\<exists>tr. steps mem_sink_exec (\<lambda>s s'. jm_get s' = jm_get s) (map ingest_request demo_ingests, []) tr
      ([Ret (Inr demo_event_burn)], [(''C1:t1:0'', demo_event_burn)]) \<and> sent_by_trusted demo_ingests demo_event_burn"
proof -
  obtain tr where st: "steps mem_sink_exec (\<lambda>s s'. jm_get s' = jm_get s) (map ingest_request demo_ingests, []) tr
      ([Ret (Inr demo_event_burn)], [(''C1:t1:0'', demo_event_burn)])"
    using run_steps [of mem_sink_exec "\<lambda>s s'. jm_get s' = jm_get s" "ingest_request (hd demo_ingests)" "[]"]
    unfolding demo_ingest_run by (auto simp: demo_ingests_def)
  have "sent_by_trusted demo_ingests demo_event_burn"
    using ingest_sink_sound [OF mem_sink_ok st, of "[]" demo_event_burn 0] by (simp add: demo_ingests_def)
  then show ?thesis using st by blast
qed

end
