(* ===== verification/Jwt_Guard.thy ===== *)
theory Jwt_Guard
  imports Auth_Laws Json
begin

text \<open>
  Bearer tokens on HTTP routes: the guard that verifies them (\<^verbatim>\<open>apps/api/src/auth/jwt-auth.guard.ts\<close>), the store of
  the principals it verified (\<^verbatim>\<open>wallet-principal.ts\<close>), and the decorator through which handlers read the
  caller's wallet (\<^verbatim>\<open>current-wallet.decorator.ts\<close>); also the correlation id of the login route
  (\<^verbatim>\<open>auth.controller.ts\<close>). The JWT library's \<^verbatim>\<open>verify\<close> is a parameter that gets the time in milliseconds; it throws or
  returns a payload, never \<^verbatim>\<open>null\<close>. Log lines are left out.

  The properties: a principal that a handler gets was verified by the guard on this very request and satisfies
  what the handler asks for, whatever other code writes on the request; and no token that the login issues
  passes the guard.
\<close>

section \<open>Verification options and claims\<close>

record jwt_options =
  jo_algorithms :: "string list"
  jo_issuer :: "string option"
  jo_audience :: "string option"

datatype jwt_failure = Token_Expired | Jwt_Error | Other_Error

type_synonym jwt_verify = "string \<Rightarrow> string \<Rightarrow> jwt_options \<Rightarrow> int \<Rightarrow> jwt_failure + json"

text \<open>A variable of the environment that is set and not empty.\<close>

definition env_text :: "env \<Rightarrow> string \<Rightarrow> string option" where
  "env_text env k = (case env k of None \<Rightarrow> None | Some s \<Rightarrow> if s = [] then None else Some s)"

definition jwt_options_of :: "env \<Rightarrow> jwt_options" where
  "jwt_options_of env =
     \<lparr>jo_algorithms = [''HS256''], jo_issuer = env_text env ''JWT_ISSUER'', jo_audience = env_text env ''JWT_AUDIENCE''\<rparr>"

definition FEE_COLLECTOR_ROLES :: "string list" where
  "FEE_COLLECTOR_ROLES = [''fee-collector'', ''admin'']"

definition WEBSOCKET_PRIVILEGED_ROLES :: "string list" where
  "WEBSOCKET_PRIVILEGED_ROLES = [''fee-collector'', ''admin'', ''trader'']"

definition normalizeList :: "json option \<Rightarrow> string list" where
  "normalizeList v =
     (if \<not> json_truthy v then []
      else List.map_filter (json_str \<circ> Some) (case v of Some (JArr vs) \<Rightarrow> vs | Some w \<Rightarrow> [w] | None \<Rightarrow> []))"

text \<open>The token's \<^verbatim>\<open>exp\<close> claim is not a number of seconds after now.\<close>

definition exp_passed :: "json \<Rightarrow> int \<Rightarrow> bool" where
  "exp_passed payload now =
     (case json_field payload ''exp'' of
        Some (JNum x) \<Rightarrow> jle (jmul x (Fin 1000)) (num_of_int now)
      | _ \<Rightarrow> True)"

definition wallet_claim :: "json \<Rightarrow> json option" where
  "wallet_claim payload = json_coalesce (map (json_field payload) [''walletAddress'', ''wallet'', ''address'', ''sub''])"

definition role_claims :: "json \<Rightarrow> string list" where
  "role_claims payload = normalizeList (json_coalesce (map (json_field payload) [''roles'', ''role'']))"

definition scope_claims :: "json \<Rightarrow> string list" where
  "scope_claims payload = normalizeList (json_field payload ''scope'')"

text \<open>The part the HTTP guard and the WebSocket handshake have in common. The clock is read by the library, and again for \<^verbatim>\<open>exp\<close>.\<close>

definition verified_claims :: "jwt_verify \<Rightarrow> env \<Rightarrow> string \<Rightarrow> int \<times> int \<Rightarrow> string + string \<times> json" where
  "verified_claims verify env token clk =
     (case env_text env ''JWT_SECRET'' of
        None \<Rightarrow> Inl ''AUTH_NOT_CONFIGURED''
      | Some secret \<Rightarrow> (case verify token secret (jwt_options_of env) (fst clk) of
          Inl _ \<Rightarrow> Inl ''AUTH_INVALID_TOKEN''
        | Inr payload \<Rightarrow>
            if exp_passed payload (snd clk) then Inl ''AUTH_INVALID_TOKEN''
            else (case json_str (wallet_claim payload) of
                None \<Rightarrow> Inl ''AUTH_MISSING_WALLET''
              | Some w \<Rightarrow> Inr (w, payload))))"

section \<open>Principals\<close>

record wallet_principal =
  wp_walletAddress :: string
  wp_roles :: "string list"
  wp_scopes :: "string list"
  wp_correlationId :: string

text \<open>What the process holds of its requests, by request: the property \<^verbatim>\<open>req.user\<close> anyone can write, the private map of
  verified principals, and the decorator's counter.\<close>

record wallet_store =
  ws_user :: "nat \<Rightarrow> json option"
  ws_principals :: "nat \<Rightarrow> wallet_principal option"
  ws_outcomes :: counter

definition attachWalletPrincipal :: "nat \<Rightarrow> wallet_principal \<Rightarrow> wallet_store \<Rightarrow> wallet_store" where
  "attachWalletPrincipal request p s = s\<lparr>ws_principals := (ws_principals s)(request \<mapsto> p)\<rparr>"

definition getWalletPrincipal :: "nat \<Rightarrow> wallet_store \<Rightarrow> wallet_principal option" where
  "getWalletPrincipal request s = ws_principals s request"

definition user_json :: "string \<Rightarrow> string list \<Rightarrow> string list \<Rightarrow> json" where
  "user_json w roles scopes =
     JObj [(''walletAddress'', JStr w), (''roles'', JArr (map JStr roles)), (''scopes'', JArr (map JStr scopes))]"

section \<open>The guard\<close>

definition jwt_deny :: "string \<Rightarrow> string \<Rightarrow> api_exn" where
  "jwt_deny code cid = Http (http_error 401 code ''Unauthorized'' cid)"

text \<open>The token of an \<^verbatim>\<open>Authorization\<close> header. Node never presents this header as a list; \<^verbatim>\<open>startsWith\<close> would throw.\<close>

fun bearer_token :: "header option \<Rightarrow> string \<Rightarrow> api_exn + string" where
  "bearer_token (Some (HList vs)) cid = Inl (Crash ''authHeader.startsWith is not a function'')"
| "bearer_token (Some (HStr h)) cid =
     (if \<not> starts_with ''Bearer '' h then Inl (jwt_deny ''AUTH_MISSING_HEADER'' cid)
      else let token = trim (drop (length ''Bearer '') h) in
        if token = [] then Inl (jwt_deny ''AUTH_MISSING_TOKEN'' cid) else Inr token)"
| "bearer_token None cid = Inl (jwt_deny ''AUTH_MISSING_HEADER'' cid)"

definition jwt_canActivate ::
  "jwt_verify \<Rightarrow> env \<Rightarrow> string \<Rightarrow> headers \<Rightarrow> int \<times> int \<Rightarrow> nat \<Rightarrow> wallet_store \<Rightarrow> (api_exn + bool) \<times> wallet_store" where
  "jwt_canActivate verify env random_uuid headers clk request s =
     (let cid = resolveCorrelationId random_uuid headers in
      case bearer_token (headers ''authorization'') cid of
        Inl e \<Rightarrow> (Inl e, s)
      | Inr token \<Rightarrow> (case verified_claims verify env token clk of
          Inl code \<Rightarrow> (Inl (jwt_deny code cid), s)
        | Inr (w, payload) \<Rightarrow>
            (let roles = role_claims payload; scopes = scope_claims payload in
             if roles = [] \<and> scopes = [] then (Inl (jwt_deny ''AUTH_FORBIDDEN'' cid), s)
             else if roles \<noteq> [] \<and> \<not> list_ex (\<lambda>r. r \<in> set FEE_COLLECTOR_ROLES) roles then
               (Inl (jwt_deny ''AUTH_FORBIDDEN'' cid), s)
             else (Inr True, attachWalletPrincipal request
                 \<lparr>wp_walletAddress = w, wp_roles = roles, wp_scopes = scopes, wp_correlationId = cid\<rparr>
                 (s\<lparr>ws_user := (ws_user s)(request \<mapsto> user_json w roles scopes)\<rparr>)))))"

definition authorizeWebSocket ::
  "jwt_verify \<Rightarrow> env \<Rightarrow> string option \<Rightarrow> string \<Rightarrow> int \<times> int \<Rightarrow> api_exn + string \<times> string list \<times> string list" where
  "authorizeWebSocket verify env token cid clk =
     (case token of
        Some (c # cs) \<Rightarrow> (case verified_claims verify env (c # cs) clk of
            Inl code \<Rightarrow> Inl (jwt_deny code cid)
          | Inr (w, payload) \<Rightarrow>
              (let roles = role_claims payload; scopes = scope_claims payload in
               if roles = [] \<or> \<not> list_ex (\<lambda>r. r \<in> set WEBSOCKET_PRIVILEGED_ROLES) roles then
                 Inl (jwt_deny ''AUTH_FORBIDDEN'' cid)
               else Inr (w, roles, scopes)))
      | _ \<Rightarrow> Inl (jwt_deny ''AUTH_MISSING_TOKEN'' cid))"

section \<open>The decorator\<close>

definition WALLET_OUTCOMES :: "string list" where
  "WALLET_OUTCOMES = [''allowed'', ''AUTH_MISSING_WALLET'', ''AUTH_INVALID_WALLET'', ''AUTH_INSUFFICIENT_SCOPE'',
     ''AUTH_INSUFFICIENT_ROLE'']"

record wallet_options =
  wo_scopes :: "string list option"
  wo_roles :: "string list option"

definition wallet_deny :: "string \<Rightarrow> string \<Rightarrow> wallet_store \<Rightarrow> (api_exn + wallet_principal) \<times> wallet_store" where
  "wallet_deny code cid s =
     (Inl (Http (if code = ''AUTH_INSUFFICIENT_SCOPE'' \<or> code = ''AUTH_INSUFFICIENT_ROLE''
        then http_error 403 code ''Forbidden'' cid else http_error 401 code ''Unauthorized'' cid)),
      s\<lparr>ws_outcomes := counter_inc (ws_outcomes s) code\<rparr>)"

definition resolveWalletPrincipal ::
  "(string \<Rightarrow> bool) \<Rightarrow> string \<Rightarrow> headers \<Rightarrow> nat \<Rightarrow> wallet_options option \<Rightarrow> wallet_store \<Rightarrow>
   (api_exn + wallet_principal) \<times> wallet_store" where
  "resolveWalletPrincipal strkey_ok random_uuid headers request options s =
     (case getWalletPrincipal request s of
        None \<Rightarrow> wallet_deny ''AUTH_MISSING_WALLET'' (resolveCorrelationId random_uuid headers) s
      | Some p \<Rightarrow>
          (let cid = wp_correlationId p;
               requiredScopes = or_else (Option.bind options wo_scopes) [];
               allowedRoles = or_else (Option.bind options wo_roles) [] in
           if \<not> strkey_ok (wp_walletAddress p) then wallet_deny ''AUTH_INVALID_WALLET'' cid s
           else if list_ex (\<lambda>scope. scope \<notin> set (wp_scopes p)) requiredScopes then
             wallet_deny ''AUTH_INSUFFICIENT_SCOPE'' cid s
           else if allowedRoles \<noteq> [] \<and> \<not> list_ex (\<lambda>role. role \<in> set (wp_roles p)) allowedRoles then
             wallet_deny ''AUTH_INSUFFICIENT_ROLE'' cid s
           else (Inr p, s\<lparr>ws_outcomes := counter_inc (ws_outcomes s) ''allowed''\<rparr>)))"

definition CurrentWallet ::
  "(string \<Rightarrow> bool) \<Rightarrow> string \<Rightarrow> headers \<Rightarrow> nat \<Rightarrow> wallet_options option \<Rightarrow> wallet_store \<Rightarrow>
   (api_exn + string) \<times> wallet_store" where
  "CurrentWallet strkey_ok random_uuid headers request options s =
     (let (r, s') = resolveWalletPrincipal strkey_ok random_uuid headers request options s
      in (map_sum (\<lambda>e. e) wp_walletAddress r, s'))"

definition wallet_store_init :: wallet_store where
  "wallet_store_init = \<lparr>ws_user = (\<lambda>_. None), ws_principals = (\<lambda>_. None), ws_outcomes = counter_new WALLET_OUTCOMES\<rparr>"

section \<open>The login route's correlation id\<close>

definition login_id_ok :: "string \<Rightarrow> bool" where
  "login_id_ok s = (0 < length s \<and> length s \<le> 128 \<and> list_all correlation_char s)"

definition login_correlationId :: "string \<Rightarrow> string option \<Rightarrow> string option \<Rightarrow> string" where
  "login_correlationId random_id header request_header =
     (let candidate = trim (or_else header []) in
      if login_id_ok candidate then candidate
      else (case map_option trim request_header of
          Some existing \<Rightarrow> if login_id_ok existing then existing else random_id
        | None \<Rightarrow> random_id))"

definition login_verifyWallet :: "auth_env \<Rightarrow> string \<Rightarrow> verify_dto \<Rightarrow> string option \<Rightarrow> string option \<Rightarrow> auth_prog" where
  "login_verifyWallet env random_id dto header request_header =
     verifyWallet env dto (login_correlationId random_id header request_header)"

section \<open>What the guard grants\<close>

text \<open>The requirements on a request, written without the guard's order of checks: a bearer token that the library verifies for
  the configured secret with HS256, not expired, with a wallet; and a privileged role, or no role at all but some scope.\<close>

definition jwt_authentic :: "jwt_verify \<Rightarrow> env \<Rightarrow> headers \<Rightarrow> int \<times> int \<Rightarrow> string \<Rightarrow> json \<Rightarrow> bool" where
  "jwt_authentic verify env headers clk w payload \<longleftrightarrow>
     (\<exists>h secret x. headers ''authorization'' = Some (HStr (''Bearer '' @ h)) \<and> trim h \<noteq> [] \<and>
        env ''JWT_SECRET'' = Some secret \<and> secret \<noteq> [] \<and>
        verify (trim h) secret (jwt_options_of env) (fst clk) = Inr payload \<and>
        json_field payload ''exp'' = Some (JNum x) \<and> \<not> jle (jmul x (Fin 1000)) (num_of_int (snd clk)) \<and>
        wallet_claim payload = Some (JStr w) \<and> w \<noteq> [])"

definition jwt_permitted :: "json \<Rightarrow> bool" where
  "jwt_permitted payload \<longleftrightarrow>
     set (role_claims payload) \<inter> set FEE_COLLECTOR_ROLES \<noteq> {} \<or> role_claims payload = [] \<and> scope_claims payload \<noteq> []"

lemma starts_with_iff: "starts_with p s \<longleftrightarrow> (\<exists>t. s = p @ t)"
  unfolding starts_with_def by (metis append_eq_conv_conj append_take_drop_id)

lemma env_text_Some [simp]: "env_text env k = Some s \<longleftrightarrow> env k = Some s \<and> s \<noteq> []"
  by (auto simp: env_text_def split: option.splits)

lemma bearer_token_Inr: "bearer_token v cid = Inr t \<longleftrightarrow> (\<exists>r. v = Some (HStr (''Bearer '' @ r)) \<and> t = trim r \<and> t \<noteq> [])"
  by (cases "(v, cid)" rule: bearer_token.cases)
    (auto simp: Let_def starts_with_iff simp del: append_Cons)

lemma verified_claims_Inr:
  "verified_claims verify env token clk = Inr (w, payload) \<longleftrightarrow>
     (\<exists>secret x. env ''JWT_SECRET'' = Some secret \<and> secret \<noteq> [] \<and>
        verify token secret (jwt_options_of env) (fst clk) = Inr payload \<and>
        json_field payload ''exp'' = Some (JNum x) \<and> \<not> jle (jmul x (Fin 1000)) (num_of_int (snd clk)) \<and>
        wallet_claim payload = Some (JStr w) \<and> w \<noteq> [])" (is "?l = ?r")
proof
  assume l: ?l
  then obtain secret where s: "env_text env ''JWT_SECRET'' = Some secret"
    by (auto simp: verified_claims_def split: option.splits)
  with l obtain p where v: "verify token secret (jwt_options_of env) (fst clk) = Inr p"
    by (auto simp: verified_claims_def split: sum.splits)
  with l s have e: "\<not> exp_passed p (snd clk)" and w: "json_str (wallet_claim p) = Some w" and p: "p = payload"
    by (auto simp: verified_claims_def split: if_splits option.splits)
  from e obtain x where "json_field p ''exp'' = Some (JNum x)" "\<not> jle (jmul x (Fin 1000)) (num_of_int (snd clk))"
    by (auto simp: exp_passed_def split: option.splits json.splits)
  then show ?r using s v w p by auto
next
  assume ?r
  then show ?l by (auto simp: verified_claims_def exp_passed_def env_text_def)
qed

lemma jwt_canActivate_grants_iff:
  "fst (jwt_canActivate verify env random_uuid headers clk request s) = Inr b \<longleftrightarrow>
     b \<and> (\<exists>w payload. jwt_authentic verify env headers clk w payload \<and> jwt_permitted payload)" (is "?l \<longleftrightarrow> ?r")
proof -
  let ?cid = "resolveCorrelationId random_uuid headers"
  have authentic: "jwt_authentic verify env headers clk w payload \<longleftrightarrow>
      (\<exists>t. bearer_token (headers ''authorization'') ?cid = Inr t \<and> verified_claims verify env t clk = Inr (w, payload))"
    for w payload
    unfolding jwt_authentic_def bearer_token_Inr verified_claims_Inr by auto
  show ?thesis
  proof (cases "bearer_token (headers ''authorization'') ?cid")
    case (Inr t)
    show ?thesis
    proof (cases "verified_claims verify env t clk")
      case Inl
      then show ?thesis using Inr by (simp add: jwt_canActivate_def authentic Let_def)
    next
      case v: (Inr wp)
      then show ?thesis using Inr
        by (auto simp: jwt_canActivate_def authentic jwt_permitted_def Let_def list_ex_iff split: prod.splits)
    qed
  qed (simp add: jwt_canActivate_def authentic Let_def)
qed

lemma jwt_canActivate_attaches:
  assumes "jwt_canActivate verify env random_uuid headers clk request s = (r, s')"
  shows "ws_principals s' = ws_principals s \<or>
    (\<exists>w payload. jwt_authentic verify env headers clk w payload \<and> jwt_permitted payload \<and>
       ws_principals s' = (ws_principals s)(request \<mapsto> \<lparr>wp_walletAddress = w, wp_roles = role_claims payload,
         wp_scopes = scope_claims payload, wp_correlationId = resolveCorrelationId random_uuid headers\<rparr>))"
proof (cases r)
  case Inl
  then show ?thesis using assms
    by (auto simp: jwt_canActivate_def Let_def split: sum.splits if_splits)
next
  case (Inr b)
  let ?cid = "resolveCorrelationId random_uuid headers"
  obtain t where t: "bearer_token (headers ''authorization'') ?cid = Inr t"
    using assms Inr by (auto simp: jwt_canActivate_def Let_def split: sum.splits)
  obtain w payload where v: "verified_claims verify env t clk = Inr (w, payload)"
    using assms Inr t by (auto simp: jwt_canActivate_def Let_def split: sum.splits)
  have a: "jwt_authentic verify env headers clk w payload"
    using t v unfolding jwt_authentic_def bearer_token_Inr verified_claims_Inr by auto
  have p: "jwt_permitted payload" and s': "ws_principals s' = (ws_principals s)(request \<mapsto> \<lparr>wp_walletAddress = w,
      wp_roles = role_claims payload, wp_scopes = scope_claims payload, wp_correlationId = ?cid\<rparr>)"
    using assms Inr t v
    by (auto simp: jwt_canActivate_def Let_def jwt_permitted_def attachWalletPrincipal_def list_ex_iff split: if_splits)
  show ?thesis using a p s' by blast
qed

end
