(* ===== verification/Jwt_Laws.thy ===== *)
theory Jwt_Laws
  imports Jwt_Guard
begin

text \<open>
  Who a handler acts for. Requests are served in steps: guards run, any code writes \<^verbatim>\<open>req.user\<close>, handlers resolve
  the caller's wallet. A wallet a handler gets was verified on its own request; and the tokens of the login
  route satisfy no guard.
\<close>

section \<open>Serving requests\<close>

datatype wallet_step =
    Guard_Step nat headers "int \<times> int" string
  | Write_User nat "json option"
  | Resolve_Step nat headers "wallet_options option" string

fun serve_step :: "jwt_verify \<Rightarrow> env \<Rightarrow> (string \<Rightarrow> bool) \<Rightarrow> wallet_step \<Rightarrow> wallet_store \<Rightarrow> wallet_store" where
  "serve_step verify env strkey_ok (Guard_Step rid headers clk uuid) s =
     snd (jwt_canActivate verify env uuid headers clk rid s)"
| "serve_step verify env strkey_ok (Write_User rid v) s = s\<lparr>ws_user := (ws_user s)(rid := v)\<rparr>"
| "serve_step verify env strkey_ok (Resolve_Step rid headers options uuid) s =
     snd (resolveWalletPrincipal strkey_ok uuid headers rid options s)"

definition serve :: "jwt_verify \<Rightarrow> env \<Rightarrow> (string \<Rightarrow> bool) \<Rightarrow> wallet_step list \<Rightarrow> wallet_store" where
  "serve verify env strkey_ok sts = fold (serve_step verify env strkey_ok) sts wallet_store_init"

text \<open>A guard of this request verified the principal.\<close>

definition verified_on :: "jwt_verify \<Rightarrow> env \<Rightarrow> wallet_step list \<Rightarrow> nat \<Rightarrow> wallet_principal \<Rightarrow> bool" where
  "verified_on verify env sts rid p \<longleftrightarrow>
     (\<exists>headers clk uuid payload. Guard_Step rid headers clk uuid \<in> set sts \<and>
        jwt_authentic verify env headers clk (wp_walletAddress p) payload \<and> jwt_permitted payload \<and>
        wp_roles p = role_claims payload \<and> wp_scopes p = scope_claims payload)"

lemma run_feed: "\<exists>lg. feed m lg = Some (Ret (fst (run exec m s)))"
proof -
  obtain tr s' where "steps exec (\<lambda>_ _. False) ([m], s) tr ([Ret (fst (run exec m s))], s')"
    using run_steps [of exec "\<lambda>_ _. False" m s] by (metis prod.collapse)
  from steps_feed [OF this, of 0] show ?thesis by (auto intro!: exI)
qed

lemma resolve_keeps_principals:
  "ws_principals (snd (resolveWalletPrincipal strkey_ok uuid headers rid options s)) = ws_principals s"
  by (auto simp: resolveWalletPrincipal_def wallet_deny_def Let_def split: option.splits)

lemma served_principals_verified:
  "ws_principals (serve verify env strkey_ok sts) rid = Some p \<Longrightarrow> verified_on verify env sts rid p"
proof (induction sts arbitrary: p rule: rev_induct)
  case Nil
  then show ?case by (simp add: serve_def wallet_store_init_def)
next
  case (snoc st sts)
  let ?s = "serve verify env strkey_ok sts"
  have s': "serve verify env strkey_ok (sts @ [st]) = serve_step verify env strkey_ok st ?s"
    by (simp add: serve_def)
  have mono: "verified_on verify env sts r q \<Longrightarrow> verified_on verify env (sts @ [st]) r q" for r q
    unfolding verified_on_def set_append by blast
  show ?case
  proof (cases st)
    case (Guard_Step r headers clk uuid)
    obtain res s1 where g: "jwt_canActivate verify env uuid headers clk r ?s = (res, s1)" by (rule prod.exhaust)
    have p: "ws_principals s1 rid = Some p" using snoc.prems s' Guard_Step g by simp
    from jwt_canActivate_attaches [OF g] show ?thesis
    proof (elim disjE exE conjE)
      assume "ws_principals s1 = ws_principals ?s"
      then show ?thesis using p snoc.IH mono by simp
    next
      fix w payload
      assume a: "jwt_authentic verify env headers clk w payload" "jwt_permitted payload"
        and s1: "ws_principals s1 = (ws_principals ?s)(r \<mapsto> \<lparr>wp_walletAddress = w, wp_roles = role_claims payload,
          wp_scopes = scope_claims payload, wp_correlationId = resolveCorrelationId uuid headers\<rparr>)"
      show ?thesis
      proof (cases "rid = r")
        case True
        then have "p = \<lparr>wp_walletAddress = w, wp_roles = role_claims payload,
            wp_scopes = scope_claims payload, wp_correlationId = resolveCorrelationId uuid headers\<rparr>"
          using p s1 by simp
        then show ?thesis using a True Guard_Step unfolding verified_on_def
          by (intro exI [of _ headers] exI [of _ clk] exI [of _ uuid] exI [of _ payload]) simp
      next
        case False
        then show ?thesis using p s1 snoc.IH mono by simp
      qed
    qed
  next
    case Write_User
    then show ?thesis using snoc s' mono by simp
  next
    case Resolve_Step
    then show ?thesis using snoc s' mono by (simp add: resolve_keeps_principals)
  qed
qed

lemma resolve_Inr:
  assumes "fst (resolveWalletPrincipal strkey_ok uuid headers rid options s) = Inr p"
  shows "ws_principals s rid = Some p \<and> strkey_ok (wp_walletAddress p) \<and>
    set (or_else (Option.bind options wo_scopes) []) \<subseteq> set (wp_scopes p) \<and>
    (or_else (Option.bind options wo_roles) [] = [] \<or>
     set (or_else (Option.bind options wo_roles) []) \<inter> set (wp_roles p) \<noteq> {})"
  using assms
  by (auto simp: resolveWalletPrincipal_def wallet_deny_def getWalletPrincipal_def Let_def list_ex_iff
      split: option.splits if_splits)

text \<open>C11: However requests, guards and other code interleave, and whatever they write to \<^verbatim>\<open>req.user\<close>, the wallet a handler
  is given was verified by a guard on the same request: a bearer token, signed with the configured secret, not
  expired, with a privileged role or only scopes. The wallet is a valid address and has every scope and one of the
  roles the handler asks for.\<close>

theorem current_wallet_authentic:
  assumes "fst (resolveWalletPrincipal strkey_ok uuid headers rid options (serve verify env strkey_ok sts)) = Inr p"
  shows "verified_on verify env sts rid p \<and> strkey_ok (wp_walletAddress p) \<and>
    set (or_else (Option.bind options wo_scopes) []) \<subseteq> set (wp_scopes p) \<and>
    (or_else (Option.bind options wo_roles) [] = [] \<or>
     set (or_else (Option.bind options wo_roles) []) \<inter> set (wp_roles p) \<noteq> {})"
  using resolve_Inr [OF assms] served_principals_verified by blast

section \<open>Tokens of the login\<close>

text \<open>What the library documents of a token signed with a payload of the claims \<^verbatim>\<open>sub\<close> and \<^verbatim>\<open>walletAddress\<close> and the option
  \<^verbatim>\<open>expiresIn\<close>: a verified payload has these claims, \<^verbatim>\<open>iat\<close> and \<^verbatim>\<open>exp\<close>, and no other.\<close>

definition login_claims :: "string \<Rightarrow> json \<Rightarrow> bool" where
  "login_claims w payload \<longleftrightarrow>
     json_field payload ''sub'' = Some (JStr w) \<and> json_field payload ''walletAddress'' = Some (JStr w) \<and>
     (\<forall>k. k \<notin> {''sub'', ''walletAddress'', ''iat'', ''exp''} \<longrightarrow> json_field payload k = None)"

definition jwt_library_ok :: "auth_env \<Rightarrow> jwt_verify \<Rightarrow> bool" where
  "jwt_library_ok aenv verify \<longleftrightarrow>
     (\<forall>w t secret options now payload. ae_jwt_sign aenv w = Inr t \<longrightarrow> verify t secret options now = Inr payload \<longrightarrow>
        login_claims w payload)"

lemma login_claims_powerless: "login_claims w payload \<Longrightarrow> \<not> jwt_permitted payload"
  by (simp add: login_claims_def jwt_permitted_def role_claims_def scope_claims_def normalizeList_def)

lemma login_claims_no_role: "login_claims w payload \<Longrightarrow> role_claims payload = []"
  by (simp add: login_claims_def role_claims_def normalizeList_def)

text \<open>C21: A token that the login hands to a wallet passes no guard: whenever a request presents it, on a guarded
  route or on a privileged WebSocket channel, at any time and under any configuration, it is refused. The login
  signs no role and no scope, and the guard requires one.\<close>

theorem login_token_denied:
  assumes "jwt_library_ok aenv verify"
    and "feed (verifyWallet aenv dto cid) lg = Some (Ret (Inr (Token token)))"
    and "headers ''authorization'' = Some (HStr (''Bearer '' @ token))" and "trim token = token"
  shows "(\<exists>e. jwt_canActivate verify env random_uuid headers clk rid s = (Inl (Http e), s) \<and> he_status e = 401)
    \<and> (\<exists>e. authorizeWebSocket verify env (Some token) cid' clk = Inl (Http e) \<and> he_status e = 401)"
proof -
  let ?c = "resolveCorrelationId random_uuid headers"
  have sign: "ae_jwt_sign aenv (vd_walletAddress dto) = Inr token" using verify_granted [OF assms(2)] by auto
  have claims: "login_claims (vd_walletAddress dto) payload"
    if "verified_claims verify env token clk = Inr (w, payload)" for w payload
    using that assms(1) sign unfolding verified_claims_Inr jwt_library_ok_def by blast
  have denied: "\<exists>e. Http e = jwt_deny code c \<and> he_status e = 401" for code c
    by (simp add: jwt_deny_def http_error_def)
  have guard: "\<exists>code. jwt_canActivate verify env random_uuid headers clk rid s = (Inl (jwt_deny code ?c), s)"
  proof (cases "token = []")
    case False
    then have t: "bearer_token (headers ''authorization'') ?c = Inr token"
      unfolding bearer_token_Inr using assms(3,4) by metis
    show ?thesis
    proof (cases "verified_claims verify env token clk")
      case (Inr wp)
      obtain w payload where wp: "wp = (w, payload)" by (rule prod.exhaust)
      note c = claims [OF Inr [unfolded wp]]
      have "role_claims payload = []" "scope_claims payload = []"
        using login_claims_powerless [OF c] login_claims_no_role [OF c] by (simp_all add: jwt_permitted_def)
      then show ?thesis using t Inr wp by (auto simp: jwt_canActivate_def Let_def)
    qed (use t in \<open>auto simp: jwt_canActivate_def Let_def\<close>)
  next
    case True
    then have "bearer_token (headers ''authorization'') ?c = Inl (jwt_deny ''AUTH_MISSING_TOKEN'' ?c)"
      using assms(3,4) by (simp add: starts_with_def)
    then show ?thesis by (auto simp: jwt_canActivate_def Let_def)
  qed
  have socket: "\<exists>code. authorizeWebSocket verify env (Some token) cid' clk = Inl (jwt_deny code cid')"
  proof (cases "verified_claims verify env token clk")
    case (Inr wp)
    obtain w payload where wp: "wp = (w, payload)" by (rule prod.exhaust)
    show ?thesis using Inr wp login_claims_no_role [OF claims [OF Inr [unfolded wp]]]
      by (auto simp: authorizeWebSocket_def Let_def split: list.split)
  qed (auto simp: authorizeWebSocket_def split: list.split)
  show ?thesis using guard socket denied by metis
qed

section \<open>Concrete runs\<close>

text \<open>A library that knows two tokens: one the login signed, and one an operator signed with a role.\<close>

definition demo_jwt :: jwt_verify where
  "demo_jwt token secret options now =
     (if secret \<noteq> ''s3'' \<or> jo_algorithms options \<noteq> [''HS256''] then Inl Jwt_Error
      else if token = ''jwt:GA'' then
        Inr (JObj [(''sub'', JStr ''GA''), (''walletAddress'', JStr ''GA''), (''iat'', JNum (Fin 1)), (''exp'', JNum (Fin 900))])
      else if token = ''op'' then
        Inr (JObj [(''wallet'', JStr ''GB''), (''role'', JStr ''admin''), (''scope'', JStr ''positions:read''),
          (''exp'', JNum (Fin 900))])
      else Inl Jwt_Error)"

definition demo_jwt_env :: env where
  "demo_jwt_env = [''JWT_SECRET'' \<mapsto> ''s3'']"

definition demo_bearer :: "string \<Rightarrow> headers" where
  "demo_bearer t = [''authorization'' \<mapsto> HStr (''Bearer '' @ t)]"

definition demo_wallet_steps :: "wallet_step list" where
  "demo_wallet_steps = [Write_User 7 (Some (user_json ''GX'' [''admin''] [])),
     Guard_Step 7 (demo_bearer ''op'') (1000, 1000) ''u1'', Write_User 7 (Some (user_json ''GX'' [] []))]"

lemma demo_wallet_resolved:
  "fst (resolveWalletPrincipal (\<lambda>w. hd w = CHR ''G'') ''u2'' (demo_bearer ''op'') 7
     (Some \<lparr>wo_scopes = Some [''positions:read''], wo_roles = Some [''fee-collector'', ''admin'']\<rparr>)
     (serve demo_jwt demo_jwt_env (\<lambda>w. hd w = CHR ''G'') demo_wallet_steps)) =
   Inr \<lparr>wp_walletAddress = ''GB'', wp_roles = [''admin''], wp_scopes = [''positions:read''], wp_correlationId = ''u1''\<rparr>"
  by code_simp

theorem current_wallet_authentic_witness:
  "verified_on demo_jwt demo_jwt_env demo_wallet_steps 7
     \<lparr>wp_walletAddress = ''GB'', wp_roles = [''admin''], wp_scopes = [''positions:read''], wp_correlationId = ''u1''\<rparr>"
  using current_wallet_authentic [OF demo_wallet_resolved] by blast

lemma demo_jwt_library: "jwt_library_ok (demo_auth_env\<lparr>ae_jwt_sign := \<lambda>w. if w = ''GA'' then Inr ''jwt:GA'' else Inl ''no key''\<rparr>) demo_jwt"
  by (auto simp: jwt_library_ok_def demo_jwt_def login_claims_def split: if_splits)

lemma demo_login_run:
  "run (redis_do mem_exec)
     (verifyWallet (demo_auth_env\<lparr>ae_jwt_sign := \<lambda>w. if w = ''GA'' then Inr ''jwt:GA'' else Inl ''no key''\<rparr>) demo_dto ''c'')
     demo_auth_store = (Inr (Token ''jwt:GA''), [])"
  by code_simp

theorem login_token_denied_witness:
  "\<exists>e. jwt_canActivate demo_jwt demo_jwt_env ''u'' (demo_bearer ''jwt:GA'') (1000, 1000) 7 wallet_store_init =
     (Inl (Http e), wallet_store_init) \<and> he_status e = 401"
proof -
  obtain lg where "feed (verifyWallet (demo_auth_env\<lparr>ae_jwt_sign := \<lambda>w. if w = ''GA'' then Inr ''jwt:GA'' else Inl ''no key''\<rparr>)
      demo_dto ''c'') lg = Some (Ret (Inr (Token ''jwt:GA'')))"
    using run_feed [where exec = "redis_do mem_exec"] demo_login_run by (metis fst_conv)
  from login_token_denied [OF demo_jwt_library this, where headers = "demo_bearer ''jwt:GA''"]
  show ?thesis by (simp add: demo_bearer_def trim_def is_ws_def)
qed

end
