(* ===== verification/Ws_Auth.thy ===== *)
theory Ws_Auth
  imports Jwt_Laws
begin

text \<open>
  Authentication of the price WebSocket: \<^verbatim>\<open>apps/api/src/price/ws-auth-policy.ts\<close>. The policy is read from the
  environment; a handshake carries its token in the URL. URL parsing and the JWT library are parameters.

  The lemmas characterise who is let in: with a token only the wallet the token names, without one only under the
  mode \<^verbatim>\<open>optional\<close>, which on mainnet takes a second switch.
\<close>

section \<open>Policy\<close>

datatype ws_mode = Required | Optional

record ws_policy =
  wy_mode :: ws_mode
  wy_maxSubscriptions :: int
  wy_anonymousMaxSubscriptions :: int
  wy_downgradeReason :: "string option"

text \<open>\<^verbatim>\<open>parseInt\<close> returns whole numbers, which are kept as such.\<close>

definition positiveInt :: "string option \<Rightarrow> int \<Rightarrow> int" where
  "positiveInt raw fallback =
     (case parse_int10 (or_else raw []) of
        Fin x \<Rightarrow> if 0 < x then \<lfloor>x\<rfloor> else fallback
      | _ \<Rightarrow> fallback)"

definition resolveWsAuthPolicy :: "env \<Rightarrow> ws_policy" where
  "resolveWsAuthPolicy env =
     (let maxSubscriptions = positiveInt (env ''PRICE_WS_MAX_SUBSCRIPTIONS_PER_CLIENT'') 50;
          anonymousMaxSubscriptions = min (positiveInt (env ''WS_POOL_UPDATES_ANON_MAX_SUBSCRIPTIONS'') 10) maxSubscriptions;
          base = \<lparr>wy_mode = Required, wy_maxSubscriptions = maxSubscriptions,
            wy_anonymousMaxSubscriptions = anonymousMaxSubscriptions, wy_downgradeReason = None\<rparr>;
          raw = map lower_char (trim (or_else (env ''WS_POOL_UPDATES_AUTH_MODE'') ''required'')) in
      if raw \<noteq> ''required'' \<and> raw \<noteq> ''optional'' then base\<lparr>wy_downgradeReason := Some ''invalid_mode''\<rparr>
      else if raw = ''optional'' \<and> env ''STELLAR_NETWORK'' = Some ''mainnet'' \<and>
          env ''WS_POOL_UPDATES_ANON_MAINNET_ENABLED'' \<noteq> Some ''true'' then
        base\<lparr>wy_downgradeReason := Some ''mainnet_not_enabled''\<rparr>
      else base\<lparr>wy_mode := if raw = ''optional'' then Optional else Required\<rparr>)"

section \<open>Handshake\<close>

datatype ws_principal = Wallet string | Anonymous

datatype ws_auth_result = Ws_Ok ws_principal string | Ws_Fail string string string

text \<open>The first claim that is a non-empty string.\<close>

fun first_text :: "json option list \<Rightarrow> string option" where
  "first_text [] = None"
| "first_text (v # vs) = (case json_str v of Some s \<Rightarrow> Some s | None \<Rightarrow> first_text vs)"

definition walletFrom :: "json \<Rightarrow> string option" where
  "walletFrom payload = first_text (map (json_field payload) [''walletAddress'', ''wallet'', ''address'', ''sub''])"

definition verify_handshake :: "jwt_verify \<Rightarrow> env \<Rightarrow> string \<Rightarrow> string \<Rightarrow> int \<Rightarrow> ws_auth_result" where
  "verify_handshake verify env token cid now =
     (case env_text env ''JWT_SECRET'' of
        None \<Rightarrow> Ws_Fail ''WS_AUTH_INVALID'' ''Unauthorized: invalid token'' cid
      | Some secret \<Rightarrow> (case verify token secret (jwt_options_of env) now of
          Inl Token_Expired \<Rightarrow> Ws_Fail ''WS_AUTH_EXPIRED'' ''Unauthorized: token expired'' cid
        | Inl _ \<Rightarrow> Ws_Fail ''WS_AUTH_INVALID'' ''Unauthorized: invalid token'' cid
        | Inr payload \<Rightarrow> (case walletFrom payload of
            None \<Rightarrow> Ws_Fail ''WS_AUTH_INVALID'' ''Unauthorized: invalid token'' cid
          | Some w \<Rightarrow> Ws_Ok (Wallet w) cid)))"

text \<open>An upgrade request: its URL and headers. \<open>query_token\<close> parses the URL: \<open>None\<close> when that throws, else the parameter \<^verbatim>\<open>token\<close>.\<close>

record ws_request =
  wq_url :: "string option"
  wq_headers :: headers

definition authenticateWsHandshake ::
  "(string \<Rightarrow> string option option) \<Rightarrow> jwt_verify \<Rightarrow> string \<Rightarrow> ws_request \<Rightarrow> ws_policy \<Rightarrow> env \<Rightarrow> int \<Rightarrow> ws_auth_result" where
  "authenticateWsHandshake query_token verify random_uuid request policy env now =
     (let cid = resolveCorrelationId random_uuid (wq_headers request) in
      case query_token (or_else (wq_url request) []) of
        None \<Rightarrow> Ws_Fail ''WS_INVALID_REQUEST'' ''Malformed handshake URL'' cid
      | Some token \<Rightarrow>
          (if token = None \<or> token = Some [] then
             (if wy_mode policy = Optional then Ws_Ok Anonymous cid
              else Ws_Fail ''WS_AUTH_REQUIRED'' ''Unauthorized: missing token'' cid)
           else verify_handshake verify env (the token) cid now))"

section \<open>What a session may do\<close>

datatype ws_action = Subscribe | Unsubscribe | Swap_Note

definition ANONYMOUS_ACTIONS :: "ws_action list" where
  "ANONYMOUS_ACTIONS = [Subscribe, Unsubscribe]"

definition isActionAllowed :: "ws_principal \<Rightarrow> ws_action \<Rightarrow> bool" where
  "isActionAllowed who action = (who \<noteq> Anonymous \<or> action \<in> set ANONYMOUS_ACTIONS)"

definition subscriptionLimitFor :: "ws_principal \<Rightarrow> ws_policy \<Rightarrow> int" where
  "subscriptionLimitFor who policy =
     (if who \<noteq> Anonymous then wy_maxSubscriptions policy else wy_anonymousMaxSubscriptions policy)"

text \<open>Letters, digits, dot, underscore, colon and hyphen.\<close>

fun isValidPoolId :: "json option \<Rightarrow> string option" where
  "isValidPoolId (Some (JStr s)) = (if correlation_id_ok s then Some s else None)"
| "isValidPoolId _ = None"

definition WS_OUTCOMES :: "string list" where
  "WS_OUTCOMES = [''connected_wallet'', ''connected_anonymous'', ''rejected_auth_required'', ''rejected_auth_invalid'',
     ''rejected_auth_expired'', ''rejected_invalid_request'', ''forbidden_action'', ''subscription_limit'',
     ''oversized_frame'', ''malformed_frame'', ''invalid_action'']"

fun handshake_outcome :: "ws_auth_result \<Rightarrow> string" where
  "handshake_outcome (Ws_Ok (Wallet w) cid) = ''connected_wallet''"
| "handshake_outcome (Ws_Ok Anonymous cid) = ''connected_anonymous''"
| "handshake_outcome (Ws_Fail code msg cid) =
     (if code = ''WS_AUTH_REQUIRED'' then ''rejected_auth_required''
      else if code = ''WS_AUTH_INVALID'' then ''rejected_auth_invalid''
      else if code = ''WS_AUTH_EXPIRED'' then ''rejected_auth_expired''
      else if code = ''WS_INVALID_REQUEST'' then ''rejected_invalid_request''
      else ''rejected_auth_invalid'')"

definition recordHandshakeOutcome :: "ws_auth_result \<Rightarrow> counter \<Rightarrow> counter" where
  "recordHandshakeOutcome result m = counter_inc m (handshake_outcome result)"

section \<open>Laws\<close>

lemma anonymous_limit_le: "wy_anonymousMaxSubscriptions (resolveWsAuthPolicy env) \<le> wy_maxSubscriptions (resolveWsAuthPolicy env)"
  by (simp add: resolveWsAuthPolicy_def Let_def)

lemma subscription_limit_le: "subscriptionLimitFor p (resolveWsAuthPolicy env) \<le> wy_maxSubscriptions (resolveWsAuthPolicy env)"
  by (simp add: subscriptionLimitFor_def anonymous_limit_le)

text \<open>Operators asked for anonymous sessions, twice on mainnet.\<close>

definition anonymous_opted_in :: "env \<Rightarrow> bool" where
  "anonymous_opted_in env \<longleftrightarrow>
     (\<exists>mode. env ''WS_POOL_UPDATES_AUTH_MODE'' = Some mode \<and> map lower_char (trim mode) = ''optional'') \<and>
     (env ''STELLAR_NETWORK'' = Some ''mainnet'' \<longrightarrow> env ''WS_POOL_UPDATES_ANON_MAINNET_ENABLED'' = Some ''true'')"

lemma policy_optional_iff: "wy_mode (resolveWsAuthPolicy env) = Optional \<longleftrightarrow> anonymous_opted_in env"
proof (cases "env ''WS_POOL_UPDATES_AUTH_MODE''")
  case None
  then have "trim ''required'' = ''required''" by (simp add: trim_def is_ws_def)
  with None show ?thesis by (simp add: resolveWsAuthPolicy_def anonymous_opted_in_def or_else_def Let_def lower_char_def)
next
  case (Some mode)
  then show ?thesis by (simp add: resolveWsAuthPolicy_def anonymous_opted_in_def or_else_def Let_def)
qed

lemma first_text_Some: "first_text vs = Some s \<Longrightarrow> Some (JStr s) \<in> set vs \<and> s \<noteq> []"
  by (induction vs) (auto split: option.splits)

lemma verify_handshake_Ok:
  "verify_handshake verify env token cid now = Ws_Ok p cid' \<longleftrightarrow>
     cid' = cid \<and> (\<exists>secret payload w. env ''JWT_SECRET'' = Some secret \<and> secret \<noteq> [] \<and>
        verify token secret (jwt_options_of env) now = Inr payload \<and> walletFrom payload = Some w \<and> p = Wallet w)"
  by (auto simp: verify_handshake_def env_text_def split: option.splits sum.splits jwt_failure.splits)

end
