(* ===== verification/Price_Hub.thy ===== *)
theory Price_Hub
  imports Ws_Auth
begin

text \<open>
  Live prices: the WebSocket gateway (\<^verbatim>\<open>apps/api/src/price/price.gateway.ts\<close>) and the subscriptions it keeps in
  \<^verbatim>\<open>price.service.ts\<close>. Clients subscribe to pools; the process subscribes its Redis connection to the channels of the
  pools that have clients, and passes each message of a channel on to the clients of the pool it names.

  A client is a number; what a \<^verbatim>\<open>send\<close> to it does at a step is the argument \<open>net\<close>. Commands on the Redis connection,
  frames, closed sockets and cache writes are kept in the order they are issued. The process does not wait for a
  command and only logs a rejected one, so what it does next is the same; which commands took effect at the
  server is the argument \<open>took\<close> of \<open>channels_when\<close>. Log lines are left out, and with them the action \<^verbatim>\<open>swap\<close>: it asks the cache service for \<^verbatim>\<open>invalidate\<close>, which that service does not have,
  and the rejected promise is only logged.
\<close>

section \<open>State\<close>

datatype socket = Takes_Frames | Throws | Not_Open

datatype ws_frame = Error_Frame string string string "string option" | Subscribed string | Unsubscribed string | Price_Frame json

datatype redis_sub = Sub "string list" | Unsub string | Connection_Lost

record ws_session =
  se_who :: ws_principal
  se_correlationId :: string
  se_maxSubscriptions :: int

record hub =
  hb_subscriptions :: "(string, nat list) js_map"
  hb_clientPools :: "(nat, string list) js_map"
  hb_commands :: "redis_sub list"
  hb_sent :: "(nat \<times> ws_frame) list"
  hb_closed :: "(nat \<times> int) list"
  hb_sessions :: "nat \<Rightarrow> ws_session option"
  hb_cached :: "(string \<times> json) list"
  hb_outcomes :: counter

definition hub_init :: hub where
  "hub_init = \<lparr>hb_subscriptions = [], hb_clientPools = [], hb_commands = [], hb_sent = [], hb_closed = [],
     hb_sessions = (\<lambda>_. None), hb_cached = [], hb_outcomes = counter_new WS_OUTCOMES\<rparr>"

text \<open>A JavaScript \<^verbatim>\<open>Set\<close> in insertion order.\<close>

definition set_add :: "'a \<Rightarrow> 'a list \<Rightarrow> 'a list" where
  "set_add x xs = (if x \<in> set xs then xs else xs @ [x])"

section \<open>Subscriptions\<close>

definition price_channel :: "string \<Rightarrow> string" where
  "price_channel poolId = ''prices:'' @ poolId"

definition price_subscribe :: "nat \<Rightarrow> string \<Rightarrow> hub \<Rightarrow> hub" where
  "price_subscribe client poolId h =
     (let isNew = \<not> jm_has (hb_subscriptions h) poolId in
      h\<lparr>hb_subscriptions := jm_set (hb_subscriptions h) poolId
            (set_add client (or_else (jm_get (hb_subscriptions h) poolId) [])),
        hb_clientPools := jm_set (hb_clientPools h) client (set_add poolId (or_else (jm_get (hb_clientPools h) client) [])),
        hb_commands := hb_commands h @ (if isNew then [Sub [price_channel poolId]] else [])\<rparr>)"

definition price_unsubscribe :: "nat \<Rightarrow> string \<Rightarrow> hub \<Rightarrow> hub" where
  "price_unsubscribe client poolId h =
     (let h1 = (case jm_get (hb_subscriptions h) poolId of
            None \<Rightarrow> h
          | Some pool \<Rightarrow>
              (let rest = removeAll client pool in
               if rest = [] then h\<lparr>hb_subscriptions := jm_delete (hb_subscriptions h) poolId,
                   hb_commands := hb_commands h @ [Unsub (price_channel poolId)]\<rparr>
               else h\<lparr>hb_subscriptions := jm_set (hb_subscriptions h) poolId rest\<rparr>))
      in case jm_get (hb_clientPools h1) client of
           None \<Rightarrow> h1
         | Some pools \<Rightarrow> h1\<lparr>hb_clientPools := jm_set (hb_clientPools h1) client (removeAll poolId pools)\<rparr>)"

definition getSubscriptionCount :: "nat \<Rightarrow> hub \<Rightarrow> int" where
  "getSubscriptionCount client h = int (length (or_else (jm_get (hb_clientPools h) client) []))"

text \<open>The loop over the client's set deletes only the element it is at, so it visits every element there was.\<close>

definition removeClient :: "nat \<Rightarrow> hub \<Rightarrow> hub" where
  "removeClient client h =
     (case jm_get (hb_clientPools h) client of
        None \<Rightarrow> h
      | Some pools \<Rightarrow>
          (let h1 = fold (price_unsubscribe client) pools h
           in h1\<lparr>hb_clientPools := jm_delete (hb_clientPools h1) client\<rparr>))"

text \<open>Sending, in the gateway and in a broadcast: only to an open socket; a client that cannot be written to is dropped.\<close>

definition hub_send :: "(nat \<Rightarrow> socket) \<Rightarrow> nat \<Rightarrow> ws_frame \<Rightarrow> hub \<Rightarrow> hub" where
  "hub_send net client frame h =
     (case net client of
        Not_Open \<Rightarrow> h
      | Takes_Frames \<Rightarrow> h\<lparr>hb_sent := hb_sent h @ [(client, frame)]\<rparr>
      | Throws \<Rightarrow> removeClient client h)"

definition broadcastPrice :: "(nat \<Rightarrow> socket) \<Rightarrow> json \<Rightarrow> hub \<Rightarrow> hub" where
  "broadcastPrice net event h =
     (case json_field event ''poolId'' of
        Some (JStr p) \<Rightarrow> fold (\<lambda>client. hub_send net client (Price_Frame event)) (or_else (jm_get (hb_subscriptions h) p) []) h
      | _ \<Rightarrow> h)"

text \<open>A message of the Redis connection; \<open>json_parse\<close> is \<^verbatim>\<open>JSON.parse\<close>. Reading a field of \<^verbatim>\<open>null\<close> throws.\<close>

definition price_message :: "(string \<Rightarrow> json option) \<Rightarrow> (nat \<Rightarrow> socket) \<Rightarrow> string \<Rightarrow> string \<Rightarrow> hub \<Rightarrow> hub" where
  "price_message json_parse net channel message h =
     (let poolId = (if starts_with ''prices:'' channel then drop (length ''prices:'') channel else channel) in
      case json_parse message of
        None \<Rightarrow> h
      | Some JNull \<Rightarrow> h
      | Some event \<Rightarrow>
          (let h1 = broadcastPrice net event h
           in h1\<lparr>hb_cached := hb_cached h1 @ [(''price:spot:'' @ poolId, event)]\<rparr>))"

definition price_ready :: "hub \<Rightarrow> hub" where
  "price_ready h =
     (let channels = map (price_channel \<circ> fst) (hb_subscriptions h) in
      if channels \<noteq> [] then h\<lparr>hb_commands := hb_commands h @ [Sub channels]\<rparr> else h)"

section \<open>Gateway\<close>

definition WS_CLOSE_UNAUTHORIZED :: int where
  "WS_CLOSE_UNAUTHORIZED = 4401"

definition MAX_MESSAGE_BYTES :: nat where
  "MAX_MESSAGE_BYTES = 4096"

definition count_outcome :: "string \<Rightarrow> hub \<Rightarrow> hub" where
  "count_outcome label h = h\<lparr>hb_outcomes := counter_inc (hb_outcomes h) label\<rparr>"

record ws_env =
  we_env :: env
  we_query_token :: "string \<Rightarrow> string option option"
  we_verify :: jwt_verify
  we_json_parse :: "string \<Rightarrow> json option"

definition onClientConnection :: "ws_env \<Rightarrow> (nat \<Rightarrow> socket) \<Rightarrow> nat \<Rightarrow> ws_request \<Rightarrow> string \<Rightarrow> int \<Rightarrow> ws_policy \<Rightarrow> hub \<Rightarrow> hub" where
  "onClientConnection we net client request random_uuid now policy h =
     (let auth = authenticateWsHandshake (we_query_token we) (we_verify we) random_uuid request policy (we_env we) now;
          h1 = h\<lparr>hb_outcomes := recordHandshakeOutcome auth (hb_outcomes h)\<rparr> in
      case auth of
        Ws_Fail code message cid \<Rightarrow>
          (let h2 = hub_send net client (Error_Frame code message cid None) h1
           in h2\<lparr>hb_closed := hb_closed h2 @ [(client, WS_CLOSE_UNAUTHORIZED)]\<rparr>)
      | Ws_Ok who cid \<Rightarrow> h1\<lparr>hb_sessions := (hb_sessions h1)(client \<mapsto>
          \<lparr>se_who = who, se_correlationId = cid, se_maxSubscriptions = subscriptionLimitFor who policy\<rparr>)\<rparr>)"

fun ws_action_of :: "json option \<Rightarrow> ws_action option" where
  "ws_action_of (Some (JStr s)) =
     (if s = ''subscribe'' then Some Subscribe else if s = ''unsubscribe'' then Some Unsubscribe
      else if s = ''swap'' then Some Swap_Note else None)"
| "ws_action_of _ = None"

fun action_name :: "ws_action \<Rightarrow> string" where
  "action_name Subscribe = ''subscribe''"
| "action_name Unsubscribe = ''unsubscribe''"
| "action_name Swap_Note = ''swap''"

fun json_is_object :: "json \<Rightarrow> bool" where
  "json_is_object (JObj fs) = True"
| "json_is_object (JArr vs) = True"
| "json_is_object _ = False"

definition ws_perform :: "(nat \<Rightarrow> socket) \<Rightarrow> nat \<Rightarrow> ws_session \<Rightarrow> ws_action \<Rightarrow> string \<Rightarrow> hub \<Rightarrow> hub" where
  "ws_perform net client se action poolId h =
     (case action of
        Subscribe \<Rightarrow>
          (if se_maxSubscriptions se \<le> getSubscriptionCount client h then
             hub_send net client (Error_Frame ''WS_SUBSCRIPTION_LIMIT''
               (''Subscription limit reached ('' @ show_int (se_maxSubscriptions se) @ '' max)'') (se_correlationId se) (Some poolId))
               (count_outcome ''subscription_limit'' h)
           else hub_send net client (Subscribed poolId) (price_subscribe client poolId h))
      | Unsubscribe \<Rightarrow> hub_send net client (Unsubscribed poolId) (price_unsubscribe client poolId h)
      | Swap_Note \<Rightarrow> h)"

definition handleMessage :: "ws_env \<Rightarrow> (nat \<Rightarrow> socket) \<Rightarrow> nat \<Rightarrow> string \<Rightarrow> ws_session \<Rightarrow> hub \<Rightarrow> hub" where
  "handleMessage we net client raw se h =
     (let reject = (\<lambda>code message poolId. hub_send net client (Error_Frame code message (se_correlationId se) poolId)) in
      if MAX_MESSAGE_BYTES < length raw then count_outcome ''oversized_frame'' h
      else (case we_json_parse we raw of
          None \<Rightarrow> count_outcome ''malformed_frame'' h
        | Some msg \<Rightarrow>
            (if \<not> json_is_object msg then count_outcome ''malformed_frame'' h
             else (case ws_action_of (json_field msg ''action'') of
                 None \<Rightarrow> reject ''WS_INVALID_REQUEST'' ''Invalid action'' None (count_outcome ''invalid_action'' h)
               | Some action \<Rightarrow> (case isValidPoolId (json_field msg ''poolId'') of
                   None \<Rightarrow> reject ''WS_INVALID_REQUEST'' ''Invalid poolId'' None h
                 | Some poolId \<Rightarrow>
                     (if \<not> isActionAllowed (se_who se) action then
                        reject ''WS_FORBIDDEN'' (''Action '' @ [CHR 0x22] @ action_name action @ [CHR 0x22] @
                          '' requires an authenticated wallet'') (Some poolId) (count_outcome ''forbidden_action'' h)
                      else ws_perform net client se action poolId h))))))"

section \<open>The server's side\<close>

text \<open>
  The channels the connection is subscribed to after its commands. \<open>took i c\<close> says whether the \<open>i\<close>-th command took
  effect for channel \<open>c\<close>: a rejected command may have none, or an effect on some of its channels.
\<close>

fun server_effect :: "(nat \<Rightarrow> string \<Rightarrow> bool) \<Rightarrow> nat \<times> redis_sub \<Rightarrow> string set \<Rightarrow> string set" where
  "server_effect took (i, Sub cs) S = S \<union> {c \<in> set cs. took i c}"
| "server_effect took (i, Unsub c) S = (if took i c then S - {c} else S)"
| "server_effect took (i, Connection_Lost) S = {}"

definition channels_when :: "(nat \<Rightarrow> string \<Rightarrow> bool) \<Rightarrow> redis_sub list \<Rightarrow> string set" where
  "channels_when took cmds = fold (server_effect took) (enumerate 0 cmds) {}"

fun touches :: "string \<Rightarrow> redis_sub \<Rightarrow> bool" where
  "touches c (Sub cs) = (c \<in> set cs)"
| "touches c (Unsub d) = (c = d)"
| "touches c Connection_Lost = True"

text \<open>The last command that concerns channel \<open>c\<close>, if there is one, took effect.\<close>

definition last_took :: "(nat \<Rightarrow> string \<Rightarrow> bool) \<Rightarrow> redis_sub list \<Rightarrow> string \<Rightarrow> bool" where
  "last_took took cmds c =
     list_all (\<lambda>i. touches c (cmds ! i) \<and> list_all (\<lambda>j. \<not> touches c (cmds ! j)) [Suc i..<length cmds] \<and>
       cmds ! i \<noteq> Connection_Lost \<longrightarrow> took i c) [0..<length cmds]"

section \<open>Steps of the process\<close>

text \<open>A socket connects, sends a frame, goes away; Redis delivers a message, or its connection is lost and restored
  (the channels are then gone, and the handler of \<^verbatim>\<open>ready\<close> subscribes again). Frames of a socket reach the gateway only
  after an accepted handshake. The policy is read once, at start.\<close>

datatype hub_step =
    Connect nat ws_request string int
  | Frame nat string
  | Gone nat
  | Redis_Message string string
  | Redis_Reconnect

fun hub_do :: "ws_env \<Rightarrow> (nat \<Rightarrow> socket) \<Rightarrow> hub_step \<Rightarrow> hub \<Rightarrow> hub" where
  "hub_do we net (Connect client request uuid now) h =
     onClientConnection we net client request uuid now (resolveWsAuthPolicy (we_env we)) h"
| "hub_do we net (Frame client raw) h =
     (case hb_sessions h client of None \<Rightarrow> h | Some se \<Rightarrow> handleMessage we net client raw se h)"
| "hub_do we net (Gone client) h =
     (let h1 = removeClient client (removeClient client h) in h1\<lparr>hb_sessions := (hb_sessions h1)(client := None)\<rparr>)"
| "hub_do we net (Redis_Message channel message) h = price_message (we_json_parse we) net channel message h"
| "hub_do we net Redis_Reconnect h = price_ready (h\<lparr>hb_commands := hb_commands h @ [Connection_Lost]\<rparr>)"

text \<open>A socket that connects is a new object.\<close>

fun new_socket :: "hub_step \<Rightarrow> hub \<Rightarrow> bool" where
  "new_socket (Connect client request uuid now) h = (hb_sessions h client = None \<and> jm_get (hb_clientPools h) client = None)"
| "new_socket _ h = True"

inductive hub_reach :: "ws_env \<Rightarrow> hub \<Rightarrow> bool" for we where
  reach_start: "hub_reach we hub_init"
| reach_step: "hub_reach we h \<Longrightarrow> new_socket st h \<Longrightarrow> hub_reach we (hub_do we net st h)"

end
