(* ===== verification/Price_Laws.thy ===== *)
theory Price_Laws
  imports Price_Hub
begin

text \<open>
  What the price hub keeps true: the two indexes of the subscriptions say the same, no pool is kept without
  clients, the commands on the Redis connection ask for the channels of exactly the pools kept, and no client
  holds more pools than its session allows. A price reaches each open client of its pool once and nobody else; and a
  session exists only for who the handshake let in.
\<close>

section \<open>The index\<close>

definition clients_of :: "hub \<Rightarrow> string \<Rightarrow> nat list" where
  "clients_of h p = or_else (jm_get (hb_subscriptions h) p) []"

definition pools_of :: "hub \<Rightarrow> nat \<Rightarrow> string list" where
  "pools_of h c = or_else (jm_get (hb_clientPools h) c) []"

text \<open>The channels a connection would be subscribed to if all its commands took effect.\<close>

fun channel_effect :: "redis_sub \<Rightarrow> string set \<Rightarrow> string set" where
  "channel_effect (Sub cs) S = S \<union> set cs"
| "channel_effect (Unsub c) S = S - {c}"
| "channel_effect Connection_Lost S = {}"

definition channels_after :: "redis_sub list \<Rightarrow> string set" where
  "channels_after cmds = fold channel_effect cmds {}"

lemma channels_after_append [simp]:
  "channels_after [] = {}"
  "channels_after (cmds @ [c]) = channel_effect c (channels_after cmds)"
  by (simp_all add: channels_after_def)

text \<open>A channel whose last command took effect is in the state the commands ask for.\<close>

lemma channels_when_snoc: "channels_when took (cmds @ [x]) = server_effect took (length cmds, x) (channels_when took cmds)"
  by (simp add: channels_when_def enumerate_append_eq)

lemma last_took_snoc:
  "last_took took (cmds @ [x]) c =
     (if touches c x then x \<noteq> Connection_Lost \<longrightarrow> took (length cmds) c else last_took took cmds c)"
proof -
  have later: "list_all (\<lambda>j. \<not> touches c ((cmds @ [x]) ! j)) [Suc i..<length (cmds @ [x])] \<longleftrightarrow>
      list_all (\<lambda>j. \<not> touches c (cmds ! j)) [Suc i..<length cmds] \<and> \<not> touches c x" if "i < length cmds" for i
    using that by (auto simp: list_all_iff nth_append less_Suc_eq)
  have split: "list_all P [0..<length (cmds @ [x])] \<longleftrightarrow> list_all P [0..<length cmds] \<and> P (length cmds)" for P
    by (auto simp: list_all_iff less_Suc_eq)
  show ?thesis
    unfolding last_took_def split
    by (auto simp: list_all_iff later [unfolded list_all_iff, simplified] nth_append)
qed

lemma channels_when_last:
  "last_took took cmds c \<Longrightarrow> c \<in> channels_when took cmds \<longleftrightarrow> c \<in> channels_after cmds"
proof (induction cmds rule: rev_induct)
  case Nil
  then show ?case by (simp add: channels_when_def)
next
  case (snoc x cmds)
  then show ?case
    by (cases x) (auto simp: last_took_snoc channels_when_snoc split: if_splits)
qed

definition hub_index :: "hub \<Rightarrow> bool" where
  "hub_index h \<longleftrightarrow>
     (\<forall>p cs. jm_get (hb_subscriptions h) p = Some cs \<longrightarrow> cs \<noteq> [] \<and> distinct cs \<and> correlation_id_ok p) \<and>
     (\<forall>c ps. jm_get (hb_clientPools h) c = Some ps \<longrightarrow> distinct ps) \<and>
     (\<forall>c p. c \<in> set (clients_of h p) \<longleftrightarrow> p \<in> set (pools_of h c)) \<and>
     channels_after (hb_commands h) = price_channel ` {p. jm_get (hb_subscriptions h) p \<noteq> None}"

lemma set_add_simps [simp]: "set (set_add x xs) = insert x (set xs)" "set_add x xs \<noteq> []" "distinct (set_add x xs) = distinct xs"
  by (auto simp: set_add_def)

lemma length_set_add: "length (set_add x xs) \<le> Suc (length xs)"
  by (simp add: set_add_def)

lemma price_channel_eq [simp]: "price_channel p = price_channel q \<longleftrightarrow> p = q"
  by (simp add: price_channel_def)

text \<open>Fields the index does not speak of.\<close>

lemma hub_index_frame [simp]:
  "hub_index (h\<lparr>hb_sent := x\<rparr>) = hub_index h" "hub_index (h\<lparr>hb_closed := y\<rparr>) = hub_index h"
  "hub_index (h\<lparr>hb_sessions := z\<rparr>) = hub_index h" "hub_index (h\<lparr>hb_cached := u\<rparr>) = hub_index h"
  "hub_index (h\<lparr>hb_outcomes := v\<rparr>) = hub_index h"
  by (simp_all add: hub_index_def clients_of_def pools_of_def)

lemma hub_index_init: "hub_index hub_init"
  by (simp add: hub_index_def hub_init_def clients_of_def pools_of_def)

section \<open>Operations of the index\<close>

lemma clients_of_subscribe: "clients_of (price_subscribe c p h) q = (if q = p then set_add c (clients_of h p) else clients_of h q)"
  by (simp add: price_subscribe_def clients_of_def Let_def)

lemma pools_of_subscribe: "pools_of (price_subscribe c p h) d = (if d = c then set_add p (pools_of h c) else pools_of h d)"
  by (simp add: price_subscribe_def pools_of_def Let_def)

lemma hub_index_subscribe:
  assumes "hub_index h" and "correlation_id_ok p"
  shows "hub_index (price_subscribe c p h)"
proof -
  let ?h = "price_subscribe c p h"
  have subs: "jm_get (hb_subscriptions ?h) q = (if q = p then Some (set_add c (clients_of h p)) else jm_get (hb_subscriptions h) q)" for q
    by (simp add: price_subscribe_def clients_of_def Let_def)
  have pools: "jm_get (hb_clientPools ?h) d = (if d = c then Some (set_add p (pools_of h c)) else jm_get (hb_clientPools h) d)" for d
    by (simp add: price_subscribe_def pools_of_def Let_def)
  have d1: "distinct (clients_of h p)" and d2: "distinct (pools_of h c)"
    using assms(1) by (auto simp: hub_index_def clients_of_def pools_of_def or_else_def split: option.split)
  have ch: "channels_after (hb_commands ?h) = insert (price_channel p) (channels_after (hb_commands h))"
    using assms(1) by (auto simp: price_subscribe_def hub_index_def jm_has_get Let_def)
  show ?thesis unfolding hub_index_def
  proof (intro conjI allI impI)
    fix q cs assume "jm_get (hb_subscriptions ?h) q = Some cs"
    then show "cs \<noteq> []" "distinct cs" "correlation_id_ok q"
      using assms d1 unfolding subs hub_index_def by (auto split: if_splits)
  next
    fix d ps assume "jm_get (hb_clientPools ?h) d = Some ps"
    then show "distinct ps" using assms d2 unfolding pools hub_index_def by (auto split: if_splits)
  next
    fix d q
    have "d \<in> set (clients_of h q) \<longleftrightarrow> q \<in> set (pools_of h d)" using assms(1) by (simp add: hub_index_def)
    then show "d \<in> set (clients_of ?h q) \<longleftrightarrow> q \<in> set (pools_of ?h d)"
      by (auto simp: clients_of_subscribe pools_of_subscribe)
  next
    have "{q. jm_get (hb_subscriptions ?h) q \<noteq> None} = insert p {q. jm_get (hb_subscriptions h) q \<noteq> None}"
      unfolding subs by auto
    then show "channels_after (hb_commands ?h) = price_channel ` {q. jm_get (hb_subscriptions ?h) q \<noteq> None}"
      using ch assms(1) by (simp add: hub_index_def)
  qed
qed

lemma get_unsubscribe:
  "jm_get (hb_subscriptions (price_unsubscribe c p h)) q =
     (if q = p then (if removeAll c (clients_of h p) = [] then None else Some (removeAll c (clients_of h p)))
      else jm_get (hb_subscriptions h) q)"
  by (auto simp: price_unsubscribe_def clients_of_def Let_def split: option.split)

lemma get_pools_unsubscribe:
  "jm_get (hb_clientPools (price_unsubscribe c p h)) d =
     (if d = c then map_option (removeAll p) (jm_get (hb_clientPools h) d) else jm_get (hb_clientPools h) d)"
  by (auto simp: price_unsubscribe_def Let_def split: option.split)

lemma clients_of_unsubscribe:
  "clients_of (price_unsubscribe c p h) q = (if q = p then removeAll c (clients_of h p) else clients_of h q)"
  by (simp add: clients_of_def get_unsubscribe)

lemma pools_of_unsubscribe:
  "pools_of (price_unsubscribe c p h) d = (if d = c then removeAll p (pools_of h c) else pools_of h d)"
  by (cases "jm_get (hb_clientPools h) c") (simp_all add: pools_of_def get_pools_unsubscribe)

lemma channels_unsubscribe:
  "channels_after (hb_commands (price_unsubscribe c p h)) =
     (if jm_get (hb_subscriptions h) p \<noteq> None \<and> removeAll c (clients_of h p) = []
      then channels_after (hb_commands h) - {price_channel p} else channels_after (hb_commands h))"
  by (auto simp: price_unsubscribe_def clients_of_def Let_def split: option.split)

lemma hub_index_unsubscribe:
  assumes "hub_index h"
  shows "hub_index (price_unsubscribe c p h)"
proof -
  let ?h = "price_unsubscribe c p h" and ?keys = "\<lambda>h. {q. jm_get (hb_subscriptions h) q \<noteq> None}"
  have d1: "distinct (clients_of h p)"
    using assms by (auto simp: hub_index_def clients_of_def or_else_def split: option.split)
  show ?thesis unfolding hub_index_def
  proof (intro conjI allI impI)
    fix q cs assume q: "jm_get (hb_subscriptions ?h) q = Some cs"
    then show "cs \<noteq> []" "distinct cs"
      using assms d1 unfolding get_unsubscribe hub_index_def by (auto split: if_splits simp: distinct_removeAll)
    have "jm_get (hb_subscriptions h) q \<noteq> None"
      using q unfolding get_unsubscribe by (auto split: if_splits simp: clients_of_def or_else_def split: option.splits)
    then show "correlation_id_ok q" using assms by (auto simp: hub_index_def)
  next
    fix d ps assume "jm_get (hb_clientPools ?h) d = Some ps"
    then show "distinct ps" using assms unfolding get_pools_unsubscribe hub_index_def
      by (auto split: if_splits simp: distinct_removeAll)
  next
    fix d q
    have "d \<in> set (clients_of h q) \<longleftrightarrow> q \<in> set (pools_of h d)" using assms by (simp add: hub_index_def)
    then show "d \<in> set (clients_of ?h q) \<longleftrightarrow> q \<in> set (pools_of ?h d)"
      by (auto simp: clients_of_unsubscribe pools_of_unsubscribe)
  next
    have none: "clients_of h p = []" if "jm_get (hb_subscriptions h) p = None" using that by (simp add: clients_of_def)
    have "?keys ?h = (if removeAll c (clients_of h p) = [] then ?keys h - {p} else ?keys h)"
      using none by (auto simp: get_unsubscribe)
    moreover have "channels_after (hb_commands h) = price_channel ` ?keys h" using assms by (simp add: hub_index_def)
    moreover have "price_channel ` (K - {p}) = price_channel ` K - {price_channel p}" for K by auto
    ultimately show "channels_after (hb_commands ?h) = price_channel ` ?keys ?h"
      using none by (cases "jm_get (hb_subscriptions h) p") (auto simp: channels_unsubscribe)
  qed
qed

section \<open>Dropping a client\<close>

lemma fold_unsubscribe:
  assumes "hub_index h"
  shows "hub_index (fold (price_unsubscribe c) ps h)"
    and "clients_of (fold (price_unsubscribe c) ps h) q = (if q \<in> set ps then removeAll c (clients_of h q) else clients_of h q)"
    and "d \<noteq> c \<Longrightarrow> jm_get (hb_clientPools (fold (price_unsubscribe c) ps h)) d = jm_get (hb_clientPools h) d"
    and "pools_of (fold (price_unsubscribe c) ps h) c = filter (\<lambda>q. q \<notin> set ps) (pools_of h c)"
  using assms
proof (induction ps arbitrary: h)
  case (Cons p ps)
  note u = hub_index_unsubscribe [where c = c and p = p]
  { case 1 show ?case using Cons.IH(1) [OF u [OF 1]] by simp }
  { case 2 show ?case using Cons.IH(2) [OF u [OF 2]] by (auto simp: clients_of_unsubscribe) }
  { case 3 show ?case using Cons.IH(3) [OF 3(1) u [OF 3(2)]] 3(1) by (simp add: get_pools_unsubscribe) }
  { case 4 show ?case using Cons.IH(4) [OF u [OF 4]]
      by (auto simp: pools_of_unsubscribe removeAll_filter_not_eq filter_filter conj_commute intro: filter_cong) }
qed simp_all

lemma removeClient_index:
  assumes "hub_index h"
  shows "hub_index (removeClient c h)"
    and "clients_of (removeClient c h) q = removeAll c (clients_of h q)"
    and "jm_get (hb_clientPools (removeClient c h)) d = (if d = c then None else jm_get (hb_clientPools h) d)"
proof -
  have sym: "d \<in> set (clients_of h p) \<longleftrightarrow> p \<in> set (pools_of h d)" for d p using assms by (simp add: hub_index_def)
  have "hub_index (removeClient c h) \<and> clients_of (removeClient c h) q = removeAll c (clients_of h q) \<and>
    jm_get (hb_clientPools (removeClient c h)) d = (if d = c then None else jm_get (hb_clientPools h) d)"
  proof (cases "jm_get (hb_clientPools h) c")
    case None
    then have "c \<notin> set (clients_of h p)" for p unfolding sym by (simp add: pools_of_def)
    then show ?thesis using assms None by (simp add: removeClient_def)
  next
    case (Some pools)
    let ?f = "fold (price_unsubscribe c) pools h"
    have ps: "pools_of h c = pools" using Some by (simp add: pools_of_def)
    have r: "removeClient c h = ?f\<lparr>hb_clientPools := jm_delete (hb_clientPools ?f) c\<rparr>"
      using Some by (simp add: removeClient_def Let_def)
    note f = fold_unsubscribe [OF assms, where c = c and ps = pools]
    have same: "pools_of (removeClient c h) d = pools_of ?f d" "clients_of (removeClient c h) p = clients_of ?f p" for d p
      using f(4) ps unfolding r by (auto simp: pools_of_def clients_of_def)
    have index: "hub_index (removeClient c h)"
      using f(1) same unfolding hub_index_def r by (auto split: if_splits)
    have "clients_of (removeClient c h) q = removeAll c (clients_of h q)"
    proof (cases "q \<in> set pools")
      case False
      then have "c \<notin> set (clients_of h q)" unfolding sym ps .
      then show ?thesis using False by (simp add: same f(2))
    qed (simp add: same f(2))
    moreover have "jm_get (hb_clientPools (removeClient c h)) d = (if d = c then None else jm_get (hb_clientPools h) d)"
      using f(3) unfolding r by simp
    ultimately show ?thesis using index by blast
  qed
  then show "hub_index (removeClient c h)" and "clients_of (removeClient c h) q = removeAll c (clients_of h q)"
    and "jm_get (hb_clientPools (removeClient c h)) d = (if d = c then None else jm_get (hb_clientPools h) d)"
    by blast+
qed

lemma unsubscribe_frame [simp]:
  "hb_sent (price_unsubscribe c p h) = hb_sent h" "hb_sessions (price_unsubscribe c p h) = hb_sessions h"
  by (simp_all add: price_unsubscribe_def Let_def split: option.split)

lemma fold_unsubscribe_frame [simp]:
  "hb_sent (fold (price_unsubscribe c) ps h) = hb_sent h" "hb_sessions (fold (price_unsubscribe c) ps h) = hb_sessions h"
  by (induction ps arbitrary: h) simp_all

lemma removeClient_frame [simp]: "hb_sent (removeClient c h) = hb_sent h" "hb_sessions (removeClient c h) = hb_sessions h"
  by (simp_all add: removeClient_def Let_def split: option.split)

lemma subscribe_frame [simp]: "hb_sessions (price_subscribe c p h) = hb_sessions h"
  by (simp add: price_subscribe_def Let_def)

section \<open>Sending\<close>

lemma hub_send_sessions [simp]: "hb_sessions (hub_send net c f h) = hb_sessions h"
  by (simp add: hub_send_def split: socket.split)

lemma hub_send_sent: "hb_sent (hub_send net c f h) = hb_sent h @ (if net c = Takes_Frames then [(c, f)] else [])"
  by (simp add: hub_send_def split: socket.split)

lemma hub_send_index:
  assumes "hub_index h"
  shows "hub_index (hub_send net c f h)"
    and "clients_of (hub_send net c f h) q = (if net c = Throws then removeAll c (clients_of h q) else clients_of h q)"
    and "jm_get (hb_clientPools (hub_send net c f h)) d =
      (if d = c \<and> net c = Throws then None else jm_get (hb_clientPools h) d)"
  using assms removeClient_index [OF assms] by (simp_all add: hub_send_def clients_of_def split: socket.split)

lemma fold_send:
  assumes "hub_index h"
  shows "hub_index (fold (\<lambda>c. hub_send net c f) cs h)"
    and "hb_sessions (fold (\<lambda>c. hub_send net c f) cs h) = hb_sessions h"
    and "hb_sent (fold (\<lambda>c. hub_send net c f) cs h) = hb_sent h @ map (\<lambda>c. (c, f)) (filter (\<lambda>c. net c = Takes_Frames) cs)"
    and "clients_of (fold (\<lambda>c. hub_send net c f) cs h) q = filter (\<lambda>d. \<not> (d \<in> set cs \<and> net d = Throws)) (clients_of h q)"
    and "jm_get (hb_clientPools (fold (\<lambda>c. hub_send net c f) cs h)) d =
      (if d \<in> set cs \<and> net d = Throws then None else jm_get (hb_clientPools h) d)"
  using assms
proof (induction cs arbitrary: h)
  case (Cons c cs)
  note s = hub_send_index [where net = net and c = c and f = f]
  { case 1 show ?case using Cons.IH(1) [OF s(1) [OF 1]] by simp }
  { case 2 show ?case using Cons.IH(2) [OF s(1) [OF 2]] by simp }
  { case 3 show ?case using Cons.IH(3) [OF s(1) [OF 3]] by (simp add: hub_send_sent) }
  { case 4 show ?case using Cons.IH(4) [OF s(1) [OF 4]]
      by (auto simp: s(2) [OF 4] removeAll_filter_not_eq filter_filter intro: filter_cong) }
  { case 5 show ?case using Cons.IH(5) [OF s(1) [OF 5]] by (auto simp: s(3) [OF 5]) }
qed simp_all

lemma broadcast_sends:
  assumes "json_field event ''poolId'' = Some (JStr p)"
  shows "broadcastPrice net event h = fold (\<lambda>c. hub_send net c (Price_Frame event)) (clients_of h p) h"
  using assms by (simp add: broadcastPrice_def clients_of_def)

end
