(* ===== verification/Price_Props.thy ===== *)
theory Price_Props
  imports Price_Laws
begin

text \<open>The reachable states of the price hub, and the properties of live prices over them.\<close>

section \<open>Invariant\<close>

text \<open>Who a session is for: a wallet whose token the library verified, or nobody where operators opted in.\<close>

definition session_admitted :: "ws_env \<Rightarrow> ws_session \<Rightarrow> bool" where
  "session_admitted we se \<longleftrightarrow>
     se_maxSubscriptions se = subscriptionLimitFor (se_who se) (resolveWsAuthPolicy (we_env we)) \<and>
     (case se_who se of
        Anonymous \<Rightarrow> anonymous_opted_in (we_env we)
      | Wallet w \<Rightarrow> \<exists>token secret now payload. token \<noteq> [] \<and> we_env we ''JWT_SECRET'' = Some secret \<and> secret \<noteq> [] \<and>
          we_verify we token secret (jwt_options_of (we_env we)) now = Inr payload \<and> walletFrom payload = Some w)"

definition client_ok :: "ws_env \<Rightarrow> hub \<Rightarrow> nat \<Rightarrow> bool" where
  "client_ok we h c \<longleftrightarrow>
     (case hb_sessions h c of
        None \<Rightarrow> jm_get (hb_clientPools h) c = None
      | Some se \<Rightarrow> session_admitted we se \<and> int (length (pools_of h c)) \<le> max 0 (se_maxSubscriptions se))"

definition hub_ok :: "ws_env \<Rightarrow> hub \<Rightarrow> bool" where
  "hub_ok we h \<longleftrightarrow> hub_index h \<and> (\<forall>c. client_ok we h c)"

lemma client_ok_cong:
  "hb_sessions h' d = hb_sessions h d \<Longrightarrow> jm_get (hb_clientPools h') d = jm_get (hb_clientPools h) d \<Longrightarrow>
   client_ok we h' d = client_ok we h d"
  by (simp add: client_ok_def pools_of_def split: option.split)

lemma hub_ok_frame [simp]:
  "hub_ok we (h\<lparr>hb_sent := x\<rparr>) = hub_ok we h" "hub_ok we (h\<lparr>hb_closed := y\<rparr>) = hub_ok we h"
  "hub_ok we (h\<lparr>hb_cached := u\<rparr>) = hub_ok we h" "hub_ok we (h\<lparr>hb_outcomes := v\<rparr>) = hub_ok we h"
  by (simp_all add: hub_ok_def client_ok_def pools_of_def cong: option.case_cong)

lemma hub_ok_count [simp]: "hub_ok we (count_outcome l h) = hub_ok we h"
  by (simp add: count_outcome_def)

text \<open>Operations that keep the sessions and lose pools only.\<close>

lemma hub_ok_shrinks:
  assumes "hub_ok we h" and "hub_index h'" and "hb_sessions h' = hb_sessions h"
    and "\<And>d. jm_get (hb_clientPools h') d = jm_get (hb_clientPools h) d \<or> jm_get (hb_clientPools h') d = None"
  shows "hub_ok we h'"
proof -
  have "client_ok we h' d" for d
  proof -
    have "client_ok we h d" using assms(1) by (simp add: hub_ok_def)
    then show ?thesis using assms(3) assms(4) [of d]
      by (auto simp: client_ok_def pools_of_def split: option.splits)
  qed
  then show ?thesis using assms(2) by (simp add: hub_ok_def)
qed

lemma hub_ok_send: "hub_ok we h \<Longrightarrow> hub_ok we (hub_send net c f h)"
  by (rule hub_ok_shrinks) (auto simp: hub_ok_def hub_send_index)

lemma hub_ok_remove: "hub_ok we h \<Longrightarrow> hub_ok we (removeClient c h)"
  by (rule hub_ok_shrinks) (auto simp: hub_ok_def removeClient_index)

lemma hub_ok_fold_send: "hub_ok we h \<Longrightarrow> hub_ok we (fold (\<lambda>c. hub_send net c f) cs h)"
  by (induction cs arbitrary: h) (simp_all add: hub_ok_send)

lemma hub_ok_unsubscribe:
  assumes "hub_ok we h"
  shows "hub_ok we (price_unsubscribe c p h)"
proof -
  have "client_ok we (price_unsubscribe c p h) d" for d
  proof -
    have ok: "client_ok we h d" using assms by (simp add: hub_ok_def)
    have "length (pools_of (price_unsubscribe c p h) d) \<le> length (pools_of h d)"
      using length_removeAll_less_eq [of p] by (simp add: pools_of_unsubscribe)
    moreover have "jm_get (hb_clientPools (price_unsubscribe c p h)) d = None \<longleftrightarrow> jm_get (hb_clientPools h) d = None"
      by (simp add: get_pools_unsubscribe)
    ultimately show ?thesis using ok unfolding client_ok_def unsubscribe_frame
      by (cases "hb_sessions h d") auto
  qed
  then show ?thesis using assms by (simp add: hub_ok_def hub_index_unsubscribe)
qed

lemma hub_ok_subscribe:
  assumes "hub_ok we h" and "hb_sessions h c = Some se" and "int (length (pools_of h c)) < se_maxSubscriptions se"
    and "correlation_id_ok p"
  shows "hub_ok we (price_subscribe c p h)"
proof -
  have "client_ok we (price_subscribe c p h) d" for d
  proof (cases "d = c")
    case True
    have "client_ok we h c" using assms(1) by (simp add: hub_ok_def)
    then show ?thesis using True assms(2,3) length_set_add [of p "pools_of h c"]
      by (simp add: client_ok_def pools_of_subscribe)
  next
    case False
    then have "jm_get (hb_clientPools (price_subscribe c p h)) d = jm_get (hb_clientPools h) d"
      by (simp add: price_subscribe_def Let_def)
    moreover have "client_ok we h d" using assms(1) by (simp add: hub_ok_def)
    ultimately show ?thesis using client_ok_cong [of "price_subscribe c p h" d h we] by simp
  qed
  then show ?thesis using assms by (simp add: hub_ok_def hub_index_subscribe)
qed

lemma isValidPoolId_Some: "isValidPoolId v = Some p \<longleftrightarrow> v = Some (JStr p) \<and> correlation_id_ok p"
  by (cases v rule: isValidPoolId.cases) auto

lemma hub_ok_perform:
  assumes "hub_ok we h" and "hb_sessions h c = Some se" and "correlation_id_ok p"
  shows "hub_ok we (ws_perform net c se action p h)"
proof (cases action)
  case Subscribe
  show ?thesis
  proof (cases "se_maxSubscriptions se \<le> getSubscriptionCount c h")
    case True
    then show ?thesis using Subscribe assms(1) by (simp add: ws_perform_def hub_ok_send)
  next
    case False
    then have "int (length (pools_of h c)) < se_maxSubscriptions se" by (simp add: getSubscriptionCount_def pools_of_def)
    from hub_ok_subscribe [OF assms(1,2) this assms(3)] show ?thesis
      using Subscribe False by (simp add: ws_perform_def hub_ok_send)
  qed
qed (use assms in \<open>simp_all add: ws_perform_def hub_ok_send hub_ok_unsubscribe\<close>)

lemma hub_ok_message:
  assumes "hub_ok we h" and "hb_sessions h c = Some se"
  shows "hub_ok we (handleMessage we net c raw se h)"
  using assms
  by (auto simp: handleMessage_def Let_def isValidPoolId_Some intro!: hub_ok_send hub_ok_perform split: option.split)

lemma handshake_admits:
  assumes "authenticateWsHandshake (we_query_token we) (we_verify we) uuid request (resolveWsAuthPolicy (we_env we)) (we_env we) now
    = Ws_Ok who cid"
  shows "session_admitted we \<lparr>se_who = who, se_correlationId = cid,
    se_maxSubscriptions = subscriptionLimitFor who (resolveWsAuthPolicy (we_env we))\<rparr>"
proof -
  obtain tk where q: "we_query_token we (or_else (wq_url request) []) = Some tk"
    using assms by (auto simp: authenticateWsHandshake_def Let_def split: option.splits)
  show ?thesis
  proof (cases "tk = None \<or> tk = Some []")
    case True
    then have "who = Anonymous \<and> anonymous_opted_in (we_env we)"
      using assms q by (simp add: authenticateWsHandshake_def Let_def policy_optional_iff split: if_splits)
    then show ?thesis by (simp add: session_admitted_def)
  next
    case False
    then have "verify_handshake (we_verify we) (we_env we) (the tk) (resolveCorrelationId uuid (wq_headers request)) now = Ws_Ok who cid"
      using assms q by (cases tk) (simp_all add: authenticateWsHandshake_def Let_def)
    moreover have "the tk \<noteq> []" using False by auto
    ultimately show ?thesis unfolding session_admitted_def verify_handshake_Ok by clarsimp blast
  qed
qed

lemma hub_ok_connect:
  assumes "hub_ok we h" and "jm_get (hb_clientPools h) c = None"
  shows "hub_ok we (onClientConnection we net c request uuid now (resolveWsAuthPolicy (we_env we)) h)"
proof -
  let ?auth = "authenticateWsHandshake (we_query_token we) (we_verify we) uuid request (resolveWsAuthPolicy (we_env we)) (we_env we) now"
  show ?thesis
  proof (cases ?auth)
    case (Ws_Fail code msg cid)
    then show ?thesis using assms(1) by (simp add: onClientConnection_def Let_def hub_ok_send)
  next
    case (Ws_Ok who cid)
    let ?h = "onClientConnection we net c request uuid now (resolveWsAuthPolicy (we_env we)) h"
    have "client_ok we ?h d" for d
    proof (cases "d = c")
      case True
      have "hb_sessions ?h c = Some \<lparr>se_who = who, se_correlationId = cid,
          se_maxSubscriptions = subscriptionLimitFor who (resolveWsAuthPolicy (we_env we))\<rparr>"
        "jm_get (hb_clientPools ?h) c = None"
        using Ws_Ok assms(2) by (simp_all add: onClientConnection_def Let_def)
      then show ?thesis using True handshake_admits [OF Ws_Ok] by (simp add: client_ok_def pools_of_def)
    next
      case False
      then have "hb_sessions ?h d = hb_sessions h d" "jm_get (hb_clientPools ?h) d = jm_get (hb_clientPools h) d"
        using Ws_Ok by (simp_all add: onClientConnection_def Let_def)
      then show ?thesis using client_ok_cong assms(1) unfolding hub_ok_def by blast
    qed
    then show ?thesis using assms(1) Ws_Ok by (simp add: hub_ok_def onClientConnection_def Let_def)
  qed
qed

lemma jm_keys: "{p. jm_get m p \<noteq> None} = set (map fst m)"
  using dom_map_of_conv_image_fst [of m] by (simp add: jm_get_def dom_def)

lemma hub_index_reconnect: "hub_index h \<Longrightarrow> hub_index (price_ready (h\<lparr>hb_commands := hb_commands h @ [Connection_Lost]\<rparr>))"
proof -
  let ?h = "price_ready (h\<lparr>hb_commands := hb_commands h @ [Connection_Lost]\<rparr>)"
  assume index: "hub_index h"
  have same: "hb_subscriptions ?h = hb_subscriptions h" "hb_clientPools ?h = hb_clientPools h"
    by (simp_all add: price_ready_def Let_def)
  have "channels_after (hb_commands ?h) = price_channel ` set (map fst (hb_subscriptions h))"
    by (simp add: price_ready_def Let_def image_image channels_after_def)
  then show ?thesis using index unfolding hub_index_def clients_of_def pools_of_def same jm_keys by blast
qed

lemma hub_ok_reach: "hub_reach we h \<Longrightarrow> hub_ok we h"
proof (induction rule: hub_reach.induct)
  case reach_start
  then show ?case using hub_index_init by (simp add: hub_ok_def client_ok_def hub_init_def)
next
  case (reach_step h st net)
  show ?case
  proof (cases st)
    case Connect
    then show ?thesis using reach_step hub_ok_connect by simp
  next
    case Frame
    then show ?thesis using reach_step hub_ok_message by (simp split: option.split)
  next
    case (Gone c)
    let ?h = "removeClient c (removeClient c h)"
    have ok: "hub_ok we ?h" using reach_step by (simp add: hub_ok_remove)
    have none: "jm_get (hb_clientPools ?h) c = None"
      using ok reach_step.IH by (simp add: hub_ok_def removeClient_index)
    then have "client_ok we (?h\<lparr>hb_sessions := (hb_sessions ?h)(c := None)\<rparr>) d" for d
    proof (cases "d = c")
      case False
      then have "client_ok we (?h\<lparr>hb_sessions := (hb_sessions ?h)(c := None)\<rparr>) d = client_ok we ?h d"
        by (intro client_ok_cong) simp_all
      then show ?thesis using ok by (simp add: hub_ok_def)
    qed (simp add: client_ok_def none)
    then show ?thesis using ok Gone by (simp add: hub_ok_def Let_def)
  next
    case (Redis_Message channel message)
    have "hub_ok we (broadcastPrice net event h)" for event
      using reach_step.IH by (simp add: broadcastPrice_def hub_ok_fold_send split: option.split json.split)
    then show ?thesis using Redis_Message reach_step.IH
      by (simp add: price_message_def Let_def split: option.split json.split)
  next
    case Redis_Reconnect
    have "hub_index (price_ready (h\<lparr>hb_commands := hb_commands h @ [Connection_Lost]\<rparr>))"
      using reach_step.IH by (simp add: hub_ok_def hub_index_reconnect)
    then show ?thesis unfolding Redis_Reconnect hub_do.simps
      by (rule hub_ok_shrinks [OF reach_step.IH]) (simp_all add: price_ready_def Let_def)
  qed
qed

section \<open>Properties\<close>

text \<open>C12: In every state the process can be in, whatever clients send and however sockets and Redis commands fail: a
  client is listed for a pool exactly if the pool is listed for it, a client holds no more pools than its session
  allows, none without a session, and the Redis connection is subscribed to the channel of a pool exactly if the
  pool has clients, provided the last command that concerns the channel took effect. (A rejected subscribe or
  unsubscribe is only logged, and nothing repeats it before the next reconnect.)\<close>

theorem price_hub_consistent:
  assumes "hub_reach we h"
  shows "(c \<in> set (clients_of h p) \<longleftrightarrow> p \<in> set (pools_of h c)) \<and>
    (last_took took (hb_commands h) (price_channel p) \<longrightarrow>
       (price_channel p \<in> channels_when took (hb_commands h) \<longleftrightarrow> clients_of h p \<noteq> [])) \<and>
    int (length (pools_of h c)) \<le> (case hb_sessions h c of None \<Rightarrow> 0 | Some se \<Rightarrow> max 0 (se_maxSubscriptions se))"
proof -
  have ok: "hub_index h" "client_ok we h c" using hub_ok_reach [OF assms] by (simp_all add: hub_ok_def)
  have "{p. jm_get (hb_subscriptions h) p \<noteq> None} = {p. clients_of h p \<noteq> []}"
    using ok(1) by (auto simp: hub_index_def clients_of_def or_else_def split: option.splits)
  then have asked: "price_channel p \<in> channels_after (hb_commands h) \<longleftrightarrow> clients_of h p \<noteq> []"
    using ok(1) by (auto simp: hub_index_def)
  moreover have "int (length (pools_of h c)) \<le> (case hb_sessions h c of None \<Rightarrow> 0 | Some se \<Rightarrow> max 0 (se_maxSubscriptions se))"
    using ok(2) by (cases "hb_sessions h c") (simp_all add: client_ok_def pools_of_def)
  ultimately show ?thesis using ok(1) by (simp add: hub_index_def channels_when_last)
qed

text \<open>C13: A price that arrives for a pool is sent once to each client of that pool whose socket is open, in the order
  they subscribed, and to nobody else; a client whose socket throws loses all its subscriptions, and everyone
  else keeps theirs.\<close>

theorem price_reaches_clients:
  assumes "hub_reach we h" and "we_json_parse we message = Some event"
    and "json_field event ''poolId'' = Some (JStr p)"
  shows "hb_sent (hub_do we net (Redis_Message channel message) h) =
      hb_sent h @ map (\<lambda>c. (c, Price_Frame event)) (filter (\<lambda>c. net c = Takes_Frames) (clients_of h p)) \<and>
    distinct (clients_of h p) \<and>
    clients_of (hub_do we net (Redis_Message channel message) h) q =
      filter (\<lambda>d. \<not> (p \<in> set (pools_of h d) \<and> net d = Throws)) (clients_of h q)"
proof -
  have index: "hub_index h" using hub_ok_reach [OF assms(1)] by (simp add: hub_ok_def)
  note f = fold_send [OF index, where net = net and f = "Price_Frame event" and cs = "clients_of h p"]
  obtain fs where "event = JObj fs" using assms(3) by (cases event) simp_all
  then have "hub_do we net (Redis_Message channel message) h =
      (let h1 = fold (\<lambda>c. hub_send net c (Price_Frame event)) (clients_of h p) h
       in h1\<lparr>hb_cached := hb_cached h1 @ [(''price:spot:'' @
         (if starts_with ''prices:'' channel then drop (length ''prices:'') channel else channel), event)]\<rparr>)"
    using assms(2,3) by (simp add: price_message_def broadcast_sends Let_def)
  moreover have "distinct (clients_of h p)"
    using index by (auto simp: hub_index_def clients_of_def or_else_def split: option.split)
  moreover have "d \<in> set (clients_of h p) \<longleftrightarrow> p \<in> set (pools_of h d)" for d using index by (simp add: hub_index_def)
  ultimately show ?thesis using f(3) f(4) [of q] by (simp add: Let_def clients_of_def)
qed

text \<open>C17: Nobody has a session except a wallet named by a token that the library verified for the configured secret,
  or an anonymous reader where the operator chose the mode \<^verbatim>\<open>optional\<close> and, on mainnet, confirmed it. Anonymous readers
  get the anonymous limit, which is never above that of wallets.\<close>

theorem ws_session_admitted:
  assumes "hub_reach we h" and "hb_sessions h c = Some se"
  shows "session_admitted we se \<and> se_maxSubscriptions se \<le> wy_maxSubscriptions (resolveWsAuthPolicy (we_env we))"
proof -
  have "session_admitted we se" using hub_ok_reach [OF assms(1)] assms(2) by (simp add: hub_ok_def client_ok_def) (metis option.simps(5))
  then show ?thesis using subscription_limit_le by (simp add: session_admitted_def)
qed

section \<open>Concrete runs\<close>

definition demo_ws :: ws_env where
  "demo_ws = \<lparr>we_env = [''JWT_SECRET'' \<mapsto> ''s3''],
     we_query_token = (\<lambda>url. if url = ''/price?token=op'' then Some (Some ''op'') else Some None), we_verify = demo_jwt,
     we_json_parse = (\<lambda>s. if s = ''sub'' then Some (JObj [(''action'', JStr ''subscribe''), (''poolId'', JStr ''P1'')])
       else if s = ''tick'' then Some (JObj [(''poolId'', JStr ''P1''), (''currentPrice'', JStr ''2'')]) else None)\<rparr>"

definition demo_socket :: "string \<Rightarrow> nat \<Rightarrow> hub_step" where
  "demo_socket url c = Connect c \<lparr>wq_url = Some url, wq_headers = (\<lambda>_. None)\<rparr> ''u'' 1000"

definition demo_hub :: hub where
  "demo_hub = fold (hub_do demo_ws (\<lambda>_. Takes_Frames)) [demo_socket ''/price'' 1, demo_socket ''/price?token=op'' 2,
     Frame 1 ''sub'', Frame 2 ''sub'', demo_socket ''/price?token=op'' 3, Frame 3 ''sub''] hub_init"

lemma demo_hub_facts:
  "hb_sessions demo_hub 1 = None" "hb_sessions demo_hub 2 = Some \<lparr>se_who = Wallet ''GB'', se_correlationId = ''u'', se_maxSubscriptions = 50\<rparr>"
  "clients_of demo_hub ''P1'' = [2, 3]" "channels_after (hb_commands demo_hub) = {''prices:P1''}"
  by code_simp+

lemma demo_hub_reach: "hub_reach demo_ws demo_hub"
proof -
  have step: "hub_reach demo_ws h \<Longrightarrow> new_socket st h \<Longrightarrow> hub_reach demo_ws (hub_do demo_ws (\<lambda>_. Takes_Frames) st h)" for h st
    by (rule reach_step)
  show ?thesis unfolding demo_hub_def fold_simps id_apply
    by (intro step reach_start) (simp_all add: demo_socket_def, code_simp+)
qed

theorem price_hub_consistent_witness:
  "2 \<in> set (clients_of demo_hub ''P1'') \<and> ''prices:P1'' \<in> channels_when (\<lambda>i c. True) (hb_commands demo_hub) \<and>
   ''prices:P1'' \<notin> channels_when (\<lambda>i c. False) (hb_commands demo_hub)"
proof -
  have "last_took (\<lambda>i c. True) (hb_commands demo_hub) (price_channel ''P1'')"
    by (simp add: last_took_def list_all_iff)
  then have "price_channel ''P1'' \<in> channels_when (\<lambda>i c. True) (hb_commands demo_hub)"
    using price_hub_consistent [OF demo_hub_reach, of 2 "''P1''" "\<lambda>i c. True"] by (simp add: demo_hub_facts)
  moreover have "''prices:P1'' \<notin> channels_when (\<lambda>i c. False) (hb_commands demo_hub)" by code_simp
  ultimately show ?thesis by (simp add: price_channel_def demo_hub_facts)
qed

theorem price_reaches_clients_witness:
  "hb_sent (hub_do demo_ws (\<lambda>c. if c = 3 then Throws else Takes_Frames) (Redis_Message ''prices:P1'' ''tick'') demo_hub) =
     hb_sent demo_hub @ [(2, Price_Frame (JObj [(''poolId'', JStr ''P1''), (''currentPrice'', JStr ''2'')]))]"
  using price_reaches_clients [OF demo_hub_reach, of "''tick''" "JObj [(''poolId'', JStr ''P1''), (''currentPrice'', JStr ''2'')]" "''P1''"
      "\<lambda>c. if c = 3 then Throws else Takes_Frames" "''prices:P1''"]
  by (simp add: demo_ws_def demo_hub_facts)

theorem ws_session_admitted_witness:
  "session_admitted demo_ws \<lparr>se_who = Wallet ''GB'', se_correlationId = ''u'', se_maxSubscriptions = 50\<rparr>"
  using ws_session_admitted [OF demo_hub_reach demo_hub_facts(2)] by blast

end
