(* ===== verification/Prices.thy ===== *)
theory Prices
  imports Horizon Price_Hub
begin

text \<open>
  Prices on request: \<^verbatim>\<open>apps/api/src/price/price.controller.ts\<close> and the reads of \<^verbatim>\<open>price.service.ts\<close>. A spot price comes
  from the cache; candles come from the database, and buckets without trades are filled with null candles.

  Cache reads and writes and database queries are calls; a value read from the cache has the type the source gives
  it, as the cast there is not checked. Time stamps that are no dates make the database client throw; those that
  are dates are below 2^43 seconds, so the bucket arithmetic is exact and is done on integers. A cache write that
  fails is swallowed by the cache service.
\<close>

section \<open>Pairs\<close>

text \<open>\<^verbatim>\<open><\<close> on strings.\<close>

fun js_less :: "string \<Rightarrow> string \<Rightarrow> bool" where
  "js_less _ [] = False"
| "js_less [] (d # ds) = True"
| "js_less (c # cs) (d # ds) =
     (if c = d then js_less cs ds else (of_char c :: nat) < of_char d)"

definition normalizePair :: "string \<Rightarrow> string \<Rightarrow> string \<times> string" where
  "normalizePair a b =
     (let x = map lower_char a; y = map lower_char b in if js_less x y then (x, y) else (y, x))"

definition spotPriceCacheKey :: "string \<Rightarrow> string \<Rightarrow> string" where
  "spotPriceCacheKey tokenA tokenB =
     (let (a, b) = normalizePair tokenA tokenB in ''price:spot:'' @ a @ '':'' @ b)"

record spot_response =
  sp_tokenA :: string
  sp_tokenB :: string
  sp_spotPrice :: string
  sp_change24hAbsolute :: string
  sp_change24hPercent :: string
  sp_high24h :: string
  sp_low24h :: string
  sp_lastUpdated :: string

section \<open>Candles\<close>

record candle_values =
  cv_open :: jsnum
  cv_high :: jsnum
  cv_low :: jsnum
  cv_close :: jsnum
  cv_volume :: jsnum

text \<open>A candle whose values are all \<^verbatim>\<open>null\<close> is a gap.\<close>

record price_candle =
  pc_time :: int
  pc_values :: "candle_values option"

definition nullCandle :: "int \<Rightarrow> price_candle" where
  "nullCandle time = \<lparr>pc_time = time, pc_values = None\<rparr>"

fun fill_loop :: "(int \<Rightarrow> price_candle option) \<Rightarrow> int \<Rightarrow> int \<Rightarrow> nat \<Rightarrow> int \<Rightarrow> price_candle list" where
  "fill_loop byTime intervalSec stop 0 t = []"
| "fill_loop byTime intervalSec stop (Suc room) t =
     (if stop < t then []
      else or_else (byTime t) (nullCandle t) # fill_loop byTime intervalSec stop room (t + intervalSec))"

definition fillCandleGaps :: "price_candle list \<Rightarrow> int \<Rightarrow> int \<Rightarrow> int \<Rightarrow> int \<Rightarrow> price_candle list" where
  "fillCandleGaps candles intervalSec from_time to_time limit =
     (if intervalSec \<le> 0 \<or> limit \<le> 0 then []
      else
        let start = from_time div intervalSec * intervalSec; stop = to_time div intervalSec * intervalSec in
        if stop < start then []
        else fill_loop (jm_get (foldl (\<lambda>m c. jm_set m (pc_time c) c) [] candles)) intervalSec stop (nat limit) start)"

record candles_response =
  cr_poolId :: string
  cr_candles :: "price_candle list"

section \<open>Calls\<close>

text \<open>A row of the candle table: the start of its period in milliseconds and its decimal columns as text.\<close>

record price_row =
  pr_poolId :: string
  pr_interval :: string
  pr_periodStart :: int
  pr_open :: string
  pr_high :: string
  pr_low :: string
  pr_close :: string
  pr_volumeUsd :: string

datatype price_call =
    Get_Event string
  | Get_Pair string
  | Set_Pair string spot_response int
  | Get_Candles string
  | Set_Candles string candles_response int
  | Find_Pool string string
  | Find_Candles string string int int

datatype price_reply =
    PEvent "price_event option"
  | PPair "spot_response option"
  | PCandles "candles_response option"
  | PPool "string option"
  | PRows "price_row list"
  | PDone
  | PErr string

type_synonym 'a price_prog = "(price_call, price_reply, api_exn + 'a) prog"

definition price_await :: "price_call \<Rightarrow> price_reply price_prog" where
  "price_await c = Call c (\<lambda>r. case r of PErr e \<Rightarrow> Ret (Inl (Crash e)) | _ \<Rightarrow> Ret (Inr r))"

definition TTL_SPOT_PRICE :: int where
  "TTL_SPOT_PRICE = 5"

definition TTL_CANDLES_FAST :: int where
  "TTL_CANDLES_FAST = 10"

definition TTL_CANDLES_SLOW :: int where
  "TTL_CANDLES_SLOW = 60"

definition not_found :: "string \<Rightarrow> string \<Rightarrow> string \<Rightarrow> api_exn" where
  "not_found what tokenA tokenB = Http (http_error 404 [] (what @ '' for token pair '' @ tokenA @ ''/'' @ tokenB) [])"

definition bad_request :: "string \<Rightarrow> api_exn" where
  "bad_request message = Http (http_error 400 [] message [])"

section \<open>Spot price\<close>

definition getSpotPrice :: "string \<Rightarrow> price_event option price_prog" where
  "getSpotPrice poolId = prog_then (price_await (Get_Event (''price:spot:'' @ poolId))) (\<lambda>r.
     Ret (Inr (case r of PEvent cached \<Rightarrow> cached | _ \<Rightarrow> None)))"

text \<open>The response for an event; \<open>iso\<close> is \<^verbatim>\<open>new Date(..).toISOString()\<close>, which throws for an invalid date.\<close>

definition spot_response_of :: "(jsnum \<Rightarrow> string option) \<Rightarrow> string \<Rightarrow> string \<Rightarrow> price_event \<Rightarrow> api_exn + spot_response" where
  "spot_response_of iso_text tokenA tokenB event =
     (let price = parse_float (pe_currentPrice event);
          change = parse_float (or_else (pe_change24h event) ''0'');
          base = jsub price change;
          changePercent = (if \<not> jeq base (Fin 0) then jmul (jdiv change (jabs base)) (Fin 100) else Fin 0)
      in case iso_text (pe_timestamp event) of
           None \<Rightarrow> Inl (Crash ''Invalid time value'')
         | Some lastUpdated \<Rightarrow> Inr
             \<lparr>sp_tokenA = map lower_char tokenA, sp_tokenB = map lower_char tokenB, sp_spotPrice = pe_currentPrice event,
              sp_change24hAbsolute = or_else (pe_change24h event) ''0'', sp_change24hPercent = to_fixed 4 changePercent,
              sp_high24h = pe_currentPrice event, sp_low24h = pe_currentPrice event, sp_lastUpdated = lastUpdated\<rparr>)"

definition getTokenPairPrice :: "(jsnum \<Rightarrow> string option) \<Rightarrow> string \<Rightarrow> string \<Rightarrow> spot_response price_prog" where
  "getTokenPairPrice iso_text tokenA tokenB =
     (let key = spotPriceCacheKey tokenA tokenB in
      prog_then (price_await (Get_Pair key)) (\<lambda>r. case r of
        PPair (Some cached) \<Rightarrow> Ret (Inr cached)
      | _ \<Rightarrow> prog_then (getSpotPrice key) (\<lambda>found. case found of
          None \<Rightarrow> Ret (Inl (not_found ''No pool found'' tokenA tokenB))
        | Some event \<Rightarrow> (case spot_response_of iso_text tokenA tokenB event of
            Inl e \<Rightarrow> Ret (Inl e)
          | Inr response \<Rightarrow> prog_then (price_await (Set_Pair key response TTL_SPOT_PRICE)) (\<lambda>_. Ret (Inr response))))))"

section \<open>Candles of a pair\<close>

definition getIntervalSeconds :: "string \<Rightarrow> int" where
  "getIntervalSeconds interval =
     (if interval = ''1m'' then 60 else if interval = ''5m'' then 300 else if interval = ''1h'' then 3600
      else if interval = ''1d'' then 86400 else 3600)"

definition candle_of_row :: "price_row \<Rightarrow> price_candle" where
  "candle_of_row r =
     \<lparr>pc_time = pr_periodStart r div 1000,
      pc_values = Some \<lparr>cv_open = parse_float (pr_open r), cv_high = parse_float (pr_high r), cv_low = parse_float (pr_low r),
        cv_close = parse_float (pr_close r), cv_volume = parse_float (pr_volumeUsd r)\<rparr>\<rparr>"

text \<open>Milliseconds a \<^verbatim>\<open>Date\<close> can hold.\<close>

definition date_ms :: "jsnum \<Rightarrow> int option" where
  "date_ms seconds = (case jmul seconds (Fin 1000) of
     Fin x \<Rightarrow> if \<bar>x\<bar> \<le> 8640000000000000 then Some \<lfloor>x\<rfloor> else None
   | _ \<Rightarrow> None)"

definition int_of_num :: "jsnum \<Rightarrow> int" where
  "int_of_num x = (case x of Fin q \<Rightarrow> \<lfloor>q\<rfloor> | _ \<Rightarrow> 0)"

definition getCandles :: "string \<Rightarrow> string \<Rightarrow> string \<Rightarrow> jsnum \<Rightarrow> jsnum \<Rightarrow> int \<Rightarrow> candles_response price_prog" where
  "getCandles tokenA tokenB interval from_time to_time limit =
     prog_then (price_await (Find_Pool (map lower_char tokenA) (map lower_char tokenB))) (\<lambda>r. case r of
       PPool (Some pool) \<Rightarrow>
         (case (date_ms from_time, date_ms to_time) of
            (Some fromDate, Some toDate) \<Rightarrow>
              prog_then (price_await (Find_Candles pool interval fromDate toDate)) (\<lambda>r. case r of
                PRows rows \<Rightarrow> Ret (Inr \<lparr>cr_poolId = pool, cr_candles =
                  fillCandleGaps (map candle_of_row rows) (getIntervalSeconds interval) (int_of_num from_time)
                    (int_of_num to_time) limit\<rparr>)
              | _ \<Rightarrow> Ret (Inl (Crash ''unexpected reply'')))
          | _ \<Rightarrow> Ret (Inl (Crash ''Invalid value for argument: Provided Date object is invalid'')))
     | _ \<Rightarrow> Ret (Inl (not_found ''No pool found'' tokenA tokenB)))"

section \<open>Controller\<close>

record candle_query =
  cq_interval :: "string option"
  cq_from :: "string option"
  cq_to :: "string option"
  cq_limit :: "string option"

definition VALID_INTERVALS :: "string list" where
  "VALID_INTERVALS = [''1m'', ''5m'', ''1h'', ''1d'']"

definition int_param :: "string option \<Rightarrow> jsnum \<Rightarrow> jsnum" where
  "int_param p fallback = (case p of Some (c # cs) \<Rightarrow> parse_int10 (c # cs) | _ \<Rightarrow> fallback)"

text \<open>The window and limit of a request, or why it is refused. \<open>now\<close> is the clock in milliseconds.\<close>

definition candle_window :: "candle_query \<Rightarrow> int \<Rightarrow> api_exn + (string \<times> jsnum \<times> jsnum \<times> jsnum)" where
  "candle_window q now =
     (let interval = or_else (cq_interval q) ''1h'' in
      if interval \<notin> set VALID_INTERVALS then
        Inl (bad_request (''Invalid interval. Must be one of: '' @ join '', '' VALID_INTERVALS))
      else
        let limit = int_param (cq_limit q) (Fin 168) in
        if limit = NaN \<or> jlt limit (Fin 1) \<or> jlt (Fin 500) limit then
          Inl (bad_request ''Limit must be a number between 1 and 500'')
        else
          let to_time = int_param (cq_to q) (num_of_int (now div 1000));
              from_time = int_param (cq_from q) (jsub to_time (jmul (Fin (of_int (getIntervalSeconds interval))) limit)) in
          if from_time = NaN \<or> to_time = NaN then Inl (bad_request ''from and to must be valid unix timestamps'')
          else if jle to_time from_time then Inl (bad_request ''from timestamp must be before to timestamp'')
          else Inr (interval, from_time, to_time, limit))"

definition candles_cache_key :: "string \<Rightarrow> string \<Rightarrow> string \<Rightarrow> jsnum \<Rightarrow> jsnum \<Rightarrow> jsnum \<Rightarrow> string" where
  "candles_cache_key tokenA tokenB interval from_time to_time limit =
     ''candles:'' @ tokenA @ '':'' @ tokenB @ '':'' @ interval @ '':'' @ num_to_string from_time @ '':'' @
     num_to_string to_time @ '':'' @ num_to_string limit"

definition controller_getCandles :: "string \<Rightarrow> string \<Rightarrow> candle_query \<Rightarrow> int \<Rightarrow> candles_response price_prog" where
  "controller_getCandles tokenA tokenB q now =
     (case candle_window q now of
        Inl e \<Rightarrow> Ret (Inl e)
      | Inr (interval, from_time, to_time, limit) \<Rightarrow>
          (let cacheKey = candles_cache_key tokenA tokenB interval from_time to_time limit in
           prog_then (price_await (Get_Candles cacheKey)) (\<lambda>r. case r of
             PCandles (Some cached) \<Rightarrow> Ret (Inr cached)
           | _ \<Rightarrow> prog_then (getCandles tokenA tokenB interval from_time to_time (int_of_num limit)) (\<lambda>response.
               if cr_candles response = [] then Ret (Inl (not_found ''No price data found'' tokenA tokenB))
               else
                 let ttl = (if interval = ''1m'' \<or> interval = ''5m'' then TTL_CANDLES_FAST else TTL_CANDLES_SLOW) in
                 prog_then (price_await (Set_Candles cacheKey response ttl)) (\<lambda>_. Ret (Inr response))))))"

end
