(* ===== verification/Price_Reads.thy ===== *)
theory Price_Reads
  imports Prices Prog_Wp
begin

text \<open>
  What price requests are answered. The spot price of a pair is looked up under keys nobody writes, so it is never
  found. A candle request is answered with one entry per bucket, the stored candle where the query reaches it and a
  gap elsewhere; with the default window that leaves out the running bucket and begins with a gap.
\<close>

section \<open>Filling gaps\<close>

lemma fill_loop_map:
  assumes "0 < I"
  shows "fill_loop get I stop room t =
    map (\<lambda>n. or_else (get (t + int n * I)) (nullCandle (t + int n * I))) [0..<min room (nat ((stop - t) div I + 1))]"
proof (induction room arbitrary: t)
  case (Suc room)
  show ?case
  proof (cases "stop < t")
    case True
    then have "(stop - t) div I < 0" using assms by (simp add: div_neg_pos_less0)
    then show ?thesis using True by simp
  next
    case False
    let ?n = "min room (nat ((stop - (t + I)) div I + 1))"
    have step: "(stop - (t + I)) div I = (stop - t) div I - 1"
      using assms div_add_self2 [of I "stop - t - I"] by (simp add: algebra_simps)
    moreover have "0 \<le> (stop - t) div I" using assms False by (simp add: pos_imp_zdiv_nonneg_iff)
    ultimately have n: "min (Suc room) (nat ((stop - t) div I + 1)) = Suc ?n" by (simp add: nat_add_distrib)
    have shift: "[0..<Suc ?n] = 0 # map Suc [0..<?n]" by (simp only: upt_conv_Cons map_Suc_upt zero_less_Suc)
    show ?thesis unfolding n shift using False Suc.IH [of "t + I"] by (simp add: algebra_simps comp_def)
  qed
qed simp

lemma last_by_time: "jm_get (foldl (\<lambda>m c. jm_set m (pc_time c) c) m cs) t =
  (case find (\<lambda>c. pc_time c = t) (rev cs) of Some c \<Rightarrow> Some c | None \<Rightarrow> jm_get m t)"
proof (induction cs arbitrary: m rule: rev_induct)
  case (snoc c cs)
  then show ?case by (auto split: option.split)
qed simp

lemma last_by_time_new: "jm_get (foldl (\<lambda>m c. jm_set m (pc_time c) c) [] cs) t = find (\<lambda>c. pc_time c = t) (rev cs)"
  by (simp add: last_by_time split: option.split)

lemma fillCandleGaps_map:
  assumes "0 < I" and "0 < limit" and "from_time \<le> to_time"
  shows "fillCandleGaps candles I from_time to_time limit =
    map (\<lambda>n. let t = (from_time div I + int n) * I in
           or_else (find (\<lambda>c. pc_time c = t) (rev candles)) (nullCandle t))
      [0..<min (nat limit) (nat (to_time div I - from_time div I + 1))]"
proof -
  have le: "from_time div I \<le> to_time div I" using assms by (simp add: zdiv_mono1)
  have "(to_time div I * I - from_time div I * I) div I = to_time div I - from_time div I"
    using assms(1) by (simp flip: left_diff_distrib)
  moreover have "\<not> to_time div I * I < from_time div I * I" using le assms(1) by simp
  ultimately show ?thesis using assms(1,2)
    by (simp add: fillCandleGaps_def fill_loop_map last_by_time_new Let_def algebra_simps)
qed

section \<open>Windows\<close>

lemma parse_int10_small:
  assumes "parse_int10 s = Fin x" and "\<bar>x\<bar> < 2 ^ 53"
  obtains i where "x = of_int i"
proof -
  obtain neg tl where p: "sign_prefix (dropWhile is_ws s) = (neg, tl)" by (rule prod.exhaust)
  let ?n = "digits_value 10 0 (takeWhile is_digit tl)"
  have "num_of_int ?n = Fin x \<or> num_of_int ?n = Fin (- x)"
    using assms(1) p unfolding parse_int10_def Let_def
    by (cases "num_of_int ?n") (auto split: if_splits)
  then show ?thesis
  proof
    assume "num_of_int ?n = Fin x"
    then show ?thesis using that to_double_small_int assms(2) by (metis num_of_int_def)
  next
    assume "num_of_int ?n = Fin (- x)"
    then have "- x = of_int ?n" using to_double_small_int assms(2) by (metis num_of_int_def abs_minus_cancel)
    then show ?thesis using that [of "- ?n"] by simp
  qed
qed

lemma interval_bounds: "60 \<le> getIntervalSeconds i" "getIntervalSeconds i \<le> 86400"
  by (simp_all add: getIntervalSeconds_def)

text \<open>An accepted limit is a whole number from 1 to 500.\<close>

lemma candle_window_limit:
  assumes "candle_window q now = Inr (interval, f, t, limit)"
  obtains L where "limit = Fin (of_int L)" and "1 \<le> L" and "L \<le> 500"
proof -
  have l: "limit = int_param (cq_limit q) (Fin 168)" "limit \<noteq> NaN" "\<not> jlt limit (Fin 1)" "\<not> jlt (Fin 500) limit"
    using assms by (auto simp: candle_window_def Let_def split: if_splits)
  obtain x where x: "limit = Fin x" "1 \<le> x" "x \<le> 500"
  proof (cases limit)
    case (Inf b)
    then show ?thesis using l(3,4) by (cases b) simp_all
  next
    case (Fin y)
    then show ?thesis using l(3,4) that by simp
  qed (use l(2) in simp)
  have "\<exists>i. x = of_int i"
  proof (cases "cq_limit q")
    case None
    then have "x = of_int 168" using l(1) x(1) by (simp add: int_param_def)
    then show ?thesis ..
  next
    case (Some s)
    show ?thesis
    proof (cases s)
      case Nil
      then have "x = of_int 168" using Some l(1) x(1) by (simp add: int_param_def)
      then show ?thesis ..
    next
      case (Cons c cs)
      then have "parse_int10 s = Fin x" using Some l(1) x(1) by (simp add: int_param_def)
      moreover have "\<bar>x\<bar> < 2 ^ 53" using x by simp
      ultimately show ?thesis by (metis parse_int10_small)
    qed
  qed
  then obtain L where L: "x = of_int L" ..
  then have "1 \<le> L \<and> L \<le> 500" using x by simp
  then show ?thesis using that L x(1) by blast
qed

lemma candle_window_order:
  assumes "candle_window q now = Inr (interval, Fin (of_int f), Fin (of_int t), limit)"
  shows "f < t"
  using assms by (auto simp: candle_window_def Let_def jle_def jeq_def split: if_splits)

text \<open>The window of a request that names no times: as many intervals as the limit, up to now.\<close>

lemma default_window:
  assumes "candle_window q now = Inr (interval, f, t, Fin (of_int L))" and "cq_from q = None" and "cq_to q = None"
    and "0 \<le> now" and "now div 1000 \<le> 2 ^ 52" and "1 \<le> L" and "L \<le> 500"
  shows "t = Fin (of_int (now div 1000))" and "f = Fin (of_int (now div 1000 - getIntervalSeconds interval * L))"
proof -
  let ?I = "getIntervalSeconds interval" and ?T = "now div 1000"
  have T: "0 \<le> ?T" using assms(4) by simp
  have IL: "0 \<le> ?I * L" "?I * L \<le> 86400 * 500"
    using interval_bounds [of interval] assms(6,7) by (simp, intro mult_mono) simp_all
  have t: "t = num_of_int ?T"
    and f: "f = jsub t (jmul (Fin (of_int ?I)) (Fin (of_int L)))"
    using assms(1,2,3) by (auto simp: candle_window_def Let_def int_param_def split: if_splits)
  show t': "t = Fin (of_int ?T)" using t T assms(5) by simp
  have "jmul (Fin (of_int ?I)) (Fin (of_int L)) = to_double (of_int (?I * L))" by simp
  also have "\<dots> = Fin (of_int (?I * L))" using IL by (intro to_double_of_int_abs) simp
  finally have m: "jmul (Fin (of_int ?I)) (Fin (of_int L)) = Fin (of_int (?I * L))" .
  have "jsub (Fin (of_int ?T)) (Fin (of_int (?I * L))) = to_double (of_int (?T - ?I * L))" by (simp add: jsub_def)
  also have "\<dots> = Fin (of_int (?T - ?I * L))" using T IL assms(5) by (intro to_double_of_int_abs) simp
  finally show "f = Fin (of_int (?T - ?I * L))" using f t' m by simp
qed

section \<open>Candles of a request\<close>

text \<open>What is relied on of the candle query: the rows of the pool and interval whose period starts in the closed range.\<close>

definition price_db_ok :: "(price_call, price_reply, 's) service \<Rightarrow> ('s \<Rightarrow> price_row set) \<Rightarrow> bool" where
  "price_db_ok exec rows \<longleftrightarrow>
     (\<forall>c s r s'. exec c s = (r, s') \<longrightarrow> rows s' = rows s) \<and>
     (\<forall>p i f t s rs s'. exec (Find_Candles p i f t) s = (PRows rs, s') \<longrightarrow>
        set rs = {r \<in> rows s. pr_poolId r = p \<and> pr_interval r = i \<and> f \<le> pr_periodStart r \<and> pr_periodStart r \<le> t})"

text \<open>The unique key of the table, and whole seconds.\<close>

definition price_rows_ok :: "price_row set \<Rightarrow> bool" where
  "price_rows_ok R \<longleftrightarrow>
     (\<forall>r\<in>R. 1000 dvd pr_periodStart r) \<and>
     (\<forall>r\<in>R. \<forall>r'\<in>R. pr_poolId r = pr_poolId r' \<and> pr_interval r = pr_interval r' \<and> pr_periodStart r = pr_periodStart r' \<longrightarrow> r = r')"

definition bucket_row :: "price_row set \<Rightarrow> string \<Rightarrow> string \<Rightarrow> int \<Rightarrow> price_row \<Rightarrow> bool" where
  "bucket_row R pool interval t r \<longleftrightarrow> r \<in> R \<and> pr_poolId r = pool \<and> pr_interval r = interval \<and> pr_periodStart r = t * 1000"

lemma date_ms_int:
  assumes "date_ms (Fin (of_int f)) = Some d"
  shows "d = f * 1000"
proof -
  have j: "jmul (Fin (of_int f)) (Fin 1000) = to_double (of_int (f * 1000))" by simp
  obtain x where x: "to_double (of_int (f * 1000)) = Fin x" "\<bar>x\<bar> \<le> 8640000000000000" "d = \<lfloor>x\<rfloor>"
    using assms unfolding date_ms_def j by (auto split: jsnum.splits if_splits)
  then have "x = of_int (f * 1000)" by (intro to_double_small_int) simp_all
  then show ?thesis using x(3) by (simp only: floor_of_int)
qed

lemma price_rows_dvd: "price_rows_ok R \<Longrightarrow> x \<in> R \<Longrightarrow> 1000 dvd pr_periodStart x"
  unfolding price_rows_ok_def by (elim conjE) (rule bspec)

lemma bucket_row_unique:
  assumes "price_rows_ok R" and "bucket_row R p i b x" and "bucket_row R p i b y"
  shows "x = y"
proof -
  have "\<forall>r\<in>R. \<forall>r'\<in>R. pr_poolId r = pr_poolId r' \<and> pr_interval r = pr_interval r' \<and> pr_periodStart r = pr_periodStart r' \<longrightarrow> r = r'"
    using assms(1) unfolding price_rows_ok_def by (rule conjunct2)
  then show ?thesis using assms(2,3) unfolding bucket_row_def by simp
qed

lemma find_candle:
  assumes "price_rows_ok R"
    and "set rs = {r \<in> R. pr_poolId r = p \<and> pr_interval r = i \<and> f * 1000 \<le> pr_periodStart r \<and> pr_periodStart r \<le> t * 1000}"
  shows "bucket_row R p i b r \<Longrightarrow> f \<le> b \<Longrightarrow> b \<le> t \<Longrightarrow> find (\<lambda>c. pc_time c = b) (rev (map candle_of_row rs)) = Some (candle_of_row r)"
    and "\<not> (\<exists>r. bucket_row R p i b r \<and> f \<le> b) \<Longrightarrow> find (\<lambda>c. pc_time c = b) (rev (map candle_of_row rs)) = None"
proof -
  have row: "x \<in> set rs \<and> pc_time (candle_of_row x) = b \<longleftrightarrow> bucket_row R p i b x \<and> f \<le> b \<and> b \<le> t" for x
  proof -
    have "pc_time (candle_of_row x) = b \<longleftrightarrow> pr_periodStart x = b * 1000" if "x \<in> R"
    proof -
      have "1000 dvd pr_periodStart x" using price_rows_dvd [OF assms(1) that] .
      then obtain k where "pr_periodStart x = 1000 * k" by (elim dvdE)
      then show ?thesis by (simp add: candle_of_row_def)
    qed
    moreover have "f * 1000 \<le> b * 1000 \<and> b * 1000 \<le> t * 1000 \<longleftrightarrow> f \<le> b \<and> b \<le> t" by simp
    ultimately show ?thesis unfolding assms(2) bucket_row_def mem_Collect_eq by metis
  qed
  have none: "find P cs = None \<longleftrightarrow> (\<forall>c \<in> set cs. \<not> P c)" for P :: "price_candle \<Rightarrow> bool" and cs
    by (induction cs) auto
  { assume r: "bucket_row R p i b r" "f \<le> b" "b \<le> t"
    have "candle_of_row r \<in> set (rev (map candle_of_row rs)) \<and> pc_time (candle_of_row r) = b"
      using row [of r] r by simp
    then have "find (\<lambda>c. pc_time c = b) (rev (map candle_of_row rs)) \<noteq> None" unfolding none by blast
    then obtain c where c: "find (\<lambda>c. pc_time c = b) (rev (map candle_of_row rs)) = Some c" by blast
    then have "c \<in> set (map candle_of_row rs) \<and> pc_time c = b"
      by (metis (mono_tags, lifting) find_Some_iff nth_mem set_rev)
    then obtain x where "c = candle_of_row x" "x \<in> set rs" "pc_time (candle_of_row x) = b" by auto
    then have "c = candle_of_row x" "bucket_row R p i b x" using row by blast+
    moreover have "x = r" using bucket_row_unique [OF assms(1) calculation(2) r(1)] .
    ultimately show "find (\<lambda>c. pc_time c = b) (rev (map candle_of_row rs)) = Some (candle_of_row r)" using c by simp }
  assume "\<not> (\<exists>r. bucket_row R p i b r \<and> f \<le> b)"
  then show "find (\<lambda>c. pc_time c = b) (rev (map candle_of_row rs)) = None" using row unfolding none by force
qed

text \<open>A cache that holds no answer.\<close>

definition cold_candles :: "(price_call, price_reply, 's) service \<Rightarrow> bool" where
  "cold_candles exec \<longleftrightarrow> (\<forall>k s r s'. exec (Get_Candles k) s = (r, s') \<longrightarrow> r = PCandles None)"

lemma run_price_await:
  "run exec (prog_then (price_await c) f) s =
     (case exec c s of (r, s1) \<Rightarrow> case r of PErr e \<Rightarrow> (Inl (Crash e), s1) | _ \<Rightarrow> run exec (f r) s1)"
  by (simp add: price_await_def split: prod.split price_reply.split)

lemma run_await:
  "run exec (price_await c) s = (case exec c s of (r, s1) \<Rightarrow> case r of PErr e \<Rightarrow> (Inl (Crash e), s1) | _ \<Rightarrow> (Inr r, s1))"
  by (simp add: price_await_def split: prod.split price_reply.split)

lemma getCandles_run:
  assumes "run exec (getCandles tokenA tokenB interval (Fin (of_int f)) (Fin (of_int t)) limit) s = (Inr resp, s')"
    and "price_db_ok exec rows"
  obtains rs where "set rs = {r \<in> rows s. pr_poolId r = cr_poolId resp \<and> pr_interval r = interval \<and>
      f * 1000 \<le> pr_periodStart r \<and> pr_periodStart r \<le> t * 1000}"
    and "cr_candles resp = fillCandleGaps (map candle_of_row rs) (getIntervalSeconds interval) f t limit"
proof -
  let ?find = "Find_Pool (map lower_char tokenA) (map lower_char tokenB)"
  obtain r1 s1 where e1: "exec ?find s = (r1, s1)" by (rule prod.exhaust)
  obtain pool where r1: "r1 = PPool (Some pool)"
    using assms(1) e1 by (auto simp: getCandles_def run_price_await split: price_reply.splits option.splits)
  obtain d1 d2 where d: "date_ms (Fin (of_int f)) = Some d1" "date_ms (Fin (of_int t)) = Some d2"
    using assms(1) e1 r1 by (auto simp: getCandles_def run_price_await split: option.splits)
  obtain r2 s2 where e2: "exec (Find_Candles pool interval d1 d2) s1 = (r2, s2)" by (rule prod.exhaust)
  obtain rs where r2: "r2 = PRows rs"
    using assms(1) e1 r1 d e2 by (auto simp: getCandles_def run_price_await split: price_reply.splits)
  have resp: "resp = \<lparr>cr_poolId = pool, cr_candles = fillCandleGaps (map candle_of_row rs) (getIntervalSeconds interval) f t limit\<rparr>"
    using assms(1) e1 r1 d e2 r2 by (simp add: getCandles_def run_price_await int_of_num_def)
  have "rows s1 = rows s" using assms(2) e1 unfolding price_db_ok_def by metis
  moreover have "exec (Find_Candles p i f t) s = (PRows rs, s') \<Longrightarrow>
      set rs = {r \<in> rows s. pr_poolId r = p \<and> pr_interval r = i \<and> f \<le> pr_periodStart r \<and> pr_periodStart r \<le> t}" for p i f t s s'
    using assms(2) unfolding price_db_ok_def by blast
  ultimately have "set rs = {r \<in> rows s. pr_poolId r = pool \<and> pr_interval r = interval \<and> d1 \<le> pr_periodStart r \<and> pr_periodStart r \<le> d2}"
    using e2 unfolding r2 by simp
  then show ?thesis using that resp date_ms_int [OF d(1)] date_ms_int [OF d(2)] by simp
qed

lemma candle_entries:
  assumes "price_db_ok exec rows" and "cold_candles exec" and "price_rows_ok (rows s)"
    and "candle_window q now = Inr (interval, Fin (of_int f), Fin (of_int t), Fin (of_int L))"
    and "run exec (controller_getCandles tokenA tokenB q now) s = (Inr resp, s')"
  defines "I \<equiv> getIntervalSeconds interval"
  shows "length (cr_candles resp) = nat (min L (t div I - f div I + 1))"
    and "n < length (cr_candles resp) \<Longrightarrow> bucket_row (rows s) (cr_poolId resp) interval ((f div I + int n) * I) r \<Longrightarrow>
      f \<le> (f div I + int n) * I \<Longrightarrow> cr_candles resp ! n = candle_of_row r"
    and "n < length (cr_candles resp) \<Longrightarrow>
      \<not> (\<exists>r. bucket_row (rows s) (cr_poolId resp) interval ((f div I + int n) * I) r \<and> f \<le> (f div I + int n) * I) \<Longrightarrow>
      cr_candles resp ! n = nullCandle ((f div I + int n) * I)"
proof -
  let ?key = "candles_cache_key tokenA tokenB interval (Fin (of_int f)) (Fin (of_int t)) (Fin (of_int L))"
  let ?get = "getCandles tokenA tokenB interval (Fin (of_int f)) (Fin (of_int t)) L"
  obtain r0 s0 where e0: "exec (Get_Candles ?key) s = (r0, s0)" by (rule prod.exhaust)
  then have r0: "r0 = PCandles None" using assms(2) unfolding cold_candles_def by metis
  have rows0: "rows s0 = rows s" using assms(1) e0 unfolding price_db_ok_def by metis
  obtain r1 s1 where g: "run exec ?get s0 = (r1, s1)" by (rule prod.exhaust)
  obtain resp1 where r1: "r1 = Inr resp1"
    using assms(4,5) e0 r0 g
    by (cases r1) (simp_all add: controller_getCandles_def run_await int_of_num_def Let_def run_then)
  then have resp: "resp1 = resp"
    using assms(4,5) e0 r0 g
    by (auto simp: controller_getCandles_def run_await int_of_num_def Let_def run_then
        split: if_splits prod.splits sum.splits)
  obtain rs where rs: "set rs = {r \<in> rows s. pr_poolId r = cr_poolId resp \<and> pr_interval r = interval \<and>
      f * 1000 \<le> pr_periodStart r \<and> pr_periodStart r \<le> t * 1000}"
    and c: "cr_candles resp = fillCandleGaps (map candle_of_row rs) I f t L"
    using getCandles_run [OF g [unfolded r1 resp] assms(1)] unfolding rows0 I_def by blast
  have I: "0 < I" using interval_bounds(1) [of interval] unfolding I_def by simp
  have ft: "f < t" using candle_window_order [OF assms(4)] .
  obtain L' where "Fin (of_int L) = Fin (of_int L')" "1 \<le> L'" by (rule candle_window_limit [OF assms(4)])
  then have L: "0 < L" by simp
  have le: "f div I \<le> t div I" using I ft by (simp add: zdiv_mono1)
  note m = c [unfolded fillCandleGaps_map [OF I L less_imp_le [OF ft]]]
  show len: "length (cr_candles resp) = nat (min L (t div I - f div I + 1))"
  proof -
    have "min (nat L) (nat (t div I - f div I + 1)) = nat (min L (t div I - f div I + 1))" using L le by linarith
    then show ?thesis unfolding m by simp
  qed
  { assume n: "n < length (cr_candles resp)"
    let ?b = "(f div I + int n) * I"
    have "int n \<le> t div I - f div I" using n len L le by (simp add: min_def split: if_splits)
    then have "?b \<le> t div I * I" using I by (intro mult_right_mono) simp_all
    also have "\<dots> \<le> t" using I by (simp add: minus_mod_eq_div_mult [symmetric])
    finally have b: "?b \<le> t" .
    have nth: "cr_candles resp ! n = or_else (find (\<lambda>c. pc_time c = ?b) (rev (map candle_of_row rs))) (nullCandle ?b)"
      using n by (simp add: m Let_def)
    { assume "bucket_row (rows s) (cr_poolId resp) interval ?b r" "f \<le> ?b"
      then show "cr_candles resp ! n = candle_of_row r" using nth find_candle(1) [OF assms(3) rs _ _ b] by simp }
    assume "\<not> (\<exists>r. bucket_row (rows s) (cr_poolId resp) interval ?b r \<and> f \<le> ?b)"
    then show "cr_candles resp ! n = nullCandle ?b" using nth find_candle(2) [OF assms(3) rs] by simp }
qed

text \<open>C34: A request for candles whose answer is not cached is answered with one entry per bucket from the one that holds
  \<open>from\<close> to the one that holds \<open>to\<close>, cut off at the limit; an entry is the stored candle of its bucket if that starts
  inside the window, and a gap otherwise.\<close>

theorem candles_per_bucket:
  assumes "price_db_ok exec rows" and "cold_candles exec" and "price_rows_ok (rows s)"
    and "candle_window q now = Inr (interval, Fin (of_int f), Fin (of_int t), Fin (of_int L))"
    and "run exec (controller_getCandles tokenA tokenB q now) s = (Inr resp, s')"
    and "n < length (cr_candles resp)" and "b = (f div getIntervalSeconds interval + int n) * getIntervalSeconds interval"
  shows "length (cr_candles resp) = nat (min L (t div getIntervalSeconds interval - f div getIntervalSeconds interval + 1)) \<and>
    (if \<exists>r. bucket_row (rows s) (cr_poolId resp) interval b r \<and> f \<le> b
     then \<exists>r. bucket_row (rows s) (cr_poolId resp) interval b r \<and> cr_candles resp ! n = candle_of_row r
     else cr_candles resp ! n = nullCandle b)"
  using candle_entries [OF assms(1-5)] assms(6) unfolding assms(7) by meson

text \<open>A request that names no times, on the hour for no interval, gets as many entries as its limit; the first is always
  a gap, also when trades are stored for it, and all lie before the running bucket, whose candle is never shown.\<close>

theorem default_candles_stale:
  assumes "price_db_ok exec rows" and "cold_candles exec" and "price_rows_ok (rows s)"
    and "candle_window q now = Inr (interval, f, t, Fin (of_int L))" and "cq_from q = None" and "cq_to q = None"
    and "run exec (controller_getCandles tokenA tokenB q now) s = (Inr resp, s')"
    and "0 \<le> now" and "now div 1000 \<le> 2 ^ 52" and "\<not> getIntervalSeconds interval dvd now div 1000"
  shows "int (length (cr_candles resp)) = L \<and> pc_values (cr_candles resp ! 0) = None \<and>
    pc_time (last (cr_candles resp)) < now div 1000 div getIntervalSeconds interval * getIntervalSeconds interval"
proof -
  let ?I = "getIntervalSeconds interval" and ?T = "now div 1000"
  obtain L' where "Fin (of_int L) = Fin (of_int L')" "1 \<le> L'" "L' \<le> 500" by (rule candle_window_limit [OF assms(4)])
  then have L: "1 \<le> L" "L \<le> 500" by simp_all
  note w = default_window [OF assms(4,5,6,8,9) L]
  note e = candle_entries [OF assms(1,2,3) _ assms(7), where f = "?T - ?I * L" and t = ?T and L = L and interval = interval,
      OF assms(4) [unfolded w]]
  have I: "0 < ?I" using interval_bounds(1) [of interval] by simp
  have start: "(?T - ?I * L) div ?I = ?T div ?I - L" using I div_mult_self2 [of ?I ?T "- L"] by simp
  have len: "length (cr_candles resp) = nat L" using e(1) L by (simp add: start)
  have "?T div ?I * ?I \<noteq> ?T" using assms(10) by (metis dvd_triv_right)
  moreover have "?T div ?I * ?I \<le> ?T" using I by (simp add: minus_mod_eq_div_mult [symmetric])
  ultimately have lt: "(?T div ?I - L) * ?I < ?T - ?I * L" by (simp add: algebra_simps)
  have "cr_candles resp ! 0 = nullCandle ((?T div ?I - L) * ?I)"
    using e(3) [of 0] len L lt by (simp add: start)
  moreover have "pc_time (cr_candles resp ! n) = (?T div ?I - L + int n) * ?I" if "n < length (cr_candles resp)" for n
  proof (cases "\<exists>r. bucket_row (rows s) (cr_poolId resp) interval ((?T div ?I - L + int n) * ?I) r \<and>
      ?T - ?I * L \<le> (?T div ?I - L + int n) * ?I")
    case True
    then obtain r where r: "bucket_row (rows s) (cr_poolId resp) interval ((?T div ?I - L + int n) * ?I) r"
      "?T - ?I * L \<le> (?T div ?I - L + int n) * ?I" by blast
    then have "cr_candles resp ! n = candle_of_row r" using e(2) [OF that] unfolding start by blast
    then show ?thesis using r(1) by (simp add: candle_of_row_def bucket_row_def)
  next
    case False
    then have "cr_candles resp ! n = nullCandle ((?T div ?I - L + int n) * ?I)" using e(3) [OF that] unfolding start by blast
    then show ?thesis by (simp add: nullCandle_def)
  qed
  moreover have "cr_candles resp \<noteq> []" using len L by auto
  then have "last (cr_candles resp) = cr_candles resp ! (nat L - 1)" "nat L - 1 < length (cr_candles resp)"
    using len L by (simp_all add: last_conv_nth)
  ultimately have "pc_time (last (cr_candles resp)) = (?T div ?I - 1) * ?I" using L by simp
  then show ?thesis using I len L \<open>cr_candles resp ! 0 = _\<close> by (simp add: nullCandle_def)
qed

section \<open>Spot price of a pair\<close>

text \<open>The keys of the cache that begin like a spot price: written for the messages of a channel, they end in the pool of the
  channel, a contract id without colon.\<close>

definition spot_keys_ok :: "(string \<Rightarrow> bool) \<Rightarrow> bool" where
  "spot_keys_ok keys \<longleftrightarrow> (\<forall>rest. keys (''price:spot:'' @ rest) \<longrightarrow> CHR '':'' \<notin> set rest)"

text \<open>The cache answers with a value only for a key that it holds; reading changes no keys.\<close>

definition spot_cache_ok :: "(price_call, price_reply, 's) service \<Rightarrow> ('s \<Rightarrow> string \<Rightarrow> bool) \<Rightarrow> bool" where
  "spot_cache_ok exec keys \<longleftrightarrow>
     (\<forall>k s r s'. exec (Get_Event k) s = (r, s') \<longrightarrow>
        (r = PEvent None \<or> keys s k \<and> (\<exists>e. r = PEvent (Some e))) \<and> keys s' = keys s) \<and>
     (\<forall>k s r s'. exec (Get_Pair k) s = (r, s') \<longrightarrow>
        (r = PPair None \<or> keys s k \<and> (\<exists>p. r = PPair (Some p))) \<and> keys s' = keys s)"

definition pair_key_call :: "price_call \<Rightarrow> bool" where
  "pair_key_call c \<longleftrightarrow> (\<exists>rest. CHR '':'' \<in> set rest \<and> (c = Get_Event (''price:spot:'' @ rest) \<or> c = Get_Pair (''price:spot:'' @ rest)))"

definition nothing_found :: "price_call \<Rightarrow> price_reply \<Rightarrow> bool" where
  "nothing_found c r \<longleftrightarrow> (case c of Get_Event k \<Rightarrow> r = PEvent None | Get_Pair k \<Rightarrow> r = PPair None | _ \<Rightarrow> True)"

lemma spot_key_shape: "\<exists>rest. spotPriceCacheKey a b = ''price:spot:'' @ rest \<and> CHR '':'' \<in> set rest"
  by (auto simp: spotPriceCacheKey_def split: prod.split)

lemma pair_price_meets:
  "meets pair_key_call nothing_found (\<lambda>r. r = Inl (not_found ''No pool found'' a b)) (getTokenPairPrice iso_text a b)"
proof -
  obtain rest where k: "spotPriceCacheKey a b = ''price:spot:'' @ rest" "CHR '':'' \<in> set rest"
    using spot_key_shape by blast
  have c1: "pair_key_call (Get_Pair (spotPriceCacheKey a b))" unfolding pair_key_call_def using k by blast
  have c2: "pair_key_call (Get_Event (''price:spot:'' @ spotPriceCacheKey a b))"
    unfolding pair_key_call_def using k(2) unfolding k(1) by (intro exI [of _ "''price:spot:'' @ rest"]) simp
  show ?thesis using c1 c2
    by (simp add: getTokenPairPrice_def getSpotPrice_def price_await_def nothing_found_def Let_def)
qed

text \<open>C36: However many requests for the spot price of a pair are served, while prices keep arriving for pools whose ids
  have no colon: each one is answered that no pool was found. The price of a pair is looked up under its two
  tokens, with the prefix of the key put on twice, and prices are stored under the pool.\<close>

theorem pair_price_never_found:
  assumes "spot_cache_ok exec keys" and "\<And>s s'. drift s s' \<Longrightarrow> spot_keys_ok (keys s) \<Longrightarrow> spot_keys_ok (keys s')"
    and "spot_keys_ok (keys s)"
    and "steps exec drift (map (\<lambda>(a, b). getTokenPairPrice iso_text a b) pairs, s) tr (ts', s')"
    and "i < length pairs" and "ts' ! i = Ret r"
  shows "r = Inl (not_found ''No pool found'' (fst (pairs ! i)) (snd (pairs ! i)))"
proof -
  have ev: "(r = PEvent None \<or> keys s k) \<and> keys s' = keys s" if "exec (Get_Event k) s = (r, s')" for k s r s'
    using assms(1) that unfolding spot_cache_ok_def by blast
  have pr: "(r = PPair None \<or> keys s k) \<and> keys s' = keys s" if "exec (Get_Pair k) s = (r, s')" for k s r s'
    using assms(1) that unfolding spot_cache_ok_def by blast
  let ?P = "\<lambda>i r. r = Inl (not_found ''No pool found'' (fst (pairs ! i)) (snd (pairs ! i)))"
  have "spot_keys_ok (keys s') \<and> (\<forall>i < length ts'. meets pair_key_call nothing_found (?P i) (ts' ! i)) \<and>
      (\<forall>(i, c, r) \<in> set tr. pair_key_call c)"
  proof (rule steps_meets [where I = "\<lambda>s. spot_keys_ok (keys s)", OF assms(4) _ assms(3)])
    fix i assume "i < length (map (\<lambda>(a, b). getTokenPairPrice iso_text a b) pairs)"
    then show "meets pair_key_call nothing_found (?P i) (map (\<lambda>(a, b). getTokenPairPrice iso_text a b) pairs ! i)"
      using pair_price_meets by (simp add: case_prod_beta)
  next
    fix c s r s'
    assume e: "exec c s = (r, s')" and c: "pair_key_call c" and ok: "spot_keys_ok (keys s)"
    obtain rest where rest: "CHR '':'' \<in> set rest"
      and cc: "c = Get_Event (''price:spot:'' @ rest) \<or> c = Get_Pair (''price:spot:'' @ rest)"
      using c unfolding pair_key_call_def by (elim exE conjE) (rule that)
    have no: "\<not> keys s (''price:spot:'' @ rest)" using ok [unfolded spot_keys_ok_def, rule_format, of rest] rest by argo
    have "nothing_found c r \<and> keys s' = keys s"
    proof (rule disjE [OF cc])
      assume c1: "c = Get_Event (''price:spot:'' @ rest)"
      show ?thesis using ev [OF e [unfolded c1]] no by (simp add: c1 nothing_found_def)
    next
      assume c1: "c = Get_Pair (''price:spot:'' @ rest)"
      show ?thesis using pr [OF e [unfolded c1]] no by (simp add: c1 nothing_found_def)
    qed
    then show "nothing_found c r \<and> spot_keys_ok (keys s')" using ok by simp
  qed (rule assms(2))
  moreover have "length ts' = length pairs" using steps_length [OF assms(4)] by simp
  ultimately have "meets pair_key_call nothing_found (?P i) (ts' ! i)" using assms(5) by presburger
  then show ?thesis unfolding assms(6) meets.simps .
qed

section \<open>Concrete runs\<close>

text \<open>A cache with the price of pool \<^verbatim>\<open>P1\<close> and its candles of an hour.\<close>

definition demo_event :: price_event where
  "demo_event = \<lparr>pe_poolId = ''P1'', pe_currentPrice = ''2'', pe_sqrtPrice = ''1'', pe_tick = Fin 0, pe_liquidity = ''5'',
     pe_timestamp = Fin 7200000, pe_change24h = None\<rparr>"

definition demo_price_row :: "int \<Rightarrow> price_row" where
  "demo_price_row hour = \<lparr>pr_poolId = ''P1'', pr_interval = ''1h'', pr_periodStart = hour * 3600000, pr_open = ''1'', pr_high = ''2'',
     pr_low = ''1'', pr_close = ''2'', pr_volumeUsd = ''10''\<rparr>"

fun mem_prices :: "(price_call, price_reply, price_row list) service" where
  "mem_prices (Get_Event k) s = (PEvent (if k = ''price:spot:P1'' then Some demo_event else None), s)"
| "mem_prices (Get_Pair k) s = (PPair None, s)"
| "mem_prices (Get_Candles k) s = (PCandles None, s)"
| "mem_prices (Find_Pool a b) s = (PPool (if (a, b) = (''a'', ''b'') then Some ''P1'' else None), s)"
| "mem_prices (Find_Candles p i f t) s =
     (PRows (filter (\<lambda>r. pr_poolId r = p \<and> pr_interval r = i \<and> f \<le> pr_periodStart r \<and> pr_periodStart r \<le> t) s), s)"
| "mem_prices (Set_Pair k v t) s = (PDone, s)"
| "mem_prices (Set_Candles k v t) s = (PDone, s)"

lemma mem_prices_db: "price_db_ok mem_prices set"
proof -
  have "mem_prices c s = (r, s') \<Longrightarrow> s' = s" for c s r s' by (cases c) auto
  then show ?thesis by (auto simp: price_db_ok_def)
qed

lemma mem_prices_cold: "cold_candles mem_prices"
  by (simp add: cold_candles_def)

lemma mem_prices_spot: "spot_cache_ok mem_prices (\<lambda>s k. k = ''price:spot:P1'')"
  by (auto simp: spot_cache_ok_def split: if_splits)

definition demo_price_rows :: "price_row list" where
  "demo_price_rows = map demo_price_row [8, 9, 10]"

lemma demo_price_rows_ok: "price_rows_ok (set demo_price_rows)"
  by (simp add: price_rows_ok_def demo_price_rows_def demo_price_row_def)

text \<open>Half past ten, two hourly candles: eight o'clock, which has a stored candle, is a gap; ten o'clock is missing.\<close>

definition demo_candle_query :: candle_query where
  "demo_candle_query = \<lparr>cq_interval = None, cq_from = None, cq_to = None, cq_limit = Some ''2''\<rparr>"

lemma demo_window: "candle_window demo_candle_query 37800000 =
    Inr (''1h'', Fin (of_int 30600), Fin (of_int 37800), Fin (of_int 2))"
  by code_simp

lemma demo_candles_run:
  "\<exists>s'. run mem_prices (controller_getCandles ''A'' ''B'' demo_candle_query 37800000) demo_price_rows =
     (Inr \<lparr>cr_poolId = ''P1'', cr_candles = [nullCandle 28800, candle_of_row (demo_price_row 9)]\<rparr>, s')"
proof -
  have "fst (run mem_prices (controller_getCandles ''A'' ''B'' demo_candle_query 37800000) demo_price_rows) =
     Inr \<lparr>cr_poolId = ''P1'', cr_candles = [nullCandle 28800, candle_of_row (demo_price_row 9)]\<rparr>" by code_simp
  then show ?thesis by (metis prod.collapse)
qed

theorem candles_per_bucket_witness:
  "\<exists>r. bucket_row (set demo_price_rows) ''P1'' ''1h'' 32400 r"
proof -
  obtain s' where run: "run mem_prices (controller_getCandles ''A'' ''B'' demo_candle_query 37800000) demo_price_rows =
     (Inr \<lparr>cr_poolId = ''P1'', cr_candles = [nullCandle 28800, candle_of_row (demo_price_row 9)]\<rparr>, s')"
    using demo_candles_run by blast
  have b: "(32400::int) = (30600 div getIntervalSeconds ''1h'' + int 1) * getIntervalSeconds ''1h''" by code_simp
  show ?thesis
    using candles_per_bucket [OF mem_prices_db mem_prices_cold demo_price_rows_ok demo_window run, of 1 32400] b
    by (auto simp: nullCandle_def candle_of_row_def split: if_splits)
qed

theorem default_candles_stale_witness:
  "\<exists>s' resp. run mem_prices (controller_getCandles ''A'' ''B'' demo_candle_query 37800000) demo_price_rows = (Inr resp, s') \<and>
     pc_values (cr_candles resp ! 0) = None \<and> pc_time (last (cr_candles resp)) < 36000 \<and>
     demo_price_row 8 \<in> set demo_price_rows \<and> demo_price_row 10 \<in> set demo_price_rows"
proof -
  obtain s' resp where run: "run mem_prices (controller_getCandles ''A'' ''B'' demo_candle_query 37800000) demo_price_rows = (Inr resp, s')"
    using demo_candles_run by blast
  have "\<not> getIntervalSeconds ''1h'' dvd 37800000 div 1000" "(37800000::int) div 1000 div getIntervalSeconds ''1h'' * getIntervalSeconds ''1h'' = 36000"
    by code_simp+
  then have "pc_values (cr_candles resp ! 0) = None \<and> pc_time (last (cr_candles resp)) < 36000"
    using default_candles_stale [OF mem_prices_db mem_prices_cold demo_price_rows_ok demo_window _ _ run]
    by (simp add: demo_candle_query_def)
  then show ?thesis using run by (simp add: demo_price_rows_def)
qed

theorem pair_price_never_found_witness:
  "\<exists>tr s'. steps mem_prices (\<lambda>_ _. False) ([getTokenPairPrice (\<lambda>_. None) ''A'' ''B''], []) tr
     ([Ret (Inl (not_found ''No pool found'' ''A'' ''B''))], s')"
proof -
  let ?m = "getTokenPairPrice (\<lambda>_. None) ''A'' ''B''"
  obtain tr where st: "steps mem_prices (\<lambda>_ _. False) ([?m], []) tr ([Ret (fst (run mem_prices ?m []))], snd (run mem_prices ?m []))"
    using run_steps [of mem_prices "\<lambda>_ _. False" ?m "[]"] by blast
  moreover have "fst (run mem_prices ?m []) = Inl (not_found ''No pool found'' ''A'' ''B'')"
    using pair_price_never_found [OF mem_prices_spot, where pairs = "[(''A'', ''B'')]" and i = 0 and drift = "\<lambda>_ _. False"
        and s = "[]" and iso_text = "\<lambda>_. None"] st by (simp add: spot_keys_ok_def)
  ultimately show ?thesis by auto
qed

end
