(* ===== verification/Js_Accuracy.thy ===== *)
theory Js_Accuracy
  imports Js_Rounding
begin

text \<open>
  Relative errors of double arithmetic on non-negative numbers: \<open>near k x y\<close> says that \<open>y\<close> is \<open>x\<close> up to \<open>k\<close> roundings.
\<close>

definition round_lo :: rat where
  "round_lo = 1 - 1 / 2 ^ 53"

definition round_hi :: rat where
  "round_hi = 1 + 1 / 2 ^ 53"

lemma round_factors: "0 < round_lo" "0 \<le> round_lo" "round_lo \<le> 1" "0 < round_hi" "0 \<le> round_hi" "1 \<le> round_hi"
  by (simp_all add: round_lo_def round_hi_def)

definition near :: "nat \<Rightarrow> rat \<Rightarrow> rat \<Rightarrow> bool" where
  "near k x y \<longleftrightarrow> x * round_lo ^ k \<le> y \<and> y \<le> x * round_hi ^ k"

lemma near_refl [simp]: "near 0 x x"
  by (simp add: near_def)

lemma near_zero [simp]: "near k 0 y \<longleftrightarrow> y = 0"
  by (auto simp: near_def)

lemma near_trans: "near j x y \<Longrightarrow> near k y z \<Longrightarrow> near (j + k) x z"
proof -
  assume xy: "near j x y" and yz: "near k y z"
  have "x * round_lo ^ j * round_lo ^ k \<le> y * round_lo ^ k"
    using xy unfolding near_def by (intro mult_right_mono) (simp_all add: round_factors)
  moreover have "y * round_hi ^ k \<le> x * round_hi ^ j * round_hi ^ k"
    using xy unfolding near_def by (intro mult_right_mono) (simp_all add: round_factors)
  ultimately show ?thesis using yz unfolding near_def power_add by (simp add: mult.assoc)
qed

lemma near_add: "near k x y \<Longrightarrow> near k x' y' \<Longrightarrow> near k (x + x') (y + y')"
  unfolding near_def by (simp add: distrib_right)

lemma near_scale: "near k x y \<Longrightarrow> 0 \<le> p \<Longrightarrow> near k (x * p) (y * p)"
proof -
  assume n: "near k x y" and p: "0 \<le> p"
  have "x * round_lo ^ k * p \<le> y * p" and "y * p \<le> x * round_hi ^ k * p"
    using n p unfolding near_def by (auto intro: mult_right_mono)
  then show ?thesis unfolding near_def by (simp add: mult.commute mult.left_commute)
qed

lemma near_divide: "near k x y \<Longrightarrow> 0 < p \<Longrightarrow> near k (x / p) (y / p)"
  using near_scale [of k x y "1 / p"] by simp

lemma near_step: "0 \<le> x \<Longrightarrow> near k x y \<Longrightarrow> near (Suc k) x y"
proof -
  assume x: "0 \<le> x" and n: "near k x y"
  have "x * round_lo ^ Suc k \<le> x * round_lo ^ k"
    using x by (intro mult_left_mono power_decreasing) (simp_all add: round_factors)
  moreover have "x * round_hi ^ k \<le> x * round_hi ^ Suc k"
    using x by (intro mult_left_mono power_increasing) (simp_all add: round_factors)
  ultimately show ?thesis using n unfolding near_def by linarith
qed

lemma near_nonneg: "0 \<le> x \<Longrightarrow> near k x y \<Longrightarrow> 0 \<le> y"
proof -
  assume "0 \<le> x" "near k x y"
  moreover have "0 \<le> x * round_lo ^ k" using \<open>0 \<le> x\<close> by (intro mult_nonneg_nonneg) (simp_all add: round_factors)
  ultimately show ?thesis unfolding near_def by linarith
qed

lemma near_half: "0 \<le> x \<Longrightarrow> near k x y \<Longrightarrow> k \<le> 5 \<Longrightarrow> x / 2 \<le> y"
proof -
  assume x: "0 \<le> x" and n: "near k x y" and k: "k \<le> 5"
  have "round_lo ^ 5 \<le> round_lo ^ k" using k by (intro power_decreasing) (simp_all add: round_factors)
  moreover have "1 / 2 \<le> round_lo ^ 5" by code_simp
  ultimately have "x * (1 / 2) \<le> x * round_lo ^ k" using x by (intro mult_left_mono) linarith+
  then show ?thesis using n unfolding near_def by simp
qed

section \<open>One rounding\<close>

lemma rhe_error: "\<bar>of_int (round_half_even x) - x\<bar> \<le> 1 / 2"
proof -
  define r where "r = x - of_int \<lfloor>x\<rfloor>"
  have r: "0 \<le> r" "r < 1" unfolding r_def by linarith+
  have "of_int (round_half_even x) - x = (if r < 1 / 2 \<or> r = 1 / 2 \<and> even \<lfloor>x\<rfloor> then - r else 1 - r)"
    by (auto simp: round_half_even_def Let_def r_def)
  then show ?thesis using r by (auto split: if_splits)
qed

text \<open>The smallest normal number.\<close>

lemma round_pos_error:
  assumes "2 powi (- 1022) \<le> x"
  shows "\<bar>round_pos x - x\<bar> \<le> x / 2 ^ 53"
proof -
  have x: "0 < x" using assms powi_pos [of "- 1022"] by linarith
  have b: "2 powi (rat_exp2 x) \<le> x" "x < 2 powi (rat_exp2 x + 1)" using rat_exp2_bounds [OF x] by auto
  have "- 1022 \<le> rat_exp2 x"
  proof (rule ccontr)
    assume "\<not> - 1022 \<le> rat_exp2 x"
    then have "2 powi (rat_exp2 x + 1) \<le> (2::rat) powi (- 1022)" by (intro powi2_mono) simp
    then show False using b(2) assms by linarith
  qed
  then have e: "dexp x = rat_exp2 x" by (simp add: dexp_def)
  define u where "u = (2::rat) powi (rat_exp2 x - 52)"
  have u: "0 < u" unfolding u_def by (rule powi_pos)
  have "u * 2 ^ 52 = 2 powi (rat_exp2 x)"
    unfolding u_def by (simp add: power_int_diff)
  then have ux: "u * 2 ^ 52 \<le> x" using b(1) by simp
  have "round_pos x - x = (of_int (round_half_even (x / u)) - x / u) * u"
    using u by (simp add: round_pos_eq e u_def [symmetric] left_diff_distrib)
  then have "\<bar>round_pos x - x\<bar> = \<bar>of_int (round_half_even (x / u)) - x / u\<bar> * u"
    using u by (simp add: abs_mult)
  also have "\<dots> \<le> 1 / 2 * u" using rhe_error u by (intro mult_right_mono) auto
  also have "\<dots> \<le> x / 2 ^ 53" using ux by simp
  finally show ?thesis .
qed

lemma powi_min_le: "(2::rat) powi (- 1022) \<le> 1 / 10 ^ 300"
proof -
  have "(10::rat) ^ 300 = (10 ^ 3) ^ 100" by (simp only: power_mult [symmetric]) simp
  also have "\<dots> \<le> (2 ^ 10) ^ 100" by (intro power_mono) simp_all
  also have "\<dots> \<le> 2 ^ 1022" by (simp only: power_mult [symmetric]) (intro power_increasing; simp)
  finally have "1 / 2 ^ 1022 \<le> (1::rat) / 10 ^ 300" by (intro divide_left_mono) simp_all
  then show ?thesis by (simp only: power_int_minus power_int_numeral inverse_eq_divide)
qed

lemma near_round:
  assumes "x = 0 \<or> 1 / 10 ^ 300 \<le> x" and "to_double x = Fin y"
  shows "near 1 x y"
proof (cases "x = 0")
  case True
  then show ?thesis using assms(2) by simp
next
  case False
  then have l: "2 powi (- 1022) \<le> x" using assms(1) powi_min_le by linarith
  then have "0 < x" using powi_pos [of "- 1022"] by linarith
  then have "y = round_pos x" using assms(2) by (simp add: to_double_pos split: if_splits)
  then have "\<bar>y - x\<bar> \<le> x / 2 ^ 53" using round_pos_error [OF l] by simp
  then have "x - x / 2 ^ 53 \<le> y" "y \<le> x + x / 2 ^ 53" by linarith+
  then show ?thesis unfolding near_def round_lo_def round_hi_def by (simp add: right_diff_distrib distrib_left)
qed

section \<open>Finite results\<close>

lemma jadd_Fin_iff: "jadd a b = Fin z \<longleftrightarrow> (\<exists>x y. a = Fin x \<and> b = Fin y \<and> to_double (x + y) = Fin z)"
  by (cases a; cases b) auto

lemma jdiv_Fin_iff: "0 < q \<Longrightarrow> jdiv a (Fin q) = Fin z \<longleftrightarrow> (\<exists>x. a = Fin x \<and> to_double (x / q) = Fin z)"
  by (cases a) auto

lemma jmul_Fin_iff: "0 < q \<Longrightarrow> jmul a (Fin q) = Fin z \<longleftrightarrow> (\<exists>x. a = Fin x \<and> to_double (x * q) = Fin z)"
  by (cases a) auto

end
