(* ===== verification/Pool_Stats.thy ===== *)
theory Pool_Stats
  imports Position_Math Js_Text
begin

text \<open>
  The figures of a pool, \<^verbatim>\<open>apps/api/src/stats\<close>: the value locked in its positions (\<^verbatim>\<open>pool-tvl.ts\<close>), volume and fees of
  swaps, and the price-consistency checks (\<^verbatim>\<open>volume-metrics.ts\<close>, and the copies in \<^verbatim>\<open>stats.service.ts\<close> and
  \<^verbatim>\<open>usd-price-feed.service.ts\<close>). Reserves are BigInt (\<open>int\<close>), dollars are doubles; dates are numbers of milliseconds.
\<close>

section \<open>Value locked (\<^verbatim>\<open>pool-tvl.ts\<close>)\<close>

record tvl_position =
  tp_lowerTick :: jsnum
  tp_upperTick :: jsnum
  tp_liquidity :: string

record pool_tvl_input =
  ti_currentSqrtPrice :: string
  ti_positions :: "tvl_position list"
  ti_price0 :: jsnum
  ti_price1 :: jsnum
  ti_decimals0 :: jsnum
  ti_decimals1 :: jsnum

definition scaleReserve :: "int \<Rightarrow> nat \<Rightarrow> jsnum" where
  "scaleReserve reserve decimals =
     (let scale = 10 ^ decimals; whole = reserve sdiv scale; remainder = reserve smod scale in
      jadd (num_of_int whole) (jdiv (num_of_int remainder) (num_of_int (10 ^ decimals))))"

definition usable_price :: "jsnum \<Rightarrow> bool" where
  "usable_price p = (is_finite p \<and> \<not> jle p (Fin 0))"

definition valid_decimals :: "jsnum \<Rightarrow> bool" where
  "valid_decimals d = (is_integer d \<and> \<not> jlt d (Fin 0) \<and> \<not> jlt (Fin 18) d)"

definition decimals_nat :: "jsnum \<Rightarrow> nat" where
  "decimals_nat d = nat \<lfloor>fin_val d\<rfloor>"

text \<open>The digits of a liquidity, \<^verbatim>\<open>/^\d+$/\<close>.\<close>

definition parse_liquidity :: "string \<Rightarrow> int option" where
  "parse_liquidity s = (if s \<noteq> [] \<and> list_all is_digit s then bigint_of_string s else None)"

definition valid_tick_range :: "tvl_position \<Rightarrow> bool" where
  "valid_tick_range p = (is_integer (tp_lowerTick p) \<and> is_integer (tp_upperTick p) \<and> jlt (tp_lowerTick p) (tp_upperTick p))"

text \<open>The body of the loop over the positions: what one of them adds to the reserves.\<close>

definition position_reserves :: "int \<Rightarrow> tvl_position \<Rightarrow> js_exn + amounts" where
  "position_reserves sqrtPriceX96 p =
     (if \<not> valid_tick_range p then Inl (PlainError ''Indexed position tick range is invalid'')
      else (case parse_liquidity (tp_liquidity p) of
          None \<Rightarrow> Inl (PlainError ''Indexed position liquidity is invalid'')
        | Some liquidity \<Rightarrow>
            if liquidity = 0 then Inr \<lparr>amount0 = 0, amount1 = 0\<rparr>
            else bind_result (tickToSqrtPriceX96 \<lfloor>fin_val (tp_lowerTick p)\<rfloor>) (\<lambda>lower.
              bind_result (tickToSqrtPriceX96 \<lfloor>fin_val (tp_upperTick p)\<rfloor>) (\<lambda>upper.
              getAmountsForLiquidity sqrtPriceX96 lower upper liquidity))))"

fun pool_reserves :: "int \<Rightarrow> tvl_position list \<Rightarrow> int \<Rightarrow> int \<Rightarrow> js_exn + int \<times> int" where
  "pool_reserves sqrtPriceX96 [] reserve0 reserve1 = Inr (reserve0, reserve1)"
| "pool_reserves sqrtPriceX96 (p # ps) reserve0 reserve1 =
     bind_result (position_reserves sqrtPriceX96 p) (\<lambda>a.
       pool_reserves sqrtPriceX96 ps (reserve0 + amount0 a) (reserve1 + amount1 a))"

definition reserves_value :: "pool_tvl_input \<Rightarrow> int \<Rightarrow> int \<Rightarrow> jsnum" where
  "reserves_value i reserve0 reserve1 =
     jadd (jmul (scaleReserve reserve0 (decimals_nat (ti_decimals0 i))) (ti_price0 i))
          (jmul (scaleReserve reserve1 (decimals_nat (ti_decimals1 i))) (ti_price1 i))"

definition checked_tvl :: "pool_tvl_input \<Rightarrow> int \<times> int \<Rightarrow> js_exn + jsnum" where
  "checked_tvl i reserves =
     (if fst reserves = 0 \<and> snd reserves = 0 then Inr (Fin 0)
      else (let tvl = reserves_value i (fst reserves) (snd reserves) in
        if \<not> is_finite tvl \<or> jlt tvl (Fin 0) then Inl (PlainError ''Computed pool TVL is invalid'') else Inr tvl))"

definition calculatePoolTvl :: "pool_tvl_input \<Rightarrow> js_exn + jsnum" where
  "calculatePoolTvl i =
     (if \<not> usable_price (ti_price0 i) \<or> \<not> usable_price (ti_price1 i) then Inr (Fin 0)
      else if \<not> valid_decimals (ti_decimals0 i) \<or> \<not> valid_decimals (ti_decimals1 i) then
        Inl (PlainError ''Pool token decimals are invalid'')
      else (case bigint_of_string (ti_currentSqrtPrice i) of
          None \<Rightarrow> Inl (PlainError ''Pool sqrt price is invalid'')
        | Some sqrtPriceX96 \<Rightarrow>
            if sqrtPriceX96 \<le> 0 then Inl (PlainError ''Pool sqrt price is invalid'')
            else bind_result (pool_reserves sqrtPriceX96 (ti_positions i) 0 0) (checked_tvl i)))"

section \<open>Volume and fees (\<^verbatim>\<open>volume-metrics.ts\<close>)\<close>

definition isInHalfOpenWindow :: "jsnum \<Rightarrow> jsnum \<Rightarrow> jsnum \<Rightarrow> bool" where
  "isInHalfOpenWindow timestamp start stop = (is_finite timestamp \<and> jle start timestamp \<and> jlt timestamp stop)"

text \<open>\<^verbatim>\<open>/^-?\d+$/\<close>; BigInt reads such a string.\<close>

definition swap_amount_text :: "string \<Rightarrow> bool" where
  "swap_amount_text s = (let digits = (case s of c # cs \<Rightarrow> if c = CHR ''-'' then cs else s | [] \<Rightarrow> []) in
     digits \<noteq> [] \<and> list_all is_digit digits)"

definition usdAmount :: "string \<Rightarrow> jsnum \<Rightarrow> jsnum \<Rightarrow> js_exn + jsnum" where
  "usdAmount rawAmount decimals priceUsd =
     (if \<not> valid_decimals decimals then Inl (PlainError ''Token decimals are invalid'')
      else if \<not> usable_price priceUsd then Inl (PlainError ''Token USD price is invalid'')
      else if \<not> swap_amount_text rawAmount then Inl (PlainError ''Swap amount is invalid'')
      else (case bigint_of_string rawAmount of
          None \<Rightarrow> Inl (SyntaxError ''Cannot convert to a BigInt'')
        | Some raw \<Rightarrow>
            (let value = jmul (jdiv (num_of_int \<bar>raw\<bar>) (num_of_int (10 ^ decimals_nat decimals))) priceUsd in
             if \<not> is_finite value then Inl (PlainError ''Swap USD amount is invalid'') else Inr value)))"

definition calculateSwapVolumeUsd :: "string \<Rightarrow> string \<Rightarrow> jsnum \<Rightarrow> jsnum \<Rightarrow> jsnum \<Rightarrow> jsnum \<Rightarrow> js_exn + jsnum" where
  "calculateSwapVolumeUsd a0 a1 decimals0 decimals1 price0 price1 =
     bind_result (usdAmount a0 decimals0 price0) (\<lambda>x. bind_result (usdAmount a1 decimals1 price1) (\<lambda>y. Inr (jadd x y)))"

definition calculateSwapFeesUsd :: "string \<Rightarrow> jsnum \<Rightarrow> jsnum \<Rightarrow> js_exn + jsnum" where
  "calculateSwapFeesUsd feeAmount0 decimals0 price0 = usdAmount feeAmount0 decimals0 price0"

section \<open>Price consistency\<close>

definition USD_PRICE_CONSISTENCY_TOLERANCE :: jsnum where
  "USD_PRICE_CONSISTENCY_TOLERANCE = to_double (1 / 100)"

text \<open>\<open>True\<close>: the check returns; \<open>False\<close>: it throws its typed error.\<close>

definition assertUsdPriceConsistency :: "jsnum \<Rightarrow> jsnum \<Rightarrow> jsnum \<Rightarrow> bool" where
  "assertUsdPriceConsistency priceTvl priceVolume tolerance =
     (if \<not> is_finite priceTvl \<or> \<not> is_finite priceVolume then False
      else (let reference = jmax (jabs priceTvl) (jabs priceVolume) in
        if reference = Fin 0 then True
        else \<not> jlt tolerance (jdiv (jabs (jsub priceTvl priceVolume)) reference)))"

definition assertConsistentUsdPrice :: "jsnum \<Rightarrow> jsnum \<Rightarrow> jsnum \<Rightarrow> bool" where
  "assertConsistentUsdPrice tvlPrice volumePrice tolerance =
     (if \<not> is_finite tvlPrice \<or> \<not> is_finite volumePrice then False
      else (let reference = jmax (jabs tvlPrice) (jabs volumePrice);
                divergence = (if reference = Fin 0 then Fin 0 else jdiv (jabs (jsub tvlPrice volumePrice)) reference) in
        \<not> jlt tolerance divergence))"

definition assertConsistentPrice :: "jsnum \<Rightarrow> jsnum \<Rightarrow> jsnum \<Rightarrow> bool" where
  "assertConsistentPrice tvlPrice volumePrice tolerance =
     (if \<not> is_finite tvlPrice \<or> \<not> is_finite volumePrice \<or> jle tvlPrice (Fin 0) \<or> jle volumePrice (Fin 0) then False
      else \<not> jlt tolerance (jdiv (jabs (jsub tvlPrice volumePrice)) tvlPrice))"

end
