(* ===== verification/Pool_Stats_Laws.thy ===== *)
theory Pool_Stats_Laws
  imports Pool_Stats Js_Accuracy Position_Laws "HOL-Library.Multiset"
begin

text \<open>
  What the value locked of a pool is: reserves are the sums over the positions, in any order, and the double returned
  is their exact value up to five roundings. The copies of the price check agree.
\<close>

section \<open>Reserves\<close>

text \<open>What a position adds, as a value; \<open>good\<close> positions add something.\<close>

definition reserves_of :: "int \<Rightarrow> tvl_position \<Rightarrow> amounts" where
  "reserves_of sqrtPrice p = (case position_reserves sqrtPrice p of Inr a \<Rightarrow> a | Inl e \<Rightarrow> \<lparr>amount0 = 0, amount1 = 0\<rparr>)"

definition sum_reserves :: "int \<Rightarrow> tvl_position list \<Rightarrow> (amounts \<Rightarrow> int) \<Rightarrow> int" where
  "sum_reserves sqrtPrice ps side = sum_list (map (\<lambda>p. side (reserves_of sqrtPrice p)) ps)"

lemma pool_reserves_sum:
  "pool_reserves sqrtPrice ps r0 r1 = Inr (x0, x1) \<longleftrightarrow>
     (\<forall>p \<in> set ps. \<exists>a. position_reserves sqrtPrice p = Inr a) \<and>
     x0 = r0 + sum_reserves sqrtPrice ps amount0 \<and> x1 = r1 + sum_reserves sqrtPrice ps amount1"
proof (induction ps arbitrary: r0 r1)
  case Nil
  then show ?case by (auto simp: sum_reserves_def)
next
  case (Cons p ps)
  show ?case
  proof (cases "position_reserves sqrtPrice p")
    case (Inr a)
    then have "reserves_of sqrtPrice p = a" by (simp add: reserves_of_def)
    then show ?thesis using Inr Cons.IH [of "r0 + amount0 a" "r1 + amount1 a"] by (simp add: sum_reserves_def add.assoc)
  qed simp
qed

lemma sum_reserves_mset: "mset ps = mset qs \<Longrightarrow> sum_reserves sqrtPrice ps side = sum_reserves sqrtPrice qs side"
  unfolding sum_reserves_def by (metis mset_map sum_mset_sum_list)

lemma pool_reserves_mset:
  "mset ps = mset qs \<Longrightarrow> pool_reserves sqrtPrice ps r0 r1 = Inr x \<Longrightarrow> pool_reserves sqrtPrice qs r0 r1 = Inr x"
  using sum_reserves_mset [of ps qs sqrtPrice] mset_eq_setD [of ps qs]
  by (cases x) (simp add: pool_reserves_sum)

lemma parse_liquidity_nonneg: "parse_liquidity s = Some l \<Longrightarrow> 0 \<le> l"
proof -
  assume "parse_liquidity s = Some l"
  then have s: "s \<noteq> []" "list_all is_digit s" and b: "bigint_of_string s = Some l"
    by (auto simp: parse_liquidity_def split: if_splits)
  have "l = digits_value 10 0 s" using bigint_of_digits [OF s] b by simp
  then show ?thesis using digits_value_ge [of 0 s] s(2) by simp
qed

lemma position_reserves_nonneg:
  assumes "position_reserves sqrtPrice p = Inr a"
  shows "0 \<le> amount0 a" and "0 \<le> amount1 a"
proof -
  obtain l where l: "parse_liquidity (tp_liquidity p) = Some l" and v: "valid_tick_range p"
    using assms by (auto simp: position_reserves_def split: if_splits option.splits)
  have n: "0 \<le> l" using parse_liquidity_nonneg [OF l] .
  have "0 \<le> amount0 a \<and> 0 \<le> amount1 a"
  proof (cases "l = 0")
    case True
    then show ?thesis using assms l v by (auto simp: position_reserves_def)
  next
    case False
    then obtain lo up where lo: "tickToSqrtPriceX96 \<lfloor>fin_val (tp_lowerTick p)\<rfloor> = Inr lo"
      and up: "tickToSqrtPriceX96 \<lfloor>fin_val (tp_upperTick p)\<rfloor> = Inr up"
      and g: "getAmountsForLiquidity sqrtPrice lo up l = Inr a"
      using assms l v by (auto simp: position_reserves_def bind_result_Inr_iff)
    obtain x y where xy: "tp_lowerTick p = Fin x" "tp_upperTick p = Fin y" "x < y"
      using v by (cases "tp_lowerTick p"; cases "tp_upperTick p") (auto simp: valid_tick_range_def)
    then have le: "\<lfloor>fin_val (tp_lowerTick p)\<rfloor> \<le> \<lfloor>fin_val (tp_upperTick p)\<rfloor>" by (simp add: floor_mono)
    have "1 \<le> lo" using tick_price_pos [OF lo] .
    moreover have "lo \<le> up" using tick_price_mono [OF lo up le] .
    ultimately show ?thesis using amounts_bounds [of lo up l sqrtPrice] n g by auto
  qed
  then show "0 \<le> amount0 a" and "0 \<le> amount1 a" by auto
qed

lemma sum_reserves_nonneg:
  "0 \<le> sum_reserves sqrtPrice ps amount0" "0 \<le> sum_reserves sqrtPrice ps amount1"
proof -
  have "0 \<le> amount0 (reserves_of sqrtPrice p) \<and> 0 \<le> amount1 (reserves_of sqrtPrice p)" for p
    using position_reserves_nonneg [of sqrtPrice p] by (auto simp: reserves_of_def split: sum.split)
  then show "0 \<le> sum_reserves sqrtPrice ps amount0" "0 \<le> sum_reserves sqrtPrice ps amount1"
    unfolding sum_reserves_def by (auto intro!: sum_list_nonneg)
qed

section \<open>Accuracy\<close>

lemma near_num_of_int: "0 \<le> i \<Longrightarrow> num_of_int i = Fin y \<Longrightarrow> near 1 (of_int i) y"
  unfolding num_of_int_def by (rule near_round) (auto simp: order_less_le)

lemma ten_pow_exact: "d \<le> 18 \<Longrightarrow> num_of_int (10 ^ d) = Fin (10 ^ d)"
proof -
  assume "d \<le> 18"
  then have "d \<in> set [0..<19]" by simp
  moreover have "list_all (\<lambda>d. num_of_int (10 ^ d) = Fin (10 ^ d)) [0..<19]" by code_simp
  ultimately show ?thesis by (simp add: list_all_iff)
qed

text \<open>A rounded value of a number that is zero or not tiny.\<close>

lemma near_rounded:
  assumes "near k x y" and "0 \<le> x" and "k \<le> 5" and "x = 0 \<or> 1 / 10 ^ 200 \<le> x" and "to_double y = Fin z"
  shows "near (Suc k) x z"
proof -
  have "y = 0 \<or> 1 / 10 ^ 300 \<le> y"
  proof (cases "x = 0")
    case False
    then have "1 / 10 ^ 200 / 2 \<le> y" using near_half [OF assms(2,1,3)] assms(4) by simp
    moreover have "(1 / 10 ^ 300 :: rat) \<le> 1 / 10 ^ 200 / 2" by simp
    ultimately show ?thesis by linarith
  qed (use assms(1) in simp)
  then have "near 1 y z" using near_round assms(5) by blast
  then show ?thesis using near_trans [OF assms(1), of 1 z] by simp
qed

lemma at_least_one_over: "0 \<le> i \<Longrightarrow> 0 < (s::rat) \<Longrightarrow> s \<le> 10 ^ 18 \<Longrightarrow> (of_int i :: rat) / s = 0 \<or> 1 / 10 ^ 18 \<le> of_int i / s"
proof -
  assume i: "0 \<le> i" and s: "0 < s" "s \<le> 10 ^ 18"
  show ?thesis
  proof (cases "i = 0")
    case False
    then have "(1::rat) \<le> of_int i" using i by simp
    then have "1 / 10 ^ 18 \<le> (1::rat) / s" using s by (intro divide_left_mono) simp_all
    also have "\<dots> \<le> of_int i / s" using \<open>1 \<le> of_int i\<close> s by (intro divide_right_mono) simp_all
    finally show ?thesis ..
  qed simp
qed

lemma not_tiny: "0 \<le> i \<Longrightarrow> d \<le> 18 \<Longrightarrow> (of_int i / 10 ^ d :: rat) = 0 \<or> 1 / 10 ^ 200 \<le> (of_int i / 10 ^ d :: rat)"
proof -
  assume i: "0 \<le> i" and d: "d \<le> 18"
  have "(10::rat) ^ d \<le> 10 ^ 18" using d by (intro power_increasing) simp_all
  then have "(of_int i :: rat) / 10 ^ d = 0 \<or> 1 / 10 ^ 18 \<le> of_int i / (10 ^ d :: rat)"
    using i by (intro at_least_one_over) simp_all
  moreover have "(1 / 10 ^ 200 :: rat) \<le> 1 / 10 ^ 18" by simp
  ultimately show ?thesis by linarith
qed

lemma scaleReserve_near:
  assumes "0 \<le> r" and "d \<le> 18" and "scaleReserve r d = Fin y"
  shows "near 3 (of_int r / 10 ^ d) y"
proof -
  let ?s = "10 ^ d :: int"
  have s: "0 < ?s" by simp
  have wm: "0 \<le> r div ?s" "0 \<le> r mod ?s" using assms(1) s by (auto simp: pos_imp_zdiv_nonneg_iff)
  have qd: "r sdiv ?s = r div ?s" using assms(1) s by (intro sdiv_nonneg_pos) simp_all
  have qm: "r smod ?s = r mod ?s"
    using assms(1) by (cases "r = 0") (simp_all add: signed_modulo_int_def sgn_if)
  note q = qd qm
  obtain W M F where W: "num_of_int (r div ?s) = Fin W" and M: "num_of_int (r mod ?s) = Fin M"
    and F: "to_double (M / 10 ^ d) = Fin F" and y: "to_double (W + F) = Fin y"
    using assms(3) ten_pow_exact [OF assms(2)] s
    by (auto simp: scaleReserve_def Let_def q jadd_Fin_iff jdiv_Fin_iff)
  have "near 1 (of_int (r mod ?s) / 10 ^ d) (M / 10 ^ d)"
    using near_num_of_int [OF wm(2) M] by (intro near_divide) simp_all
  moreover have "(of_int (r mod ?s) / 10 ^ d :: rat) = 0 \<or> 1 / 10 ^ 200 \<le> (of_int (r mod ?s) / 10 ^ d :: rat)" by (rule not_tiny [OF wm(2) assms(2)])
  ultimately have "near (Suc 1) (of_int (r mod ?s) / 10 ^ d) F"
    using F wm(2) by (intro near_rounded) simp_all
  moreover have "near (Suc 1) (of_int (r div ?s)) W"
    using near_num_of_int [OF wm(1) W] wm(1) by (intro near_step) simp_all
  ultimately have "near (Suc 1) (of_int (r div ?s) + of_int (r mod ?s) / 10 ^ d) (W + F)"
    using near_add by blast
  moreover have "r = r div ?s * ?s + r mod ?s" by (rule div_mult_mod_eq [symmetric])
  then have "(of_int r :: rat) = of_int (r div ?s * ?s + r mod ?s)" by (rule arg_cong)
  then have "(of_int r :: rat) = of_int (r div ?s) * 10 ^ d + of_int (r mod ?s)"
    by (simp only: of_int_add of_int_mult of_int_numeral of_int_power)
  then have "of_int (r div ?s) + of_int (r mod ?s) / 10 ^ d = (of_int r / 10 ^ d :: rat)"
    by (simp add: add_divide_distrib)
  ultimately have n: "near (Suc 1) (of_int r / 10 ^ d) (W + F)" by simp
  have "near (Suc (Suc 1)) (of_int r / 10 ^ d) y"
    using near_rounded [OF n _ _ not_tiny [OF assms(1,2)] y] assms(1) by simp
  then show ?thesis by (simp add: numeral_3_eq_3)
qed

text \<open>The exact value of the reserves.\<close>

definition exact_tvl :: "pool_tvl_input \<Rightarrow> int \<Rightarrow> rat" where
  "exact_tvl i sqrtPrice =
     of_int (sum_reserves sqrtPrice (ti_positions i) amount0) / 10 ^ decimals_nat (ti_decimals0 i) * fin_val (ti_price0 i) +
     of_int (sum_reserves sqrtPrice (ti_positions i) amount1) / 10 ^ decimals_nat (ti_decimals1 i) * fin_val (ti_price1 i)"

lemma priced_size:
  assumes "0 \<le> r" and "d \<le> 18" and "1 / 10 ^ 100 \<le> p"
  shows "(of_int r / 10 ^ d * p :: rat) = 0 \<or> 1 / 10 ^ 200 \<le> (of_int r / 10 ^ d * p :: rat)"
    and "0 \<le> (of_int r / 10 ^ d * p :: rat)"
proof -
  have p: "0 < p" using assms(3) by (rule less_le_trans [rotated]) simp
  have ten: "(10::rat) ^ d \<le> 10 ^ 18" using assms(2) by (intro power_increasing) simp_all
  show "(of_int r / 10 ^ d * p :: rat) = 0 \<or> 1 / 10 ^ 200 \<le> (of_int r / 10 ^ d * p :: rat)"
  proof (cases "(of_int r / 10 ^ d :: rat) = 0")
    case False
    then have "1 / 10 ^ 18 \<le> (of_int r / 10 ^ d :: rat)" using at_least_one_over [OF assms(1) _ ten] by auto
    then have "1 / 10 ^ 18 * (1 / 10 ^ 100) \<le> (of_int r / 10 ^ d * p :: rat)"
      using assms(1,3) by (intro mult_mono divide_nonneg_nonneg) simp_all
    moreover have "(1 / 10 ^ 200 :: rat) \<le> 1 / 10 ^ 18 * (1 / 10 ^ 100)" by simp
    ultimately show ?thesis by linarith
  qed simp
  show "0 \<le> (of_int r / 10 ^ d * p :: rat)" using assms(1) p by simp
qed

lemma priced_near:
  assumes "0 \<le> r" and "d \<le> 18" and "1 / 10 ^ 100 \<le> p" and "jmul (scaleReserve r d) (Fin p) = Fin z"
  shows "near 4 (of_int r / 10 ^ d * p) z"
proof -
  have p: "0 < p" using assms(3) by (rule less_le_trans [rotated]) simp
  obtain y where y: "scaleReserve r d = Fin y" and z: "to_double (y * p) = Fin z"
    using assms(4) p by (auto simp: jmul_Fin_iff)
  have "(of_int r / 10 ^ d * p :: rat) = 0 \<or> 1 / 10 ^ 200 \<le> (of_int r / 10 ^ d * p :: rat)"
    by (rule priced_size [OF assms(1-3)])
  moreover have "near 3 (of_int r / 10 ^ d * p) (y * p)" using scaleReserve_near [OF assms(1,2) y] p by (intro near_scale) simp_all
  ultimately have "near (Suc 3) (of_int r / 10 ^ d * p) z"
    using z assms(1) p by (intro near_rounded) simp_all
  then show ?thesis by simp
qed

lemma valid_decimals_nat: "valid_decimals d \<Longrightarrow> decimals_nat d \<le> 18"
  by (cases d) (auto simp: valid_decimals_def decimals_nat_def not_less nat_le_iff floor_le_iff)

lemma reserves_value_near:
  assumes "valid_decimals (ti_decimals0 i)" and "valid_decimals (ti_decimals1 i)"
    and "ti_price0 i = Fin p0" and "ti_price1 i = Fin p1" and "1 / 10 ^ 100 \<le> p0" and "1 / 10 ^ 100 \<le> p1"
    and "0 \<le> r0" and "0 \<le> r1" and "reserves_value i r0 r1 = Fin z"
  shows "near 5 (of_int r0 / 10 ^ decimals_nat (ti_decimals0 i) * p0 + of_int r1 / 10 ^ decimals_nat (ti_decimals1 i) * p1) z"
proof -
  let ?d0 = "decimals_nat (ti_decimals0 i)" and ?d1 = "decimals_nat (ti_decimals1 i)"
  obtain x y where x: "jmul (scaleReserve r0 ?d0) (Fin p0) = Fin x" and y: "jmul (scaleReserve r1 ?d1) (Fin p1) = Fin y"
    and z: "to_double (x + y) = Fin z"
    using assms(9) by (auto simp: reserves_value_def assms(3,4) jadd_Fin_iff)
  let ?a = "of_int r0 / 10 ^ ?d0 * p0" and ?b = "of_int r1 / 10 ^ ?d1 * p1"
  have d: "?d0 \<le> 18" "?d1 \<le> 18" using valid_decimals_nat assms(1,2) by auto
  have n: "near 4 (?a + ?b) (x + y)" using priced_near [OF assms(7) d(1) assms(5) x] priced_near [OF assms(8) d(2) assms(6) y]
    by (rule near_add)
  have a: "?a = 0 \<or> 1 / 10 ^ 200 \<le> ?a" "0 \<le> ?a" using priced_size [OF assms(7) d(1) assms(5)] by auto
  have b: "?b = 0 \<or> 1 / 10 ^ 200 \<le> ?b" "0 \<le> ?b" using priced_size [OF assms(8) d(2) assms(6)] by auto
  have "?a + ?b = 0 \<or> 1 / 10 ^ 200 \<le> ?a + ?b" "0 \<le> ?a + ?b" using a b by linarith+
  then have "near (Suc 4) (?a + ?b) z" using near_rounded [OF n] z by simp
  then show ?thesis by simp
qed

lemma pool_tvl_order:
  assumes "calculatePoolTvl i = Inr v" and "mset qs = mset (ti_positions i)"
  shows "calculatePoolTvl (i\<lparr>ti_positions := qs\<rparr>) = Inr v"
proof (cases "usable_price (ti_price0 i) \<and> usable_price (ti_price1 i)")
  case True
  have u: "checked_tvl (i\<lparr>ti_positions := qs\<rparr>) = checked_tvl i"
    by (simp add: checked_tvl_def reserves_value_def fun_eq_iff)
  obtain s where s: "bigint_of_string (ti_currentSqrtPrice i) = Some s"
    using assms(1) True by (auto simp: calculatePoolTvl_def split: if_splits option.splits)
  obtain r where r: "pool_reserves s (ti_positions i) 0 0 = Inr r"
    using assms(1) True s by (auto simp: calculatePoolTvl_def bind_result_Inr_iff split: if_splits)
  have "pool_reserves s qs 0 0 = Inr r" using pool_reserves_mset [OF assms(2) [symmetric] r] .
  then show ?thesis using assms(1) r s True by (auto simp: calculatePoolTvl_def u split: if_splits)
qed (use assms(1) in \<open>auto simp: calculatePoolTvl_def\<close>)

text \<open>C10: The value locked that a pool reports does not depend on the order of its positions, and it is the exact value of the
  positions' amounts at the prices, up to five roundings of relative size 2^-53, unless a price is below 10^-100.\<close>

theorem pool_tvl_accurate:
  assumes "calculatePoolTvl i = Inr v" and "bigint_of_string (ti_currentSqrtPrice i) = Some sqrtPrice"
    and "ti_price0 i = Fin p0" and "ti_price1 i = Fin p1" and "1 / 10 ^ 100 \<le> p0" and "1 / 10 ^ 100 \<le> p1"
    and "mset qs = mset (ti_positions i)"
  shows "calculatePoolTvl (i\<lparr>ti_positions := qs\<rparr>) = Inr v \<and>
    exact_tvl i sqrtPrice * (1 - 1 / 2 ^ 53) ^ 5 \<le> fin_val v \<and> fin_val v \<le> exact_tvl i sqrtPrice * (1 + 1 / 2 ^ 53) ^ 5"
proof -
  have p: "0 < p0" "0 < p1" using assms(5,6) by (auto elim: less_le_trans [rotated])
  then have ok: "usable_price (ti_price0 i)" "usable_price (ti_price1 i)"
    using assms(3,4) by (auto simp: usable_price_def jle_def jeq_def)
  let ?r0 = "sum_reserves sqrtPrice (ti_positions i) amount0" and ?r1 = "sum_reserves sqrtPrice (ti_positions i) amount1"
  obtain r0 r1 where r: "pool_reserves sqrtPrice (ti_positions i) 0 0 = Inr (r0, r1)"
    and d: "valid_decimals (ti_decimals0 i)" "valid_decimals (ti_decimals1 i)"
    and v: "v = (if r0 = 0 \<and> r1 = 0 then Fin 0 else reserves_value i r0 r1)"
    and f: "is_finite v"
    using assms(1,2) ok by (auto simp: calculatePoolTvl_def checked_tvl_def bind_result_Inr_iff Let_def split: if_splits)
  have e: "r0 = ?r0" "r1 = ?r1" using r by (simp_all add: pool_reserves_sum)
  obtain z where z: "v = Fin z" using f by (cases v) auto
  have "near 5 (exact_tvl i sqrtPrice) z"
  proof (cases "r0 = 0 \<and> r1 = 0")
    case True
    then show ?thesis using e v z by (simp add: exact_tvl_def)
  next
    case False
    then have "reserves_value i r0 r1 = Fin z" using v z by (simp only: if_False)
    from reserves_value_near [OF d assms(3-6) _ _ this] show ?thesis
      using e sum_reserves_nonneg assms(3,4) by (simp add: exact_tvl_def)
  qed
  then show ?thesis using pool_tvl_order [OF assms(1,7)] z
    by (simp only: near_def round_lo_def round_hi_def jsnum.sel)
qed

definition demo_tvl :: pool_tvl_input where
  "demo_tvl = \<lparr>ti_currentSqrtPrice = show_int (2 * Q96),
     ti_positions = [\<lparr>tp_lowerTick = Fin 0, tp_upperTick = Fin 60000, tp_liquidity = ''4000''\<rparr>,
                     \<lparr>tp_lowerTick = Fin 60000, tp_upperTick = Fin 140000, tp_liquidity = ''800''\<rparr>],
     ti_price0 = Fin 3, ti_price1 = Fin 1, ti_decimals0 = Fin 1, ti_decimals1 = Fin 2\<rparr>"

theorem pool_tvl_accurate_witness:
  "calculatePoolTvl (demo_tvl\<lparr>ti_positions := rev (ti_positions demo_tvl)\<rparr>) = Inr (Fin 670) \<and>
    exact_tvl demo_tvl (2 * Q96) * (1 - 1 / 2 ^ 53) ^ 5 \<le> 670 \<and> 670 \<le> exact_tvl demo_tvl (2 * Q96) * (1 + 1 / 2 ^ 53) ^ 5"
proof -
  have "calculatePoolTvl demo_tvl = Inr (Fin 670)" by code_simp
  moreover have "bigint_of_string (ti_currentSqrtPrice demo_tvl) = Some (2 * Q96)" by code_simp
  moreover have "ti_price0 demo_tvl = Fin 3" "ti_price1 demo_tvl = Fin 1" by (simp_all add: demo_tvl_def)
  ultimately show ?thesis using pool_tvl_accurate [of demo_tvl "Fin 670" "2 * Q96" 3 1 "rev (ti_positions demo_tvl)"] by simp
qed

section \<open>Price consistency\<close>

text \<open>Two of the three checks are the same function for a tolerance that is not negative; both are symmetric.\<close>

lemma price_checks_agree:
  "\<not> jlt tolerance (Fin 0) \<Longrightarrow> assertUsdPriceConsistency a b tolerance = assertConsistentUsdPrice a b tolerance"
  by (simp add: assertUsdPriceConsistency_def assertConsistentUsdPrice_def Let_def)

text \<open>The third measures the difference against the first price only and is not symmetric: 100 against 101 passes,
  101 against 100 passes as well, 100 against 101.005 does not, 101.005 against 100 does.\<close>

lemma price_check_asymmetric:
  "\<not> assertConsistentPrice (Fin 100) (to_double (101005 / 1000)) USD_PRICE_CONSISTENCY_TOLERANCE"
  "assertConsistentPrice (to_double (101005 / 1000)) (Fin 100) USD_PRICE_CONSISTENCY_TOLERANCE"
  "assertUsdPriceConsistency (Fin 100) (to_double (101005 / 1000)) USD_PRICE_CONSISTENCY_TOLERANCE"
  by code_simp+

end
