(* ===== verification/Stats_Jobs.thy ===== *)
theory Stats_Jobs
  imports Pool_Stats Json Prog_Wp
begin

text \<open>
  The statistics job and the alerts, \<^verbatim>\<open>apps/api/src/stats\<close>: \<^verbatim>\<open>stats.worker.ts\<close>, \<^verbatim>\<open>tvl-alert.service.ts\<close>,
  \<^verbatim>\<open>stats.service.ts\<close>, \<^verbatim>\<open>stats.controller.ts\<close> and \<^verbatim>\<open>usd-price-feed.service.ts\<close>. Database, cache, clock, price feed and the webhook
  dispatch are calls. The requests that the worker starts together are made in the order they are written; all
  of them only read. Errors are their messages, which are only logged; log lines are left out.
\<close>

section \<open>Rows and calls\<close>

record tvl_threshold =
  th_id :: string
  th_poolId :: string
  th_owner :: string
  th_usd :: jsnum
  th_direction :: string
  th_enabled :: bool
  th_lastTriggered :: "int option"

record tvl_breach =
  tb_thresholdId :: string
  tb_poolId :: string
  tb_owner :: string
  tb_usd :: jsnum
  tb_observed :: jsnum
  tb_direction :: string
  tb_at :: int

record stats_pool =
  sp_id :: string
  sp_token0 :: string
  sp_token1 :: string
  sp_currentSqrtPrice :: string
  sp_tvl :: string
  sp_volume24h :: string

record stats_swap =
  ss_timestamp :: jsnum
  ss_amount0 :: string
  ss_amount1 :: string
  ss_feeAmount :: string

record stats_env =
  se_iso :: "int \<Rightarrow> string"
  se_midnight :: "int \<Rightarrow> int"

datatype st_call =
    Find_Threshold string string
  | Update_Threshold string jsnum string
  | Create_Threshold string string jsnum string
  | List_Thresholds string
  | Disable_Threshold string string
  | Delete_Threshold string string
  | Find_Due string jsnum int int
  | Create_History tvl_breach
  | Set_Triggered string int
  | Dispatch_Event string json
  | Upsert_Snapshot string int jsnum
  | Find_Snapshots string int int
  | Stats_Clock
  | Find_Pools
  | Find_Swaps string int int
  | Find_Token string
  | Find_Positions string
  | Update_Pool string string string string
  | Count_Open_Positions
  | Count_Swaps
  | Stats_Cache_Get string
  | Stats_Cache_Set string json int
  | Fetch_Usd_Prices "string list"

datatype st_reply =
    TErr string
  | TOk
  | TThreshold "tvl_threshold option"
  | TThresholds "tvl_threshold list"
  | TCreated string
  | TSnapshots "(int \<times> jsnum) list"
  | TTime int
  | TPools "stats_pool list"
  | TSwaps "stats_swap list"
  | TDecimals "jsnum option"
  | TPositions "tvl_position list"
  | TCount int
  | TJson "json option"

type_synonym 'a st_prog = "(st_call, st_reply, string + 'a) prog"

definition st_await :: "st_call \<Rightarrow> (st_reply \<Rightarrow> 'a st_prog) \<Rightarrow> 'a st_prog" where
  "st_await c k = Call c (\<lambda>r. case r of TErr e \<Rightarrow> Ret (Inl e) | _ \<Rightarrow> k r)"

definition st_clock :: "(int \<Rightarrow> 'a st_prog) \<Rightarrow> 'a st_prog" where
  "st_clock k = Call Stats_Clock (\<lambda>r. case r of TTime t \<Rightarrow> k t | _ \<Rightarrow> Ret (Inl ''unexpected reply''))"

definition st_odd :: "'a st_prog" where
  "st_odd = Ret (Inl ''unexpected reply'')"

section \<open>Alerts (\<^verbatim>\<open>tvl-alert.service.ts\<close>)\<close>

definition setThreshold :: "string \<Rightarrow> string \<Rightarrow> jsnum \<Rightarrow> string \<Rightarrow> string st_prog" where
  "setThreshold ownerWallet poolId thresholdUsd direction =
     st_await (Find_Threshold poolId ownerWallet) (\<lambda>r. case r of
       TThreshold (Some existing) \<Rightarrow> st_await (Update_Threshold (th_id existing) thresholdUsd direction) (\<lambda>_. Ret (Inr (th_id existing)))
     | TThreshold None \<Rightarrow> st_await (Create_Threshold poolId ownerWallet thresholdUsd direction) (\<lambda>r. case r of
         TCreated i \<Rightarrow> Ret (Inr i) | _ \<Rightarrow> st_odd)
     | _ \<Rightarrow> st_odd)"

definition listThresholds :: "string \<Rightarrow> tvl_threshold list st_prog" where
  "listThresholds ownerWallet = st_await (List_Thresholds ownerWallet) (\<lambda>r. case r of TThresholds ts \<Rightarrow> Ret (Inr ts) | _ \<Rightarrow> st_odd)"

definition disableThreshold :: "string \<Rightarrow> string \<Rightarrow> unit st_prog" where
  "disableThreshold i ownerWallet = st_await (Disable_Threshold i ownerWallet) (\<lambda>_. Ret (Inr ()))"

definition deleteThreshold :: "string \<Rightarrow> string \<Rightarrow> unit st_prog" where
  "deleteThreshold i ownerWallet = st_await (Delete_Threshold i ownerWallet) (\<lambda>_. Ret (Inr ()))"

definition DAY :: int where "DAY = 24 * 60 * 60 * 1000"

definition milestone_data :: "stats_env \<Rightarrow> stats_pool \<Rightarrow> jsnum \<Rightarrow> tvl_threshold \<Rightarrow> int \<Rightarrow> json" where
  "milestone_data env pool tvl th breachedAt =
     JObj [(''poolId'', JStr (sp_id pool)), (''token0'', JStr (sp_token0 pool)), (''token1'', JStr (sp_token1 pool)),
       (''tvlUsd'', JNum tvl), (''threshold'', JNum (th_usd th)), (''direction'', JStr (th_direction th)),
       (''crossedAt'', JStr (se_iso env breachedAt))]"

definition breach_of :: "stats_pool \<Rightarrow> jsnum \<Rightarrow> tvl_threshold \<Rightarrow> int \<Rightarrow> tvl_breach" where
  "breach_of pool tvl th breachedAt =
     \<lparr>tb_thresholdId = th_id th, tb_poolId = sp_id pool, tb_owner = th_owner th, tb_usd = th_usd th, tb_observed = tvl,
       tb_direction = th_direction th, tb_at = breachedAt\<rparr>"

text \<open>The body of the loop over the thresholds, with its \<^verbatim>\<open>try\<close>.\<close>

definition trigger_alert :: "stats_env \<Rightarrow> stats_pool \<Rightarrow> jsnum \<Rightarrow> tvl_threshold \<Rightarrow> unit st_prog" where
  "trigger_alert env pool tvl th =
     prog_catch
       (st_clock (\<lambda>breachedAt.
        st_await (Create_History (breach_of pool tvl th breachedAt)) (\<lambda>_.
        st_await (Set_Triggered (th_id th) breachedAt) (\<lambda>_.
        st_await (Dispatch_Event ''pool.tvl.milestone'' (milestone_data env pool tvl th breachedAt)) (\<lambda>_. Ret (Inr ()))))))
       (\<lambda>_. Ret (Inr ()))"

definition checkAndTriggerAlerts :: "stats_env \<Rightarrow> stats_pool \<Rightarrow> jsnum \<Rightarrow> unit st_prog" where
  "checkAndTriggerAlerts env pool currentTvlUsd =
     st_clock (\<lambda>t1. st_clock (\<lambda>t2.
       st_await (Find_Due (sp_id pool) currentTvlUsd (t1 - DAY) (t2 - DAY)) (\<lambda>r. case r of
         TThresholds ts \<Rightarrow> prog_for ts (trigger_alert env pool currentTvlUsd)
       | _ \<Rightarrow> st_odd)))"

definition recordTvlSnapshot :: "stats_env \<Rightarrow> string \<Rightarrow> jsnum \<Rightarrow> unit st_prog" where
  "recordTvlSnapshot env poolId tvlUsd =
     st_clock (\<lambda>now. prog_catch (st_await (Upsert_Snapshot poolId (se_midnight env now) tvlUsd) (\<lambda>_. Ret (Inr ()))) (\<lambda>_. Ret (Inr ())))"

definition getTvlHistory :: "string \<Rightarrow> int \<Rightarrow> int \<Rightarrow> (int \<times> jsnum) list st_prog" where
  "getTvlHistory poolId startDate endDate =
     st_await (Find_Snapshots poolId startDate endDate) (\<lambda>r. case r of TSnapshots xs \<Rightarrow> Ret (Inr xs) | _ \<Rightarrow> st_odd)"

section \<open>The statistics job (\<^verbatim>\<open>stats.worker.ts\<close>)\<close>

definition usd_price_key :: "string \<Rightarrow> string" where
  "usd_price_key token = ''price:usd:'' @ token"

definition stats_getUsdPrice :: "string \<Rightarrow> jsnum st_prog" where
  "stats_getUsdPrice token =
     st_await (Stats_Cache_Get (usd_price_key token)) (\<lambda>r. case r of
       TJson (Some (JNum x)) \<Rightarrow> if usable_price x then Ret (Inr x) else Ret (Inl (''USD price unavailable for token='' @ token))
     | _ \<Rightarrow> Ret (Inl (''USD price unavailable for token='' @ token)))"

fun sum_usd :: "('a \<Rightarrow> js_exn + jsnum) \<Rightarrow> 'a list \<Rightarrow> jsnum \<Rightarrow> js_exn + jsnum" where
  "sum_usd f [] acc = Inr acc"
| "sum_usd f (x # xs) acc = bind_result (f x) (\<lambda>v. sum_usd f xs (jadd acc v))"

record pool_figures =
  pf_tvl :: jsnum
  pf_volume24h :: jsnum
  pf_volume7d :: jsnum
  pf_feeApr :: jsnum

text \<open>What is computed of the data that was read.\<close>

definition pool_figures_of ::
  "stats_pool \<Rightarrow> stats_swap list \<Rightarrow> int \<Rightarrow> jsnum \<Rightarrow> jsnum \<Rightarrow> jsnum \<Rightarrow> jsnum \<Rightarrow> tvl_position list \<Rightarrow> js_exn + pool_figures" where
  "pool_figures_of pool swaps7d now priceA priceB decimals0 decimals1 positions =
     (let ago24h = now - DAY; ago7d = now - 7 * DAY;
          swapsIn7d = filter (\<lambda>s. isInHalfOpenWindow (ss_timestamp s) (num_of_int ago7d) (num_of_int now)) swaps7d;
          swaps24h = filter (\<lambda>s. isInHalfOpenWindow (ss_timestamp s) (num_of_int ago24h) (num_of_int now)) swapsIn7d;
          volume_of = (\<lambda>s. calculateSwapVolumeUsd (ss_amount0 s) (ss_amount1 s) decimals0 decimals1 priceA priceB);
          fees_of = (\<lambda>s. calculateSwapFeesUsd (ss_feeAmount s) decimals0 priceA)
      in
      bind_result (calculatePoolTvl \<lparr>ti_currentSqrtPrice = sp_currentSqrtPrice pool, ti_positions = positions,
        ti_price0 = priceA, ti_price1 = priceB, ti_decimals0 = decimals0, ti_decimals1 = decimals1\<rparr>) (\<lambda>tvl.
      bind_result (sum_usd volume_of swaps24h (Fin 0)) (\<lambda>volume24h.
      bind_result (sum_usd volume_of swapsIn7d (Fin 0)) (\<lambda>volume7d.
      bind_result (sum_usd fees_of swaps24h (Fin 0)) (\<lambda>fees24h.
      if \<not> is_finite volume24h \<or> \<not> is_finite volume7d \<or> \<not> is_finite fees24h then
        Inl (PlainError ''Computed volume metrics are invalid'')
      else Inr \<lparr>pf_tvl = tvl, pf_volume24h = volume24h, pf_volume7d = volume7d,
        pf_feeApr = (if jlt (Fin 0) tvl then jmul (jmul (jdiv fees24h tvl) (Fin 365)) (Fin 100) else Fin 0)\<rparr>)))))"

definition STATS_CACHE_KEY :: "string \<Rightarrow> string" where
  "STATS_CACHE_KEY poolId = ''stats:pool:'' @ poolId"

definition TTL_STATS :: int where "TTL_STATS = 300"

definition store_figures :: "stats_env \<Rightarrow> stats_pool \<Rightarrow> pool_figures \<Rightarrow> unit st_prog" where
  "store_figures env pool f =
     st_await (Update_Pool (sp_id pool) (num_to_string (pf_tvl f)) (num_to_string (pf_volume24h f)) (num_to_string (pf_feeApr f))) (\<lambda>_.
     st_clock (\<lambda>t.
     st_await (Stats_Cache_Set (STATS_CACHE_KEY (sp_id pool))
       (JObj [(''tvl'', JNum (pf_tvl f)), (''volume24h'', JNum (pf_volume24h f)), (''volume7d'', JNum (pf_volume7d f)),
          (''feeApr'', JNum (pf_feeApr f)), (''updatedAt'', JStr (se_iso env t))]) TTL_STATS) (\<lambda>_. Ret (Inr ()))))"

definition compute_pool :: "stats_env \<Rightarrow> int \<Rightarrow> stats_pool \<Rightarrow> jsnum st_prog" where
  "compute_pool env now pool =
     st_await (Find_Swaps (sp_id pool) (now - 7 * DAY) now) (\<lambda>rs.
     prog_then (stats_getUsdPrice (sp_token0 pool)) (\<lambda>priceA.
     prog_then (stats_getUsdPrice (sp_token1 pool)) (\<lambda>priceB.
     st_await (Find_Token (sp_token0 pool)) (\<lambda>t0.
     st_await (Find_Token (sp_token1 pool)) (\<lambda>t1.
     st_await (Find_Positions (sp_id pool)) (\<lambda>rp.
     case (rs, t0, t1, rp) of
       (TSwaps swaps, TDecimals (Some d0), TDecimals (Some d1), TPositions positions) \<Rightarrow>
         (case pool_figures_of pool swaps now priceA priceB d0 d1 positions of
            Inl e \<Rightarrow> Ret (Inl ''invalid data'')
          | Inr f \<Rightarrow> prog_then (store_figures env pool f) (\<lambda>_. Ret (Inr (pf_tvl f))))
     | _ \<Rightarrow> Ret (Inl ''Pool token metadata is unavailable'')))))))"

text \<open>The body of the loop over the pools, with its \<^verbatim>\<open>try\<close>.\<close>

definition update_pool :: "stats_env \<Rightarrow> int \<Rightarrow> stats_pool \<Rightarrow> unit st_prog" where
  "update_pool env now pool =
     prog_catch
       (prog_then (compute_pool env now pool) (\<lambda>tvl.
        prog_then (recordTvlSnapshot env (sp_id pool) tvl) (\<lambda>_.
        checkAndTriggerAlerts env pool tvl)))
       (\<lambda>_. Ret (Inr ()))"

definition stats_process :: "stats_env \<Rightarrow> unit st_prog" where
  "stats_process env =
     st_await Find_Pools (\<lambda>r. case r of
       TPools pools \<Rightarrow> st_clock (\<lambda>now. prog_for pools (update_pool env now))
     | _ \<Rightarrow> st_odd)"

section \<open>Platform figures (\<^verbatim>\<open>stats.service.ts\<close>, \<^verbatim>\<open>stats.controller.ts\<close>)\<close>

definition computeGlobalStats :: "json st_prog" where
  "computeGlobalStats =
     st_await Find_Pools (\<lambda>rp. st_await Count_Open_Positions (\<lambda>ra. st_await Count_Swaps (\<lambda>rs.
       case (rp, ra, rs) of
         (TPools pools, TCount activePositions, TCount totalSwaps) \<Rightarrow>
           Ret (Inr (JObj
             [(''totalTvl'', JStr (num_to_string (foldl (\<lambda>t p. jadd t (num_of_string (sp_tvl p))) (Fin 0) pools))),
              (''totalVolume24h'', JStr (num_to_string (foldl (\<lambda>t p. jadd t (num_of_string (sp_volume24h p))) (Fin 0) pools))),
              (''poolCount'', JNum (num_of_int (int (length pools)))),
              (''activePositions'', JNum (num_of_int activePositions)), (''totalSwaps'', JNum (num_of_int totalSwaps))]))
       | _ \<Rightarrow> st_odd)))"

definition TTL_GLOBAL_STATS :: int where "TTL_GLOBAL_STATS = 300"

definition getGlobalStats :: "json st_prog" where
  "getGlobalStats =
     st_await (Stats_Cache_Get ''stats:global'') (\<lambda>r.
       case (case r of TJson v \<Rightarrow> if json_truthy v then v else None | _ \<Rightarrow> None) of
         Some cached \<Rightarrow> Ret (Inr cached)
       | None \<Rightarrow> prog_then computeGlobalStats (\<lambda>stats.
           st_await (Stats_Cache_Set ''stats:global'' stats TTL_GLOBAL_STATS) (\<lambda>_. Ret (Inr stats))))"

section \<open>The price feed (\<^verbatim>\<open>usd-price-feed.service.ts\<close>)\<close>

definition feed_getUsdPrice :: "string \<Rightarrow> jsnum st_prog" where
  "feed_getUsdPrice token =
     st_await (Stats_Cache_Get (usd_price_key token)) (\<lambda>r. case r of
       TJson (Some (JNum x)) \<Rightarrow> Ret (Inr (if usable_price x then x else Fin 1))
     | _ \<Rightarrow> Ret (Inr (Fin 1)))"

definition TTL_USD_PRICE :: int where "TTL_USD_PRICE = 600"

text \<open>A price the feed may store: a finite number that is not negative.\<close>

definition feed_price :: "json \<Rightarrow> string \<Rightarrow> jsnum option" where
  "feed_price prices coingeckoId =
     (case Option.bind (json_field prices coingeckoId) (\<lambda>v. json_field v ''usd'') of
        Some (JNum x) \<Rightarrow> if is_finite x \<and> \<not> jlt x (Fin 0) then Some x else None
      | _ \<Rightarrow> None)"

definition refreshPrices :: "(string \<times> string) list \<Rightarrow> unit st_prog" where
  "refreshPrices entries =
     (if entries = [] then Ret (Inr ())
      else Call (Fetch_Usd_Prices (rev (remdups (rev (map snd entries))))) (\<lambda>r. case r of
        TJson (Some prices) \<Rightarrow> prog_for entries (\<lambda>(tokenAddress, coingeckoId).
          (case feed_price prices coingeckoId of
             None \<Rightarrow> Ret (Inr ())
           | Some usd \<Rightarrow> st_await (Stats_Cache_Set (usd_price_key tokenAddress) (JNum usd) TTL_USD_PRICE) (\<lambda>_. Ret (Inr ()))))
      | _ \<Rightarrow> Ret (Inr ())))"

end
