(* ===== verification/Stats_Laws.thy ===== *)
theory Stats_Laws
  imports Stats_Jobs
begin

text \<open>
  Alerts are spaced: one statistics job at a time, with the owners of thresholds doing what they like meanwhile, never
  records two breaches of a threshold within a day, unless a write of that threshold's breach or of its trigger time is
  reported as failed. A job tries every pool, whatever fails for the others.
\<close>

section \<open>The database of alerts\<close>

record alert_view =
  av_rows :: "string \<Rightarrow> tvl_threshold option"
  av_breaches :: "tvl_breach list"
  av_clock :: int

definition due :: "tvl_threshold \<Rightarrow> string \<Rightarrow> jsnum \<Rightarrow> int \<Rightarrow> int \<Rightarrow> bool" where
  "due t poolId tvl c1 c2 =
     (th_poolId t = poolId \<and> th_enabled t \<and>
      (th_direction t = ''below'' \<and> jlt tvl (th_usd t) \<and> (th_lastTriggered t = None \<or> the (th_lastTriggered t) < c1) \<or>
       th_direction t = ''above'' \<and> jlt (th_usd t) tvl \<and> (th_lastTriggered t = None \<or> the (th_lastTriggered t) < c2)))"

text \<open>Newest breach first. Any call may fail, and a write that is reported as failed may have been made all the same.
  A new row has an id that no row and no breach has; rows take their breaches with them.\<close>

fun alert_answers :: "st_call \<Rightarrow> alert_view \<Rightarrow> st_reply \<Rightarrow> alert_view \<Rightarrow> bool" where
  "alert_answers Stats_Clock V r V' = (V' = V \<and> r = TTime (av_clock V))"
| "alert_answers (Find_Due p x c1 c2) V r V' = (V' = V \<and> ((\<exists>e. r = TErr e) \<or> (\<exists>ts. r = TThresholds ts \<and>
     distinct (map th_id ts) \<and> set ts = {t. av_rows V (th_id t) = Some t \<and> due t p x c1 c2})))"
| "alert_answers (Create_History b) V r V' =
     ((\<exists>e. r = TErr e) \<and> V' = V \<or> (r = TOk \<or> (\<exists>e. r = TErr e)) \<and> V' = V\<lparr>av_breaches := b # av_breaches V\<rparr>)"
| "alert_answers (Set_Triggered i t) V r V' = (case av_rows V i of
     None \<Rightarrow> (\<exists>e. r = TErr e) \<and> V' = V
   | Some row \<Rightarrow> (\<exists>e. r = TErr e) \<and> V' = V \<or>
       (r = TOk \<or> (\<exists>e. r = TErr e)) \<and> V' = V\<lparr>av_rows := (av_rows V)(i \<mapsto> row\<lparr>th_lastTriggered := Some t\<rparr>)\<rparr>)"
| "alert_answers (Update_Threshold i usd d) V r V' =
     (V' = V \<or> (\<exists>row. av_rows V i = Some row \<and>
        V' = V\<lparr>av_rows := (av_rows V)(i \<mapsto> row\<lparr>th_usd := usd, th_direction := d, th_enabled := True\<rparr>)\<rparr>))"
| "alert_answers (Create_Threshold p w usd d) V r V' =
     (V' = V \<or> (\<exists>i. av_rows V i = None \<and> i \<notin> tb_thresholdId ` set (av_breaches V) \<and>
        V' = V\<lparr>av_rows := (av_rows V)(i \<mapsto> \<lparr>th_id = i, th_poolId = p, th_owner = w, th_usd = usd, th_direction = d,
          th_enabled = True, th_lastTriggered = None\<rparr>)\<rparr>))"
| "alert_answers (Disable_Threshold i w) V r V' =
     (V' = V \<or> (\<exists>row. av_rows V i = Some row \<and> V' = V\<lparr>av_rows := (av_rows V)(i \<mapsto> row\<lparr>th_enabled := False\<rparr>)\<rparr>))"
| "alert_answers (Delete_Threshold i w) V r V' =
     (V' = V \<or> V' = V\<lparr>av_rows := (av_rows V)(i := None), av_breaches := filter (\<lambda>b. tb_thresholdId b \<noteq> i) (av_breaches V)\<rparr>)"
| "alert_answers _ V r V' = (V' = V)"

definition alerts_ok :: "(st_call, st_reply, 's) service \<Rightarrow> ('s \<Rightarrow> alert_view) \<Rightarrow> bool" where
  "alerts_ok exec view = (\<forall>c s r s'. exec c s = (r, s') \<longrightarrow> alert_answers c (view s) r (view s'))"

text \<open>What goes on meanwhile: time passes, and owners change their thresholds.\<close>

fun owner_call :: "st_call \<Rightarrow> bool" where
  "owner_call (Update_Threshold i usd d) = True"
| "owner_call (Create_Threshold p w usd d) = True"
| "owner_call (Disable_Threshold i w) = True"
| "owner_call (Delete_Threshold i w) = True"
| "owner_call _ = False"

definition meanwhile :: "alert_view \<Rightarrow> alert_view \<Rightarrow> bool" where
  "meanwhile V V' \<longleftrightarrow> (\<exists>t \<ge> av_clock V. V' = V\<lparr>av_clock := t\<rparr>) \<or> (\<exists>c r. owner_call c \<and> alert_answers c V r V')"

text \<open>A write for threshold \<open>k\<close> that is reported as failed.\<close>

definition failed_write :: "string \<Rightarrow> st_call \<Rightarrow> st_reply \<Rightarrow> bool" where
  "failed_write k c r = ((case r of TErr e \<Rightarrow> True | _ \<Rightarrow> False) \<and>
     (case c of Create_History b \<Rightarrow> tb_thresholdId b = k | Set_Triggered i t \<Rightarrow> i = k | _ \<Rightarrow> False))"

section \<open>Spacing\<close>

text \<open>Two breaches of threshold \<open>k\<close> are more than a day apart.\<close>

definition spaced :: "string \<Rightarrow> tvl_breach list \<Rightarrow> bool" where
  "spaced k bs = sorted_wrt (\<lambda>new old. tb_at old + DAY < tb_at new) (filter (\<lambda>b. tb_thresholdId b = k) bs)"

text \<open>The row of \<open>k\<close> knows its last breach, or a breach at time \<open>T\<close> is pending and none is later.\<close>

definition known_breach :: "string \<Rightarrow> int option \<Rightarrow> (string \<Rightarrow> tvl_threshold option) \<Rightarrow> tvl_breach \<Rightarrow> bool" where
  "known_breach k pending rows b \<longleftrightarrow> (case pending of
     Some T \<Rightarrow> tb_at b \<le> T
   | None \<Rightarrow> (\<forall>row. rows k = Some row \<longrightarrow> (\<exists>L. th_lastTriggered row = Some L \<and> tb_at b \<le> L)))"

definition knows_last :: "string \<Rightarrow> int option \<Rightarrow> alert_view \<Rightarrow> bool" where
  "knows_last k pending V \<longleftrightarrow> (\<forall>j row. av_rows V j = Some row \<longrightarrow> th_id row = j) \<and>
     (\<forall>b \<in> set (av_breaches V). tb_thresholdId b = k \<longrightarrow> tb_at b \<le> av_clock V \<and> known_breach k pending (av_rows V) b)"

definition quiet_day :: "string \<Rightarrow> tvl_threshold list \<Rightarrow> int \<Rightarrow> alert_view \<Rightarrow> bool" where
  "quiet_day k ts T V \<longleftrightarrow> T \<le> av_clock V \<and>
     (k \<in> th_id ` set ts \<longrightarrow> (\<forall>b \<in> set (av_breaches V). tb_thresholdId b = k \<longrightarrow> tb_at b + DAY < T))"

definition alert_inv :: "string \<Rightarrow> int option \<Rightarrow> tvl_threshold list \<Rightarrow> int \<Rightarrow> alert_view \<Rightarrow> bool" where
  "alert_inv k pending ts T V \<longleftrightarrow> spaced k (av_breaches V) \<and> knows_last k pending V \<and> quiet_day k ts T V"

lemma spaced_filter: "spaced k bs \<Longrightarrow> spaced k (filter P bs)"
proof -
  have "filter (\<lambda>b. tb_thresholdId b = k) (filter P bs) = filter P (filter (\<lambda>b. tb_thresholdId b = k) bs)"
    by (simp add: conj_commute)
  then show "spaced k bs \<Longrightarrow> spaced k (filter P bs)" unfolding spaced_def by (metis sorted_wrt_filter)
qed

text \<open>What owners and time may do.\<close>

lemma alert_inv_step:
  assumes "alert_inv k p ts T V" and "av_clock V \<le> av_clock V'" and "av_breaches V' = filter P (av_breaches V)"
    and "\<And>j row. av_rows V' j = Some row \<Longrightarrow> th_id row = j"
    and "\<And>b row'. b \<in> set (av_breaches V') \<Longrightarrow> tb_thresholdId b = k \<Longrightarrow> av_rows V' k = Some row' \<Longrightarrow>
      \<exists>row. av_rows V k = Some row \<and> th_lastTriggered row' = th_lastTriggered row"
  shows "alert_inv k p ts T V'"
proof -
  have sub: "b \<in> set (av_breaches V)" if "b \<in> set (av_breaches V')" for b using that assms(3) by simp
  have kb: "known_breach k p (av_rows V') b" if b: "b \<in> set (av_breaches V')" "tb_thresholdId b = k" for b
  proof -
    have "known_breach k p (av_rows V) b" using assms(1) sub [OF b(1)] b(2) by (simp add: alert_inv_def knows_last_def)
    then show ?thesis using assms(5) [OF b] unfolding known_breach_def by (auto split: option.splits)
  qed
  have "spaced k (av_breaches V')" using assms(1,3) by (simp add: alert_inv_def spaced_filter)
  moreover have "tb_at b \<le> av_clock V'" if b: "b \<in> set (av_breaches V')" "tb_thresholdId b = k" for b
  proof -
    have "tb_at b \<le> av_clock V" using assms(1) sub [OF b(1)] b(2) by (simp add: alert_inv_def knows_last_def)
    then show ?thesis using assms(2) by linarith
  qed
  moreover have "quiet_day k ts T V'" using assms(1,2) sub by (auto simp: alert_inv_def quiet_day_def)
  ultimately show ?thesis using kb assms(4) unfolding alert_inv_def knows_last_def by blast
qed

lemma alert_inv_ids: "alert_inv k p ts T V \<Longrightarrow> av_rows V j = Some row \<Longrightarrow> th_id row = j"
  by (simp add: alert_inv_def knows_last_def)

lemma alert_inv_clock: "alert_inv k p ts T V \<Longrightarrow> av_clock V \<le> t \<Longrightarrow> alert_inv k p ts T (V\<lparr>av_clock := t\<rparr>)"
  by (rule alert_inv_step [where P = "\<lambda>_. True"]) (auto dest: alert_inv_ids)

lemma alert_inv_row:
  assumes "alert_inv k p ts T V" and "th_id row' = i"
    and "i \<noteq> k \<or> i \<notin> tb_thresholdId ` set (av_breaches V) \<or>
      (\<exists>row. av_rows V i = Some row \<and> th_lastTriggered row' = th_lastTriggered row)"
  shows "alert_inv k p ts T (V\<lparr>av_rows := (av_rows V)(i \<mapsto> row')\<rparr>)"
proof (rule alert_inv_step [OF assms(1), where P = "\<lambda>_. True"])
  fix b row1
  assume "b \<in> set (av_breaches (V\<lparr>av_rows := (av_rows V)(i \<mapsto> row')\<rparr>))" "tb_thresholdId b = k"
    and "av_rows (V\<lparr>av_rows := (av_rows V)(i \<mapsto> row')\<rparr>) k = Some row1"
  then show "\<exists>row. av_rows V k = Some row \<and> th_lastTriggered row1 = th_lastTriggered row"
    using assms(3) by (auto split: if_splits)
qed (use assms(2) alert_inv_ids [OF assms(1)] in \<open>auto split: if_splits\<close>)

lemma alert_inv_delete:
  assumes "alert_inv k p ts T V"
  shows "alert_inv k p ts T (V\<lparr>av_rows := (av_rows V)(i := None), av_breaches := filter (\<lambda>b. tb_thresholdId b \<noteq> i) (av_breaches V)\<rparr>)"
  by (rule alert_inv_step [OF assms, where P = "\<lambda>b. tb_thresholdId b \<noteq> i"])
     (use alert_inv_ids [OF assms] in \<open>auto split: if_splits\<close>)

lemma alert_inv_owner:
  assumes "alert_inv k p ts T V" and "owner_call c" and "alert_answers c V r V'"
  shows "alert_inv k p ts T V'"
proof -
  have id: "av_rows V j = Some row \<Longrightarrow> th_id row = j" for j row
    using assms(1) by (simp add: alert_inv_def knows_last_def)
  from assms(2,3) show ?thesis
  proof (cases c)
    case (Update_Threshold i usd d)
    then show ?thesis using assms(1,3) by (auto intro!: alert_inv_row simp: id)
  next
    case (Create_Threshold pool w usd d)
    then show ?thesis using assms(1,3) by (auto intro!: alert_inv_row)
  next
    case (Disable_Threshold i w)
    then show ?thesis using assms(1,3) by (auto intro!: alert_inv_row simp: id)
  next
    case (Delete_Threshold i w)
    then show ?thesis using assms(1,3) alert_inv_delete [OF assms(1)] by auto
  qed simp_all
qed

lemma alert_inv_meanwhile: "alert_inv k p ts T V \<Longrightarrow> meanwhile V V' \<Longrightarrow> alert_inv k p ts T V'"
  unfolding meanwhile_def using alert_inv_clock alert_inv_owner by blast

lemma alert_inv_fewer: "alert_inv k p ts T V \<Longrightarrow> set ts' \<subseteq> set ts \<Longrightarrow> alert_inv k p ts' T V"
  by (auto simp: alert_inv_def quiet_day_def)

lemma alert_inv_breach:
  assumes "alert_inv k None (t # ts) T V" and "tb_thresholdId b = k" and "tb_at b = T" and "th_id t = k" and "k \<notin> th_id ` set ts"
  shows "alert_inv k (Some T) ts T (V\<lparr>av_breaches := b # av_breaches V\<rparr>)"
proof -
  have q: "T \<le> av_clock V" "\<And>x. x \<in> set (av_breaches V) \<Longrightarrow> tb_thresholdId x = k \<Longrightarrow> tb_at x + DAY < T"
    using assms(1,4) by (auto simp: alert_inv_def quiet_day_def)
  have s: "spaced k (b # av_breaches V)"
    using assms(1,2,3) q(2) by (auto simp: alert_inv_def spaced_def)
  have "tb_at x \<le> T" if "x \<in> set (b # av_breaches V)" "tb_thresholdId x = k" for x
    using that q(2) [of x] assms(3) by (auto simp: DAY_def)
  then have "knows_last k (Some T) (V\<lparr>av_breaches := b # av_breaches V\<rparr>)"
    using q(1) alert_inv_ids [OF assms(1)] by (fastforce simp: knows_last_def known_breach_def)
  moreover have "quiet_day k ts T (V\<lparr>av_breaches := b # av_breaches V\<rparr>)"
    using assms(5) q(1) by (simp add: quiet_day_def)
  ultimately show ?thesis using s by (simp add: alert_inv_def)
qed

lemma alert_inv_triggered:
  assumes "alert_inv k (Some T) ts T V" and "av_rows V k = Some row"
  shows "alert_inv k None ts T (V\<lparr>av_rows := (av_rows V)(k \<mapsto> row\<lparr>th_lastTriggered := Some T\<rparr>)\<rparr>)"
  using assms alert_inv_ids [OF assms(1,2)]
  by (auto simp: alert_inv_def knows_last_def known_breach_def quiet_day_def)

text \<open>The writes for another threshold.\<close>

lemma alert_inv_other:
  assumes "alert_inv k None (t # ts) T V" and "th_id t \<noteq> k"
    and "alert_answers (Create_History b) V r V'" and "tb_thresholdId b = th_id t"
  shows "alert_inv k None ts T V'"
proof -
  have "alert_inv k None ts T V" using assms(1) by (rule alert_inv_fewer) auto
  then show ?thesis
    using assms(2,3,4) by (auto simp: alert_inv_def spaced_def knows_last_def quiet_day_def)
qed

lemma alert_inv_other_row:
  assumes "alert_inv k p ts T V" and "i \<noteq> k" and "alert_answers (Set_Triggered i t) V r V'"
  shows "alert_inv k p ts T V'"
  using assms alert_inv_ids [OF assms(1)] by (auto split: option.splits intro!: alert_inv_row)

lemma alert_inv_later: "alert_inv k p ts T V \<Longrightarrow> T \<le> T' \<Longrightarrow> T' \<le> av_clock V \<Longrightarrow> alert_inv k p ts T' V"
  by (auto simp: alert_inv_def quiet_day_def)

section \<open>The job\<close>

text \<open>
  The proof runs the job on a service that also remembers whether a write for \<open>k\<close> has failed; after that
  nothing is claimed of \<open>k\<close>.
\<close>

definition tagged :: "string \<Rightarrow> (st_call, st_reply, 's) service \<Rightarrow> (st_call, st_reply, 's \<times> bool) service" where
  "tagged k exec c s = (case exec c (fst s) of (r, s') \<Rightarrow> (r, (s', snd s \<or> failed_write k c r)))"

abbreviation alert_drift :: "('s \<Rightarrow> alert_view) \<Rightarrow> 's \<times> bool \<Rightarrow> 's \<times> bool \<Rightarrow> bool" where
  "alert_drift view \<equiv> (\<lambda>s s'. meanwhile (view (fst s)) (view (fst s')) \<and> snd s' = snd s)"

lemma steps_tagged:
  assumes "steps exec (\<lambda>s s'. meanwhile (view s) (view s')) (ts, s) tr (ts', s')"
  shows "steps (tagged k exec) (alert_drift view) (ts, (s, False)) tr (ts', (s', \<exists>(i, c, r) \<in> set tr. failed_write k c r))"
  using assms
proof (induction "(ts, s)" tr "(ts', s')" arbitrary: ts' s' rule: steps.induct)
  case steps_refl
  then show ?case by (simp add: steps.steps_refl)
next
  case (steps_drift tr ts1 s1 s2)
  from steps.steps_drift [OF steps_drift.hyps(2), of "(s2, \<exists>(i, c, r) \<in> set tr. failed_write k c r)"] steps_drift.hyps(3)
  show ?case by simp
next
  case (steps_call tr ts1 s1 i c f r s2)
  from steps.steps_call [OF steps_call.hyps(2) steps_call.hyps(3,4), of r "(s2, (\<exists>(i, c, r) \<in> set tr. failed_write k c r) \<or> failed_write k c r)"]
  have "steps (tagged k exec) (alert_drift view) (ts, (s, False)) (tr @ [(i, c, r)])
      (ts1[i := f r], (s2, (\<exists>(i, c, r) \<in> set tr. failed_write k c r) \<or> failed_write k c r))"
    using steps_call.hyps(5) by (simp add: tagged_def)
  moreover have "((\<exists>(i, c, r) \<in> set tr. failed_write k c r) \<or> failed_write k c r) =
      (\<exists>(i, c, r) \<in> set (tr @ [(i, c, r)]). failed_write k c r)" by auto
  ultimately show ?case by simp
qed

definition alerts_fine :: "string \<Rightarrow> tvl_threshold list \<Rightarrow> alert_view \<Rightarrow> bool" where
  "alerts_fine k ts V = (\<exists>T. alert_inv k None ts T V)"

definition lasts :: "(alert_view \<Rightarrow> bool) \<Rightarrow> bool" where
  "lasts P = (\<forall>V V'. P V \<longrightarrow> meanwhile V V' \<longrightarrow> P V')"

text \<open>Unless a write for the threshold has failed.\<close>

definition holds :: "('s \<Rightarrow> alert_view) \<Rightarrow> (alert_view \<Rightarrow> bool) \<Rightarrow> 's \<times> bool \<Rightarrow> bool" where
  "holds view P s = (snd s \<or> P (view (fst s)))"

lemma alert_inv_lasts: "lasts (alert_inv k p ts T)"
  unfolding lasts_def using alert_inv_meanwhile by blast

lemma alerts_fine_lasts: "lasts (alerts_fine k ts)"
  unfolding lasts_def alerts_fine_def using alert_inv_meanwhile by blast

lemma lasts_stays: "lasts P \<Longrightarrow> stays (alert_drift view) (holds view P)"
  unfolding lasts_def stays_def holds_def by metis

lemma alerts_fine_less: "alerts_fine k ts V \<Longrightarrow> set ts' \<subseteq> set ts \<Longrightarrow> alerts_fine k ts' V"
  unfolding alerts_fine_def using alert_inv_fewer by blast

text \<open>Once a write has failed, everything that is claimed holds.\<close>

lemma wp_failed:
  assumes "snd s"
  shows "wp (tagged k exec) (alert_drift view) m (\<lambda>x. holds view R) s"
proof (rule wp_mono [OF wp_ends [where P = "\<lambda>_. True" and J = snd]])
  show "kept_by (tagged k exec) (alert_drift view) snd"
    by (auto simp: kept_by_def stays_def tagged_def split: prod.splits)
qed (use assms in \<open>auto simp: holds_def\<close>)

text \<open>One call, seen through the view.\<close>

lemma wp_st_call:
  fixes view :: "'s \<Rightarrow> alert_view"
  assumes "alerts_ok exec view" and "lasts P" and "holds view P s"
    and "\<And>V r s2. P V \<Longrightarrow> alert_answers c V r (view (fst s2)) \<Longrightarrow>
      (failed_write k c r \<Longrightarrow> snd s2) \<Longrightarrow> wp (tagged k exec) (alert_drift view) (f r) (\<lambda>x. holds view R) s2"
  shows "wp (tagged k exec) (alert_drift view) (Call c f) (\<lambda>x. holds view R) s"
proof (rule wp_call [where P = "holds view P", OF lasts_stays [OF assms(2)] assms(3)])
  fix s1 s2 :: "'s \<times> bool" and r
  assume h: "holds view P s1" and e: "tagged k exec c s1 = (r, s2)"
  show "wp (tagged k exec) (alert_drift view) (f r) (\<lambda>x. holds view R) s2"
  proof (cases "snd s1")
    case True
    then show ?thesis using e by (intro wp_failed) (auto simp: tagged_def split: prod.splits)
  next
    case False
    obtain s' where c: "exec c (fst s1) = (r, s')" "s2 = (s', failed_write k c r)"
      using e False by (auto simp: tagged_def split: prod.splits)
    then have "alert_answers c (view (fst s1)) r (view (fst s2))" using assms(1) by (simp add: alerts_ok_def)
    then show ?thesis using h False c(2) by (intro assms(4) [of "view (fst s1)"]) (simp_all add: holds_def)
  qed
qed

lemma wp_done: "lasts R \<Longrightarrow> holds view R s \<Longrightarrow> wp (tagged k exec) (alert_drift view) (Ret x) (\<lambda>x. holds view R) s"
  by (rule wp_ret [OF lasts_stays])

lemma wp_st_await:
  fixes view :: "'s \<Rightarrow> alert_view"
  assumes "alerts_ok exec view" and "lasts P" and "holds view P s" and "lasts R"
    and "\<And>V e V'. P V \<Longrightarrow> alert_answers c V (TErr e) V' \<Longrightarrow> \<not> failed_write k c (TErr e) \<Longrightarrow> R V'"
    and "\<And>V r s2. P V \<Longrightarrow> alert_answers c V r (view (fst s2)) \<Longrightarrow> (\<And>e. r \<noteq> TErr e) \<Longrightarrow>
      wp (tagged k exec) (alert_drift view) (f r) (\<lambda>x. holds view R) s2"
  shows "wp (tagged k exec) (alert_drift view) (st_await c f) (\<lambda>x. holds view R) s"
  unfolding st_await_def
proof (rule wp_st_call [OF assms(1-3)])
  fix V r and s2 :: "'s \<times> bool"
  assume a: "P V" "alert_answers c V r (view (fst s2))" and bad: "failed_write k c r \<Longrightarrow> snd s2"
  show "wp (tagged k exec) (alert_drift view) (case r of TErr e \<Rightarrow> Ret (Inl e) | _ \<Rightarrow> f r) (\<lambda>x. holds view R) s2"
  proof (cases "\<exists>e. r = TErr e")
    case True
    then obtain e where r: "r = TErr e" by blast
    then have "holds view R s2" using assms(5) a bad unfolding holds_def by blast
    then show ?thesis unfolding r using wp_done [OF assms(4)] by simp
  next
    case False
    then have "(case r of TErr e \<Rightarrow> Ret (Inl e) | _ \<Rightarrow> f r) = f r" by (cases r) auto
    moreover have "wp (tagged k exec) (alert_drift view) (f r) (\<lambda>x. holds view R) s2"
      using False by (intro assms(6) [OF a]) blast
    ultimately show ?thesis by simp
  qed
qed

lemma wp_st_clock:
  fixes view :: "'s \<Rightarrow> alert_view"
  assumes "alerts_ok exec view" and "lasts P" and "holds view P s"
    and "\<And>s2. P (view (fst s2)) \<Longrightarrow> wp (tagged k exec) (alert_drift view) (f (av_clock (view (fst s2)))) (\<lambda>x. holds view R) s2"
  shows "wp (tagged k exec) (alert_drift view) (st_clock f) (\<lambda>x. holds view R) s"
  unfolding st_clock_def
proof (rule wp_st_call [OF assms(1-3)])
  fix V r and s2 :: "'s \<times> bool"
  assume "P V" and "alert_answers Stats_Clock V r (view (fst s2))"
  then have "r = TTime (av_clock (view (fst s2)))" and "P (view (fst s2))" by simp_all
  then show "wp (tagged k exec) (alert_drift view) (case r of TTime t \<Rightarrow> f t | _ \<Rightarrow> Ret (Inl ''unexpected reply'')) (\<lambda>x. holds view R) s2"
    using assms(4) by simp
qed

lemma wp_caught:
  assumes "lasts R" and "wp (tagged k exec) (alert_drift view) m (\<lambda>x. holds view R) s"
  shows "wp (tagged k exec) (alert_drift view) (prog_catch m (\<lambda>_. Ret (Inr ()))) (\<lambda>x. holds view R) s"
  unfolding prog_catch_def
proof (rule wp_bind, rule wp_mono [OF assms(2)])
  fix x s assume "holds view R s"
  then show "wp (tagged k exec) (alert_drift view) (case x of Inl e \<Rightarrow> Ret (Inr ()) | Inr y \<Rightarrow> Ret (Inr y)) (\<lambda>x. holds view R) s"
    using wp_done [OF assms(1)] by (cases x) simp_all
qed

lemma wp_then_same:
  assumes "lasts R" and "wp (tagged k exec) (alert_drift view) m (\<lambda>x. holds view R) s"
    and "\<And>y s. holds view R s \<Longrightarrow> wp (tagged k exec) (alert_drift view) (f y) (\<lambda>x. holds view R) s"
  shows "wp (tagged k exec) (alert_drift view) (prog_then m f) (\<lambda>x. holds view R) s"
  unfolding prog_then_def
proof (rule wp_bind, rule wp_mono [OF assms(2)])
  fix x s assume "holds view R s"
  then show "wp (tagged k exec) (alert_drift view) (case x of Inl e \<Rightarrow> Ret (Inl e) | Inr y \<Rightarrow> f y) (\<lambda>x. holds view R) s"
    using wp_done [OF assms(1)] assms(3) by (cases x) simp_all
qed

lemma holds_here: "P (view (fst s)) \<Longrightarrow> holds view P s"
  by (simp add: holds_def)

lemma dispatch_wp:
  fixes view :: "'s \<Rightarrow> alert_view"
  assumes ok: "alerts_ok exec view" and f: "alerts_fine k ts (view (fst s))"
  shows "wp (tagged k exec) (alert_drift view) (st_await (Dispatch_Event e j) (\<lambda>_. Ret (Inr ()))) (\<lambda>x. holds view (alerts_fine k ts)) s"
proof (rule wp_st_await [where P = "alerts_fine k ts", OF ok alerts_fine_lasts holds_here [where view = view and P = "alerts_fine k ts", OF f] alerts_fine_lasts])
  fix V r and s2 :: "'s \<times> bool"
  assume "alerts_fine k ts V" "alert_answers (Dispatch_Event e j) V r (view (fst s2))"
  then have "holds view (alerts_fine k ts) s2" by (simp add: holds_def)
  then show "wp (tagged k exec) (alert_drift view) (Ret (Inr ())) (\<lambda>x. holds view (alerts_fine k ts)) s2"
    by (rule wp_done [OF alerts_fine_lasts])
qed simp

text \<open>An alert of another threshold, and one of the threshold itself.\<close>

lemma trigger_other_wp:
  fixes view :: "'s \<Rightarrow> alert_view"
  assumes ok: "alerts_ok exec view" and t: "th_id t \<noteq> k" and i: "alert_inv k None (t # ts) T0 (view (fst s))"
  shows "wp (tagged k exec) (alert_drift view) (trigger_alert env pool tvl t) (\<lambda>x. holds view (alerts_fine k ts)) s"
  unfolding trigger_alert_def
proof (rule wp_caught [OF alerts_fine_lasts], rule wp_st_clock [OF ok alert_inv_lasts holds_here [where view = view and P = "alert_inv k None (t # ts) T0"], OF i])
  fix s2 :: "'s \<times> bool"
  let ?T = "av_clock (view (fst s2))" and ?I = "alert_inv k None ts T0"
  assume i2: "alert_inv k None (t # ts) T0 (view (fst s2))"
  have fine: "alerts_fine k ts V" if "?I V" for V using that by (auto simp: alerts_fine_def)
  have created: "?I V'" if "alert_inv k None (t # ts) T0 V" "alert_answers (Create_History (breach_of pool tvl t ?T)) V r V'" for V V' r
    using alert_inv_other [OF that(1) t that(2)] by (simp add: breach_of_def)
  show "wp (tagged k exec) (alert_drift view) (st_await (Create_History (breach_of pool tvl t ?T)) (\<lambda>_.
      st_await (Set_Triggered (th_id t) ?T) (\<lambda>_.
      st_await (Dispatch_Event ''pool.tvl.milestone'' (milestone_data env pool tvl t ?T)) (\<lambda>_. Ret (Inr ())))))
      (\<lambda>x. holds view (alerts_fine k ts)) s2"
  proof (rule wp_st_await [where P = "alert_inv k None (t # ts) T0", OF ok alert_inv_lasts holds_here [where view = view and P = "alert_inv k None (t # ts) T0", OF i2] alerts_fine_lasts])
    fix V e V' assume "alert_inv k None (t # ts) T0 V" "alert_answers (Create_History (breach_of pool tvl t ?T)) V (TErr e) V'"
    then show "alerts_fine k ts V'" using created fine by blast
  next
    fix V r and s4 :: "'s \<times> bool"
    assume "alert_inv k None (t # ts) T0 V"
      and "alert_answers (Create_History (breach_of pool tvl t ?T)) V r (view (fst s4))"
    then have i4: "?I (view (fst s4))" using created by blast
    show "wp (tagged k exec) (alert_drift view) (st_await (Set_Triggered (th_id t) ?T) (\<lambda>_.
        st_await (Dispatch_Event ''pool.tvl.milestone'' (milestone_data env pool tvl t ?T)) (\<lambda>_. Ret (Inr ()))))
        (\<lambda>x. holds view (alerts_fine k ts)) s4"
    proof (rule wp_st_await [where P = ?I, OF ok alert_inv_lasts holds_here [where view = view and P = ?I, OF i4] alerts_fine_lasts])
      fix V e V' assume "?I V" "alert_answers (Set_Triggered (th_id t) ?T) V (TErr e) V'"
      then show "alerts_fine k ts V'" using alert_inv_other_row t fine by blast
    next
      fix V r and s6 :: "'s \<times> bool"
      assume "?I V" "alert_answers (Set_Triggered (th_id t) ?T) V r (view (fst s6))"
      then have "alerts_fine k ts (view (fst s6))" using alert_inv_other_row t fine by blast
      then show "wp (tagged k exec) (alert_drift view) (st_await (Dispatch_Event ''pool.tvl.milestone'' (milestone_data env pool tvl t ?T))
          (\<lambda>_. Ret (Inr ()))) (\<lambda>x. holds view (alerts_fine k ts)) s6"
        by (rule dispatch_wp [OF ok])
    qed
  qed
qed

lemma alerts_fine_now:
  assumes "alerts_fine k ts V"
  shows "alert_inv k None ts (av_clock V) V"
proof -
  obtain T where T: "alert_inv k None ts T V" using assms by (auto simp: alerts_fine_def)
  then have "T \<le> av_clock V" by (simp add: alert_inv_def quiet_day_def)
  then show ?thesis using alert_inv_later [OF T] by simp
qed

lemma trigger_own_wp:
  fixes view :: "'s \<Rightarrow> alert_view"
  assumes ok: "alerts_ok exec view" and t: "th_id t = k" "k \<notin> th_id ` set ts" and f: "alerts_fine k (t # ts) (view (fst s))"
  shows "wp (tagged k exec) (alert_drift view) (trigger_alert env pool tvl t) (\<lambda>x. holds view (alerts_fine k ts)) s"
  unfolding trigger_alert_def
proof (rule wp_caught [OF alerts_fine_lasts],
    rule wp_st_clock [OF ok alerts_fine_lasts holds_here [where view = view and P = "alerts_fine k (t # ts)"], OF f])
  fix s2 :: "'s \<times> bool"
  let ?T = "av_clock (view (fst s2))"
  let ?I = "alert_inv k None (t # ts) ?T" and ?J = "alert_inv k (Some ?T) ts ?T" and ?b = "breach_of pool tvl t ?T"
  assume "alerts_fine k (t # ts) (view (fst s2))"
  then have i: "?I (view (fst s2))" by (rule alerts_fine_now)
  have failed: "failed_write k (Create_History ?b) (TErr e)" "failed_write k (Set_Triggered (th_id t) x) (TErr e)" for e x
    using t(1) by (simp_all add: failed_write_def breach_of_def)
  have triggered: "alerts_fine k ts V'" if J: "?J V" and a: "alert_answers (Set_Triggered (th_id t) ?T) V r V'" and e: "\<And>e. r \<noteq> TErr e" for V V' r
  proof -
    obtain row where row: "av_rows V k = Some row" and V': "V' = V\<lparr>av_rows := (av_rows V)(k \<mapsto> row\<lparr>th_lastTriggered := Some ?T\<rparr>)\<rparr>"
      using a t(1) e by (auto split: option.splits)
    then show ?thesis using alert_inv_triggered [OF J row] by (auto simp: alerts_fine_def)
  qed
  show "wp (tagged k exec) (alert_drift view) (st_await (Create_History ?b) (\<lambda>_.
      st_await (Set_Triggered (th_id t) ?T) (\<lambda>_.
      st_await (Dispatch_Event ''pool.tvl.milestone'' (milestone_data env pool tvl t ?T)) (\<lambda>_. Ret (Inr ())))))
      (\<lambda>x. holds view (alerts_fine k ts)) s2"
  proof (rule wp_st_await [where P = ?I, OF ok alert_inv_lasts holds_here [where view = view and P = ?I, OF i] alerts_fine_lasts])
    fix V r and s4 :: "'s \<times> bool"
    assume "?I V" and "\<And>e. r \<noteq> TErr e" and "alert_answers (Create_History ?b) V r (view (fst s4))"
    then have i4: "?J (view (fst s4))" using alert_inv_breach [of k t ts ?T V ?b] t by (auto simp: breach_of_def)
    show "wp (tagged k exec) (alert_drift view) (st_await (Set_Triggered (th_id t) ?T) (\<lambda>_.
        st_await (Dispatch_Event ''pool.tvl.milestone'' (milestone_data env pool tvl t ?T)) (\<lambda>_. Ret (Inr ()))))
        (\<lambda>x. holds view (alerts_fine k ts)) s4"
    proof (rule wp_st_await [where P = ?J, OF ok alert_inv_lasts holds_here [where view = view and P = ?J, OF i4] alerts_fine_lasts])
      fix V r and s6 :: "'s \<times> bool"
      assume "?J V" "alert_answers (Set_Triggered (th_id t) ?T) V r (view (fst s6))" "\<And>e. r \<noteq> TErr e"
      then have "alerts_fine k ts (view (fst s6))" by (rule triggered)
      then show "wp (tagged k exec) (alert_drift view) (st_await (Dispatch_Event ''pool.tvl.milestone'' (milestone_data env pool tvl t ?T))
          (\<lambda>_. Ret (Inr ()))) (\<lambda>x. holds view (alerts_fine k ts)) s6"
        by (rule dispatch_wp [OF ok])
    qed (use failed in blast)
  qed (use failed in blast)
qed

lemma trigger_alert_wp:
  fixes view :: "'s \<Rightarrow> alert_view"
  assumes ok: "alerts_ok exec view" and t: "th_id t \<notin> th_id ` set ts" and f: "holds view (alerts_fine k (t # ts)) s"
  shows "wp (tagged k exec) (alert_drift view) (trigger_alert env pool tvl t) (\<lambda>x. holds view (alerts_fine k ts)) s"
proof (cases "snd s")
  case False
  then have f: "alerts_fine k (t # ts) (view (fst s))" using f by (simp add: holds_def)
  show ?thesis
  proof (cases "th_id t = k")
    case True
    then show ?thesis using trigger_own_wp [OF ok True _ f] t by simp
  next
    case False
    obtain T where "alert_inv k None (t # ts) T (view (fst s))" using f by (auto simp: alerts_fine_def)
    then show ?thesis using trigger_other_wp [OF ok False] by blast
  qed
qed (rule wp_failed)

lemma holds_fewer: "holds view (alerts_fine k ts) s \<Longrightarrow> set ts' \<subseteq> set ts \<Longrightarrow> holds view (alerts_fine k ts') s"
  unfolding holds_def using alerts_fine_less by blast

lemma trigger_alerts_wp:
  fixes view :: "'s \<Rightarrow> alert_view"
  assumes ok: "alerts_ok exec view"
  shows "distinct (map th_id ts) \<Longrightarrow> holds view (alerts_fine k ts) s \<Longrightarrow>
    wp (tagged k exec) (alert_drift view) (prog_for ts (trigger_alert env pool tvl)) (\<lambda>x. holds view (alerts_fine k [])) s"
proof (induction ts arbitrary: s)
  case Nil
  then show ?case using wp_done [OF alerts_fine_lasts] by simp
next
  case (Cons t ts)
  have t: "th_id t \<notin> th_id ` set ts" using Cons.prems(1) by simp
  have "wp (tagged k exec) (alert_drift view) (prog_then (trigger_alert env pool tvl t) (\<lambda>_. prog_for ts (trigger_alert env pool tvl)))
      (\<lambda>x. holds view (alerts_fine k [])) s"
    unfolding prog_then_def
  proof (rule wp_bind, rule wp_mono [OF trigger_alert_wp [OF ok t Cons.prems(2)]])
    fix x s
    assume f: "holds view (alerts_fine k ts) s"
    show "wp (tagged k exec) (alert_drift view) (case x of Inl e \<Rightarrow> Ret (Inl e) | Inr y \<Rightarrow> prog_for ts (trigger_alert env pool tvl))
        (\<lambda>x. holds view (alerts_fine k [])) s"
      using Cons.IH [OF _ f] Cons.prems(1) wp_done [OF alerts_fine_lasts holds_fewer [OF f, of "[]"]] by (cases x) simp_all
  qed
  then show ?case by simp
qed

lemma due_quiet:
  assumes "alerts_fine k [] V" and "t1 \<le> t2" and "t2 \<le> av_clock V"
    and "set ts = {t. av_rows V (th_id t) = Some t \<and> due t p x (t1 - DAY) (t2 - DAY)}"
  shows "alerts_fine k ts V"
proof -
  have "tb_at b + DAY < t2" if b: "b \<in> set (av_breaches V)" "tb_thresholdId b = k" and t: "t \<in> set ts" "k = th_id t" for b t
  proof -
    have "known_breach k None (av_rows V) b" using assms(1) b by (auto simp: alerts_fine_def alert_inv_def knows_last_def)
    moreover have "av_rows V k = Some t" and d: "due t p x (t1 - DAY) (t2 - DAY)" using t assms(4) by auto
    ultimately obtain L where "th_lastTriggered t = Some L" "tb_at b \<le> L" by (auto simp: known_breach_def)
    then show ?thesis using d assms(2) by (auto simp: due_def)
  qed
  then have "quiet_day k ts t2 V" using assms(3) by (auto simp: quiet_day_def)
  then have "alert_inv k None ts t2 V" using assms(1) by (auto simp: alerts_fine_def alert_inv_def)
  then show ?thesis by (auto simp: alerts_fine_def)
qed

lemma clock_lasts: "lasts P \<Longrightarrow> lasts (\<lambda>V. P V \<and> t \<le> av_clock V)"
proof -
  assume P: "lasts P"
  have "av_clock V \<le> av_clock V'" if "meanwhile V V'" for V V'
  proof -
    have "owner_call c \<Longrightarrow> alert_answers c V r V' \<Longrightarrow> av_clock V \<le> av_clock V'" for c r by (cases c) auto
    then show ?thesis using that by (auto simp: meanwhile_def)
  qed
  then show ?thesis using P unfolding lasts_def by (meson order_trans)
qed

lemma check_alerts_wp:
  fixes view :: "'s \<Rightarrow> alert_view"
  assumes ok: "alerts_ok exec view" and f: "holds view (alerts_fine k []) s"
  shows "wp (tagged k exec) (alert_drift view) (checkAndTriggerAlerts env pool tvl) (\<lambda>x. holds view (alerts_fine k [])) s"
  unfolding checkAndTriggerAlerts_def
proof (rule wp_st_clock [OF ok alerts_fine_lasts f])
  fix s1 :: "'s \<times> bool"
  let ?t1 = "av_clock (view (fst s1))"
  let ?O = "\<lambda>V. (alerts_fine k [] V \<and> ?t1 \<le> av_clock V)"
  assume "alerts_fine k [] (view (fst s1))"
  then have o: "?O (view (fst s1))" by simp
  show "wp (tagged k exec) (alert_drift view) (st_clock (\<lambda>t2. st_await (Find_Due (sp_id pool) tvl (?t1 - DAY) (t2 - DAY)) (\<lambda>r. case r of
      TThresholds ts \<Rightarrow> prog_for ts (trigger_alert env pool tvl) | _ \<Rightarrow> st_odd))) (\<lambda>x. holds view (alerts_fine k [])) s1"
  proof (rule wp_st_clock [OF ok clock_lasts [OF alerts_fine_lasts] holds_here [where view = view and P = ?O, OF o]])
    fix s2 :: "'s \<times> bool"
    let ?t2 = "av_clock (view (fst s2))"
    let ?P = "\<lambda>V. (alerts_fine k [] V \<and> ?t2 \<le> av_clock V)"
    assume a: "?O (view (fst s2))"
    then have p: "?P (view (fst s2))" by simp
    show "wp (tagged k exec) (alert_drift view) (st_await (Find_Due (sp_id pool) tvl (?t1 - DAY) (?t2 - DAY)) (\<lambda>r. case r of
        TThresholds ts \<Rightarrow> prog_for ts (trigger_alert env pool tvl) | _ \<Rightarrow> st_odd)) (\<lambda>x. holds view (alerts_fine k [])) s2"
    proof (rule wp_st_await [where P = ?P, OF ok clock_lasts [OF alerts_fine_lasts] holds_here [where view = view and P = ?P, OF p] alerts_fine_lasts])
      fix V e V' assume "?P V" "alert_answers (Find_Due (sp_id pool) tvl (?t1 - DAY) (?t2 - DAY)) V (TErr e) V'"
      then show "alerts_fine k [] V'" by simp
    next
      fix V r and s4 :: "'s \<times> bool"
      assume p: "?P V" and q: "alert_answers (Find_Due (sp_id pool) tvl (?t1 - DAY) (?t2 - DAY)) V r (view (fst s4))"
        and e: "\<And>e. r \<noteq> TErr e"
      then obtain ts where r: "r = TThresholds ts" and v: "view (fst s4) = V" and d: "distinct (map th_id ts)"
        and ts: "set ts = {t. av_rows V (th_id t) = Some t \<and> due t (sp_id pool) tvl (?t1 - DAY) (?t2 - DAY)}" by auto
      have "alerts_fine k ts (view (fst s4))" unfolding v using p a by (intro due_quiet [OF _ _ _ ts]) auto
      from trigger_alerts_wp [OF ok d holds_here [where view = view and P = "alerts_fine k ts", OF this]]
      show "wp (tagged k exec) (alert_drift view) (case r of
          TThresholds ts \<Rightarrow> prog_for ts (trigger_alert env pool tvl) | _ \<Rightarrow> st_odd) (\<lambda>x. holds view (alerts_fine k [])) s4"
        by (simp add: r)
    qed
  qed
qed

text \<open>Code that makes none of the calls that write alerts keeps what the surroundings keep.\<close>

lemma wp_quiet:
  assumes "\<And>c s r s'. exec c s = (r, s') \<Longrightarrow> ok c \<Longrightarrow> I s \<Longrightarrow> I s'" and "stays drift I"
  shows "guarded ok (\<lambda>_ _. True) m \<Longrightarrow> I s \<Longrightarrow> wp exec drift m (\<lambda>x. I) s"
proof (induction m arbitrary: s)
  case (Ret x)
  then show ?case using assms(2) by (intro wp_ret)
next
  case (Call c k)
  show ?case
  proof (rule wp_call [where P = I, OF assms(2) Call.prems(2)])
    fix s1 r s2
    assume "I s1" "exec c s1 = (r, s2)"
    then have "I s2" using assms(1) Call.prems(1) by simp
    then show "wp exec drift (k r) (\<lambda>x. I) s2" using Call.IH [OF rangeI] Call.prems(1) by simp
  qed
qed

fun writes_alerts :: "st_call \<Rightarrow> bool" where
  "writes_alerts (Create_History b) = True"
| "writes_alerts (Set_Triggered i t) = True"
| "writes_alerts c = owner_call c"

lemma quiet_answers: "\<not> writes_alerts c \<Longrightarrow> alert_answers c V r V' \<Longrightarrow> V' = V"
  by (cases c) simp_all

abbreviation "reads_only \<equiv> guarded (\<lambda>c. \<not> writes_alerts c) (\<lambda>_ _. True)"

lemma reads_await: "\<not> writes_alerts c \<Longrightarrow> (\<And>r. reads_only (k r)) \<Longrightarrow> reads_only (st_await c k)"
  by (auto simp: st_await_def split: st_reply.split)

lemma reads_clock: "(\<And>t. reads_only (k t)) \<Longrightarrow> reads_only (st_clock k)"
  by (auto simp: st_clock_def split: st_reply.split)

lemma reads_catch: "reads_only m \<Longrightarrow> reads_only (prog_catch m (\<lambda>_. Ret (Inr ())))"
  unfolding prog_catch_def by (rule guarded_bind) (auto split: sum.split)

lemma reads_price: "reads_only (stats_getUsdPrice token)"
  unfolding stats_getUsdPrice_def by (rule reads_await) (auto split: st_reply.split option.split json.split)

lemma reads_store: "reads_only (store_figures env pool f)"
  unfolding store_figures_def by (intro reads_await reads_clock) simp_all

lemma reads_compute: "reads_only (compute_pool env now pool)"
  unfolding compute_pool_def
  by (intro reads_await guarded_then reads_price)
     (auto split: st_reply.split option.split sum.split intro!: guarded_then reads_store)

lemma reads_snapshot: "reads_only (recordTvlSnapshot env p x)"
  unfolding recordTvlSnapshot_def by (intro reads_clock reads_catch reads_await) simp_all

lemma wp_reads:
  fixes view :: "'s \<Rightarrow> alert_view"
  assumes "alerts_ok exec view" and "reads_only m" and "lasts R" and "holds view R s"
  shows "wp (tagged k exec) (alert_drift view) m (\<lambda>x. holds view R) s"
proof (rule wp_quiet [where ok = "\<lambda>c. \<not> writes_alerts c" and I = "holds view R", OF _ lasts_stays [OF assms(3)] assms(2,4)])
  fix c s r s'
  assume "tagged k exec c s = (r, s')" "\<not> writes_alerts c" "holds view R s"
  moreover obtain t where "exec c (fst s) = (r, t)" and "s' = (t, snd s \<or> failed_write k c r)"
    using calculation(1) by (auto simp: tagged_def split: prod.splits)
  moreover have "view t = view (fst s)" using assms(1) quiet_answers calculation unfolding alerts_ok_def by metis
  ultimately show "holds view R s'" by (auto simp: holds_def)
qed

lemma update_pool_wp:
  fixes view :: "'s \<Rightarrow> alert_view"
  assumes ok: "alerts_ok exec view" and f: "holds view (alerts_fine k []) s"
  shows "wp (tagged k exec) (alert_drift view) (update_pool env now pool) (\<lambda>x. holds view (alerts_fine k [])) s"
  unfolding update_pool_def
  by (intro wp_caught wp_then_same alerts_fine_lasts wp_reads [OF ok] reads_compute reads_snapshot f check_alerts_wp [OF ok])

lemma update_pools_wp:
  fixes view :: "'s \<Rightarrow> alert_view"
  assumes ok: "alerts_ok exec view"
  shows "holds view (alerts_fine k []) s \<Longrightarrow>
    wp (tagged k exec) (alert_drift view) (prog_for pools (update_pool env now)) (\<lambda>x. holds view (alerts_fine k [])) s"
proof (induction pools arbitrary: s)
  case (Cons p ps)
  then show ?case unfolding prog_for.simps by (intro wp_then_same alerts_fine_lasts update_pool_wp [OF ok])
qed (simp only: prog_for.simps, rule wp_done [OF alerts_fine_lasts])

lemma stats_process_wp:
  fixes view :: "'s \<Rightarrow> alert_view"
  assumes ok: "alerts_ok exec view" and f: "holds view (alerts_fine k []) s"
  shows "wp (tagged k exec) (alert_drift view) (stats_process env) (\<lambda>x. holds view (alerts_fine k [])) s"
  unfolding stats_process_def
proof (rule wp_st_await [OF ok alerts_fine_lasts f alerts_fine_lasts])
  fix V r and s2 :: "'s \<times> bool"
  assume "alerts_fine k [] V" "alert_answers Find_Pools V r (view (fst s2))"
  then have f2: "holds view (alerts_fine k []) s2" by (simp add: holds_def)
  show "wp (tagged k exec) (alert_drift view) (case r of TPools pools \<Rightarrow> st_clock (\<lambda>now. prog_for pools (update_pool env now)) | _ \<Rightarrow> st_odd)
      (\<lambda>x. holds view (alerts_fine k [])) s2"
  proof (cases "\<exists>pools. r = TPools pools")
    case True
    then show ?thesis
      using wp_st_clock [OF ok alerts_fine_lasts f2] update_pools_wp [OF ok] holds_here [where view = view and P = "alerts_fine k []"]
      by fastforce
  next
    case False
    then have "(case r of TPools pools \<Rightarrow> st_clock (\<lambda>now. prog_for pools (update_pool env now)) | _ \<Rightarrow> st_odd) = st_odd"
      by (cases r) auto
    then show ?thesis unfolding st_odd_def using wp_done [OF alerts_fine_lasts f2] by simp
  qed
qed simp

text \<open>What a database of alerts satisfies: breaches of threshold \<open>k\<close> are spaced, its row knows its last breach.\<close>

definition alerts_sound :: "string \<Rightarrow> alert_view \<Rightarrow> bool" where
  "alerts_sound k V \<longleftrightarrow> spaced k (av_breaches V) \<and> (\<forall>j row. av_rows V j = Some row \<longrightarrow> th_id row = j) \<and>
     (\<forall>b \<in> set (av_breaches V). tb_thresholdId b = k \<longrightarrow> tb_at b \<le> av_clock V \<and>
        (\<forall>row. av_rows V k = Some row \<longrightarrow> (\<exists>L. th_lastTriggered row = Some L \<and> tb_at b \<le> L)))"

lemma alerts_sound_fine: "alerts_sound k V = alerts_fine k [] V"
proof -
  have "quiet_day k [] T V = (T \<le> av_clock V)" for T by (simp add: quiet_day_def)
  then show ?thesis
    by (auto simp: alerts_sound_def alerts_fine_def alert_inv_def knows_last_def known_breach_def)
qed

text \<open>C9: A statistics job that runs while time passes and owners create, change, disable and delete thresholds, with
  any calls failing, never records two breaches of a threshold within a day, and leaves its rows such that the next job
  does not either, unless the job was told that a write of a breach of that threshold or of its trigger time failed. (A
  failed write may have been made, and a breach whose trigger time is not stored is recorded again by the next job.)\<close>

theorem alerts_once_a_day:
  assumes "alerts_ok exec view" and "alerts_sound k (view s)"
    and "steps exec (\<lambda>s s'. meanwhile (view s) (view s')) ([stats_process env], s) tr ([Ret x], s')"
    and "\<not> (\<exists>(i, c, r) \<in> set tr. failed_write k c r)"
  shows "alerts_sound k (view s') \<and>
    sorted_wrt (\<lambda>new old. tb_at old + 24 * 60 * 60 * 1000 < tb_at new)
      (filter (\<lambda>b. tb_thresholdId b = k) (av_breaches (view s')))"
proof -
  have "wp (tagged k exec) (alert_drift view) (stats_process env) (\<lambda>x. holds view (alerts_fine k [])) (s, False)"
    using stats_process_wp [OF assms(1)] assms(2) by (simp add: alerts_sound_fine holds_def)
  then have "holds view (alerts_fine k []) (s', \<exists>(i, c, r) \<in> set tr. failed_write k c r)"
    by (rule wp_steps [OF steps_tagged [OF assms(3)]])
  then have "alerts_sound k (view s')" using assms(4) by (simp add: alerts_sound_fine holds_def)
  then show ?thesis by (simp add: alerts_sound_def spaced_def DAY_def)
qed

section \<open>An instance\<close>

record demo_alerts =
  da_rows :: "tvl_threshold list"
  da_breaches :: "tvl_breach list"
  da_clock :: int

definition demo_row :: "tvl_threshold list \<Rightarrow> string \<Rightarrow> tvl_threshold option" where
  "demo_row rows = map_of (map (\<lambda>t. (th_id t, t)) rows)"

definition demo_view :: "demo_alerts \<Rightarrow> alert_view" where
  "demo_view s = \<lparr>av_rows = demo_row (da_rows s), av_breaches = da_breaches s, av_clock = da_clock s\<rparr>"

definition demo_trigger :: "string \<Rightarrow> int \<Rightarrow> tvl_threshold list \<Rightarrow> tvl_threshold list" where
  "demo_trigger i t = map (\<lambda>x. if th_id x = i then x\<lparr>th_lastTriggered := Some t\<rparr> else x)"

fun demo_stats :: "(st_call, st_reply, demo_alerts) service" where
  "demo_stats Stats_Clock s = (TTime (da_clock s), s)"
| "demo_stats (Find_Due p x c1 c2) s =
     (if distinct (map th_id (da_rows s)) then TThresholds (filter (\<lambda>t. due t p x c1 c2) (da_rows s)) else TErr '''', s)"
| "demo_stats (Create_History b) s = (TOk, s\<lparr>da_breaches := b # da_breaches s\<rparr>)"
| "demo_stats (Set_Triggered i t) s =
     (if list_ex (\<lambda>x. th_id x = i) (da_rows s) then (TOk, s\<lparr>da_rows := demo_trigger i t (da_rows s)\<rparr>) else (TErr '''', s))"
| "demo_stats Find_Pools s = (TPools [\<lparr>sp_id = ''p'', sp_token0 = ''a'', sp_token1 = ''b'', sp_currentSqrtPrice = ''1'',
     sp_tvl = ''0'', sp_volume24h = ''0''\<rparr>], s)"
| "demo_stats (Find_Swaps p t1 t2) s = (TSwaps [], s)"
| "demo_stats (Stats_Cache_Get k) s = (TJson (Some (JNum (Fin 1))), s)"
| "demo_stats (Find_Token t) s = (TDecimals (Some (Fin 7)), s)"
| "demo_stats (Find_Positions p) s = (TPositions [], s)"
| "demo_stats _ s = (TOk, s)"

lemma demo_row_Some: "distinct (map th_id rows) \<Longrightarrow> demo_row rows (th_id t) = Some t \<longleftrightarrow> t \<in> set rows"
  by (auto simp: demo_row_def map_of_eq_Some_iff comp_def)

lemma demo_row_trigger:
  "demo_row (demo_trigger i t rows) = (case demo_row rows i of None \<Rightarrow> demo_row rows
     | Some row \<Rightarrow> (demo_row rows)(i \<mapsto> row\<lparr>th_lastTriggered := Some t\<rparr>))"
  by (induction rows) (auto simp: demo_row_def demo_trigger_def fun_eq_iff split: option.splits)

lemma demo_row_ex: "list_ex (\<lambda>x. th_id x = i) rows \<longleftrightarrow> (\<exists>row. demo_row rows i = Some row)"
  by (induction rows) (auto simp: demo_row_def)

lemma demo_stats_ok: "alerts_ok demo_stats demo_view"
  unfolding alerts_ok_def
proof (intro allI impI)
  fix c s r s'
  assume "demo_stats c s = (r, s')"
  then show "alert_answers c (demo_view s) r (demo_view s')"
    by (cases c)
       (auto simp: demo_view_def demo_row_Some demo_row_trigger distinct_map_filter demo_row_ex
          split: if_splits option.splits)
qed

definition demo_alert_state :: demo_alerts where
  "demo_alert_state = \<lparr>da_rows = [\<lparr>th_id = ''t'', th_poolId = ''p'', th_owner = ''w'', th_usd = Fin 100, th_direction = ''below'',
     th_enabled = True, th_lastTriggered = None\<rparr>], da_breaches = [], da_clock = 1000\<rparr>"

definition demo_env :: stats_env where
  "demo_env = \<lparr>se_iso = show_int, se_midnight = (\<lambda>t. t div DAY * DAY)\<rparr>"

definition demo_pool :: stats_pool where
  "demo_pool = \<lparr>sp_id = ''p'', sp_token0 = ''a'', sp_token1 = ''b'', sp_currentSqrtPrice = ''1'', sp_tvl = ''0'', sp_volume24h = ''0''\<rparr>"

lemma run_st_await:
  "run exec (st_await c k) s = (case exec c s of (r, s') \<Rightarrow> case r of TErr e \<Rightarrow> (Inl e, s') | _ \<Rightarrow> run exec (k r) s')"
  by (auto simp: st_await_def split: prod.split st_reply.split)

lemma run_st_clock:
  "run exec (st_clock k) s = (case exec Stats_Clock s of (r, s') \<Rightarrow> case r of TTime t \<Rightarrow> run exec (k t) s' | _ \<Rightarrow> (Inl ''unexpected reply'', s'))"
  by (auto simp: st_clock_def split: prod.split st_reply.split)

lemmas run_stats = run_st_await run_st_clock run_then run_catch

lemma demo_figures:
  "pool_figures_of demo_pool [] 1000 (Fin 1) (Fin 1) (Fin 7) (Fin 7) [] =
     Inr \<lparr>pf_tvl = Fin 0, pf_volume24h = Fin 0, pf_volume7d = Fin 0, pf_feeApr = Fin 0\<rparr>"
  by code_simp

lemma demo_compute: "run demo_stats (compute_pool demo_env 1000 demo_pool) demo_alert_state = (Inr (Fin 0), demo_alert_state)"
proof -
  have "usable_price (Fin 1)" by code_simp
  then have "run demo_stats (stats_getUsdPrice t) demo_alert_state = (Inr (Fin 1), demo_alert_state)" for t
    by (simp add: stats_getUsdPrice_def run_stats)
  then show ?thesis
    by (simp add: compute_pool_def run_stats demo_figures store_figures_def)
qed

lemma demo_checked:
  "map tb_at (da_breaches (snd (run demo_stats (checkAndTriggerAlerts demo_env demo_pool (Fin 0)) demo_alert_state))) = [1000]"
  by code_simp

lemma demo_processed:
  "map tb_at (da_breaches (snd (run demo_stats (stats_process demo_env) demo_alert_state))) = [1000]"
proof -
  have "run demo_stats (stats_process demo_env) demo_alert_state =
      run demo_stats (prog_for [demo_pool] (update_pool demo_env 1000)) demo_alert_state"
    by (simp add: stats_process_def run_stats demo_pool_def demo_alert_state_def)
  moreover have "snd (run demo_stats (prog_for [demo_pool] (update_pool demo_env 1000)) demo_alert_state) =
      snd (run demo_stats (checkAndTriggerAlerts demo_env demo_pool (Fin 0)) demo_alert_state)"
    by (simp add: update_pool_def run_stats demo_compute recordTvlSnapshot_def split: prod.split sum.split)
  ultimately show ?thesis using demo_checked by simp
qed

text \<open>The demo database fails no write for a threshold that has a row, and keeps the row.\<close>

lemma demo_call: "demo_stats c s = (r, s') \<Longrightarrow> th_id ` set (da_rows s') = th_id ` set (da_rows s) \<and>
    (k \<in> th_id ` set (da_rows s) \<longrightarrow> \<not> failed_write k c r)"
proof (cases c)
  case (Set_Triggered i t)
  have "th_id ` set (demo_trigger i t rows) = th_id ` set rows" for rows
    by (induction rows) (auto simp: demo_trigger_def)
  then show "demo_stats c s = (r, s') \<Longrightarrow> th_id ` set (da_rows s') = th_id ` set (da_rows s) \<and>
      (k \<in> th_id ` set (da_rows s) \<longrightarrow> \<not> failed_write k c r)"
    using Set_Triggered
    by (cases "list_ex (\<lambda>x. th_id x = i) (da_rows s)") (simp_all add: failed_write_def list_ex_iff, fastforce+)
qed (auto simp: failed_write_def)

lemma demo_no_failure:
  "k \<in> th_id ` set (da_rows s) \<Longrightarrow> (c, r) \<in> set (run_log demo_stats m s) \<Longrightarrow> \<not> failed_write k c r"
proof (induction m arbitrary: s)
  case (Call d f)
  obtain q s' where e: "demo_stats d s = (q, s')" by (rule prod.exhaust)
  then have "k \<in> th_id ` set (da_rows s')" "\<not> failed_write k d q" using demo_call [OF e, of k] Call.prems(1) by simp_all
  then show ?case using Call.IH [OF rangeI] Call.prems(2) e by auto
qed simp

theorem alerts_once_a_day_witness:
  "let V = demo_view (snd (run demo_stats (stats_process demo_env) demo_alert_state)) in
     alerts_sound ''t'' V \<and> map tb_at (av_breaches V) = [1000]"
proof -
  have sound: "alerts_sound ''t'' (demo_view demo_alert_state)"
    by (simp add: alerts_sound_def demo_view_def demo_alert_state_def demo_row_def spaced_def)
  obtain tr where tr: "steps demo_stats (\<lambda>s s'. meanwhile (demo_view s) (demo_view s'))
      ([stats_process demo_env], demo_alert_state) tr
      ([Ret (fst (run demo_stats (stats_process demo_env) demo_alert_state))], snd (run demo_stats (stats_process demo_env) demo_alert_state))"
    "events_of 0 tr = run_log demo_stats (stats_process demo_env) demo_alert_state"
    using run_log_steps [of demo_stats _ "stats_process demo_env" demo_alert_state] by blast
  have "\<not> failed_write ''t'' c r" if "(i, c, r) \<in> set tr" for i c r
  proof -
    have "i = 0" using steps_calls [OF tr(1) that] by simp
    then have "(c, r) \<in> set (events_of 0 tr)" using that by (force simp: events_of_def)
    then have "(c, r) \<in> set (run_log demo_stats (stats_process demo_env) demo_alert_state)" using tr(2) by simp
    then show ?thesis by (rule demo_no_failure [rotated]) (simp add: demo_alert_state_def)
  qed
  then have "alerts_sound ''t'' (demo_view (snd (run demo_stats (stats_process demo_env) demo_alert_state)))"
    using alerts_once_a_day [OF demo_stats_ok sound tr(1)] by blast
  moreover have "map tb_at (da_breaches (snd (run demo_stats (stats_process demo_env) demo_alert_state))) = [1000]"
    by (rule demo_processed)
  ultimately show ?thesis by (simp add: demo_view_def)
qed

end
