(* ===== verification/Base_Units.thy ===== *)
theory Base_Units
  imports Js_Rounding Js_Text
begin

text \<open>
  Decimal strings and base units: \<^verbatim>\<open>toBaseUnits\<close> and \<^verbatim>\<open>fromBaseUnits\<close> of \<^verbatim>\<open>swaps.service.ts\<close>, the second also in
  \<^verbatim>\<open>balances.service.ts\<close>. Decimals are a column of the token table and taken as not negative.
\<close>

definition pad_start :: "nat \<Rightarrow> string \<Rightarrow> string" where
  "pad_start n s = replicate (n - length s) (CHR ''0'') @ s"

text \<open>\<^verbatim>\<open>s.replace(/0+$/, '')\<close>\<close>

definition strip_zeros :: "string \<Rightarrow> string" where
  "strip_zeros s = rev (dropWhile (\<lambda>c. c = CHR ''0'') (rev s))"

definition fromBaseUnits :: "int \<Rightarrow> nat \<Rightarrow> string" where
  "fromBaseUnits amount decimals =
     (let divisor = 10 ^ decimals; whole = amount sdiv divisor;
          frac = strip_zeros (pad_start decimals (show_int (amount smod divisor)))
      in if frac \<noteq> [] then show_int whole @ ''.'' @ frac else show_int whole)"

definition or_zero :: "string \<Rightarrow> string" where
  "or_zero s = (if s = [] then ''0'' else s)"

text \<open>\<open>None\<close> where \<^verbatim>\<open>BigInt\<close> throws.\<close>

definition toBaseUnits :: "string \<Rightarrow> nat \<Rightarrow> int option" where
  "toBaseUnits amount decimals =
     (let parts = split_on (CHR ''.'') amount; whole = hd parts; frac = (case tl parts of [] \<Rightarrow> [] | f # _ \<Rightarrow> f);
          paddedFrac = take decimals (frac @ replicate decimals (CHR ''0''))
      in Option.bind (bigint_of_string (or_zero whole)) (\<lambda>w.
         Option.bind (bigint_of_string (or_zero paddedFrac)) (\<lambda>f. Some (w * 10 ^ decimals + f))))"

section \<open>Round trip\<close>

lemma strip_zeros_take: "take (length s) (strip_zeros s @ replicate n (CHR ''0'')) = s" if "length s \<le> n"
proof -
  let ?z = "takeWhile (\<lambda>c. c = CHR ''0'') (rev s)"
  have "\<forall>c \<in> set ?z. c = CHR ''0''" by (auto dest: set_takeWhileD)
  then have z: "?z = replicate (length ?z) (CHR ''0'')" by (simp add: replicate_length_same)
  have "rev s = ?z @ dropWhile (\<lambda>c. c = CHR ''0'') (rev s)" by simp
  then have "s = strip_zeros s @ rev ?z" unfolding strip_zeros_def by (metis rev_append rev_rev_ident)
  moreover have "rev ?z = replicate (length ?z) (CHR ''0'')" using z by (metis rev_replicate)
  ultimately have s: "s = strip_zeros s @ replicate (length ?z) (CHR ''0'')" by metis
  then have l: "length s = length (strip_zeros s) + length ?z" by (metis length_append length_replicate)
  have "take (length s) (strip_zeros s @ replicate n (CHR ''0'')) = strip_zeros s @ take (length ?z) (replicate n (CHR ''0''))"
    using l by simp
  also have "\<dots> = s" using s l that by (simp add: min_def)
  finally show ?thesis .
qed

lemma show_nat_length: "0 \<le> n \<Longrightarrow> n < 10 ^ d \<Longrightarrow> 0 < d \<Longrightarrow> length (show_nat n) \<le> d"
proof (induction n arbitrary: d rule: show_nat.induct)
  case (1 n)
  show ?case
  proof (cases "n < 10")
    case True
    then show ?thesis using 1 by (subst show_nat.simps) simp
  next
    case False
    then obtain d' where d: "d = Suc d'" "0 < d'"
      using 1(3) by (cases d; cases "d - 1") auto
    then have "n div 10 < 10 ^ d'" using 1(3) by (simp add: div_less_iff_less_mult mult.commute)
    then have "length (show_nat (n div 10)) \<le> d'" using 1(1) [OF False] 1(2) d(2) by simp
    then show ?thesis using False d by (subst show_nat.simps) simp
  qed
qed

lemma digits_value_zeros: "digits_value 10 0 (replicate k (CHR ''0'') @ s) = digits_value 10 0 s"
  by (induction k) (simp_all add: digit_val_def)

lemma split_on_digits: "list_all is_digit s \<Longrightarrow> split_on (CHR ''.'') s = [s]"
  by (induction s) (auto simp: is_radix_digit_def digit_val_def Let_def)

lemma split_on_dot: "list_all is_digit s \<Longrightarrow> split_on (CHR ''.'') (s @ CHR ''.'' # t) = s # split_on (CHR ''.'') t"
  by (induction s) (auto simp: is_radix_digit_def digit_val_def Let_def)

lemma digits_zeros: "list_all is_digit (replicate k (CHR ''0''))"
  by (induction k) (simp_all add: is_radix_digit_def digit_val_def)

lemma strip_zeros_digits: "list_all is_digit s \<Longrightarrow> list_all is_digit (strip_zeros s)"
  unfolding strip_zeros_def list_all_iff by (auto dest: set_dropWhileD)

lemma padded_digits:
  assumes "0 \<le> r" and "r < 10 ^ d" and "0 < d"
  shows "length (pad_start d (show_nat r)) = d" and "list_all is_digit (pad_start d (show_nat r))"
    and "digits_value 10 0 (pad_start d (show_nat r)) = r"
  using show_nat_length [OF assms] show_nat_digits [OF assms(1)] digits_zeros
  by (auto simp: pad_start_def digits_value_zeros)

text \<open>Printing a number of base units and reading it back gives the number, whatever the decimals.\<close>

lemma units_read_back:
  assumes "0 \<le> amount"
  shows "toBaseUnits (fromBaseUnits amount decimals) decimals = Some amount"
proof -
  let ?w = "amount div 10 ^ decimals" and ?r = "amount mod 10 ^ decimals"
  have sd: "amount sdiv 10 ^ decimals = ?w" using assms by (intro sdiv_nonneg_pos) simp_all
  have sm: "amount smod 10 ^ decimals = ?r"
    using assms by (cases "amount = 0") (simp_all add: signed_modulo_int_def sgn_if)
  have wr: "0 \<le> ?w" "0 \<le> ?r" "?r < 10 ^ decimals" using assms by (auto simp: pos_imp_zdiv_nonneg_iff)
  have shown: "show_int ?w = show_nat ?w" "show_int ?r = show_nat ?r" using wr(1,2) by (simp_all only: show_int_def not_less [symmetric] if_False)
  have w: "show_nat ?w \<noteq> []" "list_all is_digit (show_nat ?w)" "digits_value 10 0 (show_nat ?w) = ?w"
    using show_nat_digits [OF wr(1)] by auto
  have bw: "bigint_of_string (or_zero (show_nat ?w)) = Some ?w"
    using bigint_of_digits [OF w(1,2)] w by (simp add: or_zero_def)
  have sum: "?w * 10 ^ decimals + ?r = amount" by (rule div_mult_mod_eq)
  show ?thesis
  proof (cases "decimals = 0")
    case True
    have "strip_zeros (pad_start 0 (show_int 0)) = []" by code_simp
    moreover have "bigint_of_string (or_zero []) = Some 0" by code_simp
    ultimately show ?thesis
      using True split_on_digits [OF w(2)] bw sum sd sm shown by (simp add: fromBaseUnits_def toBaseUnits_def Let_def)
  next
    case False
    let ?s = "pad_start decimals (show_nat ?r)"
    have s: "length ?s = decimals" "list_all is_digit ?s" "digits_value 10 0 ?s = ?r"
      using padded_digits [OF wr(2,3)] False by auto
    have bs: "bigint_of_string (or_zero ?s) = Some ?r"
      using bigint_of_digits [of ?s] s False by (cases ?s) (auto simp: or_zero_def)
    have full: "take decimals (strip_zeros ?s @ replicate decimals (CHR ''0'')) = ?s"
      using strip_zeros_take [of ?s decimals] s(1) by simp
    have digits: "list_all is_digit (strip_zeros ?s)" by (rule strip_zeros_digits [OF s(2)])
    show ?thesis
    proof (cases "strip_zeros ?s = []")
      case True
      have e: "take decimals (replicate decimals (CHR ''0'')) = ?s" using full unfolding True by (simp only: append_Nil)
      have "bigint_of_string (or_zero (take decimals (replicate decimals (CHR ''0'')))) = Some ?r"
        unfolding e by (rule bs)
      then show ?thesis using True split_on_digits [OF w(2)] bw sum
        by (simp add: fromBaseUnits_def toBaseUnits_def Let_def sd sm shown del: take_replicate take_all)
    next
      case False
      have "split_on (CHR ''.'') (show_nat ?w @ CHR ''.'' # strip_zeros ?s) = [show_nat ?w, strip_zeros ?s]"
        using split_on_dot [OF w(2)] split_on_digits [OF digits] by simp
      then show ?thesis using False bw bs sum full
        by (simp add: fromBaseUnits_def toBaseUnits_def Let_def sd sm shown)
    qed
  qed
qed

end
