(* ===== verification/Paging.thy ===== *)
theory Paging
  imports Js_Accuracy Js_Text "HOL-Library.Multiset"
begin

text \<open>
  Pages of a list: \<^verbatim>\<open>slice\<close> of page and limit, \<^verbatim>\<open>Math.ceil(tot / limit)\<close>, and sorting by a comparator, as the list
  endpoints use them. Reading all pages gives the list.
\<close>

definition page_of :: "int \<Rightarrow> int \<Rightarrow> 'a list \<Rightarrow> 'a list" where
  "page_of page limit xs = take (nat limit) (drop (nat ((page - 1) * limit)) xs)"

fun jceil :: "jsnum \<Rightarrow> jsnum" where
  "jceil (Fin x) = Fin (of_int \<lceil>x\<rceil>)"
| "jceil x = x"

definition total_pages :: "int \<Rightarrow> int \<Rightarrow> jsnum" where
  "total_pages tot limit = jceil (jdiv (num_of_int tot) (num_of_int limit))"

lemma total_pages_exact:
  assumes "0 \<le> tot" and "tot < 2 ^ 53" and "1 \<le> limit" and "limit \<le> 2 ^ 53"
  shows "total_pages tot limit = Fin (of_int \<lceil>of_int tot / of_int limit :: rat\<rceil>)"
proof (cases "tot = 0")
  case True
  then show ?thesis using assms by (simp add: total_pages_def)
next
  case False
  let ?l = "of_int limit :: rat"
  define x where "x = (of_int tot :: rat) / ?l"
  have l: "1 \<le> ?l" "?l \<le> 2 ^ 53" using assms(3,4) of_int_le_iff [where 'a = rat, of limit "2 ^ 53"] by simp_all
  have t: "1 \<le> (of_int tot :: rat)" "(of_int tot :: rat) < 2 ^ 53"
    using assms(1,2) False of_int_less_iff [where 'a = rat, of tot "2 ^ 53"] by simp_all
  have "1 / 2 ^ 53 \<le> 1 / ?l" using l by (intro divide_left_mono) simp_all
  also have "1 / ?l \<le> x" unfolding x_def using l t by (intro divide_right_mono) simp_all
  finally have x0: "1 / 2 ^ 53 \<le> x" .
  have "x \<le> of_int tot / 1" unfolding x_def using l t by (intro divide_left_mono) simp_all
  then have xt: "x < 2 ^ 53" using t(2) by simp
  let ?k = "\<lceil>x\<rceil>"
  have k: "0 \<le> ?k" "?k \<le> 2 ^ 53" using x0 xt by (simp_all add: ceiling_le_iff)
  have r: "representable (of_int ?k)" by (rule representable_of_int [OF k])
  have "(of_int ?k :: rat) < huge"
  proof -
    have "(of_int ?k :: rat) \<le> 2 ^ 53" using k(2) of_int_le_iff [where 'a = rat, of ?k "2 ^ 53"] by simp
    moreover have "(2::rat) ^ 53 < huge" by code_simp
    ultimately show ?thesis by linarith
  qed
  then obtain y where y: "to_double x = Fin y" "y \<le> of_int ?k"
    using to_double_le [of x "of_int ?k"] r x0 le_of_int_ceiling [of x] by (metis (no_types, lifting) order_trans zero_le_divide_1_iff zero_le_numeral zero_le_power)
  have "1 / 10 ^ 300 \<le> x"
  proof -
    have "(1 / 10 ^ 300 :: rat) \<le> 1 / 2 ^ 53" by simp
    then show ?thesis using x0 by linarith
  qed
  then have "near 1 x y" using near_round y(1) by blast
  then have "x - x / 2 ^ 53 \<le> y" by (simp add: near_def round_lo_def right_diff_distrib)
  moreover have "x / 2 ^ 53 < 1 / ?l"
  proof -
    have "x / 2 ^ 53 = of_int tot / 2 ^ 53 / ?l" by (simp add: x_def)
    also have "\<dots> < 1 / ?l" using t l by (intro divide_strict_right_mono) simp_all
    finally show ?thesis .
  qed
  moreover have "of_int (?k - 1) + 1 / ?l \<le> x"
  proof -
    have "of_int (?k - 1) < x" by linarith
    then have "of_int ((?k - 1) * limit) < (of_int tot :: rat)" using l unfolding x_def by (simp add: field_simps)
    then have "(?k - 1) * limit + 1 \<le> tot" by (simp only: of_int_less_iff)
    then have "of_int ((?k - 1) * limit + 1) \<le> (of_int tot :: rat)" by (simp only: of_int_le_iff)
    then have "of_int ((?k - 1) * limit + 1) / ?l \<le> x" unfolding x_def using l by (intro divide_right_mono) simp_all
    moreover have "of_int ((?k - 1) * limit + 1) / ?l = of_int (?k - 1) + 1 / ?l"
      using l by (simp add: add_divide_distrib)
    ultimately show ?thesis by simp
  qed
  ultimately have "of_int (?k - 1) < y" by linarith
  then have "\<lceil>y\<rceil> = ?k" using y(2) by (intro ceiling_unique) simp_all
  moreover have "num_of_int tot = Fin (of_int tot)" "num_of_int limit = Fin ?l" using assms by simp_all
  moreover have "?l \<noteq> 0" using l by simp
  ultimately show ?thesis using y(1) by (simp add: total_pages_def x_def)
qed

lemma pages_concat:
  "0 \<le> limit \<Longrightarrow> concat (map (\<lambda>i. page_of (int (Suc i)) limit xs) [0..<n]) = take (n * nat limit) xs"
proof (induction n)
  case (Suc n)
  have "nat (int n * limit) = n * nat limit" using Suc.prems by (simp add: nat_mult_distrib)
  then have "take (n * nat limit) xs @ page_of (int (Suc n)) limit xs = take (n * nat limit + nat limit) xs"
    by (simp add: page_of_def take_add)
  then show ?case using Suc by (simp add: add.commute)
qed simp

text \<open>The pages from the first to the last that \<open>total_pages\<close> announces are the whole list.\<close>

lemma pages_cover:
  assumes "1 \<le> limit" and "limit \<le> 2 ^ 53" and "length xs < 2 ^ 53" and "total_pages (int (length xs)) limit = Fin (of_nat n)"
  shows "concat (map (\<lambda>i. page_of (int (Suc i)) limit xs) [0..<n]) = xs"
proof -
  have "int (length xs) < 2 ^ 53" using assms(3) by simp
  then have "of_nat n = (of_int \<lceil>of_int (int (length xs)) / of_int limit :: rat\<rceil> :: rat)"
    using total_pages_exact [of "int (length xs)" limit] assms by simp
  then have "int n = \<lceil>of_int (int (length xs)) / of_int limit :: rat\<rceil>"
    by (metis of_int_eq_iff of_int_of_nat_eq)
  then have "of_int (int (length xs)) / of_int limit \<le> (of_int (int n) :: rat)" by linarith
  then have "of_int (int (length xs)) \<le> (of_int (int n * limit) :: rat)"
    using assms(1) by (simp add: field_simps)
  then have "int (length xs) \<le> int n * limit" by (simp only: of_int_le_iff)
  also have "\<dots> = int (n * nat limit)" using assms(1) by simp
  finally have "length xs \<le> n * nat limit" by (simp only: of_nat_le_iff)
  then show ?thesis using pages_concat [of limit xs n] assms(1) by simp
qed

section \<open>Sorting by a comparator\<close>

text \<open>\<^verbatim>\<open>Array.prototype.sort\<close> with a comparator is a stable sort: \<open>gt x y\<close> says that the comparator returns a positive number.\<close>

fun sort_insert :: "('a \<Rightarrow> 'a \<Rightarrow> bool) \<Rightarrow> 'a \<Rightarrow> 'a list \<Rightarrow> 'a list" where
  "sort_insert gt x [] = [x]"
| "sort_insert gt x (y # ys) = (if gt x y then y # sort_insert gt x ys else x # y # ys)"

definition js_sort :: "('a \<Rightarrow> 'a \<Rightarrow> bool) \<Rightarrow> 'a list \<Rightarrow> 'a list" where
  "js_sort gt xs = foldr (sort_insert gt) xs []"

lemma sort_insert_mset: "mset (sort_insert gt x xs) = add_mset x (mset xs)"
  by (induction xs) auto

lemma js_sort_mset [simp]: "mset (js_sort gt xs) = mset xs"
  unfolding js_sort_def by (induction xs) (simp_all add: sort_insert_mset)

lemma js_sort_length [simp]: "length (js_sort gt xs) = length xs"
  using js_sort_mset by (metis size_mset)

lemma js_sort_set [simp]: "set (js_sort gt xs) = set xs"
  using js_sort_mset by (metis set_mset_mset)

text \<open>For a comparator that orders the elements linearly the result is sorted, and one result for all arrangements.\<close>

definition orders :: "('a \<Rightarrow> 'a \<Rightarrow> bool) \<Rightarrow> 'a set \<Rightarrow> bool" where
  "orders gt A \<longleftrightarrow>
     (\<forall>x \<in> A. \<forall>y \<in> A. \<not> (gt x y \<and> gt y x) \<and> (x \<noteq> y \<longrightarrow> gt x y \<or> gt y x)) \<and>
     (\<forall>x \<in> A. \<forall>y \<in> A. \<forall>z \<in> A. gt x y \<longrightarrow> gt y z \<longrightarrow> gt x z)"

lemma orders_le_trans:
  "orders gt A \<Longrightarrow> x \<in> A \<Longrightarrow> y \<in> A \<Longrightarrow> z \<in> A \<Longrightarrow> \<not> gt x y \<Longrightarrow> \<not> gt y z \<Longrightarrow> \<not> gt x z"
  unfolding orders_def by metis

lemma sort_insert_sorted:
  assumes "orders gt A" and "insert x (set xs) \<subseteq> A"
  shows "sorted_wrt (\<lambda>x y. \<not> gt x y) xs \<Longrightarrow> sorted_wrt (\<lambda>x y. \<not> gt x y) (sort_insert gt x xs)"
  using assms(2)
proof (induction xs)
  case (Cons y ys)
  have set: "set (sort_insert gt x ys) = insert x (set ys)"
    using sort_insert_mset [of gt x ys] by (metis set_mset_add_mset_insert set_mset_mset)
  show ?case
  proof (cases "gt x y")
    case True
    then have "\<not> gt y x" using assms(1) Cons.prems(2) unfolding orders_def by auto
    then show ?thesis using True Cons set by auto
  next
    case False
    then have "\<not> gt x z" if "z \<in> set ys" for z
      using orders_le_trans [OF assms(1), of x y z] Cons.prems that by auto
    then show ?thesis using False Cons.prems by auto
  qed
qed simp

lemma js_sort_sorted: "orders gt A \<Longrightarrow> set xs \<subseteq> A \<Longrightarrow> sorted_wrt (\<lambda>x y. \<not> gt x y) (js_sort gt xs)"
proof (induction xs)
  case (Cons x xs)
  have "set (js_sort gt xs) = set xs" by simp
  then show ?case using Cons sort_insert_sorted [of gt A x "js_sort gt xs"] by (simp add: js_sort_def)
qed (simp add: js_sort_def)

lemma sorted_unique:
  assumes "orders gt A"
  shows "sorted_wrt (\<lambda>x y. \<not> gt x y) xs \<Longrightarrow> sorted_wrt (\<lambda>x y. \<not> gt x y) ys \<Longrightarrow> mset xs = mset ys \<Longrightarrow> set xs \<subseteq> A \<Longrightarrow> xs = ys"
proof (induction xs arbitrary: ys)
  case (Cons x xs)
  then obtain y ys' where ys: "ys = y # ys'" by (cases ys) auto
  have e: "set (x # xs) = set (y # ys')" using Cons.prems(3) ys by (metis set_mset_mset)
  have "x = y"
  proof (rule ccontr)
    assume ne: "x \<noteq> y"
    then have "y \<in> set xs" "x \<in> set ys'" using e by auto
    then have "\<not> gt x y" "\<not> gt y x" using Cons.prems(1,2) ys by auto
    moreover have "x \<in> A" "y \<in> A" using Cons.prems(4) e by auto
    ultimately show False using assms ne unfolding orders_def by blast
  qed
  then show ?case using Cons ys by auto
qed simp

lemma js_sort_unique:
  assumes "orders gt (set xs)" and "mset ys = mset xs"
  shows "js_sort gt ys = js_sort gt xs"
proof (rule sorted_unique [OF assms(1)])
  have "set ys = set xs" using assms(2) by (metis set_mset_mset)
  then show "sorted_wrt (\<lambda>x y. \<not> gt x y) (js_sort gt ys)" using js_sort_sorted [OF assms(1)] by simp
qed (use js_sort_sorted [OF assms(1)] assms(2) mset_eq_setD [OF assms(2)] in simp_all)

end
