(* ===== verification/Pools.thy ===== *)
theory Pools
  imports Paging Json Prog_Wp
begin

text \<open>
  The pool endpoints, \<^verbatim>\<open>apps/api/src/pools\<close>: repository, service, controller, the view of the contract's state
  (\<^verbatim>\<open>cl-pool-view.ts\<close>) and the error map. Database, cache and clock are calls; the cache holds values as they were put
  in, and the lock operations, which \<^verbatim>\<open>CacheService\<close> does not have, are calls as well. \<^verbatim>\<open>localeCompare\<close>, SHA-1 and
  \<^verbatim>\<open>JSON.stringify\<close> are parameters. Page and limit are integers: the request validation rejects anything else.
\<close>

section \<open>Rows and views\<close>

record pool_read =
  pl_id :: string
  pl_token0 :: string
  pl_token1 :: string
  pl_feeTier :: int
  pl_sqrtPrice :: string
  pl_tick :: int
  pl_liquidity :: string
  pl_tvl :: string
  pl_volume24h :: string
  pl_feeApr :: string
  pl_currentPrice :: "string option"
  pl_active :: bool
  pl_createdAt :: int
  pl_updatedAt :: int

record swap_read =
  sw_id :: string
  sw_amount0 :: string
  sw_amount1 :: string
  sw_timestamp :: int
  sw_txHash :: string

record token_read =
  tr_symbol :: string
  tr_name :: string
  tr_decimals :: int

record tick_read =
  ti_index :: int
  ti_net :: string
  ti_gross :: string
  ti_growth0 :: string
  ti_growth1 :: string

record cl_pool_view =
  cv_source :: string
  cv_derived :: bool
  cv_poolId :: string
  cv_derivedAt :: int
  cv_sqrtPriceX96 :: string
  cv_tick :: int
  cv_liquidity :: string
  cv_tickSpacing :: int

definition DEFAULT_TICK_SPACING :: int where "DEFAULT_TICK_SPACING = 60"

definition TICK_SPACING_BY_FEE_TIER :: "(int \<times> int) list" where
  "TICK_SPACING_BY_FEE_TIER = [(500, 10), (3000, 60), (10000, 200)]"

definition tickSpacingForFeeTier :: "int \<Rightarrow> int" where
  "tickSpacingForFeeTier feeTier = or_else (map_of TICK_SPACING_BY_FEE_TIER feeTier) DEFAULT_TICK_SPACING"

definition deriveClPoolView :: "pool_read \<Rightarrow> int \<Rightarrow> cl_pool_view" where
  "deriveClPoolView pool derivedAt =
     \<lparr>cv_source = ''pool'', cv_derived = True, cv_poolId = pl_id pool, cv_derivedAt = derivedAt,
       cv_sqrtPriceX96 = pl_sqrtPrice pool, cv_tick = pl_tick pool, cv_liquidity = pl_liquidity pool,
       cv_tickSpacing = tickSpacingForFeeTier (pl_feeTier pool)\<rparr>"

record pool_snapshot =
  ps_id :: string
  ps_token0 :: string
  ps_token1 :: string
  ps_feeTier :: string
  ps_tvl :: jsnum
  ps_volume24h :: jsnum
  ps_feeApr :: jsnum
  ps_currentPrice :: jsnum
  ps_active :: bool
  ps_updatedAt :: int

datatype pool_order = By_Tvl | By_Volume | By_Apr

record pool_query =
  pq_page :: int
  pq_limit :: int
  pq_orderBy :: pool_order
  pq_search :: "string option"
  pq_token0 :: "string option"
  pq_token1 :: "string option"
  pq_includeInactive :: bool

record pool_item =
  it_id :: string
  it_token0 :: string
  it_token1 :: string
  it_feeTier :: string
  it_tvl :: jsnum
  it_volume24h :: jsnum
  it_feeApr :: jsnum
  it_currentPrice :: jsnum
  it_active :: bool

record pools_list =
  pr_items :: "pool_item list"
  pr_page :: int
  pr_limit :: int
  pr_total :: int
  pr_totalPages :: jsnum
  pr_orderBy :: pool_order
  pr_search :: "string option"

record pool_token =
  pt_address :: string
  pt_symbol :: string
  pt_name :: string
  pt_decimals :: int

record recent_swap =
  rs_id :: string
  rs_timestamp :: int
  rs_amount0 :: string
  rs_amount1 :: string
  rs_price :: string
  rs_type :: string
  rs_txHash :: string

record pool_detail =
  pd_id :: string
  pd_token0 :: pool_token
  pd_token1 :: pool_token
  pd_feeTier :: int
  pd_currentSqrtPrice :: string
  pd_currentTick :: int
  pd_totalLiquidity :: string
  pd_tvl :: string
  pd_volume24h :: string
  pd_volume7d :: string
  pd_feeApr :: string
  pd_creationTimestamp :: int
  pd_recentSwaps :: "recent_swap list"
  pd_clPool :: cl_pool_view

section \<open>Calls and errors\<close>

datatype pl_call =
    Find_Pools_Where bool "string option"
  | Find_Pool_By_Id string
  | Find_Pool_With_Swaps string
  | Find_Token_By_Address string
  | Find_Tick_Rows string "int option" "int option"
  | Count_Pools string
  | Update_Current_Price string string
  | Get_List string
  | Set_List string pools_list int
  | Get_Ticks string
  | Set_Ticks string "tick_read list" int
  | Get_Detail string
  | Set_Detail string pool_detail int
  | Del_Detail string
  | Acquire_Lock string int
  | Wait_Lock string int
  | Release_Lock string
  | Pool_Clock

datatype pl_reply =
    PErr string
  | PMissing
  | PDone
  | PPools "pool_read list"
  | PPool "pool_read option"
  | PPoolSwaps "(pool_read \<times> swap_read list) option"
  | PToken "token_read option"
  | PTicks "tick_read list"
  | PCount int
  | PList "pools_list option"
  | PTickList "tick_read list option"
  | PDetail "pool_detail option"
  | PBool bool
  | PTime int

text \<open>An HTTP exception with its status and the fields of its body, a domain error of the liquidity path, or any other error.\<close>

datatype lp_code =
    LP_UNAUTHORIZED | LP_INVALID_AMOUNT | LP_INVALID_TICK_RANGE | LP_POOL_NOT_FOUND | LP_POOL_INACTIVE
  | LP_INSUFFICIENT_LIQUIDITY | LP_DEPENDENCY_UNAVAILABLE | LP_REPLAY_DETECTED

datatype pool_exn =
    Http_Exn int "string option" string "string option" "bool option"
  | Domain_Exn lp_code string string
  | Other_Exn string

type_synonym 'a pl_prog = "(pl_call, pl_reply, pool_exn + 'a) prog"

definition pl_await :: "pl_call \<Rightarrow> (pl_reply \<Rightarrow> 'a pl_prog) \<Rightarrow> 'a pl_prog" where
  "pl_await c k = Call c (\<lambda>r. case r of PErr e \<Rightarrow> Ret (Inl (Other_Exn e)) | _ \<Rightarrow> k r)"

definition pl_odd :: "'a pl_prog" where
  "pl_odd = Ret (Inl (Other_Exn ''unexpected reply''))"

definition pl_clock :: "(int \<Rightarrow> 'a pl_prog) \<Rightarrow> 'a pl_prog" where
  "pl_clock k = Call Pool_Clock (\<lambda>r. case r of PTime t \<Rightarrow> k t | _ \<Rightarrow> pl_odd)"

section \<open>Repository (\<^verbatim>\<open>pools.repository.ts\<close>)\<close>

definition asFiniteNumber :: "string option \<Rightarrow> jsnum" where
  "asFiniteNumber v = (let parsed = parse_float (or_else v ''0'') in if is_finite parsed then parsed else Fin 0)"

definition toSnapshot :: "pool_read \<Rightarrow> pool_snapshot" where
  "toSnapshot pool =
     \<lparr>ps_id = pl_id pool, ps_token0 = pl_token0 pool, ps_token1 = pl_token1 pool, ps_feeTier = show_int (pl_feeTier pool),
       ps_tvl = asFiniteNumber (Some (pl_tvl pool)), ps_volume24h = asFiniteNumber (Some (pl_volume24h pool)),
       ps_feeApr = asFiniteNumber (Some (pl_feeApr pool)), ps_currentPrice = asFiniteNumber (pl_currentPrice pool),
       ps_active = pl_active pool, ps_updatedAt = pl_updatedAt pool\<rparr>"

fun order_key :: "pool_order \<Rightarrow> pool_snapshot \<Rightarrow> jsnum" where
  "order_key By_Tvl p = ps_tvl p"
| "order_key By_Volume p = ps_volume24h p"
| "order_key By_Apr p = ps_feeApr p"

text \<open>The comparator returns a positive number: the second element goes first.\<close>

definition pool_after :: "(string \<Rightarrow> string \<Rightarrow> int) \<Rightarrow> pool_order \<Rightarrow> pool_snapshot \<Rightarrow> pool_snapshot \<Rightarrow> bool" where
  "pool_after localeCompare orderBy a b =
     (let primary = jsub (order_key orderBy b) (order_key orderBy a) in
      if primary \<noteq> Fin 0 then jlt (Fin 0) primary else 0 < localeCompare (ps_id a) (ps_id b))"

definition sorted_pools :: "(string \<Rightarrow> string \<Rightarrow> int) \<Rightarrow> pool_order \<Rightarrow> pool_read list \<Rightarrow> pool_snapshot list" where
  "sorted_pools localeCompare orderBy rows = js_sort (pool_after localeCompare orderBy) (map toSnapshot rows)"

definition listActivePools :: "(string \<Rightarrow> string \<Rightarrow> int) \<Rightarrow> pool_query \<Rightarrow> (pool_snapshot list \<times> int) pl_prog" where
  "listActivePools localeCompare query =
     (let search = map_option (\<lambda>s. map lower_char (trim s)) (pq_search query) in
      pl_await (Find_Pools_Where (\<not> pq_includeInactive query) (case search of Some [] \<Rightarrow> None | s \<Rightarrow> s)) (\<lambda>r. case r of
        PPools pools \<Rightarrow> Ret (Inr (page_of (pq_page query) (pq_limit query) (sorted_pools localeCompare (pq_orderBy query) pools),
          int (length pools)))
      | _ \<Rightarrow> pl_odd))"

definition findClPoolView :: "string \<Rightarrow> cl_pool_view option pl_prog" where
  "findClPoolView poolId =
     pl_await (Find_Pool_By_Id poolId) (\<lambda>r. case r of
       PPool (Some pool) \<Rightarrow> pl_clock (\<lambda>t. Ret (Inr (Some (deriveClPoolView pool t))))
     | PPool None \<Rightarrow> Ret (Inr None)
     | _ \<Rightarrow> pl_odd)"

text \<open>\<open>PMissing\<close> is Prisma's error P2025.\<close>

definition upsertPoolState :: "string \<Rightarrow> string option \<Rightarrow> unit pl_prog" where
  "upsertPoolState poolId patchPrice =
     (case patchPrice of
        None \<Rightarrow> Ret (Inr ())
      | Some price \<Rightarrow>
          (let currentPrice = parse_float price in
           if \<not> is_finite currentPrice \<or> jlt currentPrice (Fin 0) then Ret (Inr ())
           else pl_await (Update_Current_Price poolId price) (\<lambda>_. Ret (Inr ()))))"

definition poolExists :: "string \<Rightarrow> bool pl_prog" where
  "poolExists i = pl_await (Count_Pools i) (\<lambda>r. case r of PCount n \<Rightarrow> Ret (Inr (0 < n)) | _ \<Rightarrow> pl_odd)"

definition getTicksByPoolId :: "string \<Rightarrow> int option \<Rightarrow> int option \<Rightarrow> tick_read list pl_prog" where
  "getTicksByPoolId poolId lower upper =
     pl_await (Find_Tick_Rows poolId lower upper) (\<lambda>r. case r of PTicks ts \<Rightarrow> Ret (Inr ts) | _ \<Rightarrow> pl_odd)"

definition getPoolDetailById ::
  "string \<Rightarrow> (pool_read \<times> swap_read list \<times> token_read option \<times> token_read option) option pl_prog" where
  "getPoolDetailById poolId =
     pl_await (Find_Pool_With_Swaps poolId) (\<lambda>r. case r of
       PPoolSwaps (Some (pool, swaps)) \<Rightarrow>
         pl_await (Find_Token_By_Address (pl_token0 pool)) (\<lambda>r0.
         pl_await (Find_Token_By_Address (pl_token1 pool)) (\<lambda>r1. case (r0, r1) of
           (PToken t0, PToken t1) \<Rightarrow> Ret (Inr (Some (pool, swaps, t0, t1))) | _ \<Rightarrow> pl_odd))
     | PPoolSwaps None \<Rightarrow> Ret (Inr None)
     | _ \<Rightarrow> pl_odd)"

section \<open>Service (\<^verbatim>\<open>pools.service.ts\<close>)\<close>

fun order_name :: "pool_order \<Rightarrow> string" where
  "order_name By_Tvl = ''tvl''"
| "order_name By_Volume = ''volume''"
| "order_name By_Apr = ''apr''"

definition bool_text :: "bool \<Rightarrow> string" where
  "bool_text b = (if b then ''true'' else ''false'')"

definition getListCacheKey :: "pool_query \<Rightarrow> string" where
  "getListCacheKey q =
     ''pools:list:v1:page='' @ show_int (pq_page q) @ '':limit='' @ show_int (pq_limit q) @ '':orderBy='' @ order_name (pq_orderBy q) @
     '':search='' @ or_else (pq_search q) [] @ '':token0='' @ or_else (pq_token0 q) [] @ '':token1='' @ or_else (pq_token1 q) [] @
     '':includeInactive='' @ bool_text (pq_includeInactive q)"

definition toListItem :: "pool_snapshot \<Rightarrow> pool_item" where
  "toListItem p =
     \<lparr>it_id = ps_id p, it_token0 = ps_token0 p, it_token1 = ps_token1 p, it_feeTier = ps_feeTier p, it_tvl = ps_tvl p,
       it_volume24h = ps_volume24h p, it_feeApr = ps_feeApr p, it_currentPrice = ps_currentPrice p, it_active = ps_active p\<rparr>"

text \<open>\<^verbatim>\<open>x?.trim() || undefined\<close>\<close>

definition trimmed :: "string option \<Rightarrow> string option" where
  "trimmed s = (case s of None \<Rightarrow> None | Some x \<Rightarrow> if trim x = [] then None else Some (trim x))"

record pools_request =
  gr_page :: "int option"
  gr_limit :: "int option"
  gr_orderBy :: "pool_order option"
  gr_search :: "string option"
  gr_token0 :: "string option"
  gr_token1 :: "string option"
  gr_includeInactive :: "bool option"

definition list_query :: "pools_request \<Rightarrow> pool_query" where
  "list_query q =
     \<lparr>pq_page = or_else (gr_page q) 1, pq_limit = or_else (gr_limit q) 20, pq_orderBy = or_else (gr_orderBy q) By_Tvl,
       pq_search = trimmed (gr_search q), pq_token0 = trimmed (gr_token0 q), pq_token1 = trimmed (gr_token1 q),
       pq_includeInactive = (gr_includeInactive q = Some True)\<rparr>"

definition TTL_POOL_LIST :: int where "TTL_POOL_LIST = 30"

definition TTL_TICKS :: int where "TTL_TICKS = 10"

definition getPools :: "(string \<Rightarrow> string \<Rightarrow> int) \<Rightarrow> pools_request \<Rightarrow> pools_list pl_prog" where
  "getPools localeCompare request =
     (let q = list_query request; cacheKey = getListCacheKey q in
      pl_await (Get_List cacheKey) (\<lambda>r. case r of
        PList (Some cached) \<Rightarrow> Ret (Inr cached)
      | PList None \<Rightarrow>
          prog_then (listActivePools localeCompare q) (\<lambda>(items, n).
            let response = \<lparr>pr_items = map toListItem items, pr_page = pq_page q, pr_limit = pq_limit q, pr_total = n,
                  pr_totalPages = total_pages n (pq_limit q), pr_orderBy = pq_orderBy q, pr_search = pq_search q\<rparr> in
            pl_await (Set_List cacheKey response TTL_POOL_LIST) (\<lambda>_. Ret (Inr response)))
      | _ \<Rightarrow> pl_odd))"

definition DEFAULT_TOKEN_DECIMALS :: int where "DEFAULT_TOKEN_DECIMALS = 18"

definition toPoolToken :: "string \<Rightarrow> token_read option \<Rightarrow> pool_token" where
  "toPoolToken address t =
     \<lparr>pt_address = address, pt_symbol = or_else (map_option tr_symbol t) '''', pt_name = or_else (map_option tr_name t) '''',
       pt_decimals = or_else (map_option tr_decimals t) DEFAULT_TOKEN_DECIMALS\<rparr>"

definition toRecentSwap :: "swap_read \<Rightarrow> recent_swap" where
  "toRecentSwap swap =
     (let a0 = parse_float (sw_amount0 swap); a1 = parse_float (sw_amount1 swap) in
      \<lparr>rs_id = sw_id swap, rs_timestamp = sw_timestamp swap div 1000, rs_amount0 = sw_amount0 swap, rs_amount1 = sw_amount1 swap,
        rs_price = (if a1 \<noteq> Fin 0 then num_to_string (jdiv a0 a1) else num_to_string a0),
        rs_type = (if jlt a1 a0 then ''sell'' else ''buy''), rs_txHash = sw_txHash swap\<rparr>)"

definition findPoolById :: "string \<Rightarrow> pool_detail option pl_prog" where
  "findPoolById i =
     prog_then (getPoolDetailById i) (\<lambda>data. case data of
       None \<Rightarrow> Ret (Inr None)
     | Some (pool, swaps, token0, token1) \<Rightarrow> pl_clock (\<lambda>t. Ret (Inr (Some
         \<lparr>pd_id = pl_id pool, pd_token0 = toPoolToken (pl_token0 pool) token0, pd_token1 = toPoolToken (pl_token1 pool) token1,
           pd_feeTier = pl_feeTier pool, pd_currentSqrtPrice = pl_sqrtPrice pool, pd_currentTick = pl_tick pool,
           pd_totalLiquidity = pl_liquidity pool, pd_tvl = pl_tvl pool, pd_volume24h = pl_volume24h pool, pd_volume7d = ''0'',
           pd_feeApr = pl_feeApr pool, pd_creationTimestamp = pl_createdAt pool div 1000,
           pd_recentSwaps = map toRecentSwap swaps, pd_clPool = deriveClPoolView pool t\<rparr>))))"

definition ticks_cache_key :: "string \<Rightarrow> int option \<Rightarrow> int option \<Rightarrow> string" where
  "ticks_cache_key poolId lower upper =
     ''pools:ticks:v1:'' @ poolId @ '':'' @ (case lower of Some t \<Rightarrow> show_int t | None \<Rightarrow> []) @ '':'' @
     (case upper of Some t \<Rightarrow> show_int t | None \<Rightarrow> [])"

definition getPoolTicks :: "string \<Rightarrow> int option \<Rightarrow> int option \<Rightarrow> tick_read list pl_prog" where
  "getPoolTicks poolId lower upper =
     pl_await (Get_Ticks (ticks_cache_key poolId lower upper)) (\<lambda>r. case r of
       PTickList (Some cached) \<Rightarrow> Ret (Inr cached)
     | PTickList None \<Rightarrow>
         prog_then (poolExists poolId) (\<lambda>ex.
           if \<not> ex then Ret (Inl (Http_Exn 404 None (''Pool '' @ poolId @ '' not found'') None None))
           else prog_then (getTicksByPoolId poolId lower upper) (\<lambda>ts.
             pl_await (Set_Ticks (ticks_cache_key poolId lower upper) ts TTL_TICKS) (\<lambda>_. Ret (Inr ts))))
     | _ \<Rightarrow> pl_odd)"

definition handlePoolStateUpdate :: "string \<Rightarrow> string option \<Rightarrow> unit pl_prog" where
  "handlePoolStateUpdate poolId patchPrice =
     prog_then (upsertPoolState poolId patchPrice) (\<lambda>_. pl_await (Del_Detail (''pool:'' @ poolId)) (\<lambda>_. Ret (Inr ())))"

section \<open>Controller (\<^verbatim>\<open>pools.controller.ts\<close>)\<close>

text \<open>The response of the list: status, entity tag, body.\<close>

definition pools_etag :: "(string \<Rightarrow> string) \<Rightarrow> (pools_list \<Rightarrow> string) \<Rightarrow> pools_list \<Rightarrow> string" where
  "pools_etag sha1 stringify body = CHR 34 # sha1 (stringify body) @ [CHR 34]"

definition get_pools_endpoint ::
  "(string \<Rightarrow> string \<Rightarrow> int) \<Rightarrow> (string \<Rightarrow> string) \<Rightarrow> (pools_list \<Rightarrow> string) \<Rightarrow> pools_request \<Rightarrow> string option \<Rightarrow>
   (int \<times> string \<times> pools_list option) pl_prog" where
  "get_pools_endpoint localeCompare sha1 stringify request ifNoneMatch =
     prog_then (getPools localeCompare request) (\<lambda>body.
       let etag = pools_etag sha1 stringify body in
       if ifNoneMatch = Some etag \<or> ifNoneMatch = Some ''*'' then Ret (Inr (304, etag, None)) else Ret (Inr (200, etag, Some body)))"

definition pool_not_found :: "string \<Rightarrow> pool_exn" where
  "pool_not_found i = Http_Exn 404 None (''Pool with ID '' @ [CHR 34] @ i @ [CHR 34] @ '' not found. Check the ID and try again.'') None None"

definition load_detail :: "string \<Rightarrow> string \<Rightarrow> pool_detail option pl_prog" where
  "load_detail cacheKey i =
     prog_then (findPoolById i) (\<lambda>pool. case pool of
       None \<Rightarrow> Ret (Inr None)
     | Some p \<Rightarrow> pl_await (Set_Detail cacheKey p 15) (\<lambda>_. Ret (Inr (Some p))))"

definition await_detail :: "string \<Rightarrow> string \<Rightarrow> pool_detail option pl_prog" where
  "await_detail cacheKey i =
     pl_await (Wait_Lock cacheKey 1000) (\<lambda>r.
       if r = PBool True then
         pl_await (Get_Detail cacheKey) (\<lambda>r2. case r2 of
           PDetail (Some cached2) \<Rightarrow> Ret (Inr (Some cached2))
         | _ \<Rightarrow> findPoolById i)
       else findPoolById i)"

text \<open>\<^verbatim>\<open>try { m } finally { f }\<close>: an error of \<open>f\<close> wins.\<close>

definition pl_finally :: "'a pl_prog \<Rightarrow> unit pl_prog \<Rightarrow> 'a pl_prog" where
  "pl_finally m f = prog_bind m (\<lambda>x. prog_then f (\<lambda>_. Ret x))"

definition getPoolById :: "string \<Rightarrow> pool_detail pl_prog" where
  "getPoolById i =
     (let cacheKey = ''pool:'' @ i in
      pl_await (Get_Detail cacheKey) (\<lambda>r. case r of
        PDetail (Some cached) \<Rightarrow> Ret (Inr cached)
      | _ \<Rightarrow>
          pl_await (Acquire_Lock cacheKey 5) (\<lambda>r.
            prog_then
              (if r = PBool True then pl_finally (load_detail cacheKey i) (pl_await (Release_Lock cacheKey) (\<lambda>_. Ret (Inr ())))
               else await_detail cacheKey i)
              (\<lambda>pool. case pool of None \<Rightarrow> Ret (Inl (pool_not_found i)) | Some p \<Rightarrow> Ret (Inr p)))))"

definition get_ticks_endpoint :: "string \<Rightarrow> int option \<Rightarrow> int option \<Rightarrow> tick_read list pl_prog" where
  "get_ticks_endpoint i lower upper =
     (if lower \<noteq> None \<and> upper \<noteq> None \<and> the upper < the lower
      then Ret (Inl (Http_Exn 400 None ''lowerTick must be less than or equal to upperTick.'' None None))
      else prog_then (findPoolById i) (\<lambda>pool. case pool of
        None \<Rightarrow> Ret (Inl (pool_not_found i))
      | Some _ \<Rightarrow> getPoolTicks i lower upper))"

section \<open>Liquidity mutations\<close>

fun lp_code_name :: "lp_code \<Rightarrow> string" where
  "lp_code_name LP_UNAUTHORIZED = ''LP_UNAUTHORIZED''"
| "lp_code_name LP_INVALID_AMOUNT = ''LP_INVALID_AMOUNT''"
| "lp_code_name LP_INVALID_TICK_RANGE = ''LP_INVALID_TICK_RANGE''"
| "lp_code_name LP_POOL_NOT_FOUND = ''LP_POOL_NOT_FOUND''"
| "lp_code_name LP_POOL_INACTIVE = ''LP_POOL_INACTIVE''"
| "lp_code_name LP_INSUFFICIENT_LIQUIDITY = ''LP_INSUFFICIENT_LIQUIDITY''"
| "lp_code_name LP_DEPENDENCY_UNAVAILABLE = ''LP_DEPENDENCY_UNAVAILABLE''"
| "lp_code_name LP_REPLAY_DETECTED = ''LP_REPLAY_DETECTED''"

fun lp_status :: "lp_code \<Rightarrow> int" where
  "lp_status LP_UNAUTHORIZED = 403"
| "lp_status LP_INVALID_AMOUNT = 400"
| "lp_status LP_INVALID_TICK_RANGE = 400"
| "lp_status LP_POOL_NOT_FOUND = 404"
| "lp_status LP_POOL_INACTIVE = 409"
| "lp_status LP_INSUFFICIENT_LIQUIDITY = 409"
| "lp_status LP_DEPENDENCY_UNAVAILABLE = 503"
| "lp_status LP_REPLAY_DETECTED = 409"

definition NOT_APPLIED_CODES :: "lp_code list" where
  "NOT_APPLIED_CODES = [LP_REPLAY_DETECTED]"

definition toLiquidityHttpException :: "lp_code \<Rightarrow> string \<Rightarrow> string \<Rightarrow> pool_exn" where
  "toLiquidityHttpException code message correlationId =
     Http_Exn (lp_status code) (Some (lp_code_name code)) message (if correlationId = [] then None else Some correlationId)
       (if code \<in> set NOT_APPLIED_CODES then Some False else None)"

fun translateLiquidityError :: "pool_exn \<Rightarrow> string \<Rightarrow> pool_exn" where
  "translateLiquidityError (Domain_Exn code message cid) correlationId = toLiquidityHttpException code message cid"
| "translateLiquidityError (Http_Exn status code message cid applied) correlationId = Http_Exn status code message cid applied"
| "translateLiquidityError (Other_Exn e) correlationId =
     toLiquidityHttpException LP_DEPENDENCY_UNAVAILABLE ''A liquidity dependency is unavailable. Retry later.'' correlationId"

datatype mutation_kind = Mint | Burn

definition kind_name :: "mutation_kind \<Rightarrow> string" where
  "kind_name k = (case k of Mint \<Rightarrow> ''mint'' | Burn \<Rightarrow> ''burn'')"

record mutation_result =
  mr_correlationId :: string
  mr_poolId :: string
  mr_lowerTick :: "json option"
  mr_upperTick :: "json option"
  mr_amount :: "json option"
  mr_totalLiquidity :: "json option"
  mr_replayed :: bool

definition LP_MUTATION_ROLES :: "string list" where
  "LP_MUTATION_ROLES = [''lp'', ''admin'']"

text \<open>The body is whatever JSON the caller sends: its type is an interface, so nothing validates it. \<^verbatim>\<open>String(v)\<close>:\<close>

fun json_text :: "json \<Rightarrow> string" and json_texts :: "json list \<Rightarrow> string" where
  "json_text JNull = ''null''"
| "json_text (JBool b) = bool_text b"
| "json_text (JNum x) = num_to_string x"
| "json_text (JStr s) = s"
| "json_text (JArr vs) = json_texts vs"
| "json_text (JObj fs) = ''[object Object]''"
| "json_texts [] = []"
| "json_texts (v # vs) = (if v = JNull then [] else json_text v) @ (if vs = [] then [] else CHR '','' # json_texts vs)"

definition body_field :: "json option \<Rightarrow> string \<Rightarrow> json option" where
  "body_field body k = Option.bind body (\<lambda>b. json_field b k)"

text \<open>\<^verbatim>\<open>idempotencyKey?.trim() || body?.idempotencyKey?.trim()\<close>; only strings have a \<^verbatim>\<open>trim\<close>.\<close>

definition idempotency_of :: "string option \<Rightarrow> json option \<Rightarrow> pool_exn + string option" where
  "idempotency_of header body =
     (case trimmed header of
        Some k \<Rightarrow> Inr (Some k)
      | None \<Rightarrow> (case body_field body ''idempotencyKey'' of
          None \<Rightarrow> Inr None
        | Some JNull \<Rightarrow> Inr None
        | Some (JStr s) \<Rightarrow> Inr (trimmed (Some s))
        | Some _ \<Rightarrow> Inl (Other_Exn ''trim is not a function'')))"

fun integer_field :: "json option \<Rightarrow> bool" where
  "integer_field (Some (JNum x)) = is_integer x"
| "integer_field _ = False"

fun field_num :: "json option \<Rightarrow> jsnum" where
  "field_num (Some (JNum x)) = x"
| "field_num _ = NaN"

definition positive_amount :: "json option \<Rightarrow> bool" where
  "positive_amount v =
     (json_truthy v \<and> (let text = json_text (the v) in text \<noteq> [] \<and> list_all is_digit text \<and> 0 < digits_value 10 0 text))"

definition lp_request_error :: "string \<Rightarrow> string \<Rightarrow> pool_exn" where
  "lp_request_error message cid = Http_Exn 400 (Some ''POOL_LIQUIDITY_INVALID_REQUEST'') message (Some cid) None"

definition runLiquidityMutation ::
  "mutation_kind \<Rightarrow> string \<Rightarrow> json option \<Rightarrow> string option \<Rightarrow> string option \<Rightarrow> string \<Rightarrow> mutation_result pl_prog" where
  "runLiquidityMutation kind i body role idempotencyKey cid =
     (if \<not> (case role of Some r \<Rightarrow> r \<in> set LP_MUTATION_ROLES | None \<Rightarrow> False) then
        Ret (Inl (Domain_Exn LP_UNAUTHORIZED (''Caller is not authorized to '' @ kind_name kind @ '' LP positions.'') cid))
      else (case idempotency_of idempotencyKey body of
          Inl e \<Rightarrow> Ret (Inl e)
        | Inr None \<Rightarrow> Ret (Inl (lp_request_error ''An idempotency key is required for liquidity mutations.'' cid))
        | Inr (Some key) \<Rightarrow>
            if \<not> json_truthy body \<or> body_field body ''poolId'' \<noteq> Some (JStr i) then
              Ret (Inl (lp_request_error ''Request poolId must match the route pool id.'' cid))
            else if \<not> integer_field (body_field body ''lowerTick'') \<or> \<not> integer_field (body_field body ''upperTick'') \<or>
              jle (field_num (body_field body ''upperTick'')) (field_num (body_field body ''lowerTick'')) then
              Ret (Inl (Domain_Exn LP_INVALID_TICK_RANGE ''lowerTick must be an integer strictly less than upperTick.'' cid))
            else if \<not> positive_amount (body_field body ''amount'') then
              Ret (Inl (Domain_Exn LP_INVALID_AMOUNT ''amount must be a positive integer string.'' cid))
            else prog_then (findPoolById i) (\<lambda>pool. case pool of
                None \<Rightarrow> Ret (Inl (Domain_Exn LP_POOL_NOT_FOUND (''Pool with ID '' @ [CHR 34] @ i @ [CHR 34] @ '' not found.'') cid))
              | Some _ \<Rightarrow> pl_await (Del_Detail (''pool:'' @ i)) (\<lambda>_. Ret (Inr
                  \<lparr>mr_correlationId = cid, mr_poolId = i, mr_lowerTick = body_field body ''lowerTick'',
                    mr_upperTick = body_field body ''upperTick'', mr_amount = body_field body ''amount'',
                    mr_totalLiquidity = body_field body ''amount'', mr_replayed = False\<rparr>)))))"

definition applyLiquidityMutation ::
  "mutation_kind \<Rightarrow> string \<Rightarrow> json option \<Rightarrow> string option \<Rightarrow> string option \<Rightarrow> string option \<Rightarrow> mutation_result pl_prog" where
  "applyLiquidityMutation kind i body role idempotencyKey correlationId =
     (let go = (\<lambda>cid. prog_bind (runLiquidityMutation kind i body role idempotencyKey cid) (\<lambda>x. case x of
                  Inl e \<Rightarrow> Ret (Inl (translateLiquidityError e cid)) | Inr res \<Rightarrow> Ret (Inr res))) in
      case trimmed correlationId of
        Some cid \<Rightarrow> go cid
      | None \<Rightarrow> pl_clock (\<lambda>t. go (kind_name kind @ ''-'' @ i @ ''-'' @ show_int t)))"

definition mintLiquidity ::
  "string \<Rightarrow> json option \<Rightarrow> string option \<Rightarrow> string option \<Rightarrow> string option \<Rightarrow> mutation_result pl_prog" where
  "mintLiquidity i body role idempotencyKey correlationId = applyLiquidityMutation Mint i body role idempotencyKey correlationId"

definition burnLiquidity ::
  "string \<Rightarrow> json option \<Rightarrow> string option \<Rightarrow> string option \<Rightarrow> string option \<Rightarrow> mutation_result pl_prog" where
  "burnLiquidity i body role idempotencyKey correlationId = applyLiquidityMutation Burn i body role idempotencyKey correlationId"

section \<open>The list policy (\<^verbatim>\<open>inactive-pool.filter.ts\<close>)\<close>

definition isPoolActive :: "bool option \<Rightarrow> bool \<Rightarrow> jsnum \<Rightarrow> bool" where
  "isPoolActive isActive archived tvl = (if isActive = Some False then False else if archived then False else jlt (Fin 0) tvl)"

end
