(* ===== verification/Pool_Laws.thy ===== *)
theory Pool_Laws
  imports Pools
begin

text \<open>
  The pages of the pool list are a partition of one sorted list, whatever order the database returns its rows in. What
  the detail and liquidity endpoints can do.
\<close>

section \<open>Differences of doubles\<close>

text \<open>Doubles are multiples of the smallest one, so the rounded difference of two doubles has the sign of the difference.\<close>

definition is_double :: "rat \<Rightarrow> bool" where
  "is_double x \<longleftrightarrow> (\<exists>n::int. x = of_int n * 2 powi (- 1074))"

lemma representable_is_double: "representable x \<Longrightarrow> is_double x"
proof -
  assume "representable x"
  then obtain m k where x: "x = of_int m * 2 powi k" and k: "- 1074 \<le> k" by (auto simp: representable_def)
  have "(2::rat) powi k = 2 powi (k + 1074 + - 1074)" by simp
  also have "\<dots> = 2 powi (k + 1074) * 2 powi (- 1074)" by (rule power_int_add) simp
  also have "2 powi (k + 1074) = (of_int (2 ^ nat (k + 1074)) :: rat)" using k by (simp add: power_int_def)
  finally have "x = of_int (m * 2 ^ nat (k + 1074)) * 2 powi (- 1074)" using x by simp
  then show ?thesis unfolding is_double_def by blast
qed

lemma is_double_minus: "is_double x \<Longrightarrow> is_double (- x)"
  unfolding is_double_def by (metis minus_mult_left of_int_minus)

lemma to_double_is_double: "to_double x = Fin y \<Longrightarrow> is_double y"
proof (cases "0 \<le> x")
  case True
  assume "to_double x = Fin y"
  then show ?thesis using to_double_dbl [OF True] representable_is_double by (simp add: dbl_def)
next
  case False
  assume "to_double x = Fin y"
  then have "to_double (- x) = Fin (- y)" by (simp add: to_double_uminus)
  then have "is_double (- y)" using to_double_dbl [of "- x" "- y"] False representable_is_double by (simp add: dbl_def)
  then show ?thesis using is_double_minus by fastforce
qed

lemma smallest_representable: "representable (2 powi (- 1074))"
  unfolding representable_def by (rule exI [of _ 1], rule exI [of _ "- 1074"]) simp

lemma to_double_smallest:
  assumes "2 powi (- 1074) \<le> x"
  shows "to_double x \<noteq> Fin 0" and "jlt (Fin 0) (to_double x)"
proof -
  have p: "0 < x" using assms powi_pos [of "- 1074"] by linarith
  have "2 powi (- 1074) \<le> round_pos x"
    using representable_le_round_pos [OF powi_pos assms smallest_representable] .
  then have "0 < round_pos x" using powi_pos [of "- 1074"] by linarith
  then show "to_double x \<noteq> Fin 0" and "jlt (Fin 0) (to_double x)" using p by (auto simp: to_double_pos)
qed

lemma double_gap:
  assumes "is_double x" and "is_double y" and "y < x"
  shows "2 powi (- 1074) \<le> x - y"
proof -
  obtain m n :: int where m: "x = of_int m * 2 powi (- 1074)" and n: "y = of_int n * 2 powi (- 1074)"
    using assms(1,2) by (auto simp: is_double_def)
  have "n < m" using assms(3) unfolding m n by (simp add: mult_less_cancel_right)
  then have "(1::rat) \<le> of_int (m - n)" by simp
  then have "1 * 2 powi (- 1074) \<le> (of_int (m - n) :: rat) * 2 powi (- 1074)" by (intro mult_right_mono) simp_all
  then show ?thesis unfolding m n by (simp add: left_diff_distrib)
qed

lemma jsub_sign:
  assumes "is_double x" and "is_double y"
  shows "jsub (Fin x) (Fin y) = Fin 0 \<longleftrightarrow> x = y" and "jlt (Fin 0) (jsub (Fin x) (Fin y)) \<longleftrightarrow> y < x"
proof -
  have s: "jsub (Fin x) (Fin y) = to_double (x - y)" by (simp add: jsub_def)
  consider "x = y" | "y < x" | "x < y" by linarith
  then have "(jsub (Fin x) (Fin y) = Fin 0 \<longleftrightarrow> x = y) \<and> (jlt (Fin 0) (jsub (Fin x) (Fin y)) \<longleftrightarrow> y < x)"
  proof cases
    case 1
    then show ?thesis by (simp add: jsub_def)
  next
    case 2
    then show ?thesis using to_double_smallest [OF double_gap [OF assms 2]] by (simp add: s)
  next
    case 3
    have "to_double (y - x) \<noteq> Fin 0" "jlt (Fin 0) (to_double (y - x))"
      using to_double_smallest [OF double_gap [OF assms(2,1) 3]] by auto
    moreover have "to_double (x - y) = jneg (to_double (y - x))" using to_double_uminus [of "y - x"] by simp
    ultimately show ?thesis using 3 by (cases "to_double (y - x)") (auto simp: s)
  qed
  then show "jsub (Fin x) (Fin y) = Fin 0 \<longleftrightarrow> x = y" and "jlt (Fin 0) (jsub (Fin x) (Fin y)) \<longleftrightarrow> y < x" by auto
qed

lemma scan_decimal_value: "scan_decimal s = Some (v, r) \<Longrightarrow> (\<exists>b. v = Inf b) \<or> (\<exists>x. v = to_double x)"
  by (auto simp: scan_decimal_def Let_def split: prod.splits if_splits list.splits)

lemma parse_float_is_double: "parse_float s = Fin x \<Longrightarrow> is_double x"
proof -
  assume p: "parse_float s = Fin x"
  then obtain r where "scan_decimal (dropWhile is_ws s) = Some (Fin x, r)"
    by (auto simp: parse_float_def split: option.splits)
  from scan_decimal_value [OF this] obtain y where "Fin x = to_double y" by auto
  then show ?thesis using to_double_is_double by metis
qed

lemma asFiniteNumber_double: "\<exists>x. asFiniteNumber v = Fin x \<and> is_double x"
proof -
  have "is_double 0" using representable_is_double representable_zero by blast
  then show ?thesis
    using parse_float_is_double by (cases "parse_float (or_else v ''0'')") (auto simp: asFiniteNumber_def Let_def)
qed

section \<open>Pages of the pool list\<close>

text \<open>What \<^verbatim>\<open>localeCompare\<close> has to do on a set of ids: compare them as a linear order.\<close>

definition collates :: "(string \<Rightarrow> string \<Rightarrow> int) \<Rightarrow> string set \<Rightarrow> bool" where
  "collates lc A \<longleftrightarrow>
     (\<forall>a \<in> A. \<forall>b \<in> A. (0 < lc a b \<longleftrightarrow> lc b a < 0) \<and> (lc a b = 0 \<longrightarrow> a = b)) \<and>
     (\<forall>a \<in> A. \<forall>b \<in> A. \<forall>c \<in> A. 0 < lc a b \<longrightarrow> 0 < lc b c \<longrightarrow> 0 < lc a c)"

definition key_rat :: "pool_order \<Rightarrow> pool_snapshot \<Rightarrow> rat" where
  "key_rat orderBy p = fin_val (order_key orderBy p)"

lemma snapshot_id [simp]: "ps_id (toSnapshot p) = pl_id p"
  by (simp add: toSnapshot_def)

lemma snapshot_key: "\<exists>x. order_key orderBy (toSnapshot p) = Fin x \<and> is_double x"
  using asFiniteNumber_double by (cases orderBy) (auto simp: toSnapshot_def)

lemma pool_after_iff:
  assumes "a \<in> toSnapshot ` R" and "b \<in> toSnapshot ` R"
  shows "pool_after lc orderBy a b \<longleftrightarrow> key_rat orderBy a < key_rat orderBy b \<or>
    key_rat orderBy a = key_rat orderBy b \<and> 0 < lc (ps_id a) (ps_id b)"
proof -
  obtain x y where x: "order_key orderBy a = Fin x" "is_double x" and y: "order_key orderBy b = Fin y" "is_double y"
    using assms snapshot_key by (metis (no_types) imageE)
  show ?thesis using jsub_sign [OF y(2) x(2)] by (auto simp: pool_after_def Let_def key_rat_def x(1) y(1))
qed

lemma pool_after_orders:
  assumes "collates lc (pl_id ` R)" and "inj_on pl_id R"
  shows "orders (pool_after lc orderBy) (toSnapshot ` R)"
proof -
  let ?k = "key_rat orderBy"
  have eq: "a = b" if m: "a \<in> toSnapshot ` R" "b \<in> toSnapshot ` R" "ps_id a = ps_id b" for a b
  proof -
    obtain x y where xy: "a = toSnapshot x" "x \<in> R" "b = toSnapshot y" "y \<in> R" using m(1,2) by blast
    then have "x = y" using m(3) inj_onD [OF assms(2)] by simp
    then show ?thesis using xy by simp
  qed
  have ids: "ps_id a \<in> pl_id ` R" if "a \<in> toSnapshot ` R" for a using that by auto
  have lc: "(0 < lc i j \<longleftrightarrow> lc j i < 0) \<and> (lc i j = 0 \<longrightarrow> i = j)" if "i \<in> pl_id ` R" "j \<in> pl_id ` R" for i j
    using assms(1) that unfolding collates_def by blast
  have tr: "0 < lc i k" if "i \<in> pl_id ` R" "j \<in> pl_id ` R" "k \<in> pl_id ` R" "0 < lc i j" "0 < lc j k" for i j k
    using assms(1) that unfolding collates_def by blast
  have one: "\<not> (pool_after lc orderBy a b \<and> pool_after lc orderBy b a) \<and>
      (a \<noteq> b \<longrightarrow> pool_after lc orderBy a b \<or> pool_after lc orderBy b a)"
    if ab: "a \<in> toSnapshot ` R" "b \<in> toSnapshot ` R" for a b
  proof -
    have l: "0 < lc (ps_id a) (ps_id b) \<longleftrightarrow> lc (ps_id b) (ps_id a) < 0" "0 < lc (ps_id b) (ps_id a) \<longleftrightarrow> lc (ps_id a) (ps_id b) < 0"
      "lc (ps_id a) (ps_id b) = 0 \<Longrightarrow> a = b"
      using lc [OF ids [OF ab(1)] ids [OF ab(2)]] lc [OF ids [OF ab(2)] ids [OF ab(1)]] eq [OF ab] by simp_all
    note i = pool_after_iff [OF ab, of lc orderBy] pool_after_iff [OF ab(2,1), of lc orderBy]
    consider "?k a < ?k b" | "?k b < ?k a" | "?k a = ?k b" by linarith
    then show ?thesis
    proof cases
      case 1
      then have "\<not> ?k b < ?k a" "?k b \<noteq> ?k a" by linarith+
      then show ?thesis using 1 by (simp add: i)
    next
      case 2
      then have "\<not> ?k a < ?k b" "?k a \<noteq> ?k b" by linarith+
      then show ?thesis using 2 by (simp add: i)
    next
      case 3
      consider "lc (ps_id a) (ps_id b) < 0" | "lc (ps_id a) (ps_id b) = 0" | "0 < lc (ps_id a) (ps_id b)" by linarith
      then show ?thesis using 3 l i by cases simp_all
    qed
  qed
  have three: "pool_after lc orderBy a c"
    if abc: "a \<in> toSnapshot ` R" "b \<in> toSnapshot ` R" "c \<in> toSnapshot ` R"
      and "pool_after lc orderBy a b" "pool_after lc orderBy b c" for a b c
  proof -
    have "?k a < ?k b \<or> ?k a = ?k b \<and> 0 < lc (ps_id a) (ps_id b)" "?k b < ?k c \<or> ?k b = ?k c \<and> 0 < lc (ps_id b) (ps_id c)"
      using that(4,5) pool_after_iff [OF abc(1,2)] pool_after_iff [OF abc(2,3)] by auto
    then have "?k a < ?k c \<or> ?k a = ?k c \<and> 0 < lc (ps_id a) (ps_id c)"
      using tr [OF ids [OF abc(1)] ids [OF abc(2)] ids [OF abc(3)]] by auto
    then show ?thesis using pool_after_iff [OF abc(1,3)] by simp
  qed
  show ?thesis unfolding orders_def using one three by blast
qed

text \<open>The filter the repository asks the database for.\<close>

definition search_filter :: "pool_query \<Rightarrow> string option" where
  "search_filter q = (case map_option (\<lambda>s. map lower_char (trim s)) (pq_search q) of Some [] \<Rightarrow> None | s \<Rightarrow> s)"

lemma listActivePools_rows:
  assumes "exec (Find_Pools_Where (\<not> pq_includeInactive q) (search_filter q)) s = (PPools rows, s')"
  shows "run exec (listActivePools lc q) s =
    (Inr (page_of (pq_page q) (pq_limit q) (sorted_pools lc (pq_orderBy q) rows), int (length rows)), s')"
  using assms by (simp add: listActivePools_def pl_await_def Let_def search_filter_def)

lemma sorted_pools_unique:
  assumes "collates lc (pl_id ` set rows)" and "distinct (map pl_id rows)" and "mset rows' = mset rows"
  shows "sorted_pools lc orderBy rows' = sorted_pools lc orderBy rows"
    and "sorted_wrt (\<lambda>a b. \<not> pool_after lc orderBy a b) (sorted_pools lc orderBy rows)"
proof -
  have "inj_on pl_id (set rows)" using assms(2) by (simp add: distinct_map)
  from pool_after_orders [OF assms(1) this]
  have o: "orders (pool_after lc orderBy) (set (map toSnapshot rows))" by simp
  have "mset (map toSnapshot rows') = mset (map toSnapshot rows)" using assms(3) by simp
  with o show "sorted_pools lc orderBy rows' = sorted_pools lc orderBy rows"
    unfolding sorted_pools_def by (rule js_sort_unique)
  show "sorted_wrt (\<lambda>a b. \<not> pool_after lc orderBy a b) (sorted_pools lc orderBy rows)"
    unfolding sorted_pools_def using o by (rule js_sort_sorted) simp
qed

text \<open>A request for one page of a list, the key of its answer in the cache, and the answer there has to be.\<close>

definition page_request :: "pools_request \<Rightarrow> nat \<Rightarrow> pools_request" where
  "page_request req i = req\<lparr>gr_page := Some (int (Suc i))\<rparr>"

definition page_key :: "pools_request \<Rightarrow> nat \<Rightarrow> string" where
  "page_key req i = getListCacheKey (list_query (page_request req i))"

definition page_answer :: "(string \<Rightarrow> string \<Rightarrow> int) \<Rightarrow> pool_read list \<Rightarrow> pools_request \<Rightarrow> nat \<Rightarrow> pools_list" where
  "page_answer lc rows req i =
     (let q = list_query (page_request req i) in
      \<lparr>pr_items = map toListItem (page_of (pq_page q) (pq_limit q) (sorted_pools lc (pq_orderBy q) rows)), pr_page = pq_page q,
       pr_limit = pq_limit q, pr_total = int (length rows), pr_totalPages = total_pages (int (length rows)) (pq_limit q),
       pr_orderBy = pq_orderBy q, pr_search = pq_search q\<rparr>)"

lemma page_query [simp]:
  "pq_page (list_query (page_request req i)) = int (Suc i)" "pq_limit (list_query (page_request req i)) = pq_limit (list_query req)"
  "pq_orderBy (list_query (page_request req i)) = pq_orderBy (list_query req)"
  "pq_includeInactive (list_query (page_request req i)) = pq_includeInactive (list_query req)"
  "search_filter (list_query (page_request req i)) = search_filter (list_query req)"
  by (simp_all add: list_query_def page_request_def search_filter_def)

lemma page_key_inj: "page_key req i = page_key req j \<longleftrightarrow> i = j"
proof
  let ?q = "list_query (page_request req 0)"
  let ?rest = "'':limit='' @ show_int (pq_limit ?q) @ '':orderBy='' @ order_name (pq_orderBy ?q) @
     '':search='' @ or_else (pq_search ?q) [] @ '':token0='' @ or_else (pq_token0 ?q) [] @ '':token1='' @ or_else (pq_token1 ?q) [] @
     '':includeInactive='' @ bool_text (pq_includeInactive ?q)"
  have key: "page_key req k = (''pools:list:v1:page='' @ show_int (int (Suc k))) @ ?rest" for k
    by (simp add: page_key_def getListCacheKey_def list_query_def page_request_def)
  assume "page_key req i = page_key req j"
  then have "''pools:list:v1:page='' @ show_int (int (Suc i)) = ''pools:list:v1:page='' @ show_int (int (Suc j))"
    unfolding key by (simp only: append_same_eq)
  then have "show_int (int (Suc i)) = show_int (int (Suc j))" by (simp only: same_append_eq)
  then show "i = j" by (simp only: show_int_inject of_nat_eq_iff nat.inject)
qed simp

text \<open>
  The database holds \<open>rows\<close> for the filter of the request and may return them in any order; the cache, seen as \<open>view\<close>, returns
  only what was put in, and may lose entries at any time. Any call may fail.
\<close>

definition lists_ok :: "(pl_call, pl_reply, 's) service \<Rightarrow> ('s \<Rightarrow> string \<Rightarrow> pools_list option) \<Rightarrow> pool_read list \<Rightarrow> pools_request \<Rightarrow> bool" where
  "lists_ok exec view rows req \<longleftrightarrow> (\<forall>c s r s'. exec c s = (r, s') \<longrightarrow> (case c of
     Get_List k \<Rightarrow> view s' = view s \<and> (\<forall>v. r = PList (Some v) \<longrightarrow> view s k = Some v)
   | Set_List k v ttl \<Rightarrow> view s' = (view s)(k \<mapsto> v) \<or> view s' = view s
   | Find_Pools_Where a f \<Rightarrow> view s' = view s \<and>
       (a = (\<not> pq_includeInactive (list_query req)) \<longrightarrow> f = search_filter (list_query req) \<longrightarrow>
        (\<forall>found. r = PPools found \<longrightarrow> mset found = mset rows))
   | _ \<Rightarrow> view s' = view s))"

definition lists_only_lost :: "('s \<Rightarrow> string \<Rightarrow> pools_list option) \<Rightarrow> pools_request \<Rightarrow> 's \<Rightarrow> 's \<Rightarrow> bool" where
  "lists_only_lost view req s s' \<longleftrightarrow> (\<forall>i. view s' (page_key req i) = view s (page_key req i) \<or> view s' (page_key req i) = None)"

text \<open>The discipline of the page requests: they put only right answers under the keys of pages.\<close>

definition page_call :: "(nat \<Rightarrow> pools_list) \<Rightarrow> pools_request \<Rightarrow> pl_call \<Rightarrow> bool" where
  "page_call answer req c = (case c of Set_List k v ttl \<Rightarrow> \<forall>i. k = page_key req i \<longrightarrow> v = answer i | _ \<Rightarrow> True)"

definition page_reply :: "(nat \<Rightarrow> pools_list) \<Rightarrow> pool_read list \<Rightarrow> pools_request \<Rightarrow> pl_call \<Rightarrow> pl_reply \<Rightarrow> bool" where
  "page_reply answer rows req c r = (case c of
     Get_List k \<Rightarrow> \<forall>i v. k = page_key req i \<longrightarrow> r = PList (Some v) \<longrightarrow> v = answer i
   | Find_Pools_Where a f \<Rightarrow> a = (\<not> pq_includeInactive (list_query req)) \<longrightarrow> f = search_filter (list_query req) \<longrightarrow>
        (\<forall>found. r = PPools found \<longrightarrow> mset found = mset rows)
   | _ \<Rightarrow> True)"

lemma meets_pl_await:
  assumes "ok c" and "\<And>r. may c r \<Longrightarrow> meets ok may (\<lambda>x. \<forall>y. x = Inr y \<longrightarrow> P y) (k r)"
  shows "meets ok may (\<lambda>x. \<forall>y. x = Inr y \<longrightarrow> P y) (pl_await c k)"
  using assms by (simp add: pl_await_def split: pl_reply.split)

lemma getPools_meets:
  assumes "collates lc (pl_id ` set rows)" and "distinct (map pl_id rows)"
  shows "meets (page_call (page_answer lc rows req) req) (page_reply (page_answer lc rows req) rows req)
    (\<lambda>x. \<forall>y. x = Inr y \<longrightarrow> y = page_answer lc rows req i) (getPools lc (page_request req i))"
proof -
  let ?q = "list_query (page_request req i)" and ?ok = "page_call (page_answer lc rows req) req"
    and ?may = "page_reply (page_answer lc rows req) rows req" and ?P = "\<lambda>x. \<forall>y. x = Inr y \<longrightarrow> y = page_answer lc rows req i"
  let ?respond = "\<lambda>(items, n).
      let response = \<lparr>pr_items = map toListItem items, pr_page = pq_page ?q, pr_limit = pq_limit ?q, pr_total = n,
            pr_totalPages = total_pages n (pq_limit ?q), pr_orderBy = pq_orderBy ?q, pr_search = pq_search ?q\<rparr> in
      pl_await (Set_List (getListCacheKey ?q) response TTL_POOL_LIST) (\<lambda>_. Ret (Inr response))"
  have respond: "meets ?ok ?may ?P (?respond (page_of (pq_page ?q) (pq_limit ?q) (sorted_pools lc (pq_orderBy ?q) found), int (length found)))"
    if "mset found = mset rows" for found
  proof -
    have "length found = length rows" using that by (metis size_mset)
    moreover have "sorted_pools lc (pq_orderBy ?q) found = sorted_pools lc (pq_orderBy ?q) rows"
      by (rule sorted_pools_unique(1) [OF assms that])
    moreover have "meets ?ok ?may ?P (pl_await (Set_List (page_key req i) (page_answer lc rows req i) TTL_POOL_LIST)
        (\<lambda>_. Ret (Inr (page_answer lc rows req i))))"
      by (rule meets_pl_await) (simp_all add: page_call_def page_key_inj)
    ultimately show ?thesis by (simp add: page_answer_def Let_def page_key_def)
  qed
  have listed: "meets ?ok ?may (\<lambda>x. \<forall>y. x = Inr y \<longrightarrow> (\<exists>found. mset found = mset rows \<and>
      y = (page_of (pq_page ?q) (pq_limit ?q) (sorted_pools lc (pq_orderBy ?q) found), int (length found)))) (listActivePools lc ?q)"
    unfolding listActivePools_def Let_def search_filter_def [symmetric]
  proof (rule meets_pl_await)
    fix r assume r: "?may (Find_Pools_Where (\<not> pq_includeInactive ?q) (search_filter ?q)) r"
    show "meets ?ok ?may (\<lambda>x. \<forall>y. x = Inr y \<longrightarrow> (\<exists>found. mset found = mset rows \<and>
      y = (page_of (pq_page ?q) (pq_limit ?q) (sorted_pools lc (pq_orderBy ?q) found), int (length found))))
      (case r of PPools pools \<Rightarrow> Ret (Inr (page_of (pq_page ?q) (pq_limit ?q) (sorted_pools lc (pq_orderBy ?q) pools), int (length pools)))
        | _ \<Rightarrow> pl_odd)"
      using r by (cases r) (auto simp: page_reply_def pl_odd_def)
  qed (simp add: page_call_def)
  have miss: "meets ?ok ?may ?P (prog_then (listActivePools lc ?q) ?respond)"
    unfolding prog_then_def
  proof (rule meets_bind [OF listed])
    fix x :: "pool_exn + pool_snapshot list \<times> int"
    assume "\<forall>y. x = Inr y \<longrightarrow> (\<exists>found. mset found = mset rows \<and>
      y = (page_of (pq_page ?q) (pq_limit ?q) (sorted_pools lc (pq_orderBy ?q) found), int (length found)))"
    then show "meets ?ok ?may ?P (case x of Inl e \<Rightarrow> Ret (Inl e) | Inr y \<Rightarrow> ?respond y)"
      using respond by (cases x) fastforce+
  qed
  show ?thesis
    unfolding getPools_def Let_def
  proof (rule meets_pl_await)
    fix r assume "?may (Get_List (getListCacheKey ?q)) r"
    then have hit: "v = page_answer lc rows req i" if "r = PList (Some v)" for v
      using that by (simp add: page_reply_def page_key_def)
    show "meets ?ok ?may ?P (case r of PList (Some cached) \<Rightarrow> Ret (Inr cached)
      | PList None \<Rightarrow> prog_then (listActivePools lc ?q) (\<lambda>(items, n).
          pl_await (Set_List (getListCacheKey ?q) \<lparr>pr_items = map toListItem items, pr_page = pq_page ?q, pr_limit = pq_limit ?q,
            pr_total = n, pr_totalPages = total_pages n (pq_limit ?q), pr_orderBy = pq_orderBy ?q, pr_search = pq_search ?q\<rparr>
            TTL_POOL_LIST) (\<lambda>_. Ret (Inr \<lparr>pr_items = map toListItem items, pr_page = pq_page ?q, pr_limit = pq_limit ?q,
            pr_total = n, pr_totalPages = total_pages n (pq_limit ?q), pr_orderBy = pq_orderBy ?q, pr_search = pq_search ?q\<rparr>)))
      | _ \<Rightarrow> pl_odd)"
      using hit miss [unfolded Let_def] by (auto simp: pl_odd_def split: pl_reply.split option.split)
  qed (simp add: page_call_def)
qed

lemma lists_step:
  assumes "lists_ok exec view rows req" and "exec c s = (r, s')" and "page_call answer req c"
    and I: "\<forall>i v. view s (page_key req i) = Some v \<longrightarrow> v = answer i"
  shows "page_reply answer rows req c r \<and> (\<forall>i v. view s' (page_key req i) = Some v \<longrightarrow> v = answer i)"
proof -
  note d = assms(1) [unfolded lists_ok_def, rule_format, OF assms(2)]
  show ?thesis
  proof (cases c)
    case (Set_List k v ttl)
    then show ?thesis using d I assms(3) by (auto simp: page_call_def page_reply_def split: if_splits)
  qed (use d I in \<open>auto simp: page_reply_def\<close>)
qed

lemma page_answered:
  assumes "collates lc (pl_id ` set rows)" and "distinct (map pl_id rows)" and "lists_ok exec view rows req"
    and "\<And>i. view s (page_key req i) = None" and "\<And>s s'. drift s s' \<Longrightarrow> lists_only_lost view req s s'"
    and st: "steps exec drift (map (\<lambda>i. getPools lc (page_request req i)) pages, s) tr (ts', s')"
    and "j < length pages" and "ts' ! j = Ret (Inr y)"
  shows "y = page_answer lc rows req (pages ! j)"
proof -
  let ?A = "page_answer lc rows req"
  let ?P = "\<lambda>j x. \<forall>y :: pools_list. x = Inr y \<longrightarrow> y = ?A (pages ! j)"
  have "(\<forall>i v. view s' (page_key req i) = Some v \<longrightarrow> v = ?A i) \<and>
    (\<forall>i < length ts'. meets (page_call ?A req) (page_reply ?A rows req) (?P i) (ts' ! i)) \<and> (\<forall>(i, c, r) \<in> set tr. page_call ?A req c)"
  proof (rule steps_meets [where I = "\<lambda>s. \<forall>i v. view s (page_key req i) = Some v \<longrightarrow> v = ?A i" and P = ?P, OF st])
    show "meets (page_call ?A req) (page_reply ?A rows req) (?P i) (map (\<lambda>i. getPools lc (page_request req i)) pages ! i)"
      if "i < length (map (\<lambda>i. getPools lc (page_request req i)) pages)" for i
      using that getPools_meets [OF assms(1,2)] by simp
  next
    fix s1 s2 assume "drift s1 s2" "\<forall>i v. view s1 (page_key req i) = Some v \<longrightarrow> v = ?A i"
    then show "\<forall>i v. view s2 (page_key req i) = Some v \<longrightarrow> v = ?A i"
      using assms(5) unfolding lists_only_lost_def by (metis option.distinct(1))
  qed (use assms(4) lists_step [OF assms(3)] in simp_all)
  moreover have "j < length ts'" using steps_length [OF st] assms(7) by simp
  ultimately have "meets (page_call ?A req) (page_reply ?A rows req) (?P j) (ts' ! j)" by blast
  then show ?thesis using assms(8) by simp
qed

text \<open>C16: Take requests for pages of the pool list, in any interleaving with each other and with anything that only makes the
  cache lose pages, starting with none of them cached. Then whatever answers the requests for the pages up to the announced
  last one got, from the database or from the cache, together they hold every pool exactly once and in the requested order.
  Conditions: all reads find the same rows (with the same figures; in any order), ids are distinct and compared as a linear
  order, there are fewer than \<open>2 ^ 53\<close> pools, and the limit is an accepted one.\<close>

theorem pool_pages_partition:
  assumes "collates lc (pl_id ` set rows)" and "distinct (map pl_id rows)" and "length rows < 2 ^ 53"
    and "1 \<le> pq_limit (list_query req)" and "pq_limit (list_query req) \<le> 50"
    and "total_pages (int (length rows)) (pq_limit (list_query req)) = Fin (of_nat n)"
    and "lists_ok exec view rows req" and "\<And>i. view s (page_key req i) = None"
    and "\<And>s s'. drift s s' \<Longrightarrow> lists_only_lost view req s s'"
    and "steps exec drift (map (\<lambda>i. getPools lc (page_request req i)) pages, s) tr (ts', s')"
    and "\<And>i. i < n \<Longrightarrow> \<exists>j < length pages. pages ! j = i \<and> ts' ! j = Ret (Inr (answer i))"
  shows "\<exists>pools. sorted_wrt (\<lambda>a b. \<not> pool_after lc (pq_orderBy (list_query req)) a b) pools \<and>
    mset pools = mset (map toSnapshot rows) \<and> concat (map (\<lambda>i. pr_items (answer i)) [0..<n]) = map toListItem pools \<and>
    (\<forall>i < n. pr_total (answer i) = int (length rows) \<and> pr_totalPages (answer i) = Fin (of_nat n))"
proof -
  let ?L = "sorted_pools lc (pq_orderBy (list_query req)) rows"
  have a: "answer i = page_answer lc rows req i" if i: "i < n" for i
  proof -
    obtain j where j: "j < length pages" "pages ! j = i" "ts' ! j = Ret (Inr (answer i))" using assms(11) [OF i] by blast
    show ?thesis using page_answered [OF assms(1,2,7-10) j(1,3)] j(2) by simp
  qed
  have items: "pr_items (page_answer lc rows req i) = map toListItem (page_of (int (Suc i)) (pq_limit (list_query req)) ?L)" for i
    by (simp add: page_answer_def Let_def)
  have "concat (map (\<lambda>i. pr_items (answer i)) [0..<n]) =
      map toListItem (concat (map (\<lambda>i. page_of (int (Suc i)) (pq_limit (list_query req)) ?L) [0..<n]))"
    by (auto simp: map_concat o_def a items intro!: arg_cong [where f = concat])
  moreover have "length ?L = length rows" by (simp add: sorted_pools_def)
  then have "concat (map (\<lambda>i. page_of (int (Suc i)) (pq_limit (list_query req)) ?L) [0..<n]) = ?L"
    using assms(3-6) by (intro pages_cover) simp_all
  moreover have "mset ?L = mset (map toSnapshot rows)" by (simp add: sorted_pools_def)
  moreover have "pr_total (answer i) = int (length rows)" "pr_totalPages (answer i) = Fin (of_nat n)" if "i < n" for i
    using assms(6) by (simp_all add: a [OF that] page_answer_def Let_def)
  ultimately show ?thesis using sorted_pools_unique(2) [OF assms(1,2) refl] by metis
qed

definition demo_read :: "string \<Rightarrow> string \<Rightarrow> pool_read" where
  "demo_read i tvl =
     \<lparr>pl_id = i, pl_token0 = ''a'', pl_token1 = ''b'', pl_feeTier = 3000, pl_sqrtPrice = ''1'', pl_tick = 0, pl_liquidity = ''0'',
       pl_tvl = tvl, pl_volume24h = ''0'', pl_feeApr = ''0'', pl_currentPrice = None, pl_active = True, pl_createdAt = 0,
       pl_updatedAt = 0\<rparr>"

definition demo_compare :: "string \<Rightarrow> string \<Rightarrow> int" where
  "demo_compare a b = of_char (hd a) - of_char (hd b)"

definition demo_rows :: "pool_read list" where
  "demo_rows = [demo_read ''x'' ''5'', demo_read ''y'' ''7.5'', demo_read ''z'' ''5'']"

lemma demo_collates: "collates demo_compare (pl_id ` set demo_rows)"
  by (auto simp: collates_def demo_compare_def demo_rows_def demo_read_def)

text \<open>An instance: a cache that keeps everything, and a database that returns the rows in reverse when the cache is not empty.\<close>

definition demo_request :: pools_request where
  "demo_request = \<lparr>gr_page = None, gr_limit = Some 2, gr_orderBy = None, gr_search = None, gr_token0 = None, gr_token1 = None,
     gr_includeInactive = None\<rparr>"

fun demo_lists :: "(pl_call, pl_reply, (string \<times> pools_list) list) service" where
  "demo_lists (Get_List k) s = (PList (map_of s k), s)"
| "demo_lists (Set_List k v ttl) s = (PDone, (k, v) # s)"
| "demo_lists (Find_Pools_Where a f) s = (PPools (if s = [] then demo_rows else rev demo_rows), s)"
| "demo_lists c s = (PErr ''down'', s)"

lemma demo_lists_ok: "lists_ok demo_lists map_of demo_rows demo_request"
  by (auto simp: lists_ok_def split: pl_call.split)

definition demo_two :: "(string \<times> pools_list) list \<Rightarrow> nat \<Rightarrow> pools_list" where
  "demo_two s i = projr (fst (run demo_lists (getPools demo_compare (page_request demo_request i)) s))"

definition demo_cached :: "(string \<times> pools_list) list" where
  "demo_cached = snd (run demo_lists (getPools demo_compare (page_request demo_request 0)) [])"

lemma demo_two_returns:
  "\<exists>y. fst (run demo_lists (getPools demo_compare (page_request demo_request 0)) []) = Inr y"
  "\<exists>y. fst (run demo_lists (getPools demo_compare (page_request demo_request 1)) demo_cached) = Inr y"
  by (auto simp: getPools_def Let_def pl_await_def run_then listActivePools_def demo_cached_def map_of_eq_None_iff split: option.split)

theorem pool_pages_partition_witness:
  "\<exists>pools. sorted_wrt (\<lambda>a b. \<not> pool_after demo_compare By_Tvl a b) pools \<and> mset pools = mset (map toSnapshot demo_rows) \<and>
    pr_items (demo_two [] 0) @ pr_items (demo_two demo_cached 1) = map toListItem pools"
proof -
  let ?m = "\<lambda>i. getPools demo_compare (page_request demo_request i)"
  define answer where "answer i = (if i = 0 then demo_two [] 0 else demo_two demo_cached 1)" for i :: nat
  obtain tr1 where "steps demo_lists (\<lambda>_ _. False) (map ?m [0, 1], []) tr1 ([Ret (Inr (answer 0)), ?m 1], demo_cached)"
    using run_steps_in [of 0 "map ?m [0, 1]" "?m 0" demo_lists "\<lambda>_ _. False" "[]"] demo_two_returns(1)
    by (auto simp: demo_two_def demo_cached_def answer_def)
  moreover obtain tr2 s2 where "steps demo_lists (\<lambda>_ _. False) ([Ret (Inr (answer 0)), ?m 1], demo_cached) tr2
      ([Ret (Inr (answer 0)), Ret (Inr (answer 1))], s2)"
    using run_steps_in [of 1 "[Ret (Inr (answer 0)), ?m 1]" "?m 1" demo_lists "\<lambda>_ _. False" demo_cached] demo_two_returns(2)
    by (auto simp: demo_two_def answer_def)
  ultimately have st: "steps demo_lists (\<lambda>_ _. False) (map ?m [0, 1], []) (tr1 @ tr2) ([Ret (Inr (answer 0)), Ret (Inr (answer 1))], s2)"
    by (metis steps_trans)
  have answered: "\<exists>j < length [0, 1 :: nat]. [0, 1] ! j = i \<and> [Ret (Inr (answer 0)), Ret (Inr (answer 1))] ! j = Ret (Inr (answer i))"
    if "i < 2" for i
    using that by (intro exI [of _ i]) (auto simp: less_2_cases_iff)
  have n: "total_pages (int (length demo_rows)) (pq_limit (list_query demo_request)) = Fin (of_nat 2)" by code_simp
  have q: "pq_limit (list_query demo_request) = 2" "pq_orderBy (list_query demo_request) = By_Tvl"
    by (simp_all add: list_query_def demo_request_def)
  have rows: "distinct (map pl_id demo_rows)" "length demo_rows < 2 ^ 53" by (simp_all add: demo_rows_def demo_read_def)
  have two: "[0..<2] = [0, 1 :: nat]" by (simp add: upt_rec)
  show ?thesis
    using pool_pages_partition [OF demo_collates rows _ _ n demo_lists_ok _ _ st answered]
    by (simp add: q two answer_def) blast
qed

section \<open>Pool detail\<close>

text \<open>The cache of details, and that the lock operation is not a method of the cache service.\<close>

definition detail_cache_ok :: "(pl_call, pl_reply, 's) service \<Rightarrow> ('s \<Rightarrow> string \<Rightarrow> pool_detail option) \<Rightarrow> bool" where
  "detail_cache_ok exec view \<longleftrightarrow> (\<forall>c s r s'. exec c s = (r, s') \<longrightarrow> (case c of
     Get_Detail k \<Rightarrow> view s' = view s \<and> (r = PDetail (view s k) \<or> r = PDetail None)
   | Set_Detail k p ttl \<Rightarrow> view s' = (view s)(k \<mapsto> p) \<or> view s' = view s
   | Del_Detail k \<Rightarrow> view s' = (view s)(k := None) \<or> view s' = view s
   | Acquire_Lock k ttl \<Rightarrow> view s' = view s \<and> r = PErr ''acquireSingleflightLock is not a function''
   | _ \<Rightarrow> view s' = view s))"

fun detail_call :: "pl_call \<Rightarrow> bool" where
  "detail_call (Get_Detail k) = True"
| "detail_call (Acquire_Lock k ttl) = True"
| "detail_call c = False"

fun detail_miss :: "pl_call \<Rightarrow> pl_reply \<Rightarrow> bool" where
  "detail_miss (Get_Detail k) r = (r = PDetail None)"
| "detail_miss (Acquire_Lock k ttl) r = (\<exists>e. r = PErr e)"
| "detail_miss c r = True"

lemma getPoolById_misses: "meets detail_call detail_miss (\<lambda>x. \<exists>e. x = Inl e) (getPoolById i)"
  by (auto simp: getPoolById_def pl_await_def Let_def)

text \<open>C37: However many requests for pool details run, none is ever answered with a pool: a cache that holds no detail stays
  without one, because the only code that would put one in asks the cache service for a lock operation that it does not have.\<close>

theorem pool_detail_never_served:
  assumes "detail_cache_ok exec view" and "view s = Map.empty" and "\<And>s s'. drift s s' \<Longrightarrow> view s' = view s"
    and "steps exec drift (map getPoolById ids, s) tr (ts', s')" and "j < length ids"
  shows "ts' ! j \<noteq> Ret (Inr p) \<and> view s' = Map.empty"
proof -
  have "view s' = Map.empty \<and> (\<forall>i < length ts'. meets detail_call detail_miss (\<lambda>x. \<exists>e. x = Inl e) (ts' ! i)) \<and>
      (\<forall>(i, c, r) \<in> set tr. detail_call c)"
  proof (rule steps_meets [where I = "\<lambda>s. view s = Map.empty" and P = "\<lambda>_ x. \<exists>e. x = Inl e", OF assms(4)])
    fix c s1 r s2
    assume "exec c s1 = (r, s2)" "detail_call c" "view s1 = Map.empty"
    then show "detail_miss c r \<and> view s2 = Map.empty"
      using assms(1) unfolding detail_cache_ok_def by (cases c) fastforce+
  qed (use getPoolById_misses assms(2,3) in auto)
  moreover have "length ts' = length ids" using steps_length [OF assms(4)] by simp
  ultimately show ?thesis using assms(5) by auto
qed

text \<open>An instance: one pool in the database, an empty cache.\<close>

fun demo_pools :: "(pl_call, pl_reply, unit) service" where
  "demo_pools (Get_Detail k) s = (PDetail None, s)"
| "demo_pools (Acquire_Lock k ttl) s = (PErr ''acquireSingleflightLock is not a function'', s)"
| "demo_pools (Find_Pool_With_Swaps i) s = (PPoolSwaps (Some (demo_read i ''5'', [])), s)"
| "demo_pools (Find_Token_By_Address a) s = (PToken None, s)"
| "demo_pools Pool_Clock s = (PTime 0, s)"
| "demo_pools _ s = (PDone, s)"

theorem pool_detail_never_served_witness:
  "\<forall>p. fst (run demo_pools (getPoolById ''x'') ()) \<noteq> Inr p"
proof -
  have ok: "detail_cache_ok demo_pools (\<lambda>_. Map.empty)"
    by (auto simp: detail_cache_ok_def fun_eq_iff split: pl_call.split)
  obtain tr where st: "steps demo_pools (\<lambda>_ _. False) (map getPoolById [''x''], ()) tr
      ([Ret (fst (run demo_pools (getPoolById ''x'') ()))], snd (run demo_pools (getPoolById ''x'') ()))"
    using run_steps [of demo_pools "\<lambda>_ _. False" "getPoolById ''x''" "()"] by auto
  have "[Ret (fst (run demo_pools (getPoolById ''x'') ()))] ! 0 \<noteq> Ret (Inr p)" for p
    using pool_detail_never_served [OF ok _ _ st, of 0 p] by simp
  then show ?thesis by simp
qed

section \<open>Liquidity mutations\<close>

record lp_request =
  lr_kind :: mutation_kind
  lr_pool :: string
  lr_body :: "json option"
  lr_role :: "string option"
  lr_key :: "string option"
  lr_cid :: "string option"

definition lp_handler :: "lp_request \<Rightarrow> mutation_result pl_prog" where
  "lp_handler q = (case lr_kind q of
     Mint \<Rightarrow> mintLiquidity (lr_pool q) (lr_body q) (lr_role q) (lr_key q) (lr_cid q)
   | Burn \<Rightarrow> burnLiquidity (lr_pool q) (lr_body q) (lr_role q) (lr_key q) (lr_cid q))"

text \<open>Reads, the clock, and the removal of a cached detail.\<close>

fun lp_harmless :: "pl_call \<Rightarrow> bool" where
  "lp_harmless Pool_Clock = True"
| "lp_harmless (Find_Pool_With_Swaps i) = True"
| "lp_harmless (Find_Token_By_Address a) = True"
| "lp_harmless (Del_Detail k) = True"
| "lp_harmless c = False"

definition lp_answer :: "lp_request \<Rightarrow> pool_exn + mutation_result \<Rightarrow> bool" where
  "lp_answer q x \<longleftrightarrow> (case x of
     Inr res \<Rightarrow> lr_role q \<in> {Some ''lp'', Some ''admin''} \<and> positive_amount (body_field (lr_body q) ''amount'') \<and>
       mr_totalLiquidity res = body_field (lr_body q) ''amount'' \<and> mr_replayed res = False
   | Inl e \<Rightarrow> (\<exists>status code message cid. e = Http_Exn status code message cid None) \<or> (\<exists>x. e = Other_Exn x))"

abbreviation "lp_meets P \<equiv> meets lp_harmless (\<lambda>_ _. True) P"

definition lp_ok_error :: "pool_exn \<Rightarrow> bool" where
  "lp_ok_error e \<longleftrightarrow> (\<forall>message cid. e \<noteq> Domain_Exn LP_REPLAY_DETECTED message cid) \<and>
     (\<forall>status code message cid applied. e = Http_Exn status code message cid applied \<longrightarrow> applied = None)"

lemma lp_ok_error_simps [simp]:
  "lp_ok_error (Other_Exn e)"
  "lp_ok_error (Domain_Exn code message cid) \<longleftrightarrow> code \<noteq> LP_REPLAY_DETECTED"
  "lp_ok_error (Http_Exn status c message i applied) \<longleftrightarrow> applied = None"
  by (auto simp: lp_ok_error_def)

lemma lp_await: "lp_harmless c \<Longrightarrow> (\<And>e. P (Inl (Other_Exn e))) \<Longrightarrow> (\<And>r. lp_meets P (k r)) \<Longrightarrow> lp_meets P (pl_await c k)"
  by (auto simp: pl_await_def split: pl_reply.split)

lemma lp_find: "lp_meets (\<lambda>x. \<forall>e. x = Inl e \<longrightarrow> lp_ok_error e) (findPoolById i)"
proof -
  have o: "lp_ok_error (Other_Exn e)" for e by (simp add: lp_ok_error_def)
  have "lp_meets (\<lambda>x. \<forall>e. x = Inl e \<longrightarrow> lp_ok_error e) (getPoolDetailById i)"
    unfolding getPoolDetailById_def pl_odd_def
    by (rule lp_await) (auto simp: o split: pl_reply.split option.split prod.split intro!: lp_await)
  then show ?thesis unfolding findPoolById_def prog_then_def
    by (rule meets_bind) (auto simp: o pl_clock_def pl_odd_def split: sum.split option.split pl_reply.split)
qed

lemma lp_run:
  "lp_meets (\<lambda>x. case x of Inr res \<Rightarrow> role \<in> {Some ''lp'', Some ''admin''} \<and> positive_amount (body_field body ''amount'') \<and>
       mr_totalLiquidity res = body_field body ''amount'' \<and> mr_replayed res = False
     | Inl e \<Rightarrow> lp_ok_error e) (runLiquidityMutation kind i body role key cid)"
proof -
  have role: "(case role of Some r \<Rightarrow> r \<in> set LP_MUTATION_ROLES | None \<Rightarrow> False) = (role \<in> {Some ''lp'', Some ''admin''})"
    by (auto simp: LP_MUTATION_ROLES_def split: option.split)
  have key: "idempotency_of key body = Inl e \<Longrightarrow> lp_ok_error e" for e
    by (auto simp: idempotency_of_def split: option.splits json.splits)
  show ?thesis unfolding runLiquidityMutation_def role
    by (auto simp: lp_request_error_def key prog_then_def split: sum.split option.split
        intro!: meets_bind [OF lp_find] lp_await)
qed

lemma lp_translated: "lp_ok_error e \<Longrightarrow> lp_answer q (Inl (translateLiquidityError e cid))"
  by (cases e) (auto simp: lp_answer_def toLiquidityHttpException_def NOT_APPLIED_CODES_def)

lemma lp_meets_handler: "lp_meets (lp_answer q) (lp_handler q)"
proof -
  have a: "lp_meets (lp_answer q) (applyLiquidityMutation kind (lr_pool q) (lr_body q) (lr_role q) (lr_key q) cid)" for kind cid
  proof -
    have "lp_meets (lp_answer q) (prog_bind (runLiquidityMutation kind (lr_pool q) (lr_body q) (lr_role q) (lr_key q) c) (\<lambda>x. case x of
        Inl e \<Rightarrow> Ret (Inl (translateLiquidityError e c)) | Inr res \<Rightarrow> Ret (Inr res)))" for c
      proof (rule meets_bind [OF lp_run])
      fix x :: "pool_exn + mutation_result"
      assume "case x of Inr res \<Rightarrow> lr_role q \<in> {Some ''lp'', Some ''admin''} \<and> positive_amount (body_field (lr_body q) ''amount'') \<and>
           mr_totalLiquidity res = body_field (lr_body q) ''amount'' \<and> mr_replayed res = False
         | Inl e \<Rightarrow> lp_ok_error e"
      then show "lp_meets (lp_answer q) (case x of
          Inl e \<Rightarrow> Ret (Inl (translateLiquidityError e c)) | Inr res \<Rightarrow> Ret (Inr res))"
        using lp_translated by (cases x) (simp, simp add: lp_answer_def)
    qed
    moreover have "lp_answer q (Inl (Other_Exn e))" for e by (simp add: lp_answer_def)
    ultimately show ?thesis
      by (auto simp: applyLiquidityMutation_def Let_def pl_clock_def pl_odd_def split: option.split pl_reply.split)
  qed
  show ?thesis using a by (simp add: lp_handler_def mintLiquidity_def burnLiquidity_def split: mutation_kind.split)
qed

text \<open>C38: However mint and burn requests interleave, a request that is accepted had a role header lp or admin and a positive
  amount, which it is told is now its total liquidity; but no request stores anything, so that the same request is accepted
  again and again, and none is ever told that it was applied before.\<close>

theorem lp_mutation_stores_nothing:
  assumes "steps exec drift (map lp_handler qs, s) tr (ts', s')" and "i < length qs" and "ts' ! i = Ret x"
  shows "lp_answer (qs ! i) x \<and> (\<forall>(i, c, r) \<in> set tr. lp_harmless c)"
proof -
  have "True \<and> (\<forall>i < length ts'. lp_meets (lp_answer (qs ! i)) (ts' ! i)) \<and> (\<forall>(i, c, r) \<in> set tr. lp_harmless c)"
    by (rule steps_meets [where I = "\<lambda>_. True" and P = "\<lambda>i. lp_answer (qs ! i)", OF assms(1)]) (simp_all add: lp_meets_handler)
  moreover have "length ts' = length qs" using steps_length [OF assms(1)] by simp
  ultimately show ?thesis using assms(2,3) by auto
qed

definition demo_mint :: lp_request where
  "demo_mint = \<lparr>lr_kind = Mint, lr_pool = ''p'',
     lr_body = Some (JObj [(''poolId'', JStr ''p''), (''lowerTick'', JNum (Fin 0)), (''upperTick'', JNum (Fin 60)), (''amount'', JStr ''500'')]),
     lr_role = Some ''lp'', lr_key = Some ''k'', lr_cid = Some ''c''\<rparr>"

lemma demo_minted:
  "fst (run demo_pools (lp_handler demo_mint) ()) = Inr \<lparr>mr_correlationId = ''c'', mr_poolId = ''p'', mr_lowerTick = Some (JNum (Fin 0)),
     mr_upperTick = Some (JNum (Fin 60)), mr_amount = Some (JStr ''500''), mr_totalLiquidity = Some (JStr ''500''), mr_replayed = False\<rparr>"
  by code_simp

text \<open>One request, sent twice.\<close>

theorem lp_mutation_stores_nothing_witness:
  "lp_answer demo_mint (fst (run demo_pools (lp_handler demo_mint) ())) \<and>
   (\<exists>res. fst (run demo_pools (lp_handler demo_mint) ()) = Inr res \<and> mr_replayed res = False)"
proof -
  obtain tr where st: "steps demo_pools (\<lambda>_ _. False) (map lp_handler [demo_mint], ()) tr
      ([Ret (fst (run demo_pools (lp_handler demo_mint) ()))], snd (run demo_pools (lp_handler demo_mint) ()))"
    using run_steps [of demo_pools "\<lambda>_ _. False" "lp_handler demo_mint" "()"] by auto
  have "lp_answer ([demo_mint] ! 0) (fst (run demo_pools (lp_handler demo_mint) ()))"
    using lp_mutation_stores_nothing [OF st, of 0] by simp
  then show ?thesis using demo_minted by simp
qed

section \<open>Tick spacing\<close>

text \<open>\<^verbatim>\<open>fee_tier_to_tick_spacing\<close> of the contract (\<^verbatim>\<open>cl-pool/src/lib.rs\<close>).\<close>

definition fee_tier_to_tick_spacing :: "int \<Rightarrow> int" where
  "fee_tier_to_tick_spacing fee_tier =
     (if fee_tier = 500 then 10 else if fee_tier = 3000 then 60 else if fee_tier = 10000 then 200 else 60)"

lemma tick_spacing_of_contract: "tickSpacingForFeeTier feeTier = fee_tier_to_tick_spacing feeTier"
  by (simp add: tickSpacingForFeeTier_def TICK_SPACING_BY_FEE_TIER_def DEFAULT_TICK_SPACING_def fee_tier_to_tick_spacing_def)

end
