(* ===== verification/Balances.thy ===== *)
theory Balances
  imports Base_Units Json Js_Map Prog_Wp
begin

text \<open>
  \<^verbatim>\<open>apps/api/src/balances/balances.service.ts\<close>: the slippage policy, the checks of position metadata, and the balances of a
  wallet. The token table and the simulation of a contract call are calls; a fresh correlation id and the time are arguments.
\<close>

section \<open>Policies\<close>

text \<open>An exception with its HTTP status and message.\<close>

datatype balance_exn = Invalid_Input string | Upstream_Service string | Balance_Error string

definition SLIPPAGE_POLICY :: "(int \<times> int) \<times> (int \<times> int)" where
  \<comment> \<open>tolerance in basis points and deadline in seconds, least and greatest\<close>
  "SLIPPAGE_POLICY = ((1, 500), (5, 300))"

record slippage_request =
  sq_toleranceBps :: "json option"
  sq_deadlineSeconds :: "json option"
  sq_correlationId :: "string option"

record slippage_params =
  sp_toleranceBps :: jsnum
  sp_deadline :: jsnum
  sp_correlationId :: string

text \<open>An integer between two bounds.\<close>

fun policy_int :: "json option \<Rightarrow> int \<times> int \<Rightarrow> jsnum option" where
  "policy_int (Some (JNum x)) (lo, hi) =
     (if is_integer x \<and> \<not> jlt x (Fin (of_int lo)) \<and> \<not> jlt (Fin (of_int hi)) x then Some x else None)"
| "policy_int v b = None"

definition cid_or :: "string option \<Rightarrow> string \<Rightarrow> string" where
  "cid_or c fresh = (case c of None \<Rightarrow> fresh | Some s \<Rightarrow> if trim s = [] then fresh else trim s)"

definition enforceSlippageParams :: "slippage_request \<Rightarrow> string \<Rightarrow> int \<Rightarrow> balance_exn + slippage_params" where
  "enforceSlippageParams request fresh now =
     (case policy_int (sq_toleranceBps request) (fst SLIPPAGE_POLICY) of
        None \<Rightarrow> Inl (Invalid_Input ''SLIPPAGE_INVALID_TOLERANCE: toleranceBps must be an integer between 1 and 500'')
      | Some toleranceBps \<Rightarrow> (case policy_int (sq_deadlineSeconds request) (snd SLIPPAGE_POLICY) of
          None \<Rightarrow> Inl (Invalid_Input ''SLIPPAGE_INVALID_DEADLINE: deadlineSeconds must be an integer between 5 and 300'')
        | Some deadlineSeconds \<Rightarrow> Inr \<lparr>sp_toleranceBps = toleranceBps,
            sp_deadline = jadd (num_of_int (now div 1000)) deadlineSeconds,
            sp_correlationId = cid_or (sq_correlationId request) fresh\<rparr>))"

definition POSITION_NFT_METADATA_VERSION :: jsnum where "POSITION_NFT_METADATA_VERSION = Fin 1"

definition POSITION_NFT_TICK_RANGE :: "int \<times> int" where "POSITION_NFT_TICK_RANGE = (- 887272, 887272)"

definition MAX_POSITION_ID_LENGTH :: nat where "MAX_POSITION_ID_LENGTH = 128"

record metadata_request =
  mq_positionId :: "string option"
  mq_poolAddress :: "string option"
  mq_tickLower :: "json option"
  mq_tickUpper :: "json option"
  mq_liquidity :: "string option"
  mq_metadataVersion :: "json option"
  mq_correlationId :: "string option"

record position_metadata =
  pm_positionId :: string
  pm_poolAddress :: string
  pm_tickLower :: jsnum
  pm_tickUpper :: jsnum
  pm_liquidity :: string
  pm_metadataVersion :: jsnum
  pm_correlationId :: string

text \<open>\<^verbatim>\<open>/^X[A-Z2-7]{55}$/\<close> with X a G or a C, and \<^verbatim>\<open>/^[A-Za-z0-9:_-]+$/\<close>.\<close>

definition code_between :: "int \<Rightarrow> int \<Rightarrow> char \<Rightarrow> bool" where
  "code_between lo hi c = (lo \<le> of_char c \<and> of_char c \<le> hi)"

definition stellar_address :: "char \<Rightarrow> string \<Rightarrow> bool" where
  "stellar_address kind s = (case s of [] \<Rightarrow> False
     | c # cs \<Rightarrow> c = kind \<and> length cs = 55 \<and> list_all (\<lambda>d. code_between 65 90 d \<or> code_between 50 55 d) cs)"

definition position_id_char :: "char \<Rightarrow> bool" where
  "position_id_char c = (code_between 65 90 c \<or> code_between 97 122 c \<or> is_digit c \<or> c \<in> {CHR '':'', CHR ''_'', CHR ''-''})"

definition valid_position_id :: "string \<Rightarrow> bool" where
  "valid_position_id s = (s \<noteq> [] \<and> length s \<le> MAX_POSITION_ID_LENGTH \<and> list_all position_id_char s)"

fun integer_of :: "json option \<Rightarrow> jsnum option" where
  "integer_of (Some (JNum x)) = (if is_integer x then Some x else None)"
| "integer_of v = None"

definition tick_range_of :: "json option \<Rightarrow> json option \<Rightarrow> (jsnum \<times> jsnum) option" where
  "tick_range_of lower upper =
     (case (integer_of lower, integer_of upper) of
        (Some l, Some u) \<Rightarrow>
          if jlt l (Fin (of_int (fst POSITION_NFT_TICK_RANGE))) \<or> jlt (Fin (of_int (snd POSITION_NFT_TICK_RANGE))) u \<or> jle u l
          then None else Some (l, u)
      | _ \<Rightarrow> None)"

definition enforcePositionNftMetadata :: "metadata_request \<Rightarrow> string \<Rightarrow> balance_exn + position_metadata" where
  "enforcePositionNftMetadata request fresh =
     (let positionId = trim (or_else (mq_positionId request) []); poolAddress = trim (or_else (mq_poolAddress request) []);
          liquidity = trim (or_else (mq_liquidity request) []) in
      if \<not> valid_position_id positionId then
        Inl (Invalid_Input ''POSITION_NFT_INVALID_POSITION_ID: positionId must be a non-empty identifier of at most 128 characters'')
      else if \<not> (stellar_address CHR ''C'' poolAddress \<or> stellar_address CHR ''G'' poolAddress) then
        Inl (Invalid_Input ''POSITION_NFT_INVALID_POOL_ADDRESS: poolAddress must be a valid Stellar contract (C...) or account (G...) address'')
      else (case tick_range_of (mq_tickLower request) (mq_tickUpper request) of
          None \<Rightarrow> Inl (Invalid_Input ''POSITION_NFT_INVALID_TICK_RANGE: tickLower/tickUpper must be integers with tickLower < tickUpper within [-887272, 887272]'')
        | Some (l, u) \<Rightarrow>
            if liquidity = [] \<or> \<not> list_all is_digit liquidity then
              Inl (Invalid_Input ''POSITION_NFT_INVALID_LIQUIDITY: liquidity must be a non-negative integer base-units string'')
            else if json_coalesce [mq_metadataVersion request, Some (JNum POSITION_NFT_METADATA_VERSION)] \<noteq> Some (JNum POSITION_NFT_METADATA_VERSION) then
              Inl (Invalid_Input ''POSITION_NFT_UNSUPPORTED_METADATA_VERSION: metadataVersion must be 1'')
            else Inr \<lparr>pm_positionId = positionId, pm_poolAddress = poolAddress, pm_tickLower = l, pm_tickUpper = u,
              pm_liquidity = liquidity, pm_metadataVersion = POSITION_NFT_METADATA_VERSION,
              pm_correlationId = cid_or (mq_correlationId request) fresh\<rparr>))"

section \<open>Balances\<close>

text \<open>What a simulated call returns: an error, no result, or a value.\<close>

datatype native = Nat_Big int | Nat_Num jsnum | Nat_Str string | Nat_Other

datatype bal_call = Find_Tokens | Simulate_Balance string string

datatype bal_reply = BErr string | BTokens "(string \<times> nat) list" | BSimulation "native option"

type_synonym 'a bal_prog = "(bal_call, bal_reply, balance_exn + 'a) prog"

text \<open>\<^verbatim>\<open>undefined\<close> is \<open>Inr None\<close>; \<open>Inl\<close> is an error, of the transport or of \<^verbatim>\<open>BigInt\<close>.\<close>

definition native_balance :: "native option \<Rightarrow> string + int option" where
  "native_balance v = (case v of
     None \<Rightarrow> Inr None
   | Some (Nat_Big i) \<Rightarrow> Inr (Some i)
   | Some (Nat_Num x) \<Rightarrow> (case bigint_of_num x of Some i \<Rightarrow> Inr (Some i) | None \<Rightarrow> Inl ''cannot be converted to a BigInt'')
   | Some (Nat_Str s) \<Rightarrow> (case bigint_of_string s of Some i \<Rightarrow> Inr (Some i) | None \<Rightarrow> Inl ''Cannot convert to a BigInt'')
   | Some Nat_Other \<Rightarrow> Inr None)"

definition fetchOnChainBalance :: "string \<Rightarrow> string \<Rightarrow> (bal_call, bal_reply, string + int option) prog" where
  "fetchOnChainBalance token walletAddress =
     Call (Simulate_Balance token walletAddress) (\<lambda>r. Ret (case r of
       BSimulation v \<Rightarrow> native_balance v | BErr e \<Rightarrow> Inl e | _ \<Rightarrow> Inl ''unexpected reply''))"

fun balance_loop :: "string \<Rightarrow> (string \<times> nat) list \<Rightarrow> (string, string) js_map \<Rightarrow> (string, string) js_map bal_prog" where
  "balance_loop address [] balances = Ret (Inr balances)"
| "balance_loop address ((token, decimals) # ts) balances =
     prog_bind (fetchOnChainBalance token address) (\<lambda>x. case x of
       Inl e \<Rightarrow> Ret (Inl (Upstream_Service (''Failed to reach the Stellar RPC endpoint while fetching balances: '' @ e)))
     | Inr None \<Rightarrow> balance_loop address ts balances
     | Inr (Some raw) \<Rightarrow> balance_loop address ts (jm_set balances token (fromBaseUnits raw decimals)))"

definition getBalances :: "string \<Rightarrow> (string, string) js_map bal_prog" where
  "getBalances address =
     (if \<not> stellar_address CHR ''G'' address then
        Ret (Inl (Invalid_Input ''address must be a valid Stellar wallet address (G...)''))
      else Call Find_Tokens (\<lambda>r. case r of
        BTokens tokens \<Rightarrow> if tokens = [] then Ret (Inr []) else balance_loop address tokens []
      | BErr e \<Rightarrow> Ret (Inl (Balance_Error e))
      | _ \<Rightarrow> Ret (Inl (Balance_Error ''unexpected reply''))))"

section \<open>Properties\<close>

lemma policy_int_cases:
  assumes "policy_int v (lo, hi) = Some z"
  obtains q where "z = Fin q" "q = of_int \<lfloor>q\<rfloor>" "of_int lo \<le> q" "q \<le> of_int hi"
proof -
  obtain x where v: "v = Some (JNum x)" using assms by (cases "(v, (lo, hi))" rule: policy_int.cases) auto
  then have z: "x = z" "is_integer z" "\<not> jlt z (Fin (of_int lo))" "\<not> jlt (Fin (of_int hi)) z"
    using assms by (simp_all split: if_splits)
  then show thesis using that by (cases z) auto
qed

text \<open>Parameters that pass the slippage policy are integers within its bounds, with a deadline at least five seconds and at
  most five minutes after the current second; whatever else a client sends is refused.\<close>

theorem slippage_policy_bounds:
  assumes "enforceSlippageParams request fresh now = Inr p" and "0 \<le> now" and "now < 2 ^ 53"
  shows "\<exists>t d. sp_toleranceBps p = Fin (of_int t) \<and> 1 \<le> t \<and> t \<le> 500 \<and>
    sp_deadline p = Fin (of_int (now div 1000 + d)) \<and> 5 \<le> d \<and> d \<le> 300"
proof -
  obtain x y where x: "policy_int (sq_toleranceBps request) (1, 500) = Some x"
    and y: "policy_int (sq_deadlineSeconds request) (5, 300) = Some y"
    and p: "sp_toleranceBps p = x" "sp_deadline p = jadd (num_of_int (now div 1000)) y"
    using assms(1) by (auto simp: enforceSlippageParams_def SLIPPAGE_POLICY_def split: option.splits)
  have int: "\<exists>t. z = Fin (of_int t) \<and> lo \<le> t \<and> t \<le> hi" if pz: "policy_int v (lo, hi) = Some z" for v lo hi z
  proof -
    obtain q where q: "z = Fin q" "q = of_int \<lfloor>q\<rfloor>" "of_int lo \<le> q" "q \<le> of_int hi"
      by (rule policy_int_cases [OF pz])
    then have "(of_int lo :: rat) \<le> of_int \<lfloor>q\<rfloor>" "(of_int \<lfloor>q\<rfloor> :: rat) \<le> of_int hi" by simp_all
    then have "lo \<le> \<lfloor>q\<rfloor>" "\<lfloor>q\<rfloor> \<le> hi" by (simp_all only: of_int_le_iff)
    then show ?thesis using q(1,2) by (intro exI [of _ "\<lfloor>q\<rfloor>"]) simp
  qed
  obtain t d where t: "x = Fin (of_int t)" "1 \<le> t" "t \<le> 500" and d: "y = Fin (of_int d)" "5 \<le> d" "d \<le> 300"
    using int [OF x] int [OF y] by blast
  have n: "0 \<le> now div 1000" "now div 1000 \<le> 9007199254741"
    using assms(2) zdiv_mono1 [of now "2 ^ 53" 1000] assms(3) by simp_all
  have "jadd (num_of_int (now div 1000)) y = to_double (of_int (now div 1000 + d))" using n d by simp
  also have "\<dots> = Fin (of_int (now div 1000 + d))" by (intro to_double_of_int) (use n d in simp_all)
  finally show ?thesis using t d p by auto
qed

theorem slippage_policy_bounds_witness:
  "\<exists>t d. Fin 50 = Fin (of_int t) \<and> (1::int) \<le> t \<and> t \<le> 500 \<and> Fin 1060 = Fin (of_int (1000000 div 1000 + d)) \<and> (5::int) \<le> d \<and> d \<le> 300"
proof -
  have "enforceSlippageParams \<lparr>sq_toleranceBps = Some (JNum (Fin 50)), sq_deadlineSeconds = Some (JNum (Fin 60)), sq_correlationId = None\<rparr>
      ''id'' 1000000 = Inr \<lparr>sp_toleranceBps = Fin 50, sp_deadline = Fin 1060, sp_correlationId = ''id''\<rparr>" by code_simp
  from slippage_policy_bounds [OF this] show ?thesis by simp
qed

text \<open>The table of tokens and the answers of the chain.\<close>

definition chain_says :: "(string \<times> nat) list \<Rightarrow> (string \<Rightarrow> string \<Rightarrow> bal_reply) \<Rightarrow> (bal_call, bal_reply, unit) service" where
  "chain_says tokens sim c s = (case c of Find_Tokens \<Rightarrow> (BTokens tokens, s) | Simulate_Balance t a \<Rightarrow> (sim t a, s))"

definition on_chain :: "bal_reply \<Rightarrow> string + int option" where
  "on_chain r = (case r of BSimulation v \<Rightarrow> native_balance v | BErr e \<Rightarrow> Inl e | _ \<Rightarrow> Inl ''unexpected reply'')"

lemma run_fetch: "run (chain_says tokens sim) (fetchOnChainBalance token address) s = (on_chain (sim token address), s)"
  by (simp add: fetchOnChainBalance_def chain_says_def on_chain_def)

text \<open>What is reported of a token: nothing when the chain gave no value, else a decimal string of that value.\<close>

definition reports :: "(string, string) js_map \<Rightarrow> (string \<Rightarrow> string + int option) \<Rightarrow> string \<times> nat \<Rightarrow> bool" where
  "reports m f t = (case f (fst t) of Inl e \<Rightarrow> False | Inr None \<Rightarrow> jm_get m (fst t) = None
     | Inr (Some n) \<Rightarrow> Option.bind (jm_get m (fst t)) (\<lambda>s. toBaseUnits s (snd t)) = Some n)"

lemma reports_other: "t' \<noteq> fst t \<Longrightarrow> reports (jm_set m t' v) f t = reports m f t"
  by (simp add: reports_def split: sum.splits option.splits)

lemma reports_set: "f t = Inr (Some n) \<Longrightarrow> 0 \<le> n \<Longrightarrow> reports (jm_set m t (fromBaseUnits n d)) f (t, d)"
  by (simp add: reports_def units_read_back)

lemma balance_loop_result:
  assumes "distinct (map fst ts)" and "\<And>t. t \<in> set ts \<Longrightarrow> jm_get m (fst t) = None"
    and "\<And>t n. f t = Inr (Some n) \<Longrightarrow> 0 \<le> n" and f: "f = (\<lambda>t. on_chain (sim t address))"
  shows "case fst (run (chain_says tokens sim) (balance_loop address ts m) s) of
      Inl e \<Rightarrow> (\<exists>t \<in> set ts. isl (f (fst t))) \<and> (\<exists>msg. e = Upstream_Service msg)
    | Inr m' \<Rightarrow> (\<forall>t \<in> set ts. reports m' f t) \<and> (\<forall>k. k \<notin> fst ` set ts \<longrightarrow> jm_get m' k = jm_get m k)"
  using assms(1,2)
proof (induction ts arbitrary: m)
  case (Cons td ts)
  obtain t d where td: "td = (t, d)" by (rule prod.exhaust)
  have t: "t \<notin> fst ` set ts" using Cons.prems(1) td by auto
  consider (err) e where "f t = Inl e" | (none) "f t = Inr None" | (val) n where "f t = Inr (Some n)"
    by (metis not_None_eq sum.exhaust)
  then show ?case
  proof cases
    case err
    then show ?thesis by (simp add: td run_bind run_fetch f)
  next
    case none
    let ?r = "fst (run (chain_says tokens sim) (balance_loop address ts m) s)"
    have r: "fst (run (chain_says tokens sim) (balance_loop address (td # ts) m) s) = ?r"
      using none by (simp add: td run_bind run_fetch f)
    have IH: "case ?r of Inl e \<Rightarrow> (\<exists>t \<in> set ts. isl (f (fst t))) \<and> (\<exists>msg. e = Upstream_Service msg)
      | Inr m' \<Rightarrow> (\<forall>t \<in> set ts. reports m' f t) \<and> (\<forall>k. k \<notin> fst ` set ts \<longrightarrow> jm_get m' k = jm_get m k)"
      by (rule Cons.IH) (use Cons.prems in auto)
    have "jm_get m t = None" using Cons.prems(2) td by force
    then have "reports m' f td" if "\<forall>k. k \<notin> fst ` set ts \<longrightarrow> jm_get m' k = jm_get m k" for m'
      using that t none td by (simp add: reports_def)
    then show ?thesis using IH unfolding r by (auto split: sum.splits)
  next
    case val
    let ?m = "jm_set m t (fromBaseUnits n d)"
    let ?r = "fst (run (chain_says tokens sim) (balance_loop address ts ?m) s)"
    have r: "fst (run (chain_says tokens sim) (balance_loop address (td # ts) m) s) = ?r"
      using val by (simp add: td run_bind run_fetch f)
    have IH: "case ?r of Inl e \<Rightarrow> (\<exists>t \<in> set ts. isl (f (fst t))) \<and> (\<exists>msg. e = Upstream_Service msg)
      | Inr m' \<Rightarrow> (\<forall>t \<in> set ts. reports m' f t) \<and> (\<forall>k. k \<notin> fst ` set ts \<longrightarrow> jm_get m' k = jm_get ?m k)"
      by (rule Cons.IH) (use Cons.prems t in \<open>auto simp: image_iff\<close>)
    have "reports m' f td" if "\<forall>k. k \<notin> fst ` set ts \<longrightarrow> jm_get m' k = jm_get ?m k" for m'
      using that t val td reports_set [of f t n m d] assms(3) by (simp add: reports_def)
    then show ?thesis using IH td unfolding r by (auto split: sum.splits)
  qed
qed simp

text \<open>C14: When a wallet's balances are returned, each token of the table is reported with a decimal string that reads back as
  exactly the amount on chain, and a token is left out only when the chain gave no value for it; nothing else is in the answer.
  If the chain cannot be reached for one token the whole request fails as an outage, so no partial answer is given.\<close>

theorem balances_exact:
  assumes "stellar_address CHR ''G'' address" and "distinct (map fst tokens)"
    and "\<And>t n. on_chain (sim t address) = Inr (Some n) \<Longrightarrow> 0 \<le> n"
  shows "case fst (run (chain_says tokens sim) (getBalances address) ()) of
      Inl e \<Rightarrow> (\<exists>t \<in> set tokens. isl (on_chain (sim (fst t) address))) \<and> (\<exists>msg. e = Upstream_Service msg)
    | Inr m \<Rightarrow> (\<forall>t \<in> set tokens. reports m (\<lambda>t. on_chain (sim t address)) t) \<and>
        (\<forall>k. k \<notin> fst ` set tokens \<longrightarrow> jm_get m k = None)"
proof (cases "tokens = []")
  case True
  then show ?thesis using assms(1) by (simp add: getBalances_def chain_says_def)
next
  case False
  then have "run (chain_says tokens sim) (getBalances address) () = run (chain_says tokens sim) (balance_loop address tokens []) ()"
    using assms(1) by (simp add: getBalances_def chain_says_def)
  then show ?thesis
    using balance_loop_result [where ts = tokens and m = "[]" and f = "\<lambda>t. on_chain (sim t address)" and sim = sim and address = address
        and tokens = tokens and s = "()"] assms(2,3) by (simp split: sum.splits)
qed

theorem balances_exact_witness:
  "case fst (run (chain_says [(''XLM'', 7), (''OLD'', 7)] (\<lambda>t a. BSimulation (if t = ''XLM'' then Some (Nat_Big 2505000000) else None)))
      (getBalances (CHR ''G'' # replicate 55 (CHR ''A''))) ()) of
      Inl e \<Rightarrow> False
    | Inr m \<Rightarrow> Option.bind (jm_get m ''XLM'') (\<lambda>s. toBaseUnits s 7) = Some 2505000000 \<and> jm_get m ''OLD'' = None \<and> jm_get m ''BTC'' = None"
proof -
  let ?a = "CHR ''G'' # replicate 55 (CHR ''A'')"
  let ?sim = "\<lambda>(t::string) (a::string). BSimulation (if t = ''XLM'' then Some (Nat_Big 2505000000) else None)"
  have a: "stellar_address CHR ''G'' ?a" by code_simp
  have n: "0 \<le> n" if "on_chain (?sim t ?a) = Inr (Some n)" for t n
    using that by (auto simp: on_chain_def native_balance_def split: if_splits)
  have "case fst (run (chain_says [(''XLM'', 7), (''OLD'', 7)] ?sim) (getBalances ?a) ()) of
      Inl e \<Rightarrow> (\<exists>t \<in> set [(''XLM'', 7::nat), (''OLD'', 7)]. isl (on_chain (?sim (fst t) ?a))) \<and> (\<exists>msg. e = Upstream_Service msg)
    | Inr m \<Rightarrow> (\<forall>t \<in> set [(''XLM'', 7), (''OLD'', 7)]. reports m (\<lambda>t. on_chain (?sim t ?a)) t) \<and>
        (\<forall>k. k \<notin> fst ` set [(''XLM'', 7::nat), (''OLD'', 7)] \<longrightarrow> jm_get m k = None)"
    by (rule balances_exact [OF a _ n]) simp_all
  then show ?thesis
    by (simp add: on_chain_def native_balance_def reports_def split: sum.splits del: replicate.simps replicate_Suc)
qed

end
