(* ===== verification/Swap_Reads.thy ===== *)
theory Swap_Reads
  imports Pools Quote Base_Units Js_Map
begin

text \<open>
  The swap endpoints, \<^verbatim>\<open>apps/api/src/swaps\<close>: the list of swaps with the symbols of their tokens, and the quote, which
  composes the pool service with \<^verbatim>\<open>getSwapQuote\<close> of the SDK. \<^verbatim>\<open>Math.pow\<close> is a parameter. Decimals are a column of the
  token table and taken as not negative.
\<close>

section \<open>The list of swaps (\<^verbatim>\<open>swaps.repository.ts\<close>)\<close>

record swap_with_pool =
  wp_id :: string
  wp_poolId :: string
  wp_sender :: string
  wp_amount0 :: string
  wp_amount1 :: string
  wp_sqrtPriceAfter :: string
  wp_txHash :: string
  wp_feeAmount :: string
  wp_timestamp :: int
  wp_token0 :: string
  wp_token1 :: string

record swap_snapshot =
  sn_id :: string
  sn_poolId :: string
  sn_token0Symbol :: string
  sn_token1Symbol :: string
  sn_amount0 :: string
  sn_amount1 :: string
  sn_priceAtSwap :: string
  sn_feeAmount :: string
  sn_txHash :: string
  sn_walletAddress :: string
  sn_timestamp :: int

datatype sw_call =
    Set_Loading bool
  | Count_Swaps_Where "string option" "string option"
  | Find_Swaps_Page "string option" "string option" int int
  | Find_Token_Symbols "string list"

datatype sw_reply = SErr string | SDone | SCount int | SSwaps "swap_with_pool list" | STokens "(string \<times> string) list"

datatype sw_exn = Sw_Error string | Slippage_Exceeded

type_synonym 'a sw_prog = "(sw_call, sw_reply, sw_exn + 'a) prog"

definition sw_await :: "sw_call \<Rightarrow> (sw_reply \<Rightarrow> 'a sw_prog) \<Rightarrow> 'a sw_prog" where
  "sw_await c k = Call c (\<lambda>r. case r of SErr e \<Rightarrow> Ret (Inl (Sw_Error e)) | _ \<Rightarrow> k r)"

definition sw_odd :: "'a sw_prog" where "sw_odd = Ret (Inl (Sw_Error ''unexpected reply''))"

text \<open>A \<^verbatim>\<open>Set\<close> of strings as an array, in the order of first insertion, and a \<^verbatim>\<open>Map\<close> from an array of pairs.\<close>

definition js_distinct :: "'a list \<Rightarrow> 'a list" where
  "js_distinct xs = foldl (\<lambda>acc x. if x \<in> set acc then acc else acc @ [x]) [] xs"

definition jm_of_list :: "('k \<times> 'v) list \<Rightarrow> ('k, 'v) js_map" where
  "jm_of_list kvs = foldl (\<lambda>m kv. jm_set m (fst kv) (snd kv)) [] kvs"

definition lower_text :: "string \<Rightarrow> string" where
  "lower_text s = map lower_char s"

definition symbol_map :: "(string \<times> string) list \<Rightarrow> (string, string) js_map" where
  "symbol_map tokens = jm_of_list (map (\<lambda>t. (lower_text (fst t), snd t)) tokens)"

definition symbol_of :: "(string, string) js_map \<Rightarrow> string \<Rightarrow> string" where
  "symbol_of symbols address = or_else (jm_get symbols (lower_text address)) ''UNKNOWN''"

definition price_at_swap :: "(jsnum \<Rightarrow> jsnum \<Rightarrow> jsnum) \<Rightarrow> string \<Rightarrow> string" where
  "price_at_swap pow sqrtPriceAfter =
     (let price = pow (jdiv (num_of_string sqrtPriceAfter) (pow (Fin 2) (Fin 96))) (Fin 2) in
      if is_finite price then num_to_string price else ''0'')"

definition swap_snapshot_of :: "(jsnum \<Rightarrow> jsnum \<Rightarrow> jsnum) \<Rightarrow> (string, string) js_map \<Rightarrow> swap_with_pool \<Rightarrow> swap_snapshot" where
  "swap_snapshot_of pow symbols swap =
     \<lparr>sn_id = wp_id swap, sn_poolId = wp_poolId swap,
       sn_token0Symbol = symbol_of symbols (wp_token0 swap), sn_token1Symbol = symbol_of symbols (wp_token1 swap),
       sn_amount0 = wp_amount0 swap, sn_amount1 = wp_amount1 swap, sn_priceAtSwap = price_at_swap pow (wp_sqrtPriceAfter swap),
       sn_feeAmount = wp_feeAmount swap, sn_txHash = wp_txHash swap, sn_walletAddress = wp_sender swap,
       sn_timestamp = wp_timestamp swap\<rparr>"

definition listSwaps ::
  "(jsnum \<Rightarrow> jsnum \<Rightarrow> jsnum) \<Rightarrow> string option \<Rightarrow> string option \<Rightarrow> int \<Rightarrow> int \<Rightarrow> (swap_snapshot list \<times> int) sw_prog" where
  "listSwaps pow poolId wallet page limit =
     sw_await (Count_Swaps_Where (trimmed poolId) (trimmed wallet)) (\<lambda>rc. case rc of
       SCount tot \<Rightarrow>
         sw_await (Find_Swaps_Page (trimmed poolId) (trimmed wallet) ((page - 1) * limit) limit) (\<lambda>rs. case rs of
           SSwaps swaps \<Rightarrow>
             if swaps = [] then Ret (Inr ([], tot))
             else sw_await (Find_Token_Symbols (js_distinct (concat (map (\<lambda>s. [wp_token0 s, wp_token1 s]) swaps)))) (\<lambda>rt. case rt of
               STokens tokens \<Rightarrow> Ret (Inr (map (swap_snapshot_of pow (symbol_map tokens)) swaps, tot))
             | _ \<Rightarrow> sw_odd)
         | _ \<Rightarrow> sw_odd)
     | _ \<Rightarrow> sw_odd)"

section \<open>The service (\<^verbatim>\<open>swaps.service.ts\<close>)\<close>

record swap_response =
  sr_swap :: swap_snapshot
  sr_tokenPair :: string

record swaps_list =
  sl_items :: "swap_response list"
  sl_page :: int
  sl_limit :: int
  sl_total :: int
  sl_totalPages :: jsnum
  sl_isLoading :: bool

definition toSwapResponse :: "swap_snapshot \<Rightarrow> swap_response" where
  "toSwapResponse s = \<lparr>sr_swap = s, sr_tokenPair = sn_token0Symbol s @ ''/'' @ sn_token1Symbol s\<rparr>"

fun text_includes :: "string \<Rightarrow> string \<Rightarrow> bool" where
  "text_includes [] t = (t = [])"
| "text_includes (c # cs) t = (starts_with t (c # cs) \<or> text_includes cs t)"

definition page_count :: "int \<Rightarrow> int \<Rightarrow> jsnum" where
  "page_count tot limit = (if tot = 0 then Fin 0 else total_pages tot limit)"

text \<open>The error an erroneous list is answered with.\<close>

definition swaps_error :: "sw_exn \<Rightarrow> sw_exn" where
  "swaps_error e = (case e of Sw_Error m \<Rightarrow> if text_includes m ''SLIPPAGE_EXCEEDED'' then Slippage_Exceeded else e | _ \<Rightarrow> e)"

definition getSwaps ::
  "(jsnum \<Rightarrow> jsnum \<Rightarrow> jsnum) \<Rightarrow> string option \<Rightarrow> string option \<Rightarrow> int option \<Rightarrow> int option \<Rightarrow> swaps_list sw_prog" where
  "getSwaps pow poolId wallet page0 limit0 =
     (let page = or_else page0 1; limit = or_else limit0 20 in
      Call (Set_Loading True) (\<lambda>_.
      prog_bind (listSwaps pow (trimmed poolId) (trimmed wallet) page limit) (\<lambda>x.
      Call (Set_Loading False) (\<lambda>_.
      Ret (case x of
        Inl e \<Rightarrow> Inl (swaps_error e)
      | Inr (items, tot) \<Rightarrow> Inr \<lparr>sl_items = map toSwapResponse items, sl_page = page, sl_limit = limit, sl_total = tot,
          sl_totalPages = page_count tot limit, sl_isLoading = False\<rparr>)))))"

section \<open>The quote\<close>

record quote_request =
  qr_poolId :: string
  qr_tokenIn :: string
  qr_tokenOut :: string
  qr_amountIn :: string
  qr_slippageBps :: jsnum

record quote_response =
  qq_amountOut :: string
  qq_priceImpact :: jsnum
  qq_lpFee :: string
  qq_minimumReceived :: string
  qq_executionPrice :: string

definition invalid_input :: "string \<Rightarrow> pool_exn" where
  "invalid_input message = Http_Exn 400 None message None None"

definition rule_violation :: "string \<Rightarrow> pool_exn" where
  "rule_violation message = Http_Exn 422 None message None None"

definition resolveDirection :: "pool_detail \<Rightarrow> string \<Rightarrow> string \<Rightarrow> pool_exn + bool" where
  "resolveDirection pool tokenIn tokenOut =
     (let token0 = pt_address (pd_token0 pool); token1 = pt_address (pd_token1 pool) in
      if tokenIn = token0 \<and> tokenOut = token1 then Inr True
      else if tokenIn = token1 \<and> tokenOut = token0 then Inr False
      else Inl (invalid_input (''tokenIn/tokenOut must be pool '' @ pd_id pool @ '''s tokens ('' @ token0 @ '', '' @ token1 @ '')'')))"

definition spotPrice :: "string \<Rightarrow> jsnum" where
  "spotPrice currentSqrtPrice = (let sqrtPrice = jdiv (num_of_string currentSqrtPrice) (num_of_int (2 ^ 96)) in jmul sqrtPrice sqrtPrice)"

fun exn_text :: "js_exn \<Rightarrow> string" where
  "exn_text (RangeError m) = m"
| "exn_text (SyntaxError m) = m"
| "exn_text (TypeError m) = m"
| "exn_text (PlainError m) = m"
| "exn_text (QuoteValidationError m) = m"
| "exn_text (SwapValidationError m) = m"
| "exn_text (ValidationError m) = m"

text \<open>The argument of the SDK's \<^verbatim>\<open>getSwapQuote\<close>: the object has a \<^verbatim>\<open>sqrtPrice\<close>, and neither it nor its ticks has a
  \<^verbatim>\<open>sqrtPriceX96\<close>.\<close>

definition quote_state :: "pool_detail \<Rightarrow> tick_read list \<Rightarrow> pool_state" where
  "quote_state pool ticks =
     \<lparr>ps_sqrtPrice = pd_currentSqrtPrice pool, ps_sqrtPriceX96 = None, ps_liquidity = pd_totalLiquidity pool,
       pool_state.ps_feeTier = num_of_int (pd_feeTier pool), pool_state.ps_token0 = pt_address (pd_token0 pool),
       pool_state.ps_token1 = pt_address (pd_token1 pool),
       ps_ticks = Some (map (\<lambda>t. \<lparr>ts_tick = ti_index t, ts_sqrtPriceX96 = None\<rparr>) ticks)\<rparr>"

definition token_decimals :: "pool_token \<Rightarrow> nat" where
  "token_decimals t = nat (pt_decimals t)"

definition quote_answer :: "quote_request \<Rightarrow> nat \<Rightarrow> nat \<Rightarrow> local_quote \<Rightarrow> pool_exn + quote_response" where
  "quote_answer dto decimalsIn decimalsOut q =
     (case (bigint_of_string (q_amountOut q), bigint_of_string (q_fee q), bigint_of_string (q_minimumReceived q)) of
        (Some out, Some fee, Some least) \<Rightarrow>
          let amountOut = fromBaseUnits out decimalsOut; amountInFloat = parse_float (qr_amountIn dto);
              executionPrice = (if jlt (Fin 0) amountInFloat then jdiv (num_of_string amountOut) amountInFloat else Fin 0) in
          Inr \<lparr>qq_amountOut = amountOut, qq_priceImpact = q_priceImpact q, qq_lpFee = fromBaseUnits fee decimalsIn,
            qq_minimumReceived = fromBaseUnits least decimalsOut, qq_executionPrice = to_fixed 7 executionPrice\<rparr>
      | _ \<Rightarrow> Inl (Other_Exn ''Cannot convert to a BigInt''))"

text \<open>What is left once the pool is known to be priced: the amount, the ticks, the SDK.\<close>

definition quote_in_pool :: "quote_request \<Rightarrow> pool_detail \<Rightarrow> bool \<Rightarrow> quote_response pl_prog" where
  "quote_in_pool dto pool zeroForOne =
     (let decimalsIn = token_decimals (if zeroForOne then pd_token0 pool else pd_token1 pool);
          decimalsOut = token_decimals (if zeroForOne then pd_token1 pool else pd_token0 pool) in
      case toBaseUnits (qr_amountIn dto) decimalsIn of
        None \<Rightarrow> Ret (Inl (Other_Exn ''Cannot convert to a BigInt''))
      | Some amountInBase \<Rightarrow>
          if amountInBase \<le> 0 then Ret (Inl (invalid_input ''amountIn must be greater than zero''))
          else prog_then (getPoolTicks (qr_poolId dto) None None) (\<lambda>ticks.
            case getSwapQuote (quote_state pool ticks) (qr_tokenIn dto) (AmountBig amountInBase) (qr_slippageBps dto) of
              Inl e \<Rightarrow> Ret (Inl (rule_violation (exn_text e)))
            | Inr q \<Rightarrow> Ret (quote_answer dto decimalsIn decimalsOut q)))"

definition getQuote :: "quote_request \<Rightarrow> quote_response pl_prog" where
  "getQuote dto =
     prog_then (findPoolById (qr_poolId dto)) (\<lambda>found. case found of
       None \<Rightarrow> Ret (Inl (Http_Exn 404 None (''Pool with identifier '' @ [CHR 39] @ qr_poolId dto @ [CHR 39] @ '' was not found'') None None))
     | Some pool \<Rightarrow> (case resolveDirection pool (qr_tokenIn dto) (qr_tokenOut dto) of
         Inl e \<Rightarrow> Ret (Inl e)
       | Inr zeroForOne \<Rightarrow>
           let price = spotPrice (pd_currentSqrtPrice pool) in
           if \<not> is_finite price \<or> jle price (Fin 0) then
             Ret (Inl (rule_violation (''Pool '' @ qr_poolId dto @ '' has no valid price yet'')))
           else quote_in_pool dto pool zeroForOne))"

section \<open>What a quote is answered with\<close>

lemma guarded_all: "meets (\<lambda>_. True) (\<lambda>_ _. True) (\<lambda>_. True) m"
  by (induction m) auto

abbreviation always :: "('a \<Rightarrow> bool) \<Rightarrow> ('c, 'r, 'a) prog \<Rightarrow> bool" where
  "always \<equiv> meets (\<lambda>_. True) (\<lambda>_ _. True)"

lemma always_then_error: "(\<And>y. always isl (f y)) \<Longrightarrow> always isl (prog_then m f)"
  unfolding prog_then_def by (rule meets_bind [OF guarded_all]) (simp split: sum.split)

lemma quote_state_selectors:
  "ps_sqrtPriceX96 (quote_state pool ticks) = None"
  "pool_state.ps_feeTier (quote_state pool ticks) = num_of_int (pd_feeTier pool)"
  "pool_state.ps_token0 (quote_state pool ticks) = pt_address (pd_token0 pool)"
  "pool_state.ps_token1 (quote_state pool ticks) = pt_address (pd_token1 pool)"
  by (simp_all add: quote_state_def)

text \<open>The SDK reads a field that the service does not give it.\<close>

lemma sdk_quote_fails: "isl (getSwapQuote (quote_state pool ticks) tokenIn amount slippage)"
  by (cases "validateSlippage slippage"; cases "validateFeeTier (num_of_int (pd_feeTier pool))";
      cases "toBigIntAmount amount \<le> 0"; cases "direction (quote_state pool ticks) tokenIn")
     (simp_all add: getSwapQuote_def Let_def bigint_of_prop_def quote_state_def)

lemma sdk_quote_undefined:
  assumes "validateSlippage slippage = Inr ()" and "0 < pd_feeTier pool" and "pd_feeTier pool < 2 ^ 53" and "0 < toBigIntAmount amount"
    and "tokenIn = pt_address (pd_token0 pool) \<or> tokenIn = pt_address (pd_token1 pool)"
  shows "getSwapQuote (quote_state pool ticks) tokenIn amount slippage = Inl (TypeError ''Cannot convert undefined to a BigInt'')"
proof -
  have f: "validateFeeTier (num_of_int (pd_feeTier pool)) = Inr ()"
    using assms(2,3) by (simp add: validateFeeTier_def num_of_int_def to_double_of_int jle_def jeq_def)
  obtain z where d: "direction (quote_state pool ticks) tokenIn = Inr z" 
    using assms(5) by (cases "direction (quote_state pool ticks) tokenIn") (auto simp: direction_def quote_state_selectors split: if_splits)
  show ?thesis using assms(1,4) f d by (simp add: getSwapQuote_def Let_def bigint_of_prop_def quote_state_selectors)
qed

lemma quote_in_pool_fails: "always isl (quote_in_pool dto pool z)"
proof -
  have "always isl (case getSwapQuote (quote_state pool ticks) t (AmountBig a) b of
      Inl e \<Rightarrow> Ret (Inl (rule_violation (exn_text e))) | Inr q \<Rightarrow> Ret (quote_answer dto i j q))" for ticks t a b i j
    using sdk_quote_fails [of pool ticks t "AmountBig a" b] by (auto simp: isl_def)
  then show ?thesis by (auto simp: quote_in_pool_def Let_def intro!: always_then_error split: option.split)
qed

lemma getQuote_fails: "always isl (getQuote dto)"
  unfolding getQuote_def
proof (rule always_then_error)
  fix found :: "pool_detail option"
  show "always isl (case found of
      None \<Rightarrow> Ret (Inl (Http_Exn 404 None (''Pool with identifier '' @ [CHR 39] @ qr_poolId dto @ [CHR 39] @ '' was not found'') None None))
    | Some pool \<Rightarrow> (case resolveDirection pool (qr_tokenIn dto) (qr_tokenOut dto) of
        Inl e \<Rightarrow> Ret (Inl e)
      | Inr zeroForOne \<Rightarrow>
          let price = spotPrice (pd_currentSqrtPrice pool) in
          if \<not> is_finite price \<or> jle price (Fin 0) then
            Ret (Inl (rule_violation (''Pool '' @ qr_poolId dto @ '' has no valid price yet'')))
          else quote_in_pool dto pool zeroForOne))"
    by (simp add: quote_in_pool_fails Let_def split: option.split sum.split)
qed

text \<open>C35: However quote requests interleave and whatever the pools, their ticks and the amounts are, no request is ever answered
  with a quote: the service hands the pool's price to the SDK under another name than the SDK reads.\<close>

theorem api_quote_never_succeeds:
  assumes "steps exec drift (map getQuote dtos, s) tr (ts', s')" and "i < length dtos"
  shows "ts' ! i \<noteq> Ret (Inr q)"
proof -
  have "True \<and> (\<forall>i < length ts'. always isl (ts' ! i)) \<and> (\<forall>(i, c, r) \<in> set tr. True)"
    by (rule steps_meets [where I = "\<lambda>_. True" and P = "\<lambda>_. isl", OF assms(1)]) (simp_all add: getQuote_fails)
  moreover have "length ts' = length dtos" using steps_length [OF assms(1)] by simp
  ultimately show ?thesis using assms(2) by auto
qed

text \<open>An instance: a pool that is priced, has liquidity and a tick.\<close>

fun quote_market :: "(pl_call, pl_reply, unit) service" where
  "quote_market (Find_Pool_With_Swaps i) s = (PPoolSwaps (Some
     (\<lparr>pl_id = i, pl_token0 = ''A'', pl_token1 = ''B'', pl_feeTier = 3000, pl_sqrtPrice = ''79228162514264337593543950336'', pl_tick = 0,
        pl_liquidity = ''1000000000'', pl_tvl = ''5'', pl_volume24h = ''0'', pl_feeApr = ''0'', pl_currentPrice = None, pl_active = True,
        pl_createdAt = 0, pl_updatedAt = 0\<rparr>, [])), s)"
| "quote_market (Find_Token_By_Address a) s = (PToken (Some \<lparr>tr_symbol = a, tr_name = a, tr_decimals = 3\<rparr>), s)"
| "quote_market (Get_Ticks k) s = (PTickList None, s)"
| "quote_market (Count_Pools i) s = (PCount 1, s)"
| "quote_market (Find_Tick_Rows i l u) s =
     (PTicks [\<lparr>ti_index = -60, ti_net = ''1000000000'', ti_gross = ''1000000000'', ti_growth0 = ''0'', ti_growth1 = ''0''\<rparr>], s)"
| "quote_market Pool_Clock s = (PTime 0, s)"
| "quote_market _ s = (PDone, s)"

definition demo_request :: quote_request where
  "demo_request = \<lparr>qr_poolId = ''p'', qr_tokenIn = ''A'', qr_tokenOut = ''B'', qr_amountIn = ''2.5'', qr_slippageBps = Fin 50\<rparr>"

lemma demo_quoted: "fst (run quote_market (getQuote demo_request) ()) = Inl (Http_Exn 422 None ''Cannot convert undefined to a BigInt'' None None)"
  by code_simp

theorem api_quote_never_succeeds_witness:
  "fst (run quote_market (getQuote demo_request) ()) = Inl (Http_Exn 422 None ''Cannot convert undefined to a BigInt'' None None) \<and>
   (\<forall>q. fst (run quote_market (getQuote demo_request) ()) \<noteq> Inr q)"
proof -
  obtain tr where st: "steps quote_market (\<lambda>_ _. False) (map getQuote [demo_request], ()) tr
      ([Ret (fst (run quote_market (getQuote demo_request) ()))], snd (run quote_market (getQuote demo_request) ()))"
    using run_steps [of quote_market "\<lambda>_ _. False" "getQuote demo_request" "()"] by auto
  have "[Ret (fst (run quote_market (getQuote demo_request) ()))] ! 0 \<noteq> Ret (Inr q)" for q
    using api_quote_never_succeeds [OF st, where i = 0 and q = q] by simp
  then show ?thesis using demo_quoted by simp
qed

end
