(* ===== verification/Positions.thy ===== *)
theory Positions
  imports Swap_Reads
begin

text \<open>
  The positions of a wallet, \<^verbatim>\<open>apps/api/src/positions\<close>: repository, service and controller. Database and price service are
  calls. Reads that the code starts together are made one after the other. \<^verbatim>\<open>Math.pow\<close> is a parameter, page and limit are
  integers because the request validation rejects anything else.
\<close>

section \<open>Rows\<close>

datatype position_status = Active | Closed

datatype status_filter = Only position_status | All_Positions

record lp_event =
  le_eventId :: string
  le_poolId :: string
  le_amount0 :: string
  le_amount1 :: string
  le_wallet :: string
  le_createdAt :: int

record position_pool =
  pp_token0 :: string
  pp_token1 :: string
  pp_currentPrice :: "string option"
  pp_liquidity :: string
  pp_tvl :: string
  pp_feeTier :: int

record position_with_pool =
  po_id :: string
  po_owner :: string
  po_poolId :: string
  po_tokenId :: string
  po_lowerTick :: int
  po_upperTick :: int
  po_liquidity :: string
  po_createdAt :: int
  po_closedAt :: "int option"
  po_pool :: position_pool

datatype activity_kind = Mint_Event | Burn_Event | Fee_Event

record lp_activity =
  la_id :: string
  la_type :: activity_kind
  la_poolId :: string
  la_token0Symbol :: string
  la_token1Symbol :: string
  la_amount0 :: string
  la_amount1 :: string
  la_txHash :: string
  la_walletAddress :: string
  la_timestamp :: int

record position_snapshot =
  px_id :: string
  px_ownerWallet :: string
  px_poolId :: string
  px_tokenId :: string
  px_token0 :: string
  px_token1 :: string
  px_lowerTick :: int
  px_upperTick :: int
  px_liquidity :: string
  px_currentValueUsd :: jsnum
  px_fees0 :: string
  px_fees1 :: string
  px_createdAt :: int
  px_closedAt :: "int option"
  px_status :: position_status
  px_poolCurrentPrice :: jsnum

datatype po_call =
    Find_Events activity_kind string "string option" nat
  | Find_Pool_Tokens "string list"
  | Find_Symbols "string list"
  | Count_Positions_Where string status_filter "string option"
  | Find_Positions_Page string status_filter "string option" int int
  | Group_Positions "string list" status_filter
  | Find_Positions_Of "string list" status_filter nat
  | Find_Swap_Amounts "string list"
  | Find_Fee_Amounts "string list"
  | Live_Price string

datatype po_reply =
    OErr string
  | OEvents "lp_event list"
  | OPoolTokens "(string \<times> string \<times> string) list"
  | OSymbols "(string \<times> string) list"
  | OCount int
  | OPositions "position_with_pool list"
  | OGroups "(string \<times> int) list"
  | OSwapAmounts "(string \<times> string) list"
  | OFeeAmounts "(string \<times> string \<times> string) list"
  | OPrice "string option"

datatype po_exn = Po_Error string | Forbidden string

type_synonym 'a po_prog = "(po_call, po_reply, po_exn + 'a) prog"

definition po_await :: "po_call \<Rightarrow> (po_reply \<Rightarrow> 'a po_prog) \<Rightarrow> 'a po_prog" where
  "po_await c k = Call c (\<lambda>r. case r of OErr e \<Rightarrow> Ret (Inl (Po_Error e)) | _ \<Rightarrow> k r)"

definition po_odd :: "'a po_prog" where "po_odd = Ret (Inl (Po_Error ''unexpected reply''))"

section \<open>Activity\<close>

definition BULK_POSITIONS_LIMIT :: nat where "BULK_POSITIONS_LIMIT = 500"

definition ACTIVITY_FETCH_LIMIT :: nat where "ACTIVITY_FETCH_LIMIT = 200"

definition find_events :: "activity_kind \<Rightarrow> string \<Rightarrow> string option \<Rightarrow> (lp_event list \<Rightarrow> 'a po_prog) \<Rightarrow> 'a po_prog" where
  "find_events kind wallet pool k =
     po_await (Find_Events kind wallet pool ACTIVITY_FETCH_LIMIT) (\<lambda>r. case r of OEvents es \<Rightarrow> k es | _ \<Rightarrow> po_odd)"

definition symbols_for :: "(string \<times> string \<times> string) list \<Rightarrow> (string \<times> string) list \<Rightarrow> string \<Rightarrow> string \<times> string" where
  "symbols_for pools tokens poolId =
     or_else (jm_get (jm_of_list (map (\<lambda>p. (fst p,
         (symbol_of (symbol_map tokens) (fst (snd p)), symbol_of (symbol_map tokens) (snd (snd p))))) pools)) poolId)
       (''UNKNOWN'', ''UNKNOWN'')"

definition activity_entry :: "(string \<Rightarrow> string \<times> string) \<Rightarrow> activity_kind \<Rightarrow> lp_event \<Rightarrow> lp_activity" where
  "activity_entry symbols kind e =
     \<lparr>la_id = le_eventId e, la_type = kind, la_poolId = le_poolId e, la_token0Symbol = fst (symbols (le_poolId e)),
       la_token1Symbol = snd (symbols (le_poolId e)), la_amount0 = le_amount0 e, la_amount1 = le_amount1 e,
       la_txHash = le_eventId e, la_walletAddress = le_wallet e, la_timestamp = le_createdAt e\<rparr>"

definition activity_feed ::
  "(string \<Rightarrow> string \<times> string) \<Rightarrow> lp_event list \<Rightarrow> lp_event list \<Rightarrow> lp_event list \<Rightarrow> lp_activity list" where
  "activity_feed symbols minted burned fees =
     js_sort (\<lambda>a b. la_timestamp a < la_timestamp b)
       (map (activity_entry symbols Mint_Event) minted @ map (activity_entry symbols Burn_Event) burned @
        map (activity_entry symbols Fee_Event) fees)"

definition listActivityByWallet :: "string \<Rightarrow> string option \<Rightarrow> int \<Rightarrow> int \<Rightarrow> (lp_activity list \<times> int) po_prog" where
  "listActivityByWallet walletAddress pool page limit =
     (let wallet = lower_text walletAddress; poolFilter = trimmed pool in
      find_events Mint_Event wallet poolFilter (\<lambda>minted.
      find_events Burn_Event wallet poolFilter (\<lambda>burned.
      find_events Fee_Event wallet poolFilter (\<lambda>fees.
      po_await (Find_Pool_Tokens (js_distinct (map le_poolId (minted @ burned @ fees)))) (\<lambda>rp. case rp of
        OPoolTokens pools \<Rightarrow>
          po_await (Find_Symbols (js_distinct (concat (map (\<lambda>p. [fst (snd p), snd (snd p)]) pools)))) (\<lambda>rt. case rt of
            OSymbols tokens \<Rightarrow>
              (let entries = activity_feed (symbols_for pools tokens) minted burned fees in
               Ret (Inr (page_of page limit entries, int (length entries))))
          | _ \<Rightarrow> po_odd)
      | _ \<Rightarrow> po_odd)))))"

section \<open>Snapshots\<close>

text \<open>\<^verbatim>\<open>parseFloat(x) || 0\<close>\<close>

definition float_or_zero :: "string \<Rightarrow> jsnum" where
  "float_or_zero s = (case parse_float s of NaN \<Rightarrow> Fin 0 | x \<Rightarrow> x)"

definition pool_swap_volume :: "(string \<times> string) list \<Rightarrow> (string, jsnum) js_map" where
  "pool_swap_volume swaps =
     foldl (\<lambda>m s. jm_set m (fst s) (jadd (or_else (jm_get m (fst s)) (Fin 0)) (jabs (num_of_string (snd s))))) [] swaps"

definition pool_fees_collected :: "(string \<times> string \<times> string) list \<Rightarrow> (string, jsnum \<times> jsnum) js_map" where
  "pool_fees_collected fees =
     foldl (\<lambda>m f. let cur = or_else (jm_get m (fst f)) (Fin 0, Fin 0) in
       jm_set m (fst f) (jadd (fst cur) (jabs (num_of_string (fst (snd f)))), jadd (snd cur) (jabs (num_of_string (snd (snd f)))))) [] fees"

definition liquidity_share :: "position_with_pool \<Rightarrow> jsnum" where
  "liquidity_share p =
     (let poolLiquidity = float_or_zero (pp_liquidity (po_pool p)) in
      if jlt (Fin 0) poolLiquidity then jdiv (float_or_zero (po_liquidity p)) poolLiquidity else Fin 0)"

definition unclaimed0 :: "jsnum \<Rightarrow> jsnum \<Rightarrow> position_with_pool \<Rightarrow> jsnum" where
  "unclaimed0 poolVolume collected0 p =
     jsub (jmul (jmul poolVolume (jdiv (num_of_int (pp_feeTier (po_pool p))) (Fin 1000000))) (liquidity_share p))
       (jmul collected0 (liquidity_share p))"

definition snapshot_of ::
  "(string, string) js_map \<Rightarrow> (string, jsnum) js_map \<Rightarrow> (string, jsnum \<times> jsnum) js_map \<Rightarrow> position_with_pool \<Rightarrow> position_snapshot" where
  "snapshot_of symbols volumes collected p =
     (let pool = po_pool p; col = or_else (jm_get collected (po_poolId p)) (Fin 0, Fin 0);
          volume = or_else (jm_get volumes (po_poolId p)) (Fin 0) in
      \<lparr>px_id = po_id p, px_ownerWallet = po_owner p, px_poolId = po_poolId p, px_tokenId = po_tokenId p,
        px_token0 = symbol_of symbols (pp_token0 pool), px_token1 = symbol_of symbols (pp_token1 pool),
        px_lowerTick = po_lowerTick p, px_upperTick = po_upperTick p, px_liquidity = po_liquidity p,
        px_currentValueUsd =
          (if jlt (Fin 0) (float_or_zero (pp_liquidity pool)) then jmul (liquidity_share p) (float_or_zero (pp_tvl pool)) else Fin 0),
        px_fees0 = num_to_string (jmax (Fin 0) (unclaimed0 volume (fst col) p)),
        px_fees1 = num_to_string (jmax (Fin 0) (jmul (snd col) (liquidity_share p))),
        px_createdAt = po_createdAt p, px_closedAt = po_closedAt p, px_status = (if po_closedAt p = None then Active else Closed),
        px_poolCurrentPrice = parse_float (or_else (pp_currentPrice pool) ''0'')\<rparr>)"

definition toSnapshots :: "position_with_pool list \<Rightarrow> position_snapshot list po_prog" where
  "toSnapshots positions =
     (if positions = [] then Ret (Inr [])
      else po_await (Find_Symbols (js_distinct (concat (map (\<lambda>p. [pp_token0 (po_pool p), pp_token1 (po_pool p)]) positions)))) (\<lambda>rt.
        let poolIds = js_distinct (map po_poolId positions) in
        po_await (Find_Swap_Amounts poolIds) (\<lambda>rs.
        po_await (Find_Fee_Amounts poolIds) (\<lambda>rf.
        case (rt, rs, rf) of
          (OSymbols tokens, OSwapAmounts swaps, OFeeAmounts fees) \<Rightarrow>
            Ret (Inr (map (snapshot_of (symbol_map tokens) (pool_swap_volume swaps) (pool_fees_collected fees)) positions))
        | _ \<Rightarrow> po_odd))))"

section \<open>Lists of positions (\<^verbatim>\<open>positions.repository.ts\<close>)\<close>

definition listPositionsByWallet ::
  "string \<Rightarrow> status_filter \<Rightarrow> string option \<Rightarrow> int \<Rightarrow> int \<Rightarrow> (position_snapshot list \<times> int) po_prog" where
  "listPositionsByWallet walletAddress status pool page limit =
     (let wallet = lower_text walletAddress; poolFilter = trimmed pool in
      po_await (Count_Positions_Where wallet status poolFilter) (\<lambda>rc. case rc of
        OCount tot \<Rightarrow>
          po_await (Find_Positions_Page wallet status poolFilter ((page - 1) * limit) limit) (\<lambda>rp. case rp of
            OPositions positions \<Rightarrow> prog_then (toSnapshots positions) (\<lambda>items. Ret (Inr (items, tot)))
          | _ \<Rightarrow> po_odd)
      | _ \<Rightarrow> po_odd))"

type_synonym wallet_snapshots = "(string, position_snapshot list \<times> int) js_map"

definition set_total :: "wallet_snapshots \<Rightarrow> string \<times> int \<Rightarrow> wallet_snapshots" where
  "set_total m c = (let wallet = lower_text (fst c) in
     case jm_get m wallet of None \<Rightarrow> m | Some e \<Rightarrow> jm_set m wallet (fst e, snd c))"

definition push_item :: "wallet_snapshots \<Rightarrow> position_snapshot \<Rightarrow> wallet_snapshots" where
  "push_item m s = (let wallet = lower_text (px_ownerWallet s) in
     case jm_get m wallet of None \<Rightarrow> m | Some e \<Rightarrow> jm_set m wallet (fst e @ [s], snd e))"

definition listPositionsByWallets :: "string list \<Rightarrow> status_filter \<Rightarrow> wallet_snapshots po_prog" where
  "listPositionsByWallets walletAddresses status =
     (let wallets = js_distinct (map lower_text walletAddresses);
          empty = jm_of_list (map (\<lambda>w. (w, ([], 0))) wallets) in
      if wallets = [] then Ret (Inr empty)
      else po_await (Group_Positions wallets status) (\<lambda>rg.
        po_await (Find_Positions_Of wallets status BULK_POSITIONS_LIMIT) (\<lambda>rp. case (rg, rp) of
          (OGroups counts, OPositions positions) \<Rightarrow>
            prog_then (toSnapshots positions) (\<lambda>snapshots.
              Ret (Inr (foldl push_item (foldl set_total empty counts) snapshots)))
        | _ \<Rightarrow> po_odd)))"

section \<open>The service (\<^verbatim>\<open>positions.service.ts\<close>)\<close>

record position_response =
  pn_snapshot :: position_snapshot
  pn_poolCurrentPrice :: jsnum
  pn_rangeStatus :: "bool option"

record 'a listing =
  ls_items :: "'a list"
  ls_page :: int
  ls_limit :: int
  ls_total :: int
  ls_totalPages :: jsnum

text \<open>Whether a position is in its range.\<close>

definition getRangeStatus :: "(jsnum \<Rightarrow> jsnum \<Rightarrow> jsnum) \<Rightarrow> jsnum \<Rightarrow> int \<Rightarrow> int \<Rightarrow> bool" where
  "getRangeStatus pow currentPrice lowerTick upperTick =
     (let lowerPrice = pow (to_double (10001 / 10000)) (num_of_int lowerTick);
          upperPrice = pow (to_double (10001 / 10000)) (num_of_int upperTick) in
      jlt lowerPrice currentPrice \<and> jlt currentPrice upperPrice)"

definition position_response_of ::
  "(jsnum \<Rightarrow> jsnum \<Rightarrow> jsnum) \<Rightarrow> position_snapshot \<Rightarrow> string option \<Rightarrow> position_response" where
  "position_response_of pow p live =
     (let currentPrice = (case live of Some t \<Rightarrow> parse_float t | None \<Rightarrow> px_poolCurrentPrice p) in
      \<lparr>pn_snapshot = p, pn_poolCurrentPrice = currentPrice,
        pn_rangeStatus = (if px_status p = Active then Some (getRangeStatus pow currentPrice (px_lowerTick p) (px_upperTick p)) else None)\<rparr>)"

definition toPositionResponse :: "(jsnum \<Rightarrow> jsnum \<Rightarrow> jsnum) \<Rightarrow> position_snapshot \<Rightarrow> position_response po_prog" where
  "toPositionResponse pow p =
     po_await (Live_Price (px_poolId p)) (\<lambda>r. case r of
       OPrice live \<Rightarrow> Ret (Inr (position_response_of pow p live))
     | _ \<Rightarrow> po_odd)"

fun prog_map :: "('b \<Rightarrow> ('c, 'r, 'e + 'a) prog) \<Rightarrow> 'b list \<Rightarrow> ('c, 'r, 'e + 'a list) prog" where
  "prog_map f [] = Ret (Inr [])"
| "prog_map f (x # xs) = prog_then (f x) (\<lambda>y. prog_then (prog_map f xs) (\<lambda>ys. Ret (Inr (y # ys))))"

definition getPositions ::
  "(jsnum \<Rightarrow> jsnum \<Rightarrow> jsnum) \<Rightarrow> string \<Rightarrow> status_filter option \<Rightarrow> string option \<Rightarrow> int option \<Rightarrow> int option \<Rightarrow> position_response listing po_prog" where
  "getPositions pow walletAddress status pool page0 limit0 =
     (let page = or_else page0 1; limit = or_else limit0 20 in
      prog_then (listPositionsByWallet walletAddress (or_else status All_Positions) (trimmed pool) page limit) (\<lambda>x.
      prog_then (prog_map (toPositionResponse pow) (fst x)) (\<lambda>mapped.
      Ret (Inr \<lparr>ls_items = mapped, ls_page = page, ls_limit = limit, ls_total = snd x, ls_totalPages = page_count (snd x) limit\<rparr>))))"

definition wallet_result ::
  "(jsnum \<Rightarrow> jsnum \<Rightarrow> jsnum) \<Rightarrow> wallet_snapshots \<Rightarrow> string \<Rightarrow> (string \<times> position_response list \<times> int) po_prog" where
  "wallet_result pow byWallet wallet =
     (let entry = or_else (jm_get byWallet (lower_text wallet)) ([], 0) in
      prog_then (prog_map (toPositionResponse pow) (fst entry)) (\<lambda>items. Ret (Inr (wallet, items, snd entry))))"

definition getBulkPositions ::
  "(jsnum \<Rightarrow> jsnum \<Rightarrow> jsnum) \<Rightarrow> string list \<Rightarrow> status_filter option \<Rightarrow> (string, position_response list \<times> int) js_map po_prog" where
  "getBulkPositions pow wallets status =
     prog_then (listPositionsByWallets wallets (or_else status All_Positions)) (\<lambda>byWallet.
     prog_then (prog_map (wallet_result pow byWallet) wallets) (\<lambda>rs. Ret (Inr (jm_of_list rs))))"

definition getLpActivity :: "string \<Rightarrow> string option \<Rightarrow> int option \<Rightarrow> int option \<Rightarrow> lp_activity listing po_prog" where
  "getLpActivity walletAddress pool page0 limit0 =
     (let page = or_else page0 1; limit = or_else limit0 20 in
      prog_then (listActivityByWallet walletAddress (trimmed pool) page limit) (\<lambda>x.
      Ret (Inr \<lparr>ls_items = fst x, ls_page = page, ls_limit = limit, ls_total = snd x, ls_totalPages = page_count (snd x) limit\<rparr>)))"

section \<open>Controller\<close>

definition bulk_endpoint ::
  "(jsnum \<Rightarrow> jsnum \<Rightarrow> jsnum) \<Rightarrow> string \<Rightarrow> string list \<Rightarrow> status_filter option \<Rightarrow> (string, position_response list \<times> int) js_map po_prog" where
  "bulk_endpoint pow walletAddress wallets status =
     (if list_ex (\<lambda>w. lower_text w \<noteq> lower_text walletAddress) wallets
      then Ret (Inl (Forbidden ''Can only fetch positions for the authenticated wallet''))
      else getBulkPositions pow wallets status)"

end
