(* ===== verification/Positions_Laws.thy ===== *)
theory Positions_Laws
  imports Positions
begin

text \<open>
  What the positions endpoints answer: the bulk request gives its caller exactly the caller's positions, and the pages of the
  activity feed are a partition of it.
\<close>

section \<open>Results of programs\<close>

text \<open>\<open>gives may P m\<close>: with replies that \<open>may\<close> allows, \<open>m\<close> fails or returns a value with \<open>P\<close>.\<close>

abbreviation gives :: "('c \<Rightarrow> 'r \<Rightarrow> bool) \<Rightarrow> ('a \<Rightarrow> bool) \<Rightarrow> ('c, 'r, 'e + 'a) prog \<Rightarrow> bool" where
  "gives may P m \<equiv> meets (\<lambda>_. True) may (\<lambda>x. \<forall>y. x = Inr y \<longrightarrow> P y) m"

lemma gives_then: "gives may P m \<Longrightarrow> (\<And>y. P y \<Longrightarrow> gives may Q (f y)) \<Longrightarrow> gives may Q (prog_then m f)"
  unfolding prog_then_def by (rule meets_bind [where P = "\<lambda>x. \<forall>y. x = Inr y \<longrightarrow> P y"]) (auto split: sum.split)

lemma meets_feed:
  "meets ok may P m \<Longrightarrow> feed m lg = Some m' \<Longrightarrow> (\<And>c r. (c, r) \<in> set lg \<Longrightarrow> may c r) \<Longrightarrow> meets ok may P m'"
proof (induction m arbitrary: lg)
  case (Call c k)
  show ?case
  proof (cases lg)
    case (Cons e rest)
    then obtain r where e: "e = (c, r)" and f: "feed (k r) rest = Some m'"
      using Call.prems(2) by (cases e) (auto split: if_splits)
    have "may c r" using Call.prems(3) Cons e by simp
    then have "meets ok may P (k r)" using Call.prems(1) by simp
    then show ?thesis using Call.IH [OF rangeI _ f] Call.prems(3) Cons by simp
  qed (use Call.prems in auto)
qed (auto split: if_splits)

lemma steps_gives:
  fixes m :: "('c, 'r, 'e + 'a) prog" and x :: "'e + 'a"
  assumes st: "steps exec drift ([m], s) tr ([Ret x], s')" and g: "gives may P m"
    and may: "\<And>i c r. (i, c, r) \<in> set tr \<Longrightarrow> may c r" and x: "x = Inr y"
  shows "P y"
proof -
  have "feed m (events_of 0 tr) = Some (Ret x)" using steps_feed [OF st, of 0] by simp
  then have "gives may P (Ret x :: ('c, 'r, 'e + 'a) prog)"
    by (rule meets_feed [OF g]) (auto dest: events_of_in intro: may)
  then show ?thesis using x by simp
qed

lemma gives_map:
  assumes "\<And>x. gives may (Q x) (f x)"
  shows "gives may (list_all2 Q xs) (prog_map f xs)"
proof (induction xs)
  case (Cons x xs)
  show ?case unfolding prog_map.simps
  proof (rule gives_then [where P = "Q x", OF assms])
    fix y assume "Q x y"
    show "gives may (list_all2 Q (x # xs)) (prog_then (prog_map f xs) (\<lambda>ys. Ret (Inr (y # ys))))"
      by (rule gives_then [where P = "list_all2 Q xs", OF Cons.IH]) (simp add: \<open>Q x y\<close>)
  qed
qed simp

lemma gives_await: "(\<And>r. may c r \<Longrightarrow> gives may P (k r)) \<Longrightarrow> gives may P (po_await c k)"
  by (simp add: po_await_def split: po_reply.split)

lemma gives_odd: "gives may P po_odd"
  by (simp add: po_odd_def)

section \<open>Maps\<close>

lemma jm_of_list_get: "jm_get (jm_of_list kvs) k = map_of (rev kvs) k"
  unfolding jm_of_list_def by (induction kvs rule: rev_induct) auto

lemma jm_of_list_keys: "fst ` set (jm_of_list kvs) = fst ` set kvs"
  unfolding jm_of_list_def by (induction kvs rule: rev_induct) (auto simp: jm_set_keys)

lemma map_of_constant: "map_of (map (\<lambda>w. (w, e)) xs) k = (if k \<in> set xs then Some e else None)"
  by (induction xs) auto

lemma js_distinct_set: "set (js_distinct xs) = set xs"
  unfolding js_distinct_def by (induction xs rule: rev_induct) auto

lemma push_items: "jm_get (foldl push_item m ss) w =
    map_option (\<lambda>e. (fst e @ filter (\<lambda>s. lower_text (px_ownerWallet s) = w) ss, snd e)) (jm_get m w)"
  by (induction ss arbitrary: m) (auto simp: push_item_def Let_def option.map_ident split: option.splits)

lemma set_totals: "jm_get (foldl set_total m cs) w =
    map_option (\<lambda>e. (fst e, last (snd e # map snd (filter (\<lambda>c. lower_text (fst c) = w) cs)))) (jm_get m w)"
  by (induction cs arbitrary: m) (auto simp: set_total_def Let_def option.map_ident split: option.splits)

section \<open>The bulk request\<close>

definition has_status :: "status_filter \<Rightarrow> position_with_pool \<Rightarrow> bool" where
  "has_status st p = (case st of All_Positions \<Rightarrow> True | Only Active \<Rightarrow> po_closedAt p = None | Only Closed \<Rightarrow> po_closedAt p \<noteq> None)"

definition owned_by :: "string \<Rightarrow> position_with_pool \<Rightarrow> bool" where
  "owned_by wallet p = (lower_text (po_owner p) = lower_text wallet)"

definition wanted :: "string list \<Rightarrow> status_filter \<Rightarrow> position_with_pool \<Rightarrow> bool" where
  "wanted wallets st p = (lower_text (po_owner p) \<in> set wallets \<and> has_status st p)"

text \<open>
  What the database may answer to the two reads of the bulk request: they are separate queries, so the table may hold the rows
  \<open>counted\<close> when the groups are counted and the rows \<open>listed\<close>, newest first, when the list is read. Everything else may be
  answered in any way, and any read may fail.
\<close>

definition position_groups :: "position_with_pool list \<Rightarrow> (string \<times> int) set" where
  "position_groups W = (\<lambda>p. (po_owner p, int (length (filter (\<lambda>q. po_owner q = po_owner p) W)))) ` set W"

definition answers_from :: "position_with_pool list \<Rightarrow> position_with_pool list \<Rightarrow> po_call \<Rightarrow> po_reply \<Rightarrow> bool" where
  "answers_from counted listed c r =
     (case (c, r) of
        (Group_Positions ws st, OGroups gs) \<Rightarrow> set gs = position_groups (filter (wanted ws st) counted)
      | (Find_Positions_Of ws st n, OPositions ps) \<Rightarrow> ps = take n (filter (wanted ws st) listed)
      | _ \<Rightarrow> True)"

definition one_spelling :: "position_with_pool list \<Rightarrow> bool" where
  "one_spelling rows = (\<forall>p \<in> set rows. \<forall>q \<in> set rows. lower_text (po_owner p) = lower_text (po_owner q) \<longrightarrow> po_owner p = po_owner q)"

lemma snapshot_selectors [simp]:
  "px_id (snapshot_of sy v c p) = po_id p" "px_ownerWallet (snapshot_of sy v c p) = po_owner p"
  by (simp_all add: snapshot_of_def Let_def)

lemma some_snapshots: "\<exists>sy v c. map (snapshot_of sy' v' c') ps = map (snapshot_of sy v c) ps"
  by blast

lemma toSnapshots_gives: "gives may (\<lambda>ss. \<exists>sy v c. ss = map (snapshot_of sy v c) ps) (toSnapshots ps)"
  by (auto simp: toSnapshots_def Let_def gives_odd some_snapshots simp del: map_eq_conv intro!: gives_await split: po_reply.split)

text \<open>The number the database reports of a wallet.\<close>

lemma group_total:
  assumes "one_spelling W" and "set gs = position_groups W"
  shows "last (0 # map snd (filter (\<lambda>c. lower_text (fst c) = w) gs)) = int (length (filter (\<lambda>p. lower_text (po_owner p) = w) W))"
proof (cases "filter (\<lambda>c. lower_text (fst c) = w) gs")
  case Nil
  then have "filter (\<lambda>p. lower_text (po_owner p) = w) W = []"
    using assms(2) by (force simp: filter_empty_conv position_groups_def)
  then show ?thesis using Nil by simp
next
  case (Cons c cs)
  let ?G = "filter (\<lambda>c. lower_text (fst c) = w) gs"
  have "last ?G \<in> set ?G" by (rule last_in_set) (simp add: Cons)
  then have g: "last ?G \<in> position_groups W" "lower_text (fst (last ?G)) = w" using assms(2) by auto
  then obtain p where p: "p \<in> set W" "last ?G = (po_owner p, int (length (filter (\<lambda>q. po_owner q = po_owner p) W)))"
    unfolding position_groups_def by blast
  have "filter (\<lambda>q. po_owner q = po_owner p) W = filter (\<lambda>q. lower_text (po_owner q) = w) W"
  proof (rule filter_cong [OF refl])
    fix q assume "q \<in> set W"
    then show "(po_owner q = po_owner p) = (lower_text (po_owner q) = w)"
      using assms(1) p g(2) unfolding one_spelling_def by auto
  qed
  moreover have "last (0 # map snd ?G) = snd (last ?G)" using Cons by (simp add: last_map)
  ultimately show ?thesis using p(2) by simp
qed

text \<open>What the repository collects of a wallet.\<close>

definition collected_for :: "position_with_pool list \<Rightarrow> position_with_pool list \<Rightarrow> status_filter \<Rightarrow> string \<Rightarrow> position_snapshot list \<times> int \<Rightarrow> bool" where
  "collected_for counted listed st wallet e =
     (map px_id (fst e) = map po_id (filter (\<lambda>p. owned_by wallet p \<and> has_status st p) listed) \<and>
      snd e = int (length (filter (\<lambda>p. owned_by wallet p \<and> has_status st p) counted)))"

lemma by_wallets_gives:
  assumes "one_spelling counted" and "length (filter (wanted (map lower_text ws) st) listed) \<le> 500"
  shows "gives (answers_from counted listed) (\<lambda>m. \<forall>w \<in> set ws. \<exists>e. jm_get m (lower_text w) = Some e \<and> collected_for counted listed st w e)
    (listPositionsByWallets ws st)"
proof -
  let ?ws = "js_distinct (map lower_text ws)"
  let ?empty = "jm_of_list (map (\<lambda>w. (w, ([] :: position_snapshot list, 0 :: int))) ?ws)"
  let ?W = "filter (wanted ?ws st) counted" and ?L = "filter (wanted ?ws st) listed"
  have ws: "set ?ws = lower_text ` set ws" by (simp add: js_distinct_set)
  then have wanted: "wanted ?ws st = wanted (map lower_text ws) st" by (simp add: wanted_def fun_eq_iff)
  have small: "take 500 ?L = ?L" using assms(2) by (simp add: wanted)
  have spelling: "one_spelling ?W" using assms(1) by (simp add: one_spelling_def)
  have start: "jm_get ?empty (lower_text w) = Some ([], 0)" if "w \<in> set ws" for w
  proof -
    have "lower_text w \<in> set ?ws" using that ws by simp
    then show ?thesis by (simp add: jm_of_list_get rev_map map_of_constant)
  qed
  have result: "\<exists>e. jm_get (foldl push_item (foldl set_total ?empty gs) (map (snapshot_of sy v c) ?L)) (lower_text w) = Some e \<and>
      collected_for counted listed st w e" if "w \<in> set ws" and "set gs = position_groups ?W" for w gs sy v c
  proof -
    have f: "filter (\<lambda>p. lower_text (po_owner p) = lower_text w) (filter (wanted ?ws st) rows) =
        filter (\<lambda>p. owned_by w p \<and> has_status st p) rows" for rows
      using that(1) ws by (auto simp: wanted_def owned_by_def intro!: filter_cong)
    have "last (0 # map snd (filter (\<lambda>c. lower_text (fst c) = lower_text w) gs)) =
        int (length (filter (\<lambda>p. owned_by w p \<and> has_status st p) counted))"
      using group_total [OF spelling that(2), of "lower_text w"] f by simp
    then show ?thesis
      using start [OF that(1)] f by (simp add: push_items set_totals collected_for_def filter_map o_def del: last.simps)
  qed
  let ?P = "\<lambda>m. \<forall>w \<in> set ws. \<exists>e. jm_get m (lower_text w) = Some e \<and> collected_for counted listed st w e"
  have cont: "gives (answers_from counted listed) ?P (case (rg, rp) of
        (OGroups counts, OPositions positions) \<Rightarrow>
          prog_then (toSnapshots positions) (\<lambda>snapshots. Ret (Inr (foldl push_item (foldl set_total ?empty counts) snapshots)))
      | _ \<Rightarrow> po_odd)"
    if "answers_from counted listed (Group_Positions ?ws st) rg" and "answers_from counted listed (Find_Positions_Of ?ws st BULK_POSITIONS_LIMIT) rp" for rg rp
  proof (cases "\<exists>gs ps. rg = OGroups gs \<and> rp = OPositions ps")
    case True
    then obtain gs ps where r: "rg = OGroups gs" "rp = OPositions ps" by blast
    then have a: "set gs = position_groups ?W" "ps = ?L"
      using that small by (simp_all add: answers_from_def BULK_POSITIONS_LIMIT_def)
    have "gives (answers_from counted listed) ?P (prog_then (toSnapshots ps) (\<lambda>snapshots.
        Ret (Inr (foldl push_item (foldl set_total ?empty gs) snapshots))))"
      by (rule gives_then [OF toSnapshots_gives]) (use result [OF _ a(1)] a(2) in auto)
    then show ?thesis by (simp add: r)
  next
    case False
    then show ?thesis by (auto simp: gives_odd split: po_reply.split)
  qed
  show ?thesis
  proof (cases "?ws = []")
    case True
    then have "ws = []" using ws by simp
    then show ?thesis by (simp add: listPositionsByWallets_def Let_def js_distinct_def)
  next
    case False
    then show ?thesis unfolding listPositionsByWallets_def Let_def if_not_P [OF False] by (intro gives_await cont)
  qed
qed

lemma toPositionResponse_gives: "gives may (\<lambda>y. pn_snapshot y = x) (toPositionResponse pow x)"
  by (auto simp: toPositionResponse_def position_response_of_def Let_def gives_odd intro!: gives_await split: po_reply.split)

lemma responses_snapshots: "list_all2 (\<lambda>x y. pn_snapshot y = x) xs ys \<Longrightarrow> map pn_snapshot ys = xs"
  by (induction rule: list_all2_induct) auto

definition answered_for :: "position_with_pool list \<Rightarrow> position_with_pool list \<Rightarrow> status_filter \<Rightarrow> string \<Rightarrow> position_response list \<times> int \<Rightarrow> bool" where
  "answered_for counted listed st wallet v =
     (map (px_id \<circ> pn_snapshot) (fst v) = map po_id (filter (\<lambda>p. owned_by wallet p \<and> has_status st p) listed) \<and>
      snd v = int (length (filter (\<lambda>p. owned_by wallet p \<and> has_status st p) counted)))"

lemma wallet_result_gives:
  assumes "jm_get m (lower_text w) = Some e" and "collected_for counted listed st w e"
  shows "gives may (\<lambda>x. fst x = w \<and> answered_for counted listed st w (snd x)) (wallet_result pow m w)"
proof -
  have "gives may (\<lambda>x. fst x = w \<and> answered_for counted listed st w (snd x))
      (prog_then (prog_map (toPositionResponse pow) (fst e)) (\<lambda>items. Ret (Inr (w, items, snd e))))"
  proof (rule gives_then [OF gives_map [where Q = "\<lambda>x y. pn_snapshot y = x", OF toPositionResponse_gives]])
    fix items :: "position_response list" assume "list_all2 (\<lambda>x y. pn_snapshot y = x) (fst e) items"
    then have i: "map pn_snapshot items = fst e" by (rule responses_snapshots)
    then have "length items = length (fst e)" by (metis length_map)
    moreover have "map (px_id \<circ> pn_snapshot) items = map px_id (fst e)" using i by (metis map_map)
    ultimately have "answered_for counted listed st w (items, snd e)"
      using assms(2) unfolding answered_for_def collected_for_def by simp
    then show "gives may (\<lambda>x. fst x = w \<and> answered_for counted listed st w (snd x)) (Ret (Inr (w, items, snd e)))" by simp
  qed
  then show ?thesis by (simp add: wallet_result_def assms(1))
qed

lemma wallets_answered:
  assumes "list_all2 (\<lambda>w x. fst x = w \<and> (w \<in> set ws \<longrightarrow> answered_for counted listed st w (snd x))) ws rs"
  shows "fst ` set (jm_of_list rs) = set ws \<and> (\<forall>w \<in> set ws. \<exists>v. jm_get (jm_of_list rs) w = Some v \<and> answered_for counted listed st w v)"
proof -
  have keys: "map fst rs = ws" using assms by (auto simp: list_all2_conv_all_nth intro: nth_equalityI)
  have good: "answered_for counted listed st k v" if "(k, v) \<in> set rs" for k v
  proof -
    from that obtain i where i: "i < length rs" "rs ! i = (k, v)" by (auto simp: in_set_conv_nth)
    then have "fst (rs ! i) = ws ! i" "i < length ws" "ws ! i \<in> set ws \<longrightarrow> answered_for counted listed st (ws ! i) (snd (rs ! i))"
      using assms by (auto simp: list_all2_conv_all_nth)
    then show ?thesis using i by simp
  qed
  have "\<exists>v. jm_get (jm_of_list rs) w = Some v \<and> answered_for counted listed st w v" if "w \<in> set ws" for w
  proof -
    have "w \<in> fst ` set (rev rs)" using that keys by (metis list.set_map set_rev)
    then obtain v where v: "map_of (rev rs) w = Some v" by (metis map_of_eq_None_iff not_None_eq)
    then have "(w, v) \<in> set rs" using map_of_SomeD by fastforce
    then show ?thesis using good v by (auto simp: jm_of_list_get)
  qed
  moreover have "fst ` set (jm_of_list rs) = set ws" using keys by (metis jm_of_list_keys list.set_map)
  ultimately show ?thesis by simp
qed

lemma getBulkPositions_gives:
  assumes "one_spelling counted" and "length (filter (wanted (map lower_text ws) (or_else st All_Positions)) listed) \<le> 500"
  shows "gives (answers_from counted listed) (\<lambda>m. fst ` set m = set ws \<and>
      (\<forall>w \<in> set ws. \<exists>v. jm_get m w = Some v \<and> answered_for counted listed (or_else st All_Positions) w v))
    (getBulkPositions pow ws st)"
  unfolding getBulkPositions_def
proof (rule gives_then [OF by_wallets_gives [OF assms]])
  fix m assume m: "\<forall>w \<in> set ws. \<exists>e. jm_get m (lower_text w) = Some e \<and> collected_for counted listed (or_else st All_Positions) w e"
  have each: "gives (answers_from counted listed) (\<lambda>x. fst x = w \<and> (w \<in> set ws \<longrightarrow> answered_for counted listed (or_else st All_Positions) w (snd x)))
      (wallet_result pow m w)" for w
  proof (cases "w \<in> set ws")
    case True
    then obtain e where "jm_get m (lower_text w) = Some e" "collected_for counted listed (or_else st All_Positions) w e" using m by blast
    then have "gives (answers_from counted listed) (\<lambda>x. fst x = w \<and> answered_for counted listed (or_else st All_Positions) w (snd x)) (wallet_result pow m w)"
      by (rule wallet_result_gives)
    then show ?thesis using True by simp
  next
    case False
    have "gives (answers_from counted listed) (\<lambda>x. fst x = w) (wallet_result pow m w)"
      unfolding wallet_result_def Let_def
      by (rule gives_then [OF gives_map [where Q = "\<lambda>x y. pn_snapshot y = x", OF toPositionResponse_gives]]) simp
    then show ?thesis using False by simp
  qed
  show "gives (answers_from counted listed) (\<lambda>m. fst ` set m = set ws \<and>
      (\<forall>w \<in> set ws. \<exists>v. jm_get m w = Some v \<and> answered_for counted listed (or_else st All_Positions) w v))
    (prog_then (prog_map (wallet_result pow m) ws) (\<lambda>rs. Ret (Inr (jm_of_list rs))))"
  proof (rule gives_then [OF gives_map [OF each]])
    fix rs assume "list_all2 (\<lambda>w x. fst x = w \<and> (w \<in> set ws \<longrightarrow> answered_for counted listed (or_else st All_Positions) w (snd x))) ws rs"
    from wallets_answered [OF this]
    show "gives (answers_from counted listed) (\<lambda>m. fst ` set m = set ws \<and>
        (\<forall>w \<in> set ws. \<exists>v. jm_get m w = Some v \<and> answered_for counted listed (or_else st All_Positions) w v)) (Ret (Inr (jm_of_list rs)))"
      by (simp only: meets.simps sum.inject) blast
  qed
qed

text \<open>C15: A bulk request is answered only for wallets that are its caller's. In the answer is an entry for each of them with
  exactly the caller's positions of the asked status that the table held when the list was read, newest first, and the number
  of those it held when the groups were counted. Conditions: the caller has at most 500 such positions, which is the limit of
  the list, and when the groups are counted each address is spelled in one way in the table. Prices may arrive in any way and
  any read may fail.\<close>

theorem bulk_positions_exact:
  assumes "steps exec drift ([bulk_endpoint pow caller wallets status], s) tr ([Ret (Inr m)], s')"
    and "\<And>i c r. (i, c, r) \<in> set tr \<Longrightarrow> answers_from counted listed c r"
    and "one_spelling counted"
    and "length (filter (\<lambda>p. owned_by caller p \<and> has_status (or_else status All_Positions) p) listed) \<le> 500"
  shows "fst ` set m = set wallets \<and> (\<forall>w \<in> set wallets. lower_text w = lower_text caller \<and>
    (\<exists>items. jm_get m w =
         Some (items, int (length (filter (\<lambda>p. owned_by caller p \<and> has_status (or_else status All_Positions) p) counted))) \<and>
       map (px_id \<circ> pn_snapshot) items =
       map po_id (filter (\<lambda>p. owned_by caller p \<and> has_status (or_else status All_Positions) p) listed)))"
proof -
  let ?st = "or_else status All_Positions"
  let ?P = "\<lambda>m. (\<forall>w \<in> set wallets. lower_text w = lower_text caller) \<and> fst ` set m = set wallets \<and>
    (\<forall>w \<in> set wallets. \<exists>v. jm_get m w = Some v \<and> answered_for counted listed ?st w v)"
  have g: "gives (answers_from counted listed) ?P (bulk_endpoint pow caller wallets status)"
  proof (cases "\<forall>w \<in> set wallets. lower_text w = lower_text caller")
    case True
    have "wanted (map lower_text wallets) ?st p \<Longrightarrow> owned_by caller p \<and> has_status ?st p" for p
      using True by (auto simp: wanted_def owned_by_def)
    then have "length (filter (wanted (map lower_text wallets) ?st) listed) \<le>
        length (filter (\<lambda>p. owned_by caller p \<and> has_status ?st p) listed)"
      by (induction listed) (auto intro: le_SucI)
    then have "length (filter (wanted (map lower_text wallets) ?st) listed) \<le> 500" using assms(4) by simp
    then have "gives (answers_from counted listed) (\<lambda>m. fst ` set m = set wallets \<and>
        (\<forall>w \<in> set wallets. \<exists>v. jm_get m w = Some v \<and> answered_for counted listed ?st w v)) (getBulkPositions pow wallets status)"
      by (rule getBulkPositions_gives [OF assms(3)])
    then show ?thesis using True by (simp add: bulk_endpoint_def list_ex_iff)
  qed (simp add: bulk_endpoint_def list_ex_iff)
  have m: "?P m" by (rule steps_gives [OF assms(1) g assms(2) refl])
  have "\<exists>items. jm_get m w = Some (items, int (length (filter (\<lambda>p. owned_by caller p \<and> has_status ?st p) counted))) \<and>
      map (px_id \<circ> pn_snapshot) items = map po_id (filter (\<lambda>p. owned_by caller p \<and> has_status ?st p) listed)"
    if w: "w \<in> set wallets" for w
  proof -
    obtain v where v: "jm_get m w = Some v" "answered_for counted listed ?st w v"
      using bspec [OF conjunct2 [OF conjunct2 [OF m]] w] by (elim exE conjE)
    have "lower_text w = lower_text caller" by (rule bspec [OF conjunct1 [OF m] w])
    then have "owned_by w = owned_by caller" by (simp add: owned_by_def fun_eq_iff)
    then show ?thesis using v by (cases v) (simp add: answered_for_def)
  qed
  then show ?thesis by (intro conjI ballI conjunct1 [OF conjunct2 [OF m]] bspec [OF conjunct1 [OF m]])
qed

text \<open>An instance: two owners, one of them with an open and a closed position.\<close>

definition demo_position :: "string \<Rightarrow> string \<Rightarrow> int option \<Rightarrow> position_with_pool" where
  "demo_position i owner ended =
     \<lparr>po_id = i, po_owner = owner, po_poolId = ''p'', po_tokenId = i, po_lowerTick = -60, po_upperTick = 60, po_liquidity = ''50'',
       po_createdAt = 0, po_closedAt = ended,
       po_pool = \<lparr>pp_token0 = ''A'', pp_token1 = ''B'', pp_currentPrice = None, pp_liquidity = ''100'', pp_tvl = ''10'', pp_feeTier = 3000\<rparr>\<rparr>"

definition demo_positions :: "position_with_pool list" where
  "demo_positions = [demo_position ''1'' ''GA'' None, demo_position ''2'' ''GB'' None, demo_position ''3'' ''GA'' (Some 5)]"

fun demo_answers :: "(po_call, po_reply, unit) service" where
  "demo_answers (Group_Positions ws st) s =
     (OGroups (js_distinct (map (\<lambda>p. (po_owner p, int (length (filter (\<lambda>q. po_owner q = po_owner p) (filter (wanted ws st) demo_positions)))))
        (filter (wanted ws st) demo_positions))), s)"
| "demo_answers (Find_Positions_Of ws st n) s = (OPositions (take n (filter (wanted ws st) demo_positions)), s)"
| "demo_answers (Find_Symbols as) s = (OSymbols [(''a'', ''AAA'')], s)"
| "demo_answers (Find_Swap_Amounts ps) s = (OSwapAmounts [(''p'', ''1000'')], s)"
| "demo_answers (Find_Fee_Amounts ps) s = (OFeeAmounts [], s)"
| "demo_answers (Live_Price p) s = (OPrice None, s)"
| "demo_answers _ s = (OErr ''down'', s)"

definition demo_bulk :: "(string, position_response list \<times> int) js_map po_prog" where
  "demo_bulk = bulk_endpoint (\<lambda>x y. x) ''GA'' [''ga'', ''GA''] (Some (Only Active))"

lemma demo_bulk_run:
  "(case fst (run demo_answers demo_bulk ()) of
      Inl e \<Rightarrow> False | Inr m \<Rightarrow> map (\<lambda>(k, v). (k, map (px_id \<circ> pn_snapshot) (fst v), snd v)) m = [(''ga'', [''1''], 1), (''GA'', [''1''], 1)])"
  by code_simp

lemma demo_answers_from: "demo_answers c s = (r, s') \<Longrightarrow> answers_from demo_positions demo_positions c r"
  by (cases c) (auto simp: answers_from_def position_groups_def js_distinct_set)

lemma steps_replies:
  "steps exec drift (ts, s) tr (ts', s') \<Longrightarrow> (i, c, r) \<in> set tr \<Longrightarrow> \<exists>s1 s2. exec c s1 = (r, s2)"
  by (induction "(ts, s)" tr "(ts', s')" arbitrary: ts' s' rule: steps.induct) auto

theorem bulk_positions_exact_witness:
  "\<exists>m items. fst (run demo_answers demo_bulk ()) = Inr m \<and> jm_get m ''GA'' = Some (items, 1) \<and>
     map (px_id \<circ> pn_snapshot) items = [''1'']"
proof -
  obtain m where m: "fst (run demo_answers demo_bulk ()) = Inr m" using demo_bulk_run by (auto split: sum.splits)
  obtain tr where st: "steps demo_answers (\<lambda>_ _. False) ([bulk_endpoint (\<lambda>x y. x) ''GA'' [''ga'', ''GA''] (Some (Only Active))], ()) tr
      ([Ret (Inr m)], snd (run demo_answers demo_bulk ()))"
    using run_steps [of demo_answers "\<lambda>_ _. False" demo_bulk "()"] m by (auto simp: demo_bulk_def)
  have a: "answers_from demo_positions demo_positions c r" if "(i, c, r) \<in> set tr" for i c r
    using steps_replies [OF st that] demo_answers_from by blast
  have o: "one_spelling demo_positions" by code_simp
  have mine: "filter (\<lambda>p. owned_by ''GA'' p \<and> has_status (or_else (Some (Only Active)) All_Positions) p) demo_positions =
      [demo_position ''1'' ''GA'' None]" by code_simp
  have "\<forall>w \<in> set [''ga'', ''GA'']. \<exists>items. jm_get m w = Some (items, 1) \<and>
      map (px_id \<circ> pn_snapshot) items = map po_id [demo_position ''1'' ''GA'' None]"
    using bulk_positions_exact [OF st a o] unfolding mine by simp
  then show ?thesis using m by (auto simp: demo_position_def)
qed

section \<open>The activity feed\<close>

lemma sort_insert_by_key:
  fixes key :: "'a \<Rightarrow> int"
  shows "sorted_wrt (\<lambda>a b. key b \<le> key a) xs \<Longrightarrow> sorted_wrt (\<lambda>a b. key b \<le> key a) (sort_insert (\<lambda>a b. key a < key b) x xs)"
proof (induction xs)
  case (Cons y ys)
  have "set (sort_insert (\<lambda>a b. key a < key b) x ys) = insert x (set ys)"
    using sort_insert_mset [of "\<lambda>a b. key a < key b" x ys] by (metis set_mset_add_mset_insert set_mset_mset)
  then show ?case using Cons by force
qed simp

lemma js_sort_by_key:
  fixes key :: "'a \<Rightarrow> int"
  shows "sorted_wrt (\<lambda>a b. key b \<le> key a) (js_sort (\<lambda>a b. key a < key b) xs)"
  unfolding js_sort_def by (induction xs) (simp_all add: sort_insert_by_key)

text \<open>
  The feed is in order of time, newest first, and its pages, while the tables stay as they are, give it once and whole; it
  holds at most 200 events of each kind.
\<close>

lemma activity_feed_pages:
  fixes minted burned fees :: "lp_event list" and pools :: "(string \<times> string \<times> string) list" and tokens :: "(string \<times> string) list"
  defines "entries \<equiv> activity_feed (symbols_for pools tokens) minted burned fees"
  assumes "\<And>c. fst (exec c s) = (case c of
      Find_Events Mint_Event _ _ n \<Rightarrow> OEvents (take n minted) | Find_Events Burn_Event _ _ n \<Rightarrow> OEvents (take n burned)
    | Find_Events Fee_Event _ _ n \<Rightarrow> OEvents (take n fees) | Find_Pool_Tokens _ \<Rightarrow> OPoolTokens pools | _ \<Rightarrow> OSymbols tokens)"
    and "\<And>c. snd (exec c s) = s" and "length minted \<le> 200" and "length burned \<le> 200" and "length fees \<le> 200"
    and "1 \<le> limit" and "limit \<le> 100" and "page_count (int (length entries)) limit = Fin (of_nat n)"
  shows "concat (map (\<lambda>i. fst (projr (fst (run exec (listActivityByWallet wallet pool (int (Suc i)) limit) s)))) [0..<n]) = entries \<and>
    sorted_wrt (\<lambda>a b. la_timestamp b \<le> la_timestamp a) entries"
proof -
  have e: "exec c s = (r, s')" if "fst (exec c s) = r" "s' = s" for c r s'
    using that assms(3) by (metis prod.collapse)
  have page: "fst (run exec (listActivityByWallet wallet pool (int (Suc i)) limit) s) =
      Inr (page_of (int (Suc i)) limit entries, int (length entries))" for i
    using assms(4,5,6) by (simp add: listActivityByWallet_def Let_def find_events_def po_await_def e [OF assms(2) refl]
      ACTIVITY_FETCH_LIMIT_def entries_def)
  have len: "length entries < 2 ^ 53" using assms(4-6) by (simp add: entries_def activity_feed_def)
  have "total_pages (int (length entries)) limit = Fin (of_nat n)"
    using assms(7-9) total_pages_exact [of 0 limit] by (cases "length entries = 0") (simp_all add: page_count_def)
  then have "concat (map (\<lambda>i. page_of (int (Suc i)) limit entries) [0..<n]) = entries"
    using pages_cover [of limit entries n] len assms(7,8) by simp
  moreover have "sorted_wrt (\<lambda>a b. la_timestamp b \<le> la_timestamp a) entries"
    unfolding entries_def activity_feed_def by (rule js_sort_by_key)
  ultimately show ?thesis by (simp only: page) simp
qed

end
