(* ===== verification/Compression.thy ===== *)
theory Compression
  imports Swap_Reads "HOL-Library.Word"
begin

text \<open>
  Response compression, \<^verbatim>\<open>apps/api/src/compression.middleware.ts\<close>: the configuration, the choice of an encoding, and the
  wrapped \<^verbatim>\<open>write\<close> and \<^verbatim>\<open>end\<close> of a response as operations on what is buffered and what was sent. The encoders are a
  parameter; what the handler has set on the response when it ends it is an argument.
\<close>

section \<open>Configuration\<close>

record compression_config =
  cc_enabled :: bool
  cc_level :: int
  cc_minBytes :: int
  cc_maxBufferBytes :: int
  cc_excluded :: "string list"

definition COMPRESSION_DEFAULTS :: compression_config where
  "COMPRESSION_DEFAULTS = \<lparr>cc_enabled = True, cc_level = 6, cc_minBytes = 1024, cc_maxBufferBytes = 5 * 1024 * 1024,
     cc_excluded = [''/health'', ''/auth'', ''/v1/auth'']\<rparr>"

definition intInRange :: "string option \<Rightarrow> int \<Rightarrow> int \<Rightarrow> int \<Rightarrow> int" where
  "intInRange raw lo hi fallback =
     (case raw of None \<Rightarrow> fallback
      | Some s \<Rightarrow> if trim s = [] then fallback
          else (case num_of_string s of
              Fin x \<Rightarrow> if is_integer (Fin x) \<and> of_int lo \<le> x \<and> x \<le> of_int hi then \<lfloor>x\<rfloor> else fallback
            | _ \<Rightarrow> fallback))"

definition resolveCompressionConfig :: "(string \<Rightarrow> string option) \<Rightarrow> compression_config" where
  "resolveCompressionConfig env =
     \<lparr>cc_enabled = (map_option (\<lambda>s. lower_text (trim s)) (env ''COMPRESSION_ENABLED'') \<noteq> Some ''false''),
       cc_level = intInRange (env ''COMPRESSION_LEVEL'') 1 9 (cc_level COMPRESSION_DEFAULTS),
       cc_minBytes = intInRange (env ''COMPRESSION_MIN_BYTES'') 0 (cc_maxBufferBytes COMPRESSION_DEFAULTS) (cc_minBytes COMPRESSION_DEFAULTS),
       cc_maxBufferBytes = intInRange (env ''COMPRESSION_MAX_BUFFER_BYTES'') 1024 (64 * 1024 * 1024) (cc_maxBufferBytes COMPRESSION_DEFAULTS),
       cc_excluded = cc_excluded COMPRESSION_DEFAULTS @
         filter (starts_with ''/'') (map trim (split_on (CHR '','') (or_else (env ''COMPRESSION_EXCLUDED_PATHS'') [])))\<rparr>"

section \<open>Choosing an encoding\<close>

datatype content_coding = Br | Gzip

definition q_weight :: "string list \<Rightarrow> jsnum" where
  "q_weight params = foldl (\<lambda>weight param.
     let kv = split_on (CHR ''='') (trim param) in
     if hd kv = ''q'' then
       (let parsed = (case tl kv of [] \<Rightarrow> NaN | v # _ \<Rightarrow> num_of_string v) in
        if is_finite parsed then jmin (jmax parsed (Fin 0)) (Fin 1) else Fin 0)
     else weight) (Fin 1) params"

definition accept_weights :: "string \<Rightarrow> (string, jsnum) js_map" where
  "accept_weights raw = foldl (\<lambda>q entry.
     let parts = split_on (CHR '';'') (lower_text (trim entry)) in
     if hd parts = [] then q else jm_set q (hd parts) (q_weight (tl parts)))
     [] (take 32 (split_on (CHR '','') (take 1024 raw)))"

definition weight_of :: "(string, jsnum) js_map \<Rightarrow> string \<Rightarrow> jsnum" where
  "weight_of q name = or_else (jm_get q name) (or_else (jm_get q ''*'') (Fin 0))"

definition negotiateEncoding :: "string option \<Rightarrow> content_coding option" where
  "negotiateEncoding header =
     (let q = accept_weights (or_else header []); br = weight_of q ''br''; gz = weight_of q ''gzip'' in
      if jle br (Fin 0) \<and> jle gz (Fin 0) then None else if jle gz br then Some Br else Some Gzip)"

definition ends_with :: "string \<Rightarrow> string \<Rightarrow> bool" where
  "ends_with t s = (length t \<le> length s \<and> drop (length s - length t) s = t)"

definition isCompressible :: "string option \<Rightarrow> bool" where
  "isCompressible contentType =
     (case contentType of None \<Rightarrow> False
      | Some c \<Rightarrow> if c = [] then False else
          (let t = lower_text (trim (hd (split_on (CHR '';'') c))) in
           if t = ''text/event-stream'' then False
           else starts_with ''text/'' t \<or> t = ''application/json'' \<or> ends_with ''+json'' t \<or> t = ''application/javascript'' \<or>
             t = ''application/xml'' \<or> ends_with ''+xml'' t \<or> t = ''image/svg+xml''))"

section \<open>The response\<close>

datatype compression_outcome =
    Compressed_Br | Compressed_Gzip | Skipped_Disabled | Skipped_Excluded | Skipped_Not_Accepted | Skipped_Small
  | Skipped_Type | Skipped_Encoded | Skipped_No_Transform | Skipped_No_Body | Skipped_Oversize | Error_Fallback

type_synonym bytes = "8 word list"

text \<open>What the handler has set when it ends the response.\<close>

record response_head =
  rh_status :: int
  rh_headersSent :: bool
  rh_contentEncoding :: "string option"
  rh_cacheControl :: "string option"
  rh_contentType :: "string option"

text \<open>\<^verbatim>\<open>/(^|,)\s*no-transform\s*(,|$)/i\<close>\<close>

definition says_no_transform :: "string \<Rightarrow> bool" where
  "says_no_transform cacheControl = list_ex (\<lambda>p. lower_text (trim p) = ''no-transform'') (split_on (CHR '','') cacheControl)"

definition skipReason :: "compression_config \<Rightarrow> response_head \<Rightarrow> bytes \<Rightarrow> compression_outcome option" where
  "skipReason cfg res body =
     (if body = [] \<or> rh_status res = 204 \<or> rh_status res = 304 \<or> rh_status res < 200 then Some Skipped_No_Body
      else if rh_headersSent res then Some Skipped_Encoded
      else if or_else (rh_contentEncoding res) [] \<noteq> [] \<and> rh_contentEncoding res \<noteq> Some ''identity'' then Some Skipped_Encoded
      else if says_no_transform (or_else (rh_cacheControl res) []) then Some Skipped_No_Transform
      else if \<not> isCompressible (rh_contentType res) then Some Skipped_Type
      else if int (length body) < cc_minBytes cfg then Some Skipped_Small
      else None)"

record wrapped_response =
  wr_chunks :: "bytes list"
  wr_buffered :: nat
  wr_passthrough :: bool
  wr_sent :: bytes
  wr_coding :: "content_coding option"
  wr_length :: "nat option"
  wr_outcomes :: "compression_outcome list"

definition fresh_response :: wrapped_response where
  "fresh_response = \<lparr>wr_chunks = [], wr_buffered = 0, wr_passthrough = False, wr_sent = [], wr_coding = None, wr_length = None, wr_outcomes = []\<rparr>"

definition compression_inc :: "compression_outcome \<Rightarrow> wrapped_response \<Rightarrow> wrapped_response" where
  "compression_inc o1 r = r\<lparr>wr_outcomes := wr_outcomes r @ [o1]\<rparr>"

text \<open>The originals, and the switch to them.\<close>

definition original_write :: "bytes \<Rightarrow> wrapped_response \<Rightarrow> wrapped_response" where
  "original_write b r = r\<lparr>wr_sent := wr_sent r @ b\<rparr>"

definition switchToPassthrough :: "wrapped_response \<Rightarrow> wrapped_response" where
  "switchToPassthrough r =
     (let r1 = compression_inc Skipped_Oversize (r\<lparr>wr_passthrough := True\<rparr>);
          r2 = (if wr_chunks r1 \<noteq> [] then original_write (concat (wr_chunks r1)) r1 else r1) in
      r2\<lparr>wr_chunks := []\<rparr>)"

definition wrapped_write :: "compression_config \<Rightarrow> bytes \<Rightarrow> wrapped_response \<Rightarrow> wrapped_response" where
  "wrapped_write cfg chunk r =
     (if wr_passthrough r then original_write chunk r
      else (let r1 = r\<lparr>wr_chunks := wr_chunks r @ [chunk], wr_buffered := wr_buffered r + length chunk\<rparr> in
        if cc_maxBufferBytes cfg < int (wr_buffered r1) then switchToPassthrough r1 else r1))"

text \<open>
  The end of a response: \<open>chunk\<close> is the last piece, if any; \<open>late\<close> tells whether something else sent the head while the
  encoder ran.
\<close>

definition wrapped_end ::
  "(content_coding \<Rightarrow> int \<Rightarrow> bytes \<Rightarrow> bytes option) \<Rightarrow> compression_config \<Rightarrow> content_coding \<Rightarrow> response_head \<Rightarrow> bool \<Rightarrow> bytes option \<Rightarrow>
   wrapped_response \<Rightarrow> wrapped_response" where
  "wrapped_end compress cfg coding res late chunk r =
     (if wr_passthrough r then original_write (or_else chunk []) r
      else (let body = concat (wr_chunks r @ (case chunk of None \<Rightarrow> [] | Some c \<Rightarrow> [c])) in
        case skipReason cfg res body of
          Some skip \<Rightarrow> original_write body (compression_inc skip r)
        | None \<Rightarrow> (case compress coding (if coding = Br then min (cc_level cfg) 11 else cc_level cfg) body of
            None \<Rightarrow> original_write body (compression_inc Error_Fallback r)
          | Some out \<Rightarrow>
              (let r1 = compression_inc (if coding = Br then Compressed_Br else Compressed_Gzip) r;
                   r2 = (if late then r1 else r1\<lparr>wr_coding := Some coding, wr_length := Some (length out)\<rparr>) in
               original_write out r2))))"

section \<open>The middleware\<close>

record compression_request =
  cq_upgrade :: "string option"
  cq_method :: string
  cq_path :: string
  cq_acceptEncoding :: "string option"

definition excluded_path :: "compression_config \<Rightarrow> string \<Rightarrow> bool" where
  "excluded_path cfg path = list_ex (\<lambda>prefix. path = prefix \<or> starts_with (prefix @ ''/'') path) (cc_excluded cfg)"

text \<open>\<open>Inl\<close>: the response is left as it is, with the outcome that is counted. \<open>Inr\<close>: it is wrapped for an encoding.\<close>

definition compression_choice :: "compression_config \<Rightarrow> compression_request \<Rightarrow> compression_outcome option + content_coding" where
  "compression_choice cfg req =
     (if \<not> cc_enabled cfg then Inl (Some Skipped_Disabled)
      else if cq_upgrade req = Some ''websocket'' \<or> cq_method req = ''HEAD'' then Inl None
      else if excluded_path cfg (cq_path req) then Inl (Some Skipped_Excluded)
      else (case negotiateEncoding (cq_acceptEncoding req) of None \<Rightarrow> Inl (Some Skipped_Not_Accepted) | Some e \<Rightarrow> Inr e))"

definition compression_use ::
  "(content_coding \<Rightarrow> int \<Rightarrow> bytes \<Rightarrow> bytes option) \<Rightarrow> compression_config \<Rightarrow> compression_request \<Rightarrow> bytes list \<Rightarrow> bytes option \<Rightarrow>
   response_head \<Rightarrow> bool \<Rightarrow> wrapped_response" where
  "compression_use compress cfg req writes last_chunk res late =
     (case compression_choice cfg req of
        Inl outcome \<Rightarrow>
          original_write (or_else last_chunk [])
            (fold original_write writes (case outcome of None \<Rightarrow> fresh_response | Some o1 \<Rightarrow> compression_inc o1 fresh_response))
      | Inr coding \<Rightarrow> wrapped_end compress cfg coding res late last_chunk (fold (wrapped_write cfg) writes fresh_response))"

section \<open>Nothing is lost\<close>

definition whole :: "bytes list \<Rightarrow> bytes option \<Rightarrow> bytes" where
  "whole writes last_chunk = concat writes @ or_else last_chunk []"

text \<open>What a client reads of a response.\<close>

definition received :: "(content_coding \<Rightarrow> bytes \<Rightarrow> bytes) \<Rightarrow> wrapped_response \<Rightarrow> bytes" where
  "received decompress r = (case wr_coding r of None \<Rightarrow> wr_sent r | Some e \<Rightarrow> decompress e (wr_sent r))"

text \<open>While the handler writes: what was sent and what is buffered make up what was written, and the buffer is bounded.\<close>

definition writing :: "compression_config \<Rightarrow> bytes \<Rightarrow> wrapped_response \<Rightarrow> bool" where
  "writing cfg written r =
     (wr_sent r @ concat (wr_chunks r) = written \<and> wr_coding r = None \<and>
      (if wr_passthrough r then wr_chunks r = [] else wr_sent r = [] \<and> wr_buffered r = length written \<and>
         int (length (concat (wr_chunks r))) \<le> cc_maxBufferBytes cfg))"

lemma writing_fresh: "0 \<le> cc_maxBufferBytes cfg \<Longrightarrow> writing cfg [] fresh_response"
  by (simp add: writing_def fresh_response_def)

lemma writing_write: "writing cfg written r \<Longrightarrow> writing cfg (written @ chunk) (wrapped_write cfg chunk r)"
  by (auto simp: writing_def wrapped_write_def original_write_def switchToPassthrough_def compression_inc_def Let_def)

lemma writing_writes: "writing cfg written r \<Longrightarrow> writing cfg (written @ concat writes) (fold (wrapped_write cfg) writes r)"
proof (induction writes arbitrary: written r)
  case (Cons c cs)
  then show ?case using Cons.IH [OF writing_write [OF Cons.prems]] by simp
qed simp

lemma original_writes: "fold original_write writes r = r\<lparr>wr_sent := wr_sent r @ concat writes\<rparr>"
  by (induction writes arbitrary: r) (simp_all add: original_write_def)

lemma wrapped_end_received:
  assumes "writing cfg (concat writes) r" and "\<And>e l b z. compress e l b = Some z \<Longrightarrow> decompress e z = b" and "\<not> late"
  shows "received decompress (wrapped_end compress cfg coding res late last_chunk r) = whole writes last_chunk"
proof (cases "wr_passthrough r")
  case True
  then show ?thesis using assms(1) by (auto simp: wrapped_end_def original_write_def received_def whole_def writing_def)
next
  case False
  let ?body = "concat (wr_chunks r @ (case last_chunk of None \<Rightarrow> [] | Some c \<Rightarrow> [c]))"
  have body: "?body = whole writes last_chunk" and r: "wr_sent r = []" "wr_coding r = None"
    using assms(1) False by (auto simp: writing_def whole_def split: option.split)
  show ?thesis
  proof (cases "skipReason cfg res ?body")
    case (Some skip)
    then show ?thesis using False r body by (simp add: wrapped_end_def original_write_def received_def compression_inc_def Let_def)
  next
    case None
    let ?level = "if coding = Br then min (cc_level cfg) 11 else cc_level cfg"
    show ?thesis
    proof (cases "compress coding ?level ?body")
      case None
      then show ?thesis using \<open>skipReason cfg res ?body = None\<close> False r body
        by (simp add: wrapped_end_def original_write_def received_def compression_inc_def Let_def)
    next
      case (Some out)
      then have "decompress coding out = whole writes last_chunk" using assms(2) body by metis
      then show ?thesis using \<open>skipReason cfg res ?body = None\<close> Some False r assms(3)
        by (simp add: wrapped_end_def original_write_def received_def compression_inc_def Let_def)
    qed
  qed
qed

text \<open>When a response is encoded.\<close>

lemma wrapped_end_coded:
  assumes "writing cfg (concat writes) r"
    and "wr_coding (wrapped_end compress cfg coding res late last_chunk r) = Some e"
  shows "e = coding \<and> skipReason cfg res (whole writes last_chunk) = None \<and>
    wr_length (wrapped_end compress cfg coding res late last_chunk r) = Some (length (wr_sent (wrapped_end compress cfg coding res late last_chunk r)))"
proof (cases "wr_passthrough r")
  case True
  then show ?thesis using assms by (simp add: wrapped_end_def original_write_def writing_def)
next
  case False
  have "concat (wr_chunks r @ (case last_chunk of None \<Rightarrow> [] | Some c \<Rightarrow> [c])) = whole writes last_chunk" "wr_sent r = []" "wr_coding r = None"
    using assms(1) False by (auto simp: writing_def whole_def split: option.split)
  then show ?thesis using assms(2) False
    by (simp add: wrapped_end_def original_write_def compression_inc_def Let_def split: option.splits if_splits)
qed

lemma excluded_path_mono: "set (cc_excluded a) \<subseteq> set (cc_excluded b) \<Longrightarrow> excluded_path a path \<Longrightarrow> excluded_path b path"
  by (auto simp: excluded_path_def list_ex_iff)

lemma intInRange_bounds: "lo \<le> hi \<Longrightarrow> lo \<le> d \<Longrightarrow> d \<le> hi \<Longrightarrow> lo \<le> intInRange raw lo hi d \<and> intInRange raw lo hi d \<le> hi"
  by (auto simp: intInRange_def le_floor_iff floor_le_iff split: option.split jsnum.split intro: order_le_less_trans)

lemma config_bounds:
  fixes env :: "string \<Rightarrow> string option"
  defines "cfg \<equiv> resolveCompressionConfig env"
  shows "1 \<le> cc_level cfg" "cc_level cfg \<le> 9" "0 \<le> cc_minBytes cfg" "1024 \<le> cc_maxBufferBytes cfg"
    "set (cc_excluded COMPRESSION_DEFAULTS) \<subseteq> set (cc_excluded cfg)"
  using intInRange_bounds [of 1 9 6 "env ''COMPRESSION_LEVEL''"]
    intInRange_bounds [of 0 "5 * 1024 * 1024" 1024 "env ''COMPRESSION_MIN_BYTES''"]
    intInRange_bounds [of 1024 "64 * 1024 * 1024" "5 * 1024 * 1024" "env ''COMPRESSION_MAX_BUFFER_BYTES''"]
  by (simp_all add: cfg_def resolveCompressionConfig_def COMPRESSION_DEFAULTS_def)

text \<open>C23: Under every configuration of the environment and for every way a handler writes its response, a client that undoes the
  encoding the middleware announces reads exactly the bytes the handler wrote, even if the encoder fails. An encoded response
  was accepted in that encoding, carries the length of what was sent, has a compressible type, did not ask for no-transform
  and is not on one of the paths that are excluded by default. Conditions: decoding undoes the encoders, and nothing else
  sends the head of the response while the encoder runs.\<close>

theorem compression_transparent:
  assumes "\<And>e l b z. compress e l b = Some z \<Longrightarrow> decompress e z = b"
    and "r = compression_use compress (resolveCompressionConfig env) req writes last_chunk res False"
  shows "received decompress r = whole writes last_chunk \<and>
    (\<forall>e. wr_coding r = Some e \<longrightarrow> negotiateEncoding (cq_acceptEncoding req) = Some e \<and> wr_length r = Some (length (wr_sent r)) \<and>
      isCompressible (rh_contentType res) \<and> \<not> says_no_transform (or_else (rh_cacheControl res) []) \<and>
      \<not> excluded_path COMPRESSION_DEFAULTS (cq_path req))"
proof (intro conjI allI impI)
  let ?cfg = "resolveCompressionConfig env"
  let ?w = "fold (wrapped_write ?cfg) writes fresh_response"
  have w: "writing ?cfg (concat writes) ?w"
    using writing_writes [OF writing_fresh, of ?cfg writes] config_bounds(4) [of env] by simp
  show "received decompress r = whole writes last_chunk"
  proof (cases "compression_choice ?cfg req")
    case (Inl outcome)
    then show ?thesis
      by (cases outcome) (simp_all add: assms(2) compression_use_def original_writes original_write_def received_def whole_def
        fresh_response_def compression_inc_def)
  next
    case (Inr coding)
    have "received decompress (wrapped_end compress ?cfg coding res False last_chunk ?w) = whole writes last_chunk"
      by (rule wrapped_end_received [where compress = compress and decompress = decompress, OF w assms(1)]) simp_all
    then show ?thesis using Inr by (simp add: assms(2) compression_use_def)
  qed
  fix e assume e: "wr_coding r = Some e"
  have "negotiateEncoding (cq_acceptEncoding req) = Some e \<and> wr_length r = Some (length (wr_sent r)) \<and>
      isCompressible (rh_contentType res) \<and> \<not> says_no_transform (or_else (rh_cacheControl res) []) \<and>
      \<not> excluded_path COMPRESSION_DEFAULTS (cq_path req)"
  proof (cases "compression_choice ?cfg req")
    case (Inl outcome)
    then show ?thesis using e
      by (cases outcome) (simp_all add: assms(2) compression_use_def original_writes original_write_def fresh_response_def compression_inc_def)
  next
    case (Inr coding)
    then have r: "r = wrapped_end compress ?cfg coding res False last_chunk ?w" by (simp add: assms(2) compression_use_def)
    then have c: "e = coding" "skipReason ?cfg res (whole writes last_chunk) = None" "wr_length r = Some (length (wr_sent r))"
      using wrapped_end_coded [OF w, of compress coding res False last_chunk e] e by simp_all
    have choice: "negotiateEncoding (cq_acceptEncoding req) = Some coding" "\<not> excluded_path ?cfg (cq_path req)"
      using Inr by (auto simp: compression_choice_def split: if_splits option.splits)
    then have "\<not> excluded_path COMPRESSION_DEFAULTS (cq_path req)"
      using excluded_path_mono [OF config_bounds(5)] by blast
    then show ?thesis using c choice by (auto simp: skipReason_def split: if_splits)
  qed
  then show "negotiateEncoding (cq_acceptEncoding req) = Some e" "wr_length r = Some (length (wr_sent r))"
    "isCompressible (rh_contentType res)" "\<not> says_no_transform (or_else (rh_cacheControl res) [])"
    "\<not> excluded_path COMPRESSION_DEFAULTS (cq_path req)" by simp_all
qed

text \<open>An instance: an encoder that reverses, two writes and an end.\<close>

definition demo_compressed :: wrapped_response where
  "demo_compressed = compression_use (\<lambda>e l b. Some (rev b))
     (resolveCompressionConfig (\<lambda>k. if k = ''COMPRESSION_MIN_BYTES'' then Some ''2'' else None))
     \<lparr>cq_upgrade = None, cq_method = ''GET'', cq_path = ''/v1/pools'', cq_acceptEncoding = Some ''gzip;q=0.5, br''\<rparr>
     [[1, 2], [3]] (Some [4])
     \<lparr>rh_status = 200, rh_headersSent = False, rh_contentEncoding = None, rh_cacheControl = None,
       rh_contentType = Some ''application/json; charset=utf-8''\<rparr> False"

lemma demo_compressed_br: "wr_coding demo_compressed = Some Br"
  by code_simp

theorem compression_transparent_witness:
  "wr_coding demo_compressed = Some Br \<and> received (\<lambda>e. rev) demo_compressed = [1, 2, 3, 4] \<and> wr_length demo_compressed = Some (length (wr_sent demo_compressed))"
proof -
  have "received (\<lambda>e. rev) demo_compressed = whole [[1, 2], [3]] (Some [4]) \<and>
      wr_length demo_compressed = Some (length (wr_sent demo_compressed))"
    using compression_transparent [OF _ demo_compressed_def, of "\<lambda>e. rev"] demo_compressed_br by auto
  then show ?thesis using demo_compressed_br by (simp add: whole_def)
qed

end
