(* ===== verification/Admin_Audit.thy ===== *)
theory Admin_Audit
  imports Swap_Reads Positions_Laws
begin

text \<open>
  The administration's audit log, \<^verbatim>\<open>admin-audit.service.ts\<close> and \<^verbatim>\<open>admin-audit.interceptor.ts\<close>, and the trading switch of a
  pool. The store, the memory of seen keys, the clock and the handler are calls; fresh ids and the text of a time are
  parameters.
\<close>

section \<open>Records\<close>

datatype audit_code = Audit_Unauthorized | Audit_Forbidden | Audit_Invalid_Input | Audit_Dependency | Audit_Duplicate

record audit_actor =
  aa_id :: string
  aa_role :: string
  aa_expiresAt :: "int option"

record audit_request =
  aq_actor :: "audit_actor option"
  aq_action :: json
  aq_target :: "string option"
  aq_idempotencyKey :: json
  aq_correlationId :: "string option"
  aq_metadata :: "(string \<times> json) list option"

record audit_record =
  ar_correlationId :: string
  ar_actorId :: string
  ar_actorRole :: string
  ar_action :: string
  ar_target :: "string option"
  ar_network :: string
  ar_idempotencyKey :: string
  ar_metadata :: "(string \<times> json) list option"
  ar_timestamp :: string

record log_input =
  li_actor :: string
  li_action :: string
  li_resource :: "string option"
  li_meta :: "json option"
  li_ip :: "string option"
  li_statusCode :: "int option"

text \<open>Calls: the table, the memory of the service, the clock; in the interceptor also a write that is not waited for and the
  handler behind it.\<close>

datatype au_call =
    Audit_Clock
  | Key_Seen string
  | Persist_Record audit_record
  | Remember string audit_record
  | Push_Record audit_record
  | Create_Row string string string string "string option" "int option"
  | Find_Rows jsnum jsnum
  | Start_Log log_input
  | Run_Handler

datatype au_reply = AErr | ADone | ABool bool | ATime int | ARows "string list" | AResult "int option + int"

text \<open>An audit error with its code and correlation id, or any other error.\<close>

datatype audit_exn = Audit_Exn audit_code string | Audit_Other

type_synonym 'a au_prog = "(au_call, au_reply, audit_exn + 'a) prog"

definition au_clock :: "(int \<Rightarrow> 'a au_prog) \<Rightarrow> 'a au_prog" where
  "au_clock k = Call Audit_Clock (\<lambda>r. case r of ATime t \<Rightarrow> k t | _ \<Rightarrow> Ret (Inl Audit_Other))"

section \<open>The service\<close>

definition ADMIN_AUDIT_ALLOWED_ROLES :: "string list" where
  "ADMIN_AUDIT_ALLOWED_ROLES = [''admin'', ''superadmin'', ''auditor'']"

definition ADMIN_AUDIT_ALLOWED_NETWORKS :: "string list" where
  "ADMIN_AUDIT_ALLOWED_NETWORKS = [''testnet'', ''futurenet'', ''mainnet'']"

definition resolveNetwork :: "string option \<Rightarrow> string option \<Rightarrow> string" where
  "resolveNetwork configured env = lower_text (or_else configured (or_else env ''testnet''))"

text \<open>The actor is checked for its id, its expiry and its role, in this order; the clock is read only where there is an expiry.\<close>

definition assertAuthorized :: "audit_actor option \<Rightarrow> string \<Rightarrow> unit au_prog" where
  "assertAuthorized actor cid =
     (case actor of None \<Rightarrow> Ret (Inl (Audit_Exn Audit_Unauthorized cid))
      | Some a \<Rightarrow>
          if aa_id a = [] then Ret (Inl (Audit_Exn Audit_Unauthorized cid))
          else (let roles = (if aa_role a \<in> set ADMIN_AUDIT_ALLOWED_ROLES then Ret (Inr ()) else Ret (Inl (Audit_Exn Audit_Forbidden cid))) in
            case aa_expiresAt a of None \<Rightarrow> roles
            | Some e \<Rightarrow> au_clock (\<lambda>now. if e \<le> now then Ret (Inl (Audit_Exn Audit_Unauthorized cid)) else roles)))"

fun text_of :: "json \<Rightarrow> string" where
  "text_of (JStr s) = s"
| "text_of _ = []"

definition valid_action :: "json \<Rightarrow> bool" where
  "valid_action v = (text_of v \<noteq> [] \<and> length (text_of v) \<le> 128)"

definition REDACTED_KEYS :: "string list" where
  "REDACTED_KEYS = [''secret'', ''token'', ''password'', ''key'', ''authorization'']"

definition secret_key :: "string \<Rightarrow> bool" where
  "secret_key k = list_ex (text_includes (lower_text k)) REDACTED_KEYS"

definition sanitizeMetadata :: "(string \<times> json) list option \<Rightarrow> (string \<times> json) list option" where
  "sanitizeMetadata metadata =
     map_option (map (\<lambda>kv. if secret_key (fst kv) then (fst kv, JStr ''[REDACTED]'') else kv)) metadata"

definition audit_record_of :: "(int \<Rightarrow> string) \<Rightarrow> audit_request \<Rightarrow> audit_actor \<Rightarrow> string \<Rightarrow> string \<Rightarrow> int \<Rightarrow> audit_record" where
  "audit_record_of date_text request actor cid network t =
     \<lparr>ar_correlationId = cid, ar_actorId = aa_id actor, ar_actorRole = aa_role actor, ar_action = text_of (aq_action request),
       ar_target = aq_target request, ar_network = network, ar_idempotencyKey = text_of (aq_idempotencyKey request),
       ar_metadata = sanitizeMetadata (aq_metadata request), ar_timestamp = date_text t\<rparr>"

text \<open>What follows the checks: the record is persisted, then its key is remembered.\<close>

definition store_record :: "audit_record \<Rightarrow> audit_record au_prog" where
  "store_record rec0 =
     Call (Persist_Record rec0) (\<lambda>r.
       if r = AErr then Ret (Inl (Audit_Exn Audit_Dependency (ar_correlationId rec0)))
       else Call (Remember (ar_idempotencyKey rec0) rec0) (\<lambda>_. Ret (Inr rec0)))"

text \<open>The checks of the input, the network and the key.\<close>

definition record_checked :: "(int \<Rightarrow> string) \<Rightarrow> string \<Rightarrow> string \<Rightarrow> audit_request \<Rightarrow> audit_record au_prog" where
  "record_checked date_text network cid q =
     (if \<not> valid_action (aq_action q) then Ret (Inl (Audit_Exn Audit_Invalid_Input cid))
      else if text_of (aq_idempotencyKey q) = [] then Ret (Inl (Audit_Exn Audit_Invalid_Input cid))
      else if network \<notin> set ADMIN_AUDIT_ALLOWED_NETWORKS then Ret (Inl (Audit_Exn Audit_Forbidden cid))
      else Call (Key_Seen (text_of (aq_idempotencyKey q))) (\<lambda>r.
        if r \<noteq> ABool False then Ret (Inl (Audit_Exn Audit_Duplicate cid))
        else au_clock (\<lambda>t. store_record (audit_record_of date_text q (the (aq_actor q)) cid network t))))"

definition record_audit :: "(int \<Rightarrow> string) \<Rightarrow> string \<Rightarrow> string \<Rightarrow> audit_request \<Rightarrow> audit_record au_prog" where
  "record_audit date_text network fresh q =
     (let cid = or_else (aq_correlationId q) fresh in
      prog_then (assertAuthorized (aq_actor q) cid) (\<lambda>_. record_checked date_text network cid q))"

text \<open>The general log: one row, or a record in memory where there is no table. \<^verbatim>\<open>JSON.stringify\<close> and \<^verbatim>\<open>JSON.parse\<close> are
  parameters.\<close>

definition log_row :: "(json \<Rightarrow> string) \<Rightarrow> log_input \<Rightarrow> au_call" where
  "log_row stringify i =
     Create_Row (li_actor i) (li_action i) (or_else (li_resource i) ''admin'')
       (case li_meta i of Some (JStr s) \<Rightarrow> s | m \<Rightarrow> stringify (or_else (json_coalesce [m]) (JObj []))) (li_ip i) (li_statusCode i)"

definition log_audit :: "(json \<Rightarrow> string) \<Rightarrow> log_input \<Rightarrow> unit au_prog" where
  "log_audit stringify i = Call (log_row stringify i) (\<lambda>r. if r = AErr then Ret (Inl Audit_Other) else Ret (Inr ()))"

definition findRecent :: "jsnum \<Rightarrow> jsnum \<Rightarrow> string list au_prog" where
  "findRecent limit offset =
     (let l = (if limit = NaN \<or> limit = Fin 0 then Fin 100 else limit); safeLimit = jmax (Fin 1) (jmin l (Fin 500)) in
      Call (Find_Rows (jmax (Fin 0) offset) safeLimit) (\<lambda>r. case r of ARows rows \<Rightarrow> Ret (Inr rows) | _ \<Rightarrow> Ret (Inl Audit_Other)))"

section \<open>The interceptor\<close>

definition PROTOCOL_FEE_BPS_MAX :: int where "PROTOCOL_FEE_BPS_MAX = 10000"

definition PROTOCOL_FEE_CAP_ADMIN_ROLES :: "string list" where
  "PROTOCOL_FEE_CAP_ADMIN_ROLES = [''admin'', ''protocol-admin'']"

definition SENSITIVE_HEADERS :: "string list" where
  "SENSITIVE_HEADERS = [''authorization'', ''cookie'', ''x-internal-key'', ''x-api-key'', ''proxy-authorization'']"

record admin_request =
  ad_method :: string
  ad_path :: string
  ad_ip :: "string option"
  ad_headers :: "(string \<times> string) list"
  ad_role :: "json option"
  ad_roles :: "json option"
  ad_body :: "json option"

text \<open>\<^verbatim>\<open>/^\/admin\/protocol\/fee-cap\/?$/\<close>\<close>

definition fee_cap_path :: "string \<Rightarrow> bool" where
  "fee_cap_path path = (path = ''/admin/protocol/fee-cap'' \<or> path = ''/admin/protocol/fee-cap/'')"

definition normalizePath :: "string \<Rightarrow> string" where
  "normalizePath rawPath = (let p = hd (split_on (CHR ''?'') rawPath) in if p \<noteq> [] then p else ''/'')"

definition deriveResource :: "string \<Rightarrow> string" where
  "deriveResource path =
     (case filter (\<lambda>s. s \<noteq> []) (split_on (CHR ''/'') path) of
        [] \<Rightarrow> ''admin''
      | s # ss \<Rightarrow> if s = ''admin'' \<and> ss \<noteq> [] then hd ss else s)"

definition deriveActor :: "(string \<times> string) list \<Rightarrow> string" where
  "deriveActor headers =
     (case filter (\<lambda>h. lower_text (fst h) \<in> set SENSITIVE_HEADERS) headers of
        [] \<Rightarrow> ''anonymous'' | h # _ \<Rightarrow> ''header:'' @ lower_text (fst h))"

definition resolveRoles :: "admin_request \<Rightarrow> string list" where
  "resolveRoles request =
     (case ad_role request of Some (JStr r) \<Rightarrow> [lower_text r] | _ \<Rightarrow> []) @
     (case ad_roles request of Some (JArr rs) \<Rightarrow> concat (map (\<lambda>v. case v of JStr r \<Rightarrow> [lower_text r] | _ \<Rightarrow> []) rs) | _ \<Rightarrow> [])"

definition extractFeeBps :: "json option \<Rightarrow> jsnum option" where
  "extractFeeBps body =
     (case Option.bind body (\<lambda>b. json_coalesce [json_field b ''feeBps'', json_field b ''fee_bps'', json_field b ''bps'']) of
        None \<Rightarrow> None
      | Some (JNum x) \<Rightarrow> Some x
      | Some (JStr s) \<Rightarrow> if trim s \<noteq> [] then Some (num_of_string s) else Some NaN
      | Some _ \<Rightarrow> Some NaN)"

datatype fee_cap_denial = Fee_Cap_Forbidden | Fee_Cap_Invalid

definition valid_bps :: "jsnum \<Rightarrow> bool" where
  "valid_bps bps = (is_integer bps \<and> \<not> jlt bps (Fin 0) \<and> \<not> jlt (Fin (of_int PROTOCOL_FEE_BPS_MAX)) bps)"

definition authorizeFeeCap :: "string \<Rightarrow> string \<Rightarrow> admin_request \<Rightarrow> fee_cap_denial option" where
  "authorizeFeeCap method path request =
     (if \<not> fee_cap_path path then None
      else if method \<notin> {''POST'', ''PUT'', ''PATCH''} then None
      else if \<not> list_ex (\<lambda>r. r \<in> set PROTOCOL_FEE_CAP_ADMIN_ROLES) (resolveRoles request) then Some Fee_Cap_Forbidden
      else (case extractFeeBps (ad_body request) of
          None \<Rightarrow> None
        | Some bps \<Rightarrow> if \<not> valid_bps bps then Some Fee_Cap_Invalid else None))"

definition upper_char :: "char \<Rightarrow> char" where
  "upper_char c = (if 97 \<le> (of_char c :: int) \<and> (of_char c :: int) \<le> 122 then char_of ((of_char c :: nat) - 32) else c)"

text \<open>What of the audit record reaches the log: method, path and correlation id are no fields of its input.\<close>

definition interceptor_log :: "admin_request \<Rightarrow> string \<Rightarrow> string \<Rightarrow> int \<Rightarrow> log_input" where
  "interceptor_log request method path status =
     \<lparr>li_actor = deriveActor (ad_headers request), li_action = method @ '' '' @ path, li_resource = Some (deriveResource path),
       li_meta = None, li_ip = ad_ip request, li_statusCode = Some status\<rparr>"

datatype intercept_result = Denied fee_cap_denial | Handled "int option + int"

text \<open>
  The handler returns the status of its response or throws, with the status of the exception if it has one. Every write to
  the log is started and not waited for.
\<close>

definition intercept :: "admin_request \<Rightarrow> (au_call, au_reply, intercept_result) prog" where
  "intercept request =
     (let method = map upper_char (ad_method request); path = normalizePath (ad_path request) in
      Call Audit_Clock (\<lambda>_.
      case authorizeFeeCap method path request of
        Some denial \<Rightarrow> Call (Start_Log (interceptor_log request method path 403)) (\<lambda>_. Ret (Denied denial))
      | None \<Rightarrow> Call Run_Handler (\<lambda>r.
          let res = (case r of AResult x \<Rightarrow> x | _ \<Rightarrow> Inl None);
              status = (case res of Inr status \<Rightarrow> status | Inl thrown \<Rightarrow> or_else thrown 500) in
          Call (Start_Log (interceptor_log request method path status)) (\<lambda>_. Ret (Handled res)))))"

section \<open>The trading switch (\<^verbatim>\<open>pool-trading.service.ts\<close>)\<close>

record trading_state =
  td_poolId :: string
  td_paused :: bool
  td_active :: bool
  td_updatedAt :: string

datatype td_call = Find_Pool_Id string | Set_Pool_Active string bool

datatype td_reply = DErr string | DFound bool | DUpdated string bool int

datatype td_exn = Td_Bad_Request | Td_Not_Found | Td_Error string

definition setPaused :: "(int \<Rightarrow> string) \<Rightarrow> string \<Rightarrow> bool \<Rightarrow> (td_call, td_reply, td_exn + trading_state) prog" where
  "setPaused date_text poolId paused =
     Call (Find_Pool_Id poolId) (\<lambda>r. case r of
       DFound True \<Rightarrow> Call (Set_Pool_Active poolId (\<not> paused)) (\<lambda>u. case u of
           DUpdated i active t \<Rightarrow> Ret (Inr \<lparr>td_poolId = i, td_paused = (\<not> active), td_active = active, td_updatedAt = date_text t\<rparr>)
         | DErr e \<Rightarrow> Ret (Inl (Td_Error e))
         | _ \<Rightarrow> Ret (Inl (Td_Error ''unexpected reply'')))
     | DFound False \<Rightarrow> Ret (Inl Td_Not_Found)
     | DErr e \<Rightarrow> Ret (Inl (Td_Error e))
     | _ \<Rightarrow> Ret (Inl (Td_Error ''unexpected reply'')))"

definition setTradingState :: "(int \<Rightarrow> string) \<Rightarrow> string \<Rightarrow> json option \<Rightarrow> (td_call, td_reply, td_exn + trading_state) prog" where
  "setTradingState date_text poolId body =
     (case Option.bind body (\<lambda>b. json_field b ''paused'') of
        Some (JBool paused) \<Rightarrow> setPaused date_text poolId paused
      | _ \<Rightarrow> Ret (Inl Td_Bad_Request))"

section \<open>What is recorded\<close>

definition clean_record :: "audit_record \<Rightarrow> bool" where
  "clean_record r =
     (ar_actorId r \<noteq> [] \<and> ar_actorRole r \<in> set ADMIN_AUDIT_ALLOWED_ROLES \<and> ar_network r \<in> set ADMIN_AUDIT_ALLOWED_NETWORKS \<and>
      ar_action r \<noteq> [] \<and> length (ar_action r) \<le> 128 \<and> ar_idempotencyKey r \<noteq> [] \<and>
      (\<forall>kv \<in> set (or_else (ar_metadata r) []). secret_key (fst kv) \<longrightarrow> snd kv = JStr ''[REDACTED]''))"

fun clean_call :: "au_call \<Rightarrow> bool" where
  "clean_call (Persist_Record r) = clean_record r"
| "clean_call (Remember k r) = (clean_record r \<and> k = ar_idempotencyKey r)"
| "clean_call (Push_Record r) = False"
| "clean_call (Create_Row a b c d e f) = False"
| "clean_call (Start_Log i) = False"
| "clean_call _ = True"

abbreviation au_meets :: "('a \<Rightarrow> bool) \<Rightarrow> (au_call, au_reply, 'a) prog \<Rightarrow> bool" where
  "au_meets \<equiv> meets clean_call (\<lambda>_ _. True)"

definition good_actor :: "audit_actor option \<Rightarrow> bool" where
  "good_actor actor = (case actor of None \<Rightarrow> False | Some a \<Rightarrow> aa_id a \<noteq> [] \<and> aa_role a \<in> set ADMIN_AUDIT_ALLOWED_ROLES)"

lemma assertAuthorized_meets: "au_meets (\<lambda>x. isl x \<or> good_actor actor) (assertAuthorized actor cid)"
  by (cases actor) (auto simp: assertAuthorized_def good_actor_def au_clock_def Let_def split: option.split au_reply.split)

lemma sanitized: "kv \<in> set (or_else (sanitizeMetadata m) []) \<Longrightarrow> secret_key (fst kv) \<Longrightarrow> snd kv = JStr ''[REDACTED]''"
  by (cases m) (auto simp: sanitizeMetadata_def split: if_splits)

lemma record_clean:
  assumes "good_actor (aq_actor q)" and "valid_action (aq_action q)" and "text_of (aq_idempotencyKey q) \<noteq> []"
    and "network \<in> set ADMIN_AUDIT_ALLOWED_NETWORKS"
  shows "clean_record (audit_record_of date_text q (the (aq_actor q)) cid network t)"
  using assms sanitized [of _ "aq_metadata q"]
  by (auto simp: clean_record_def audit_record_of_def good_actor_def valid_action_def split: option.splits)

lemma store_record_meets: "clean_record r \<Longrightarrow> au_meets (\<lambda>x. isl x \<or> clean_record (projr x)) (store_record r)"
  by (simp add: store_record_def)

lemma record_checked_meets:
  assumes "good_actor (aq_actor q)"
  shows "au_meets (\<lambda>x. isl x \<or> clean_record (projr x)) (record_checked date_text network cid q)"
  using record_clean [OF assms] store_record_meets by (simp add: record_checked_def au_clock_def split: au_reply.split)

lemma record_audit_meets: "au_meets (\<lambda>x. isl x \<or> clean_record (projr x)) (record_audit date_text network fresh q)"
  unfolding record_audit_def Let_def prog_then_def
proof (rule meets_bind [OF assertAuthorized_meets])
  fix x :: "audit_exn + unit" assume "isl x \<or> good_actor (aq_actor q)"
  then show "au_meets (\<lambda>x. isl x \<or> clean_record (projr x))
      (case x of Inl e \<Rightarrow> Ret (Inl e) | Inr y \<Rightarrow> record_checked date_text network (or_else (aq_correlationId q) fresh) q)"
    using record_checked_meets by (cases x) auto
qed

text \<open>
  However requests to record an action interleave and whatever the store answers, a record that is persisted or remembered has an
  actor with an allowed role, an allowed network, an action of at most 128 characters and a key, and shows no value of a
  field whose name speaks of a secret.
\<close>

lemma audit_records_clean:
  assumes "steps exec drift (map (\<lambda>(fresh, q). record_audit date_text network fresh q) qs, s) tr (ts', s')"
    and "(i, c, r) \<in> set tr"
  shows "clean_call c"
proof -
  have "True \<and> (\<forall>m \<in> set ts'. guarded clean_call (\<lambda>_ _. True) m) \<and> (\<forall>(i, c, r) \<in> set tr. clean_call c)"
  proof (rule steps_guarded [where I = "\<lambda>_. True", OF assms(1)])
    fix m assume "m \<in> set (map (\<lambda>(fresh, q). record_audit date_text network fresh q) qs)"
    then obtain fresh q where "m = record_audit date_text network fresh q" by auto
    then have "au_meets (\<lambda>x. isl x \<or> clean_record (projr x)) m" using record_audit_meets by simp
    then show "guarded clean_call (\<lambda>_ _. True) m" by (induction m) auto
  qed simp_all
  then show ?thesis using assms(2) by blast
qed

section \<open>The fee cap\<close>

definition fee_cap_change :: "admin_request \<Rightarrow> bool" where
  "fee_cap_change q = (fee_cap_path (normalizePath (ad_path q)) \<and> map upper_char (ad_method q) \<in> {''POST'', ''PUT'', ''PATCH''})"

definition may_change_cap :: "admin_request \<Rightarrow> bool" where
  "may_change_cap q =
     (list_ex (\<lambda>r. r \<in> set PROTOCOL_FEE_CAP_ADMIN_ROLES) (resolveRoles q) \<and>
      (case extractFeeBps (ad_body q) of None \<Rightarrow> True
       | Some bps \<Rightarrow> \<exists>n. bps = Fin (of_int n) \<and> 0 \<le> n \<and> n \<le> PROTOCOL_FEE_BPS_MAX))"

lemma valid_bps_iff: "valid_bps bps \<longleftrightarrow> (\<exists>n. bps = Fin (of_int n) \<and> 0 \<le> n \<and> n \<le> PROTOCOL_FEE_BPS_MAX)"
proof (cases bps)
  case (Fin x)
  then show ?thesis by (auto simp: valid_bps_def PROTOCOL_FEE_BPS_MAX_def not_less)
qed (simp_all add: valid_bps_def)

lemma authorizeFeeCap_None:
  "authorizeFeeCap (map upper_char (ad_method q)) (normalizePath (ad_path q)) q = None \<longleftrightarrow> (fee_cap_change q \<longrightarrow> may_change_cap q)"
  by (auto simp: authorizeFeeCap_def fee_cap_change_def may_change_cap_def valid_bps_iff split: option.split)

lemma prefixed_path: "starts_with ''/v1'' p \<Longrightarrow> \<not> fee_cap_path (normalizePath p)"
proof -
  assume "starts_with ''/v1'' p"
  then obtain q where "p = ''/v1'' @ q" unfolding starts_with_def by (metis append_take_drop_id)
  then show ?thesis by (auto simp: fee_cap_path_def normalizePath_def Let_def split: list.split if_splits)
qed

text \<open>The guard of the fee cap lets a change through exactly for an admin role with a cap of 0 to 10000 basis points or none,
  and otherwise never runs the handler. It compares with a path without the prefix v1 under which the application mounts
  every route, so on any request below that prefix the handler runs whoever asks and whatever the cap.\<close>

theorem fee_cap_guard:
  "(\<exists>x. fst (run exec (intercept q) s) = Handled x) \<longleftrightarrow> (fee_cap_change q \<longrightarrow> may_change_cap q)"
  unfolding authorizeFeeCap_None [symmetric] intercept_def Let_def
  by (cases "authorizeFeeCap (map upper_char (ad_method q)) (normalizePath (ad_path q)) q") (simp_all split: prod.split)

theorem fee_cap_guard_misses_prefix:
  "starts_with ''/v1'' (ad_path q) \<Longrightarrow> \<exists>x. fst (run exec (intercept q) s) = Handled x"
  using fee_cap_guard [of exec q s] prefixed_path [of "ad_path q"] by (simp add: fee_cap_change_def)

end
