(* ===== verification/Spec2Isabelle.thy ===== *)
theory Spec2Isabelle
  imports Prelude Js_Number Js_Rounding Js_Map Position_Laws Quote_Laws Swap_Tx Liquidity_Laws Sdk_Errors
    Observability Key_Ring Limiter Dlq_Guard Internal_Guards Rate_Limit_Laws Auth_Laws Indexer_Laws
    Indexer_Races Single_Flight Dead_Letters Replay Replay_Laws Cache Cache_Laws
    Candles Candle_Laws Candle_Runs Candle_Jobs Ticks_Laws
    Prog_Wp Horizon Horizon_Laws Horizon_Polls Horizon_Props
    Js_Text Json Webhook_Guard Webhooks Webhook_Laws Webhook_Owners
    Event_Ingest Ingest_Laws Jwt_Guard Jwt_Laws Ws_Auth Price_Hub Price_Laws Price_Props Prices Price_Reads
    Js_Accuracy Pool_Stats Pool_Stats_Laws Stats_Jobs Stats_Laws Base_Units Paging Pools Pool_Laws Balances Swap_Reads Positions Positions_Laws Compression Admin_Audit
begin

text \<open>
  A model of the TypeScript code of Swyft, a concentrated-liquidity exchange on Stellar, and of what makes it
  correct. The repository has a client library (\<^verbatim>\<open>packages/sdk\<close>), an API service (\<^verbatim>\<open>apps/api\<close>), a web
  client (\<^verbatim>\<open>apps/web\<close>) and contracts. The SDK computes amounts and quotes and builds unsigned transactions;
  the API authenticates wallets and operators, limits requests, indexes the ledger's events through job
  queues into a database, keeps failed jobs as dead letters and replays them, and aggregates price candles.

  \<^bold>\<open>Foundations.\<close> Prelude: results as sums, a state monad for guards, truncating division. Js_Number and
  Js_Rounding: numbers of JavaScript as IEEE doubles (exact rationals rounded at each step), BigInt, and
  their parsing and printing, with rounding laws and round trips. Js_Text and Json: strings and JSON values. Js_Map: \<^verbatim>\<open>Map\<close> in insertion order; locale
  \<open>keyed_store\<close>. Service_Prog: asynchronous code as trees of calls; \<open>run\<close> is one handler alone, \<open>steps\<close> any
  interleaving of handlers with steps of the surroundings; \<open>feed\<close> and its lemmas derive what a handler did
  from the replies it got. Single_Flight: services that share work in flight through a map of promises;
  locale \<open>single_flight\<close> proves that operations of one key never overlap, that who joined gets a result of that
  key, that some request can always go on, and that no key is left behind.

  \<^bold>\<open>SDK.\<close> Position_Math and Position_Laws (\<^verbatim>\<open>position-math.ts\<close>): tick and price conversion, amounts and liquidity
  of a position; locale \<open>price_scale\<close>; tick round trip, no liquidity out of nothing, the distance to the
  contract's formula. Quote and Quote_Laws (\<^verbatim>\<open>quote.ts\<close>): estimates, the swap step and the tick-walking quote,
  with what a step and a quote consume and give. Stellar_Tx, Swap_Tx (\<^verbatim>\<open>swap.ts\<close>), Liquidity_Tx and
  Liquidity_Laws (\<^verbatim>\<open>liquidity.ts\<close>): the transaction builders with all their checks, and which calls a built
  envelope holds. Sdk_Errors (\<^verbatim>\<open>errors.ts\<close>): the code map and the wrapper.

  \<^bold>\<open>Operators and requests.\<close> Observability (\<^verbatim>\<open>observability/\<close>): bounded counters and correlation ids. Key_Ring,
  Limiter, Dlq_Guard, Internal_Guards (\<^verbatim>\<open>admin/internal-key-ring.ts\<close>, \<^verbatim>\<open>admin/internal-key.guard.ts\<close>,
  \<^verbatim>\<open>indexer/dlq-replay.guard.ts\<close>, \<^verbatim>\<open>auth/api-key.guard.ts\<close>): every check of the guards in its order, and what a
  granted request implies; the pool-init guard grants none, because its comparison function is unbound. Redis: the commands and the two Lua scripts, with the documented laws of the
  store. Rate_Limit and Rate_Limit_Laws (\<^verbatim>\<open>rate-limit.middleware.ts\<close>), Auth and Auth_Laws (\<^verbatim>\<open>auth.service.ts\<close>,
  \<^verbatim>\<open>nonce.controller.ts\<close>), Cache and Cache_Laws (\<^verbatim>\<open>cache.service.ts\<close>): programs over Redis calls, with limits,
  single use of nonces and shared fetches proved for every interleaving.

  \<^bold>\<open>Indexing.\<close> Indexer_Db: job payloads, rows and the database calls with their laws. Indexer
  (\<^verbatim>\<open>indexer.worker.ts\<close>, \<^verbatim>\<open>indexer-cursor.service.ts\<close>, \<^verbatim>\<open>token-enrichment.service.ts\<close>): the five handlers, the
  token metadata that the pool handler fetches, and the checkpoint, which is never stored because the cache
  method it calls first does not exist. Indexer_Laws: an abstract specification of each job, over what clock,
  contracts and token list told, and the refinement; what a job that is delivered again changes.
  Indexer_Races: rows are written once, an acknowledged job has left its row, what a restart resumes from.
  Dead_Letters and Replay (\<^verbatim>\<open>indexer-dead-letter.service.ts\<close>, \<^verbatim>\<open>indexer-replay.service.ts\<close>) and Replay_Laws:
  recording, reading and replaying dead letters and ledgers, what a replay marks as recovered, how
  concurrent and repeated requests are answered, and where they are answered wrongly.

  \<^bold>\<open>Candles\<close> (\<^verbatim>\<open>candles.service.ts\<close>). Candles: aggregation of a period, the gap check, the catch-up loop and the
  ticks endpoint. Candle_Laws: a candle is the open, high, low, close and volume of its points; an hour of
  five-minute candles has the prices of the hour of swaps; what the gap check looks at. Candle_Runs: the
  periods the loop visits and that it ends. Candle_Jobs: no period in two hands, every candle well formed.
  Ticks_Laws: following the cursors reads every candle once.

  \<^bold>\<open>Ingestion\<close> (\<^verbatim>\<open>horizon.service.ts\<close>). Prog_Wp: weakest preconditions of a handler whose surroundings change the
  state between its calls. Horizon: the timer, the polls of the tracked accounts, the jobs of a record, the
  cursors. Horizon_Laws and Horizon_Polls: records after a cursor, windows of a page, and the invariant that a
  cursor stays behind what the queues accepted. Horizon_Props: no event is skipped, and when one is. Event_Ingest
  and Ingest_Laws (\<^verbatim>\<open>indexer.service.ts\<close>): the parser of raw events accepts exactly what \<open>describes\<close> says, and
  the sink gains only what trusted callers sent.

  \<^bold>\<open>Webhooks\<close> (\<^verbatim>\<open>webhooks/\<close>). Webhook_Guard: blocked addresses, compared with address blocks as words; signatures; retry
  delays. Webhooks: the service, its endpoints and the delivery worker. Webhook_Laws: what a delivery must have
  seen before it posts. Webhook_Owners: other wallets' requests leave a webhook alone; when a webhook is given up.

  \<^bold>\<open>Callers.\<close> Jwt_Guard and Jwt_Laws (\<^verbatim>\<open>auth/jwt-auth.guard.ts\<close>, \<^verbatim>\<open>wallet-principal.ts\<close>, \<^verbatim>\<open>current-wallet.decorator.ts\<close>):
  bearer tokens, and that the wallet a handler gets was verified on its request; no token of the login passes.

  \<^bold>\<open>Prices\<close> (\<^verbatim>\<open>price/\<close>). Ws_Auth: the handshake policy. Price_Hub: the gateway and the subscriptions as a state machine
  (\<open>hub_reach\<close>). Price_Laws and Price_Props: its invariant, with the Redis channels as far as commands take
  effect, who has a session, who gets a price. Prices and
  Price_Reads: spot price and candles of a pair on request, what is answered and what never is.

  \<^bold>\<open>Statistics and alerts\<close> (\<^verbatim>\<open>stats/\<close>). Js_Accuracy: how far a few operations on doubles are from the exact value.
  Pool_Stats and Pool_Stats_Laws (\<^verbatim>\<open>pool-tvl.ts\<close>, \<^verbatim>\<open>volume-metrics.ts\<close>, the three price checks): value locked, volume and fees,
  and the accuracy of the value locked. Stats_Jobs (\<^verbatim>\<open>stats.worker.ts\<close>, \<^verbatim>\<open>tvl-alert.service.ts\<close>, \<^verbatim>\<open>stats.service.ts\<close>,
  \<^verbatim>\<open>usd-price-feed.service.ts\<close>): the job, thresholds and alerts, platform figures, the price feed. Stats_Laws: an alert of
  a threshold at most once a day as long as its two writes succeed, by weakest preconditions.

  \<^bold>\<open>Pools and balances\<close> (\<^verbatim>\<open>pools/\<close>, \<^verbatim>\<open>balances/\<close>). Paging: pages of a list and sorting. Pools and Pool_Laws: the list, details,
  ticks, mint and burn; the pages of the list, cached or not, partition it, what the detail endpoint and the mutations never do.
  Base_Units and Balances: decimal strings and base units with their round trip, the slippage and metadata policies,
  the balances of a wallet.

  \<^bold>\<open>Swaps and positions\<close> (\<^verbatim>\<open>swaps/\<close>, \<^verbatim>\<open>positions/\<close>). Swap_Reads: the list of swaps and the quote endpoint, which
  composes the pool's row with the SDK's quote and never succeeds. Positions: snapshots with values, unclaimed
  fees and range status, the list, the bulk request and the activity feed. Positions_Laws: what a bulk answer holds.

  \<^bold>\<open>Responses and administration.\<close> Compression (\<^verbatim>\<open>compression.middleware.ts\<close>): configuration, choice of an encoding and
  the buffered response; a client reads what the handler wrote. Admin_Audit (\<^verbatim>\<open>admin/admin-audit.service.ts\<close>,
  \<^verbatim>\<open>admin-audit.interceptor.ts\<close>, \<^verbatim>\<open>pool-trading.service.ts\<close>): audit records and what they hold, the guard of the fee
  cap and the paths it misses, the trading switch.

  \<^bold>\<open>Parameters.\<close> What is not under \<^verbatim>\<open>src/\<close> is an argument with its documented behaviour as a hypothesis: Redis
  (\<open>redis_ok\<close>), Prisma and the queues (\<open>db_ok\<close>, \<open>dlq_ok\<close>, \<open>candle_ok\<close> and the variants that always answer), Horizon (\<open>hz_ok\<close>), webhook storage and endpoints (\<open>wh_ok\<close>),
  stellar-sdk, the JWT library, SHA-256, date texts, random sources and the clock. Each law is shown to hold of a
  concrete store (\<open>mem_exec\<close>, \<open>mem_db\<close>, \<open>mem_dlq\<close>, \<open>mem_cache\<close>, \<open>mem_candles\<close>), which the witnesses run.

  \<^bold>\<open>Bounds.\<close> The model needs no fuel: every loop of the modelled code is over a list or has a measure (the
  catch-up loop and the gap check are recursive functions whose measure is the distance to the end of the
  window). \<open>read_all\<close>, which is a client of the ticks endpoint, takes a bound on the number of pages; one more
  than the number of candles is enough. Times are whole milliseconds; divisions of times are exact because
  they stay far below \<open>2 ^ 53\<close>.

  \<^bold>\<open>Not modelled.\<close> Logging, tracing spans and metrics exports; framework set-up; the React client; HTTP clients of
  the SDK (\<^verbatim>\<open>queries.ts\<close>); the Rust contracts, of which only the amount formula is used for comparison; the
  connections of the cache service; the volume of a candle is a sum of doubles whose rounding depends on the
  grouping, so it is left out of the comparison of hours. The weekly pass of the token metadata, the audit log's
  fallback without a database and the administration's analytics are not modelled.
\<close>

end
